(* ===== verification/Prelude.thy ===== *)
theory Prelude
  imports Main "HOL-Library.Word" "HOL-Library.Monad_Syntax"
begin

text \<open>
  Shared ground of the development: C arrays and strings as lists of \<open>char\<close>, 32-bit integers and
  their memory image, decimal rendering and reading.

  A result of type \<open>'a option\<close> whose \<open>None\<close> is described as a \<^emph>\<open>memory fault\<close> stands for
  undefined behaviour of the C program at that point (a read or write outside an array, a use of a
  null or freed pointer). Error codes of the program are values, never \<open>None\<close>.
\<close>

named_theorems fault_simps \<open>evaluation rules of the operations that may fault\<close>

type_synonym u32 = "32 word"
type_synonym bytes = "char list"

abbreviation NUL :: char where
  "NUL \<equiv> CHR 0x00"

section \<open>C strings inside arrays\<close>

text \<open>The string held by an array: up to the first NUL. Without a NUL, \<open>strlen\<close> and its kin run past
  the end of the array, which is a fault.\<close>

definition c_str :: "bytes \<Rightarrow> string option" where
  "c_str a = (if NUL \<in> set a then Some (takeWhile (\<lambda>c. c \<noteq> NUL) a) else None)"

text \<open>\<open>memset(a, 0, n); memcpy(a, v, strlen(v))\<close> on an array of \<open>n\<close> bytes.\<close>

definition arr_fill :: "nat \<Rightarrow> string \<Rightarrow> bytes option" where
  "arr_fill n v = (if length v \<le> n then Some (v @ replicate (n - length v) NUL) else None)"

text \<open>\<open>memcpy(a, v, strlen(v))\<close>, which is also \<open>strncpy(a, v, strlen(v))\<close>: no NUL is written.\<close>

definition arr_copy :: "string \<Rightarrow> bytes \<Rightarrow> bytes option" where
  "arr_copy v a = (if length v \<le> length a then Some (v @ drop (length v) a) else None)"

lemma c_str_append_NUL: "NUL \<notin> set v \<Longrightarrow> c_str (v @ NUL # r) = Some v"
  by (auto simp: c_str_def takeWhile_append)

lemma c_str_no_NUL: "NUL \<notin> set a \<Longrightarrow> c_str a = None"
  by (simp add: c_str_def)

lemma c_str_SomeD:
  assumes "c_str a = Some v"
  shows "NUL \<notin> set v" and "length v < length a"
proof -
  from assms have n: "NUL \<in> set a" and v: "v = takeWhile (\<lambda>c. c \<noteq> NUL) a"
    by (auto simp: c_str_def split: if_splits)
  show "NUL \<notin> set v" using v by (auto dest: set_takeWhileD)
  have "takeWhile (\<lambda>c. c \<noteq> NUL) a \<noteq> a"
    using n by (metis set_takeWhileD)
  then show "length v < length a"
    using v by (metis length_takeWhile_le nat_less_le takeWhile_eq_take take_all)
qed

lemma length_arr_fill: "arr_fill n v = Some a \<Longrightarrow> length a = n"
  by (auto simp: arr_fill_def split: if_splits)

lemma length_arr_copy: "arr_copy v a = Some b \<Longrightarrow> length b = length a"
  by (auto simp: arr_copy_def split: if_splits)

lemma c_str_arr_fill:
  assumes "NUL \<notin> set v" and "length v < n"
  shows "arr_fill n v \<bind> c_str = Some v"
proof -
  obtain k where k: "n - length v = Suc k"
    using assms(2) by (metis Suc_diff_Suc)
  show ?thesis
    using assms by (simp add: arr_fill_def k c_str_append_NUL)
qed

lemma arr_fill_full: "length v = n \<Longrightarrow> arr_fill n v = Some v"
  by (simp add: arr_fill_def)

text \<open>\<open>sprintf(a, "%s", v)\<close> and \<open>strcat(a, v)\<close>: the text with its NUL must fit into the array.\<close>

definition arr_puts :: "string \<Rightarrow> bytes \<Rightarrow> bytes option" where
  "arr_puts v a =
     (if length v < length a then Some (v @ NUL # drop (Suc (length v)) a) else None)"

definition arr_cat :: "string \<Rightarrow> bytes \<Rightarrow> bytes option" where
  "arr_cat v a = do {
     s \<leftarrow> c_str a;
     (if length s + length v < length a
      then Some (s @ v @ NUL # drop (Suc (length s + length v)) a) else None) }"

text \<open>A \<open>sprintf\<close> into a local array of \<open>n\<close> bytes that is then used as a string.\<close>

definition fits :: "nat \<Rightarrow> string \<Rightarrow> string option" where
  "fits n v = (if length v < n then Some v else None)"

lemma length_arr_puts: "arr_puts v a = Some b \<Longrightarrow> length b = length a"
  by (auto simp: arr_puts_def split: if_splits)

lemma length_arr_cat: "arr_cat v a = Some b \<Longrightarrow> length b = length a"
  by (auto simp: arr_cat_def split: bind_splits if_splits)

lemma arr_puts_ok:
  assumes "NUL \<notin> set v" and "length v < length a"
  obtains b where "arr_puts v a = Some b" and "c_str b = Some v" and "length b = length a"
  using assms that by (auto simp: arr_puts_def c_str_append_NUL)

lemma arr_cat_ok:
  assumes "c_str a = Some s" and "NUL \<notin> set v" and "length s + length v < length a"
  obtains b where "arr_cat v a = Some b" and "c_str b = Some (s @ v)" and "length b = length a"
  using assms that c_str_append_NUL [of "s @ v"] c_str_SomeD(1) [OF assms(1)]
  by (auto simp: arr_cat_def)

section \<open>Integers of 32 bits in memory\<close>

text \<open>Little-endian image of an \<open>int\<close> or \<open>uint32_t\<close>.\<close>

definition le32 :: "u32 \<Rightarrow> bytes" where
  "le32 w = map (\<lambda>i. char_of (unat w div 256 ^ i)) [0, 1, 2, 3]"

definition un32 :: "bytes \<Rightarrow> u32" where
  "un32 b = of_nat (foldr (\<lambda>c acc. of_char c + 256 * acc) (take 4 b) (0::nat))"

lemma length_le32 [simp]: "length (le32 w) = 4"
  by (simp add: le32_def)

lemma digits256:
  fixes n :: nat
  assumes "n < 2 ^ 32"
  shows "n mod 256 + 256 * (n div 256 mod 256 + 256 * (n div 65536 mod 256
           + 256 * (n div 16777216 mod 256))) = n"
proof -
  have d: "n div 65536 = n div 256 div 256" "n div 16777216 = n div 256 div 256 div 256"
    by (simp_all flip: div_mult2_eq)
  have "n div 256 div 256 div 256 < 256"
    using assms by (simp flip: div_mult2_eq add: less_mult_imp_div_less)
  then show ?thesis
    unfolding d by (metis (no_types) mod_less mod_mult_div_eq mult.commute add.commute)
qed

lemma un32_le32 [simp]: "un32 (le32 w) = w"
proof -
  have b: "unat w < 2 ^ 32" using unsigned_less [of w] by simp
  have "un32 (le32 w) = of_nat (unat w mod 256 + 256 * (unat w div 256 mod 256
          + 256 * (unat w div 65536 mod 256 + 256 * (unat w div 16777216 mod 256))))"
    by (simp add: un32_def le32_def)
  also have "\<dots> = of_nat (unat w)" by (simp only: digits256 [OF b])
  finally show ?thesis by simp
qed

lemma un32_le32_append [simp]: "un32 (le32 w @ r) = w"
proof -
  have "un32 (le32 w @ r) = un32 (le32 w)"
    by (simp add: un32_def)
  then show ?thesis by simp
qed

text \<open>The same over \<open>int\<close>, for evaluation.\<close>

lemma le32_code [code]: "le32 w = map (\<lambda>i. char_of (uint w div 256 ^ i)) [0, 1, 2, 3]"
proof -
  have "char_of (uint w div 256 ^ i) = char_of (unat w div 256 ^ i)" for i :: nat
    by (metis char_of_nat uint_nat zdiv_int of_nat_power of_nat_numeral)
  then show ?thesis by (simp add: le32_def)
qed

lemma un32_code [code]: "un32 b = of_int (foldr (\<lambda>c acc. of_char c + 256 * acc) (take 4 b) 0)"
proof -
  have "int (foldr (\<lambda>c acc. of_char c + 256 * acc) l 0) = foldr (\<lambda>c acc. of_char c + 256 * acc) l 0" for l
    by (induction l) (simp_all add: of_nat_of_char)
  then show ?thesis by (metis of_int_of_nat_eq un32_def)
qed

section \<open>Reading words as numbers\<close>

lemma unat_lt32: "unat (w :: u32) < 2 ^ 32"
  using unsigned_less [of w] by simp

lemma unat_of_nat32: "n < 2 ^ 32 \<Longrightarrow> unat (of_nat n :: u32) = n"
  by (simp add: unsigned_of_nat take_bit_nat_eq_self)

lemma mod_wrap32:
  fixes a b :: nat
  assumes "a < 2 ^ 32" and "b < 2 ^ 32"
  shows "(a + b) mod 2 ^ 32 = (if a + b < 2 ^ 32 then a + b else a + b - 2 ^ 32)"
  using assms by (auto simp: mod_if)

lemma sint_word_cases:
  fixes w :: u32
  shows "sint w = (if unat w < 2 ^ 31 then int (unat w) else int (unat w) - 2 ^ 32)"
proof -
  have u: "uint w < 2 ^ 32" "0 \<le> uint w" using uint_lt2p [of w] by simp_all
  have "sint w = signed_take_bit 31 (uint w)"
    by (simp add: sint_uint)
  also have "\<dots> = (if uint w < 2 ^ 31 then uint w else uint w - 2 ^ 32)"
  proof (cases "uint w < 2 ^ 31")
    case True
    then have "signed_take_bit 31 (uint w) = uint w"
      using u by (intro signed_take_bit_int_eq_self) linarith+
    then show ?thesis using True by simp
  next
    case False
    have "signed_take_bit 31 (uint w) = (uint w + 2 ^ 31) mod 2 ^ 32 - 2 ^ 31"
      by (simp add: signed_take_bit_eq_take_bit_shift take_bit_eq_mod)
    also have "(uint w + 2 ^ 31) mod 2 ^ 32 = (uint w + 2 ^ 31 - 2 ^ 32) mod 2 ^ 32"
      by (rule minus_mod_self2 [symmetric])
    also have "\<dots> = uint w + 2 ^ 31 - 2 ^ 32"
      using False u by (intro mod_pos_pos_trivial) simp_all
    finally show ?thesis using False by simp
  qed
  also have "uint w = int (unat w)" by simp
  finally show ?thesis by (simp del: of_nat_unat)
qed

section \<open>Decimal rendering\<close>

text \<open>What \<open>printf\<close> writes for \<open>%d\<close> and \<open>%u\<close>.\<close>

definition digit_char :: "nat \<Rightarrow> char" where
  "digit_char d = ''0123456789'' ! d"

fun dec_nat :: "nat \<Rightarrow> string" where
  "dec_nat n = (if n < 10 then [digit_char n] else dec_nat (n div 10) @ [digit_char (n mod 10)])"

definition dec_int :: "int \<Rightarrow> string" where
  "dec_int i = (if i < 0 then CHR ''-'' # dec_nat (nat (- i)) else dec_nat (nat i))"

declare dec_nat.simps [simp del]

definition is_digit :: "char \<Rightarrow> bool" where
  "is_digit c \<longleftrightarrow> 48 \<le> (of_char c :: nat) \<and> (of_char c :: nat) \<le> 57"

definition digit_val :: "char \<Rightarrow> nat" where
  "digit_val c = of_char c - 48"

text \<open>The number a run of digits denotes.\<close>

definition nat_of_dec :: "string \<Rightarrow> nat" where
  "nat_of_dec ds = foldl (\<lambda>n c. 10 * n + digit_val c) 0 ds"

lemma digit_char_facts [simp]:
  assumes "d < 10"
  shows "is_digit (digit_char d)" and "digit_val (digit_char d) = d"
proof -
  have "d \<in> {0, 1, 2, 3, 4, 5, 6, 7, 8, 9}" using assms by auto
  then show "is_digit (digit_char d)" and "digit_val (digit_char d) = d"
    by (auto simp: is_digit_def digit_val_def digit_char_def)
qed

lemma dec_nat_digits: "\<forall>c \<in> set (dec_nat n). is_digit c"
proof (induction n rule: dec_nat.induct)
  case (1 n)
  then show ?case by (subst dec_nat.simps) auto
qed

lemma dec_nat_not_Nil [simp]: "dec_nat n \<noteq> []"
  by (subst dec_nat.simps) simp

text \<open>The same over \<open>int\<close>, for evaluation.\<close>

function dec_pos :: "int \<Rightarrow> string" where
  "dec_pos i = (if i < 10 then [digit_char (nat i)] else dec_pos (i div 10) @ [digit_char (nat (i mod 10))])"
  by pat_completeness auto
termination by (relation "measure nat") auto

declare dec_pos.simps [simp del]

lemma dec_pos_nat: "dec_pos (int n) = dec_nat n"
proof (induction n rule: dec_nat.induct)
  case (1 n)
  have "nat (int n mod 10) = n mod 10" by (simp add: nat_mod_distrib)
  then show ?case using 1 by (simp add: dec_pos.simps [of "int n"] dec_nat.simps [of n] zdiv_int)
qed

lemma dec_int_code [code]: "dec_int i = (if i < 0 then CHR ''-'' # dec_pos (- i) else dec_pos i)"
  using dec_pos_nat [of "nat i"] dec_pos_nat [of "nat (- i)"] by (cases "i < 0") (simp_all add: dec_int_def)

lemma length_dec_nat: "n < 10 ^ k \<Longrightarrow> 0 < k \<Longrightarrow> length (dec_nat n) \<le> k"
proof (induction n arbitrary: k rule: dec_nat.induct)
  case (1 n)
  show ?case
  proof (cases "n < 10")
    case True
    then show ?thesis using 1 by (subst dec_nat.simps) simp
  next
    case False
    then obtain j where j: "k = Suc j" "0 < j"
      using 1(2) by (cases k; cases "k - 1") auto
    then have "n div 10 < 10 ^ j" using 1(2) by (simp add: less_mult_imp_div_less mult.commute)
    then show ?thesis using 1(1) [OF False _ j(2)] False j by (subst dec_nat.simps) simp
  qed
qed

lemma nat_of_dec_nat [simp]: "nat_of_dec (dec_nat n) = n"
proof (induction n rule: dec_nat.induct)
  case (1 n)
  show ?case
  proof (cases "n < 10")
    case True
    then show ?thesis by (subst dec_nat.simps) (simp add: nat_of_dec_def)
  next
    case False
    then have "nat_of_dec (dec_nat n) = 10 * nat_of_dec (dec_nat (n div 10)) + n mod 10"
      by (subst dec_nat.simps) (simp add: nat_of_dec_def)
    then show ?thesis using 1 False by simp
  qed
qed

section \<open>Structures as bytes\<close>

text \<open>
  The configuration structures of the program are written to files as they lie in memory. The locale
  states what such an image must do: every structure of the right shape has an image of the
  structure's size, from which it can be read back, and every block of that size is the image of some
  structure (so a file with foreign contents yields a structure too).
\<close>

locale struct_image =
  fixes enc :: "'c \<Rightarrow> bytes" and dec :: "bytes \<Rightarrow> 'c" and wf :: "'c \<Rightarrow> bool" and sz :: u32
  assumes dec_enc: "wf c \<Longrightarrow> dec (enc c) = c"
    and length_enc: "wf c \<Longrightarrow> length (enc c) = unat sz"
    and wf_dec: "length b = unat sz \<Longrightarrow> wf (dec b)"
    and sz_pos: "sz \<noteq> 0"
begin

lemma enc_inj: "wf c \<Longrightarrow> wf d \<Longrightarrow> enc c = enc d \<Longrightarrow> c = d"
  using dec_enc by metis

lemma take_enc [simp]: "wf c \<Longrightarrow> take (unat sz) (enc c) = enc c"
  using length_enc by simp

lemma wf_partial:
  "wf c \<Longrightarrow> length got \<le> unat sz \<Longrightarrow> wf (dec (got @ drop (length got) (enc c)))"
  using length_enc by (intro wf_dec) simp

end

end
