(* ===== verification/FileSys.thy ===== *)
theory FileSys
  imports Prelude
begin

text \<open>
  The part of the C library's file interface that the sources use: a file system with files,
  directories, paths the system refuses to open and a number of free bytes, and the count of
  \<open>FILE\<close> streams that are open. Streams are unbuffered: \<open>fwrite\<close> reports a full disk itself.
  Code of the repository that only calls these functions is modelled in the theories that import
  this one.
\<close>

section \<open>The file system and streams\<close>

record filesys =
  fs_files :: "string \<Rightarrow> bytes option"
  fs_dirs :: "string set"
  fs_deny :: "string set"
  fs_room :: nat
  fs_open :: nat

record FILE =
  f_path :: string
  f_pos :: nat

text \<open>Names: \<open>a//b\<close>, \<open>a/./b\<close> and \<open>./a/b\<close> are the file \<open>a/b\<close>. The state is keyed by the resolved
  name; the root and the working directory both resolve to the empty name, and the sources use no
  symbolic links and no \<open>..\<close>.\<close>

fun split_slash :: "string \<Rightarrow> string list" where
  "split_slash [] = [[]]"
| "split_slash (c # cs) = (if c = CHR ''/'' then [] # split_slash cs
     else (case split_slash cs of [] \<Rightarrow> [[c]] | w # ws \<Rightarrow> (c # w) # ws))"

definition resolve :: "string \<Rightarrow> string" where
  "resolve p =
     (let ws = filter (\<lambda>w. w \<noteq> [] \<and> w \<noteq> ''.'') (split_slash p);
          q = concat (map ((#) (CHR ''/'')) ws)
      in if take 1 p = ''/'' then q else tl q)"

definition parent_dir :: "string \<Rightarrow> string" where
  "parent_dir p = (if CHR ''/'' \<in> set p
     then rev (tl (dropWhile (\<lambda>c. c \<noteq> CHR ''/'') (rev p))) else ''.'')"

definition dir_exists :: "string \<Rightarrow> filesys \<Rightarrow> bool" where
  "dir_exists d s \<longleftrightarrow> d = [] \<or> d = ''.'' \<or> d \<in> fs_dirs s"

text \<open>\<open>access(path, F_OK) == 0\<close>.\<close>

definition access_ok :: "string \<Rightarrow> filesys \<Rightarrow> bool" where
  "access_ok p s \<longleftrightarrow> p \<noteq> [] \<and> (fs_files s (resolve p) \<noteq> None \<or> dir_exists (resolve p) s)"

text \<open>\<open>mkdir(path, 0755) == 0\<close>, with the new state.\<close>

definition mkdir_fs :: "string \<Rightarrow> filesys \<Rightarrow> bool \<times> filesys" where
  "mkdir_fs p s =
     (if p = [] \<or> access_ok p s \<or> resolve p \<in> fs_deny s \<or> \<not> dir_exists (parent_dir (resolve p)) s
      then (False, s) else (True, s\<lparr>fs_dirs := insert (resolve p) (fs_dirs s)\<rparr>))"

text \<open>Conditions and sizes, on a resolved name.\<close>

definition can_write :: "string \<Rightarrow> filesys \<Rightarrow> bool" where
  "can_write p s \<longleftrightarrow> p \<notin> fs_deny s \<and> \<not> dir_exists p s \<and> dir_exists (parent_dir p) s"

definition can_read :: "string \<Rightarrow> filesys \<Rightarrow> bool" where
  "can_read p s \<longleftrightarrow> p \<noteq> [] \<and> p \<notin> fs_deny s \<and> fs_files s p \<noteq> None"

definition file_size :: "string \<Rightarrow> filesys \<Rightarrow> nat" where
  "file_size p s = (case fs_files s p of None \<Rightarrow> 0 | Some b \<Rightarrow> length b)"

text \<open>\<open>fopen(path, "wb+")\<close>: the file is created or emptied.\<close>

definition fopen_wb :: "string \<Rightarrow> filesys \<Rightarrow> FILE option \<times> filesys" where
  "fopen_wb p s = (if can_write (resolve p) s
     then (Some \<lparr>f_path = resolve p, f_pos = 0\<rparr>,
           s\<lparr>fs_files := (fs_files s)(resolve p \<mapsto> []),
             fs_room := fs_room s + file_size (resolve p) s, fs_open := Suc (fs_open s)\<rparr>)
     else (None, s))"

text \<open>\<open>fopen(path, "r")\<close>.\<close>

definition fopen_rd :: "string \<Rightarrow> filesys \<Rightarrow> FILE option \<times> filesys" where
  "fopen_rd p s = (if can_read (resolve p) s
     then (Some \<lparr>f_path = resolve p, f_pos = 0\<rparr>, s\<lparr>fs_open := Suc (fs_open s)\<rparr>)
     else (None, s))"

definition fclose_fs :: "filesys \<Rightarrow> filesys" where
  "fclose_fs s = s\<lparr>fs_open := fs_open s - 1\<rparr>"

definition file_bytes :: "FILE \<Rightarrow> filesys \<Rightarrow> bytes" where
  "file_bytes f s = (case fs_files s (f_path f) of None \<Rightarrow> [] | Some b \<Rightarrow> b)"

text \<open>\<open>fwrite(data, n, 1, f)\<close> at the end of a file: the number of items written, 0 or 1. Reading
  more than the data holds is a fault. A full disk leaves the part that fits.\<close>

definition fwrite1 :: "FILE \<Rightarrow> bytes \<Rightarrow> nat \<Rightarrow> filesys \<Rightarrow> (nat \<times> filesys) option" where
  "fwrite1 f d n s =
     (if length d < n then None
      else let w = min n (fs_room s) in
        Some (if w = n then 1 else 0,
          s\<lparr>fs_files := (fs_files s)(f_path f \<mapsto> file_bytes f s @ take w d),
            fs_room := fs_room s - w\<rparr>))"

text \<open>\<open>fread(buf, n, 1, f)\<close>: the items read (0 or 1), the buffer and the stream afterwards. A short
  file overwrites only the start of the buffer. Reading past the buffer is a fault.\<close>

definition fread1 :: "FILE \<Rightarrow> bytes \<Rightarrow> nat \<Rightarrow> filesys \<Rightarrow> (nat \<times> bytes \<times> FILE) option" where
  "fread1 f buf n s =
     (if length buf < n then None
      else let got = take n (drop (f_pos f) (file_bytes f s)) in
        Some (if length got = n then 1 else 0,
          got @ drop (length got) buf,
          f\<lparr>f_pos := f_pos f + length got\<rparr>))"

section \<open>Facts about the operations\<close>

lemma split_slash_not_Nil [simp]: "split_slash p \<noteq> []"
  by (cases p) (auto split: list.split)

lemma split_slash_dot: "split_slash (''./'' @ p) = ''.'' # split_slash p"
  by simp

lemma resolve_dot:
  assumes "take 1 p \<noteq> ''/''"
  shows "resolve (''./'' @ p) = resolve p"
  using assms by (simp add: resolve_def Let_def)

lemma fread1_length:
  "fread1 f buf n s = Some (r, buf', f') \<Longrightarrow> length buf' = length buf"
  by (auto simp: fread1_def Let_def split: if_splits)

lemma fopen_wb_bytes:
  "fopen_wb p s = (Some f, s') \<Longrightarrow> file_bytes f s' = [] \<and> f_path f = resolve p \<and> f_pos f = 0
     \<and> fs_open s' = Suc (fs_open s)"
  by (auto simp: fopen_wb_def file_bytes_def split: if_splits)

lemma access_ok_mkdir [simp]:
  "mkdir_fs p s = (True, s') \<Longrightarrow> access_ok p s'"
  by (auto simp: mkdir_fs_def access_ok_def dir_exists_def split: if_splits)

lemma fclose_fs_files [simp]:
  "fs_files (fclose_fs s) = fs_files s" "fs_dirs (fclose_fs s) = fs_dirs s"
  "fs_deny (fclose_fs s) = fs_deny s" "fs_room (fclose_fs s) = fs_room s"
  "fs_open (fclose_fs s) = fs_open s - 1"
  by (simp_all add: fclose_fs_def)

lemma dir_exists_upd [simp]:
  "dir_exists d (s\<lparr>fs_files := F\<rparr>) = dir_exists d s"
  "dir_exists d (s\<lparr>fs_room := r\<rparr>) = dir_exists d s"
  "dir_exists d (s\<lparr>fs_open := n\<rparr>) = dir_exists d s"
  "dir_exists d (fclose_fs s) = dir_exists d s"
  by (simp_all add: dir_exists_def)

section \<open>Writing and reading a whole file\<close>

text \<open>The two sequences every configuration routine of the sources is built from.\<close>

definition write_whole :: "string \<Rightarrow> bytes \<Rightarrow> nat \<Rightarrow> filesys \<Rightarrow> (nat option \<times> filesys) option" where
  "write_whole p d n s =
     (case fopen_wb p s of
        (None, s1) \<Rightarrow> Some (None, s1)
      | (Some f, s1) \<Rightarrow> do {
          (r, s2) \<leftarrow> fwrite1 f d n s1;
          Some (Some r, fclose_fs s2) })"

lemma write_whole_ok:
  assumes "can_write (resolve p) s" and "n \<le> length d"
    and "n \<le> fs_room s + file_size (resolve p) s"
  shows "write_whole p d n s = Some (Some 1,
     s\<lparr>fs_files := (fs_files s)(resolve p \<mapsto> take n d),
       fs_room := fs_room s + file_size (resolve p) s - n\<rparr>)"
  using assms
  by (auto simp: write_whole_def fopen_wb_def fwrite1_def Let_def file_bytes_def fclose_fs_def)

lemma write_whole_refused:
  "\<not> can_write (resolve p) s \<Longrightarrow> write_whole p d n s = Some (None, s)"
  by (simp add: write_whole_def fopen_wb_def)

lemma write_whole_no_fault:
  "n \<le> length d \<Longrightarrow> \<exists>r s'. write_whole p d n s = Some (r, s') \<and> fs_open s' = fs_open s"
  by (auto simp: write_whole_def fopen_wb_def fwrite1_def Let_def)

lemma write_whole_frame:
  assumes "write_whole p d n s = Some (r, s')" and "q \<noteq> resolve p"
  shows "fs_files s' q = fs_files s q"
  using assms
  by (auto simp: write_whole_def fopen_wb_def fwrite1_def Let_def split: if_splits)

end
