(* ===== verification/LbsStore.thy ===== *)
theory LbsStore
  imports FileSys
begin

text \<open>
  The storage layer of the location service, from \<^verbatim>\<open>cm_lbs/cm_lbs/src/cm_lbs_api.c\<close>: the allocator
  wrapper, the creation of the configuration directory, the two functions that write and read a
  configuration file, and the configuration structures of the AT layer with the functions that save
  and load each of them. Functions whose names also exist in \<^verbatim>\<open>libfs\<close> have the prefix \<open>lbs_\<close> here.
\<close>

section \<open>Status codes and platforms\<close>

datatype cm_lbs_state_e =
    CM_LBS_OK | CM_LBS_ERR | CM_LBS_BUSY | CM_LBS_PARAMERR | CM_LBS_MEMROYERR

text \<open>The enumerator behind \<open>CM_LBS_MEMROYERR\<close>, which is -4, has the value -3 of \<open>CM_LBS_PARAMERR\<close>.\<close>

definition CM_LBS_REPEERR :: cm_lbs_state_e where
  "CM_LBS_REPEERR = CM_LBS_PARAMERR"

text \<open>\<open>cm_lbs_location_platform_e\<close> is kept as a number: it is read from a file without a check.\<close>

type_synonym platform_e = u32

definition CM_LBS_PLAT_AMAP10 :: platform_e where "CM_LBS_PLAT_AMAP10 = 10"

definition CM_LBS_PLAT_AMAP20 :: platform_e where "CM_LBS_PLAT_AMAP20 = 11"

definition CM_LBS_PLAT_MANTU :: platform_e where "CM_LBS_PLAT_MANTU = 20"

definition CM_LBS_PLAT_BAIDU :: platform_e where "CM_LBS_PLAT_BAIDU = 30"

definition CM_LBS_PLAT_ONEOSPOS :: platform_e where "CM_LBS_PLAT_ONEOSPOS = 40"

lemmas platform_defs = CM_LBS_PLAT_AMAP10_def CM_LBS_PLAT_AMAP20_def CM_LBS_PLAT_MANTU_def
  CM_LBS_PLAT_BAIDU_def CM_LBS_PLAT_ONEOSPOS_def

definition CM_LBS_METHOD_DEFAULT :: platform_e where
  "CM_LBS_METHOD_DEFAULT = CM_LBS_PLAT_ONEOSPOS"

definition CM_LBS_PRECISION_MIN :: int where "CM_LBS_PRECISION_MIN = 1"

definition CM_LBS_PRECISION_DEFAULT :: u32 where "CM_LBS_PRECISION_DEFAULT = 8"

definition CM_LBS_PRECISION_MAX :: int where "CM_LBS_PRECISION_MAX = 8"

definition CM_LBS_DESCR_MODE_MIN :: int where "CM_LBS_DESCR_MODE_MIN = 0"

definition CM_LBS_DESCR_MODE_DEFAULT :: u32 where "CM_LBS_DESCR_MODE_DEFAULT = 0"

definition CM_LBS_DESCR_MODE_MAX :: int where "CM_LBS_DESCR_MODE_MAX = 1"

definition CM_LBS_SIGNATURE_EN_DEFAULT :: u32 where "CM_LBS_SIGNATURE_EN_DEFAULT = 0"

definition CM_LBS_NEARBTS_ENABLE :: u32 where "CM_LBS_NEARBTS_ENABLE = 0"

definition CM_LBS_ONEOS_COORDINATE :: u32 where "CM_LBS_ONEOS_COORDINATE = 1"

lemmas lbs_default_defs = CM_LBS_PRECISION_MIN_def CM_LBS_PRECISION_DEFAULT_def
  CM_LBS_PRECISION_MAX_def CM_LBS_DESCR_MODE_MIN_def CM_LBS_DESCR_MODE_DEFAULT_def
  CM_LBS_DESCR_MODE_MAX_def CM_LBS_SIGNATURE_EN_DEFAULT_def CM_LBS_NEARBTS_ENABLE_def
  CM_LBS_ONEOS_COORDINATE_def

section \<open>Allocation\<close>

text \<open>The state of the heap is the list of answers \<open>malloc\<close> will give; beyond its end every request
  succeeds. \<open>cm_lbs_malloc(0)\<close> is null without a request.\<close>

type_synonym allocs = "bool list"

definition malloc_ok :: "allocs \<Rightarrow> bool \<times> allocs" where
  "malloc_ok al = (case al of [] \<Rightarrow> (True, []) | a # r \<Rightarrow> (a, r))"

definition cm_lbs_malloc :: "u32 \<Rightarrow> allocs \<Rightarrow> bytes option \<times> allocs" where
  "cm_lbs_malloc sz al =
     (if sz \<noteq> 0 then (case malloc_ok al of (ok, al') \<Rightarrow>
        (if ok then Some (replicate (unat sz) NUL) else None, al'))
      else (None, al))"

section \<open>Creating the directory\<close>

text \<open>The loop of \<open>create_directory_path\<close>: \<open>pre\<close> is the part of the path behind the pointer.\<close>

fun create_prefixes :: "string \<Rightarrow> string \<Rightarrow> filesys \<Rightarrow> bool \<times> filesys" where
  "create_prefixes pre [] s = (True, s)"
| "create_prefixes pre (c # cs) s =
     (if c = CHR ''/'' then
        if access_ok pre s then create_prefixes (pre @ [c]) cs s
        else (case mkdir_fs pre s of
            (False, s1) \<Rightarrow> (False, s1)
          | (True, s1) \<Rightarrow> create_prefixes (pre @ [c]) cs s1)
      else create_prefixes (pre @ [c]) cs s)"

text \<open>The path is cut to 255 characters first. An empty path makes the code look at the character
  before the buffer, a fault.\<close>

definition create_directory_path :: "string \<Rightarrow> filesys \<Rightarrow> (int \<times> filesys) option" where
  "create_directory_path path s =
     (let temp = take 255 path in
      if temp = [] then None
      else let temp_path = (if last temp = CHR ''/'' then butlast temp else temp) in
        (case create_prefixes (take 1 temp_path) (drop 1 temp_path) s of
           (False, s1) \<Rightarrow> Some (-1, s1)
         | (True, s1) \<Rightarrow>
             if access_ok temp_path s1 then Some (0, s1)
             else (case mkdir_fs temp_path s1 of
                 (False, s2) \<Rightarrow> Some (-1, s2)
               | (True, s2) \<Rightarrow> Some (0, s2))))"

section \<open>Writing and reading a configuration file\<close>

definition CM_LBS_CONFIG_FILE_PATH :: string where
  "CM_LBS_CONFIG_FILE_PATH = ''/userdata/cm_lbs''"

definition CM_LBS_ATCMD_CONFIG_FILE_PATH :: string where
  "CM_LBS_ATCMD_CONFIG_FILE_PATH = ''/userdata/cm_lbs/atcmd_lbscfg''"

definition CM_LBS_ATCMD_AMAPV10_FILE_PATH :: string where
  "CM_LBS_ATCMD_AMAPV10_FILE_PATH = ''/userdata/cm_lbs/amapv10cmd_lbscfg''"

definition CM_LBS_ATCMD_AMAPV20_FILE_PATH :: string where
  "CM_LBS_ATCMD_AMAPV20_FILE_PATH = ''/userdata/cm_lbs/amapv20cmd_lbscfg''"

definition CM_LBS_ATCMD_ONEOSPOS_FILE_PATH :: string where
  "CM_LBS_ATCMD_ONEOSPOS_FILE_PATH = ''/userdata/cm_lbs/oneosposcmd_lbscfg''"

lemmas path_defs = CM_LBS_CONFIG_FILE_PATH_def CM_LBS_ATCMD_CONFIG_FILE_PATH_def
  CM_LBS_ATCMD_AMAPV10_FILE_PATH_def CM_LBS_ATCMD_AMAPV20_FILE_PATH_def
  CM_LBS_ATCMD_ONEOSPOS_FILE_PATH_def

text \<open>Both functions first make sure that the directory exists.\<close>

definition ensure_dir :: "filesys \<Rightarrow> (bool \<times> filesys) option" where
  "ensure_dir s =
     (if access_ok CM_LBS_CONFIG_FILE_PATH s then Some (True, s)
      else do {
        (r, s1) \<leftarrow> create_directory_path CM_LBS_CONFIG_FILE_PATH s;
        Some (\<not> r < 0, s1) })"

definition lbs_nv_write :: "string option \<Rightarrow> bytes option \<Rightarrow> u32 \<Rightarrow> filesys
    \<Rightarrow> (int \<times> filesys) option" where
  "lbs_nv_write filename data datalen s =
     (case (filename, data) of
        (Some fn, Some d) \<Rightarrow>
          if datalen = 0 \<or> length fn > 64 then Some (-1, s)
          else do {
            (ok, s1) \<leftarrow> ensure_dir s;
            (if \<not> ok then Some (-1, s1)
             else do {
               (ret, s2) \<leftarrow> write_whole fn d (unat datalen) s1;
               Some (case ret of
                   None \<Rightarrow> -1
                 | Some k \<Rightarrow> if k \<noteq> 1 then -1 else sint datalen, s2) }) }
      | _ \<Rightarrow> Some (-1, s))"

text \<open>The value of a successful read is the number of items \<open>fread\<close> reports, 1. A short file leaves
  the stream open.\<close>

definition lbs_nv_read :: "string option \<Rightarrow> bytes option \<Rightarrow> u32 \<Rightarrow> filesys
    \<Rightarrow> (int \<times> bytes option \<times> filesys) option" where
  "lbs_nv_read filename data datalen s =
     (case (filename, data) of
        (Some fn, Some buf) \<Rightarrow>
          if datalen = 0 \<or> length fn > 64 then Some (-1, data, s)
          else do {
            (ok, s1) \<leftarrow> ensure_dir s;
            (if \<not> ok then Some (-1, data, s1)
             else (case fopen_rd fn s1 of
                 (None, s2) \<Rightarrow> Some (-1, data, s2)
               | (Some fd, s2) \<Rightarrow> do {
                   (ret, buf', fd') \<leftarrow> fread1 fd buf (unat datalen) s2;
                   (if ret \<noteq> 1 then Some (-1, Some buf', s2)
                    else Some (int ret, Some buf', fclose_fs s2)) })) }
      | _ \<Rightarrow> Some (-1, data, s))"

definition cm_lbs_FileWrite :: "string option \<Rightarrow> bytes option \<Rightarrow> u32 \<Rightarrow> filesys
    \<Rightarrow> (cm_lbs_state_e \<times> filesys) option" where
  "cm_lbs_FileWrite file_path file_data sz s = do {
     (fd, s1) \<leftarrow> lbs_nv_write file_path file_data sz s;
     Some (if fd < 0 then CM_LBS_ERR else CM_LBS_OK, s1) }"

definition cm_lbs_FileRead :: "string option \<Rightarrow> bytes option \<Rightarrow> u32 \<Rightarrow> filesys
    \<Rightarrow> (cm_lbs_state_e \<times> bytes option \<times> filesys) option" where
  "cm_lbs_FileRead file_path file_rdata read_size s = do {
     (fd, buf, s1) \<leftarrow> lbs_nv_read file_path file_rdata read_size s;
     Some (if fd \<le> 0 then CM_LBS_ERR else CM_LBS_OK, buf, s1) }"

section \<open>Facts about the directory\<close>

text \<open>Creating directories touches nothing but the set of directories.\<close>

definition dirs_grow :: "filesys \<Rightarrow> filesys \<Rightarrow> bool" where
  "dirs_grow s s' \<longleftrightarrow> fs_dirs s \<subseteq> fs_dirs s' \<and> fs_files s' = fs_files s
     \<and> fs_deny s' = fs_deny s \<and> fs_room s' = fs_room s \<and> fs_open s' = fs_open s"

lemma dirs_grow_refl [simp]: "dirs_grow s s"
  by (simp add: dirs_grow_def)

lemma dirs_grow_trans: "dirs_grow s t \<Longrightarrow> dirs_grow t u \<Longrightarrow> dirs_grow s u"
  by (auto simp: dirs_grow_def)

lemma dirs_grow_insert: "dirs_grow s (s\<lparr>fs_dirs := insert p (fs_dirs s)\<rparr>)"
  by (auto simp: dirs_grow_def)

lemma dirs_grow_mkdir:
  assumes "mkdir_fs p s = (b, s')"
  shows "dirs_grow s s'"
proof (cases b)
  case True
  then have "s' = s\<lparr>fs_dirs := insert (resolve p) (fs_dirs s)\<rparr>"
    using assms unfolding mkdir_fs_def by (metis (no_types, lifting) Pair_inject)
  then show ?thesis using dirs_grow_insert by simp
next
  case False
  then have "s' = s"
    using assms unfolding mkdir_fs_def by (metis (no_types, lifting) Pair_inject)
  then show ?thesis by simp
qed

lemma dirs_grow_access: "dirs_grow s s' \<Longrightarrow> access_ok p s \<Longrightarrow> access_ok p s'"
  by (auto simp: dirs_grow_def access_ok_def dir_exists_def)

lemma create_prefixes_grow: "create_prefixes pre cs s = (b, s') \<Longrightarrow> dirs_grow s s'"
proof (induction pre cs s rule: create_prefixes.induct)
  case (2 pre c cs s)
  show ?case
  proof (cases "c = CHR ''/'' \<and> \<not> access_ok pre s")
    case True
    obtain ok s1 where m: "mkdir_fs pre s = (ok, s1)" by force
    then have "dirs_grow s s1" by (rule dirs_grow_mkdir)
    moreover have "dirs_grow s1 s'"
      using 2 True m by (cases ok) auto
    ultimately show ?thesis by (rule dirs_grow_trans)
  next
    case False
    then show ?thesis using 2 by (auto split: if_splits)
  qed
qed simp

lemma create_directory_path_grow:
  "create_directory_path path s = Some (r, s') \<Longrightarrow> dirs_grow s s'"
  by (auto simp: create_directory_path_def Let_def split: if_splits prod.splits bool.splits
      dest!: create_prefixes_grow dirs_grow_mkdir intro: dirs_grow_trans)

text \<open>Success means that every directory on the way is there.\<close>

lemma create_prefixes_ok:
  "create_prefixes pre cs s = (True, s') \<Longrightarrow> cs = xs @ CHR ''/'' # ys \<Longrightarrow> access_ok (pre @ xs) s'"
proof (induction pre cs s arbitrary: xs rule: create_prefixes.induct)
  case (2 pre c cs s)
  show ?case
  proof (cases xs)
    case Nil
    then show ?thesis
      using 2 by (auto split: if_splits prod.splits bool.splits
          intro: dirs_grow_access [OF create_prefixes_grow])
  next
    case (Cons x r)
    then show ?thesis
      using 2 by (auto split: if_splits prod.splits bool.splits)
  qed
qed simp

lemma create_directory_path_ok:
  assumes "create_directory_path path s = Some (0, s')" and "length path \<le> 255"
    and "last path \<noteq> CHR ''/''"
  shows "access_ok path s'" and "path = xs @ CHR ''/'' # ys \<Longrightarrow> xs \<noteq> [] \<Longrightarrow> access_ok xs s'"
proof -
  have p: "path \<noteq> []" "take 255 path = path"
    using assms by (auto simp: create_directory_path_def)
  obtain s1 where c: "create_prefixes (take 1 path) (drop 1 path) s = (True, s1)"
    and g: "dirs_grow s1 s'" and a: "access_ok path s'"
    using assms p by (auto simp: create_directory_path_def Let_def dirs_grow_mkdir
        split: if_splits prod.splits bool.splits)
  show "access_ok path s'" by (rule a)
  show "access_ok xs s'" if "path = xs @ CHR ''/'' # ys" "xs \<noteq> []"
    using create_prefixes_ok [OF c, of "tl xs" ys] that dirs_grow_access [OF g]
    by (cases xs) auto
qed

lemma create_directory_path_total:
  assumes "path \<noteq> []"
  obtains r s' where "create_directory_path path s = Some (r, s')" and "r = 0 \<or> r = -1"
proof -
  define q where "q = (if last (take 255 path) = CHR ''/'' then butlast (take 255 path) else take 255 path)"
  have n: "take 255 path \<noteq> []" using assms by simp
  obtain ok s1 where c: "create_prefixes (take 1 q) (drop 1 q) s = (ok, s1)" by force
  obtain ok2 s2 where m: "mkdir_fs q s1 = (ok2, s2)" by force
  have "create_directory_path path s
      = Some (if \<not> ok then (-1, s1) else if access_ok q s1 then (0, s1)
              else if ok2 then (0, s2) else (-1, s2))"
    using n c m unfolding create_directory_path_def Let_def q_def [symmetric]
    by (cases ok; cases ok2) simp_all
  then show ?thesis
    using that by (cases ok; cases "access_ok q s1"; cases ok2) simp_all
qed

definition lbs_ready :: "filesys \<Rightarrow> bool" where
  "lbs_ready s \<longleftrightarrow> access_ok CM_LBS_CONFIG_FILE_PATH s"

lemma ensure_dir_ready: "lbs_ready s \<Longrightarrow> ensure_dir s = Some (True, s)"
  by (simp add: ensure_dir_def lbs_ready_def)

lemma ensure_dir_total:
  obtains ok s' where "ensure_dir s = Some (ok, s')" and "dirs_grow s s'" and "ok \<longrightarrow> lbs_ready s'"
proof (cases "access_ok CM_LBS_CONFIG_FILE_PATH s")
  case True
  then show ?thesis using that by (simp add: ensure_dir_def lbs_ready_def)
next
  case False
  obtain r s' where r: "create_directory_path CM_LBS_CONFIG_FILE_PATH s = Some (r, s')"
    and v: "r = 0 \<or> r = -1"
    by (rule create_directory_path_total [of CM_LBS_CONFIG_FILE_PATH s]) (simp add: path_defs)
  have "lbs_ready s'" if "r = 0"
    unfolding lbs_ready_def by (rule create_directory_path_ok(1))
      (use r that in \<open>simp_all add: path_defs\<close>)
  then show ?thesis
    using that r v False create_directory_path_grow [OF r] by (auto simp: ensure_dir_def)
qed

text \<open>On a fresh device both directories are created.\<close>

lemma ensure_dir_fresh:
  assumes "fs_files s ''/userdata'' = None" and "fs_files s ''/userdata/cm_lbs'' = None"
    and "''/userdata'' \<notin> fs_deny s" and "''/userdata/cm_lbs'' \<notin> fs_deny s"
  shows "\<exists>s'. ensure_dir s = Some (True, s') \<and> lbs_ready s'
    \<and> dir_exists ''/userdata/cm_lbs'' s' \<and> dirs_grow s s'"
  using assms
  by (auto simp: ensure_dir_def lbs_ready_def create_directory_path_def path_defs access_ok_def
      mkdir_fs_def resolve_def Let_def dir_exists_def parent_dir_def dirs_grow_def)

end
