(* ===== verification/LbsFiles.thy ===== *)
theory LbsFiles
  imports LbsStore
begin

text \<open>
  The configuration files of the AT layer (\<^verbatim>\<open>cm_lbs/cm_lbs/src/cm_lbs_api.c\<close>): the three structures as
  they lie in memory and in their files, and the functions that save and load them. A load that fails
  half way has overwritten the start of the caller's structure, which the model keeps.
\<close>

section \<open>Saving and loading an image\<close>

lemma lbs_nv_write_ready:
  assumes "lbs_ready s" and "n \<noteq> 0" and "length fn \<le> 64" and "can_write (resolve fn) s"
    and "unat n \<le> length d" and "unat n \<le> fs_room s + file_size (resolve fn) s"
  shows "lbs_nv_write (Some fn) (Some d) n s = Some (sint n,
     s\<lparr>fs_files := (fs_files s)(resolve fn \<mapsto> take (unat n) d),
       fs_room := fs_room s + file_size (resolve fn) s - unat n\<rparr>)"
  using assms by (simp add: lbs_nv_write_def ensure_dir_ready write_whole_ok)

lemma lbs_nv_read_ready:
  assumes "lbs_ready s" and "n \<noteq> 0" and "length fn \<le> 64" and "can_read (resolve fn) s"
    and "fs_files s (resolve fn) = Some b" and "unat n \<le> length buf"
  shows "lbs_nv_read (Some fn) (Some buf) n s =
     (if unat n \<le> length b then Some (1, Some (take (unat n) b @ drop (unat n) buf), s)
      else Some (-1, Some (b @ drop (length b) buf), s\<lparr>fs_open := Suc (fs_open s)\<rparr>))"
  using assms
  by (simp add: lbs_nv_read_def ensure_dir_ready fopen_rd_def fread1_def file_bytes_def
      fclose_fs_def can_read_def)

lemma lbs_nv_read_missing:
  assumes "lbs_ready s" and "\<not> can_read (resolve fn) s"
  shows "lbs_nv_read (Some fn) (Some buf) n s = Some (-1, Some buf, s)"
  using assms by (simp add: lbs_nv_read_def ensure_dir_ready fopen_rd_def)

text \<open>A write keeps the directory, and every file but its own.\<close>

lemma lbs_ready_upd [simp]:
  "lbs_ready s \<Longrightarrow> lbs_ready (s\<lparr>fs_files := (fs_files s)(p \<mapsto> b), fs_room := r\<rparr>)"
  "lbs_ready (s\<lparr>fs_open := k\<rparr>) = lbs_ready s"
  by (auto simp: lbs_ready_def access_ok_def)

lemma lbs_nv_write_frame:
  assumes "lbs_nv_write fn d n s = Some (r, s')" and "\<And>p. fn = Some p \<Longrightarrow> q \<noteq> resolve p"
  shows "fs_files s' q = fs_files s q"
proof (cases "\<exists>f b. fn = Some f \<and> d = Some b \<and> n \<noteq> 0 \<and> length f \<le> 64")
  case True
  then obtain f b where f: "fn = Some f" "d = Some b" "n \<noteq> 0" "length f \<le> 64" by blast
  obtain ok s1 where e: "ensure_dir s = Some (ok, s1)" "dirs_grow s s1"
    using ensure_dir_total by metis
  show ?thesis
    using assms f e write_whole_frame [of f b "unat n" s1]
    by (cases ok) (auto simp: lbs_nv_write_def dirs_grow_def split: bind_splits)
next
  case False
  then show ?thesis
    using assms(1) by (auto simp: lbs_nv_write_def split: option.splits if_splits)
qed

text \<open>The contract of a configuration file, for any structure with an image: what was saved is what
  is loaded, whatever the structure held that it is loaded into.\<close>

context struct_image
begin

lemma save_ok:
  assumes "lbs_ready s" and "wf c" and "length path \<le> 64" and "can_write (resolve path) s"
    and "unat sz \<le> fs_room s + file_size (resolve path) s" and "0 < sint sz"
  shows "cm_lbs_FileWrite (Some path) (Some (enc c)) sz s = Some (CM_LBS_OK,
     s\<lparr>fs_files := (fs_files s)(resolve path \<mapsto> enc c),
       fs_room := fs_room s + file_size (resolve path) s - unat sz\<rparr>)"
  using assms sz_pos lbs_nv_write_ready [of s sz path "enc c"] length_enc
  by (simp add: cm_lbs_FileWrite_def)

lemma load_ok:
  assumes "lbs_ready s" and "wf c0" and "length path \<le> 64" and "can_read (resolve path) s"
    and "fs_files s (resolve path) = Some b" and "unat sz \<le> length b"
  shows "cm_lbs_FileRead (Some path) (Some (enc c0)) sz s
     = Some (CM_LBS_OK, Some (take (unat sz) b), s)"
  using assms sz_pos lbs_nv_read_ready [of s sz path b "enc c0"] length_enc
  by (simp add: cm_lbs_FileRead_def)

lemma load_short:
  assumes "lbs_ready s" and "wf c0" and "length path \<le> 64" and "can_read (resolve path) s"
    and "fs_files s (resolve path) = Some b" and "length b < unat sz"
  shows "cm_lbs_FileRead (Some path) (Some (enc c0)) sz s
     = Some (CM_LBS_ERR, Some (b @ drop (length b) (enc c0)), s\<lparr>fs_open := Suc (fs_open s)\<rparr>)"
  using assms sz_pos lbs_nv_read_ready [of s sz path b "enc c0"] length_enc
  by (simp add: cm_lbs_FileRead_def)

lemma load_missing:
  assumes "lbs_ready s" and "\<not> can_read (resolve path) s"
  shows "cm_lbs_FileRead (Some path) (Some (enc c0)) sz s = Some (CM_LBS_ERR, Some (enc c0), s)"
  using assms lbs_nv_read_missing [of s path "enc c0" sz] by (simp add: cm_lbs_FileRead_def)

lemma save_load:
  assumes "lbs_ready s" and "wf c" and "wf c0" and "length path \<le> 64"
    and "can_write (resolve path) s" and "unat sz \<le> fs_room s + file_size (resolve path) s" and "0 < sint sz"
  obtains s' where "cm_lbs_FileWrite (Some path) (Some (enc c)) sz s = Some (CM_LBS_OK, s')"
    and "cm_lbs_FileRead (Some path) (Some (enc c0)) sz s' = Some (CM_LBS_OK, Some (enc c), s')"
    and "lbs_ready s'" and "fs_open s' = fs_open s"
    and "\<forall>q. q \<noteq> resolve path \<longrightarrow> fs_files s' q = fs_files s q"
proof -
  define s' where "s' = s\<lparr>fs_files := (fs_files s)(resolve path \<mapsto> enc c),
       fs_room := fs_room s + file_size (resolve path) s - unat sz\<rparr>"
  have r: "lbs_ready s'" using assms(1) by (simp add: s'_def)
  have "resolve path \<noteq> []"
    using assms(5) by (auto simp: can_write_def dir_exists_def)
  then have c: "can_read (resolve path) s'" and f: "fs_files s' (resolve path) = Some (enc c)"
    using assms(5) by (simp_all add: can_read_def can_write_def s'_def)
  have "cm_lbs_FileRead (Some path) (Some (enc c0)) sz s' = Some (CM_LBS_OK, Some (enc c), s')"
    using load_ok [OF r assms(3,4) c f] length_enc [OF assms(2)] by simp
  then show ?thesis
    using that [of s'] save_ok [OF assms(1,2,4-7)] r by (simp add: s'_def)
qed

end

section \<open>The structures\<close>

record cm_lbs_atcmd_config_t =
  platform :: platform_e

record cm_lbs_atcmd_amap_config_t =
  apikey :: bytes
  signature_key :: bytes
  signal_enable :: u32
  a_precision :: u32
  a_descr_mode :: u32
  a_nearbts_enable :: u32

record cm_lbs_atcmd_oneospos_config_t =
  o_pid :: bytes
  o_precision :: u32
  o_nearbts_enable :: u32
  o_coordinate_enable :: u32

definition CM_LBS_AMAP_APIKET_LEN :: nat where "CM_LBS_AMAP_APIKET_LEN = 128"

definition CM_LBS_AMAP_SIGNATUREKEY_LEN :: nat where "CM_LBS_AMAP_SIGNATUREKEY_LEN = 128"

definition CM_LBS_ONEOSPOS_PID_LEN :: nat where "CM_LBS_ONEOSPOS_PID_LEN = 64"

lemmas cfg_len_defs =
  CM_LBS_AMAP_APIKET_LEN_def CM_LBS_AMAP_SIGNATUREKEY_LEN_def CM_LBS_ONEOSPOS_PID_LEN_def

definition sizeof_atcmd_cfg :: u32 where "sizeof_atcmd_cfg = 4"

definition sizeof_amap_cfg :: u32 where "sizeof_amap_cfg = 272"

definition sizeof_oneospos_cfg :: u32 where "sizeof_oneospos_cfg = 76"

lemmas sizeof_defs = sizeof_atcmd_cfg_def sizeof_amap_cfg_def sizeof_oneospos_cfg_def

definition atcmd_bytes :: "cm_lbs_atcmd_config_t \<Rightarrow> bytes" where
  "atcmd_bytes c = le32 (platform c)"

definition atcmd_of_bytes :: "bytes \<Rightarrow> cm_lbs_atcmd_config_t" where
  "atcmd_of_bytes b = \<lparr>platform = un32 b\<rparr>"

definition amap_bytes :: "cm_lbs_atcmd_amap_config_t \<Rightarrow> bytes" where
  "amap_bytes c = apikey c @ signature_key c @ le32 (signal_enable c) @ le32 (a_precision c)
     @ le32 (a_descr_mode c) @ le32 (a_nearbts_enable c)"

definition amap_of_bytes :: "bytes \<Rightarrow> cm_lbs_atcmd_amap_config_t" where
  "amap_of_bytes b = \<lparr>apikey = take 128 b, signature_key = take 128 (drop 128 b),
     signal_enable = un32 (drop 256 b), a_precision = un32 (drop 260 b),
     a_descr_mode = un32 (drop 264 b), a_nearbts_enable = un32 (drop 268 b)\<rparr>"

definition oneospos_bytes :: "cm_lbs_atcmd_oneospos_config_t \<Rightarrow> bytes" where
  "oneospos_bytes c = o_pid c @ le32 (o_precision c) @ le32 (o_nearbts_enable c)
     @ le32 (o_coordinate_enable c)"

definition oneospos_of_bytes :: "bytes \<Rightarrow> cm_lbs_atcmd_oneospos_config_t" where
  "oneospos_of_bytes b = \<lparr>o_pid = take 64 b, o_precision = un32 (drop 64 b),
     o_nearbts_enable = un32 (drop 68 b), o_coordinate_enable = un32 (drop 72 b)\<rparr>"

definition amap_wf :: "cm_lbs_atcmd_amap_config_t \<Rightarrow> bool" where
  "amap_wf c \<longleftrightarrow> length (apikey c) = CM_LBS_AMAP_APIKET_LEN
     \<and> length (signature_key c) = CM_LBS_AMAP_SIGNATUREKEY_LEN"

definition oneospos_wf :: "cm_lbs_atcmd_oneospos_config_t \<Rightarrow> bool" where
  "oneospos_wf c \<longleftrightarrow> length (o_pid c) = CM_LBS_ONEOSPOS_PID_LEN"

text \<open>A structure that was set to zero.\<close>

definition zero_amap :: cm_lbs_atcmd_amap_config_t where
  "zero_amap = \<lparr>apikey = replicate 128 NUL, signature_key = replicate 128 NUL,
     signal_enable = 0, a_precision = 0, a_descr_mode = 0, a_nearbts_enable = 0\<rparr>"

definition zero_oneospos :: cm_lbs_atcmd_oneospos_config_t where
  "zero_oneospos = \<lparr>o_pid = replicate 64 NUL, o_precision = 0, o_nearbts_enable = 0,
     o_coordinate_enable = 0\<rparr>"

lemma zero_wf [simp]: "amap_wf zero_amap" "oneospos_wf zero_oneospos"
  by (simp_all add: amap_wf_def oneospos_wf_def zero_amap_def zero_oneospos_def cfg_len_defs)

interpretation atcmd_file: struct_image atcmd_bytes atcmd_of_bytes "\<lambda>_. True" sizeof_atcmd_cfg
  by unfold_locales (simp_all add: atcmd_bytes_def atcmd_of_bytes_def sizeof_defs)

interpretation amap_file: struct_image amap_bytes amap_of_bytes amap_wf sizeof_amap_cfg
  by unfold_locales
    (simp_all add: amap_bytes_def amap_of_bytes_def amap_wf_def sizeof_defs cfg_len_defs)

interpretation oneospos_file: struct_image oneospos_bytes oneospos_of_bytes oneospos_wf
    sizeof_oneospos_cfg
  by unfold_locales
    (simp_all add: oneospos_bytes_def oneospos_of_bytes_def oneospos_wf_def sizeof_defs cfg_len_defs)

section \<open>Saving and loading each structure\<close>

text \<open>A null structure is \<open>None\<close>; the loads give back the structure as it is afterwards.\<close>

definition load_struct :: "('c \<Rightarrow> bytes) \<Rightarrow> (bytes \<Rightarrow> 'c) \<Rightarrow> u32 \<Rightarrow> string \<Rightarrow> 'c option \<Rightarrow> filesys
    \<Rightarrow> ((cm_lbs_state_e \<times> 'c option) \<times> filesys) option" where
  "load_struct enc dec sz path cfg s =
     (case cfg of
        None \<Rightarrow> Some ((CM_LBS_ERR, None), s)
      | Some c \<Rightarrow> do {
          (ret, buf, s1) \<leftarrow> cm_lbs_FileRead (Some path) (Some (enc c)) sz s;
          Some ((ret, map_option dec buf), s1) })"

definition cm_lbs_atcmd_read_atcmdcfg :: "cm_lbs_atcmd_config_t option \<Rightarrow> filesys
    \<Rightarrow> ((cm_lbs_state_e \<times> cm_lbs_atcmd_config_t option) \<times> filesys) option" where
  "cm_lbs_atcmd_read_atcmdcfg =
     load_struct atcmd_bytes atcmd_of_bytes sizeof_atcmd_cfg CM_LBS_ATCMD_CONFIG_FILE_PATH"

text \<open>A null structure reaches the writer, which refuses it.\<close>

definition cm_lbs_atcmd_write_atcmdcfg :: "cm_lbs_atcmd_config_t option \<Rightarrow> filesys
    \<Rightarrow> (cm_lbs_state_e \<times> filesys) option" where
  "cm_lbs_atcmd_write_atcmdcfg cfg s =
     cm_lbs_FileWrite (Some CM_LBS_ATCMD_CONFIG_FILE_PATH) (map_option atcmd_bytes cfg)
       sizeof_atcmd_cfg s"

definition amap_path :: "platform_e \<Rightarrow> string" where
  "amap_path pf = (if pf = CM_LBS_PLAT_AMAP10 then CM_LBS_ATCMD_AMAPV10_FILE_PATH
     else CM_LBS_ATCMD_AMAPV20_FILE_PATH)"

definition cm_lbs_atcmd_write_amapcfg :: "platform_e \<Rightarrow> cm_lbs_atcmd_amap_config_t option \<Rightarrow> filesys
    \<Rightarrow> (cm_lbs_state_e \<times> filesys) option" where
  "cm_lbs_atcmd_write_amapcfg pf cfg s =
     (case cfg of
        None \<Rightarrow> Some (CM_LBS_ERR, s)
      | Some c \<Rightarrow> cm_lbs_FileWrite (Some (amap_path pf)) (Some (amap_bytes c)) sizeof_amap_cfg s)"

definition cm_lbs_atcmd_read_amapcfg :: "platform_e \<Rightarrow> cm_lbs_atcmd_amap_config_t option \<Rightarrow> filesys
    \<Rightarrow> ((cm_lbs_state_e \<times> cm_lbs_atcmd_amap_config_t option) \<times> filesys) option" where
  "cm_lbs_atcmd_read_amapcfg pf =
     load_struct amap_bytes amap_of_bytes sizeof_amap_cfg (amap_path pf)"

definition cm_lbs_atcmd_write_oneosposcfg :: "platform_e \<Rightarrow> cm_lbs_atcmd_oneospos_config_t option
    \<Rightarrow> filesys \<Rightarrow> (cm_lbs_state_e \<times> filesys) option" where
  "cm_lbs_atcmd_write_oneosposcfg pf cfg s =
     (case cfg of
        None \<Rightarrow> Some (CM_LBS_ERR, s)
      | Some c \<Rightarrow> cm_lbs_FileWrite (Some CM_LBS_ATCMD_ONEOSPOS_FILE_PATH) (Some (oneospos_bytes c))
          sizeof_oneospos_cfg s)"

definition cm_lbs_atcmd_Read_oneosposcfg :: "platform_e \<Rightarrow> cm_lbs_atcmd_oneospos_config_t option
    \<Rightarrow> filesys \<Rightarrow> ((cm_lbs_state_e \<times> cm_lbs_atcmd_oneospos_config_t option) \<times> filesys) option" where
  "cm_lbs_atcmd_Read_oneosposcfg pf =
     load_struct oneospos_bytes oneospos_of_bytes sizeof_oneospos_cfg CM_LBS_ATCMD_ONEOSPOS_FILE_PATH"

text \<open>The platform the AT layer uses: the stored one, or the default.\<close>

definition cm_lbs_atcmd_getplatform :: "filesys \<Rightarrow> (platform_e \<times> filesys) option" where
  "cm_lbs_atcmd_getplatform s = do {
     ((ret, cfg), s1) \<leftarrow> cm_lbs_atcmd_read_atcmdcfg (Some \<lparr>platform = 0\<rparr>) s;
     c \<leftarrow> cfg;
     Some (if ret = CM_LBS_OK then platform c else CM_LBS_METHOD_DEFAULT, s1) }"

section \<open>The store as data\<close>

text \<open>What the four files hold, on a disk where every one of them is absent or whole and can be
  written again.\<close>

record cfg_store =
  st_platform :: "cm_lbs_atcmd_config_t option"
  st_amap10 :: "cm_lbs_atcmd_amap_config_t option"
  st_amap20 :: "cm_lbs_atcmd_amap_config_t option"
  st_oneospos :: "cm_lbs_atcmd_oneospos_config_t option"

definition store_of :: "filesys \<Rightarrow> cfg_store" where
  "store_of s =
     \<lparr>st_platform = map_option atcmd_of_bytes (fs_files s CM_LBS_ATCMD_CONFIG_FILE_PATH),
      st_amap10 = map_option amap_of_bytes (fs_files s CM_LBS_ATCMD_AMAPV10_FILE_PATH),
      st_amap20 = map_option amap_of_bytes (fs_files s CM_LBS_ATCMD_AMAPV20_FILE_PATH),
      st_oneospos = map_option oneospos_of_bytes (fs_files s CM_LBS_ATCMD_ONEOSPOS_FILE_PATH)\<rparr>"

definition cfg_paths :: "(string \<times> nat) list" where
  "cfg_paths = [(CM_LBS_ATCMD_CONFIG_FILE_PATH, 4), (CM_LBS_ATCMD_AMAPV10_FILE_PATH, 272),
     (CM_LBS_ATCMD_AMAPV20_FILE_PATH, 272), (CM_LBS_ATCMD_ONEOSPOS_FILE_PATH, 76)]"

definition path_ok :: "filesys \<Rightarrow> string \<Rightarrow> nat \<Rightarrow> bool" where
  "path_ok s p n \<longleftrightarrow> can_write p s \<and> (\<forall>b. fs_files s p = Some b \<longrightarrow> length b = n)"

definition store_ok :: "filesys \<Rightarrow> bool" where
  "store_ok s \<longleftrightarrow> lbs_ready s \<and> dir_exists CM_LBS_CONFIG_FILE_PATH s
     \<and> (\<forall>(p, n) \<in> set cfg_paths. path_ok s p n)
     \<and> (\<Sum>(p, n) \<leftarrow> cfg_paths. n) \<le> fs_room s + (\<Sum>(p, n) \<leftarrow> cfg_paths. file_size p s)"

lemma resolve_paths [simp]:
  "resolve CM_LBS_ATCMD_CONFIG_FILE_PATH = CM_LBS_ATCMD_CONFIG_FILE_PATH"
  "resolve CM_LBS_ATCMD_AMAPV10_FILE_PATH = CM_LBS_ATCMD_AMAPV10_FILE_PATH"
  "resolve CM_LBS_ATCMD_AMAPV20_FILE_PATH = CM_LBS_ATCMD_AMAPV20_FILE_PATH"
  "resolve CM_LBS_ATCMD_ONEOSPOS_FILE_PATH = CM_LBS_ATCMD_ONEOSPOS_FILE_PATH"
  unfolding path_defs by (simp_all add: resolve_def)

lemma cfg_path_facts [simp]:
  "length CM_LBS_ATCMD_CONFIG_FILE_PATH \<le> 64" "CM_LBS_ATCMD_CONFIG_FILE_PATH \<noteq> []"
  "length CM_LBS_ATCMD_AMAPV10_FILE_PATH \<le> 64" "CM_LBS_ATCMD_AMAPV10_FILE_PATH \<noteq> []"
  "length CM_LBS_ATCMD_AMAPV20_FILE_PATH \<le> 64" "CM_LBS_ATCMD_AMAPV20_FILE_PATH \<noteq> []"
  "length CM_LBS_ATCMD_ONEOSPOS_FILE_PATH \<le> 64" "CM_LBS_ATCMD_ONEOSPOS_FILE_PATH \<noteq> []"
  unfolding path_defs by simp_all

lemma cfg_path_in [simp]:
  "(CM_LBS_ATCMD_CONFIG_FILE_PATH, 4) \<in> set cfg_paths"
  "(CM_LBS_ATCMD_AMAPV10_FILE_PATH, 272) \<in> set cfg_paths"
  "(CM_LBS_ATCMD_AMAPV20_FILE_PATH, 272) \<in> set cfg_paths"
  "(CM_LBS_ATCMD_ONEOSPOS_FILE_PATH, 76) \<in> set cfg_paths"
  by (simp_all add: cfg_paths_def)

lemma cfg_path_neq [simp]:
  "CM_LBS_ATCMD_CONFIG_FILE_PATH \<noteq> CM_LBS_ATCMD_AMAPV10_FILE_PATH"
  "CM_LBS_ATCMD_CONFIG_FILE_PATH \<noteq> CM_LBS_ATCMD_AMAPV20_FILE_PATH"
  "CM_LBS_ATCMD_CONFIG_FILE_PATH \<noteq> CM_LBS_ATCMD_ONEOSPOS_FILE_PATH"
  "CM_LBS_ATCMD_AMAPV10_FILE_PATH \<noteq> CM_LBS_ATCMD_AMAPV20_FILE_PATH"
  "CM_LBS_ATCMD_AMAPV10_FILE_PATH \<noteq> CM_LBS_ATCMD_ONEOSPOS_FILE_PATH"
  "CM_LBS_ATCMD_AMAPV20_FILE_PATH \<noteq> CM_LBS_ATCMD_ONEOSPOS_FILE_PATH"
  unfolding path_defs by simp_all

lemmas cfg_path_neq' [simp] = cfg_path_neq [symmetric]

lemma path_lengths:
  assumes "(p, n) \<in> set cfg_paths"
  shows "length p \<le> 64" and "p \<noteq> []" and "resolve p = p" and "n = 4 \<or> n = 272 \<or> n = 76"
  using assms unfolding cfg_paths_def by (simp_all, (elim disjE conjE; simp)+)

lemma paths_distinct: "distinct (map fst cfg_paths)"
  by (simp add: cfg_paths_def)

lemma path_ok_size: "path_ok s p n \<Longrightarrow> file_size p s \<le> n"
  by (auto simp: path_ok_def file_size_def split: option.splits)

lemma sum_others:
  fixes f g :: "'a \<Rightarrow> nat"
  assumes "x \<in> set xs" and "\<forall>y \<in> set xs. f y \<le> g y" and "(\<Sum>y \<leftarrow> xs. g y) \<le> r + (\<Sum>y \<leftarrow> xs. f y)"
  shows "g x \<le> r + f x"
  using assms
proof (induction xs arbitrary: r)
  case (Cons y ys)
  have le: "(\<Sum>z \<leftarrow> ys. f z) \<le> (\<Sum>z \<leftarrow> ys. g z)"
    using Cons.prems(2) by (intro sum_list_mono) simp
  show ?case
  proof (cases "x = y")
    case True
    then show ?thesis using Cons.prems(3) le by simp
  next
    case False
    then show ?thesis
      using Cons.IH [of r] Cons.prems le by auto
  qed
qed simp

lemma store_ok_path:
  assumes "store_ok s" and "(p, n) \<in> set cfg_paths"
  shows "lbs_ready s" and "can_write p s" and "n \<le> fs_room s + file_size p s"
    and "fs_files s p = Some b \<Longrightarrow> length b = n"
    and "can_read p s \<longleftrightarrow> fs_files s p \<noteq> None"
proof -
  have ok: "path_ok s p n" using assms unfolding store_ok_def by blast
  show "lbs_ready s" using assms(1) unfolding store_ok_def by blast
  show w: "can_write p s" using ok unfolding path_ok_def by blast
  show "can_read p s \<longleftrightarrow> fs_files s p \<noteq> None"
    using w path_lengths(2) [OF assms(2)] by (simp add: can_read_def can_write_def)
  show "length b = n" if "fs_files s p = Some b"
    using ok that unfolding path_ok_def by blast
  have "\<forall>x \<in> set cfg_paths. (case x of (p, n) \<Rightarrow> file_size p s) \<le> (case x of (p, n) \<Rightarrow> n)"
    using assms(1) path_ok_size unfolding store_ok_def by (auto split: prod.split)
  from sum_others [OF assms(2) this, of "fs_room s"]
  show "n \<le> fs_room s + file_size p s"
    using assms(1) unfolding store_ok_def by simp
qed

text \<open>Writing one file whole keeps the disk in order and changes no other file.\<close>

lemma store_ok_write:
  assumes "store_ok s" and "(p, n) \<in> set cfg_paths" and "length b = n"
  shows "store_ok (s\<lparr>fs_files := (fs_files s)(p \<mapsto> b), fs_room := fs_room s + file_size p s - n\<rparr>)"
    (is "store_ok ?s")
proof -
  have room: "(\<Sum>(p, n) \<leftarrow> cfg_paths. n) \<le> fs_room s + (\<Sum>(p, n) \<leftarrow> cfg_paths. file_size p s)"
    using assms(1) unfolding store_ok_def by blast
  have sz: "file_size q ?s = (if q = p then n else file_size q s)" for q
    using assms(3) by (simp add: file_size_def)
  have "path_ok ?s q m" if "(q, m) \<in> set cfg_paths" for q m
  proof -
    have "q = p \<longrightarrow> m = n"
      using that assms(2) paths_distinct by (meson eq_key_imp_eq_value)
    moreover have "path_ok s q m" using assms(1) that unfolding store_ok_def by blast
    ultimately show ?thesis using assms(3) by (auto simp: path_ok_def can_write_def)
  qed
  moreover have "(\<Sum>(p, n) \<leftarrow> cfg_paths. n) \<le> fs_room ?s + (\<Sum>(p, n) \<leftarrow> cfg_paths. file_size p ?s)"
    using room store_ok_path(3) [OF assms(1,2)] assms(2)
    unfolding sz by (auto simp: cfg_paths_def)
  moreover have "lbs_ready ?s" and "dir_exists CM_LBS_CONFIG_FILE_PATH ?s"
    using assms(1) by (simp_all add: store_ok_def)
  ultimately show ?thesis unfolding store_ok_def by blast
qed

context struct_image
begin

lemma load_store:
  assumes "store_ok s" and "(path, unat sz) \<in> set cfg_paths" and "wf c0"
  shows "load_struct enc dec sz path (Some c0) s = Some
    ((case fs_files s path of None \<Rightarrow> (CM_LBS_ERR, Some c0) | Some b \<Rightarrow> (CM_LBS_OK, Some (dec b))), s)"
proof (cases "fs_files s path")
  case None
  then have "\<not> can_read (resolve path) s"
    using store_ok_path(5) [OF assms(1,2)] path_lengths(3) [OF assms(2)] by simp
  then show ?thesis
    using load_missing [OF store_ok_path(1) [OF assms(1,2)]] None dec_enc [OF assms(3)]
    by (simp add: load_struct_def)
next
  case (Some b)
  then have "can_read (resolve path) s" and "fs_files s (resolve path) = Some b"
    using store_ok_path(5) [OF assms(1,2)] path_lengths(3) [OF assms(2)] by simp_all
  then have "cm_lbs_FileRead (Some path) (Some (enc c0)) sz s = Some (CM_LBS_OK, Some b, s)"
    using load_ok [OF store_ok_path(1) [OF assms(1,2)] assms(3) path_lengths(1) [OF assms(2)]]
      store_ok_path(4) [OF assms(1,2) Some] by simp
  then show ?thesis using Some by (simp add: load_struct_def)
qed

lemma save_store:
  assumes "store_ok s" and "(path, unat sz) \<in> set cfg_paths" and "wf c" and "0 < sint sz"
  obtains s' where "cm_lbs_FileWrite (Some path) (Some (enc c)) sz s = Some (CM_LBS_OK, s')"
    and "store_ok s'" and "fs_files s' = (fs_files s)(path \<mapsto> enc c)" and "fs_open s' = fs_open s"
proof -
  have r: "resolve path = path" by (rule path_lengths(3) [OF assms(2)])
  have "cm_lbs_FileWrite (Some path) (Some (enc c)) sz s = Some (CM_LBS_OK,
     s\<lparr>fs_files := (fs_files s)(path \<mapsto> enc c), fs_room := fs_room s + file_size path s - unat sz\<rparr>)"
    using save_ok [of s c path] store_ok_path(1-3) [OF assms(1,2)] path_lengths(1) [OF assms(2)] assms(3,4)
    unfolding r by simp
  then show ?thesis
    using that store_ok_write [OF assms(1,2), of "enc c"] length_enc [OF assms(3)] by simp
qed

end

definition amap_slot :: "platform_e \<Rightarrow> cfg_store \<Rightarrow> cm_lbs_atcmd_amap_config_t option" where
  "amap_slot pf st = (if pf = CM_LBS_PLAT_AMAP10 then st_amap10 st else st_amap20 st)"

definition loaded :: "'c \<Rightarrow> 'c option \<Rightarrow> cm_lbs_state_e \<times> 'c option" where
  "loaded c0 slot = (case slot of None \<Rightarrow> (CM_LBS_ERR, Some c0) | Some c \<Rightarrow> (CM_LBS_OK, Some c))"

lemma loaded_simps [simp]:
  "loaded c0 None = (CM_LBS_ERR, Some c0)" "loaded c0 (Some c) = (CM_LBS_OK, Some c)"
  by (simp_all add: loaded_def)

lemma loaded_map: "loaded c0 (map_option f x)
   = (case x of None \<Rightarrow> (CM_LBS_ERR, Some c0) | Some b \<Rightarrow> (CM_LBS_OK, Some (f b)))"
  by (cases x) simp_all

lemma amap_path_in [simp]: "(amap_path pf, 272) \<in> set cfg_paths"
  by (simp add: amap_path_def)

lemma read_atcmdcfg_store:
  "store_ok s \<Longrightarrow> cm_lbs_atcmd_read_atcmdcfg (Some c0) s = Some (loaded c0 (st_platform (store_of s)), s)"
  using atcmd_file.load_store [of s CM_LBS_ATCMD_CONFIG_FILE_PATH c0]
  by (simp add: cm_lbs_atcmd_read_atcmdcfg_def store_of_def loaded_map sizeof_defs)

lemma read_amapcfg_store:
  "store_ok s \<Longrightarrow> amap_wf c0 \<Longrightarrow>
     cm_lbs_atcmd_read_amapcfg pf (Some c0) s = Some (loaded c0 (amap_slot pf (store_of s)), s)"
  using amap_file.load_store [of s "amap_path pf" c0]
  by (simp add: cm_lbs_atcmd_read_amapcfg_def store_of_def amap_slot_def amap_path_def loaded_map
      sizeof_defs split: if_splits)

lemma read_oneosposcfg_store:
  "store_ok s \<Longrightarrow> oneospos_wf c0 \<Longrightarrow>
     cm_lbs_atcmd_Read_oneosposcfg pf (Some c0) s = Some (loaded c0 (st_oneospos (store_of s)), s)"
  using oneospos_file.load_store [of s CM_LBS_ATCMD_ONEOSPOS_FILE_PATH c0]
  by (simp add: cm_lbs_atcmd_Read_oneosposcfg_def store_of_def loaded_map sizeof_defs)

lemma write_atcmdcfg_store:
  assumes "store_ok s"
  obtains s' where "cm_lbs_atcmd_write_atcmdcfg (Some c) s = Some (CM_LBS_OK, s')" and "store_ok s'"
    and "store_of s' = (store_of s)\<lparr>st_platform := Some c\<rparr>" and "fs_open s' = fs_open s"
  by (rule atcmd_file.save_store [OF assms, of CM_LBS_ATCMD_CONFIG_FILE_PATH c])
    (use that in \<open>simp_all add: cm_lbs_atcmd_write_atcmdcfg_def store_of_def sizeof_defs
      atcmd_file.dec_enc [unfolded sizeof_defs]\<close>)

definition put_amap :: "platform_e \<Rightarrow> cm_lbs_atcmd_amap_config_t \<Rightarrow> cfg_store \<Rightarrow> cfg_store" where
  "put_amap pf c st = (if pf = CM_LBS_PLAT_AMAP10 then st\<lparr>st_amap10 := Some c\<rparr>
     else st\<lparr>st_amap20 := Some c\<rparr>)"

lemma write_amapcfg_store:
  assumes "store_ok s" and "amap_wf c"
  obtains s' where "cm_lbs_atcmd_write_amapcfg pf (Some c) s = Some (CM_LBS_OK, s')" and "store_ok s'"
    and "store_of s' = put_amap pf c (store_of s)" and "fs_open s' = fs_open s"
  by (rule amap_file.save_store [OF assms(1), of "amap_path pf" c])
    (use that assms in \<open>simp_all add: cm_lbs_atcmd_write_amapcfg_def store_of_def put_amap_def amap_path_def
      sizeof_defs amap_file.dec_enc [unfolded sizeof_defs] split: if_splits\<close>)

lemma write_oneosposcfg_store:
  assumes "store_ok s" and "oneospos_wf c"
  obtains s' where "cm_lbs_atcmd_write_oneosposcfg pf (Some c) s = Some (CM_LBS_OK, s')" and "store_ok s'"
    and "store_of s' = (store_of s)\<lparr>st_oneospos := Some c\<rparr>" and "fs_open s' = fs_open s"
  by (rule oneospos_file.save_store [OF assms(1), of CM_LBS_ATCMD_ONEOSPOS_FILE_PATH c])
    (use that assms in \<open>simp_all add: cm_lbs_atcmd_write_oneosposcfg_def store_of_def
      sizeof_defs oneospos_file.dec_enc [unfolded sizeof_defs]\<close>)

text \<open>The platform in use.\<close>

definition platform_of :: "cfg_store \<Rightarrow> platform_e" where
  "platform_of st = (case st_platform st of None \<Rightarrow> CM_LBS_METHOD_DEFAULT | Some c \<Rightarrow> platform c)"

lemma getplatform_store:
  "store_ok s \<Longrightarrow> cm_lbs_atcmd_getplatform s = Some (platform_of (store_of s), s)"
  by (simp add: cm_lbs_atcmd_getplatform_def read_atcmdcfg_store platform_of_def loaded_def
      split: option.split)

text \<open>Whatever is stored has the shape of a structure.\<close>

lemma store_wf:
  assumes "store_ok s"
  shows "amap_slot pf (store_of s) = Some c \<Longrightarrow> amap_wf c"
    and "st_oneospos (store_of s) = Some d \<Longrightarrow> oneospos_wf d"
  using amap_file.wf_dec oneospos_file.wf_dec
    store_ok_path(4) [OF assms cfg_path_in(2)] store_ok_path(4) [OF assms cfg_path_in(3)]
    store_ok_path(4) [OF assms cfg_path_in(4)]
  by (auto simp: store_of_def amap_slot_def sizeof_defs split: if_splits)

end
