(* ===== verification/LbsFormat.thy ===== *)
theory LbsFormat
  imports LbsStore
begin

text \<open>
  Text handling of the AT layer, from \<^verbatim>\<open>cm_lbs/cm_lbs/src/cm_lbs_api.c\<close> and its twins in
  \<^verbatim>\<open>cm_lbs/cm_lbs_platform/cm_lbs_platform.c\<close>: hexadecimal output, the masked form of a secret, the
  test for digits, numbers from text, the adjustment of a coordinate's decimals, and the tables that
  name the options.
\<close>

unbundle bit_operations_syntax

section \<open>Hexadecimal\<close>

definition hex_digit :: "nat \<Rightarrow> char" where
  "hex_digit semi_octet = (if semi_octet \<le> 9 then char_of (semi_octet + 48) else char_of (semi_octet + 65 - 10))"

text \<open>The loop of \<open>__cm_lbs_atcmd_data_to_hex\<close>: the characters it writes for \<open>length\<close> bytes.\<close>

fun hex_loop :: "nat \<Rightarrow> bytes \<Rightarrow> string option" where
  "hex_loop 0 bin = Some []"
| "hex_loop (Suc n) [] = None"
| "hex_loop (Suc n) (c # bin) = do {
     r \<leftarrow> hex_loop n bin;
     Some (hex_digit (drop_bit 4 (of_char c AND 0xF0)) # hex_digit (of_char c AND 0x0F) # r) }"

definition cm_lbs_atcmd_data_to_hex :: "bytes \<Rightarrow> bytes \<Rightarrow> nat \<Rightarrow> bytes option" where
  "cm_lbs_atcmd_data_to_hex hex_buf bin n = do { h \<leftarrow> hex_loop n bin; arr_copy h hex_buf }"

text \<open>\<open>__cm_lbs_data_to_hex\<close> of the platform layer has the same body.\<close>

definition cm_lbs_data_to_hex :: "bytes \<Rightarrow> bytes \<Rightarrow> nat \<Rightarrow> bytes option" where
  "cm_lbs_data_to_hex hex_buf bin n = do { h \<leftarrow> hex_loop n bin; arr_copy h hex_buf }"

text \<open>The MD5 function of mbedtls is the parameter \<open>md5\<close>. The digest overwrites the start of the
  input buffer, which must hold 16 bytes. The result is the two buffers.\<close>

definition cm_lbs_atcmd_md5 :: "(bytes \<Rightarrow> bytes) \<Rightarrow> bytes \<Rightarrow> bytes \<Rightarrow> (bytes \<times> bytes) option" where
  "cm_lbs_atcmd_md5 md5 input output = do {
     s \<leftarrow> c_str input;
     input' \<leftarrow> arr_copy (take 16 (md5 s)) input;
     output' \<leftarrow> cm_lbs_atcmd_data_to_hex output input' 16;
     Some (input', output') }"

definition cm_lbs_md5 :: "(bytes \<Rightarrow> bytes) \<Rightarrow> bytes \<Rightarrow> bytes \<Rightarrow> (bytes \<times> bytes) option" where
  "cm_lbs_md5 md5 input output = do {
     s \<leftarrow> c_str input;
     input' \<leftarrow> arr_copy (take 16 (md5 s)) input;
     output' \<leftarrow> cm_lbs_data_to_hex output input' 16;
     Some (input', output') }"

text \<open>Specification: two upper-case digits per byte, and the reading of them.\<close>

definition to_hex :: "bytes \<Rightarrow> string" where
  "to_hex b = concat (map (\<lambda>c. [hex_digit (of_char c div 16), hex_digit (of_char c mod 16)]) b)"

definition hex_val :: "char \<Rightarrow> nat" where
  "hex_val c = (if (of_char c :: nat) \<le> 57 then of_char c - 48 else of_char c - 55)"

fun of_hex :: "string \<Rightarrow> bytes" where
  "of_hex (a # b # r) = char_of (16 * hex_val a + hex_val b) # of_hex r"
| "of_hex _ = []"

lemma nibbles:
  fixes n :: nat
  assumes "n < 256"
  shows "drop_bit 4 (n AND 0xF0) = n div 16" and "n AND 0x0F = n mod 16"
proof -
  show 2: "n AND 0x0F = n mod 16"
    using take_bit_eq_mask [of 4 n] by (simp add: mask_eq_exp_minus_1 take_bit_eq_mod)
  have "drop_bit 4 (n AND 0xF0) = drop_bit 4 n AND drop_bit 4 0xF0"
    by (rule drop_bit_and)
  also have "\<dots> = n div 16 AND mask 4"
    by (simp add: drop_bit_eq_div mask_eq_exp_minus_1)
  also have "\<dots> = take_bit 4 (n div 16)" by (simp flip: take_bit_eq_mask)
  also have "\<dots> = n div 16"
    using assms by (intro take_bit_nat_eq_self) simp
  finally show "drop_bit 4 (n AND 0xF0) = n div 16" .
qed

lemma hex_loop_to_hex: "n \<le> length b \<Longrightarrow> hex_loop n b = Some (to_hex (take n b))"
proof (induction n b rule: hex_loop.induct)
  case (3 n c bin)
  have "(of_char c :: nat) < 256" by (rule nat_of_char_less_256)
  note nibbles [OF this]
  then show ?case using 3 by (simp add: to_hex_def)
qed (simp_all add: to_hex_def)

lemma length_to_hex: "length (to_hex b) = 2 * length b"
  by (induction b) (simp_all add: to_hex_def)

lemma nibble_cases:
  "n < 16 \<Longrightarrow> n \<in> {0, 1, 2, 3, 4, 5, 6, 7, 8, 9, 10, 11, 12, 13, 14, 15 :: nat}"
  by (simp add: less_Suc_eq numeral_eq_Suc)

lemma hex_digit_facts:
  assumes "n < 16"
  shows "hex_val (hex_digit n) = n" and "hex_digit n \<noteq> NUL"
proof -
  show "hex_val (hex_digit n) = n"
    using nibble_cases [OF assms] by (auto simp: hex_val_def hex_digit_def)
  have "(of_char (hex_digit n) :: nat) \<noteq> 0"
    using assms by (simp add: hex_digit_def)
  then show "hex_digit n \<noteq> NUL" by force
qed

lemma of_char_nibbles: "(of_char c :: nat) div 16 < 16" "(of_char c :: nat) mod 16 < 16"
proof -
  show "(of_char c :: nat) div 16 < 16"
    by (rule less_mult_imp_div_less) (use nat_of_char_less_256 [of c] in simp)
qed simp

lemma of_to_hex: "of_hex (to_hex b) = b"
  by (induction b) (simp_all add: to_hex_def hex_digit_facts(1) [OF of_char_nibbles(1)]
      hex_digit_facts(1) [OF of_char_nibbles(2)])

lemma to_hex_no_NUL: "NUL \<notin> set (to_hex b)"
  using hex_digit_facts(2) [OF of_char_nibbles(1)] hex_digit_facts(2) [OF of_char_nibbles(2)]
  by (auto simp: to_hex_def) metis+

lemma data_to_hex_ok:
  assumes "n \<le> length bin" and "2 * n < length hex_buf" and "hex_buf ! (2 * n) = NUL"
  obtains h where "cm_lbs_atcmd_data_to_hex hex_buf bin n = Some h"
    and "c_str h = Some (to_hex (take n bin))"
proof -
  have l: "length (to_hex (take n bin)) = 2 * n" using assms(1) by (simp add: length_to_hex)
  have "drop (2 * n) hex_buf = NUL # drop (Suc (2 * n)) hex_buf"
    using assms(2,3) by (metis Cons_nth_drop_Suc)
  then show ?thesis
    using that assms l c_str_append_NUL [OF to_hex_no_NUL [of "take n bin"]]
    by (simp add: cm_lbs_atcmd_data_to_hex_def hex_loop_to_hex arr_copy_def)
qed

text \<open>The masked form of a secret: 32 hexadecimal digits, in a fresh array of 64 bytes.\<close>

definition masked :: "(bytes \<Rightarrow> bytes) \<Rightarrow> string \<Rightarrow> string" where
  "masked md5 v = to_hex (take 16 (md5 v))"

lemma take_arr_copy: "arr_copy v a = Some b \<Longrightarrow> take (length v) b = v"
  by (auto simp: arr_copy_def split: if_splits)

lemma atcmd_md5_ok:
  assumes "c_str input = Some v" and "16 \<le> length input" and "\<And>x. length (md5 x) = 16"
  obtains i h where "cm_lbs_atcmd_md5 md5 input (replicate 64 NUL) = Some (i, h)"
    and "c_str h = Some (masked md5 v)"
proof -
  obtain i where i: "arr_copy (take 16 (md5 v)) input = Some i"
    using assms(2,3) by (simp add: arr_copy_def)
  have t: "take 16 i = take 16 (md5 v)"
    using take_arr_copy [OF i] assms(3) by simp
  have "16 \<le> length i" using length_arr_copy [OF i] assms(2) by simp
  then obtain h where "cm_lbs_atcmd_data_to_hex (replicate 64 NUL) i 16 = Some h"
    and "c_str h = Some (to_hex (take 16 i))"
    using data_to_hex_ok [of 16 i "replicate 64 NUL"] by auto
  then show ?thesis
    using that assms(1) i t by (simp add: cm_lbs_atcmd_md5_def masked_def)
qed

lemma length_masked: "length (md5 v) = 16 \<Longrightarrow> length (masked md5 v) = 32"
  by (simp add: masked_def length_to_hex)

lemma masked_no_NUL: "NUL \<notin> set (masked md5 v)"
  by (simp add: masked_def to_hex_no_NUL)

section \<open>Numbers in text\<close>

definition cm_lbs_atcmd_string_is_digital :: "string \<Rightarrow> cm_lbs_state_e" where
  "cm_lbs_atcmd_string_is_digital str =
     (if \<exists>c \<in> set str. \<not> is_digit c then CM_LBS_ERR else CM_LBS_OK)"

text \<open>\<open>atoi\<close> of the C library: white space, an optional sign, digits. The number is clamped to the
  64-bit range and then cut to 32 bits, as \<open>(int) strtol\<close> does.\<close>

definition is_space :: "char \<Rightarrow> bool" where
  "is_space c \<longleftrightarrow> c = CHR '' '' \<or> (9 \<le> (of_char c :: nat) \<and> (of_char c :: nat) \<le> 13)"

definition atoi :: "string \<Rightarrow> u32" where
  "atoi s =
     (let t = dropWhile is_space s;
          neg = (take 1 t = ''-'');
          u = (if take 1 t = ''-'' \<or> take 1 t = ''+'' then drop 1 t else t);
          n = int (nat_of_dec (takeWhile is_digit u))
      in of_int (if neg then max (- n) (- (2 ^ 63)) else min n (2 ^ 63 - 1)))"

lemma digit_not_special:
  assumes "is_digit c"
  shows "\<not> is_space c" and "c \<noteq> CHR ''-''" and "c \<noteq> CHR ''+''" and "c \<noteq> NUL"
  using assms by (auto simp: is_digit_def is_space_def)

lemma atoi_digits:
  assumes "\<forall>c \<in> set s. is_digit c"
  shows "atoi s = of_int (min (int (nat_of_dec s)) (2 ^ 63 - 1))"
proof -
  have t: "takeWhile is_digit s = s" using assms by (simp add: takeWhile_eq_all_conv)
  show ?thesis
  proof (cases s)
    case Nil
    then show ?thesis by (simp add: atoi_def)
  next
    case (Cons c r)
    then have d: "is_digit c" using assms by simp
    then have "dropWhile is_space s = s" and "take 1 s \<noteq> ''-''" and "take 1 s \<noteq> ''+''"
      using Cons digit_not_special [OF d] by simp_all
    then show ?thesis
      by (simp add: atoi_def Let_def t)
  qed
qed

lemma atoi_small:
  assumes "\<forall>c \<in> set s. is_digit c" and "nat_of_dec s < 2 ^ 31"
  shows "sint (atoi s) = int (nat_of_dec s)" and "atoi s = of_nat (nat_of_dec s)"
proof -
  show e: "atoi s = of_nat (nat_of_dec s)"
    using assms by (simp add: atoi_digits min_def)
  have "unat (of_nat (nat_of_dec s) :: u32) = nat_of_dec s"
    using assms(2) by (intro unat_of_nat32) simp
  then show "sint (atoi s) = int (nat_of_dec s)"
    using assms(2) unfolding e sint_word_cases by (simp del: of_nat_unat)
qed

section \<open>The decimals of a coordinate\<close>

text \<open>\<open>strcat(a, "0")\<close>, \<open>k\<close> times.\<close>

fun cat_zeros :: "nat \<Rightarrow> bytes \<Rightarrow> bytes option" where
  "cat_zeros 0 a = Some a"
| "cat_zeros (Suc k) a = do { b \<leftarrow> arr_cat ''0'' a; cat_zeros k b }"

text \<open>\<open>cm_lbs_atcmd_string_assign_decimal\<close>: the output array afterwards. A write through the null
  pointer \<open>p_doc\<close> or outside the array is a fault.\<close>

definition cm_lbs_atcmd_string_assign_decimal :: "string option \<Rightarrow> bytes \<Rightarrow> int \<Rightarrow> bytes option" where
  "cm_lbs_atcmd_string_assign_decimal src_str out_str count =
     (case src_str of
        None \<Rightarrow> Some out_str
      | Some src \<Rightarrow>
          if count > 8 then Some out_str
          else do {
            out \<leftarrow> arr_copy src out_str;
            let i = length (takeWhile (\<lambda>c. c \<noteq> CHR ''.'') src);
            let p_doc = (if i < length src then Some i else None);
            let decimal_len = int (length src) - int i - 1;
            (if decimal_len = CM_LBS_PRECISION_MAX then Some out
             else if decimal_len > count then do {
               p \<leftarrow> p_doc;
               let k = int p + count + 1;
               (if k < 0 \<or> k \<ge> int (length out) then None else Some (out[nat k := NUL])) }
             else if decimal_len < count then
               (let patch_len = count - decimal_len in
                if patch_len > CM_LBS_PRECISION_MAX then Some out
                else cat_zeros (nat patch_len) out)
             else Some out) })"

text \<open>The intended result: exactly \<open>n\<close> decimals.\<close>

definition with_decimals :: "nat \<Rightarrow> string \<Rightarrow> string \<Rightarrow> string" where
  "with_decimals n whole frac =
     whole @ CHR ''.'' # take n frac @ replicate (n - length frac) CHR ''0''"

lemma cat_zeros_ok:
  assumes "c_str a = Some s" and "length s + k < length a"
  obtains b where "cat_zeros k a = Some b" and "c_str b = Some (s @ replicate k CHR ''0'')"
    and "length b = length a"
  using assms
proof (induction k arbitrary: a s thesis)
  case (Suc k)
  obtain b where b: "arr_cat ''0'' a = Some b" "c_str b = Some (s @ ''0'')" "length b = length a"
    using arr_cat_ok [OF Suc.prems(2), of "''0''"] Suc.prems(3) by auto
  obtain d where "cat_zeros k b = Some d" "c_str d = Some ((s @ ''0'') @ replicate k CHR ''0'')"
    "length d = length b"
    using Suc.IH [OF _ b(2)] Suc.prems(3) b(3) by auto
  then show ?case using Suc.prems(1) b by (simp add: replicate_app_Cons_same)
qed simp

lemma c_str_arr_copy_zeros:
  assumes "NUL \<notin> set s" and "length s < n"
  obtains a where "arr_copy s (replicate n NUL) = Some a" and "c_str a = Some s" and "length a = n"
    and "a = s @ replicate (n - length s) NUL"
proof -
  obtain k where "n - length s = Suc k" using assms(2) by (metis Suc_diff_Suc)
  then show ?thesis
    using that assms by (simp add: arr_copy_def c_str_append_NUL)
qed

lemma takeWhile_point [simp]:
  assumes "CHR ''.'' \<notin> set whole"
  shows "takeWhile (\<lambda>c. c \<noteq> CHR ''.'') (whole @ CHR ''.'' # frac) = whole"
    and "takeWhile (\<lambda>c. c \<noteq> CHR ''.'') whole = whole"
proof -
  have "\<forall>c \<in> set whole. c \<noteq> CHR ''.''" using assms by auto
  then show "takeWhile (\<lambda>c. c \<noteq> CHR ''.'') (whole @ CHR ''.'' # frac) = whole"
    and "takeWhile (\<lambda>c. c \<noteq> CHR ''.'') whole = whole"
    by (simp_all add: takeWhile_append takeWhile_eq_all_conv)
qed

lemma assign_decimal_ok:
  assumes w: "CHR ''.'' \<notin> set whole" "NUL \<notin> set whole" and f: "NUL \<notin> set frac"
    and len: "length whole + 1 + max n (length frac) < 16" and n: "n \<le> 8"
    and lf: "length frac \<noteq> 8 \<or> n = 8"
  shows "\<exists>out. cm_lbs_atcmd_string_assign_decimal (Some (whole @ CHR ''.'' # frac)) (replicate 16 NUL) (int n)
      = Some out \<and> c_str out = Some (with_decimals n whole frac)"
proof -
  let ?s = "whole @ CHR ''.'' # frac"
  have "NUL \<notin> set ?s" and "length ?s < 16" using w f len by simp_all
  from c_str_arr_copy_zeros [OF this] obtain a where
    a: "arr_copy ?s (replicate 16 NUL) = Some a" "c_str a = Some ?s" "length a = 16"
      "a = ?s @ replicate (16 - length ?s) NUL" by blast
  have d: "int (length ?s) - int (length whole) - 1 = int (length frac)" by simp
  note run = cm_lbs_atcmd_string_assign_decimal_def Let_def takeWhile_point [OF w(1)] d lbs_default_defs a(1)
  consider "length frac = n" | "n < length frac" "length frac \<noteq> 8" | "length frac < n" using lf by linarith
  then show ?thesis
  proof cases
    case 1
    then show ?thesis using a(2) n by (simp add: run with_decimals_def)
  next
    case 2
    have k: "nat (int (length whole) + int n + 1) = length (whole @ CHR ''.'' # take n frac)"
      using 2 by simp
    have "a[length (whole @ CHR ''.'' # take n frac) := NUL]
        = (whole @ CHR ''.'' # take n frac) @ NUL # drop (Suc n) frac @ replicate (16 - length ?s) NUL"
      (is "?u = ?v")
    proof -
      have "a = (whole @ CHR ''.'' # take n frac) @ frac ! n # drop (Suc n) frac @ replicate (16 - length ?s) NUL"
        using 2 unfolding a(4) by (simp add: Cons_nth_drop_Suc)
      then show ?thesis by (simp only: list_update_length)
    qed
    moreover have "NUL \<notin> set (whole @ CHR ''.'' # take n frac)"
      using w f by (auto dest: in_set_takeD)
    then have "c_str ?v = Some (whole @ CHR ''.'' # take n frac)"
      by (rule c_str_append_NUL)
    ultimately have "c_str ?u = Some (whole @ CHR ''.'' # take n frac)"
      by (simp only:)
    moreover have "cm_lbs_atcmd_string_assign_decimal (Some ?s) (replicate 16 NUL) (int n)
        = Some (a[length (whole @ CHR ''.'' # take n frac) := NUL])"
      using 2 n len a(3) by (simp add: run k [simplified])
    ultimately show ?thesis using 2 by (auto simp: with_decimals_def)
  next
    case 3
    obtain b where b: "cat_zeros (n - length frac) a = Some b"
      "c_str b = Some (?s @ replicate (n - length frac) CHR ''0'')"
      using cat_zeros_ok [OF a(2), of "n - length frac"] len 3 a(3) by auto
    have p: "nat (int n - int (length frac)) = n - length frac" by simp
    have "cm_lbs_atcmd_string_assign_decimal (Some ?s) (replicate 16 NUL) (int n) = Some b"
      using 3 n b(1) by (simp add: run p)
    then show ?thesis using b(2) 3 by (auto simp: with_decimals_def)
  qed
qed

text \<open>Eight decimals are never shortened, and a whole number gets one zero too many and no point.\<close>

lemma assign_decimal_eight:
  assumes "CHR ''.'' \<notin> set whole" and "length frac = 8" and "length whole < 7" and "count \<le> 8"
    and "NUL \<notin> set whole" and "NUL \<notin> set frac"
  shows "\<exists>out. cm_lbs_atcmd_string_assign_decimal (Some (whole @ CHR ''.'' # frac)) (replicate 16 NUL) count
      = Some out \<and> c_str out = Some (whole @ CHR ''.'' # frac)"
proof -
  let ?s = "whole @ CHR ''.'' # frac"
  have "NUL \<notin> set ?s" and "length ?s < 16" using assms by simp_all
  from c_str_arr_copy_zeros [OF this] obtain a where
    a: "arr_copy ?s (replicate 16 NUL) = Some a" "c_str a = Some ?s" by blast
  show ?thesis
    using a assms(1,2,4)
    by (simp add: cm_lbs_atcmd_string_assign_decimal_def Let_def lbs_default_defs)
qed

lemma assign_decimal_whole:
  assumes "CHR ''.'' \<notin> set whole" and "NUL \<notin> set whole" and "length whole + n + 1 < 16" and "n < 8"
  shows "\<exists>out. cm_lbs_atcmd_string_assign_decimal (Some whole) (replicate 16 NUL) (int n)
      = Some out \<and> c_str out = Some (whole @ replicate (n + 1) CHR ''0'')"
proof -
  have "length whole < 16" using assms by simp
  from c_str_arr_copy_zeros [OF assms(2) this] obtain a where
    a: "arr_copy whole (replicate 16 NUL) = Some a" "c_str a = Some whole" "length a = 16" by blast
  have "length whole + (n + 1) < length a" using assms a(3) by simp
  from cat_zeros_ok [OF a(2) this] obtain b where
    b: "cat_zeros (n + 1) a = Some b" "c_str b = Some (whole @ replicate (n + 1) CHR ''0'')" by blast
  have p: "nat (int n - - 1) = n + 1" by simp
  have "cm_lbs_atcmd_string_assign_decimal (Some whole) (replicate 16 NUL) (int n) = Some b"
    using a(1) b(1) assms(1,4)
    by (simp add: cm_lbs_atcmd_string_assign_decimal_def Let_def lbs_default_defs p [simplified])
  then show ?thesis using b(2) by blast
qed

section \<open>Option names\<close>

datatype cm_lbs_atcmd_option_e =
    LBS_LBS_ATCMD_NULL_OP | LBS_ATCMD_METHOD_OP | LBS_ATCMD_APIKEY_OP | LBS_ATCMD_PRECISION
  | LBS_ATCMD_DESCR_MODE | LBS_ATCMD_SIGN_ENABLE | LBS_ATCMD_SIGN_KEY | LBS_ATCMD_PID
  | LBS_ATCMD_NEARBTS_ENABLE | LBS_ATCMD_ONEOS_INTERNAL_PID | LBS_ATCMD_ONEOS_CHANGE_COORDINATE

definition option_info :: "(cm_lbs_atcmd_option_e \<times> string) list" where
  "option_info =
    [(LBS_ATCMD_METHOD_OP, ''method''),
     (LBS_ATCMD_APIKEY_OP, ''apikey''),
     (LBS_ATCMD_APIKEY_OP, ''key''),
     (LBS_ATCMD_PRECISION, ''precision''),
     (LBS_ATCMD_DESCR_MODE, ''format''),
     (LBS_ATCMD_SIGN_ENABLE, ''signen''),
     (LBS_ATCMD_SIGN_KEY, ''signkey''),
     (LBS_ATCMD_PID, ''pid''),
     (LBS_ATCMD_NEARBTS_ENABLE, ''nearbtsen''),
     (LBS_ATCMD_ONEOS_INTERNAL_PID, ''oneosinternalpid''),
     (LBS_ATCMD_ONEOS_CHANGE_COORDINATE, ''oneoscoordinate'')]"

fun find_option :: "string \<Rightarrow> (cm_lbs_atcmd_option_e \<times> string) list \<Rightarrow> cm_lbs_atcmd_option_e" where
  "find_option subcmd [] = LBS_LBS_ATCMD_NULL_OP"
| "find_option subcmd ((op, nm) # r) = (if subcmd = nm then op else find_option subcmd r)"

definition cm_lbs_atcmd_subcmd_to_option :: "string \<Rightarrow> cm_lbs_atcmd_option_e" where
  "cm_lbs_atcmd_subcmd_to_option subcmd = find_option subcmd option_info"

section \<open>The text of a number\<close>

lemma is_digit_no_NUL: "\<forall>c \<in> set s. is_digit c \<Longrightarrow> NUL \<notin> set s"
  using digit_not_special(4) by auto

lemma dec_int_no_NUL: "NUL \<notin> set (dec_int i)"
  using is_digit_no_NUL [OF dec_nat_digits] by (simp add: dec_int_def)

end
