(* ===== verification/LbsConfig.thy ===== *)
theory LbsConfig
  imports LbsFiles LbsFormat
begin

text \<open>
  The configuration command of the AT layer, \<open>AT+MLBSCFG\<close>, from \<^verbatim>\<open>cm_lbs/cm_lbs/src/cm_lbs_api.c\<close>:
  setting an option of the platform in use, the checks on the values, reading an option back, and the
  list of options. The state is the file system and the answers of the allocator.
\<close>

section \<open>The state\<close>

record lbs_env =
  env_fs :: filesys
  env_allocs :: allocs

definition on_fs :: "(filesys \<Rightarrow> ('r \<times> filesys) option) \<Rightarrow> 'e lbs_env_scheme
    \<Rightarrow> ('r \<times> 'e lbs_env_scheme) option" where
  "on_fs f w = do { (r, s) \<leftarrow> f (env_fs w); Some (r, w\<lparr>env_fs := s\<rparr>) }"

definition env_malloc :: "'e lbs_env_scheme \<Rightarrow> bool \<times> 'e lbs_env_scheme" where
  "env_malloc w = (case malloc_ok (env_allocs w) of (ok, al) \<Rightarrow> (ok, w\<lparr>env_allocs := al\<rparr>))"

text \<open>The \<open>void *\<close> of the option functions points to a string or to a number; reading it as the
  other is a fault.\<close>

datatype opt_value = Val_str string | Val_int u32

definition val_str :: "opt_value \<Rightarrow> string option" where
  "val_str v = (case v of Val_str s \<Rightarrow> Some s | Val_int n \<Rightarrow> None)"

definition val_int :: "opt_value \<Rightarrow> u32 option" where
  "val_int v = (case v of Val_int n \<Rightarrow> Some n | Val_str s \<Rightarrow> None)"

section \<open>Setting an option\<close>

text \<open>The \<open>switch\<close> of \<open>__amap_cm_lbs_atcmd_setoption\<close> on the structure: the error, or the structure
  to store. The log line prints the key that was copied, which runs past an array without a NUL.\<close>

definition amap_apply :: "cm_lbs_atcmd_option_e \<Rightarrow> opt_value \<Rightarrow> cm_lbs_atcmd_amap_config_t
    \<Rightarrow> (cm_lbs_state_e + cm_lbs_atcmd_amap_config_t) option" where
  "amap_apply option value attr =
     (case option of
        LBS_ATCMD_APIKEY_OP \<Rightarrow> do {
          v \<leftarrow> val_str value;
          (if length v \<le> CM_LBS_AMAP_APIKET_LEN then do {
             k \<leftarrow> arr_fill CM_LBS_AMAP_APIKET_LEN v;
             log \<leftarrow> c_str k;
             Some (Inr (attr\<lparr>apikey := k\<rparr>)) }
           else Some (Inl CM_LBS_PARAMERR)) }
      | LBS_ATCMD_SIGN_KEY \<Rightarrow> do {
          v \<leftarrow> val_str value;
          (if length v \<le> CM_LBS_AMAP_SIGNATUREKEY_LEN then do {
             k \<leftarrow> arr_fill CM_LBS_AMAP_SIGNATUREKEY_LEN v;
             Some (Inr (attr\<lparr>signature_key := k\<rparr>)) }
           else Some (Inl CM_LBS_PARAMERR)) }
      | LBS_ATCMD_PRECISION \<Rightarrow> do { n \<leftarrow> val_int value; Some (Inr (attr\<lparr>a_precision := n\<rparr>)) }
      | LBS_ATCMD_DESCR_MODE \<Rightarrow> do { n \<leftarrow> val_int value; Some (Inr (attr\<lparr>a_descr_mode := n\<rparr>)) }
      | LBS_ATCMD_SIGN_ENABLE \<Rightarrow> do { n \<leftarrow> val_int value; Some (Inr (attr\<lparr>signal_enable := n\<rparr>)) }
      | LBS_ATCMD_NEARBTS_ENABLE \<Rightarrow> do { n \<leftarrow> val_int value; Some (Inr (attr\<lparr>a_nearbts_enable := n\<rparr>)) }
      | _ \<Rightarrow> Some (Inl CM_LBS_PARAMERR))"

definition amap_defaults :: "cm_lbs_atcmd_amap_config_t \<Rightarrow> cm_lbs_atcmd_amap_config_t" where
  "amap_defaults attr = attr\<lparr>a_precision := CM_LBS_PRECISION_DEFAULT,
     a_descr_mode := CM_LBS_DESCR_MODE_DEFAULT, signal_enable := CM_LBS_SIGNATURE_EN_DEFAULT\<rparr>"

definition amap_cm_lbs_atcmd_setoption :: "cm_lbs_atcmd_option_e \<Rightarrow> opt_value
    \<Rightarrow> 'e lbs_env_scheme \<Rightarrow> (cm_lbs_state_e \<times> 'e lbs_env_scheme) option" where
  "amap_cm_lbs_atcmd_setoption option value w = do {
     (pf, w1) \<leftarrow> on_fs cm_lbs_atcmd_getplatform w;
     (case env_malloc w1 of (ok, w2) \<Rightarrow>
        if \<not> ok then Some (CM_LBS_MEMROYERR, w2)
        else if option = LBS_ATCMD_METHOD_OP then
          (case env_malloc w2 of (ok2, w3) \<Rightarrow>
             if \<not> ok2 then Some (CM_LBS_MEMROYERR, w3)
             else do {
               s_platform \<leftarrow> val_int value;
               on_fs (cm_lbs_atcmd_write_atcmdcfg (Some \<lparr>platform = s_platform\<rparr>)) w3 })
        else do {
          ((ret, cfg), w3) \<leftarrow> on_fs (cm_lbs_atcmd_read_amapcfg pf (Some zero_amap)) w2;
          c \<leftarrow> cfg;
          res \<leftarrow> amap_apply option value (if ret = CM_LBS_OK then c else amap_defaults c);
          (case res of
             Inl e \<Rightarrow> Some (e, w3)
           | Inr attr \<Rightarrow>
               if pf = CM_LBS_PLAT_AMAP10 \<or> pf = CM_LBS_PLAT_AMAP20
               then on_fs (cm_lbs_atcmd_write_amapcfg pf (Some attr)) w3
               else Some (CM_LBS_OK, w3)) }) }"

definition oneospos_apply :: "cm_lbs_atcmd_option_e \<Rightarrow> opt_value \<Rightarrow> cm_lbs_atcmd_oneospos_config_t
    \<Rightarrow> (cm_lbs_state_e + cm_lbs_atcmd_oneospos_config_t) option" where
  "oneospos_apply option value attr =
     (case option of
        LBS_ATCMD_PID \<Rightarrow> do {
          v \<leftarrow> val_str value;
          (if length v \<le> CM_LBS_ONEOSPOS_PID_LEN then do {
             k \<leftarrow> arr_fill CM_LBS_ONEOSPOS_PID_LEN v;
             Some (Inr (attr\<lparr>o_pid := k\<rparr>)) }
           else Some (Inl CM_LBS_PARAMERR)) }
      | LBS_ATCMD_PRECISION \<Rightarrow> do { n \<leftarrow> val_int value; Some (Inr (attr\<lparr>o_precision := n\<rparr>)) }
      | LBS_ATCMD_NEARBTS_ENABLE \<Rightarrow> do { n \<leftarrow> val_int value; Some (Inr (attr\<lparr>o_nearbts_enable := n\<rparr>)) }
      | LBS_ATCMD_ONEOS_CHANGE_COORDINATE \<Rightarrow> do {
          n \<leftarrow> val_int value; Some (Inr (attr\<lparr>o_coordinate_enable := n\<rparr>)) }
      | _ \<Rightarrow> Some (Inl CM_LBS_PARAMERR))"

definition oneospos_defaults :: "cm_lbs_atcmd_oneospos_config_t \<Rightarrow> cm_lbs_atcmd_oneospos_config_t" where
  "oneospos_defaults attr = attr\<lparr>o_precision := CM_LBS_PRECISION_DEFAULT,
     o_coordinate_enable := CM_LBS_ONEOS_COORDINATE\<rparr>"

definition oneospos_cm_lbs_atcmd_setoption :: "cm_lbs_atcmd_option_e \<Rightarrow> opt_value
    \<Rightarrow> 'e lbs_env_scheme \<Rightarrow> (cm_lbs_state_e \<times> 'e lbs_env_scheme) option" where
  "oneospos_cm_lbs_atcmd_setoption option value w =
     (case env_malloc w of (ok, w1) \<Rightarrow>
        if \<not> ok then Some (CM_LBS_PARAMERR, w1)
        else do {
          ((ret, cfg), w2) \<leftarrow>
            on_fs (cm_lbs_atcmd_Read_oneosposcfg CM_LBS_PLAT_ONEOSPOS (Some zero_oneospos)) w1;
          c \<leftarrow> cfg;
          res \<leftarrow> oneospos_apply option value (if ret = CM_LBS_OK then c else oneospos_defaults c);
          (case res of
             Inl e \<Rightarrow> Some (e, w2)
           | Inr attr \<Rightarrow> on_fs (cm_lbs_atcmd_write_oneosposcfg CM_LBS_PLAT_ONEOSPOS (Some attr)) w2) })"

definition cm_lbs_atcmd_setoption :: "cm_lbs_atcmd_option_e \<Rightarrow> opt_value
    \<Rightarrow> 'e lbs_env_scheme \<Rightarrow> (cm_lbs_state_e \<times> 'e lbs_env_scheme) option" where
  "cm_lbs_atcmd_setoption option value w = do {
     (pf, w1) \<leftarrow> on_fs cm_lbs_atcmd_getplatform w;
     (if option = LBS_ATCMD_METHOD_OP then amap_cm_lbs_atcmd_setoption option value w1
      else if pf = CM_LBS_PLAT_ONEOSPOS then oneospos_cm_lbs_atcmd_setoption option value w1
      else amap_cm_lbs_atcmd_setoption option value w1) }"

section \<open>AT+MLBSCFG with a value\<close>

text \<open>A rejected value is logged with the format \<open>%s\<close> and the value cut to a \<open>char\<close>, so the log
  call follows a pointer that is no string. \<open>bad_log\<close> is that fault.\<close>

definition bad_log :: "(cm_lbs_state_e \<times> 'e lbs_env_scheme) option" where
  "bad_log = None"

text \<open>The numeric options share their checks and differ in the range and in what happens outside
  of it.\<close>

definition set_ranged :: "cm_lbs_atcmd_option_e \<Rightarrow> string \<Rightarrow> int \<Rightarrow> int
    \<Rightarrow> (cm_lbs_state_e \<times> 'e lbs_env_scheme) option \<Rightarrow> 'e lbs_env_scheme
    \<Rightarrow> (cm_lbs_state_e \<times> 'e lbs_env_scheme) option" where
  "set_ranged op value lo hi outside w =
     (if cm_lbs_atcmd_string_is_digital value \<noteq> CM_LBS_OK then bad_log
      else let n = atoi value in
        if sint n < lo \<or> sint n > hi then outside
        else cm_lbs_atcmd_setoption op (Val_int n) w)"

definition cm_lbs_atcmd_MLBSCFG_set :: "string \<Rightarrow> string option \<Rightarrow> 'e lbs_env_scheme
    \<Rightarrow> (cm_lbs_state_e \<times> 'e lbs_env_scheme) option" where
  "cm_lbs_atcmd_MLBSCFG_set subcmd val w =
     (let op = cm_lbs_atcmd_subcmd_to_option subcmd in
      case val of
        None \<Rightarrow> Some (CM_LBS_PARAMERR, w)
      | Some value \<Rightarrow>
          (case op of
             LBS_LBS_ATCMD_NULL_OP \<Rightarrow> Some (CM_LBS_PARAMERR, w)
           | LBS_ATCMD_METHOD_OP \<Rightarrow>
               if cm_lbs_atcmd_string_is_digital value \<noteq> CM_LBS_OK then bad_log
               else let pf = atoi value in
                 if \<not> (CM_LBS_PLAT_AMAP10 = pf \<or> CM_LBS_PLAT_AMAP20 = pf \<or> CM_LBS_PLAT_ONEOSPOS = pf)
                 then Some (CM_LBS_PARAMERR, w)
                 else cm_lbs_atcmd_setoption op (Val_int pf) w
           | LBS_ATCMD_APIKEY_OP \<Rightarrow> cm_lbs_atcmd_setoption op (Val_str value) w
           | LBS_ATCMD_PRECISION \<Rightarrow>
               set_ranged op value CM_LBS_PRECISION_MIN CM_LBS_PRECISION_MAX bad_log w
           | LBS_ATCMD_DESCR_MODE \<Rightarrow>
               set_ranged op value CM_LBS_DESCR_MODE_MIN CM_LBS_DESCR_MODE_MAX bad_log w
           | LBS_ATCMD_SIGN_ENABLE \<Rightarrow> set_ranged op value 0 1 bad_log w
           | LBS_ATCMD_SIGN_KEY \<Rightarrow> cm_lbs_atcmd_setoption op (Val_str value) w
           | LBS_ATCMD_PID \<Rightarrow> cm_lbs_atcmd_setoption op (Val_str value) w
           | LBS_ATCMD_NEARBTS_ENABLE \<Rightarrow>
               set_ranged op value 0 1 (Some (CM_LBS_PARAMERR, w)) w
           | LBS_ATCMD_ONEOS_CHANGE_COORDINATE \<Rightarrow> set_ranged op value 0 1 bad_log w
           | LBS_ATCMD_ONEOS_INTERNAL_PID \<Rightarrow> Some (CM_LBS_PARAMERR, w)))"

section \<open>AT+MLBSCFG without a value\<close>

definition CRLF :: string where "CRLF = [CHR 0x0D, CHR 0x0A]"

definition quoted :: "string \<Rightarrow> string" where
  "quoted s = CHR 0x22 # s @ [CHR 0x22]"

definition CM_LBS_ONEOSPOS_INTERNAL_PID :: string where
  "CM_LBS_ONEOSPOS_INTERNAL_PID = ''m5CAIkqYGa''"

text \<open>\<open>sprintf\<close> of a number into an array of four characters, appended to the answer.\<close>

definition cat_number :: "u32 \<Rightarrow> bytes \<Rightarrow> bytes option" where
  "cat_number n at_send = do { s \<leftarrow> fits 4 (dec_int (sint n)); arr_cat s at_send }"

text \<open>The masked form of a secret, in an array of 64 characters, appended to the answer.\<close>

definition cat_masked :: "(bytes \<Rightarrow> bytes) \<Rightarrow> bytes \<Rightarrow> bytes \<Rightarrow> bytes option" where
  "cat_masked md5 secret at_send = do {
     (i, h) \<leftarrow> cm_lbs_atcmd_md5 md5 secret (replicate 64 NUL);
     s \<leftarrow> c_str h;
     arr_cat s at_send }"

definition cfg_prefix :: "string \<Rightarrow> string" where
  "cfg_prefix subcmd = ''+MLBSCFG: '' @ quoted subcmd @ '',''"

definition with_ok :: "bytes option \<Rightarrow> (cm_lbs_state_e \<times> bytes) option" where
  "with_ok r = map_option (Pair CM_LBS_OK) r"

text \<open>The \<open>switch\<close> of \<open>__cm_lbs_atcmd_amap_config_get\<close>.\<close>

definition amap_show :: "(bytes \<Rightarrow> bytes) \<Rightarrow> cm_lbs_atcmd_option_e \<Rightarrow> platform_e
    \<Rightarrow> cm_lbs_atcmd_amap_config_t \<Rightarrow> bytes \<Rightarrow> (cm_lbs_state_e \<times> bytes) option" where
  "amap_show md5 op pf attr out =
     (case op of
        LBS_ATCMD_METHOD_OP \<Rightarrow> with_ok (cat_number pf out)
      | LBS_ATCMD_APIKEY_OP \<Rightarrow> with_ok (cat_masked md5 (apikey attr) out)
      | LBS_ATCMD_PRECISION \<Rightarrow> with_ok (cat_number (a_precision attr) out)
      | LBS_ATCMD_DESCR_MODE \<Rightarrow> with_ok (cat_number (a_descr_mode attr) out)
      | LBS_ATCMD_SIGN_ENABLE \<Rightarrow> with_ok (cat_number (signal_enable attr) out)
      | LBS_ATCMD_SIGN_KEY \<Rightarrow> with_ok (cat_masked md5 (signature_key attr) out)
      | LBS_ATCMD_NEARBTS_ENABLE \<Rightarrow> with_ok (cat_number (a_nearbts_enable attr) out)
      | _ \<Rightarrow> Some (CM_LBS_PARAMERR, out))"

definition cm_lbs_atcmd_amap_config_get :: "(bytes \<Rightarrow> bytes) \<Rightarrow> string \<Rightarrow> bytes \<Rightarrow> 'e lbs_env_scheme
    \<Rightarrow> ((cm_lbs_state_e \<times> bytes) \<times> 'e lbs_env_scheme) option" where
  "cm_lbs_atcmd_amap_config_get md5 subcmd at_send w =
     (let op = cm_lbs_atcmd_subcmd_to_option subcmd in
      if op = LBS_LBS_ATCMD_NULL_OP then Some ((CM_LBS_PARAMERR, at_send), w)
      else do {
        (pf, w1) \<leftarrow> on_fs cm_lbs_atcmd_getplatform w;
        (case env_malloc w1 of (ok, w2) \<Rightarrow>
           if \<not> ok then Some ((CM_LBS_MEMROYERR, at_send), w2)
           else do {
             ((ret, cfg), w3) \<leftarrow> on_fs (cm_lbs_atcmd_read_amapcfg pf (Some zero_amap)) w2;
             c \<leftarrow> cfg;
             out \<leftarrow> arr_puts (cfg_prefix subcmd) at_send;
             r \<leftarrow> amap_show md5 op pf (if ret = CM_LBS_OK then c else amap_defaults c) out;
             Some (r, w3) }) })"

text \<open>Without a stored configuration the built-in product id is copied over the start of the array.\<close>

definition oneospos_get_defaults :: "cm_lbs_atcmd_oneospos_config_t
    \<Rightarrow> cm_lbs_atcmd_oneospos_config_t option" where
  "oneospos_get_defaults attr = do {
     p \<leftarrow> arr_copy CM_LBS_ONEOSPOS_INTERNAL_PID (o_pid attr);
     Some (attr\<lparr>o_precision := CM_LBS_PRECISION_DEFAULT,
       o_coordinate_enable := CM_LBS_ONEOS_COORDINATE, o_pid := p\<rparr>) }"

definition oneospos_show :: "(bytes \<Rightarrow> bytes) \<Rightarrow> cm_lbs_atcmd_option_e
    \<Rightarrow> cm_lbs_atcmd_oneospos_config_t \<Rightarrow> bytes \<Rightarrow> (cm_lbs_state_e \<times> bytes) option" where
  "oneospos_show md5 op attr out =
     (case op of
        LBS_ATCMD_PID \<Rightarrow> with_ok (cat_masked md5 (o_pid attr) out)
      | LBS_ATCMD_PRECISION \<Rightarrow> with_ok (cat_number (o_precision attr) out)
      | LBS_ATCMD_NEARBTS_ENABLE \<Rightarrow> with_ok (cat_number (o_nearbts_enable attr) out)
      | LBS_ATCMD_ONEOS_INTERNAL_PID \<Rightarrow> do {
          internal_pid \<leftarrow> arr_copy CM_LBS_ONEOSPOS_INTERNAL_PID (replicate 64 NUL);
          with_ok (cat_masked md5 internal_pid out) }
      | LBS_ATCMD_ONEOS_CHANGE_COORDINATE \<Rightarrow> with_ok (cat_number (o_coordinate_enable attr) out)
      | _ \<Rightarrow> Some (CM_LBS_PARAMERR, out))"

definition cm_lbs_atcmd_oneospos_config_get :: "(bytes \<Rightarrow> bytes) \<Rightarrow> string \<Rightarrow> bytes
    \<Rightarrow> 'e lbs_env_scheme \<Rightarrow> ((cm_lbs_state_e \<times> bytes) \<times> 'e lbs_env_scheme) option" where
  "cm_lbs_atcmd_oneospos_config_get md5 subcmd at_send w =
     (let op = cm_lbs_atcmd_subcmd_to_option subcmd in
      if op = LBS_LBS_ATCMD_NULL_OP then Some ((CM_LBS_PARAMERR, at_send), w)
      else do {
        (pf, w1) \<leftarrow> on_fs cm_lbs_atcmd_getplatform w;
        (case env_malloc w1 of (ok, w2) \<Rightarrow>
           if \<not> ok then Some ((CM_LBS_MEMROYERR, at_send), w2)
           else do {
             ((ret, cfg), w3) \<leftarrow> on_fs (cm_lbs_atcmd_Read_oneosposcfg pf (Some zero_oneospos)) w2;
             c \<leftarrow> cfg;
             attr \<leftarrow> (if ret = CM_LBS_OK then Some c else oneospos_get_defaults c);
             out \<leftarrow> arr_puts (cfg_prefix subcmd) at_send;
             r \<leftarrow> oneospos_show md5 op attr out;
             Some (r, w3) }) })"

text \<open>A null answer buffer is \<open>None\<close>.\<close>

definition cm_lbs_atcmd_MLBSCFG_get :: "(bytes \<Rightarrow> bytes) \<Rightarrow> string \<Rightarrow> bytes option
    \<Rightarrow> 'e lbs_env_scheme \<Rightarrow> ((cm_lbs_state_e \<times> bytes option) \<times> 'e lbs_env_scheme) option" where
  "cm_lbs_atcmd_MLBSCFG_get md5 subcmd at_send w =
     (case at_send of
        None \<Rightarrow> Some ((CM_LBS_PARAMERR, None), w)
      | Some buf \<Rightarrow> do {
          (pf, w1) \<leftarrow> on_fs cm_lbs_atcmd_getplatform w;
          (if cm_lbs_atcmd_subcmd_to_option subcmd = LBS_ATCMD_METHOD_OP then do {
             out \<leftarrow> arr_puts (cfg_prefix subcmd) buf;
             b \<leftarrow> cat_number pf out;
             Some ((CM_LBS_OK, Some b), w1) }
           else do {
             ((ret, b), w2) \<leftarrow>
               (if pf = CM_LBS_PLAT_ONEOSPOS then cm_lbs_atcmd_oneospos_config_get md5 subcmd buf w1
                else cm_lbs_atcmd_amap_config_get md5 subcmd buf w1);
             Some ((ret, Some b), w2) }) })"

section \<open>AT+MLBSCFG=?\<close>

text \<open>The list of options, built in two local arrays.\<close>

definition cm_lbs_atcmd_MLBSCFG_test :: "bytes option \<Rightarrow> bytes option option" where
  "cm_lbs_atcmd_MLBSCFG_test at_send =
     (case at_send of
        None \<Rightarrow> Some None
      | Some buf \<Rightarrow> do {
          m0 \<leftarrow> arr_puts (''+MLBSCFG: '' @ quoted ''method'' @ '',('') (replicate 128 NUL);
          m1 \<leftarrow> arr_cat ''10'' m0;
          m2 \<leftarrow> arr_cat '',11'' m1;
          m3 \<leftarrow> arr_cat '',40'' m2;
          m4 \<leftarrow> arr_cat ('')'' @ CRLF) m3;
          m5 \<leftarrow> arr_cat (''+MLBSCFG: '' @ quoted ''apikey'' @ '',<apikey>'' @ CRLF
                 @ ''+MLBSCFG: '' @ quoted ''signen'' @ '',(0,1)'' @ CRLF
                 @ ''+MLBSCFG: '' @ quoted ''signkey'' @ '',<signkey>'' @ CRLF) m4;
          method_send \<leftarrow> c_str m5;
          format_send \<leftarrow> fits 64 (''+MLBSCFG: '' @ quoted ''format'' @ '',('' @ dec_int CM_LBS_DESCR_MODE_MIN
                 @ '','' @ dec_int CM_LBS_DESCR_MODE_MAX @ '')'' @ CRLF);
          out \<leftarrow> arr_puts (method_send @ ''+MLBSCFG: '' @ quoted ''precision'' @ '',(''
                 @ dec_int CM_LBS_PRECISION_MIN @ ''-'' @ dec_int CM_LBS_PRECISION_MAX @ '')'' @ CRLF
                 @ format_send @ ''+MLBSCFG: '' @ quoted ''pid'' @ '',<pid>'' @ CRLF
                 @ ''+MLBSCFG: '' @ quoted ''nearbtsen'' @ '',(0,1)'' @ CRLF) buf;
          Some (Some out) })"

end
