(* ===== verification/LbsConfigSpec.thy ===== *)
theory LbsConfigSpec
  imports LbsConfig
begin

text \<open>
  What \<open>AT+MLBSCFG\<close> promises, over the contents of the configuration store: an abstract \<open>set\<close> that
  updates one slot, an abstract \<open>get\<close> that names the value shown, the proof that the file-level
  functions of \<open>LbsConfig\<close> implement both, and the invariant on stored values.
\<close>

section \<open>The abstract operations\<close>

definition cur_amap :: "cfg_store \<Rightarrow> cm_lbs_atcmd_amap_config_t" where
  "cur_amap st = (case amap_slot (platform_of st) st of None \<Rightarrow> amap_defaults zero_amap | Some c \<Rightarrow> c)"

definition cur_oneospos :: "cfg_store \<Rightarrow> cm_lbs_atcmd_oneospos_config_t" where
  "cur_oneospos st = (case st_oneospos st of None \<Rightarrow> oneospos_defaults zero_oneospos | Some c \<Rightarrow> c)"

definition spec_set :: "cm_lbs_atcmd_option_e \<Rightarrow> opt_value \<Rightarrow> cfg_store
    \<Rightarrow> (cm_lbs_state_e \<times> cfg_store) option" where
  "spec_set op v st =
     (if op = LBS_ATCMD_METHOD_OP then
        map_option (\<lambda>n. (CM_LBS_OK, st\<lparr>st_platform := Some \<lparr>platform = n\<rparr>\<rparr>)) (val_int v)
      else if platform_of st = CM_LBS_PLAT_ONEOSPOS then
        map_option (\<lambda>r. case r of Inl e \<Rightarrow> (e, st) | Inr a \<Rightarrow> (CM_LBS_OK, st\<lparr>st_oneospos := Some a\<rparr>))
          (oneospos_apply op v (cur_oneospos st))
      else
        map_option (\<lambda>r. case r of Inl e \<Rightarrow> (e, st)
            | Inr a \<Rightarrow> (CM_LBS_OK, if platform_of st \<in> {CM_LBS_PLAT_AMAP10, CM_LBS_PLAT_AMAP20}
                then put_amap (platform_of st) a st else st))
          (amap_apply op v (cur_amap st)))"

text \<open>An environment whose disk is in order and whose allocator succeeds.\<close>

definition env_ok :: "'e lbs_env_scheme \<Rightarrow> bool" where
  "env_ok w \<longleftrightarrow> store_ok (env_fs w) \<and> env_allocs w = []"

definition env_store :: "'e lbs_env_scheme \<Rightarrow> cfg_store" where
  "env_store w = store_of (env_fs w)"

text \<open>The result \<open>r\<close> implements the abstract result \<open>a\<close>: it faults exactly when \<open>a\<close> does, and
  otherwise gives the same status, a disk in order with the abstract contents, and no open stream.\<close>

definition implements :: "('r \<times> cfg_store) option \<Rightarrow> ('r \<times> 'e lbs_env_scheme) option
    \<Rightarrow> 'e lbs_env_scheme \<Rightarrow> bool" where
  "implements a r w =
     (case a of
        None \<Rightarrow> r = None
      | Some (x, st) \<Rightarrow> (\<exists>w'. r = Some (x, w') \<and> env_ok w' \<and> env_store w' = st
          \<and> fs_open (env_fs w') = fs_open (env_fs w)))"

lemma env_malloc_ok [simp]: "env_allocs w = [] \<Longrightarrow> env_malloc w = (True, w)"
  by (simp add: env_malloc_def malloc_ok_def)

lemma on_fs_same: "f (env_fs w) = Some (r, env_fs w) \<Longrightarrow> on_fs f w = Some (r, w)"
  by (simp add: on_fs_def)

lemma on_fs_implements:
  assumes "env_ok w" and "f (env_fs w) = Some (r, s')" and "store_ok s'" and "store_of s' = st"
    and "fs_open s' = fs_open (env_fs w)"
  shows "implements (Some (r, st)) (on_fs f w) w"
  using assms by (auto simp: implements_def on_fs_def env_ok_def env_store_def)

lemma implements_same: "env_ok w \<Longrightarrow> st = env_store w \<Longrightarrow> implements (Some (r, st)) (Some (r, w)) w"
  by (simp add: implements_def)

lemma implements_None: "implements None None w"
  by (simp add: implements_def)

lemma getplatform_env:
  "env_ok w \<Longrightarrow> on_fs cm_lbs_atcmd_getplatform w = Some (platform_of (env_store w), w)"
  by (rule on_fs_same) (simp add: env_ok_def env_store_def getplatform_store)

lemma read_amap_env:
  "env_ok w \<Longrightarrow> on_fs (cm_lbs_atcmd_read_amapcfg pf (Some zero_amap)) w
     = Some (loaded zero_amap (amap_slot pf (env_store w)), w)"
  by (rule on_fs_same) (simp add: env_ok_def env_store_def read_amapcfg_store)

lemma read_oneospos_env:
  "env_ok w \<Longrightarrow> on_fs (cm_lbs_atcmd_Read_oneosposcfg pf (Some zero_oneospos)) w
     = Some (loaded zero_oneospos (st_oneospos (env_store w)), w)"
  by (rule on_fs_same) (simp add: env_ok_def env_store_def read_oneosposcfg_store)

lemma write_platform_env:
  assumes "env_ok w"
  shows "implements (Some (CM_LBS_OK, (env_store w)\<lparr>st_platform := Some c\<rparr>))
    (on_fs (cm_lbs_atcmd_write_atcmdcfg (Some c)) w) w"
  using assms unfolding env_ok_def env_store_def
  by (metis assms on_fs_implements write_atcmdcfg_store)

lemma write_amap_env:
  assumes "env_ok w" and "amap_wf c"
  shows "implements (Some (CM_LBS_OK, put_amap pf c (env_store w)))
    (on_fs (cm_lbs_atcmd_write_amapcfg pf (Some c)) w) w"
  using assms unfolding env_ok_def env_store_def
  by (metis assms(1) on_fs_implements write_amapcfg_store)

lemma write_oneospos_env:
  assumes "env_ok w" and "oneospos_wf c"
  shows "implements (Some (CM_LBS_OK, (env_store w)\<lparr>st_oneospos := Some c\<rparr>))
    (on_fs (cm_lbs_atcmd_write_oneosposcfg pf (Some c)) w) w"
  using assms unfolding env_ok_def env_store_def
  by (metis assms(1) on_fs_implements write_oneosposcfg_store)

lemmas env_rules = getplatform_env read_amap_env read_oneospos_env

text \<open>The structures that are written have the right shape.\<close>

lemma amap_defaults_wf [simp]: "amap_wf (amap_defaults c) = amap_wf c"
  by (simp add: amap_defaults_def amap_wf_def)

lemma oneospos_defaults_wf [simp]: "oneospos_wf (oneospos_defaults c) = oneospos_wf c"
  by (simp add: oneospos_defaults_def oneospos_wf_def)

lemma amap_apply_wf: "amap_apply op v c = Some (Inr a) \<Longrightarrow> amap_wf c \<Longrightarrow> amap_wf a"
  by (auto simp: amap_apply_def amap_wf_def length_arr_fill split: cm_lbs_atcmd_option_e.splits
      bind_splits if_splits)

lemma oneospos_apply_wf: "oneospos_apply op v c = Some (Inr a) \<Longrightarrow> oneospos_wf c \<Longrightarrow> oneospos_wf a"
  by (auto simp: oneospos_apply_def oneospos_wf_def length_arr_fill split: cm_lbs_atcmd_option_e.splits
      bind_splits if_splits)

lemma cur_wf:
  assumes "env_ok w"
  shows "amap_wf (cur_amap (env_store w))" and "oneospos_wf (cur_oneospos (env_store w))"
  using store_wf [of "env_fs w"] assms
  by (auto simp: cur_amap_def cur_oneospos_def env_ok_def env_store_def split: option.split)

section \<open>Setting implements the abstract operation\<close>

lemma amap_setoption_implements:
  assumes "env_ok w" and "op = LBS_ATCMD_METHOD_OP \<or> platform_of (env_store w) \<noteq> CM_LBS_PLAT_ONEOSPOS"
  shows "implements (spec_set op v (env_store w)) (amap_cm_lbs_atcmd_setoption op v w) w"
proof (cases "op = LBS_ATCMD_METHOD_OP")
  case True
  have "env_allocs w = []" using assms(1) by (simp add: env_ok_def)
  then show ?thesis
    using True write_platform_env [OF assms(1)] implements_None
    by (cases "val_int v")
      (simp_all add: amap_cm_lbs_atcmd_setoption_def spec_set_def env_rules [OF assms(1)])
next
  case False
  let ?st = "env_store w" let ?pf = "platform_of (env_store w)"
  have al: "env_allocs w = []" using assms(1) by (simp add: env_ok_def)
  have "amap_cm_lbs_atcmd_setoption op v w = do {
      res \<leftarrow> amap_apply op v (cur_amap ?st);
      (case res of Inl e \<Rightarrow> Some (e, w) | Inr attr \<Rightarrow>
         if ?pf = CM_LBS_PLAT_AMAP10 \<or> ?pf = CM_LBS_PLAT_AMAP20
         then on_fs (cm_lbs_atcmd_write_amapcfg ?pf (Some attr)) w else Some (CM_LBS_OK, w)) }"
    using False al
    by (cases "amap_slot ?pf ?st")
      (simp_all add: amap_cm_lbs_atcmd_setoption_def env_rules [OF assms(1)] cur_amap_def)
  then show ?thesis
    using False assms write_amap_env [OF assms(1) amap_apply_wf [OF _ cur_wf(1) [OF assms(1)]]]
    by (auto simp: spec_set_def implements_None implements_same split: option.split sum.split
        bind_split)
qed

lemma oneospos_setoption_implements:
  assumes "env_ok w" and "op \<noteq> LBS_ATCMD_METHOD_OP"
    and "platform_of (env_store w) = CM_LBS_PLAT_ONEOSPOS"
  shows "implements (spec_set op v (env_store w)) (oneospos_cm_lbs_atcmd_setoption op v w) w"
proof -
  let ?st = "env_store w"
  have al: "env_allocs w = []" using assms(1) by (simp add: env_ok_def)
  have "oneospos_cm_lbs_atcmd_setoption op v w = do {
      res \<leftarrow> oneospos_apply op v (cur_oneospos ?st);
      (case res of Inl e \<Rightarrow> Some (e, w) | Inr attr \<Rightarrow>
         on_fs (cm_lbs_atcmd_write_oneosposcfg CM_LBS_PLAT_ONEOSPOS (Some attr)) w) }"
    using al
    by (cases "st_oneospos ?st")
      (simp_all add: oneospos_cm_lbs_atcmd_setoption_def env_rules [OF assms(1)] cur_oneospos_def)
  then show ?thesis
    using assms write_oneospos_env [OF assms(1) oneospos_apply_wf [OF _ cur_wf(2) [OF assms(1)]]]
    by (auto simp: spec_set_def implements_None implements_same split: option.split sum.split
        bind_split)
qed

lemma setoption_implements:
  assumes "env_ok w"
  shows "implements (spec_set op v (env_store w)) (cm_lbs_atcmd_setoption op v w) w"
  using amap_setoption_implements [OF assms, of op v] oneospos_setoption_implements [OF assms, of op v]
  by (auto simp: cm_lbs_atcmd_setoption_def env_rules [OF assms])

section \<open>The command with a value\<close>

text \<open>What a command makes of its text: a fault, a refusal, or a value to store.\<close>

definition ranged_value :: "int \<Rightarrow> int \<Rightarrow> opt_value option option \<Rightarrow> string \<Rightarrow> opt_value option option" where
  "ranged_value lo hi outside v =
     (if \<exists>c \<in> set v. \<not> is_digit c then None
      else if sint (atoi v) < lo \<or> sint (atoi v) > hi then outside
      else Some (Some (Val_int (atoi v))))"

definition option_value :: "cm_lbs_atcmd_option_e \<Rightarrow> string \<Rightarrow> opt_value option option" where
  "option_value op v =
     (case op of
        LBS_ATCMD_METHOD_OP \<Rightarrow>
          if \<exists>c \<in> set v. \<not> is_digit c then None
          else if atoi v \<in> {CM_LBS_PLAT_AMAP10, CM_LBS_PLAT_AMAP20, CM_LBS_PLAT_ONEOSPOS}
          then Some (Some (Val_int (atoi v))) else Some None
      | LBS_ATCMD_PRECISION \<Rightarrow> ranged_value 1 8 None v
      | LBS_ATCMD_DESCR_MODE \<Rightarrow> ranged_value 0 1 None v
      | LBS_ATCMD_SIGN_ENABLE \<Rightarrow> ranged_value 0 1 None v
      | LBS_ATCMD_NEARBTS_ENABLE \<Rightarrow> ranged_value 0 1 (Some None) v
      | LBS_ATCMD_ONEOS_CHANGE_COORDINATE \<Rightarrow> ranged_value 0 1 None v
      | LBS_ATCMD_APIKEY_OP \<Rightarrow> Some (Some (Val_str v))
      | LBS_ATCMD_SIGN_KEY \<Rightarrow> Some (Some (Val_str v))
      | LBS_ATCMD_PID \<Rightarrow> Some (Some (Val_str v))
      | LBS_LBS_ATCMD_NULL_OP \<Rightarrow> Some None
      | LBS_ATCMD_ONEOS_INTERNAL_PID \<Rightarrow> Some None)"

definition spec_command :: "string \<Rightarrow> string option \<Rightarrow> cfg_store
    \<Rightarrow> (cm_lbs_state_e \<times> cfg_store) option" where
  "spec_command subcmd val st =
     (case val of
        None \<Rightarrow> Some (CM_LBS_PARAMERR, st)
      | Some v \<Rightarrow> (case option_value (cm_lbs_atcmd_subcmd_to_option subcmd) v of
            None \<Rightarrow> None
          | Some None \<Rightarrow> Some (CM_LBS_PARAMERR, st)
          | Some (Some x) \<Rightarrow> spec_set (cm_lbs_atcmd_subcmd_to_option subcmd) x st))"

lemma set_ranged_implements:
  assumes "env_ok w" and "outside = (case out of None \<Rightarrow> None | Some _ \<Rightarrow> Some (CM_LBS_PARAMERR, w))"
    and "out = None \<or> out = Some None"
  shows "implements
    (case ranged_value lo hi out v of None \<Rightarrow> None | Some None \<Rightarrow> Some (CM_LBS_PARAMERR, env_store w)
       | Some (Some x) \<Rightarrow> spec_set op x (env_store w))
    (set_ranged op v lo hi outside w) w"
  using assms setoption_implements [OF assms(1), of op "Val_int (atoi v)"]
  by (auto simp: set_ranged_def ranged_value_def cm_lbs_atcmd_string_is_digital_def bad_log_def
      Let_def implements_None implements_same)

lemma MLBSCFG_set_implements:
  assumes "env_ok w"
  shows "implements (spec_command subcmd val (env_store w)) (cm_lbs_atcmd_MLBSCFG_set subcmd val w) w"
proof (cases val)
  case None
  then show ?thesis
    using assms by (simp add: spec_command_def cm_lbs_atcmd_MLBSCFG_set_def implements_same)
next
  case (Some v)
  note strs = setoption_implements [OF assms, of _ "Val_str v"]
  note ints = setoption_implements [OF assms, of _ "Val_int (atoi v)"]
  note rng = set_ranged_implements [OF assms, of None None] set_ranged_implements [OF assms, of "Some (CM_LBS_PARAMERR, w)" "Some None"]
  show ?thesis
    using Some strs ints assms
    by (cases "cm_lbs_atcmd_subcmd_to_option subcmd")
      (auto simp: spec_command_def cm_lbs_atcmd_MLBSCFG_set_def option_value_def lbs_default_defs
        cm_lbs_atcmd_string_is_digital_def bad_log_def implements_None implements_same Let_def
        intro: rng cong: option.case_cong)
qed

section \<open>The invariant on stored values\<close>

definition amap_valid :: "cm_lbs_atcmd_amap_config_t \<Rightarrow> bool" where
  "amap_valid c \<longleftrightarrow> sint (a_precision c) \<in> {1..8} \<and> sint (a_descr_mode c) \<in> {0..1}
     \<and> sint (signal_enable c) \<in> {0..1} \<and> sint (a_nearbts_enable c) \<in> {0..1}
     \<and> c_str (apikey c) \<noteq> None"

definition oneospos_valid :: "cm_lbs_atcmd_oneospos_config_t \<Rightarrow> bool" where
  "oneospos_valid c \<longleftrightarrow> sint (o_precision c) \<in> {1..8} \<and> sint (o_nearbts_enable c) \<in> {0..1}
     \<and> sint (o_coordinate_enable c) \<in> {0..1}"

definition store_valid :: "cfg_store \<Rightarrow> bool" where
  "store_valid st \<longleftrightarrow> platform_of st \<in> {CM_LBS_PLAT_AMAP10, CM_LBS_PLAT_AMAP20, CM_LBS_PLAT_ONEOSPOS}
     \<and> pred_option amap_valid (st_amap10 st) \<and> pred_option amap_valid (st_amap20 st)
     \<and> pred_option oneospos_valid (st_oneospos st)"

lemma defaults_valid [simp]:
  "amap_valid (amap_defaults zero_amap)" "oneospos_valid (oneospos_defaults zero_oneospos)"
  by (simp_all add: amap_valid_def amap_defaults_def zero_amap_def oneospos_valid_def
      oneospos_defaults_def zero_oneospos_def lbs_default_defs c_str_def)

lemma cur_valid:
  assumes "store_valid st"
  shows "amap_valid (cur_amap st)" and "oneospos_valid (cur_oneospos st)"
  using assms by (auto simp: store_valid_def cur_amap_def cur_oneospos_def amap_slot_def
      split: option.split)

text \<open>Which values the abstract command may hand to the structures.\<close>

definition value_ok :: "cm_lbs_atcmd_option_e \<Rightarrow> opt_value \<Rightarrow> bool" where
  "value_ok op x \<longleftrightarrow> (\<forall>n. x = Val_int n \<longrightarrow>
     (op = LBS_ATCMD_METHOD_OP \<longrightarrow> n \<in> {CM_LBS_PLAT_AMAP10, CM_LBS_PLAT_AMAP20, CM_LBS_PLAT_ONEOSPOS})
     \<and> (op = LBS_ATCMD_PRECISION \<longrightarrow> sint n \<in> {1..8})
     \<and> (op \<in> {LBS_ATCMD_DESCR_MODE, LBS_ATCMD_SIGN_ENABLE, LBS_ATCMD_NEARBTS_ENABLE,
          LBS_ATCMD_ONEOS_CHANGE_COORDINATE} \<longrightarrow> sint n \<in> {0..1}))"

lemma option_value_ok: "option_value op v = Some (Some x) \<Longrightarrow> value_ok op x"
  by (cases op) (auto simp: option_value_def ranged_value_def value_ok_def split: if_splits)

lemma amap_apply_valid:
  assumes "amap_apply op x c = Some (Inr a)" and "amap_valid c" and "value_ok op x"
  shows "amap_valid a"
  using assms
  by (cases op; cases x) (auto simp: amap_apply_def amap_valid_def value_ok_def val_int_def val_str_def
      split: bind_splits if_splits)

lemma oneospos_apply_valid:
  assumes "oneospos_apply op x c = Some (Inr a)" and "oneospos_valid c" and "value_ok op x"
  shows "oneospos_valid a"
  using assms
  by (cases op; cases x) (auto simp: oneospos_apply_def oneospos_valid_def value_ok_def val_int_def
      val_str_def split: bind_splits if_splits)

lemma store_valid_upd:
  "store_valid st \<Longrightarrow> amap_valid a \<Longrightarrow> store_valid (put_amap pf a st)"
  "store_valid st \<Longrightarrow> oneospos_valid b \<Longrightarrow> store_valid (st\<lparr>st_oneospos := Some b\<rparr>)"
  "store_valid st \<Longrightarrow> n \<in> {CM_LBS_PLAT_AMAP10, CM_LBS_PLAT_AMAP20, CM_LBS_PLAT_ONEOSPOS} \<Longrightarrow>
     store_valid (st\<lparr>st_platform := Some \<lparr>platform = n\<rparr>\<rparr>)"
  by (auto simp: store_valid_def put_amap_def platform_of_def)

lemma spec_set_valid:
  assumes "spec_set op x st = Some (r, st')" and "store_valid st" and "value_ok op x"
  shows "store_valid st'"
proof (cases "op = LBS_ATCMD_METHOD_OP")
  case True
  then show ?thesis
    using assms store_valid_upd(3) [OF assms(2)]
    by (cases x) (auto simp: spec_set_def val_int_def value_ok_def)
next
  case False
  note sets = amap_apply_valid [OF _ cur_valid(1) [OF assms(2)] assms(3)]
    oneospos_apply_valid [OF _ cur_valid(2) [OF assms(2)] assms(3)]
    store_valid_upd(1,2) [OF assms(2)]
  show ?thesis
  proof (cases "platform_of st = CM_LBS_PLAT_ONEOSPOS")
    case True
    obtain z where "oneospos_apply op x (cur_oneospos st) = Some z"
      using True False assms(1) by (auto simp: spec_set_def)
    then show ?thesis
      using True False assms(1,2) sets by (cases z) (auto simp: spec_set_def)
  next
    case other: False
    obtain z where "amap_apply op x (cur_amap st) = Some z"
      using other False assms(1) by (auto simp: spec_set_def)
    then show ?thesis
      using other False assms(1,2) sets by (cases z) (auto simp: spec_set_def split: if_splits)
  qed
qed

lemma spec_command_valid:
  assumes "spec_command subcmd val st = Some (r, st')" and "store_valid st"
  shows "store_valid st'"
  using assms spec_set_valid option_value_ok
  by (auto simp: spec_command_def split: option.splits)

text \<open>Keys with their terminating NUL. A signature key or a product id that fills its array has none; the
  texts that are shorter than their arrays are \<open>short_text\<close>.\<close>

definition keys_terminated :: "cfg_store \<Rightarrow> bool" where
  "keys_terminated st \<longleftrightarrow>
     pred_option (\<lambda>c. c_str (signature_key c) \<noteq> None) (st_amap10 st)
     \<and> pred_option (\<lambda>c. c_str (signature_key c) \<noteq> None) (st_amap20 st)
     \<and> pred_option (\<lambda>c. c_str (o_pid c) \<noteq> None) (st_oneospos st)"

definition short_text :: "cm_lbs_atcmd_option_e \<Rightarrow> string \<Rightarrow> bool" where
  "short_text op v \<longleftrightarrow> (op = LBS_ATCMD_SIGN_KEY \<longrightarrow> length v < CM_LBS_AMAP_SIGNATUREKEY_LEN)
     \<and> (op = LBS_ATCMD_PID \<longrightarrow> length v < CM_LBS_ONEOSPOS_PID_LEN)"

lemma arr_fill_terminated:
  assumes "arr_fill n v = Some k" and "length v < n"
  shows "c_str k \<noteq> None"
proof -
  have "NUL \<in> set k"
    using assms by (auto simp: arr_fill_def split: if_splits)
  then show ?thesis
    by (simp add: c_str_def)
qed

lemma cur_terminated:
  assumes "keys_terminated st"
  shows "c_str (signature_key (cur_amap st)) \<noteq> None" and "c_str (o_pid (cur_oneospos st)) \<noteq> None"
proof -
  have "c_str (signature_key (amap_defaults zero_amap)) \<noteq> None" "c_str (o_pid (oneospos_defaults zero_oneospos)) \<noteq> None"
    by (simp_all add: amap_defaults_def zero_amap_def oneospos_defaults_def zero_oneospos_def c_str_def)
  then show "c_str (signature_key (cur_amap st)) \<noteq> None" "c_str (o_pid (cur_oneospos st)) \<noteq> None"
    using assms unfolding keys_terminated_def cur_amap_def cur_oneospos_def amap_slot_def
    by (auto split: option.splits)
qed

lemma amap_apply_terminated:
  assumes "amap_apply op x c = Some (Inr a)" and "c_str (signature_key c) \<noteq> None"
    and "\<And>v. x = Val_str v \<Longrightarrow> short_text op v"
  shows "c_str (signature_key a) \<noteq> None"
  using assms arr_fill_terminated
  by (cases op; cases x) (auto simp: amap_apply_def short_text_def val_int_def val_str_def
      split: bind_splits if_splits)

lemma oneospos_apply_terminated:
  assumes "oneospos_apply op x c = Some (Inr a)" and "c_str (o_pid c) \<noteq> None"
    and "\<And>v. x = Val_str v \<Longrightarrow> short_text op v"
  shows "c_str (o_pid a) \<noteq> None"
  using assms arr_fill_terminated
  by (cases op; cases x) (auto simp: oneospos_apply_def short_text_def val_int_def val_str_def
      split: bind_splits if_splits)

lemma spec_set_terminated:
  assumes "spec_set op x st = Some (r, st')" and "keys_terminated st"
    and "\<And>v. x = Val_str v \<Longrightarrow> short_text op v"
  shows "keys_terminated st'"
proof (cases "op = LBS_ATCMD_METHOD_OP")
  case True
  then show ?thesis using assms(1,2) by (auto simp: spec_set_def keys_terminated_def)
next
  case False
  have sets: "amap_apply op x (cur_amap st) = Some (Inr a) \<Longrightarrow> c_str (signature_key a) \<noteq> None"
    "oneospos_apply op x (cur_oneospos st) = Some (Inr b) \<Longrightarrow> c_str (o_pid b) \<noteq> None" for a b
    using amap_apply_terminated [OF _ cur_terminated(1) [OF assms(2)], of op x a]
      oneospos_apply_terminated [OF _ cur_terminated(2) [OF assms(2)], of op x b] assms(3) by blast+
  have upd: "keys_terminated (put_amap pf a st)" if "c_str (signature_key a) \<noteq> None" for pf a
    using assms(2) that by (auto simp: keys_terminated_def put_amap_def)
  have updo: "keys_terminated (st\<lparr>st_oneospos := Some b\<rparr>)" if "c_str (o_pid b) \<noteq> None" for b
    using assms(2) that by (simp add: keys_terminated_def)
  show ?thesis
  proof (cases "platform_of st = CM_LBS_PLAT_ONEOSPOS")
    case True
    obtain z where "oneospos_apply op x (cur_oneospos st) = Some z"
      using True False assms(1) by (auto simp: spec_set_def)
    then show ?thesis
      using True False assms(1,2) sets updo by (cases z) (auto simp: spec_set_def)
  next
    case other: False
    obtain z where "amap_apply op x (cur_amap st) = Some z"
      using other False assms(1) by (auto simp: spec_set_def)
    then show ?thesis
      using other False assms(1,2) sets upd by (cases z) (auto simp: spec_set_def split: if_splits)
  qed
qed

lemma option_value_text:
  "option_value op v = Some (Some (Val_str u)) \<Longrightarrow> u = v"
  by (cases op) (auto simp: option_value_def ranged_value_def split: if_splits)

lemma spec_command_terminated:
  assumes "spec_command s val st = Some (r, st')" and "keys_terminated st"
    and "\<And>v. val = Some v \<Longrightarrow> short_text (cm_lbs_atcmd_subcmd_to_option s) v"
  shows "keys_terminated st'"
proof (cases val)
  case None
  then show ?thesis using assms(1,2) by (simp add: spec_command_def)
next
  case (Some v)
  consider "st' = st" | x where "option_value (cm_lbs_atcmd_subcmd_to_option s) v = Some (Some x)"
    "spec_set (cm_lbs_atcmd_subcmd_to_option s) x st = Some (r, st')"
    using assms(1) Some by (auto simp: spec_command_def split: option.splits)
  then show ?thesis
  proof cases
    case 2
    show ?thesis
      by (rule spec_set_terminated [OF 2(2) assms(2)])
        (use option_value_text 2(1) assms(3) [OF Some] in blast)
  qed (use assms(2) in simp)
qed

end
