(* ===== verification/LbsConfigGet.thy ===== *)
theory LbsConfigGet
  imports LbsConfigSpec
begin

text \<open>
  Reading options back: which value \<open>AT+MLBSCFG\<close> shows for the contents of the store, that it shows
  it without overrunning a buffer when the store holds valid values, and the list of options.
\<close>

section \<open>Text that fits\<close>

lemma length_dec_small: "0 \<le> i \<Longrightarrow> i < 100 \<Longrightarrow> length (dec_int i) \<le> 2"
  using length_dec_nat [of "nat i" 2] by (simp add: dec_int_def)

lemma cat_number_ok:
  assumes "c_str a = Some s" and "length s + 3 \<le> length a" and "0 \<le> sint n" and "sint n < 100"
  obtains b where "cat_number n a = Some b" and "c_str b = Some (s @ dec_int (sint n))"
    and "length b = length a"
proof -
  have l: "length (dec_int (sint n)) \<le> 2" using assms by (intro length_dec_small) simp_all
  then have "length s + length (dec_int (sint n)) < length a" using assms(2) by simp
  from arr_cat_ok [OF assms(1) dec_int_no_NUL this] obtain b where
    "arr_cat (dec_int (sint n)) a = Some b" "c_str b = Some (s @ dec_int (sint n))" "length b = length a"
    by blast
  then show ?thesis using that l by (simp add: cat_number_def fits_def)
qed

lemma cat_masked_ok:
  assumes "c_str a = Some s" and "length s + 33 \<le> length a" and "c_str secret = Some v"
    and "16 \<le> length secret" and "\<And>x. length (md5 x) = 16"
  obtains b where "cat_masked md5 secret a = Some b" and "c_str b = Some (s @ masked md5 v)"
    and "length b = length a"
proof -
  from atcmd_md5_ok [where ?md5.0 = md5, OF assms(3-5)] obtain i h where
    h: "cm_lbs_atcmd_md5 md5 secret (replicate 64 NUL) = Some (i, h)" "c_str h = Some (masked md5 v)"
    by blast
  have "length s + length (masked md5 v) < length a"
    using assms(2,5) by (simp add: length_masked)
  from arr_cat_ok [OF assms(1) masked_no_NUL this] h that show ?thesis
    by (auto simp: cat_masked_def)
qed

section \<open>What is shown\<close>

definition shown_number :: "cm_lbs_atcmd_option_e \<Rightarrow> cfg_store \<Rightarrow> u32 option" where
  "shown_number op st =
     (if op = LBS_ATCMD_METHOD_OP then Some (platform_of st)
      else if platform_of st = CM_LBS_PLAT_ONEOSPOS then
        (case op of
           LBS_ATCMD_PRECISION \<Rightarrow> Some (o_precision (cur_oneospos st))
         | LBS_ATCMD_NEARBTS_ENABLE \<Rightarrow> Some (o_nearbts_enable (cur_oneospos st))
         | LBS_ATCMD_ONEOS_CHANGE_COORDINATE \<Rightarrow> Some (o_coordinate_enable (cur_oneospos st))
         | _ \<Rightarrow> None)
      else
        (case op of
           LBS_ATCMD_PRECISION \<Rightarrow> Some (a_precision (cur_amap st))
         | LBS_ATCMD_DESCR_MODE \<Rightarrow> Some (a_descr_mode (cur_amap st))
         | LBS_ATCMD_SIGN_ENABLE \<Rightarrow> Some (signal_enable (cur_amap st))
         | LBS_ATCMD_NEARBTS_ENABLE \<Rightarrow> Some (a_nearbts_enable (cur_amap st))
         | _ \<Rightarrow> None))"

text \<open>The secrets; the product id of a store without an entry is the built-in one.\<close>

definition cur_pid :: "cfg_store \<Rightarrow> bytes" where
  "cur_pid st = (case st_oneospos st of
       None \<Rightarrow> CM_LBS_ONEOSPOS_INTERNAL_PID @ replicate 54 NUL
     | Some c \<Rightarrow> o_pid c)"

definition shown_secret :: "cm_lbs_atcmd_option_e \<Rightarrow> cfg_store \<Rightarrow> bytes option" where
  "shown_secret op st =
     (if platform_of st = CM_LBS_PLAT_ONEOSPOS then
        (case op of
           LBS_ATCMD_PID \<Rightarrow> Some (cur_pid st)
         | LBS_ATCMD_ONEOS_INTERNAL_PID \<Rightarrow> Some (CM_LBS_ONEOSPOS_INTERNAL_PID @ replicate 54 NUL)
         | _ \<Rightarrow> None)
      else
        (case op of
           LBS_ATCMD_APIKEY_OP \<Rightarrow> Some (apikey (cur_amap st))
         | LBS_ATCMD_SIGN_KEY \<Rightarrow> Some (signature_key (cur_amap st))
         | _ \<Rightarrow> None))"

lemma find_option_length:
  "find_option s tab \<noteq> LBS_LBS_ATCMD_NULL_OP \<Longrightarrow> \<exists>op. (op, s) \<in> set tab"
  by (induction s tab rule: find_option.induct) (auto split: if_splits)

lemma option_name:
  assumes "cm_lbs_atcmd_subcmd_to_option s \<noteq> LBS_LBS_ATCMD_NULL_OP"
  shows "length s \<le> 16" and "NUL \<notin> set s"
  using find_option_length [OF assms [unfolded cm_lbs_atcmd_subcmd_to_option_def]]
  by (auto simp: option_info_def)

lemma cfg_prefix_ok:
  assumes "cm_lbs_atcmd_subcmd_to_option s \<noteq> LBS_LBS_ATCMD_NULL_OP" and "64 \<le> length a"
  obtains b where "arr_puts (cfg_prefix s) a = Some b" and "c_str b = Some (cfg_prefix s)"
    and "length b = length a" and "length (cfg_prefix s) \<le> 30"
proof -
  have l: "length (cfg_prefix s) \<le> 30" and n: "NUL \<notin> set (cfg_prefix s)"
    using option_name [OF assms(1)] by (simp_all add: cfg_prefix_def quoted_def)
  then have "length (cfg_prefix s) < length a" using assms(2) by simp
  from arr_puts_ok [OF n this] l that show ?thesis by blast
qed

text \<open>The reading functions on an environment in order.\<close>

lemma amap_config_get_env:
  assumes "env_ok w" and "cm_lbs_atcmd_subcmd_to_option s \<noteq> LBS_LBS_ATCMD_NULL_OP"
  shows "cm_lbs_atcmd_amap_config_get md5 s a w = do {
     out \<leftarrow> arr_puts (cfg_prefix s) a;
     r \<leftarrow> amap_show md5 (cm_lbs_atcmd_subcmd_to_option s) (platform_of (env_store w))
       (cur_amap (env_store w)) out;
     Some (r, w) }"
proof -
  have "env_allocs w = []" using assms(1) by (simp add: env_ok_def)
  then show ?thesis
    using assms
    by (cases "amap_slot (platform_of (env_store w)) (env_store w)")
      (simp_all add: cm_lbs_atcmd_amap_config_get_def env_rules [OF assms(1)] cur_amap_def)
qed

definition cur_oneospos_get :: "cfg_store \<Rightarrow> cm_lbs_atcmd_oneospos_config_t" where
  "cur_oneospos_get st = (cur_oneospos st)\<lparr>o_pid := cur_pid st\<rparr>"

lemma oneospos_config_get_env:
  assumes "env_ok w" and "cm_lbs_atcmd_subcmd_to_option s \<noteq> LBS_LBS_ATCMD_NULL_OP"
  shows "cm_lbs_atcmd_oneospos_config_get md5 s a w = do {
     out \<leftarrow> arr_puts (cfg_prefix s) a;
     r \<leftarrow> oneospos_show md5 (cm_lbs_atcmd_subcmd_to_option s) (cur_oneospos_get (env_store w)) out;
     Some (r, w) }"
proof -
  have "env_allocs w = []" using assms(1) by (simp add: env_ok_def)
  moreover have "oneospos_get_defaults zero_oneospos
      = Some ((oneospos_defaults zero_oneospos)\<lparr>o_pid := CM_LBS_ONEOSPOS_INTERNAL_PID @ replicate 54 NUL\<rparr>)"
    by (simp add: oneospos_get_defaults_def arr_copy_def zero_oneospos_def oneospos_defaults_def
        CM_LBS_ONEOSPOS_INTERNAL_PID_def)
  ultimately show ?thesis
    using assms
    by (cases "st_oneospos (env_store w)")
      (simp_all add: cm_lbs_atcmd_oneospos_config_get_def env_rules [OF assms(1)]
        cur_oneospos_get_def cur_oneospos_def cur_pid_def)
qed

lemma shown_number_range:
  assumes "store_valid st" and "shown_number op st = Some n"
  shows "0 \<le> sint n" and "sint n < 100"
  using assms cur_valid [OF assms(1)]
  by (cases op; force simp: shown_number_def amap_valid_def oneospos_valid_def store_valid_def
      platform_defs split: if_splits)+

lemma MLBSCFG_get_number:
  assumes "env_ok w" and "store_valid (env_store w)" and "64 \<le> length a"
    and "shown_number (cm_lbs_atcmd_subcmd_to_option s) (env_store w) = Some n"
  shows "\<exists>b. cm_lbs_atcmd_MLBSCFG_get md5 s (Some a) w = Some ((CM_LBS_OK, Some b), w)
    \<and> c_str b = Some (cfg_prefix s @ dec_int (sint n))"
proof -
  let ?op = "cm_lbs_atcmd_subcmd_to_option s"
  have nn: "?op \<noteq> LBS_LBS_ATCMD_NULL_OP"
    using assms(4) by (auto simp: shown_number_def split: if_splits)
  from cfg_prefix_ok [OF nn assms(3)] obtain out where
    out: "arr_puts (cfg_prefix s) a = Some out" "c_str out = Some (cfg_prefix s)"
      "length out = length a" "length (cfg_prefix s) \<le> 30" by blast
  have "length (cfg_prefix s) + 3 \<le> length out" using out assms(3) by simp
  from cat_number_ok [OF out(2) this shown_number_range [OF assms(2,4)]] obtain b where
    b: "cat_number n out = Some b" "c_str b = Some (cfg_prefix s @ dec_int (sint n))" by blast
  have "cm_lbs_atcmd_MLBSCFG_get md5 s (Some a) w = Some ((CM_LBS_OK, Some b), w)"
    using assms(4) out(1) b(1) amap_config_get_env [OF assms(1) nn, of md5 a]
      oneospos_config_get_env [OF assms(1) nn, of md5 a]
    by (cases ?op) (auto simp: cm_lbs_atcmd_MLBSCFG_get_def env_rules [OF assms(1)] shown_number_def
        amap_show_def oneospos_show_def with_ok_def cur_oneospos_get_def split: if_splits)
  then show ?thesis using b(2) by blast
qed

lemma MLBSCFG_get_secret:
  assumes "env_ok w" and "80 \<le> length a" and "\<And>x. length (md5 x) = 16"
    and "shown_secret (cm_lbs_atcmd_subcmd_to_option s) (env_store w) = Some k" and "c_str k = Some v"
  shows "\<exists>b. cm_lbs_atcmd_MLBSCFG_get md5 s (Some a) w = Some ((CM_LBS_OK, Some b), w)
    \<and> c_str b = Some (cfg_prefix s @ masked md5 v)"
proof -
  let ?op = "cm_lbs_atcmd_subcmd_to_option s"
  have nn: "?op \<noteq> LBS_LBS_ATCMD_NULL_OP"
    using assms(4) by (auto simp: shown_secret_def split: if_splits)
  have "64 \<le> length a" using assms(2) by simp
  from cfg_prefix_ok [OF nn this] obtain out where
    out: "arr_puts (cfg_prefix s) a = Some out" "c_str out = Some (cfg_prefix s)"
      "length out = length a" "length (cfg_prefix s) \<le> 30" by blast
  have sz: "length (cfg_prefix s) + 33 \<le> length out" using out assms(2) by simp
  have lk: "16 \<le> length k"
    using assms(4) cur_wf [OF assms(1)] store_wf(2) [of "env_fs w"] assms(1)
    by (auto simp: shown_secret_def amap_wf_def cfg_len_defs cur_pid_def oneospos_wf_def env_ok_def
        env_store_def split: if_splits cm_lbs_atcmd_option_e.splits option.splits)
  from cat_masked_ok [where ?md5.0 = md5, OF out(2) sz assms(5) lk assms(3)] obtain b where
    b: "cat_masked md5 k out = Some b" "c_str b = Some (cfg_prefix s @ masked md5 v)" by blast
  have ip: "arr_copy CM_LBS_ONEOSPOS_INTERNAL_PID (replicate 64 NUL)
      = Some (CM_LBS_ONEOSPOS_INTERNAL_PID @ replicate 54 NUL)"
    by (simp add: arr_copy_def CM_LBS_ONEOSPOS_INTERNAL_PID_def)
  have "cm_lbs_atcmd_MLBSCFG_get md5 s (Some a) w = Some ((CM_LBS_OK, Some b), w)"
    using assms(4) out(1) b(1) amap_config_get_env [OF assms(1) nn, of md5 a]
      oneospos_config_get_env [OF assms(1) nn, of md5 a] ip
    by (cases ?op) (auto simp: cm_lbs_atcmd_MLBSCFG_get_def env_rules [OF assms(1)] shown_secret_def
        amap_show_def oneospos_show_def with_ok_def cur_oneospos_get_def split: if_splits)
  then show ?thesis using b(2) by blast
qed

end
