(* ===== verification/LbsFact.thy ===== *)
theory LbsFact
  imports LbsConfig
begin

text \<open>
  The factory settings (\<open>AT+MLBSFACTORY\<close>) and the use of the NV area, from
  \<^verbatim>\<open>cm_lbs/cm_lbs/src/cm_lbs_api.c\<close>, \<^verbatim>\<open>cm_lbs.c\<close> and \<^verbatim>\<open>cm_lbs_platform/cm_lbs_platform.c\<close>. On this
  platform the NV driver is compiled out and both of its functions fail; the code behind a successful
  read is modelled all the same.
\<close>

section \<open>Error codes and the NV structure\<close>

text \<open>\<open>cm_lbs_atcmd_errcode_e\<close>; one function returns a number of another enumeration instead.\<close>

datatype cm_lbs_atcmd_errcode_e =
    LBS_ATCMD_SUCCESS | LBS_ATCMD_NETERR | LBS_ATCMD_APIKEYNULL | LBS_ATCMD_UNKNOWERR
  | LBS_ATCMD_PARAERR | LBS_ATCMD_BUSY | LBS_ATCMD_FOREIGN cm_lbs_state_e

record cm_lbs_nvconfig_t =
  oneospospid :: bytes
  amapv1key :: bytes
  amapv1signa :: bytes
  amapv2key :: bytes
  amapv2signa :: bytes
  amapv1signa_enable :: u32
  amapv2signa_enable :: u32

definition CM_LBS_NVCONFIG_ONEOSPOS_PIDLEN :: nat where "CM_LBS_NVCONFIG_ONEOSPOS_PIDLEN = 64"

definition CM_LBS_NVCONFIG_AMAP_KEYLEN :: nat where "CM_LBS_NVCONFIG_AMAP_KEYLEN = 128"

definition CM_LBS_NVCONFIG_AMAP_SIGNALEN :: nat where "CM_LBS_NVCONFIG_AMAP_SIGNALEN = 128"

lemmas nv_len_defs = CM_LBS_NVCONFIG_ONEOSPOS_PIDLEN_def CM_LBS_NVCONFIG_AMAP_KEYLEN_def
  CM_LBS_NVCONFIG_AMAP_SIGNALEN_def

definition zero_nvconfig :: cm_lbs_nvconfig_t where
  "zero_nvconfig = \<lparr>oneospospid = replicate 64 NUL, amapv1key = replicate 128 NUL,
     amapv1signa = replicate 128 NUL, amapv2key = replicate 128 NUL,
     amapv2signa = replicate 128 NUL, amapv1signa_enable = 0, amapv2signa_enable = 0\<rparr>"

text \<open>The driver of the platform: neither function touches the structure.\<close>

definition cm_lbs_writenv_config :: "cm_lbs_nvconfig_t \<Rightarrow> cm_lbs_state_e" where
  "cm_lbs_writenv_config cfg = CM_LBS_ERR"

definition cm_lbs_readnv_config :: "cm_lbs_nvconfig_t \<Rightarrow> cm_lbs_state_e \<times> cm_lbs_nvconfig_t" where
  "cm_lbs_readnv_config cfg = (CM_LBS_ERR, cfg)"

definition cm_lbs_write_nv_data :: "cm_lbs_nvconfig_t option \<Rightarrow> cm_lbs_state_e" where
  "cm_lbs_write_nv_data nvcfg =
     (case nvcfg of None \<Rightarrow> CM_LBS_PARAMERR | Some c \<Rightarrow> cm_lbs_writenv_config c)"

definition cm_lbs_read_nv_data :: "cm_lbs_nvconfig_t option
    \<Rightarrow> cm_lbs_state_e \<times> cm_lbs_nvconfig_t option" where
  "cm_lbs_read_nv_data nvcfg =
     (case nvcfg of
        None \<Rightarrow> (CM_LBS_PARAMERR, None)
      | Some c \<Rightarrow> (case cm_lbs_readnv_config c of (r, c') \<Rightarrow> (r, Some c')))"

section \<open>Keys from the NV area\<close>

text \<open>The part of \<open>__cm_lbs_atcmd_amap_setnv_config\<close> for one of the two platforms, on the key, the
  signature key and its switch. A refused signature key leaves the API key copied.\<close>

definition amap_from_nv :: "bytes \<Rightarrow> bytes \<Rightarrow> u32 \<Rightarrow> cm_lbs_atcmd_amap_config_t
    \<Rightarrow> (cm_lbs_state_e \<times> cm_lbs_atcmd_amap_config_t) option" where
  "amap_from_nv key signa signa_en cfg = do {
     k \<leftarrow> c_str key;
     (if length k < 1 \<or> k = ''0'' then Some (CM_LBS_ERR, cfg)
      else do {
        ak \<leftarrow> arr_copy k (apikey cfg);
        let cfg1 = cfg\<lparr>apikey := ak, signal_enable := signa_en\<rparr>;
        sg \<leftarrow> c_str signa;
        (if signa_en = 1 \<and> (sg = ''0'' \<or> length sg < 1) then Some (CM_LBS_ERR, cfg1)
         else do {
           sk \<leftarrow> arr_copy sg (signature_key cfg1);
           Some (CM_LBS_OK, cfg1\<lparr>signature_key := sk\<rparr>) }) }) }"

definition cm_lbs_atcmd_amap_setnv_config :: "platform_e \<Rightarrow> cm_lbs_atcmd_amap_config_t
    \<Rightarrow> 'e lbs_env_scheme
    \<Rightarrow> ((cm_lbs_state_e \<times> cm_lbs_atcmd_amap_config_t) \<times> 'e lbs_env_scheme) option" where
  "cm_lbs_atcmd_amap_setnv_config pf amap_cfg w =
     (case env_malloc w of (ok, w1) \<Rightarrow>
        if \<not> ok then Some ((CM_LBS_MEMROYERR, amap_cfg), w1)
        else (case cm_lbs_read_nv_data (Some zero_nvconfig) of
            (r, None) \<Rightarrow> None
          | (r, Some nv) \<Rightarrow>
              if r \<noteq> CM_LBS_OK then Some ((CM_LBS_ERR, amap_cfg), w1)
              else if pf = CM_LBS_PLAT_AMAP10 then do {
                res \<leftarrow> amap_from_nv (amapv1key nv) (amapv1signa nv) (amapv1signa_enable nv) amap_cfg;
                Some (res, w1) }
              else if pf = CM_LBS_PLAT_AMAP20 then do {
                res \<leftarrow> amap_from_nv (amapv2key nv) (amapv2signa nv) (amapv2signa_enable nv) amap_cfg;
                Some (res, w1) }
              else Some ((CM_LBS_ERR, amap_cfg), w1)))"

definition oneospos_from_nv :: "bytes \<Rightarrow> cm_lbs_atcmd_oneospos_config_t
    \<Rightarrow> (cm_lbs_state_e \<times> cm_lbs_atcmd_oneospos_config_t) option" where
  "oneospos_from_nv nvpid cfg = do {
     p \<leftarrow> c_str nvpid;
     (if p = ''0'' \<or> length p < 1 then Some (CM_LBS_ERR, cfg)
      else do {
        q \<leftarrow> arr_copy p (o_pid cfg);
        Some (CM_LBS_OK, cfg\<lparr>o_pid := q\<rparr>) }) }"

definition cm_lbs_atcmd_oneospos_setnv_config :: "cm_lbs_atcmd_oneospos_config_t
    \<Rightarrow> 'e lbs_env_scheme
    \<Rightarrow> ((cm_lbs_state_e \<times> cm_lbs_atcmd_oneospos_config_t) \<times> 'e lbs_env_scheme) option" where
  "cm_lbs_atcmd_oneospos_setnv_config attr w =
     (case env_malloc w of (ok, w1) \<Rightarrow>
        if \<not> ok then Some ((CM_LBS_MEMROYERR, attr), w1)
        else (case cm_lbs_read_nv_data (Some zero_nvconfig) of
            (r, None) \<Rightarrow> None
          | (r, Some nv) \<Rightarrow>
              if r \<noteq> CM_LBS_OK then Some ((CM_LBS_ERR, attr), w1)
              else do { res \<leftarrow> oneospos_from_nv (oneospospid nv) attr; Some (res, w1) }))"

section \<open>The factory command\<close>

datatype cm_lbs_atcmd_nvcfg_type_t =
    LBS_ATCMD_NVCFG_ONEOSPOSPID | LBS_ATCMD_NVCFG_AMAPV1KEY | LBS_ATCMD_NVCFG_AMAPV1SIGNA
  | LBS_ATCMD_NVCFG_AMAPV2KEY | LBS_ATCMD_NVCFG_AMAPV2SIGNA | LBS_ATCMD_NVCFG_AMAPV1SIGNA_EN
  | LBS_ATCMD_NVCFG_AMAPV2SIGNA_EN | LBS_ATCMD_NVCFG_CLEARNALL | LBS_ATCMD_NVCFG_NULL

definition nvcfg_option_info :: "(cm_lbs_atcmd_nvcfg_type_t \<times> string) list" where
  "nvcfg_option_info =
    [(LBS_ATCMD_NVCFG_ONEOSPOSPID, ''oneospospid''),
     (LBS_ATCMD_NVCFG_AMAPV1KEY, ''amapv1key''),
     (LBS_ATCMD_NVCFG_AMAPV1SIGNA, ''amapv1signa''),
     (LBS_ATCMD_NVCFG_AMAPV2KEY, ''amapv2key''),
     (LBS_ATCMD_NVCFG_AMAPV2SIGNA, ''amapv2signa''),
     (LBS_ATCMD_NVCFG_AMAPV1SIGNA_EN, ''amapv1sinaen''),
     (LBS_ATCMD_NVCFG_AMAPV2SIGNA_EN, ''amapv2sinaen''),
     (LBS_ATCMD_NVCFG_CLEARNALL, ''clearnall'')]"

fun find_type :: "string \<Rightarrow> (cm_lbs_atcmd_nvcfg_type_t \<times> string) list \<Rightarrow> cm_lbs_atcmd_nvcfg_type_t" where
  "find_type subcmd [] = LBS_ATCMD_NVCFG_NULL"
| "find_type subcmd ((ty, nm) # r) = (if nm = subcmd then ty else find_type subcmd r)"

definition cm_lbs_atcmd_mlbsfact_typefind :: "string \<Rightarrow> cm_lbs_atcmd_nvcfg_type_t" where
  "cm_lbs_atcmd_mlbsfact_typefind subcmd = find_type subcmd nvcfg_option_info"

fun find_name :: "cm_lbs_atcmd_nvcfg_type_t \<Rightarrow> (cm_lbs_atcmd_nvcfg_type_t \<times> string) list
    \<Rightarrow> string option" where
  "find_name ty [] = None"
| "find_name ty ((t, nm) # r) = (if ty = t then Some nm else find_name ty r)"

definition cm_lbs_atcmd_mlbsfact_stringfind :: "cm_lbs_atcmd_nvcfg_type_t \<Rightarrow> bytes
    \<Rightarrow> (cm_lbs_state_e \<times> bytes) option" where
  "cm_lbs_atcmd_mlbsfact_stringfind ty str =
     (case find_name ty nvcfg_option_info of
        None \<Rightarrow> Some (CM_LBS_ERR, str)
      | Some nm \<Rightarrow> do { s \<leftarrow> arr_copy nm str; Some (CM_LBS_OK, s) })"

text \<open>\<open>memset\<close> and \<open>strncpy\<close> of a parameter into an array of \<open>n\<close> bytes, or the refusal.\<close>

definition fact_text :: "nat \<Rightarrow> string \<Rightarrow> (bytes \<Rightarrow> cm_lbs_nvconfig_t)
    \<Rightarrow> (cm_lbs_atcmd_errcode_e + cm_lbs_nvconfig_t) option" where
  "fact_text n param upd =
     (if length param > n then Some (Inl LBS_ATCMD_PARAERR)
      else do { a \<leftarrow> arr_fill n param; Some (Inr (upd a)) })"

definition fact_switch :: "string \<Rightarrow> (u32 \<Rightarrow> cm_lbs_nvconfig_t)
    \<Rightarrow> (cm_lbs_atcmd_errcode_e + cm_lbs_nvconfig_t) option" where
  "fact_switch param upd =
     (let en = atoi param in
      if 1 = en \<or> 0 = en then Some (Inr (upd en)) else Some (Inl LBS_ATCMD_PARAERR))"

text \<open>The \<open>switch\<close> of \<open>cm_lbs_atcmd_mlbsfact_write\<close>.\<close>

definition fact_store :: "cm_lbs_atcmd_nvcfg_type_t \<Rightarrow> string \<Rightarrow> cm_lbs_nvconfig_t
    \<Rightarrow> (cm_lbs_atcmd_errcode_e + cm_lbs_nvconfig_t) option" where
  "fact_store ty param nv =
     (case ty of
        LBS_ATCMD_NVCFG_ONEOSPOSPID \<Rightarrow>
          fact_text CM_LBS_NVCONFIG_ONEOSPOS_PIDLEN param (\<lambda>a. nv\<lparr>oneospospid := a\<rparr>)
      | LBS_ATCMD_NVCFG_AMAPV1KEY \<Rightarrow>
          fact_text CM_LBS_NVCONFIG_AMAP_KEYLEN param (\<lambda>a. nv\<lparr>amapv1key := a\<rparr>)
      | LBS_ATCMD_NVCFG_AMAPV1SIGNA \<Rightarrow>
          fact_text CM_LBS_NVCONFIG_AMAP_SIGNALEN param (\<lambda>a. nv\<lparr>amapv1signa := a\<rparr>)
      | LBS_ATCMD_NVCFG_AMAPV2KEY \<Rightarrow>
          fact_text CM_LBS_NVCONFIG_AMAP_KEYLEN param (\<lambda>a. nv\<lparr>amapv2key := a\<rparr>)
      | LBS_ATCMD_NVCFG_AMAPV2SIGNA \<Rightarrow>
          fact_text CM_LBS_NVCONFIG_AMAP_SIGNALEN param (\<lambda>a. nv\<lparr>amapv2signa := a\<rparr>)
      | LBS_ATCMD_NVCFG_AMAPV1SIGNA_EN \<Rightarrow> fact_switch param (\<lambda>n. nv\<lparr>amapv1signa_enable := n\<rparr>)
      | LBS_ATCMD_NVCFG_AMAPV2SIGNA_EN \<Rightarrow> fact_switch param (\<lambda>n. nv\<lparr>amapv2signa_enable := n\<rparr>)
      | _ \<Rightarrow> Some (Inl LBS_ATCMD_PARAERR))"

definition cm_lbs_atcmd_mlbsfact_write :: "cm_lbs_atcmd_nvcfg_type_t \<Rightarrow> string
    \<Rightarrow> 'e lbs_env_scheme \<Rightarrow> (cm_lbs_atcmd_errcode_e \<times> 'e lbs_env_scheme) option" where
  "cm_lbs_atcmd_mlbsfact_write ty param w =
     (case env_malloc w of (ok, w1) \<Rightarrow>
        if \<not> ok then Some (LBS_ATCMD_UNKNOWERR, w1)
        else do {
          nv \<leftarrow> snd (cm_lbs_read_nv_data (Some zero_nvconfig));
          res \<leftarrow> fact_store ty param nv;
          (case res of
             Inl e \<Rightarrow> Some (e, w1)
           | Inr nv' \<Rightarrow>
               Some (if cm_lbs_write_nv_data (Some nv') \<noteq> CM_LBS_OK then LBS_ATCMD_UNKNOWERR
                     else LBS_ATCMD_SUCCESS, w1)) })"

text \<open>The value \<open>cm_lbs_atcmd_mlbsfact_read\<close> shows: \<open>strcat\<close> of the field into an array of 128.\<close>

definition fact_field :: "cm_lbs_atcmd_nvcfg_type_t \<Rightarrow> cm_lbs_nvconfig_t \<Rightarrow> bytes option" where
  "fact_field ty nv =
     (let param = replicate 128 NUL;
          text = (\<lambda>f. do { v \<leftarrow> c_str f; arr_cat v param });
          number = (\<lambda>n. do { v \<leftarrow> fits 2 (dec_int (sint n)); arr_cat v param })
      in case ty of
        LBS_ATCMD_NVCFG_ONEOSPOSPID \<Rightarrow> text (oneospospid nv)
      | LBS_ATCMD_NVCFG_AMAPV1KEY \<Rightarrow> text (amapv1key nv)
      | LBS_ATCMD_NVCFG_AMAPV1SIGNA \<Rightarrow> text (amapv1signa nv)
      | LBS_ATCMD_NVCFG_AMAPV2KEY \<Rightarrow> text (amapv2key nv)
      | LBS_ATCMD_NVCFG_AMAPV2SIGNA \<Rightarrow> text (amapv2signa nv)
      | LBS_ATCMD_NVCFG_AMAPV1SIGNA_EN \<Rightarrow> number (amapv1signa_enable nv)
      | LBS_ATCMD_NVCFG_AMAPV2SIGNA_EN \<Rightarrow> number (amapv2signa_enable nv)
      | _ \<Rightarrow> Some param)"

text \<open>The rest of \<open>cm_lbs_atcmd_mlbsfact_read\<close> once the NV area was read.\<close>

definition fact_show :: "(bytes \<Rightarrow> bytes) \<Rightarrow> cm_lbs_atcmd_nvcfg_type_t \<Rightarrow> cm_lbs_nvconfig_t
    \<Rightarrow> bytes \<Rightarrow> (cm_lbs_atcmd_errcode_e \<times> bytes) option" where
  "fact_show md5 ty nv at_rsp = do {
     (r, sub_arr) \<leftarrow> cm_lbs_atcmd_mlbsfact_stringfind ty (replicate 64 NUL);
     (if r \<noteq> CM_LBS_OK then Some (LBS_ATCMD_UNKNOWERR, at_rsp)
      else do {
        sub_cmd \<leftarrow> c_str sub_arr;
        b1 \<leftarrow> arr_cat [CHR 0x22] at_rsp;
        b2 \<leftarrow> arr_cat sub_cmd b1;
        b3 \<leftarrow> arr_cat [CHR 0x22] b2;
        b4 \<leftarrow> arr_cat '','' b3;
        param \<leftarrow> fact_field ty nv;
        v \<leftarrow> c_str param;
        (if ty \<noteq> LBS_ATCMD_NVCFG_AMAPV1SIGNA_EN \<and> ty \<noteq> LBS_ATCMD_NVCFG_AMAPV2SIGNA_EN
         then if length v = 1 \<and> v = ''0''
           then do { b \<leftarrow> arr_cat ''none'' b4; Some (LBS_ATCMD_SUCCESS, b) }
           else do {
             (i, h) \<leftarrow> cm_lbs_md5 md5 param (replicate 64 NUL);
             m \<leftarrow> c_str h;
             b \<leftarrow> arr_cat m b4;
             Some (LBS_ATCMD_SUCCESS, b) }
         else do { b \<leftarrow> arr_cat v b4; Some (LBS_ATCMD_SUCCESS, b) }) }) }"

text \<open>A failed allocation reaches the driver as a null pointer, which it refuses.\<close>

definition cm_lbs_atcmd_mlbsfact_read :: "(bytes \<Rightarrow> bytes) \<Rightarrow> cm_lbs_atcmd_nvcfg_type_t
    \<Rightarrow> bytes option \<Rightarrow> 'e lbs_env_scheme
    \<Rightarrow> ((cm_lbs_atcmd_errcode_e \<times> bytes option) \<times> 'e lbs_env_scheme) option" where
  "cm_lbs_atcmd_mlbsfact_read md5 ty at_rsp w =
     (case at_rsp of
        None \<Rightarrow> Some ((LBS_ATCMD_UNKNOWERR, None), w)
      | Some buf \<Rightarrow>
          (case env_malloc w of (ok, w1) \<Rightarrow>
             (case cm_lbs_read_nv_data (if ok then Some zero_nvconfig else None) of (r, cfg) \<Rightarrow>
                if r \<noteq> CM_LBS_OK then Some ((LBS_ATCMD_UNKNOWERR, Some buf), w1)
                else do {
                  nv \<leftarrow> cfg;
                  (e, b) \<leftarrow> fact_show md5 ty nv buf;
                  Some ((e, Some b), w1) })))"

definition cm_lbs_atcmd_mlbsfact_clearn :: "cm_lbs_atcmd_nvcfg_type_t \<Rightarrow> cm_lbs_atcmd_errcode_e" where
  "cm_lbs_atcmd_mlbsfact_clearn ty = LBS_ATCMD_UNKNOWERR"

definition cm_lbs_atcmd_mlbsfact :: "(bytes \<Rightarrow> bytes) \<Rightarrow> string \<Rightarrow> string option \<Rightarrow> bytes option
    \<Rightarrow> 'e lbs_env_scheme
    \<Rightarrow> ((cm_lbs_atcmd_errcode_e \<times> bytes option) \<times> 'e lbs_env_scheme) option" where
  "cm_lbs_atcmd_mlbsfact md5 subcmd arg at_rsp w =
     (let nvcfg_type = cm_lbs_atcmd_mlbsfact_typefind subcmd in
      if nvcfg_type = LBS_ATCMD_NVCFG_NULL then Some ((LBS_ATCMD_PARAERR, at_rsp), w)
      else if nvcfg_type = LBS_ATCMD_NVCFG_CLEARNALL
      then Some ((cm_lbs_atcmd_mlbsfact_clearn nvcfg_type, at_rsp), w)
      else if arg = None \<or> arg = Some [] then cm_lbs_atcmd_mlbsfact_read md5 nvcfg_type at_rsp w
      else do {
        param \<leftarrow> arg;
        (e, w1) \<leftarrow> cm_lbs_atcmd_mlbsfact_write nvcfg_type param w;
        Some ((e, at_rsp), w1) })"

section \<open>What holds of the command\<close>

lemma read_nv_fails [simp]:
  "cm_lbs_read_nv_data (Some c) = (CM_LBS_ERR, Some c)" "cm_lbs_read_nv_data None = (CM_LBS_PARAMERR, None)"
  "cm_lbs_write_nv_data x \<noteq> CM_LBS_OK"
  by (simp_all add: cm_lbs_read_nv_data_def cm_lbs_readnv_config_def cm_lbs_write_nv_data_def
      cm_lbs_writenv_config_def split: option.split)

text \<open>The two tables are inverse to each other.\<close>

lemma typefind_stringfind:
  assumes "cm_lbs_atcmd_mlbsfact_typefind s = ty" and "ty \<noteq> LBS_ATCMD_NVCFG_NULL"
  shows "find_name ty nvcfg_option_info = Some s"
  using assms
  by (auto simp: cm_lbs_atcmd_mlbsfact_typefind_def nvcfg_option_info_def split: if_splits)

lemma fact_text_never_faults: "fact_text n param upd \<noteq> None"
  by (simp add: fact_text_def arr_fill_def)

lemma fact_store_total: "\<exists>r. fact_store ty param nv = Some r"
  by (cases ty) (simp_all add: fact_store_def fact_text_def fact_switch_def arr_fill_def Let_def)

lemma mlbsfact_never_succeeds:
  assumes "cm_lbs_atcmd_mlbsfact md5 subcmd arg at_rsp w = Some ((e, b), w')"
  shows "e = LBS_ATCMD_UNKNOWERR \<or> e = LBS_ATCMD_PARAERR" and "b = at_rsp"
proof -
  have st: "r = Inl LBS_ATCMD_PARAERR \<or> (\<exists>nv'. r = Inr nv')"
    if "fact_store ty param nv = Some r" for ty param nv r
    using that by (cases ty) (auto simp: fact_store_def fact_text_def fact_switch_def Let_def
        split: if_splits bind_splits)
  show "e = LBS_ATCMD_UNKNOWERR \<or> e = LBS_ATCMD_PARAERR" and "b = at_rsp"
    using assms st
    by (auto simp: cm_lbs_atcmd_mlbsfact_def cm_lbs_atcmd_mlbsfact_read_def Let_def
        cm_lbs_atcmd_mlbsfact_write_def cm_lbs_atcmd_mlbsfact_clearn_def
        split: if_splits option.splits prod.splits bind_splits sum.splits)
qed

end
