(* ===== verification/Json.thy ===== *)
theory Json
  imports Complex_Main Prelude
begin

text \<open>
  Values of the JSON library, \<^verbatim>\<open>libjson/src/cJSON.c\<close>: the node with its list of children, and the
  look-up of a member of an object. The pointers \<open>next\<close> and \<open>prev\<close> are the order of the list of
  children; null strings are \<open>None\<close>. A floating-point number is kept as the \<open>double\<close> below, of which
  the program only uses the integer part.
\<close>

section \<open>Nodes\<close>

datatype double = Fin rat | PInf | NInf | NaN

datatype cJSON = cJSON_node
  (child: "cJSON list") (jtype: nat) (valuestring: "string option") (valueint: int)
  (valuedouble: double) (jstring: "string option")

definition cJSON_False :: nat where "cJSON_False = 1"
definition cJSON_True :: nat where "cJSON_True = 2"
definition cJSON_NULL :: nat where "cJSON_NULL = 4"
definition cJSON_Number :: nat where "cJSON_Number = 8"
definition cJSON_String :: nat where "cJSON_String = 16"
definition cJSON_Array :: nat where "cJSON_Array = 32"
definition cJSON_Object :: nat where "cJSON_Object = 64"

lemmas json_types = cJSON_False_def cJSON_True_def cJSON_NULL_def cJSON_Number_def
  cJSON_String_def cJSON_Array_def cJSON_Object_def

section \<open>Members of an object\<close>

text \<open>\<open>tolower\<close> of the standard library in the C locale.\<close>

definition tolower :: "char \<Rightarrow> char" where
  "tolower c = (let n = (of_char c :: nat) in if 65 \<le> n \<and> n \<le> 90 then char_of (n + 32) else c)"

text \<open>\<open>case_insensitive_strcmp(a, b) == 0\<close> on strings; with a null pointer it is never 0.\<close>

definition case_insensitive_eq :: "string option \<Rightarrow> string option \<Rightarrow> bool" where
  "case_insensitive_eq a b =
     (case (a, b) of (Some s, Some t) \<Rightarrow> map tolower s = map tolower t | _ \<Rightarrow> False)"

fun find_member :: "(string option \<Rightarrow> bool) \<Rightarrow> cJSON list \<Rightarrow> cJSON option" where
  "find_member P [] = None"
| "find_member P (e # es) = (if P (jstring e) then Some e else find_member P es)"

text \<open>\<open>get_object_item\<close>. The case-sensitive loop stops at a child without a name, which is then no
  result.\<close>

definition get_object_item :: "cJSON option \<Rightarrow> string \<Rightarrow> bool \<Rightarrow> cJSON option" where
  "get_object_item object name case_sensitive =
     (case object of
        None \<Rightarrow> None
      | Some ob \<Rightarrow>
          (let current_element =
             (if case_sensitive
              then find_member (\<lambda>s. case s of None \<Rightarrow> True | Some t \<Rightarrow> name = t) (child ob)
              else find_member (case_insensitive_eq (Some name)) (child ob))
           in case current_element of
                None \<Rightarrow> None
              | Some e \<Rightarrow> if jstring e = None then None else Some e))"

definition cJSON_GetObjectItem :: "cJSON option \<Rightarrow> string \<Rightarrow> cJSON option" where
  "cJSON_GetObjectItem object name = get_object_item object name False"

definition cJSON_GetObjectItemCaseSensitive :: "cJSON option \<Rightarrow> string \<Rightarrow> cJSON option" where
  "cJSON_GetObjectItemCaseSensitive object name = get_object_item object name True"

section \<open>Facts about members\<close>

lemma find_member_Some:
  "find_member P es = Some e \<Longrightarrow> e \<in> set es \<and> P (jstring e)"
  by (induction es) (auto split: if_splits)

lemma find_member_None: "find_member P es = None \<longleftrightarrow> (\<forall>e \<in> set es. \<not> P (jstring e))"
  by (induction es) auto

lemma get_null [simp]: "cJSON_GetObjectItem None name = None"
  by (simp add: cJSON_GetObjectItem_def get_object_item_def)

lemma get_member:
  "cJSON_GetObjectItem (Some ob) name = find_member (case_insensitive_eq (Some name)) (child ob)"
  by (auto simp: cJSON_GetObjectItem_def get_object_item_def case_insensitive_eq_def
      dest!: find_member_Some split: option.splits)

text \<open>The strings of a tree, the only texts a client can get out of it.\<close>

definition item_string :: "cJSON option \<Rightarrow> string option" where
  "item_string i = do { x \<leftarrow> i; valuestring x }"

end
