(* ===== verification/LbsData.thy ===== *)
theory LbsData
  imports LbsFact Json
begin

text \<open>
  The data of the location service: events, results, attributes, sessions and messages of
  \<^verbatim>\<open>cm_lbs/cm_lbs/src/cm_lbs.c\<close>, the clients and static variables of the two platforms
  (\<^verbatim>\<open>cm_lbs_amap.c\<close>, \<^verbatim>\<open>cm_lbs_oneospos.c\<close>), and the state they make up together.
\<close>

section \<open>Data\<close>

datatype cm_lbs_callback_event_e =
    CM_LBS_LOCATION_OK | CM_LBS_NET_ERR | CM_LBS_TIMEOUT | CM_LBS_KEY_ERR | CM_LBS_PARAM_INVALID
  | CM_LBS_OVER_DAYQUTA | CM_LBS_OVER_QUOTA | CM_LBS_OVER_QPS | CM_LBS_UNKNOW_ERR

datatype cm_lbs_amap_event_e =
    AMAP_LOCATION_SUCCEED | AMAP_LOCATION_FAIL | AMAP_LOCATION_TIMEOUT | AMAP_LOCATION_CONNECTFAILL
  | AMAP_LOCATION_KEY_INVALID | AMAP_LOCATION_OVER_DAYQUOTA | AMAP_LOCATION_OVER_ALLQUOTA
  | AMAP_LOCATION_OVER_QPS | AMAP_LOCATION_GET_UEINFO_FAIL | AMAP_LOCATION_APIKEY_FOBIDEN
  | AMAP_LOCATION_UNKNOWN_ERR

datatype cm_oneospos_callback_event_e =
    CM_ONEOSPOS_EVENT_UNKNOW | CM_ONEOSPOS_EVENT_CONERR | CM_ONEOSPOS_EVENT_TIMEOUT
  | CM_ONEOSPOS_EVENT_SUCCESS | CM_ONEOSPOS_EVENT_FAIL | CM_ONEOSPOS_EVENT_OVER_RESTRICT
  | CM_ONEOSPOS_EVENT_UNSET_PLATFORM | CM_ONEOSPOS_EVENT_UEINFO_FAIL | CM_ONEOSPOS_EVENT_ATTR_NULL

text \<open>Results: null strings are \<open>None\<close>.\<close>

record cm_lbs_location_rsp_t =
  l_state :: cm_lbs_callback_event_e
  l_longitude :: "string option"
  l_latitude :: "string option"
  l_radius :: "string option"
  l_country :: "string option"
  l_province :: "string option"
  l_city :: "string option"
  l_citycode :: "string option"
  l_adcode :: "string option"
  l_poi :: "string option"
  l_location_describe :: "string option"

record cm_lbs_amap_location_rsp_t =
  am_event :: cm_lbs_amap_event_e
  am_longitude :: "string option"
  am_latitude :: "string option"
  am_radius :: "string option"
  am_country :: "string option"
  am_province :: "string option"
  am_city :: "string option"
  am_district :: "string option"
  am_citycode :: "string option"
  am_adcode :: "string option"
  am_street :: "string option"
  am_road :: "string option"
  am_poi :: "string option"
  am_location_describe :: "string option"

record cm_oneospos_location_rsp_t =
  op_event :: cm_oneospos_callback_event_e
  op_latitude :: "string option"
  op_longitude :: "string option"

text \<open>The functions a callback pointer of the service can point to, and the pointer with its
  argument, which is only passed on.\<close>

datatype cm_lbs_callback = ATCMD_CALLBACK | AT_MLBS_CALLBACK

record cm_lbs_callback_msg_t =
  cb :: "cm_lbs_callback option"
  cb_arg :: nat

text \<open>The attributes a caller passes in; the keys are arrays of the caller.\<close>

record cm_lbs_amap_location_attr_t =
  at_api_key :: "bytes option"
  at_time_out :: u32
  at_digital_sign_enable :: u32
  at_digital_key :: "bytes option"
  at_show_fields_enable :: u32
  at_nearbts_enable :: u32

record cm_lbs_oneospos_attr_t =
  oa_pid :: "bytes option"
  oa_time_out :: u32
  oa_nearbts_enable :: u32

record cm_amap_authentication_t =
  au_platform :: platform_e
  au_digital_sign_enable :: u32
  au_digital_sign_key :: "bytes option"
  au_apikey :: "bytes option"
  au_time_out :: u32
  au_show_fields_enable :: u32

text \<open>The sessions. \<open>ueinfo\<close> is the identity of a block; a session's callback argument is the static
  message of its platform once a location was requested.\<close>

record cm_amap_t =
  am_ueinfo :: "nat option"
  am_auth :: cm_amap_authentication_t
  am_cb_arg :: "cm_lbs_callback_msg_t option"
  am_nearbts_enable :: u32

record cm_oneospos_attr_t =
  op_pid :: bytes
  op_ueinfo :: "nat option"
  op_cb_arg :: "cm_lbs_callback_msg_t option"
  op_nearbts_enable :: u32

text \<open>Messages and queues.\<close>

datatype cm_lbs_event_e = CM_LBS_LOCATION | CM_LBS_GET_UEINFO

record cm_lbs_message_queue_adapter =
  msgid :: nat
  msg_len :: u32

definition CM_LBS_MESSAGE_QUEUE_BUFLEN :: u32 where
  "CM_LBS_MESSAGE_QUEUE_BUFLEN = 64"

definition sizeof_cm_lbs_msg_t :: u32 where
  "sizeof_cm_lbs_msg_t = 4"

section \<open>Data of the platforms\<close>

text \<open>Device information of \<^verbatim>\<open>cm_lbs_amap.h\<close> and \<^verbatim>\<open>cm_lbs_oneospos.h\<close>. The texts behind pointers are
  strings; the pointers may be null.\<close>

record cm_service_cell_info_t =
  ci_lac :: bytes
  ci_cellid :: bytes
  ci_mcc :: u32
  ci_mnc :: u32
  ci_signal :: u32

record cm_amap_ue_info_t =
  ue_imei :: bytes
  ue_imsi :: bytes
  ue_cage :: u32
  ue_cell_info :: cm_service_cell_info_t
  ue_network_type :: "string option"
  ue_nearbts :: "string option"
  ue_server_ip :: "string option"

record cm_oneospos_ueinfo_t =
  ou_imei :: bytes
  ou_imsi :: bytes
  ou_cell_info :: cm_service_cell_info_t
  ou_nearbts :: "string option"

text \<open>The AMAP client, a copy of a session's attributes. A key pointer that could not be copied still
  points to the key of the session, which the client does not own (\<open>own\<close> is false).\<close>

record cm_amap_client =
  cl_http_client :: "nat option"
  cl_busy :: bool
  cl_ueinfo :: cm_amap_ue_info_t
  cl_auth :: cm_amap_authentication_t
  cl_own_apikey :: bool
  cl_own_sign_key :: bool
  cl_cb_arg :: "cm_lbs_callback_msg_t option"

text \<open>The static variables of \<^verbatim>\<open>cm_lbs_amap.c\<close>. The pointer \<open>s_ue_info_last\<close> can outlive its block;
  \<open>ue_last_live\<close> says whether the block is allocated. A curl handle is a number.\<close>

record amap_static =
  s_amap_curl_handle :: "nat option"
  s_amap_curl_multi_handle :: bool
  s_amap_client :: "cm_amap_client option"
  s_amap_location_rsp :: "cm_lbs_amap_location_rsp_t option"
  s_amap_rsp_time :: u32
  s_ue_info_last :: "cm_amap_ue_info_t option"
  ue_last_live :: bool
  s_amap_last_key :: "string option"
  s_amap_last_signkey :: "string option"
  s_show_fields_enable :: u32
  s_signen :: u32
  amap_callback_state :: nat

text \<open>The static variables of \<^verbatim>\<open>cm_lbs_oneospos.c\<close>; the pointers \<open>s_oneospos_client\<close>,
  \<open>s_http_content\<close> and \<open>s_ue_info_last\<close> can outlive their blocks.\<close>

record oneospos_static =
  s_oneospos_busy :: bool
  s_oneospos_curl_handle :: "nat option"
  s_curl_multi_handle :: bool
  s_oneospos_client :: "cm_oneospos_attr_t option"
  client_live :: bool
  s_http_content :: "string option"
  content_live :: bool
  s_http_conten_len :: u32
  s_rsp_buf :: "cm_oneospos_location_rsp_t option"
  s_oneospos_rsp_time :: u32
  o_ue_info_last :: "cm_oneospos_ueinfo_t option"
  o_ue_last_live :: bool
  s_oneospos_lastpid :: "string option"
  oneospos_callback_state :: nat

section \<open>The state of the service\<close>

text \<open>The state: the environment, what the system will answer (the network, the creation of threads
  and queues, the room in a kernel queue, the clock, the calls of libcurl), the kernel's queues, the
  static variables of the files, the blocks of device information that are allocated, the reports and
  requests that were sent, and the curl handles in use.\<close>

record lbs_world = lbs_env +
  w_pdptype :: int
  w_threads :: "bool list"
  w_msggets :: "bool list"
  w_msgmax :: nat
  w_mq :: "nat \<Rightarrow> cm_lbs_event_e list option"
  w_task :: bool
  w_queun :: "cm_lbs_message_queue_adapter option"
  w_platform :: platform_e
  w_amap :: "cm_amap_t option"
  w_oneospos :: "cm_oneospos_attr_t option"
  w_live :: "nat set"
  w_next :: nat
  w_urc :: "string list"
  w_time :: u32
  w_curl :: "bool list"
  w_handles :: "nat set"
  w_sent :: "string list"
  w_amapst :: amap_static
  w_oneosst :: oneospos_static

text \<open>Static variables before the first call.\<close>

definition zero_amap_static :: amap_static where
  "zero_amap_static = \<lparr>s_amap_curl_handle = None, s_amap_curl_multi_handle = False,
     s_amap_client = None, s_amap_location_rsp = None, s_amap_rsp_time = 0, s_ue_info_last = None,
     ue_last_live = False, s_amap_last_key = None, s_amap_last_signkey = None,
     s_show_fields_enable = 0, s_signen = 0, amap_callback_state = 0\<rparr>"

definition zero_oneospos_static :: oneospos_static where
  "zero_oneospos_static = \<lparr>s_oneospos_busy = False, s_oneospos_curl_handle = None,
     s_curl_multi_handle = False, s_oneospos_client = None, client_live = False,
     s_http_content = None, content_live = False, s_http_conten_len = 0, s_rsp_buf = None,
     s_oneospos_rsp_time = 0, o_ue_info_last = None, o_ue_last_live = False,
     s_oneospos_lastpid = None, oneospos_callback_state = 0\<rparr>"

text \<open>A block of device information as \<open>cm_amap_get_ueinfo\<close> and \<open>cm_oneospos_get_ueinfo\<close> leave it on this
  build: zeroed.\<close>

definition zero_cell_info :: cm_service_cell_info_t where
  "zero_cell_info = \<lparr>ci_lac = replicate 12 NUL, ci_cellid = replicate 12 NUL, ci_mcc = 0,
     ci_mnc = 0, ci_signal = 0\<rparr>"

definition zero_amap_ueinfo :: cm_amap_ue_info_t where
  "zero_amap_ueinfo = \<lparr>ue_imei = replicate 24 NUL, ue_imsi = replicate 24 NUL, ue_cage = 0,
     ue_cell_info = zero_cell_info, ue_network_type = None, ue_nearbts = None, ue_server_ip = None\<rparr>"

definition zero_oneospos_ueinfo :: cm_oneospos_ueinfo_t where
  "zero_oneospos_ueinfo = \<lparr>ou_imei = replicate 24 NUL, ou_imsi = replicate 24 NUL,
     ou_cell_info = zero_cell_info, ou_nearbts = None\<rparr>"

end
