(* ===== verification/LbsCore.thy ===== *)
theory LbsCore
  imports LbsData
begin

text \<open>
  The core of the location service, \<^verbatim>\<open>cm_lbs/cm_lbs/src/cm_lbs.c\<close>: the message queue and the task,
  the sessions of the two platforms (\<open>s_amap_attr\<close> and \<open>s_oneospos_attr_t\<close>), the callbacks that
  translate a platform's result, and the public functions \<open>cm_lbs_init\<close>, \<open>cm_lbs_location\<close> and
  \<open>cm_lbs_deinit\<close>. Blocks of device information (\<open>ueinfo\<close>) have an identity, so that freeing one twice
  is a fault. The requests to the platforms (\<open>cm_amap_location\<close>, \<open>cm_oneospos_location\<close>) and the function
  behind a callback pointer are arguments of the definitions that call them.
\<close>

type_synonym user_cb = "cm_lbs_callback \<Rightarrow> cm_lbs_callback_event_e
    \<Rightarrow> cm_lbs_location_rsp_t option \<Rightarrow> nat \<Rightarrow> lbs_world \<Rightarrow> lbs_world option"

definition next_answer :: "bool list \<Rightarrow> bool \<times> bool list" where
  "next_answer l = (case l of [] \<Rightarrow> (True, []) | a # r \<Rightarrow> (a, r))"

section \<open>The platform underneath\<close>

definition cm_lbs_get_netstate :: "lbs_world \<Rightarrow> cm_lbs_state_e" where
  "cm_lbs_get_netstate w = (if w_pdptype w = 0 then CM_LBS_ERR else CM_LBS_OK)"

definition cm_lbs_get_cid :: int where
  "cm_lbs_get_cid = 7"

text \<open>Creating the task: the handle is a constant that only says that a thread exists.\<close>

definition cm_lbs_CreateTask :: "lbs_world \<Rightarrow> bool \<times> lbs_world" where
  "cm_lbs_CreateTask w = (case next_answer (w_threads w) of (ok, r) \<Rightarrow> (ok, w\<lparr>w_threads := r\<rparr>))"

definition cm_lbs_CreateQuen :: "u32 \<Rightarrow> lbs_world
    \<Rightarrow> cm_lbs_message_queue_adapter option \<times> lbs_world" where
  "cm_lbs_CreateQuen msg_size w =
     (case env_malloc w of (ok, w1) \<Rightarrow>
        if \<not> ok then (None, w1)
        else if msg_size > CM_LBS_MESSAGE_QUEUE_BUFLEN then (None, w1)
        else (case next_answer (w_msggets w1) of (got, r) \<Rightarrow>
            if \<not> got then (None, w1\<lparr>w_msggets := r\<rparr>)
            else (Some \<lparr>msgid = w_next w1, msg_len = msg_size\<rparr>,
                  w1\<lparr>w_msggets := r, w_mq := (w_mq w1)(w_next w1 \<mapsto> []), w_next := Suc (w_next w1)\<rparr>)))"

text \<open>\<open>msgsnd\<close> without waiting fails on a queue that is gone or full.\<close>

definition cm_lbs_QueueSend :: "cm_lbs_message_queue_adapter option \<Rightarrow> cm_lbs_event_e \<Rightarrow> lbs_world
    \<Rightarrow> cm_lbs_state_e \<times> lbs_world" where
  "cm_lbs_QueueSend queue_handle msg w =
     (case queue_handle of
        None \<Rightarrow> (CM_LBS_ERR, w)
      | Some q \<Rightarrow>
          if sint (msg_len q) > sint CM_LBS_MESSAGE_QUEUE_BUFLEN then (CM_LBS_ERR, w)
          else (case w_mq w (msgid q) of
              None \<Rightarrow> (CM_LBS_ERR, w)
            | Some ms \<Rightarrow> if length ms \<ge> w_msgmax w then (CM_LBS_ERR, w)
                else (CM_LBS_OK, w\<lparr>w_mq := (w_mq w)(msgid q \<mapsto> ms @ [msg])\<rparr>)))"

text \<open>\<open>__cm_lbs_QueueRev\<close> follows a null handle, a fault (the outer \<open>None\<close>). An empty queue blocks (the
  inner \<open>None\<close>). On a queue that is gone the receipt fails and the caller gets the zeroed message,
  which is no event.\<close>

definition cm_lbs_QueueRev :: "cm_lbs_message_queue_adapter option \<Rightarrow> lbs_world
    \<Rightarrow> ((cm_lbs_state_e \<times> cm_lbs_event_e option \<times> lbs_world) option) option" where
  "cm_lbs_QueueRev queue_handle w =
     (case queue_handle of
        None \<Rightarrow> None
      | Some q \<Rightarrow> (case w_mq w (msgid q) of
            None \<Rightarrow> Some (Some (CM_LBS_ERR, None, w))
          | Some [] \<Rightarrow> Some None
          | Some (m # ms) \<Rightarrow>
              Some (Some (CM_LBS_OK, Some m, w\<lparr>w_mq := (w_mq w)(msgid q \<mapsto> ms)\<rparr>))))"

definition cm_lbs_QueueDelete :: "cm_lbs_message_queue_adapter option \<Rightarrow> lbs_world
    \<Rightarrow> (cm_lbs_state_e \<times> lbs_world) option" where
  "cm_lbs_QueueDelete queue_handle w =
     (case queue_handle of
        None \<Rightarrow> None
      | Some q \<Rightarrow> Some (if w_mq w (msgid q) = None then CM_LBS_ERR else CM_LBS_OK,
                        w\<lparr>w_mq := (w_mq w)(msgid q := None)\<rparr>))"

text \<open>Timers are stubs on this platform.\<close>

definition cm_lbs_TimeCreat :: "nat option" where "cm_lbs_TimeCreat = None"

definition cm_lbs_TimeStar :: "nat option \<Rightarrow> u32 \<Rightarrow> cm_lbs_state_e" where
  "cm_lbs_TimeStar timer_id time_s = CM_LBS_OK"

definition cm_lbs_TimeState :: "nat option \<Rightarrow> cm_lbs_state_e" where
  "cm_lbs_TimeState timer_id = CM_LBS_ERR"

definition cm_lbs_TimeStop :: "nat option \<Rightarrow> cm_lbs_state_e" where
  "cm_lbs_TimeStop timer_id = CM_LBS_ERR"

definition cm_lbs_TimeDelete :: "nat option \<Rightarrow> cm_lbs_state_e" where
  "cm_lbs_TimeDelete timer_id = CM_LBS_ERR"

text \<open>The one task creator: a task that exists is taken as success, whatever became of the queue.\<close>

definition cm_lbs_task_create :: "lbs_world \<Rightarrow> cm_lbs_state_e \<times> lbs_world" where
  "cm_lbs_task_create w =
     (if w_task w then (CM_LBS_OK, w)
      else (case cm_lbs_CreateTask w of (t, w1) \<Rightarrow>
        let w2 = w1\<lparr>w_task := t\<rparr> in
        if \<not> t then (CM_LBS_ERR, w2)
        else (case cm_lbs_CreateQuen sizeof_cm_lbs_msg_t w2 of (q, w3) \<Rightarrow>
          let w4 = w3\<lparr>w_queun := q\<rparr> in
          if q = None then (CM_LBS_ERR, w4) else (CM_LBS_OK, w4))))"

section \<open>Device information\<close>

text \<open>On this build both platforms allocate the block and fill nothing in. The AMAP function reports
  success even when the allocation failed.\<close>

definition new_ueinfo :: "lbs_world \<Rightarrow> nat option \<times> lbs_world" where
  "new_ueinfo w =
     (case env_malloc w of (ok, w1) \<Rightarrow>
        if ok then (Some (w_next w1), w1\<lparr>w_live := insert (w_next w1) (w_live w1), w_next := Suc (w_next w1)\<rparr>)
        else (None, w1))"

definition cm_amap_get_ueinfo :: "u32 \<Rightarrow> lbs_world \<Rightarrow> (cm_lbs_state_e \<times> nat option) \<times> lbs_world" where
  "cm_amap_get_ueinfo nearbts_enable w = (case new_ueinfo w of (u, w1) \<Rightarrow> ((CM_LBS_OK, u), w1))"

definition cm_oneospos_get_ueinfo :: "u32 \<Rightarrow> lbs_world
    \<Rightarrow> (cm_lbs_state_e \<times> nat option) \<times> lbs_world" where
  "cm_oneospos_get_ueinfo nearbts_enable w =
     (case new_ueinfo w of (u, w1) \<Rightarrow>
        ((if u = None then CM_LBS_MEMROYERR else CM_LBS_OK, u), w1))"

text \<open>Freeing a block that is not allocated is a fault.\<close>

definition free_ueinfo :: "nat option \<Rightarrow> lbs_world \<Rightarrow> lbs_world option" where
  "free_ueinfo u w =
     (case u of
        None \<Rightarrow> Some w
      | Some i \<Rightarrow> if i \<in> w_live w then Some (w\<lparr>w_live := w_live w - {i}\<rparr>) else None)"

definition cm_amap_free_ueinfo :: "nat option \<Rightarrow> lbs_world \<Rightarrow> lbs_world option" where
  "cm_amap_free_ueinfo = free_ueinfo"

definition cm_oneospos_free_ueinfo :: "nat option \<Rightarrow> lbs_world \<Rightarrow> lbs_world option" where
  "cm_oneospos_free_ueinfo = free_ueinfo"

section \<open>The AMAP session\<close>

definition s_amap_key_filter :: "string list" where
  "s_amap_key_filter =
    [''17c91c31e704f1306d3b870d2cef76ca'',
     ''72ce730145e10ae5b04d307a442162ba'',
     ''624d3d5bb15c40adba27c14310f85b23'',
     ''eb5c394e6f300b26c86bf7594aad5fbb'',
     ''f81a5036d2320176e6fbeac959792571'',
     ''a815405b46390e87193110fdb70ac017'']"

definition cm_amap_key_filter :: "string \<Rightarrow> cm_lbs_state_e" where
  "cm_amap_key_filter key = (if key \<in> set s_amap_key_filter then CM_LBS_ERR else CM_LBS_OK)"

definition amap_ret :: "cm_lbs_amap_event_e \<Rightarrow> cm_lbs_callback_event_e" where
  "amap_ret ev =
     (case ev of
        AMAP_LOCATION_SUCCEED \<Rightarrow> CM_LBS_LOCATION_OK
      | AMAP_LOCATION_FAIL \<Rightarrow> CM_LBS_UNKNOW_ERR
      | AMAP_LOCATION_TIMEOUT \<Rightarrow> CM_LBS_TIMEOUT
      | AMAP_LOCATION_CONNECTFAILL \<Rightarrow> CM_LBS_NET_ERR
      | AMAP_LOCATION_KEY_INVALID \<Rightarrow> CM_LBS_KEY_ERR
      | AMAP_LOCATION_OVER_DAYQUOTA \<Rightarrow> CM_LBS_OVER_DAYQUTA
      | AMAP_LOCATION_OVER_ALLQUOTA \<Rightarrow> CM_LBS_OVER_QUOTA
      | AMAP_LOCATION_OVER_QPS \<Rightarrow> CM_LBS_OVER_QPS
      | _ \<Rightarrow> CM_LBS_UNKNOW_ERR)"

definition zero_rsp :: cm_lbs_location_rsp_t where
  "zero_rsp = \<lparr>l_state = CM_LBS_LOCATION_OK, l_longitude = None, l_latitude = None, l_radius = None,
     l_country = None, l_province = None, l_city = None, l_citycode = None, l_adcode = None,
     l_poi = None, l_location_describe = None\<rparr>"

text \<open>\<open>__cm_lbs_amap_callback\<close>. When the result cannot be allocated the code breaks out with the
  status still at success, so the upper layer is told of a success without a result. A null message
  or a null callback is a fault.\<close>

definition cm_lbs_amap_callback :: "user_cb \<Rightarrow> cm_lbs_amap_event_e
    \<Rightarrow> cm_lbs_amap_location_rsp_t option \<Rightarrow> cm_lbs_callback_msg_t option \<Rightarrow> lbs_world
    \<Rightarrow> lbs_world option" where
  "cm_lbs_amap_callback call rsp_event location_rsp cbmsg w =
     (let (rsp, w1) = (if rsp_event = AMAP_LOCATION_SUCCEED then
             (case env_malloc w of (ok, w1) \<Rightarrow>
                (if \<not> ok then None
                 else Some (case location_rsp of
                     None \<Rightarrow> zero_rsp
                   | Some r \<Rightarrow> zero_rsp\<lparr>l_adcode := am_adcode r, l_city := am_city r,
                       l_citycode := am_citycode r, l_country := am_country r,
                       l_latitude := am_latitude r, l_location_describe := am_location_describe r,
                       l_longitude := am_longitude r, l_poi := am_poi r,
                       l_province := am_province r, l_radius := am_radius r\<rparr>), w1))
           else (None, w));
         ret = amap_ret rsp_event
      in do {
        m \<leftarrow> cbmsg;
        f \<leftarrow> cb m;
        call f ret (map_option (\<lambda>r. r\<lparr>l_state := ret\<rparr>) rsp) (cb_arg m) w1 })"

text \<open>\<open>strncpy(d, s, n)\<close> into a zeroed block of \<open>n + 1\<close> bytes.\<close>

definition strncpy_new :: "nat \<Rightarrow> bytes \<Rightarrow> bytes option" where
  "strncpy_new n s =
     (let v = take n (takeWhile (\<lambda>c. c \<noteq> NUL) s)
      in if NUL \<notin> set s \<and> length s < n then None
         else Some (v @ replicate (n + 1 - length v) NUL))"

text \<open>\<open>__cm_lbs_copy_amap_authentication_by_attr\<close>; the signature key is copied with the length of the
  API key.\<close>

definition cm_lbs_copy_amap_authentication_by_attr :: "platform_e \<Rightarrow> cm_lbs_amap_location_attr_t
    \<Rightarrow> lbs_world \<Rightarrow> (cm_amap_authentication_t \<times> lbs_world) option" where
  "cm_lbs_copy_amap_authentication_by_attr pf attr w = do {
     (ak, w1) \<leftarrow> (case at_api_key attr of
         None \<Rightarrow> Some (None, w)
       | Some key \<Rightarrow> do {
           v \<leftarrow> c_str key;
           (case env_malloc w of (ok, w1) \<Rightarrow>
              if ok then do { b \<leftarrow> strncpy_new (length v) key; Some (Some b, w1) }
              else Some (None, w1)) });
     (dk, w2) \<leftarrow> (case at_digital_key attr of
         None \<Rightarrow> Some (None, w1)
       | Some dkey \<Rightarrow> do {
           key \<leftarrow> at_api_key attr;
           v \<leftarrow> c_str key;
           (case env_malloc w1 of (ok, w2) \<Rightarrow>
              if ok then do { b \<leftarrow> strncpy_new (length v) dkey; Some (Some b, w2) }
              else Some (None, w2)) });
     Some (\<lparr>au_platform = pf, au_digital_sign_enable = at_digital_sign_enable attr,
            au_digital_sign_key = dk, au_apikey = ak, au_time_out = at_time_out attr,
            au_show_fields_enable = at_show_fields_enable attr\<rparr>, w2) }"

definition cm_lbs_s_amap_attr_free :: "lbs_world \<Rightarrow> lbs_world option" where
  "cm_lbs_s_amap_attr_free w =
     (case w_amap w of
        None \<Rightarrow> Some w
      | Some a \<Rightarrow> do {
          w1 \<leftarrow> cm_amap_free_ueinfo (am_ueinfo a) w;
          Some (w1\<lparr>w_amap := None\<rparr>) })"

definition cm_lbs_init_amap :: "platform_e \<Rightarrow> cm_lbs_amap_location_attr_t option \<Rightarrow> lbs_world
    \<Rightarrow> (int \<times> lbs_world) option" where
  "cm_lbs_init_amap pf attr w =
     (if w_amap w \<noteq> None then Some (-2, w)
      else (case attr of
          None \<Rightarrow> Some (-1, w)
        | Some lbs_attr \<Rightarrow>
            (case env_malloc w of (ok, w1) \<Rightarrow>
               if \<not> ok then Some (-2, w1)
               else (case env_malloc w1 of (ok2, w2) \<Rightarrow>
                 if \<not> ok2 then Some (-2, w2)
                 else do {
                   (auth, w3) \<leftarrow> cm_lbs_copy_amap_authentication_by_attr pf lbs_attr w2;
                   Some (0, w3\<lparr>w_amap := Some \<lparr>am_ueinfo = None, am_auth = auth, am_cb_arg = None,
                     am_nearbts_enable = at_nearbts_enable lbs_attr\<rparr>\<rparr>) }))))"

definition cm_lbs_location_amap :: "cm_lbs_callback option \<Rightarrow> nat \<Rightarrow> lbs_world
    \<Rightarrow> (int \<times> lbs_world) option" where
  "cm_lbs_location_amap f arg w =
     (case w_amap w of
        None \<Rightarrow> Some (-1, w)
      | Some a \<Rightarrow>
          if cm_lbs_get_netstate w \<noteq> CM_LBS_OK then do {
            w1 \<leftarrow> cm_lbs_s_amap_attr_free w;
            Some (-2, w1) }
          else
            (let w1 = w\<lparr>w_amap := Some (a\<lparr>am_cb_arg := Some \<lparr>cb = f, cb_arg = arg\<rparr>\<rparr>)\<rparr> in
             case cm_lbs_QueueSend (w_queun w1) CM_LBS_LOCATION w1 of (ret, w2) \<Rightarrow>
               if ret \<noteq> CM_LBS_OK then do {
                 w3 \<leftarrow> cm_lbs_s_amap_attr_free w2;
                 Some (-3, w3) }
               else Some (0, w2)))"

text \<open>\<open>cm_lbs_asyn_location_amap\<close>, run by the task: a missing session or a missing key is a fault. After
  a failed request the device information is freed here although the callback may have freed it.\<close>

definition cm_lbs_asyn_location_amap :: "user_cb
    \<Rightarrow> (cm_amap_t \<Rightarrow> lbs_world \<Rightarrow> (cm_lbs_state_e \<times> lbs_world) option)
    \<Rightarrow> lbs_world \<Rightarrow> lbs_world option" where
  "cm_lbs_asyn_location_amap call locate w = do {
     a \<leftarrow> w_amap w;
     (case cm_amap_get_ueinfo (am_nearbts_enable a) w of ((ret, ue_info), w1) \<Rightarrow>
        if ue_info = None \<or> ret \<noteq> CM_LBS_OK then do {
          w2 \<leftarrow> cm_lbs_amap_callback call AMAP_LOCATION_GET_UEINFO_FAIL None (am_cb_arg a) w1;
          cm_amap_free_ueinfo ue_info w2 }
        else do {
          karr \<leftarrow> au_apikey (am_auth a);
          key \<leftarrow> c_str karr;
          (if cm_amap_key_filter key \<noteq> CM_LBS_OK then do {
             w2 \<leftarrow> cm_lbs_amap_callback call AMAP_LOCATION_APIKEY_FOBIDEN None (am_cb_arg a) w1;
             cm_amap_free_ueinfo ue_info w2 }
           else (let a1 = a\<lparr>am_ueinfo := ue_info\<rparr> in do {
             (ret, w2) \<leftarrow> locate a1 (w1\<lparr>w_amap := Some a1\<rparr>);
             (if ret \<noteq> CM_LBS_OK then do {
                s \<leftarrow> w_amap w2;
                w3 \<leftarrow> cm_lbs_amap_callback call AMAP_LOCATION_UNKNOWN_ERR None (am_cb_arg s) w2;
                cm_amap_free_ueinfo ue_info w3 }
              else Some w2) })) }) }"

end
