(* ===== verification/LbsSession.thy ===== *)
theory LbsSession
  imports LbsCore
begin

text \<open>
  The rest of \<^verbatim>\<open>cm_lbs/cm_lbs/src/cm_lbs.c\<close>: the OneOS session, the body of the task, and the public
  functions; then the service as a state machine whose steps are the calls of the application, the
  messages the task handles and the changes of the network.
\<close>

section \<open>The OneOS session\<close>

definition ONEOSPOS_PID_INTERNAL :: string where
  "ONEOSPOS_PID_INTERNAL = ''VuJCIgMPvN''"

text \<open>\<open>__cm_oneospos_pid_config\<close>: the array \<open>outpid\<close> afterwards.\<close>

definition cm_oneospos_pid_config :: "bytes option \<Rightarrow> bytes \<Rightarrow> lbs_world
    \<Rightarrow> (bytes \<times> lbs_world) option" where
  "cm_oneospos_pid_config input_pid outpid w = do {
     given \<leftarrow> (case input_pid of
         None \<Rightarrow> Some None
       | Some p \<Rightarrow> do { v \<leftarrow> c_str p; Some (if length v < 1 \<or> v = ''0'' then None else Some v) });
     (case given of
        Some v \<Rightarrow> do { b \<leftarrow> arr_copy v outpid; Some (b, w) }
      | None \<Rightarrow>
          (case env_malloc w of (ok, w1) \<Rightarrow>
             if \<not> ok then Some (outpid, w1)
             else (case cm_lbs_read_nv_data (Some zero_nvconfig) of
                 (r, None) \<Rightarrow> None
               | (r, Some nv) \<Rightarrow> do {
                   nvpid \<leftarrow> (if r \<noteq> CM_LBS_OK then Some None
                     else do { v \<leftarrow> c_str (oneospospid nv);
                               Some (if length v < 1 \<or> v = ''0'' then None else Some v) });
                   b \<leftarrow> arr_copy (case nvpid of None \<Rightarrow> ONEOSPOS_PID_INTERNAL | Some v \<Rightarrow> v) outpid;
                   Some (b, w1) }))) }"

text \<open>\<open>cm_oneospos_create_attr\<close> of \<^verbatim>\<open>cm_lbs_oneospos.c\<close>: a copy of the attributes with its own device
  information and its own product id. If the id cannot be allocated the copied information is lost.\<close>

definition cm_oneospos_create_attr :: "cm_oneospos_attr_t \<Rightarrow> lbs_world
    \<Rightarrow> (cm_oneospos_attr_t option \<times> lbs_world) option" where
  "cm_oneospos_create_attr src w =
     (case env_malloc w of (ok, w1) \<Rightarrow>
        if \<not> ok then Some (None, w1)
        else (case (case op_ueinfo src of None \<Rightarrow> (None, w1) | Some i \<Rightarrow> new_ueinfo w1) of (u, w2) \<Rightarrow> do {
          v \<leftarrow> c_str (op_pid src);
          (case env_malloc w2 of (ok2, w3) \<Rightarrow>
             if \<not> ok2 then Some (None, w3)
             else do {
               p \<leftarrow> strncpy_new (length v) (op_pid src);
               Some (Some (src\<lparr>op_ueinfo := u, op_pid := p\<rparr>), w3) }) }))"

definition cm_lbs_s_oneospos_attr_free :: "lbs_world \<Rightarrow> lbs_world option" where
  "cm_lbs_s_oneospos_attr_free w =
     (case w_oneospos w of
        None \<Rightarrow> Some w
      | Some a \<Rightarrow> do {
          w1 \<leftarrow> cm_oneospos_free_ueinfo (op_ueinfo a) w;
          Some (w1\<lparr>w_oneospos := None\<rparr>) })"

text \<open>\<open>cm_lbs_oneospos_callback\<close>: the \<open>switch\<close> that makes the event and the result for the upper layer,
  then the call and the release of the session, which always happens.\<close>

definition oneospos_result :: "cm_oneospos_callback_event_e \<Rightarrow> cm_oneospos_location_rsp_t option
    \<Rightarrow> lbs_world
    \<Rightarrow> (cm_lbs_callback_event_e \<times> cm_lbs_location_rsp_t option \<times> lbs_world) option" where
  "oneospos_result ev rsp w =
     (case ev of
        CM_ONEOSPOS_EVENT_SUCCESS \<Rightarrow>
          (case env_malloc w of (ok, w1) \<Rightarrow>
             if \<not> ok then Some (CM_LBS_UNKNOW_ERR, None, w1)
             else do {
               r \<leftarrow> rsp;
               Some (CM_LBS_LOCATION_OK,
                 Some (zero_rsp\<lparr>l_latitude := op_latitude r, l_longitude := op_longitude r\<rparr>), w1) })
      | CM_ONEOSPOS_EVENT_FAIL \<Rightarrow> Some (CM_LBS_UNKNOW_ERR, None, w)
      | CM_ONEOSPOS_EVENT_OVER_RESTRICT \<Rightarrow> Some (CM_LBS_OVER_QPS, None, w)
      | CM_ONEOSPOS_EVENT_UNSET_PLATFORM \<Rightarrow> Some (CM_LBS_UNKNOW_ERR, None, w)
      | _ \<Rightarrow> Some (CM_LBS_UNKNOW_ERR, None, w))"

definition cm_lbs_oneospos_callback :: "user_cb \<Rightarrow> cm_oneospos_callback_event_e
    \<Rightarrow> cm_oneospos_location_rsp_t option \<Rightarrow> cm_lbs_callback_msg_t option \<Rightarrow> lbs_world
    \<Rightarrow> lbs_world option" where
  "cm_lbs_oneospos_callback call ev rsp cbmsg w = do {
     m \<leftarrow> cbmsg;
     (ret, res, w1) \<leftarrow> oneospos_result ev rsp w;
     w2 \<leftarrow> (case cb m of None \<Rightarrow> Some w1 | Some f \<Rightarrow> call f ret res (cb_arg m) w1);
     cm_lbs_s_oneospos_attr_free w2 }"

definition cm_lbs_init_oneospos :: "platform_e \<Rightarrow> cm_lbs_oneospos_attr_t option \<Rightarrow> lbs_world
    \<Rightarrow> (int \<times> lbs_world) option" where
  "cm_lbs_init_oneospos pf attr w =
     (case attr of
        None \<Rightarrow> Some (-1, w)
      | Some inattr \<Rightarrow>
          if w_oneospos w \<noteq> None then Some (-2, w)
          else (case env_malloc w of (ok, w1) \<Rightarrow>
            if \<not> ok then Some (-2, w1)
            else do {
              (oneos_pid, w2) \<leftarrow> cm_oneospos_pid_config (oa_pid inattr) (replicate 64 NUL) w1;
              (res, w3) \<leftarrow> cm_oneospos_create_attr \<lparr>op_pid = oneos_pid, op_ueinfo = None,
                op_cb_arg = None, op_nearbts_enable = oa_nearbts_enable inattr\<rparr> w2;
              (case res of
                 None \<Rightarrow> Some (-2, w3)
               | Some a \<Rightarrow> Some (0, w3\<lparr>w_oneospos := Some a\<rparr>)) }))"

definition cm_lbs_location_oneospos :: "cm_lbs_callback option \<Rightarrow> nat \<Rightarrow> lbs_world
    \<Rightarrow> (int \<times> lbs_world) option" where
  "cm_lbs_location_oneospos f arg w =
     (case w_oneospos w of
        None \<Rightarrow> Some (-1, w)
      | Some a \<Rightarrow>
          if f = None then Some (-1, w)
          else if cm_lbs_get_netstate w \<noteq> CM_LBS_OK then do {
            w1 \<leftarrow> cm_lbs_s_oneospos_attr_free w;
            Some (-2, w1) }
          else
            (let w1 = w\<lparr>w_oneospos := Some (a\<lparr>op_cb_arg := Some \<lparr>cb = f, cb_arg = arg\<rparr>\<rparr>)\<rparr> in
             case cm_lbs_QueueSend (w_queun w1) CM_LBS_LOCATION w1 of (ret, w2) \<Rightarrow>
               if ret \<noteq> CM_LBS_OK then do {
                 w3 \<leftarrow> cm_lbs_s_oneospos_attr_free w2;
                 Some (-3, w3) }
               else Some (0, w2)))"

text \<open>\<open>cm_lbs_asyn_location_oneospos\<close>: the branch for a missing session reads the session, a fault;
  after a failed request the callback has released the device information that is freed next.\<close>

definition cm_lbs_asyn_location_oneospos :: "user_cb
    \<Rightarrow> (cm_oneospos_attr_t \<Rightarrow> lbs_world \<Rightarrow> (cm_lbs_state_e \<times> lbs_world) option)
    \<Rightarrow> lbs_world \<Rightarrow> lbs_world option" where
  "cm_lbs_asyn_location_oneospos call locate w = do {
     a \<leftarrow> w_oneospos w;
     (case cm_oneospos_get_ueinfo (op_nearbts_enable a) w of ((ret, ue_info), w1) \<Rightarrow>
        if ret \<noteq> CM_LBS_OK then do {
          w2 \<leftarrow> cm_lbs_oneospos_callback call CM_ONEOSPOS_EVENT_UEINFO_FAIL None (op_cb_arg a) w1;
          cm_oneospos_free_ueinfo ue_info w2 }
        else (let a1 = a\<lparr>op_ueinfo := ue_info\<rparr> in do {
          (ret, w2) \<leftarrow> locate a1 (w1\<lparr>w_oneospos := Some a1\<rparr>);
          (if ret \<noteq> CM_LBS_OK then do {
             s \<leftarrow> w_oneospos w2;
             w3 \<leftarrow> cm_lbs_oneospos_callback call CM_ONEOSPOS_EVENT_UNKNOW None (op_cb_arg s) w2;
             cm_oneospos_free_ueinfo ue_info w3 }
           else Some w2) })) }"

section \<open>The task and the public functions\<close>

record locators =
  locate_amap :: "cm_amap_t \<Rightarrow> lbs_world \<Rightarrow> (cm_lbs_state_e \<times> lbs_world) option"
  locate_oneospos :: "cm_oneospos_attr_t \<Rightarrow> lbs_world \<Rightarrow> (cm_lbs_state_e \<times> lbs_world) option"

definition cm_lbs_asyn_location :: "user_cb \<Rightarrow> locators \<Rightarrow> lbs_world \<Rightarrow> lbs_world option" where
  "cm_lbs_asyn_location call ls w = do {
     w1 \<leftarrow> (if w_platform w = CM_LBS_PLAT_AMAP10 \<or> w_platform w = CM_LBS_PLAT_AMAP20
            then cm_lbs_asyn_location_amap call (locate_amap ls) w else Some w);
     (if w_platform w1 = CM_LBS_PLAT_ONEOSPOS
      then cm_lbs_asyn_location_oneospos call (locate_oneospos ls) w1 else Some w1) }"

text \<open>One turn of the loop of \<open>cm_lbs_main_task\<close>; without a message it stays where it is.\<close>

definition cm_lbs_main_task :: "user_cb \<Rightarrow> locators \<Rightarrow> lbs_world \<Rightarrow> lbs_world option" where
  "cm_lbs_main_task call ls w = do {
     r \<leftarrow> cm_lbs_QueueRev (w_queun w) w;
     (case r of
        None \<Rightarrow> Some w
      | Some (ret, event, w1) \<Rightarrow>
          if event = Some CM_LBS_LOCATION then cm_lbs_asyn_location call ls w1 else Some w1) }"

definition cm_lbs_deinit :: "lbs_world \<Rightarrow> lbs_world option" where
  "cm_lbs_deinit w = do {
     w1 \<leftarrow> cm_lbs_s_amap_attr_free w;
     cm_lbs_s_oneospos_attr_free w1 }"

text \<open>The attribute pointer of \<open>cm_lbs_init\<close> is read as the structure of the platform.\<close>

datatype lbs_attr = Amap_attr cm_lbs_amap_location_attr_t | Oneospos_attr cm_lbs_oneospos_attr_t

definition cm_lbs_init :: "platform_e \<Rightarrow> lbs_attr option \<Rightarrow> lbs_world \<Rightarrow> (int \<times> lbs_world) option" where
  "cm_lbs_init pf attr w =
     (case cm_lbs_task_create (w\<lparr>w_platform := pf\<rparr>) of (ret, w1) \<Rightarrow>
        if ret \<noteq> CM_LBS_OK then Some (-2, w1)
        else if pf = CM_LBS_PLAT_AMAP10 \<or> pf = CM_LBS_PLAT_AMAP20 then
          (case attr of
             None \<Rightarrow> cm_lbs_init_amap pf None w1
           | Some (Amap_attr a) \<Rightarrow> cm_lbs_init_amap pf (Some a) w1
           | Some (Oneospos_attr a) \<Rightarrow> None)
        else if pf = CM_LBS_PLAT_ONEOSPOS then
          (case attr of
             None \<Rightarrow> cm_lbs_init_oneospos pf None w1
           | Some (Oneospos_attr a) \<Rightarrow> cm_lbs_init_oneospos pf (Some a) w1
           | Some (Amap_attr a) \<Rightarrow> None)
        else Some (-1, w1))"

definition cm_lbs_location :: "cm_lbs_callback option \<Rightarrow> nat \<Rightarrow> lbs_world
    \<Rightarrow> (int \<times> lbs_world) option" where
  "cm_lbs_location f arg w =
     (if w_platform w = CM_LBS_PLAT_AMAP10 \<or> w_platform w = CM_LBS_PLAT_AMAP20
      then cm_lbs_location_amap f arg w
      else if w_platform w = CM_LBS_PLAT_ONEOSPOS then cm_lbs_location_oneospos f arg w
      else Some (-1, w))"

text \<open>Reading the attributes back is compiled out on this build.\<close>

definition cm_lbs_get_attr :: "platform_e \<Rightarrow> 'a \<Rightarrow> int" where
  "cm_lbs_get_attr pf attr = -1"

end
