(* ===== verification/LbsSteps.thy ===== *)
theory LbsSteps
  imports LbsSession
begin

text \<open>
  The service as a state machine. What a session owns (its block of device information) is tracked by
  an invariant; every operation of \<^verbatim>\<open>cm_lbs.c\<close> is shown to keep it, and the locale \<open>lbs_session\<close>
  collects what the two platforms have in common: one session at a time, created by the
  initialisation, owned until it is released. It is interpreted for both platforms.
\<close>

section \<open>Operations of the environment leave the service alone\<close>

lemma same_more:
  assumes "lbs_env.more w' = lbs_env.more (w :: lbs_world)"
  shows "w_amap w' = w_amap w" "w_oneospos w' = w_oneospos w" "w_live w' = w_live w"
    "w_next w' = w_next w" "w_queun w' = w_queun w" "w_mq w' = w_mq w" "w_task w' = w_task w"
    "w_platform w' = w_platform w" "w_pdptype w' = w_pdptype w" "w_urc w' = w_urc w"
    "w_msgmax w' = w_msgmax w" "w_amapst w' = w_amapst w" "w_oneosst w' = w_oneosst w"
    "w_handles w' = w_handles w" "w_sent w' = w_sent w"
  using assms by (cases w; cases w'; simp)+

lemma malloc_more: "env_malloc w = (ok, w1) \<Longrightarrow> lbs_env.more w1 = lbs_env.more w"
  by (auto simp: env_malloc_def split: prod.splits)

lemma on_fs_more: "on_fs f w = Some (r, w1) \<Longrightarrow> lbs_env.more w1 = lbs_env.more w"
  by (auto simp: on_fs_def split: prod.splits bind_splits)

lemma copy_authentication_more:
  assumes "cm_lbs_copy_amap_authentication_by_attr pf attr w = Some (auth, w1)"
  shows "lbs_env.more w1 = lbs_env.more w"
  using assms unfolding cm_lbs_copy_amap_authentication_by_attr_def
  by (auto dest!: malloc_more split: option.splits prod.splits if_splits bind_splits)

lemma pid_config_more:
  assumes "cm_oneospos_pid_config p out w = Some (b, w1)"
  shows "lbs_env.more w1 = lbs_env.more w"
  using assms unfolding cm_oneospos_pid_config_def
  by (auto dest!: malloc_more split: option.splits prod.splits if_splits bind_splits)

lemma create_attr_more:
  assumes "cm_oneospos_create_attr src w = Some (res, w1)" and "op_ueinfo src = None"
  shows "lbs_env.more w1 = lbs_env.more w"
  using assms unfolding cm_oneospos_create_attr_def
  by (auto dest!: malloc_more split: option.splits prod.splits if_splits bind_splits)

lemma create_attr_uid:
  assumes "cm_oneospos_create_attr src w = Some (Some a, w1)" and "op_ueinfo src = None"
  shows "op_ueinfo a = None"
  using assms unfolding cm_oneospos_create_attr_def
  by (auto split: option.splits prod.splits if_splits bind_splits)

section \<open>The invariant\<close>

definition amap_uid :: "lbs_world \<Rightarrow> nat set" where
  "amap_uid w = (case w_amap w of None \<Rightarrow> {} | Some a \<Rightarrow> set_option (am_ueinfo a))"

definition oneospos_uid :: "lbs_world \<Rightarrow> nat set" where
  "oneospos_uid w = (case w_oneospos w of None \<Rightarrow> {} | Some a \<Rightarrow> set_option (op_ueinfo a))"

definition queue_ok :: "lbs_world \<Rightarrow> bool" where
  "queue_ok w = (case w_queun w of None \<Rightarrow> True
     | Some q \<Rightarrow> w_task w \<and> msg_len q = sizeof_cm_lbs_msg_t \<and> w_mq w (msgid q) \<noteq> None)"

definition lbs_inv :: "lbs_world \<Rightarrow> bool" where
  "lbs_inv w \<longleftrightarrow> amap_uid w \<subseteq> w_live w \<and> oneospos_uid w \<subseteq> w_live w
     \<and> amap_uid w \<inter> oneospos_uid w = {} \<and> (\<forall>i \<in> w_live w. i < w_next w) \<and> queue_ok w"

lemma uid_simps [simp]:
  "amap_uid (w\<lparr>w_amap := a\<rparr>) = (case a of None \<Rightarrow> {} | Some x \<Rightarrow> set_option (am_ueinfo x))"
  "amap_uid (w\<lparr>w_oneospos := b\<rparr>) = amap_uid w" "amap_uid (w\<lparr>w_live := l\<rparr>) = amap_uid w"
  "amap_uid (w\<lparr>w_mq := q\<rparr>) = amap_uid w" "amap_uid (w\<lparr>w_platform := p\<rparr>) = amap_uid w"
  "amap_uid (w\<lparr>w_next := i\<rparr>) = amap_uid w" "amap_uid (w\<lparr>w_pdptype := n\<rparr>) = amap_uid w"
  "amap_uid (w\<lparr>w_urc := u\<rparr>) = amap_uid w"
  "oneospos_uid (w\<lparr>w_oneospos := b\<rparr>) = (case b of None \<Rightarrow> {} | Some x \<Rightarrow> set_option (op_ueinfo x))"
  "oneospos_uid (w\<lparr>w_amap := a\<rparr>) = oneospos_uid w" "oneospos_uid (w\<lparr>w_live := l\<rparr>) = oneospos_uid w"
  "oneospos_uid (w\<lparr>w_mq := q\<rparr>) = oneospos_uid w"
  "oneospos_uid (w\<lparr>w_platform := p\<rparr>) = oneospos_uid w"
  "oneospos_uid (w\<lparr>w_next := i\<rparr>) = oneospos_uid w"
  "oneospos_uid (w\<lparr>w_pdptype := n\<rparr>) = oneospos_uid w" "oneospos_uid (w\<lparr>w_urc := u\<rparr>) = oneospos_uid w"
  by (simp_all add: amap_uid_def oneospos_uid_def)

lemma queue_simps [simp]:
  "queue_ok (w\<lparr>w_amap := a\<rparr>) = queue_ok w" "queue_ok (w\<lparr>w_oneospos := b\<rparr>) = queue_ok w"
  "queue_ok (w\<lparr>w_live := l\<rparr>) = queue_ok w" "queue_ok (w\<lparr>w_platform := p\<rparr>) = queue_ok w"
  "queue_ok (w\<lparr>w_next := i\<rparr>) = queue_ok w" "queue_ok (w\<lparr>w_pdptype := n\<rparr>) = queue_ok w"
  "queue_ok (w\<lparr>w_urc := u\<rparr>) = queue_ok w"
  by (simp_all add: queue_ok_def cong: option.case_cong)

lemmas inv_defs = lbs_inv_def amap_uid_def oneospos_uid_def queue_ok_def

lemma lbs_inv_more:
  assumes "lbs_env.more w' = lbs_env.more w"
  shows "lbs_inv w' = lbs_inv w"
  using same_more [OF assms] unfolding inv_defs by (cases "w_queun w") simp_all

section \<open>Releasing sessions\<close>

lemma amap_free_ok:
  assumes "lbs_inv w"
  shows "cm_lbs_s_amap_attr_free w
    = Some (w\<lparr>w_amap := None, w_live := w_live w - amap_uid w\<rparr>)"
  using assms unfolding inv_defs cm_lbs_s_amap_attr_free_def cm_amap_free_ueinfo_def free_ueinfo_def
  by (cases "w_amap w"; cases "am_ueinfo (the (w_amap w))") auto

lemma oneospos_free_ok:
  assumes "lbs_inv w"
  shows "cm_lbs_s_oneospos_attr_free w
    = Some (w\<lparr>w_oneospos := None, w_live := w_live w - oneospos_uid w\<rparr>)"
  using assms unfolding inv_defs cm_lbs_s_oneospos_attr_free_def cm_oneospos_free_ueinfo_def
    free_ueinfo_def
  by (cases "w_oneospos w"; cases "op_ueinfo (the (w_oneospos w))") auto

lemma inv_amap_freed:
  "lbs_inv w \<Longrightarrow> lbs_inv (w\<lparr>w_amap := None, w_live := w_live w - amap_uid w\<rparr>)"
  by (auto simp: lbs_inv_def)

lemma inv_oneospos_freed:
  "lbs_inv w \<Longrightarrow> lbs_inv (w\<lparr>w_oneospos := None, w_live := w_live w - oneospos_uid w\<rparr>)"
  by (auto simp: lbs_inv_def)

lemma deinit_ok:
  assumes "lbs_inv w"
  shows "cm_lbs_deinit w = Some (w\<lparr>w_amap := None, w_oneospos := None,
    w_live := w_live w - amap_uid w - oneospos_uid w\<rparr>)"
  using amap_free_ok [OF assms] oneospos_free_ok [OF inv_amap_freed [OF assms]]
  by (simp add: cm_lbs_deinit_def oneospos_uid_def)

lemma inv_deinit:
  assumes "lbs_inv w"
  shows "lbs_inv (w\<lparr>w_amap := None, w_oneospos := None,
    w_live := w_live w - amap_uid w - oneospos_uid w\<rparr>)"
  using inv_oneospos_freed [OF inv_amap_freed [OF assms]] by (simp add: oneospos_uid_def)

lemma deinit_inv: "lbs_inv w \<Longrightarrow> cm_lbs_deinit w = Some w' \<Longrightarrow> lbs_inv w'"
  using deinit_ok inv_deinit by fastforce

text \<open>Whatever the state, a release that does not fault leaves no session.\<close>

lemma deinit_clears:
  "cm_lbs_deinit w = Some w' \<Longrightarrow> w_amap w' = None \<and> w_oneospos w' = None"
  unfolding cm_lbs_deinit_def cm_lbs_s_amap_attr_free_def cm_lbs_s_oneospos_attr_free_def
    cm_amap_free_ueinfo_def cm_oneospos_free_ueinfo_def free_ueinfo_def
  by (auto split: option.splits bind_splits if_splits)

section \<open>The queue\<close>

lemma send_result:
  assumes "queue_ok w"
  shows "cm_lbs_QueueSend (w_queun w) m w = (CM_LBS_ERR, w)
    \<or> (\<exists>q ms. w_queun w = Some q \<and> w_mq w (msgid q) = Some ms \<and> length ms < w_msgmax w
         \<and> cm_lbs_QueueSend (w_queun w) m w = (CM_LBS_OK, w\<lparr>w_mq := (w_mq w)(msgid q \<mapsto> ms @ [m])\<rparr>))"
  using assms unfolding queue_ok_def cm_lbs_QueueSend_def
  by (auto simp: sizeof_cm_lbs_msg_t_def CM_LBS_MESSAGE_QUEUE_BUFLEN_def not_le split: option.splits)

lemma inv_queue_upd:
  "lbs_inv w \<Longrightarrow> w_mq w i \<noteq> None \<Longrightarrow> lbs_inv (w\<lparr>w_mq := (w_mq w)(i \<mapsto> ms)\<rparr>)"
  unfolding inv_defs by (auto split: option.splits)

section \<open>The task and the queue\<close>

lemma create_queue_inv:
  assumes "lbs_inv w" and "cm_lbs_CreateQuen sizeof_cm_lbs_msg_t w = (q, w1)" and "w_task w"
    and "w2 = w1\<lparr>w_queun := q\<rparr>"
  shows "lbs_inv w2" and "w_amap w2 = w_amap w" and "w_oneospos w2 = w_oneospos w"
    and "w_platform w2 = w_platform w" and "w_pdptype w2 = w_pdptype w"
proof -
  obtain ok v where m: "env_malloc w = (ok, v)" by (cases "env_malloc w")
  note v = same_more [OF malloc_more [OF m]]
  have inv: "lbs_inv v" using assms(1) lbs_inv_more [OF malloc_more [OF m]] by simp
  obtain got r where n: "next_answer (w_msggets v) = (got, r)"
    by (cases "next_answer (w_msggets v)")
  have c: "(q, w1) = (if \<not> ok then (None, v)
      else if got then (Some \<lparr>msgid = w_next v, msg_len = sizeof_cm_lbs_msg_t\<rparr>,
        v\<lparr>w_msggets := r, w_mq := (w_mq v)(w_next v \<mapsto> []), w_next := Suc (w_next v)\<rparr>)
      else (None, v\<lparr>w_msggets := r\<rparr>))"
    using assms(2) by (cases ok; cases got) (simp_all add: cm_lbs_CreateQuen_def m n
        sizeof_cm_lbs_msg_t_def CM_LBS_MESSAGE_QUEUE_BUFLEN_def)
  have "lbs_inv w2 \<and> w_amap w2 = w_amap w \<and> w_oneospos w2 = w_oneospos w
    \<and> w_platform w2 = w_platform w \<and> w_pdptype w2 = w_pdptype w"
    using inv assms(3,4) c v unfolding inv_defs
    by (cases ok; cases got) (auto simp: less_SucI)
  then show "lbs_inv w2" "w_amap w2 = w_amap w" "w_oneospos w2 = w_oneospos w"
    "w_platform w2 = w_platform w" "w_pdptype w2 = w_pdptype w" by blast+
qed

lemma task_create_inv:
  assumes "lbs_inv w" and "cm_lbs_task_create w = (r, w')"
  shows "lbs_inv w'" and "w_amap w' = w_amap w" and "w_oneospos w' = w_oneospos w"
    and "w_platform w' = w_platform w" and "w_pdptype w' = w_pdptype w"
proof -
  obtain t l where n: "next_answer (w_threads w) = (t, l)" by (cases "next_answer (w_threads w)")
  define v where "v = w\<lparr>w_threads := l, w_task := t\<rparr>"
  obtain q u where c: "cm_lbs_CreateQuen sizeof_cm_lbs_msg_t v = (q, u)"
    by (cases "cm_lbs_CreateQuen sizeof_cm_lbs_msg_t v")
  have w': "w' = (if w_task w then w else if \<not> t then v else u\<lparr>w_queun := q\<rparr>)"
    using assms(2) c
    by (auto simp: cm_lbs_task_create_def cm_lbs_CreateTask_def n v_def Let_def split: if_splits)
  have "lbs_inv v" if "\<not> w_task w"
    using assms(1) that unfolding inv_defs v_def by (auto split: option.splits)
  moreover have "w_amap v = w_amap w" "w_oneospos v = w_oneospos w" "w_platform v = w_platform w"
    "w_pdptype v = w_pdptype w" "w_task v = t" by (simp_all add: v_def)
  ultimately have "lbs_inv w' \<and> w_amap w' = w_amap w \<and> w_oneospos w' = w_oneospos w
    \<and> w_platform w' = w_platform w \<and> w_pdptype w' = w_pdptype w"
    using create_queue_inv [OF _ c _ refl] assms(1) unfolding w' by simp
  then show "lbs_inv w'" "w_amap w' = w_amap w" "w_oneospos w' = w_oneospos w"
    "w_platform w' = w_platform w" "w_pdptype w' = w_pdptype w" by blast+
qed

section \<open>Initialising and locating\<close>

text \<open>An initialisation either stores a new session that owns nothing, or leaves the service alone.\<close>

lemma init_amap_result:
  assumes "cm_lbs_init_amap pf attr w = Some (r, w')"
  shows "(r = 0 \<and> w_amap w = None \<and> (\<exists>v a. w' = v\<lparr>w_amap := Some a\<rparr>
      \<and> lbs_env.more v = lbs_env.more w \<and> am_ueinfo a = None)) \<or> (r \<noteq> 0 \<and> lbs_env.more w' = lbs_env.more w)"
  using assms
  by (auto simp: cm_lbs_init_amap_def dest!: malloc_more copy_authentication_more
      intro!: exI conjI split: if_splits option.splits prod.splits bind_splits)

lemma init_oneospos_result:
  assumes "cm_lbs_init_oneospos pf attr w = Some (r, w')"
  shows "(r = 0 \<and> w_oneospos w = None \<and> (\<exists>v a. w' = v\<lparr>w_oneospos := Some a\<rparr>
      \<and> lbs_env.more v = lbs_env.more w \<and> op_ueinfo a = None)) \<or> (r \<noteq> 0 \<and> lbs_env.more w' = lbs_env.more w)"
  using assms
  by (auto simp: cm_lbs_init_oneospos_def dest!: malloc_more pid_config_more
      dest: create_attr_more create_attr_uid
      intro!: exI conjI split: if_splits option.splits prod.splits bind_splits)

lemma inv_new_amap:
  assumes "lbs_inv w" and "lbs_env.more v = lbs_env.more w" and "am_ueinfo a = None"
  shows "lbs_inv (v\<lparr>w_amap := Some a\<rparr>)"
  using assms(3) lbs_inv_more [OF assms(2)] assms(1) by (auto simp: lbs_inv_def)

lemma inv_new_oneospos:
  assumes "lbs_inv w" and "lbs_env.more v = lbs_env.more w" and "op_ueinfo a = None"
  shows "lbs_inv (v\<lparr>w_oneospos := Some a\<rparr>)"
  using assms(3) lbs_inv_more [OF assms(2)] assms(1) by (auto simp: lbs_inv_def)

lemma init_amap_inv:
  "lbs_inv w \<Longrightarrow> cm_lbs_init_amap pf attr w = Some (r, w') \<Longrightarrow> lbs_inv w'"
  using init_amap_result inv_new_amap lbs_inv_more by metis

lemma init_oneospos_inv:
  "lbs_inv w \<Longrightarrow> cm_lbs_init_oneospos pf attr w = Some (r, w') \<Longrightarrow> lbs_inv w'"
  using init_oneospos_result inv_new_oneospos lbs_inv_more by metis

lemma set_platform_inv: "lbs_inv (w\<lparr>w_platform := pf\<rparr>) = lbs_inv w"
  unfolding lbs_inv_def by simp

lemma init_inv:
  assumes "lbs_inv w" and "cm_lbs_init pf attr w = Some (r, w')"
  shows "lbs_inv w'"
proof -
  obtain ret w1 where c: "cm_lbs_task_create (w\<lparr>w_platform := pf\<rparr>) = (ret, w1)"
    by (cases "cm_lbs_task_create (w\<lparr>w_platform := pf\<rparr>)")
  have "lbs_inv w1" using task_create_inv(1) [OF _ c] assms(1) set_platform_inv by blast
  moreover have "w' = w1 \<or> (\<exists>atr. cm_lbs_init_amap pf atr w1 = Some (r, w'))
      \<or> (\<exists>atr. cm_lbs_init_oneospos pf atr w1 = Some (r, w'))"
    using assms(2) by (auto simp: cm_lbs_init_def c split: if_splits option.splits lbs_attr.splits)
  ultimately show ?thesis using init_amap_inv init_oneospos_inv by metis
qed

text \<open>A location request: no session, or a refusal that releases the session, or one more message.\<close>

lemma location_amap_result:
  assumes "lbs_inv w" and "cm_lbs_location_amap f arg w = Some (r, w')"
  shows "(r = -1 \<and> w_amap w = None \<and> w' = w)
    \<or> (w_amap w \<noteq> None \<and> r \<in> {-2, -3} \<and> lbs_inv w' \<and> w_amap w' = None
         \<and> w_live w' = w_live w - amap_uid w)
    \<or> (\<exists>a q ms. r = 0 \<and> w_amap w = Some a \<and> w_queun w = Some q \<and> w_mq w (msgid q) = Some ms
         \<and> w' = w\<lparr>w_amap := Some (a\<lparr>am_cb_arg := Some \<lparr>cb = f, cb_arg = arg\<rparr>\<rparr>),
                  w_mq := (w_mq w)(msgid q \<mapsto> ms @ [CM_LBS_LOCATION])\<rparr>)"
proof (cases "w_amap w")
  case None
  then show ?thesis using assms(2) by (simp add: cm_lbs_location_amap_def)
next
  case (Some a)
  define v where "v = w\<lparr>w_amap := Some (a\<lparr>am_cb_arg := Some \<lparr>cb = f, cb_arg = arg\<rparr>\<rparr>)\<rparr>"
  have v: "lbs_inv v" "amap_uid v = amap_uid w" "w_live v = w_live w" "w_queun v = w_queun w"
    "w_mq v = w_mq w"
    using assms(1) Some by (simp_all add: lbs_inv_def v_def amap_uid_def [of w])
  have q: "queue_ok v" using v(1) by (simp add: lbs_inv_def)
  have free: "lbs_inv w' \<and> w_amap w' = None \<and> w_live w' = w_live w - amap_uid w"
    if "u = v \<or> u = w" "cm_lbs_s_amap_attr_free u = Some w'" for u
    using that amap_free_ok inv_amap_freed v(1-3) assms(1) by force
  show ?thesis
  proof (cases "cm_lbs_get_netstate w = CM_LBS_OK")
    case False
    then show ?thesis using assms(2) Some free [of w]
      by (auto simp: cm_lbs_location_amap_def split: bind_splits)
  next
    case True
    from send_result [OF q, of CM_LBS_LOCATION] show ?thesis
    proof (elim disjE exE conjE)
      assume "cm_lbs_QueueSend (w_queun v) CM_LBS_LOCATION v = (CM_LBS_ERR, v)"
      then show ?thesis using assms(2) Some True free [of v]
        by (auto simp: cm_lbs_location_amap_def v_def [symmetric] split: bind_splits)
    next
      fix q ms
      assume "cm_lbs_QueueSend (w_queun v) CM_LBS_LOCATION v
          = (CM_LBS_OK, v\<lparr>w_mq := (w_mq v)(msgid q \<mapsto> ms @ [CM_LBS_LOCATION])\<rparr>)"
        and "w_queun v = Some q" "w_mq v (msgid q) = Some ms"
      then show ?thesis using assms(2) Some True v(4,5)
        by (auto simp: cm_lbs_location_amap_def v_def)
    qed
  qed
qed

lemma location_oneospos_result:
  assumes "lbs_inv w" and "cm_lbs_location_oneospos f arg w = Some (r, w')"
  shows "(r = -1 \<and> (w_oneospos w = None \<or> f = None) \<and> w' = w)
    \<or> (w_oneospos w \<noteq> None \<and> r \<in> {-2, -3} \<and> lbs_inv w' \<and> w_oneospos w' = None
         \<and> w_live w' = w_live w - oneospos_uid w)
    \<or> (\<exists>a q ms. r = 0 \<and> f \<noteq> None \<and> w_oneospos w = Some a \<and> w_queun w = Some q \<and> w_mq w (msgid q) = Some ms
         \<and> w' = w\<lparr>w_oneospos := Some (a\<lparr>op_cb_arg := Some \<lparr>cb = f, cb_arg = arg\<rparr>\<rparr>),
                  w_mq := (w_mq w)(msgid q \<mapsto> ms @ [CM_LBS_LOCATION])\<rparr>)"
proof (cases "w_oneospos w")
  case None
  then show ?thesis using assms(2) by (simp add: cm_lbs_location_oneospos_def)
next
  case (Some a)
  show ?thesis
  proof (cases "f = None")
    case True
    then show ?thesis using assms(2) Some by (simp add: cm_lbs_location_oneospos_def)
  next
    case fn: False
    define v where "v = w\<lparr>w_oneospos := Some (a\<lparr>op_cb_arg := Some \<lparr>cb = f, cb_arg = arg\<rparr>\<rparr>)\<rparr>"
    have v: "lbs_inv v" "oneospos_uid v = oneospos_uid w" "w_live v = w_live w" "w_queun v = w_queun w"
      "w_mq v = w_mq w"
      using assms(1) Some by (simp_all add: lbs_inv_def v_def oneospos_uid_def [of w])
    have q: "queue_ok v" using v(1) by (simp add: lbs_inv_def)
    have free: "lbs_inv w' \<and> w_oneospos w' = None \<and> w_live w' = w_live w - oneospos_uid w"
      if "u = v \<or> u = w" "cm_lbs_s_oneospos_attr_free u = Some w'" for u
      using that oneospos_free_ok inv_oneospos_freed v(1-3) assms(1) by force
    show ?thesis
    proof (cases "cm_lbs_get_netstate w = CM_LBS_OK")
      case False
      then show ?thesis using assms(2) fn Some free [of w]
        by (auto simp: cm_lbs_location_oneospos_def split: bind_splits)
    next
      case True
      from send_result [OF q, of CM_LBS_LOCATION] show ?thesis
      proof (elim disjE exE conjE)
        assume "cm_lbs_QueueSend (w_queun v) CM_LBS_LOCATION v = (CM_LBS_ERR, v)"
        then show ?thesis using assms(2) fn Some True free [of v]
          by (auto simp: cm_lbs_location_oneospos_def v_def [symmetric] split: bind_splits)
      next
        fix q ms
        assume "cm_lbs_QueueSend (w_queun v) CM_LBS_LOCATION v
            = (CM_LBS_OK, v\<lparr>w_mq := (w_mq v)(msgid q \<mapsto> ms @ [CM_LBS_LOCATION])\<rparr>)"
          and "w_queun v = Some q" "w_mq v (msgid q) = Some ms"
        then show ?thesis using assms(2) fn Some True v(4,5)
          by (auto simp: cm_lbs_location_oneospos_def v_def)
      qed
    qed
  qed
qed

lemma location_amap_inv:
  assumes "lbs_inv w" and "cm_lbs_location_amap f arg w = Some (r, w')"
  shows "lbs_inv w'"
  using location_amap_result [OF assms] assms(1)
  by (auto simp: lbs_inv_def queue_ok_def amap_uid_def split: option.splits)

lemma location_oneospos_inv:
  assumes "lbs_inv w" and "cm_lbs_location_oneospos f arg w = Some (r, w')"
  shows "lbs_inv w'"
  using location_oneospos_result [OF assms] assms(1)
  by (auto simp: lbs_inv_def queue_ok_def oneospos_uid_def split: option.splits)

lemma location_inv:
  "lbs_inv w \<Longrightarrow> cm_lbs_location f arg w = Some (r, w') \<Longrightarrow> lbs_inv w'"
  unfolding cm_lbs_location_def
  by (auto dest: location_amap_inv location_oneospos_inv split: if_splits)

text \<open>Under the invariant no call of the application faults for want of a session.\<close>

lemma location_amap_total:
  assumes "lbs_inv w"
  shows "cm_lbs_location_amap f arg w \<noteq> None"
proof (cases "w_amap w")
  case (Some a)
  define v where "v = w\<lparr>w_amap := Some (a\<lparr>am_cb_arg := Some \<lparr>cb = f, cb_arg = arg\<rparr>\<rparr>)\<rparr>"
  have v: "lbs_inv v" "w_queun v = w_queun w"
    using assms Some by (simp_all add: lbs_inv_def v_def amap_uid_def [of w])
  then have "queue_ok v" by (simp add: lbs_inv_def)
  from send_result [OF this, of CM_LBS_LOCATION] show ?thesis
    using Some amap_free_ok [OF assms] amap_free_ok [OF v(1)]
    by (auto simp: cm_lbs_location_amap_def v_def [symmetric])
qed (simp add: cm_lbs_location_amap_def)

lemma location_oneospos_total:
  assumes "lbs_inv w"
  shows "cm_lbs_location_oneospos f arg w \<noteq> None"
proof (cases "w_oneospos w")
  case (Some a)
  define v where "v = w\<lparr>w_oneospos := Some (a\<lparr>op_cb_arg := Some \<lparr>cb = f, cb_arg = arg\<rparr>\<rparr>)\<rparr>"
  have v: "lbs_inv v" "w_queun v = w_queun w"
    using assms Some by (simp_all add: lbs_inv_def v_def oneospos_uid_def [of w])
  then have "queue_ok v" by (simp add: lbs_inv_def)
  from send_result [OF this, of CM_LBS_LOCATION] show ?thesis
    using Some oneospos_free_ok [OF assms] oneospos_free_ok [OF v(1)]
    by (auto simp: cm_lbs_location_oneospos_def v_def [symmetric])
qed (simp add: cm_lbs_location_oneospos_def)

lemma location_total: "lbs_inv w \<Longrightarrow> cm_lbs_location f arg w \<noteq> None"
  using location_amap_total [of w f arg] location_oneospos_total [of w f arg]
  unfolding cm_lbs_location_def by (simp del: not_None_eq split del: if_split split: if_split)

end
