(* ===== verification/LbsLoc.thy ===== *)
theory LbsLoc
  imports LbsSession
begin

text \<open>
  The location commands of the AT layer (\<open>AT+MLBSLOC\<close>, \<open>AT+MLBS\<close>) and the reports they end with, from
  \<^verbatim>\<open>cm_lbs/cm_lbs/src/cm_lbs_api.c\<close>. The texts handed to the platform's report function are collected
  in \<open>w_urc\<close> (the function itself is compiled out on this platform). The conversion of coordinates
  (\<open>atof\<close>, \<open>Wgs84ToGcj02\<close>, \<open>gcvt\<close>) works on floating-point numbers and is the parameter \<open>gcj\<close>, which
  maps a latitude and a longitude to the converted texts.
\<close>

section \<open>Reports\<close>

datatype cm_lbs_atcmd_statecode_e =
    LBS_ATCMD_STATE_SUCCED | LBS_ATCMD_STATE_TIMEOUT | LBS_ATCMD_STATE_KEYERR
  | LBS_ATCMD_STATE_PARAERR | LBS_ATCMD_STATE_OVERDAYQUTA | LBS_ATCMD_STATE_OVERQPS
  | LBS_ATCMD_STATE_OVERQUTA | LBS_ATCMD_STATE_UNKNOWNERR

definition statecode :: "cm_lbs_atcmd_statecode_e \<Rightarrow> int" where
  "statecode s =
     (case s of
        LBS_ATCMD_STATE_SUCCED \<Rightarrow> 100
      | LBS_ATCMD_STATE_TIMEOUT \<Rightarrow> 120
      | LBS_ATCMD_STATE_KEYERR \<Rightarrow> 121
      | LBS_ATCMD_STATE_PARAERR \<Rightarrow> 122
      | LBS_ATCMD_STATE_OVERDAYQUTA \<Rightarrow> 123
      | LBS_ATCMD_STATE_OVERQPS \<Rightarrow> 124
      | LBS_ATCMD_STATE_OVERQUTA \<Rightarrow> 125
      | LBS_ATCMD_STATE_UNKNOWNERR \<Rightarrow> 126)"

definition CM_LBS_ATCMD_URCLEN_MAX :: nat where "CM_LBS_ATCMD_URCLEN_MAX = 2048"

definition CM_LBS_ATCMD_URCDESCRLEN_MAX :: nat where "CM_LBS_ATCMD_URCDESCRLEN_MAX = 2048 - 512"

lemmas urc_len_defs = CM_LBS_ATCMD_URCLEN_MAX_def CM_LBS_ATCMD_URCDESCRLEN_MAX_def

definition cm_lbs_urc_rsp :: "string \<Rightarrow> lbs_world \<Rightarrow> lbs_world" where
  "cm_lbs_urc_rsp urc_buf w = w\<lparr>w_urc := w_urc w @ [urc_buf]\<rparr>"

definition mlbsloc_head :: "cm_lbs_atcmd_statecode_e \<Rightarrow> string" where
  "mlbsloc_head s = CRLF @ ''+MLBSLOC: '' @ dec_int (statecode s)"

text \<open>The adjusted text of a coordinate, through an array of 16 bytes.\<close>

definition decimals :: "string option \<Rightarrow> u32 \<Rightarrow> string option" where
  "decimals src precision = do {
     a \<leftarrow> cm_lbs_atcmd_string_assign_decimal src (replicate 16 NUL) (sint precision);
     c_str a }"

text \<open>\<open>__cm_lbs_atcmd_amap_location_urc_rsp\<close>: a null result, a null radius or a null description that is
  asked for are faults.\<close>

definition cm_lbs_atcmd_amap_location_urc_rsp :: "cm_lbs_location_rsp_t option \<Rightarrow> platform_e \<Rightarrow> bytes
    \<Rightarrow> lbs_world \<Rightarrow> ((cm_lbs_state_e \<times> bytes) \<times> lbs_world) option" where
  "cm_lbs_atcmd_amap_location_urc_rsp location pf at_urcbuf w =
     (case env_malloc w of (ok, w1) \<Rightarrow>
        if \<not> ok then Some ((CM_LBS_ERR, at_urcbuf), w1)
        else do {
          ((ret, cfg), w2) \<leftarrow> on_fs (cm_lbs_atcmd_read_amapcfg pf (Some zero_amap)) w1;
          c \<leftarrow> cfg;
          let attr = (if ret \<noteq> CM_LBS_OK
               then c\<lparr>a_descr_mode := CM_LBS_DESCR_MODE_DEFAULT, a_precision := CM_LBS_PRECISION_DEFAULT\<rparr>
               else c);
          loc \<leftarrow> location;
          latitude \<leftarrow> decimals (l_latitude loc) (a_precision attr);
          longitude \<leftarrow> decimals (l_longitude loc) (a_precision attr);
          radius \<leftarrow> l_radius loc;
          b \<leftarrow> arr_puts (mlbsloc_head LBS_ATCMD_STATE_SUCCED @ '','' @ longitude @ '','' @ latitude
                 @ '','' @ radius) at_urcbuf;
          (if a_descr_mode attr = 0 then Some ((CM_LBS_OK, b), w2)
           else do {
             descr \<leftarrow> l_location_describe loc;
             (if length descr > CM_LBS_ATCMD_URCDESCRLEN_MAX - 2 then Some ((CM_LBS_ERR, b), w2)
              else (case env_malloc w2 of (ok2, w3) \<Rightarrow>
                if \<not> ok2 then Some ((CM_LBS_ERR, b), w3)
                else do {
                  d \<leftarrow> arr_puts ('','' @ quoted descr) (replicate CM_LBS_ATCMD_URCDESCRLEN_MAX NUL);
                  location_desrc \<leftarrow> c_str d;
                  b2 \<leftarrow> arr_cat location_desrc b;
                  Some ((CM_LBS_OK, b2), w3) })) }) })"

definition cm_lbs_atcmd_oneospos_location_urc_rsp :: "(string \<Rightarrow> string \<Rightarrow> string \<times> string)
    \<Rightarrow> cm_lbs_location_rsp_t option \<Rightarrow> platform_e \<Rightarrow> bytes
    \<Rightarrow> lbs_world \<Rightarrow> ((cm_lbs_state_e \<times> bytes) \<times> lbs_world) option" where
  "cm_lbs_atcmd_oneospos_location_urc_rsp gcj location pf at_urcbuf w = do {
     ((ret, cfg), w1) \<leftarrow> on_fs (cm_lbs_atcmd_Read_oneosposcfg pf (Some zero_oneospos)) w;
     c \<leftarrow> cfg;
     let attr = (if ret \<noteq> CM_LBS_OK
          then c\<lparr>o_precision := CM_LBS_PRECISION_DEFAULT, o_coordinate_enable := CM_LBS_ONEOS_COORDINATE\<rparr>
          else c);
     loc \<leftarrow> location;
     let (s_latitude, s_longitude) =
       (case (l_latitude loc, l_longitude loc) of
          (Some la, Some lon) \<Rightarrow> if length la < 24 \<and> length lon < 24 then (la, lon) else ([], [])
        | _ \<Rightarrow> ([], []));
     (s_lat, s_lon) \<leftarrow>
       (if o_coordinate_enable attr = 1 then (case gcj s_latitude s_longitude of (la, lon) \<Rightarrow> do {
          la' \<leftarrow> fits 24 la; lon' \<leftarrow> fits 24 lon; Some (la', lon') })
        else Some (s_latitude, s_longitude));
     latitude \<leftarrow> decimals (Some s_lat) (o_precision attr);
     longitude \<leftarrow> decimals (Some s_lon) (o_precision attr);
     b \<leftarrow> arr_puts (mlbsloc_head LBS_ATCMD_STATE_SUCCED @ '','' @ longitude @ '','' @ latitude) at_urcbuf;
     Some ((CM_LBS_OK, b), w1) }"

text \<open>\<open>cm_lbs_atcmd_location_urc_rsp\<close>: the buffer is cleared even when it could not be allocated, a
  fault.\<close>

definition cm_lbs_atcmd_location_urc_rsp :: "(string \<Rightarrow> string \<Rightarrow> string \<times> string)
    \<Rightarrow> cm_lbs_atcmd_statecode_e \<Rightarrow> cm_lbs_location_rsp_t option \<Rightarrow> lbs_world \<Rightarrow> lbs_world option" where
  "cm_lbs_atcmd_location_urc_rsp gcj cmd_event location w =
     (case env_malloc w of (ok, w1) \<Rightarrow>
        if \<not> ok then None
        else do {
          let at_urcbuf = replicate CM_LBS_ATCMD_URCLEN_MAX NUL;
          ((ret, buf), w2) \<leftarrow>
            (if cmd_event = LBS_ATCMD_STATE_SUCCED then do {
               (pf, w2) \<leftarrow> on_fs cm_lbs_atcmd_getplatform w1;
               (if CM_LBS_PLAT_ONEOSPOS = pf
                then cm_lbs_atcmd_oneospos_location_urc_rsp gcj location pf at_urcbuf w2
                else cm_lbs_atcmd_amap_location_urc_rsp location pf at_urcbuf w2) }
             else do {
               b \<leftarrow> arr_puts (mlbsloc_head cmd_event) at_urcbuf;
               Some ((CM_LBS_OK, b), w1) });
          (if ret = CM_LBS_OK then do {
             t \<leftarrow> c_str buf;
             Some (cm_lbs_urc_rsp t w2) }
           else do {
             t \<leftarrow> fits 64 (mlbsloc_head LBS_ATCMD_STATE_UNKNOWNERR @ CRLF);
             Some (cm_lbs_urc_rsp t w2) }) })"

section \<open>The callbacks\<close>

definition atcmd_state :: "cm_lbs_callback_event_e \<Rightarrow> cm_lbs_atcmd_statecode_e" where
  "atcmd_state ev =
     (case ev of
        CM_LBS_LOCATION_OK \<Rightarrow> LBS_ATCMD_STATE_SUCCED
      | CM_LBS_NET_ERR \<Rightarrow> LBS_ATCMD_STATE_UNKNOWNERR
      | CM_LBS_TIMEOUT \<Rightarrow> LBS_ATCMD_STATE_TIMEOUT
      | CM_LBS_KEY_ERR \<Rightarrow> LBS_ATCMD_STATE_KEYERR
      | CM_LBS_PARAM_INVALID \<Rightarrow> LBS_ATCMD_STATE_PARAERR
      | CM_LBS_OVER_DAYQUTA \<Rightarrow> LBS_ATCMD_STATE_OVERDAYQUTA
      | CM_LBS_OVER_QUOTA \<Rightarrow> LBS_ATCMD_STATE_OVERQUTA
      | CM_LBS_OVER_QPS \<Rightarrow> LBS_ATCMD_STATE_OVERQPS
      | CM_LBS_UNKNOW_ERR \<Rightarrow> LBS_ATCMD_STATE_UNKNOWNERR)"

definition cm_lbs_atcmd_callback :: "(string \<Rightarrow> string \<Rightarrow> string \<times> string)
    \<Rightarrow> cm_lbs_callback_event_e \<Rightarrow> cm_lbs_location_rsp_t option \<Rightarrow> lbs_world \<Rightarrow> lbs_world option" where
  "cm_lbs_atcmd_callback gcj event location w = do {
     w1 \<leftarrow> cm_lbs_atcmd_location_urc_rsp gcj (atcmd_state event) location w;
     cm_lbs_deinit w1 }"

definition cm_lbs_atcmd_at_mlbs_callback :: "cm_lbs_callback_event_e
    \<Rightarrow> cm_lbs_location_rsp_t option \<Rightarrow> lbs_world \<Rightarrow> lbs_world option" where
  "cm_lbs_atcmd_at_mlbs_callback event location w = do {
     b1 \<leftarrow> arr_cat (CRLF @ ''+MLBS :'') (replicate 64 NUL);
     b2 \<leftarrow> (if event = CM_LBS_LOCATION_OK then do {
         loc \<leftarrow> location;
         lon \<leftarrow> l_longitude loc;
         lat \<leftarrow> l_latitude loc;
         location_ll \<leftarrow> fits 32 (''0,'' @ lon @ '','' @ lat);
         arr_cat location_ll b1 }
       else arr_cat ''1'' b1);
     b3 \<leftarrow> arr_cat CRLF b2;
     t \<leftarrow> c_str b3;
     cm_lbs_deinit (cm_lbs_urc_rsp t w) }"

text \<open>The call through a callback pointer.\<close>

definition dispatch_cb :: "(string \<Rightarrow> string \<Rightarrow> string \<times> string) \<Rightarrow> user_cb" where
  "dispatch_cb gcj f event location arg w =
     (case f of
        ATCMD_CALLBACK \<Rightarrow> cm_lbs_atcmd_callback gcj event location w
      | AT_MLBS_CALLBACK \<Rightarrow> cm_lbs_atcmd_at_mlbs_callback event location w)"

section \<open>AT+MLBSLOC\<close>

definition CM_LBS_LOATION_TIMEOUT :: u32 where "CM_LBS_LOATION_TIMEOUT = 10"

definition amap_attr_of :: "cm_lbs_atcmd_amap_config_t \<Rightarrow> cm_lbs_amap_location_attr_t" where
  "amap_attr_of c = \<lparr>at_api_key = Some (apikey c), at_time_out = CM_LBS_LOATION_TIMEOUT,
     at_digital_sign_enable = signal_enable c, at_digital_key = Some (signature_key c),
     at_show_fields_enable = a_descr_mode c, at_nearbts_enable = a_nearbts_enable c\<rparr>"

text \<open>What the commands make of the results of \<open>cm_lbs_init\<close> and \<open>cm_lbs_location\<close>.\<close>

definition start_location :: "(int \<times> lbs_world) option \<Rightarrow> cm_lbs_callback \<Rightarrow> nat
    \<Rightarrow> (cm_lbs_atcmd_errcode_e \<times> lbs_world) option" where
  "start_location init f arg = do {
     (init_ret, w1) \<leftarrow> init;
     (if init_ret \<noteq> 0
      then Some (if init_ret = -2 then LBS_ATCMD_BUSY else LBS_ATCMD_UNKNOWERR, w1)
      else do {
        (res, w2) \<leftarrow> cm_lbs_location (Some f) arg w1;
        Some (if res = 0 then LBS_ATCMD_SUCCESS
              else if res = -3 then LBS_ATCMD_BUSY else LBS_ATCMD_UNKNOWERR, w2) }) }"

definition cm_lbs_atcmd_amap_mlbsloc :: "nat \<Rightarrow> lbs_world
    \<Rightarrow> (cm_lbs_atcmd_errcode_e \<times> lbs_world) option" where
  "cm_lbs_atcmd_amap_mlbsloc arg w = do {
     (pf, w1) \<leftarrow> on_fs cm_lbs_atcmd_getplatform w;
     (case env_malloc w1 of (ok, w2) \<Rightarrow>
        if \<not> ok then Some (LBS_ATCMD_UNKNOWERR, w2)
        else if cm_lbs_get_netstate w2 \<noteq> CM_LBS_OK then Some (LBS_ATCMD_NETERR, w2)
        else do {
          ((res, cfg), w3) \<leftarrow> on_fs (cm_lbs_atcmd_read_amapcfg pf (Some zero_amap)) w2;
          c \<leftarrow> cfg;
          k \<leftarrow> c_str (apikey c);
          ((nvres, c1), w4) \<leftarrow>
            (if length k < 1 \<or> k = ''0'' then cm_lbs_atcmd_amap_setnv_config pf c w3
             else Some ((CM_LBS_OK, c), w3));
          (if nvres \<noteq> CM_LBS_OK then Some (LBS_ATCMD_APIKEYNULL, w4)
           else
             (let c2 = (if res \<noteq> CM_LBS_OK
                then c1\<lparr>a_descr_mode := CM_LBS_DESCR_MODE_DEFAULT, a_precision := CM_LBS_PRECISION_DEFAULT,
                  a_nearbts_enable := CM_LBS_NEARBTS_ENABLE\<rparr> else c1)
              in start_location (cm_lbs_init pf (Some (Amap_attr (amap_attr_of c2))) w4)
                   ATCMD_CALLBACK arg)) }) }"

text \<open>The built-in product id over a cleared array.\<close>

definition internal_pid :: "cm_lbs_atcmd_oneospos_config_t \<Rightarrow> cm_lbs_atcmd_oneospos_config_t option" where
  "internal_pid c = do {
     p \<leftarrow> arr_fill CM_LBS_ONEOSPOS_PID_LEN CM_LBS_ONEOSPOS_INTERNAL_PID;
     Some (c\<lparr>o_pid := p\<rparr>) }"

text \<open>A failed allocation is reported with a code of another enumeration.\<close>

definition cm_lbs_atcmd_oneospos_mlbsloc :: "nat \<Rightarrow> lbs_world
    \<Rightarrow> (cm_lbs_atcmd_errcode_e \<times> lbs_world) option" where
  "cm_lbs_atcmd_oneospos_mlbsloc arg w =
     (case env_malloc w of (ok, w1) \<Rightarrow>
        if \<not> ok then Some (LBS_ATCMD_FOREIGN CM_LBS_MEMROYERR, w1)
        else if cm_lbs_get_netstate w1 \<noteq> CM_LBS_OK then Some (LBS_ATCMD_NETERR, w1)
        else do {
          ((res, cfg), w2) \<leftarrow>
            on_fs (cm_lbs_atcmd_Read_oneosposcfg CM_LBS_PLAT_ONEOSPOS (Some zero_oneospos)) w1;
          c \<leftarrow> cfg;
          (c1, w3) \<leftarrow> (if res \<noteq> CM_LBS_OK then do {
              ((nvres, c'), w3) \<leftarrow> cm_lbs_atcmd_oneospos_setnv_config
                (c\<lparr>o_precision := CM_LBS_PRECISION_DEFAULT, o_nearbts_enable := CM_LBS_NEARBTS_ENABLE,
                   o_coordinate_enable := CM_LBS_ONEOS_COORDINATE\<rparr>) w2;
              (if nvres \<noteq> CM_LBS_OK then do { d \<leftarrow> internal_pid c'; Some (d, w3) }
               else Some (c', w3)) }
            else Some (c, w2));
          p \<leftarrow> c_str (o_pid c1);
          (c2, w4) \<leftarrow> (if length p < 1 \<or> p = ''0'' then do {
              ((nvres, c'), w4) \<leftarrow> cm_lbs_atcmd_oneospos_setnv_config c1 w3;
              (if nvres \<noteq> CM_LBS_OK then do { d \<leftarrow> internal_pid c'; Some (d, w4) }
               else Some (c', w4)) }
            else Some (c1, w3));
          start_location
            (cm_lbs_init CM_LBS_PLAT_ONEOSPOS (Some (Oneospos_attr \<lparr>oa_pid = Some (o_pid c2),
               oa_time_out = 20, oa_nearbts_enable = o_nearbts_enable c2\<rparr>)) w4)
            ATCMD_CALLBACK arg })"

definition cm_lbs_atcmd_MLBSLOC :: "nat \<Rightarrow> lbs_world
    \<Rightarrow> (cm_lbs_atcmd_errcode_e \<times> lbs_world) option" where
  "cm_lbs_atcmd_MLBSLOC arg w = do {
     (pf, w1) \<leftarrow> on_fs cm_lbs_atcmd_getplatform w;
     (if CM_LBS_PLAT_ONEOSPOS = pf then cm_lbs_atcmd_oneospos_mlbsloc arg w1
      else cm_lbs_atcmd_amap_mlbsloc arg w1) }"

section \<open>AT+MLBS\<close>

text \<open>The result of \<open>cm_lbs_location\<close> is compared with codes of other enumerations, -2 with busy, -3
  with a parameter error and -1 with a network error.\<close>

definition cm_lbs_atcmd_MLBS :: "nat \<Rightarrow> lbs_world
    \<Rightarrow> (cm_lbs_atcmd_errcode_e \<times> lbs_world) option" where
  "cm_lbs_atcmd_MLBS arg w = do {
     (pf, w1) \<leftarrow> on_fs cm_lbs_atcmd_getplatform w;
     (case env_malloc w1 of (ok, w2) \<Rightarrow>
        if \<not> ok then Some (LBS_ATCMD_UNKNOWERR, w2)
        else do {
          ((res, cfg), w3) \<leftarrow> on_fs (cm_lbs_atcmd_read_amapcfg pf (Some zero_amap)) w2;
          c \<leftarrow> cfg;
          nokey \<leftarrow> (if res \<noteq> CM_LBS_OK then Some True
            else do { k \<leftarrow> c_str (apikey c); Some (length k < 1) });
          (if nokey then Some (LBS_ATCMD_APIKEYNULL, w3)
           else do {
             (init_ret, w4) \<leftarrow> cm_lbs_init pf (Some (if pf = CM_LBS_PLAT_ONEOSPOS
                 then Oneospos_attr \<lparr>oa_pid = Some (apikey c), oa_time_out = CM_LBS_LOATION_TIMEOUT,
                   oa_nearbts_enable = signal_enable c\<rparr>
                 else Amap_attr (amap_attr_of c))) w3;
             (if init_ret \<noteq> 0 then Some (LBS_ATCMD_UNKNOWERR, w4)
              else do {
                (res, w5) \<leftarrow> cm_lbs_location (Some AT_MLBS_CALLBACK) arg w4;
                Some (if res = 0 then LBS_ATCMD_SUCCESS
                      else if res = -2 then LBS_ATCMD_BUSY
                      else if res = -3 then LBS_ATCMD_PARAERR
                      else if res = -1 then LBS_ATCMD_NETERR
                      else LBS_ATCMD_UNKNOWERR, w5) }) }) }) }"

end
