(* ===== verification/LbsReach.thy ===== *)
theory LbsReach
  imports LbsSteps LbsLoc
begin

text \<open>
  The contract of a session and the service as a whole: the locale \<open>lbs_session\<close> with its two
  interpretations, the callbacks of the AT layer, and the states that calls of the application,
  turns of the task and changes of the network can reach.
\<close>

section \<open>One session at a time\<close>

locale lbs_session =
  fixes slot :: "'w \<Rightarrow> 's option"
    and init :: "'a option \<Rightarrow> 'w \<Rightarrow> (int \<times> 'w) option"
    and loc :: "cm_lbs_callback option \<Rightarrow> nat \<Rightarrow> 'w \<Rightarrow> (int \<times> 'w) option"
    and release :: "'w \<Rightarrow> 'w option"
    and inv :: "'w \<Rightarrow> bool"
    and owned :: "'w \<Rightarrow> nat set"
    and live :: "'w \<Rightarrow> nat set"
  assumes init_busy: "slot w \<noteq> None \<Longrightarrow> init (Some a) w = Some (-2, w)"
    and init_null: "slot w = None \<Longrightarrow> init None w = Some (-1, w)"
    and init_law: "inv w \<Longrightarrow> init atr w = Some (r, w') \<Longrightarrow>
      inv w' \<and> (if r = 0 then slot w = None \<and> slot w' \<noteq> None else slot w' = slot w)"
    and loc_law: "inv w \<Longrightarrow> \<exists>r w'. loc f arg w = Some (r, w') \<and> inv w' \<and> r \<in> {0, -1, -2, -3}
      \<and> (slot w = None \<longrightarrow> r = -1) \<and> (r = -1 \<longrightarrow> w' = w) \<and> (r = 0 \<longrightarrow> slot w' \<noteq> None)
      \<and> (r = -2 \<or> r = -3 \<longrightarrow> slot w' = None \<and> live w' = live w - owned w)"
    and release_law: "inv w \<Longrightarrow> \<exists>w'. release w = Some w' \<and> inv w' \<and> slot w' = None
      \<and> live w' = live w - owned w"
begin

lemma init_opens: "inv w \<Longrightarrow> init atr w = Some (0, w1) \<Longrightarrow> slot w1 \<noteq> None"
  using init_law [of w atr 0 w1] by simp

lemma init_keeps: "inv w \<Longrightarrow> init atr w = Some (r, w1) \<Longrightarrow> slot w \<noteq> None \<Longrightarrow> slot w1 \<noteq> None"
  using init_law [of w atr r w1] by (auto split: if_splits)

lemma request_keeps:
  assumes "inv w" and "loc f arg w = Some (r, w1)" and "slot w \<noteq> None" and "r \<noteq> -2" "r \<noteq> -3"
  shows "slot w1 \<noteq> None"
  using loc_law [OF assms(1), of f arg] assms(2-) by auto

lemma refused_request_releases:
  assumes "inv w" and "slot w \<noteq> None" and "loc f arg w = Some (r, w1)" and "r = -2 \<or> r = -3"
  shows "inv w1" and "slot w1 = None" and "live w1 = live w - owned w" and "loc g arg' w1 = Some (-1, w1)"
proof -
  show 1: "inv w1" and 2: "slot w1 = None" and "live w1 = live w - owned w"
    using loc_law [OF assms(1), of f arg] assms(3,4) by auto
  show "loc g arg' w1 = Some (-1, w1)" using loc_law [OF 1, of g arg'] 2 by auto
qed

lemma released_then_request:
  assumes "inv w" and "release w = Some w1"
  shows "inv w1" and "slot w1 = None" and "loc f arg w1 = Some (-1, w1)"
proof -
  show 1: "inv w1" and 2: "slot w1 = None" using release_law [OF assms(1)] assms(2) by auto
  show "loc f arg w1 = Some (-1, w1)" using loc_law [OF 1, of f arg] 2 by auto
qed

text \<open>An initialisation that succeeds after another one has a release or a refused request between
  them: the number of sessions that were started and not ended is never more than one.\<close>

lemma request_never_opens:
  assumes "inv w" and "loc f arg w = Some (r, w1)" and "slot w = None"
  shows "r = -1" and "w1 = w"
  using loc_law [OF assms(1), of f arg] assms(2,3) by auto

end

lemma init_amap_busy: "w_amap w \<noteq> None \<Longrightarrow> cm_lbs_init_amap pf atr w = Some (-2, w)"
  by (simp add: cm_lbs_init_amap_def)

lemma init_oneospos_busy:
  "w_oneospos w \<noteq> None \<Longrightarrow> cm_lbs_init_oneospos pf (Some a) w = Some (-2, w)"
  by (simp add: cm_lbs_init_oneospos_def)

lemma init_amap_law:
  assumes "lbs_inv w" and "cm_lbs_init_amap pf atr w = Some (r, w')"
  shows "lbs_inv w' \<and> (if r = 0 then w_amap w = None \<and> w_amap w' \<noteq> None else w_amap w' = w_amap w)"
proof (cases "r = 0")
  case True
  then obtain v a where "w_amap w = None" "w' = v\<lparr>w_amap := Some a\<rparr>"
    using init_amap_result [OF assms(2)] by blast
  then show ?thesis using init_amap_inv [OF assms] True by simp
next
  case False
  then have "lbs_env.more w' = lbs_env.more w" using init_amap_result [OF assms(2)] by blast
  from same_more(1) [OF this] show ?thesis using init_amap_inv [OF assms] False by simp
qed

lemma init_oneospos_law:
  assumes "lbs_inv w" and "cm_lbs_init_oneospos pf atr w = Some (r, w')"
  shows "lbs_inv w' \<and> (if r = 0 then w_oneospos w = None \<and> w_oneospos w' \<noteq> None
    else w_oneospos w' = w_oneospos w)"
proof (cases "r = 0")
  case True
  then obtain v a where "w_oneospos w = None" "w' = v\<lparr>w_oneospos := Some a\<rparr>"
    using init_oneospos_result [OF assms(2)] by blast
  then show ?thesis using init_oneospos_inv [OF assms] True by simp
next
  case False
  then have "lbs_env.more w' = lbs_env.more w" using init_oneospos_result [OF assms(2)] by blast
  from same_more(2) [OF this] show ?thesis using init_oneospos_inv [OF assms] False by simp
qed

lemma location_amap_law:
  assumes "lbs_inv w"
  shows "\<exists>r w'. cm_lbs_location_amap f arg w = Some (r, w') \<and> lbs_inv w' \<and> r \<in> {0, -1, -2, -3}
    \<and> (w_amap w = None \<longrightarrow> r = -1) \<and> (r = -1 \<longrightarrow> w' = w) \<and> (r = 0 \<longrightarrow> w_amap w' \<noteq> None)
    \<and> (r = -2 \<or> r = -3 \<longrightarrow> w_amap w' = None \<and> w_live w' = w_live w - amap_uid w)"
proof -
  obtain r w' where l: "cm_lbs_location_amap f arg w = Some (r, w')"
    using location_amap_total [OF assms, of f arg] by auto
  show ?thesis using l location_amap_result [OF assms l] location_amap_inv [OF assms l] by auto
qed

lemma location_oneospos_law:
  assumes "lbs_inv w"
  shows "\<exists>r w'. cm_lbs_location_oneospos f arg w = Some (r, w') \<and> lbs_inv w' \<and> r \<in> {0, -1, -2, -3}
    \<and> (w_oneospos w = None \<longrightarrow> r = -1) \<and> (r = -1 \<longrightarrow> w' = w) \<and> (r = 0 \<longrightarrow> w_oneospos w' \<noteq> None)
    \<and> (r = -2 \<or> r = -3 \<longrightarrow> w_oneospos w' = None \<and> w_live w' = w_live w - oneospos_uid w)"
proof -
  obtain r w' where l: "cm_lbs_location_oneospos f arg w = Some (r, w')"
    using location_oneospos_total [OF assms, of f arg] by auto
  show ?thesis using l location_oneospos_result [OF assms l] location_oneospos_inv [OF assms l] by auto
qed

interpretation amap: lbs_session w_amap "cm_lbs_init_amap pf" cm_lbs_location_amap
  cm_lbs_s_amap_attr_free lbs_inv amap_uid w_live for pf
proof
  show "cm_lbs_init_amap pf None w = Some (-1, w)" if "w_amap w = None" for w
    using that by (simp add: cm_lbs_init_amap_def)
  show "\<exists>w'. cm_lbs_s_amap_attr_free w = Some w' \<and> lbs_inv w' \<and> w_amap w' = None
      \<and> w_live w' = w_live w - amap_uid w"
    if "lbs_inv w" for w
    using amap_free_ok [OF that] inv_amap_freed [OF that] by simp
qed (fact init_amap_busy init_amap_law location_amap_law)+

interpretation oneospos: lbs_session w_oneospos "cm_lbs_init_oneospos pf" cm_lbs_location_oneospos
  cm_lbs_s_oneospos_attr_free lbs_inv oneospos_uid w_live for pf
proof
  show "cm_lbs_init_oneospos pf None w = Some (-1, w)" if "w_oneospos w = None" for w
    by (simp add: cm_lbs_init_oneospos_def)
  show "\<exists>w'. cm_lbs_s_oneospos_attr_free w = Some w' \<and> lbs_inv w' \<and> w_oneospos w' = None
      \<and> w_live w' = w_live w - oneospos_uid w"
    if "lbs_inv w" for w
    using oneospos_free_ok [OF that] inv_oneospos_freed [OF that] by simp
qed (fact init_oneospos_busy init_oneospos_law location_oneospos_law)+

section \<open>A session through calls\<close>

text \<open>The first and the second version of AMAP share a session; OneOS has its own.\<close>

definition occupied :: "platform_e \<Rightarrow> lbs_world \<Rightarrow> bool" where
  "occupied pf w \<longleftrightarrow> (if pf = CM_LBS_PLAT_ONEOSPOS then w_oneospos w \<noteq> None else w_amap w \<noteq> None)"

text \<open>What the application may call, and a change of the network.\<close>

datatype lbs_call = Call_init platform_e "lbs_attr option" | Call_location "cm_lbs_callback option" nat
  | Network int

fun run_calls :: "lbs_call list \<Rightarrow> lbs_world \<Rightarrow> ((lbs_call \<times> int) list \<times> lbs_world) option" where
  "run_calls [] w = Some ([], w)"
| "run_calls (c # cs) w = do {
     (r, w1) \<leftarrow> (case c of
         Call_init pf atr \<Rightarrow> cm_lbs_init pf atr w
       | Call_location f arg \<Rightarrow> cm_lbs_location f arg w
       | Network n \<Rightarrow> Some (0, w\<lparr>w_pdptype := n\<rparr>));
     (rs, w2) \<leftarrow> run_calls cs w1;
     Some ((c, r) # rs, w2) }"

text \<open>A location request that was answered with -2 or -3 has released a session.\<close>

definition refusal :: "lbs_call \<times> int \<Rightarrow> bool" where
  "refusal x \<longleftrightarrow> (case x of (Call_location f arg, r) \<Rightarrow> r = -2 \<or> r = -3 | _ \<Rightarrow> False)"

lemma running_task_create:
  "w_task w \<Longrightarrow> cm_lbs_task_create (w\<lparr>w_platform := pf\<rparr>) = (CM_LBS_OK, w\<lparr>w_platform := pf\<rparr>)"
  by (simp add: cm_lbs_task_create_def)

lemma running_init_cases:
  assumes "w_task w" and "cm_lbs_init pf atr w = Some (r, w')"
  obtains "w' = w\<lparr>w_platform := pf\<rparr>"
    | a where "cm_lbs_init_amap pf a (w\<lparr>w_platform := pf\<rparr>) = Some (r, w')"
    | a where "cm_lbs_init_oneospos pf a (w\<lparr>w_platform := pf\<rparr>) = Some (r, w')"
  using assms(2) running_task_create [OF assms(1), of pf]
  by (auto simp: cm_lbs_init_def split: if_splits option.splits lbs_attr.splits)

lemma init_keeps_session:
  assumes "lbs_inv w" and "w_task w" and "occupied p w" and "cm_lbs_init pf atr w = Some (r, w')"
  shows "w_task w' \<and> occupied p w'"
  using running_init_cases [OF assms(2,4)]
proof cases
  case 1
  then show ?thesis using assms(2,3) by (simp add: occupied_def)
next
  case (2 a)
  have inv: "lbs_inv (w\<lparr>w_platform := pf\<rparr>)" using assms(1) set_platform_inv by simp
  obtain v where v: "lbs_env.more v = lbs_env.more (w\<lparr>w_platform := pf\<rparr>)"
    and "w' = v \<or> (\<exists>a. w' = v\<lparr>w_amap := Some a\<rparr>)" using init_amap_result [OF 2] by blast
  then have "w_task w' = w_task w" "w_oneospos w' = w_oneospos w" using same_more(2,7) [OF v] by auto
  then show ?thesis using amap.init_keeps [OF inv 2] assms(2,3) by (simp add: occupied_def split: if_splits)
next
  case (3 a)
  have inv: "lbs_inv (w\<lparr>w_platform := pf\<rparr>)" using assms(1) set_platform_inv by simp
  obtain v where v: "lbs_env.more v = lbs_env.more (w\<lparr>w_platform := pf\<rparr>)"
    and "w' = v \<or> (\<exists>a. w' = v\<lparr>w_oneospos := Some a\<rparr>)" using init_oneospos_result [OF 3] by blast
  then have "w_task w' = w_task w" "w_amap w' = w_amap w" using same_more(1,7) [OF v] by auto
  then show ?thesis using oneospos.init_keeps [OF inv 3] assms(2,3) by (simp add: occupied_def split: if_splits)
qed

lemma location_keeps_session:
  assumes "lbs_inv w" and "w_task w" and "occupied p w" and "cm_lbs_location f arg w = Some (r, w')"
    and "r \<noteq> -2" "r \<noteq> -3"
  shows "w_task w' \<and> occupied p w'"
proof -
  have nr: "r \<notin> {-2, -3}" using assms(5,6) by simp
  consider (none) "w' = w" | (amap) "cm_lbs_location_amap f arg w = Some (r, w')"
    | (oneos) "cm_lbs_location_oneospos f arg w = Some (r, w')"
    using assms(4) by (auto simp: cm_lbs_location_def split: if_splits)
  then show ?thesis
  proof cases
    case amap
    from location_amap_result [OF assms(1) this] show ?thesis
      using nr assms(2,3) by (auto simp: occupied_def)
  next
    case oneos
    from location_oneospos_result [OF assms(1) this] show ?thesis
      using nr assms(2,3) by (auto simp: occupied_def)
  qed (use assms(2,3) in simp)
qed

lemma calls_keep_session:
  assumes "lbs_inv w" and "w_task w" and "occupied p w" and "run_calls cs w = Some (rs, w')"
    and "\<not> list_ex refusal rs"
  shows "lbs_inv w' \<and> w_task w' \<and> occupied p w'"
  using assms
proof (induction cs arbitrary: w rs)
  case (Cons c cs)
  obtain r w1 rs1 where c: "(case c of
         Call_init pf atr \<Rightarrow> cm_lbs_init pf atr w
       | Call_location f arg \<Rightarrow> cm_lbs_location f arg w
       | Network n \<Rightarrow> Some (0, w\<lparr>w_pdptype := n\<rparr>)) = Some (r, w1)"
    and rest: "run_calls cs w1 = Some (rs1, w')" and rs: "rs = (c, r) # rs1"
    using Cons.prems(4) by (auto split: bind_splits)
  have "lbs_inv w1 \<and> w_task w1 \<and> occupied p w1"
  proof (cases c)
    case (Call_init pf atr)
    then show ?thesis
      using c init_inv [OF Cons.prems(1)] init_keeps_session [OF Cons.prems(1-3)] by auto
  next
    case (Call_location f arg)
    have "r \<noteq> -2" "r \<noteq> -3"
      using Cons.prems(5) rs Call_location by (auto simp: refusal_def)
    then show ?thesis
      using c Call_location location_inv [OF Cons.prems(1)] location_keeps_session [OF Cons.prems(1-3)] by auto
  next
    case (Network n)
    then show ?thesis using c Cons.prems(1-3) by (auto simp: lbs_inv_def occupied_def)
  qed
  then show ?case using Cons.IH [OF _ _ _ rest] Cons.prems(5) rs by simp
qed simp

section \<open>The callbacks of the AT layer\<close>

lemma amap_urc_more:
  assumes "cm_lbs_atcmd_amap_location_urc_rsp l pf buf w = Some (r, w')"
  shows "lbs_env.more w' = lbs_env.more w"
  using assms unfolding cm_lbs_atcmd_amap_location_urc_rsp_def Let_def
  by (auto dest!: malloc_more on_fs_more split: if_splits prod.splits bind_splits)

lemma oneospos_urc_more:
  assumes "cm_lbs_atcmd_oneospos_location_urc_rsp gcj l pf buf w = Some (r, w')"
  shows "lbs_env.more w' = lbs_env.more w"
  using assms unfolding cm_lbs_atcmd_oneospos_location_urc_rsp_def Let_def
  by (auto dest!: on_fs_more split: if_splits prod.splits bind_splits option.splits)

text \<open>Exactly one text is reported, and nothing else of the service changes.\<close>

lemma urc_reported:
  assumes "cm_lbs_atcmd_location_urc_rsp gcj ev l w = Some w'"
  obtains t v where "lbs_env.more v = lbs_env.more w" and "w' = v\<lparr>w_urc := w_urc w @ [t]\<rparr>"
proof -
  have "\<exists>v t. w' = cm_lbs_urc_rsp t v \<and> lbs_env.more v = lbs_env.more w"
    using assms unfolding cm_lbs_atcmd_location_urc_rsp_def Let_def
    by (auto dest!: malloc_more on_fs_more dest: amap_urc_more oneospos_urc_more
        intro!: exI conjI split: if_splits prod.splits bind_splits)
  then obtain v t where v: "w' = cm_lbs_urc_rsp t v" "lbs_env.more v = lbs_env.more w" by blast
  show ?thesis using that [OF v(2)] v(1) same_more(10) [OF v(2)] by (simp add: cm_lbs_urc_rsp_def)
qed

lemma same_uids:
  assumes "lbs_env.more w' = lbs_env.more w"
  shows "amap_uid w' = amap_uid w" and "oneospos_uid w' = oneospos_uid w"
  using same_more [OF assms] by (simp_all add: amap_uid_def oneospos_uid_def)

text \<open>A call through the pointer that returns has reported one text and released both sessions.\<close>

lemma dispatch_cb_returns:
  assumes "lbs_inv w" and "dispatch_cb gcj f ev rsp arg w = Some w'"
  shows "lbs_inv w'" and "w_amap w' = None" and "w_oneospos w' = None"
    and "w_live w' = w_live w - amap_uid w - oneospos_uid w"
    and "\<exists>t. w_urc w' = w_urc w @ [t]" and "w_mq w' = w_mq w" and "w_queun w' = w_queun w"
    and "w_next w' = w_next w" and "w_platform w' = w_platform w"
    and "w_amapst w' = w_amapst w" and "w_oneosst w' = w_oneosst w" and "w_handles w' = w_handles w"
proof -
  obtain u where u: "cm_lbs_deinit u = Some w'"
    and "\<exists>t v. lbs_env.more v = lbs_env.more w \<and> u = v\<lparr>w_urc := w_urc w @ [t]\<rparr>"
  proof (cases f)
    case ATCMD_CALLBACK
    then obtain u where 1: "cm_lbs_atcmd_location_urc_rsp gcj (atcmd_state ev) rsp w = Some u"
      "cm_lbs_deinit u = Some w'"
      using assms(2) by (auto simp: dispatch_cb_def cm_lbs_atcmd_callback_def split: bind_splits)
    show ?thesis using urc_reported [OF 1(1)] that 1(2) by metis
  next
    case AT_MLBS_CALLBACK
    then obtain t where "cm_lbs_deinit (cm_lbs_urc_rsp t w) = Some w'"
      using assms(2) by (auto simp: dispatch_cb_def cm_lbs_atcmd_at_mlbs_callback_def
          split: bind_splits if_splits)
    then show ?thesis using that unfolding cm_lbs_urc_rsp_def by blast
  qed
  then obtain t v where v: "lbs_env.more v = lbs_env.more w" and uv: "u = v\<lparr>w_urc := w_urc w @ [t]\<rparr>"
    by blast
  note m = same_more [OF v] same_uids [OF v]
  have iu: "lbs_inv u" using lbs_inv_more [OF v] assms(1) uv by (simp add: lbs_inv_def)
  have "w' = u\<lparr>w_amap := None, w_oneospos := None, w_live := w_live u - amap_uid u - oneospos_uid u\<rparr>"
    using deinit_ok [OF iu] u by simp
  then show "w_amap w' = None" "w_oneospos w' = None"
    "w_live w' = w_live w - amap_uid w - oneospos_uid w" "\<exists>t. w_urc w' = w_urc w @ [t]"
    "w_mq w' = w_mq w" "w_queun w' = w_queun w" "w_next w' = w_next w" "w_platform w' = w_platform w"
    "w_amapst w' = w_amapst w" "w_oneosst w' = w_oneosst w" "w_handles w' = w_handles w"
    using m uv by simp_all
  show "lbs_inv w'" using deinit_inv [OF iu u] .
qed

end
