(* ===== verification/LbsTask.thy ===== *)
theory LbsTask
  imports LbsReach
begin

text \<open>
  Turns of the task and reachability: what the asynchronous requests do to the session, the step
  relation of the service, and the states it can reach when the platforms' requests keep their
  contract.
\<close>

section \<open>Device information\<close>

lemma new_ueinfo_cases:
  assumes "lbs_inv w" and "new_ueinfo w = (u, w1)"
  shows "lbs_inv w1" and "w_amap w1 = w_amap w" and "w_oneospos w1 = w_oneospos w"
    and "u = Some i \<Longrightarrow> i \<in> w_live w1 \<and> i \<notin> amap_uid w1 \<and> i \<notin> oneospos_uid w1"
proof -
  obtain ok v where m: "env_malloc w = (ok, v)" by (cases "env_malloc w")
  note v = same_more [OF malloc_more [OF m]] same_uids [OF malloc_more [OF m]]
  have inv: "lbs_inv v" using lbs_inv_more [OF malloc_more [OF m]] assms(1) by simp
  have w1: "w1 = (if ok then v\<lparr>w_live := insert (w_next v) (w_live v), w_next := Suc (w_next v)\<rparr> else v)"
    and u: "u = (if ok then Some (w_next v) else None)"
    using assms(2) by (cases ok; simp add: new_ueinfo_def m)+
  show "lbs_inv w1" using inv unfolding w1 lbs_inv_def by (auto simp: less_SucI)
  show "w_amap w1 = w_amap w" "w_oneospos w1 = w_oneospos w" using v by (simp_all add: w1)
  show "i \<in> w_live w1 \<and> i \<notin> amap_uid w1 \<and> i \<notin> oneospos_uid w1" if "u = Some i"
    using inv that unfolding w1 u lbs_inv_def by (cases ok) auto
qed

lemma amap_session_takes:
  assumes "lbs_inv w" and "i \<in> w_live w" and "i \<notin> oneospos_uid w" and "am_ueinfo a = Some i"
  shows "lbs_inv (w\<lparr>w_amap := Some a\<rparr>)"
  using assms by (auto simp: lbs_inv_def)

lemma oneospos_session_takes:
  assumes "lbs_inv w" and "i \<in> w_live w" and "i \<notin> amap_uid w" and "op_ueinfo a = Some i"
  shows "lbs_inv (w\<lparr>w_oneospos := Some a\<rparr>)"
  using assms by (auto simp: lbs_inv_def)

lemma free_loose:
  assumes "lbs_inv w" and "free_ueinfo u w = Some w'" and "w_amap w = None" and "w_oneospos w = None"
  shows "lbs_inv w'"
  using assms by (auto simp: free_ueinfo_def lbs_inv_def amap_uid_def oneospos_uid_def
      split: option.splits if_splits)

section \<open>The callbacks of the service\<close>

lemma amap_callback_calls:
  assumes "cm_lbs_amap_callback call ev rsp m w = Some w'"
  obtains v f res arg where "lbs_env.more v = lbs_env.more w" and "call f (amap_ret ev) res arg v = Some w'"
proof -
  have "\<exists>v f res arg. call f (amap_ret ev) res arg v = Some w' \<and> lbs_env.more v = lbs_env.more w"
    using assms unfolding cm_lbs_amap_callback_def Let_def
    by (cases "ev = AMAP_LOCATION_SUCCEED")
       (auto dest!: malloc_more intro!: exI conjI split: prod.splits bind_splits)
  then show ?thesis using that by blast
qed

lemma oneospos_result_more:
  assumes "oneospos_result ev rsp w = Some (ret, res, v)"
  shows "lbs_env.more v = lbs_env.more w"
  using assms unfolding oneospos_result_def
  by (cases ev) (auto dest!: malloc_more split: if_splits prod.splits bind_splits)

lemma oneospos_callback_calls:
  assumes "cm_lbs_oneospos_callback call ev rsp m w = Some w'"
  obtains v u where "lbs_env.more v = lbs_env.more w"
    and "u = v \<or> (\<exists>f ret res arg. call f ret res arg v = Some u)"
    and "cm_lbs_s_oneospos_attr_free u = Some w'"
proof -
  obtain m' where m': "m = Some m'"
    using assms by (cases m) (auto simp: cm_lbs_oneospos_callback_def)
  obtain ret res v where rs: "oneospos_result ev rsp w = Some (ret, res, v)"
    using assms by (cases "oneospos_result ev rsp w") (auto simp: cm_lbs_oneospos_callback_def m')
  obtain u where u: "(case cb m' of None \<Rightarrow> Some v | Some f \<Rightarrow> call f ret res (cb_arg m') v) = Some u"
    and f: "cm_lbs_s_oneospos_attr_free u = Some w'"
    using assms by (auto simp: cm_lbs_oneospos_callback_def m' rs split: bind_splits)
  have "u = v \<or> (\<exists>f ret res arg. call f ret res arg v = Some u)"
    using u by (cases "cb m'") auto
  from that [OF oneospos_result_more [OF rs] this f] show ?thesis .
qed

lemma amap_callback_inv:
  assumes "lbs_inv w" and "cm_lbs_amap_callback (dispatch_cb gcj) ev rsp m w = Some w'"
  shows "lbs_inv w'" and "w_amap w' = None" and "w_oneospos w' = None"
    and "w_live w' = w_live w - amap_uid w - oneospos_uid w" and "\<exists>t. w_urc w' = w_urc w @ [t]"
    and "w_amapst w' = w_amapst w" and "w_handles w' = w_handles w"
proof -
  obtain v f res arg where v: "lbs_env.more v = lbs_env.more w"
    and c: "dispatch_cb gcj f (amap_ret ev) res arg v = Some w'"
    by (rule amap_callback_calls [OF assms(2)])
  have "lbs_inv v" using lbs_inv_more [OF v] assms(1) by simp
  note r = dispatch_cb_returns [OF this c]
  show "lbs_inv w'" "w_amap w' = None" "w_oneospos w' = None"
    "w_live w' = w_live w - amap_uid w - oneospos_uid w" "\<exists>t. w_urc w' = w_urc w @ [t]"
    "w_amapst w' = w_amapst w" "w_handles w' = w_handles w"
    using r same_more [OF v] same_uids [OF v] by simp_all
qed

lemma oneospos_callback_inv:
  assumes "lbs_inv w" and "cm_lbs_oneospos_callback (dispatch_cb gcj) ev rsp m w = Some w'"
  shows "lbs_inv w'" and "w_oneospos w' = None" and "w_live w' \<subseteq> w_live w - oneospos_uid w"
    and "w_oneosst w' = w_oneosst w" and "w_handles w' = w_handles w"
proof -
  obtain v u where v: "lbs_env.more v = lbs_env.more w"
    and u: "u = v \<or> (\<exists>f ret res arg. dispatch_cb gcj f ret res arg v = Some u)"
    and f: "cm_lbs_s_oneospos_attr_free u = Some w'"
    by (rule oneospos_callback_calls [OF assms(2)])
  note m = same_more [OF v] same_uids [OF v]
  have iv: "lbs_inv v" using lbs_inv_more [OF v] assms(1) by simp
  have iu: "lbs_inv u" and l: "w_live u - oneospos_uid u \<subseteq> w_live w - oneospos_uid w"
    using u dispatch_cb_returns [OF iv] iv m by (auto simp: oneospos_uid_def)
  show "lbs_inv w'" "w_oneospos w' = None" "w_live w' \<subseteq> w_live w - oneospos_uid w"
    using oneospos_free_ok [OF iu] inv_oneospos_freed [OF iu] f l by auto
  have "w_oneosst u = w_oneosst w" "w_handles u = w_handles w"
    using u dispatch_cb_returns [OF iv] m by auto
  then show "w_oneosst w' = w_oneosst w" "w_handles w' = w_handles w"
    using oneospos_free_ok [OF iu] f by auto
qed

section \<open>The requests\<close>

text \<open>The contract of a platform's request: it keeps the invariant, and when it fails it has not
  touched the sessions. The requests of both platforms keep it (theories \<open>AmapFacts\<close> and \<open>OneosFacts\<close>).\<close>

definition keeps_contract :: "('a \<Rightarrow> lbs_world \<Rightarrow> (cm_lbs_state_e \<times> lbs_world) option) \<Rightarrow> bool" where
  "keeps_contract locate \<longleftrightarrow> (\<forall>a w ret w'. lbs_inv w \<longrightarrow> locate a w = Some (ret, w') \<longrightarrow>
     lbs_inv w' \<and> (ret \<noteq> CM_LBS_OK \<longrightarrow> w_amap w' = w_amap w \<and> w_oneospos w' = w_oneospos w))"

lemma contract:
  assumes "keeps_contract locate" and "lbs_inv w" and "locate a w = Some (ret, w')"
  shows "lbs_inv w'" and "ret \<noteq> CM_LBS_OK \<Longrightarrow> amap_uid w' = amap_uid w"
    and "ret \<noteq> CM_LBS_OK \<Longrightarrow> oneospos_uid w' = oneospos_uid w"
  using assms unfolding keeps_contract_def amap_uid_def oneospos_uid_def by (blast, metis+)

text \<open>After a failed request the block of device information is freed twice: by the callback, which
  releases the session that owns it, and by the request itself.\<close>

lemma amap_double_free:
  assumes "lbs_inv w" and "i \<in> amap_uid w"
  shows "do { w3 \<leftarrow> cm_lbs_amap_callback (dispatch_cb gcj) ev rsp m w; cm_amap_free_ueinfo (Some i) w3 } = None"
  using amap_callback_inv(4) [OF assms(1), of gcj ev rsp m] assms(2)
  by (cases "cm_lbs_amap_callback (dispatch_cb gcj) ev rsp m w")
     (auto simp: cm_amap_free_ueinfo_def free_ueinfo_def)

lemma oneospos_double_free:
  assumes "lbs_inv w" and "i \<in> oneospos_uid w"
  shows "do { w3 \<leftarrow> cm_lbs_oneospos_callback (dispatch_cb gcj) ev rsp m w;
    cm_oneospos_free_ueinfo (Some i) w3 } = None"
  using oneospos_callback_inv(3) [OF assms(1), of gcj ev rsp m] assms(2)
  by (cases "cm_lbs_oneospos_callback (dispatch_cb gcj) ev rsp m w")
     (auto simp: cm_oneospos_free_ueinfo_def free_ueinfo_def)

lemma amap_callback_then_free:
  assumes "lbs_inv w" and "do { w2 \<leftarrow> cm_lbs_amap_callback (dispatch_cb gcj) ev rsp m w;
    cm_amap_free_ueinfo u w2 } = Some w'"
  shows "lbs_inv w'" and "w_amap w' = None" and "w_oneospos w' = None" and "\<exists>t. w_urc w' = w_urc w @ [t]"
proof -
  obtain w2 where c: "cm_lbs_amap_callback (dispatch_cb gcj) ev rsp m w = Some w2"
    and f: "free_ueinfo u w2 = Some w'"
    using assms(2) by (auto simp: cm_amap_free_ueinfo_def split: bind_splits)
  note r = amap_callback_inv [OF assms(1) c]
  show "lbs_inv w'" using free_loose [OF r(1) f r(2,3)] .
  show "w_amap w' = None" "w_oneospos w' = None" "\<exists>t. w_urc w' = w_urc w @ [t]"
    using r f by (auto simp: free_ueinfo_def split: option.splits if_splits)
qed

text \<open>A turn for the AMAP session that returns keeps the invariant.\<close>

lemma asyn_amap_inv:
  assumes "keeps_contract locate" and "lbs_inv w"
    and "cm_lbs_asyn_location_amap (dispatch_cb gcj) locate w = Some w'"
  shows "lbs_inv w'"
proof -
  obtain a where a: "w_amap w = Some a"
    using assms(3) by (auto simp: cm_lbs_asyn_location_amap_def split: bind_splits)
  obtain u w1 where n: "new_ueinfo w = (u, w1)" by (cases "new_ueinfo w")
  note w1 = new_ueinfo_cases [OF assms(2) n]
  note run = assms(3) [unfolded cm_lbs_asyn_location_amap_def a cm_amap_get_ueinfo_def n]
  show ?thesis
  proof (cases u)
    case None
    then show ?thesis using run amap_callback_then_free(1) [OF w1(1)] by simp
  next
    case (Some i)
    define a1 where "a1 = a\<lparr>am_ueinfo := Some i\<rparr>"
    obtain x key where x: "au_apikey (am_auth a) = Some x" "c_str x = Some key"
      using run Some by (auto split: bind_splits)
    then have run': "(if cm_amap_key_filter key \<noteq> CM_LBS_OK then do {
             w2 \<leftarrow> cm_lbs_amap_callback (dispatch_cb gcj) AMAP_LOCATION_APIKEY_FOBIDEN None (am_cb_arg a) w1;
             cm_amap_free_ueinfo u w2 }
           else do {
             (ret, w2) \<leftarrow> locate a1 (w1\<lparr>w_amap := Some a1\<rparr>);
             (if ret \<noteq> CM_LBS_OK then do {
                s \<leftarrow> w_amap w2;
                w3 \<leftarrow> cm_lbs_amap_callback (dispatch_cb gcj) AMAP_LOCATION_UNKNOWN_ERR None (am_cb_arg s) w2;
                cm_amap_free_ueinfo u w3 }
              else Some w2) }) = Some w'"
      using run Some x by (simp add: a1_def Let_def cong: if_cong)
    define v where "v = w1\<lparr>w_amap := Some a1\<rparr>"
    have v: "lbs_inv v" "i \<in> amap_uid v"
      using amap_session_takes [OF w1(1), of i a1] w1(4) [OF Some] by (simp_all add: v_def a1_def)
    show ?thesis
    proof (cases "cm_amap_key_filter key = CM_LBS_OK")
      case False
      then show ?thesis using run' amap_callback_then_free(1) [OF w1(1)] by simp
    next
      case True
      then obtain ret w2 where l: "locate a1 v = Some (ret, w2)"
        and rest: "(if ret \<noteq> CM_LBS_OK then do {
                s \<leftarrow> w_amap w2;
                w3 \<leftarrow> cm_lbs_amap_callback (dispatch_cb gcj) AMAP_LOCATION_UNKNOWN_ERR None (am_cb_arg s) w2;
                cm_amap_free_ueinfo u w3 } else Some w2) = Some w'"
        using run' by (auto simp: v_def split: bind_splits)
      note k = contract [OF assms(1) v(1) l]
      have "ret = CM_LBS_OK"
      proof (rule ccontr)
        assume r: "ret \<noteq> CM_LBS_OK"
        have "i \<in> amap_uid w2" using v(2) k(2) [OF r] by simp
        then show False using rest r Some amap_double_free [OF k(1)] by (simp split: bind_splits)
      qed
      then show ?thesis using rest k(1) by simp
    qed
  qed
qed

text \<open>The same for the OneOS session.\<close>

lemma asyn_oneospos_inv:
  assumes "keeps_contract locate" and "lbs_inv w"
    and "cm_lbs_asyn_location_oneospos (dispatch_cb gcj) locate w = Some w'"
  shows "lbs_inv w'"
proof -
  obtain a where a: "w_oneospos w = Some a"
    using assms(3) by (auto simp: cm_lbs_asyn_location_oneospos_def split: bind_splits)
  obtain u w1 where n: "new_ueinfo w = (u, w1)" by (cases "new_ueinfo w")
  note w1 = new_ueinfo_cases [OF assms(2) n]
  note run = assms(3) [unfolded cm_lbs_asyn_location_oneospos_def a cm_oneospos_get_ueinfo_def n]
  show ?thesis
  proof (cases u)
    case None
    then show ?thesis using run oneospos_callback_inv(1) [OF w1(1)]
      by (auto simp: cm_oneospos_free_ueinfo_def free_ueinfo_def split: bind_splits)
  next
    case (Some i)
    define a1 where "a1 = a\<lparr>op_ueinfo := Some i\<rparr>"
    define v where "v = w1\<lparr>w_oneospos := Some a1\<rparr>"
    have v: "lbs_inv v" "i \<in> oneospos_uid v"
      using oneospos_session_takes [OF w1(1), of i a1] w1(4) [OF Some] by (simp_all add: v_def a1_def)
    obtain ret w2 where l: "locate a1 v = Some (ret, w2)"
      and rest: "(if ret \<noteq> CM_LBS_OK then do {
              s \<leftarrow> w_oneospos w2;
              w3 \<leftarrow> cm_lbs_oneospos_callback (dispatch_cb gcj) CM_ONEOSPOS_EVENT_UNKNOW None (op_cb_arg s) w2;
              cm_oneospos_free_ueinfo u w3 } else Some w2) = Some w'"
      using run Some unfolding a1_def v_def by (auto simp: Let_def split: bind_splits)
    note k = contract [OF assms(1) v(1) l]
    have "ret = CM_LBS_OK"
    proof (rule ccontr)
      assume r: "ret \<noteq> CM_LBS_OK"
      have "i \<in> oneospos_uid w2" using v(2) k(3) [OF r] by simp
      then show False using rest r Some oneospos_double_free [OF k(1)] by (simp split: bind_splits)
    qed
    then show ?thesis using rest k(1) by simp
  qed
qed

text \<open>A request that fails is a fault whatever the texts of the callback are: the block of device information
  is there when the request returns, and gone when the callback does.\<close>

lemma asyn_amap_failed:
  assumes "keeps_contract locate" and "lbs_inv w" and "new_ueinfo w = (Some i, w1)" and "w_amap w = Some a"
    and "au_apikey (am_auth a) = Some k" and "c_str k = Some key" and "key \<notin> set s_amap_key_filter"
    and "locate (a\<lparr>am_ueinfo := Some i\<rparr>) (w1\<lparr>w_amap := Some (a\<lparr>am_ueinfo := Some i\<rparr>)\<rparr>) = Some (e, v)"
    and "e \<noteq> CM_LBS_OK"
  shows "i \<in> w_live v" and "cm_lbs_amap_callback (dispatch_cb gcj) ev rsp m v = Some w3 \<Longrightarrow> i \<notin> w_live w3"
    and "cm_lbs_asyn_location_amap (dispatch_cb gcj) locate w = None"
proof -
  define a1 where "a1 = a\<lparr>am_ueinfo := Some i\<rparr>"
  define u where "u = w1\<lparr>w_amap := Some a1\<rparr>"
  note w1 = new_ueinfo_cases [OF assms(2,3)]
  have u: "lbs_inv u" "i \<in> amap_uid u"
    using amap_session_takes [OF w1(1), of i a1] w1(4) [OF refl] by (simp_all add: u_def a1_def)
  have l: "locate a1 u = Some (e, v)" using assms(8) by (simp add: u_def a1_def)
  have v: "lbs_inv v" "i \<in> amap_uid v" using contract [OF assms(1) u(1) l] assms(9) u(2) by simp_all
  show "i \<in> w_live v" using v by (auto simp: lbs_inv_def)
  show "i \<notin> w_live w3" if "cm_lbs_amap_callback (dispatch_cb gcj) ev rsp m v = Some w3"
    using amap_callback_inv(4) [OF v(1) that] v(2) by simp
  show "cm_lbs_asyn_location_amap (dispatch_cb gcj) locate w = None"
    using assms(4-7,9) l amap_double_free [OF v]
    by (simp add: cm_lbs_asyn_location_amap_def cm_amap_get_ueinfo_def assms(3) Let_def
        cm_amap_key_filter_def a1_def u_def split: bind_split)
qed

lemma asyn_oneospos_failed:
  assumes "keeps_contract locate" and "lbs_inv w" and "new_ueinfo w = (Some i, w1)" and "w_oneospos w = Some a"
    and "locate (a\<lparr>op_ueinfo := Some i\<rparr>) (w1\<lparr>w_oneospos := Some (a\<lparr>op_ueinfo := Some i\<rparr>)\<rparr>) = Some (e, v)"
    and "e \<noteq> CM_LBS_OK"
  shows "i \<in> w_live v" and "cm_lbs_oneospos_callback (dispatch_cb gcj) ev rsp m v = Some w3 \<Longrightarrow> i \<notin> w_live w3"
    and "cm_lbs_asyn_location_oneospos (dispatch_cb gcj) locate w = None"
proof -
  define a1 where "a1 = a\<lparr>op_ueinfo := Some i\<rparr>"
  define u where "u = w1\<lparr>w_oneospos := Some a1\<rparr>"
  note w1 = new_ueinfo_cases [OF assms(2,3)]
  have u: "lbs_inv u" "i \<in> oneospos_uid u"
    using oneospos_session_takes [OF w1(1), of i a1] w1(4) [OF refl] by (simp_all add: u_def a1_def)
  have l: "locate a1 u = Some (e, v)" using assms(5) by (simp add: u_def a1_def)
  have v: "lbs_inv v" "i \<in> oneospos_uid v" using contract [OF assms(1) u(1) l] assms(6) u(2) by simp_all
  show "i \<in> w_live v" using v by (auto simp: lbs_inv_def)
  show "i \<notin> w_live w3" if "cm_lbs_oneospos_callback (dispatch_cb gcj) ev rsp m v = Some w3"
    using oneospos_callback_inv(3) [OF v(1) that] v(2) by auto
  show "cm_lbs_asyn_location_oneospos (dispatch_cb gcj) locate w = None"
    using assms(4,6) l oneospos_double_free [OF v]
    by (simp add: cm_lbs_asyn_location_oneospos_def cm_oneospos_get_ueinfo_def assms(3) Let_def
        a1_def u_def split: bind_split)
qed

section \<open>Reachable states\<close>

definition locators_keep :: "locators \<Rightarrow> bool" where
  "locators_keep ls \<longleftrightarrow> keeps_contract (locate_amap ls) \<and> keeps_contract (locate_oneospos ls)"

lemma asyn_location_inv:
  assumes "locators_keep ls" and "lbs_inv w"
    and "cm_lbs_asyn_location (dispatch_cb gcj) ls w = Some w'"
  shows "lbs_inv w'"
proof -
  obtain w1 where 1: "(if w_platform w = CM_LBS_PLAT_AMAP10 \<or> w_platform w = CM_LBS_PLAT_AMAP20
      then cm_lbs_asyn_location_amap (dispatch_cb gcj) (locate_amap ls) w else Some w) = Some w1"
    and 2: "(if w_platform w1 = CM_LBS_PLAT_ONEOSPOS
      then cm_lbs_asyn_location_oneospos (dispatch_cb gcj) (locate_oneospos ls) w1 else Some w1) = Some w'"
    using assms(3) unfolding cm_lbs_asyn_location_def by (auto split: bind_splits)
  have k: "keeps_contract (locate_amap ls)" "keeps_contract (locate_oneospos ls)"
    using assms(1) by (simp_all add: locators_keep_def)
  have "lbs_inv w1"
    using 1 asyn_amap_inv [OF k(1) assms(2)] assms(2) by (simp split: if_splits)
  then show ?thesis using 2 asyn_oneospos_inv [OF k(2)] by (simp split: if_splits)
qed

lemma main_task_inv:
  assumes "locators_keep ls" and "lbs_inv w"
    and "cm_lbs_main_task (dispatch_cb gcj) ls w = Some w'"
  shows "lbs_inv w'"
proof -
  obtain r where r: "cm_lbs_QueueRev (w_queun w) w = Some r"
    using assms(3) by (auto simp: cm_lbs_main_task_def split: bind_splits)
  show ?thesis
  proof (cases r)
    case None
    then show ?thesis using assms(2,3) r by (simp add: cm_lbs_main_task_def)
  next
    case (Some x)
    obtain ret ev w1 where x: "x = (ret, ev, w1)" by (cases x)
    have "lbs_inv w1"
      using r Some x assms(2) inv_queue_upd [OF assms(2)]
      by (auto simp: cm_lbs_QueueRev_def split: option.splits list.splits)
    then show ?thesis using assms(3) r Some x asyn_location_inv [OF assms(1)]
      by (auto simp: cm_lbs_main_task_def split: if_splits)
  qed
qed

inductive lbs_step :: "(string \<Rightarrow> string \<Rightarrow> string \<times> string) \<Rightarrow> locators
    \<Rightarrow> lbs_world \<Rightarrow> lbs_world \<Rightarrow> bool" for gcj ls where
  step_init: "cm_lbs_init pf atr w = Some (r, w') \<Longrightarrow> lbs_step gcj ls w w'"
| step_location: "cm_lbs_location f arg w = Some (r, w') \<Longrightarrow> lbs_step gcj ls w w'"
| step_deinit: "cm_lbs_deinit w = Some w' \<Longrightarrow> lbs_step gcj ls w w'"
| step_task: "cm_lbs_main_task (dispatch_cb gcj) ls w = Some w' \<Longrightarrow> lbs_step gcj ls w w'"
| step_network: "lbs_step gcj ls w (w\<lparr>w_pdptype := n\<rparr>)"

definition lbs_reaches :: "(string \<Rightarrow> string \<Rightarrow> string \<times> string) \<Rightarrow> locators
    \<Rightarrow> lbs_world \<Rightarrow> lbs_world \<Rightarrow> bool" where
  "lbs_reaches gcj ls = (lbs_step gcj ls)\<^sup>*\<^sup>*"

text \<open>Before the first call: no session, no queue, nothing allocated.\<close>

definition lbs_fresh :: "lbs_world \<Rightarrow> bool" where
  "lbs_fresh w \<longleftrightarrow> w_amap w = None \<and> w_oneospos w = None \<and> w_queun w = None \<and> w_live w = {}"

lemma fresh_inv: "lbs_fresh w \<Longrightarrow> lbs_inv w"
  by (simp add: lbs_fresh_def inv_defs)

lemma step_inv:
  assumes "lbs_step gcj ls w w'" and "locators_keep ls" and "lbs_inv w"
  shows "lbs_inv w'"
  using assms(1)
proof cases
  case step_network
  then show ?thesis using assms(3) by (simp add: lbs_inv_def)
qed (use assms(2,3) init_inv location_inv deinit_inv main_task_inv in metis)+

lemma reaches_inv:
  assumes "lbs_reaches gcj ls w w'" and "locators_keep ls" and "lbs_inv w"
  shows "lbs_inv w'"
  using assms(1) unfolding lbs_reaches_def
  by (induction rule: rtranclp_induct) (use assms(2,3) step_inv in blast)+

end
