(* ===== verification/Samples.thy ===== *)
theory Samples
  imports LbsConfigGet LbsTask
begin

text \<open>
  Concrete states on which the conditions of the properties are checked: an empty disk with the
  directory of the service, an environment on it, and a service before its first call.
\<close>

definition sample_fs :: filesys where
  "sample_fs = \<lparr>fs_files = Map.empty, fs_dirs = {''/userdata'', ''/userdata/cm_lbs''}, fs_deny = {},
     fs_room = 4096, fs_open = 0\<rparr>"

definition sample_env :: lbs_env where
  "sample_env = \<lparr>env_fs = sample_fs, env_allocs = []\<rparr>"

definition sample_world :: lbs_world where
  "sample_world = \<lparr>env_fs = sample_fs, env_allocs = [], w_pdptype = 1, w_threads = [], w_msggets = [],
     w_msgmax = 8, w_mq = Map.empty, w_task = False, w_queun = None, w_platform = 0, w_amap = None,
     w_oneospos = None, w_live = {}, w_next = 1, w_urc = [], w_time = 0, w_curl = [], w_handles = {},
     w_sent = [], w_amapst = zero_amap_static, w_oneosst = zero_oneospos_static\<rparr>"

lemma sample_access: "access_ok ''/userdata/cm_lbs'' sample_fs"
  by (simp add: access_ok_def dir_exists_def sample_fs_def resolve_def)

lemma sample_parents:
  "parent_dir ''/userdata/cm_lbs/atcmd_lbscfg'' = ''/userdata/cm_lbs''"
  by (simp add: parent_dir_def)

lemma sample_ready: "lbs_ready sample_fs"
  using sample_access by (simp add: lbs_ready_def path_defs)

lemma sample_store_ok: "store_ok sample_fs"
  using sample_ready unfolding store_ok_def
  by (simp add: cfg_paths_def path_ok_def can_write_def dir_exists_def parent_dir_def
      sample_fs_def path_defs file_size_def)

lemma sample_env_ok: "env_ok sample_env"
  by (simp add: env_ok_def sample_env_def sample_store_ok)

lemma sample_store:
  "store_of sample_fs = \<lparr>st_platform = None, st_amap10 = None, st_amap20 = None, st_oneospos = None\<rparr>"
  by (simp add: store_of_def sample_fs_def)

lemma sample_env_store [simp]: "env_store sample_env = store_of sample_fs"
  by (simp add: env_store_def sample_env_def)

lemma sample_platform [simp]: "platform_of (store_of sample_fs) = CM_LBS_PLAT_ONEOSPOS"
  by (simp add: sample_store platform_of_def CM_LBS_METHOD_DEFAULT_def platform_defs)

lemma sample_valid: "store_valid (env_store sample_env)"
  by (simp add: store_valid_def) (simp add: sample_store)

lemma sample_fresh: "lbs_fresh sample_world"
  by (simp add: lbs_fresh_def sample_world_def)

lemma sample_inv: "lbs_inv sample_world"
  using fresh_inv [OF sample_fresh] .

text \<open>The same disk with the first AMAP version selected.\<close>

definition sample_amap_fs :: filesys where
  "sample_amap_fs = sample_fs\<lparr>fs_files := [CM_LBS_ATCMD_CONFIG_FILE_PATH \<mapsto> le32 10], fs_room := 4092\<rparr>"

definition sample_amap_env :: lbs_env where
  "sample_amap_env = \<lparr>env_fs = sample_amap_fs, env_allocs = []\<rparr>"

lemma sample_amap_store_ok: "store_ok sample_amap_fs"
proof -
  have "store_ok (sample_fs\<lparr>fs_files := (fs_files sample_fs)(CM_LBS_ATCMD_CONFIG_FILE_PATH \<mapsto> le32 10),
      fs_room := fs_room sample_fs + file_size CM_LBS_ATCMD_CONFIG_FILE_PATH sample_fs - 4\<rparr>)"
    by (rule store_ok_write [OF sample_store_ok]) simp_all
  then show ?thesis by (simp add: sample_amap_fs_def sample_fs_def file_size_def)
qed

lemma sample_amap_env_ok: "env_ok sample_amap_env"
  by (simp add: env_ok_def sample_amap_env_def sample_amap_store_ok)

lemma sample_amap_platform: "platform_of (env_store sample_amap_env) = CM_LBS_PLAT_AMAP10"
  by (simp add: env_store_def sample_amap_env_def platform_of_def store_of_def sample_amap_fs_def
      atcmd_of_bytes_def platform_defs)

end
