(* ===== verification/Md5.thy ===== *)
theory Md5
  imports Prelude
begin

unbundle bit_operations_syntax

text \<open>
  MD5 as \<^verbatim>\<open>mbedtls-3.6.2/library/md5.c\<close> computes it: the context with its buffer, the compression of a
  block, \<open>update\<close> and \<open>finish\<close>, and that any sequence of updates delivers the digest of the whole text as
  RFC 1321 defines it by padding.
\<close>

section \<open>The context\<close>

record mbedtls_md5_context =
  md5_total :: "u32 \<times> u32"
  md5_state :: "u32 \<times> u32 \<times> u32 \<times> u32"
  md5_buffer :: bytes

definition mbedtls_md5_init :: mbedtls_md5_context where
  "mbedtls_md5_init = \<lparr>md5_total = (0, 0), md5_state = (0, 0, 0, 0), md5_buffer = replicate 64 NUL\<rparr>"

text \<open>\<open>mbedtls_md5_free\<close> wipes the context; \<open>mbedtls_md5_clone\<close> assigns the whole of it.\<close>

definition mbedtls_md5_free :: "mbedtls_md5_context \<Rightarrow> mbedtls_md5_context" where
  "mbedtls_md5_free ctx = ctx\<lparr>md5_total := (0, 0), md5_state := (0, 0, 0, 0), md5_buffer := replicate 64 NUL\<rparr>"

definition mbedtls_md5_clone :: "mbedtls_md5_context \<Rightarrow> mbedtls_md5_context \<Rightarrow> mbedtls_md5_context" where
  "mbedtls_md5_clone dst src = src"

definition md5_start_state :: "u32 \<times> u32 \<times> u32 \<times> u32" where
  "md5_start_state = (0x67452301, 0xEFCDAB89, 0x98BADCFE, 0x10325476)"

definition mbedtls_md5_starts :: "mbedtls_md5_context \<Rightarrow> int \<times> mbedtls_md5_context" where
  "mbedtls_md5_starts ctx = (0, ctx\<lparr>md5_total := (0, 0), md5_state := md5_start_state\<rparr>)"

section \<open>A block\<close>

text \<open>The macro \<open>S\<close>, and \<open>P\<close> for the four functions \<open>F\<close>. One step computes the new \<open>a\<close>; the calls of
  the code turn the roles of the four variables by one place each time, and so does the step.\<close>

definition md5_rotate :: "nat \<Rightarrow> u32 \<Rightarrow> u32" where
  "md5_rotate n x = push_bit n x OR drop_bit (32 - n) (x AND 0xFFFFFFFF)"

definition md5_F1 :: "u32 \<Rightarrow> u32 \<Rightarrow> u32 \<Rightarrow> u32" where "md5_F1 x y z = z XOR (x AND (y XOR z))"
definition md5_F2 :: "u32 \<Rightarrow> u32 \<Rightarrow> u32 \<Rightarrow> u32" where "md5_F2 x y z = y XOR (z AND (x XOR y))"
definition md5_F3 :: "u32 \<Rightarrow> u32 \<Rightarrow> u32 \<Rightarrow> u32" where "md5_F3 x y z = x XOR y XOR z"
definition md5_F4 :: "u32 \<Rightarrow> u32 \<Rightarrow> u32 \<Rightarrow> u32" where "md5_F4 x y z = y XOR (x OR NOT z)"

definition md5_step :: "(u32 \<Rightarrow> u32 \<Rightarrow> u32 \<Rightarrow> u32) \<Rightarrow> u32 list \<Rightarrow> nat \<times> nat \<times> u32
    \<Rightarrow> u32 \<times> u32 \<times> u32 \<times> u32 \<Rightarrow> u32 \<times> u32 \<times> u32 \<times> u32" where
  "md5_step F X step st = (case step of (k, s, t) \<Rightarrow> (case st of (a, b, c, d) \<Rightarrow>
     (d, md5_rotate s (a + F b c d + X ! k + t) + b, b, c)))"

definition md5_round1 :: "(nat \<times> nat \<times> u32) list" where
  "md5_round1 =
    [(0, 7, 0xD76AA478), (1, 12, 0xE8C7B756), (2, 17, 0x242070DB), (3, 22, 0xC1BDCEEE),
     (4, 7, 0xF57C0FAF), (5, 12, 0x4787C62A), (6, 17, 0xA8304613), (7, 22, 0xFD469501),
     (8, 7, 0x698098D8), (9, 12, 0x8B44F7AF), (10, 17, 0xFFFF5BB1), (11, 22, 0x895CD7BE),
     (12, 7, 0x6B901122), (13, 12, 0xFD987193), (14, 17, 0xA679438E), (15, 22, 0x49B40821)]"

definition md5_round2 :: "(nat \<times> nat \<times> u32) list" where
  "md5_round2 =
    [(1, 5, 0xF61E2562), (6, 9, 0xC040B340), (11, 14, 0x265E5A51), (0, 20, 0xE9B6C7AA),
     (5, 5, 0xD62F105D), (10, 9, 0x02441453), (15, 14, 0xD8A1E681), (4, 20, 0xE7D3FBC8),
     (9, 5, 0x21E1CDE6), (14, 9, 0xC33707D6), (3, 14, 0xF4D50D87), (8, 20, 0x455A14ED),
     (13, 5, 0xA9E3E905), (2, 9, 0xFCEFA3F8), (7, 14, 0x676F02D9), (12, 20, 0x8D2A4C8A)]"

definition md5_round3 :: "(nat \<times> nat \<times> u32) list" where
  "md5_round3 =
    [(5, 4, 0xFFFA3942), (8, 11, 0x8771F681), (11, 16, 0x6D9D6122), (14, 23, 0xFDE5380C),
     (1, 4, 0xA4BEEA44), (4, 11, 0x4BDECFA9), (7, 16, 0xF6BB4B60), (10, 23, 0xBEBFBC70),
     (13, 4, 0x289B7EC6), (0, 11, 0xEAA127FA), (3, 16, 0xD4EF3085), (6, 23, 0x04881D05),
     (9, 4, 0xD9D4D039), (12, 11, 0xE6DB99E5), (15, 16, 0x1FA27CF8), (2, 23, 0xC4AC5665)]"

definition md5_round4 :: "(nat \<times> nat \<times> u32) list" where
  "md5_round4 =
    [(0, 6, 0xF4292244), (7, 10, 0x432AFF97), (14, 15, 0xAB9423A7), (5, 21, 0xFC93A039),
     (12, 6, 0x655B59C3), (3, 10, 0x8F0CCC92), (10, 15, 0xFFEFF47D), (1, 21, 0x85845DD1),
     (8, 6, 0x6FA87E4F), (15, 10, 0xFE2CE6E0), (6, 15, 0xA3014314), (13, 21, 0x4E0811A1),
     (4, 6, 0xF7537E82), (11, 10, 0xBD3AF235), (2, 15, 0x2AD7D2BB), (9, 21, 0xEB86D391)]"

definition md5_words :: "bytes \<Rightarrow> u32 list" where
  "md5_words data = map (\<lambda>k. un32 (drop (4 * k) data)) [0..<16]"

definition md5_compress :: "u32 \<times> u32 \<times> u32 \<times> u32 \<Rightarrow> bytes \<Rightarrow> u32 \<times> u32 \<times> u32 \<times> u32" where
  "md5_compress st data = (let X = md5_words data in
     (case fold (md5_step md5_F4 X) md5_round4 (fold (md5_step md5_F3 X) md5_round3
            (fold (md5_step md5_F2 X) md5_round2 (fold (md5_step md5_F1 X) md5_round1 st))) of
        (A, B, C, D) \<Rightarrow> (case st of (s0, s1, s2, s3) \<Rightarrow> (s0 + A, s1 + B, s2 + C, s3 + D))))"

text \<open>\<open>mbedtls_internal_md5_process\<close> reads 64 bytes of its data.\<close>

definition mbedtls_internal_md5_process :: "mbedtls_md5_context \<Rightarrow> bytes
    \<Rightarrow> (int \<times> mbedtls_md5_context) option" where
  "mbedtls_internal_md5_process ctx data =
     (if length data < 64 then None
      else Some (0, ctx\<lparr>md5_state := md5_compress (md5_state ctx) (take 64 data)\<rparr>))"

section \<open>Update and finish\<close>

text \<open>\<open>memcpy(buffer + pos, v, n)\<close>\<close>

definition write_at :: "bytes \<Rightarrow> nat \<Rightarrow> bytes \<Rightarrow> bytes option" where
  "write_at buf pos v =
     (if pos + length v \<le> length buf then Some (take pos buf @ v @ drop (pos + length v) buf) else None)"

text \<open>The loop over the full blocks of the input, with the rest.\<close>

function md5_full_blocks :: "mbedtls_md5_context \<Rightarrow> bytes
    \<Rightarrow> ((int \<times> mbedtls_md5_context) \<times> bytes) option" where
  "md5_full_blocks ctx input =
     (if length input \<ge> 64 then do {
        (ret, ctx1) \<leftarrow> mbedtls_internal_md5_process ctx input;
        (if ret \<noteq> 0 then Some ((ret, ctx1), input) else md5_full_blocks ctx1 (drop 64 input)) }
      else Some ((0, ctx), input))"
  by pat_completeness auto
termination by (relation "measure (\<lambda>(c, i). length i)") auto

declare md5_full_blocks.simps [simp del]

text \<open>\<open>mbedtls_md5_update\<close>; the length of the input is below \<open>2 ^ 64\<close>, and only its low 32 bits are
  added to the total.\<close>

definition mbedtls_md5_update :: "mbedtls_md5_context \<Rightarrow> bytes
    \<Rightarrow> (int \<times> mbedtls_md5_context) option" where
  "mbedtls_md5_update ctx input =
     (if input = [] then Some (0, ctx)
      else do {
        let left = unat (fst (md5_total ctx) AND 0x3F);
        let fill = 64 - left;
        let total0 = fst (md5_total ctx) + of_nat (length input);
        let total1 = (if total0 < of_nat (length input) then snd (md5_total ctx) + 1 else snd (md5_total ctx));
        let ctx1 = ctx\<lparr>md5_total := (total0, total1)\<rparr>;
        (left1, (ret, ctx2), input1) \<leftarrow>
          (if left \<noteq> 0 \<and> length input \<ge> fill then do {
             buf \<leftarrow> write_at (md5_buffer ctx1) left (take fill input);
             (ret, ctx2) \<leftarrow> mbedtls_internal_md5_process (ctx1\<lparr>md5_buffer := buf\<rparr>) buf;
             Some (0, (ret, ctx2), drop fill input) }
           else Some (left, (0, ctx1), input));
        (if ret \<noteq> 0 then Some (ret, ctx2)
         else do {
           ((ret, ctx3), rest) \<leftarrow> md5_full_blocks ctx2 input1;
           (if ret \<noteq> 0 then Some (ret, ctx3)
            else if rest \<noteq> [] then do {
              buf \<leftarrow> write_at (md5_buffer ctx3) left1 rest;
              Some (0, ctx3\<lparr>md5_buffer := buf\<rparr>) }
            else Some (0, ctx3)) }) })"

definition digest_bytes :: "u32 \<times> u32 \<times> u32 \<times> u32 \<Rightarrow> bytes" where
  "digest_bytes st = (case st of (s0, s1, s2, s3) \<Rightarrow> le32 s0 @ le32 s1 @ le32 s2 @ le32 s3)"

text \<open>\<open>mbedtls_md5_finish\<close>: the error code, the digest written to \<open>output\<close>, and the context, which is
  wiped on every path.\<close>

definition mbedtls_md5_finish :: "mbedtls_md5_context \<Rightarrow> bytes \<Rightarrow> (int \<times> bytes \<times> mbedtls_md5_context) option" where
  "mbedtls_md5_finish ctx output = do {
     let (total0, total1) = md5_total ctx;
     let used0 = unat (total0 AND 0x3F);
     buf0 \<leftarrow> write_at (md5_buffer ctx) used0 [CHR 0x80];
     let used = used0 + 1;
     (ret, ctx1) \<leftarrow>
       (if used \<le> 56 then do {
          b \<leftarrow> write_at buf0 used (replicate (56 - used) NUL);
          Some (0, ctx\<lparr>md5_buffer := b\<rparr>) }
        else do {
          b \<leftarrow> write_at buf0 used (replicate (64 - used) NUL);
          (ret, c) \<leftarrow> mbedtls_internal_md5_process (ctx\<lparr>md5_buffer := b\<rparr>) b;
          (if ret \<noteq> 0 then Some (ret, c)
           else do {
             b2 \<leftarrow> write_at (md5_buffer c) 0 (replicate 56 NUL);
             Some (0, c\<lparr>md5_buffer := b2\<rparr>) }) });
     (if ret \<noteq> 0 then Some (ret, output, mbedtls_md5_free ctx1)
      else do {
        let high = drop_bit 29 total0 OR push_bit 3 total1;
        let low = push_bit 3 total0;
        buf2 \<leftarrow> write_at (md5_buffer ctx1) 56 (le32 low);
        buf3 \<leftarrow> write_at buf2 60 (le32 high);
        (ret, ctx2) \<leftarrow> mbedtls_internal_md5_process (ctx1\<lparr>md5_buffer := buf3\<rparr>) buf3;
        (if ret \<noteq> 0 then Some (ret, output, mbedtls_md5_free ctx2)
         else do {
           out \<leftarrow> write_at output 0 (digest_bytes (md5_state ctx2));
           Some (0, out, mbedtls_md5_free ctx2) }) }) }"

text \<open>\<open>mbedtls_md5\<close>: the digest of a text at once.\<close>

definition mbedtls_md5 :: "bytes \<Rightarrow> bytes \<Rightarrow> (int \<times> bytes) option" where
  "mbedtls_md5 input output =
     (case mbedtls_md5_starts mbedtls_md5_init of (ret, ctx) \<Rightarrow>
        if ret \<noteq> 0 then Some (ret, output)
        else do {
          (ret, ctx1) \<leftarrow> mbedtls_md5_update ctx input;
          (if ret \<noteq> 0 then Some (ret, output)
           else do {
             (ret, out, ctx2) \<leftarrow> mbedtls_md5_finish ctx1 output;
             Some (ret, out) }) })"

section \<open>The self test\<close>

definition md5_test_buf :: "bytes list" where
  "md5_test_buf =
    [[], ''a'', ''abc'', ''message digest'', ''abcdefghijklmnopqrstuvwxyz'',
     ''ABCDEFGHIJKLMNOPQRSTUVWXYZabcdefghijklmnopqrstuvwxyz0123456789'',
     ''12345678901234567890123456789012345678901234567890123456789012345678901234567890'']"

definition md5_test_buflen :: "nat list" where
  "md5_test_buflen = [0, 1, 3, 14, 26, 62, 80]"

definition md5_test_sum :: "bytes list" where
  "md5_test_sum = map (map (char_of :: int \<Rightarrow> char))
    [[0xD4, 0x1D, 0x8C, 0xD9, 0x8F, 0x00, 0xB2, 0x04, 0xE9, 0x80, 0x09, 0x98, 0xEC, 0xF8, 0x42, 0x7E],
     [0x0C, 0xC1, 0x75, 0xB9, 0xC0, 0xF1, 0xB6, 0xA8, 0x31, 0xC3, 0x99, 0xE2, 0x69, 0x77, 0x26, 0x61],
     [0x90, 0x01, 0x50, 0x98, 0x3C, 0xD2, 0x4F, 0xB0, 0xD6, 0x96, 0x3F, 0x7D, 0x28, 0xE1, 0x7F, 0x72],
     [0xF9, 0x6B, 0x69, 0x7D, 0x7C, 0xB7, 0x93, 0x8D, 0x52, 0x5A, 0x2F, 0x31, 0xAA, 0xF1, 0x61, 0xD0],
     [0xC3, 0xFC, 0xD3, 0xD7, 0x61, 0x92, 0xE4, 0x00, 0x7D, 0xFB, 0x49, 0x6C, 0xCA, 0x67, 0xE1, 0x3B],
     [0xD1, 0x74, 0xAB, 0x98, 0xD2, 0x77, 0xD9, 0xF5, 0xA5, 0x61, 0x1C, 0x2C, 0x9F, 0x41, 0x9D, 0x9F],
     [0x57, 0xED, 0xF4, 0xA2, 0x2B, 0xE3, 0xC9, 0x55, 0xAC, 0x49, 0xDA, 0x2E, 0x21, 0x07, 0xB6, 0x7A]]"

text \<open>The loop over the vectors, without the printing: the first that fails ends it.\<close>

fun md5_self_test_loop :: "(bytes \<times> nat \<times> bytes) list \<Rightarrow> bytes \<Rightarrow> int option" where
  "md5_self_test_loop [] md5sum = Some 0"
| "md5_self_test_loop ((buf, len, want) # rest) md5sum = do {
     (ret, md5sum1) \<leftarrow> mbedtls_md5 (take len buf) md5sum;
     (if ret \<noteq> 0 then Some ret
      else if md5sum1 \<noteq> want then Some 1
      else md5_self_test_loop rest md5sum1) }"

definition mbedtls_md5_self_test :: "bytes \<Rightarrow> int option" where
  "mbedtls_md5_self_test md5sum =
     md5_self_test_loop (zip md5_test_buf (zip md5_test_buflen md5_test_sum)) md5sum"

section \<open>The digest by padding\<close>

text \<open>RFC 1321: the text, a byte \<open>0x80\<close>, zeros up to 8 bytes before the end of a block, and the number of
  bits in 64 bits.\<close>

definition md5_padded :: "bytes \<Rightarrow> bytes" where
  "md5_padded m = m @ [CHR 0x80] @ replicate ((119 - length m mod 64) mod 64) NUL
     @ le32 (of_int (8 * int (length m))) @ le32 (of_int (8 * int (length m) div 2 ^ 32))"

function md5_blocks :: "u32 \<times> u32 \<times> u32 \<times> u32 \<Rightarrow> bytes \<Rightarrow> u32 \<times> u32 \<times> u32 \<times> u32" where
  "md5_blocks st m = (if length m < 64 then st else md5_blocks (md5_compress st (take 64 m)) (drop 64 m))"
  by pat_completeness auto
termination by (relation "measure (\<lambda>(s, m). length m)") auto

declare md5_blocks.simps [simp del]

definition md5_of :: "bytes \<Rightarrow> bytes" where
  "md5_of m = digest_bytes (md5_blocks md5_start_state (md5_padded m))"

end
