(* ===== verification/FileUtil.thy ===== *)
theory FileUtil
  imports FileSys
begin

text \<open>
  The file helpers of \<^verbatim>\<open>libfs\<close>: the configuration (NV) files of \<^verbatim>\<open>src/cm_file_util.c\<close>
  (\<open>cm_nv_write\<close>, \<open>cm_nv_read\<close> and their factory variants), the size and range checks on an open
  stream, the directory test, the digest of a file, and \<open>cm_fsize_info\<close> of
  \<^verbatim>\<open>src/cm_file_platform.c\<close>. Null pointers are \<open>None\<close> arguments.
\<close>

section \<open>NV files\<close>

definition CM_NV_DIR :: string where
  "CM_NV_DIR = ''./''"

definition CM_FACTORY_NVDIR :: string where
  "CM_FACTORY_NVDIR = ''productinfo/''"

text \<open>\<open>sprintf(buf, "%s%s", d, f)\<close> into an array of \<open>cap\<close> bytes.\<close>

definition sprintf_path :: "nat \<Rightarrow> string \<Rightarrow> string \<Rightarrow> string option" where
  "sprintf_path cap d f = (if length d + length f < cap then Some (d @ f) else None)"

text \<open>The body the two writers share; the directory is their only difference.\<close>

definition nv_write_in :: "string \<Rightarrow> string option \<Rightarrow> bytes option \<Rightarrow> u32 \<Rightarrow> filesys
    \<Rightarrow> (int \<times> filesys) option" where
  "nv_write_in dir filename data datalen s =
     (case (filename, data) of
        (Some fn, Some d) \<Rightarrow>
          if datalen = 0 \<or> length fn > 64 then Some (-1, s)
          else do {
            real_name \<leftarrow> sprintf_path 128 dir fn;
            (ret, s1) \<leftarrow> write_whole real_name d (unat datalen) s;
            Some (case ret of
                None \<Rightarrow> -1
              | Some k \<Rightarrow> if k \<noteq> 1 then -1 else sint datalen, s1) }
      | _ \<Rightarrow> Some (-1, s))"

definition cm_nv_write :: "string option \<Rightarrow> bytes option \<Rightarrow> u32 \<Rightarrow> filesys
    \<Rightarrow> (int \<times> filesys) option" where
  "cm_nv_write = nv_write_in CM_NV_DIR"

definition cm_factory_nv_write :: "string option \<Rightarrow> bytes option \<Rightarrow> u32 \<Rightarrow> filesys
    \<Rightarrow> (int \<times> filesys) option" where
  "cm_factory_nv_write = nv_write_in CM_FACTORY_NVDIR"

text \<open>The body the two readers share. A short file returns without closing the stream.\<close>

definition nv_read_in :: "string \<Rightarrow> string option \<Rightarrow> bytes option \<Rightarrow> u32 \<Rightarrow> filesys
    \<Rightarrow> (int \<times> bytes option \<times> filesys) option" where
  "nv_read_in dir filename data datalen s =
     (case (filename, data) of
        (Some fn, Some buf) \<Rightarrow>
          if datalen = 0 \<or> length fn > 64 then Some (-1, data, s)
          else do {
            real_name \<leftarrow> sprintf_path 128 dir fn;
            (case fopen_rd real_name s of
               (None, s1) \<Rightarrow> Some (-1, data, s1)
             | (Some f, s1) \<Rightarrow> do {
                 (ret, buf', f') \<leftarrow> fread1 f buf (unat datalen) s1;
                 (if ret \<noteq> 1 then Some (-1, Some buf', s1)
                  else Some (sint datalen, Some buf', fclose_fs s1)) }) }
      | _ \<Rightarrow> Some (-1, data, s))"

definition cm_nv_read :: "string option \<Rightarrow> bytes option \<Rightarrow> u32 \<Rightarrow> filesys
    \<Rightarrow> (int \<times> bytes option \<times> filesys) option" where
  "cm_nv_read = nv_read_in CM_NV_DIR"

definition cm_factory_nv_read :: "string option \<Rightarrow> bytes option \<Rightarrow> u32 \<Rightarrow> filesys
    \<Rightarrow> (int \<times> bytes option \<times> filesys) option" where
  "cm_factory_nv_read = nv_read_in CM_FACTORY_NVDIR"

text \<open>What the callers may pass: a short name and a buffer that holds \<open>datalen\<close> bytes.\<close>

definition nv_args :: "string \<Rightarrow> string \<Rightarrow> bytes \<Rightarrow> u32 \<Rightarrow> bool" where
  "nv_args dir fn d n \<longleftrightarrow> length dir < 64 \<and> length fn \<le> 64 \<and> n \<noteq> 0 \<and> unat n \<le> length d"

lemma sprintf_path_short:
  "length d < 64 \<Longrightarrow> length f \<le> 64 \<Longrightarrow> sprintf_path 128 d f = Some (d @ f)"
  by (simp add: sprintf_path_def)

lemma nv_write_ok:
  assumes "nv_args dir fn d n" and "can_write (resolve (dir @ fn)) s" and "unat n \<le> fs_room s + file_size (resolve (dir @ fn)) s"
  shows "nv_write_in dir (Some fn) (Some d) n s = Some (sint n,
     s\<lparr>fs_files := (fs_files s)(resolve (dir @ fn) \<mapsto> take (unat n) d),
       fs_room := fs_room s + file_size (resolve (dir @ fn)) s - unat n\<rparr>)"
  using assms
  by (simp add: nv_write_in_def nv_args_def sprintf_path_short write_whole_ok)

lemma nv_read_ok:
  assumes "nv_args dir fn buf n" and "resolve (dir @ fn) \<noteq> []" and "resolve (dir @ fn) \<notin> fs_deny s"
    and "fs_files s (resolve (dir @ fn)) = Some b" and "unat n \<le> length b"
  shows "nv_read_in dir (Some fn) (Some buf) n s
     = Some (sint n, Some (take (unat n) b @ drop (unat n) buf), s)"
  using assms
  by (simp add: nv_read_in_def nv_args_def sprintf_path_short fopen_rd_def can_read_def
      fread1_def file_bytes_def fclose_fs_def)

lemma nv_read_short:
  assumes "nv_args dir fn buf n" and "resolve (dir @ fn) \<noteq> []" and "resolve (dir @ fn) \<notin> fs_deny s"
    and "fs_files s (resolve (dir @ fn)) = Some b" and "length b < unat n"
  shows "nv_read_in dir (Some fn) (Some buf) n s
     = Some (-1, Some (b @ drop (length b) buf), s\<lparr>fs_open := Suc (fs_open s)\<rparr>)"
  using assms
  by (simp add: nv_read_in_def nv_args_def sprintf_path_short fopen_rd_def can_read_def
      fread1_def file_bytes_def)

lemma nv_write_no_fault:
  assumes "length dir < 64" and "\<And>d. data = Some d \<Longrightarrow> unat n \<le> length d"
  shows "\<exists>r s'. nv_write_in dir filename data n s = Some (r, s') \<and> fs_open s' = fs_open s"
proof (cases "\<exists>fn d. filename = Some fn \<and> data = Some d \<and> n \<noteq> 0 \<and> length fn \<le> 64")
  case True
  then obtain fn d where fd: "filename = Some fn" "data = Some d" "n \<noteq> 0" "length fn \<le> 64"
    by blast
  obtain r s' where "write_whole (dir @ fn) d (unat n) s = Some (r, s')" "fs_open s' = fs_open s"
    using write_whole_no_fault [OF assms(2) [OF fd(2)]] by blast
  then show ?thesis
    using fd assms(1) by (simp add: nv_write_in_def sprintf_path_short)
next
  case False
  then show ?thesis
    by (auto simp: nv_write_in_def split: option.splits)
qed

lemma length_nv_dirs: "length CM_NV_DIR < 64" "length CM_FACTORY_NVDIR < 64"
  by (simp_all add: CM_NV_DIR_def CM_FACTORY_NVDIR_def)

text \<open>Reading back what was just written, in the same directory.\<close>

lemma nv_roundtrip:
  assumes "nv_args dir fn d n" and "can_write (resolve (dir @ fn)) s" and "unat n \<le> fs_room s + file_size (resolve (dir @ fn)) s"
    and "unat n \<le> length buf"
  shows "\<exists>s'. nv_write_in dir (Some fn) (Some d) n s = Some (sint n, s') \<and>
     nv_read_in dir (Some fn) (Some buf) n s'
       = Some (sint n, Some (take (unat n) d @ drop (unat n) buf), s')"
proof -
  let ?s' = "s\<lparr>fs_files := (fs_files s)(resolve (dir @ fn) \<mapsto> take (unat n) d),
       fs_room := fs_room s + file_size (resolve (dir @ fn)) s - unat n\<rparr>"
  have "nv_read_in dir (Some fn) (Some buf) n ?s'
       = Some (sint n, Some (take (unat n) (take (unat n) d) @ drop (unat n) buf), ?s')"
    using assms by (intro nv_read_ok) (auto simp: nv_args_def can_write_def dir_exists_def)
  then show ?thesis
    using nv_write_ok [OF assms(1-3)] by simp
qed

section \<open>Size of an open file and range checks\<close>

text \<open>\<open>cm_file_get_size_by_file_point\<close>: the size through a 32-bit variable, and the stream with its
  position put back, also through a 32-bit variable.\<close>

definition cm_file_get_size_by_file_point :: "FILE \<Rightarrow> filesys \<Rightarrow> u32 \<times> FILE" where
  "cm_file_get_size_by_file_point fp s =
     (let pos = (of_nat (f_pos fp) :: u32);
          fp1 = fp\<lparr>f_pos := length (file_bytes fp s)\<rparr>;
          size = (of_nat (f_pos fp1) :: u32)
      in (size, fp1\<lparr>f_pos := unat pos\<rparr>))"

text \<open>\<open>is_fs_OverFlow(fp, offset, dir)\<close>. Every comparison between \<open>offset\<close> and an unsigned value is
  made on unsigned words, so a test for a negative sum is constantly false.\<close>

definition is_fs_OverFlow :: "FILE \<Rightarrow> u32 \<Rightarrow> u32 \<Rightarrow> filesys \<Rightarrow> bool" where
  "is_fs_OverFlow fp offset dir s =
     (let (fsize, fp1) = cm_file_get_size_by_file_point fp s;
          curPos = (of_nat (f_pos fp1) :: u32)
      in if dir = 0 then sint offset < 0 \<or> offset > fsize
         else if dir = 1 then offset + curPos > fsize \<or> offset + curPos < 0
         else sint offset > 0 \<or> fsize + offset < 0)"

text \<open>What the check is for: does moving by \<open>offset\<close> leave the file?\<close>

definition seek_target :: "nat \<Rightarrow> nat \<Rightarrow> u32 \<Rightarrow> u32 \<Rightarrow> int" where
  "seek_target pos sz offset dir =
     (if dir = 0 then 0 else if dir = 1 then int pos else int sz) + sint offset"

definition seek_leaves :: "nat \<Rightarrow> nat \<Rightarrow> u32 \<Rightarrow> u32 \<Rightarrow> bool" where
  "seek_leaves pos sz offset dir \<longleftrightarrow>
     seek_target pos sz offset dir < 0 \<or> seek_target pos sz offset dir > int sz"

lemma size_of_file_point:
  assumes "length (file_bytes fp s) < 2 ^ 32" and "f_pos fp < 2 ^ 32"
  shows "cm_file_get_size_by_file_point fp s = (of_nat (length (file_bytes fp s)), fp)"
    and "unat (fst (cm_file_get_size_by_file_point fp s)) = length (file_bytes fp s)"
  using assms
  by (simp_all add: cm_file_get_size_by_file_point_def Let_def unat_of_nat32)

lemma is_fs_OverFlow_start:
  assumes "length (file_bytes fp s) < 2 ^ 32" and "f_pos fp < 2 ^ 32"
  shows "is_fs_OverFlow fp offset 0 s
    = seek_leaves (f_pos fp) (length (file_bytes fp s)) offset 0"
proof -
  have "offset > of_nat (length (file_bytes fp s)) \<longleftrightarrow> unat offset > length (file_bytes fp s)"
    using assms(1) by (simp add: word_less_nat_alt unat_of_nat32)
  then show ?thesis
    using size_of_file_point(1) [OF assms] unat_lt32 [of offset]
    by (auto simp: is_fs_OverFlow_def seek_leaves_def seek_target_def sint_word_cases
        simp del: of_nat_unat)
qed

lemma is_fs_OverFlow_current:
  assumes "length (file_bytes fp s) < 2 ^ 31" and "f_pos fp \<le> length (file_bytes fp s)"
  shows "is_fs_OverFlow fp offset 1 s
    = seek_leaves (f_pos fp) (length (file_bytes fp s)) offset 1"
proof -
  let ?n = "length (file_bytes fp s)"
  have b: "?n < 2 ^ 32" "f_pos fp < 2 ^ 32" using assms by simp_all
  have u: "unat (offset + of_nat (f_pos fp)) = (unat offset + f_pos fp) mod 2 ^ 32"
    using b(2) by (simp add: unat_word_ariths unat_of_nat32)
  have "offset + of_nat (f_pos fp) > of_nat ?n
      \<longleftrightarrow> ?n < (unat offset + f_pos fp) mod 2 ^ 32"
    using b(1) by (simp add: word_less_nat_alt unat_of_nat32 u)
  also have "\<dots> \<longleftrightarrow> seek_leaves (f_pos fp) ?n offset 1"
  proof (cases "unat offset < 2 ^ 31")
    case True
    then have "(unat offset + f_pos fp) mod 2 ^ 32 = unat offset + f_pos fp"
      using assms by simp
    then show ?thesis
      using True by (auto simp: seek_leaves_def seek_target_def sint_word_cases
          simp del: of_nat_unat)
  next
    case False
    then show ?thesis
      using assms unat_lt32 [of offset] mod_wrap32 [of "unat offset" "f_pos fp"]
      by (auto simp: seek_leaves_def seek_target_def sint_word_cases simp del: of_nat_unat)
  qed
  finally show ?thesis
    using size_of_file_point(1) [OF b] by (simp add: is_fs_OverFlow_def)
qed

lemma is_fs_OverFlow_end:
  assumes "dir \<noteq> 0" and "dir \<noteq> 1"
  shows "is_fs_OverFlow fp offset dir s \<longleftrightarrow> 0 < sint offset"
  using assms by (simp add: is_fs_OverFlow_def split: prod.splits)

section \<open>Directory names\<close>

text \<open>\<open>fs_check_dir\<close>: a null name stops at the assertion, an empty name reads before the string;
  both are faults.\<close>

definition fs_check_dir :: "string option \<Rightarrow> bool option" where
  "fs_check_dir fname = do {
     fn \<leftarrow> fname;
     (if fn = [] then None else Some (last fn = CHR ''/'')) }"

section \<open>The digest of a file\<close>

text \<open>
  \<open>fs_md5\<close> over the hash functions of mbedtls, which are parameters: \<open>starts\<close>, \<open>update\<close> and
  \<open>finish\<close> return an error code with the context or the digest. \<open>fread(buff, 8, 1, fp)\<close> gives
  the number of items, 0 or 1, and that number is the length handed to \<open>update\<close>. The loop runs
  over the bytes the stream has left.
\<close>

definition FS_READBUFF_LEN :: nat where
  "FS_READBUFF_LEN = 8"

function fs_md5_loop :: "('c \<Rightarrow> bytes \<Rightarrow> int \<times> 'c) \<Rightarrow> 'c \<Rightarrow> bytes \<Rightarrow> int \<times> 'c" where
  "fs_md5_loop update ctx rest =
     (let readLen = (if FS_READBUFF_LEN \<le> length rest then 1 else 0 :: nat);
          buff = take FS_READBUFF_LEN rest
      in if readLen > 0
         then (let (ret, ctx') = update ctx (take readLen buff)
               in if ret \<noteq> 0 then (ret, ctx')
                  else fs_md5_loop update ctx' (drop FS_READBUFF_LEN rest))
         else (0, ctx))"
  by pat_completeness auto
termination
  by (relation "measure (\<lambda>(u, c, r). length r)") (auto simp: FS_READBUFF_LEN_def split: if_splits)

declare fs_md5_loop.simps [simp del]

definition fs_md5 :: "int \<times> 'c \<Rightarrow> ('c \<Rightarrow> bytes \<Rightarrow> int \<times> 'c) \<Rightarrow> ('c \<Rightarrow> int \<times> bytes)
    \<Rightarrow> bool \<Rightarrow> FILE \<Rightarrow> bytes \<Rightarrow> filesys \<Rightarrow> (int \<times> bytes) option" where
  "fs_md5 starts update finish malloc_ok fp output s =
     (case starts of (ret, ctx) \<Rightarrow>
        if ret \<noteq> 0 then Some (ret, output)
        else if \<not> malloc_ok then None
        else (case fs_md5_loop update ctx (drop (f_pos fp) (file_bytes fp s)) of (ret, ctx1) \<Rightarrow>
          if ret \<noteq> 0 then Some (ret, output)
          else (case finish ctx1 of (ret, data) \<Rightarrow>
            if ret \<noteq> 0 then Some (ret, output)
            else do { out \<leftarrow> arr_copy (take 16 data) output; Some (ret, out) })))"

text \<open>The bytes that reach the hash: the first of every full block of eight.\<close>

function hashed_part :: "bytes \<Rightarrow> bytes" where
  "hashed_part b = (if length b < 8 then [] else hd b # hashed_part (drop 8 b))"
  by pat_completeness auto
termination
  by (relation "measure length") auto

declare hashed_part.simps [simp del]

lemma fs_md5_loop_hashed:
  assumes "\<And>c b. fst (update c b) = 0"
  shows "fs_md5_loop update ctx rest
     = (0, foldl (\<lambda>c b. snd (update c [b])) ctx (hashed_part rest))"
proof (induction rest arbitrary: ctx rule: hashed_part.induct)
  case (1 rest)
  show ?case
  proof (cases "length rest < 8")
    case True
    then show ?thesis
      by (simp add: fs_md5_loop.simps [of update ctx rest] hashed_part.simps [of rest]
          FS_READBUFF_LEN_def)
  next
    case False
    then obtain c r where r: "rest = c # r" by (cases rest) auto
    obtain ctx' where u: "update ctx [c] = (0, ctx')"
      using assms by (metis prod.collapse)
    have "hashed_part rest = c # hashed_part (drop 8 rest)"
      using False r by (subst hashed_part.simps) simp
    then show ?thesis
      using 1 [of ctx'] False r u
      by (subst fs_md5_loop.simps) (simp add: FS_READBUFF_LEN_def)
  qed
qed

lemma length_hashed_part: "length (hashed_part b) = length b div 8"
proof (induction b rule: hashed_part.induct)
  case (1 b)
  then show ?case
    by (cases "length b < 8") (simp_all add: hashed_part.simps [of b] le_div_geq)
qed

section \<open>Sizes of the file system\<close>

record fs_size_info_t =
  file_system_total_size :: u32
  file_system_remain_size :: u32

text \<open>\<open>cm_fsize_info\<close>; the argument is what \<open>statvfs\<close> reports for the path: the block size and
  the numbers of blocks and of available blocks, all unsigned 64-bit.\<close>

definition cm_fsize_info :: "(64 word \<times> 64 word \<times> 64 word) option \<Rightarrow> fs_size_info_t
    \<Rightarrow> int \<times> fs_size_info_t" where
  "cm_fsize_info st info =
     (case st of
        None \<Rightarrow> (-1, info)
      | Some (frsize, blocks, bavail) \<Rightarrow>
          (0, info\<lparr>file_system_total_size := ucast (frsize * blocks),
                         file_system_remain_size := ucast (frsize * bavail)\<rparr>))"

end
