(* ===== verification/Md5Facts.thy ===== *)
theory Md5Facts
  imports Md5 FileUtil
begin

text \<open>
  The functions of \<open>Md5\<close> compute the digest that RFC 1321 defines by padding: what a context stands
  for, that updates keep it, and what \<open>finish\<close> makes of it; the digest of a file.
\<close>

section \<open>Blocks of a text\<close>

lemma md5_blocks_short: "length m < 64 \<Longrightarrow> md5_blocks st m = st"
  by (simp add: md5_blocks.simps [of st m])

lemma md5_blocks_one: "length a = 64 \<Longrightarrow> md5_blocks st (a @ b) = md5_blocks (md5_compress st a) b"
  by (simp add: md5_blocks.simps [of st "a @ b"])

definition full_blocks :: "bytes \<Rightarrow> bytes" where
  "full_blocks m = take (64 * (length m div 64)) m"

definition rest_bytes :: "bytes \<Rightarrow> bytes" where
  "rest_bytes m = drop (64 * (length m div 64)) m"

lemma length_rest_bytes [simp]: "length (rest_bytes m) = length m mod 64"
  by (simp add: rest_bytes_def minus_mult_div_eq_mod)

lemma rest_bytes_short: "length m < 64 \<Longrightarrow> rest_bytes m = m"
  by (simp add: rest_bytes_def)

lemma rest_bytes_more: "64 \<le> length m \<Longrightarrow> rest_bytes m = rest_bytes (drop 64 m)"
  by (simp add: rest_bytes_def le_div_geq add.commute)

lemma md5_blocks_append: "md5_blocks st (a @ b) = md5_blocks (md5_blocks st a) (rest_bytes a @ b)"
proof (induction st a rule: md5_blocks.induct)
  case (1 st m)
  show ?case
  proof (cases "length m < 64")
    case True
    then show ?thesis by (simp add: rest_bytes_short md5_blocks_short)
  next
    case False
    have "md5_blocks st (m @ b) = md5_blocks (md5_compress st (take 64 m)) (drop 64 m @ b)"
      using False by (simp add: md5_blocks.simps [of st "m @ b"])
    then show ?thesis
      using 1 False by (simp add: rest_bytes_more md5_blocks.simps [of st m])
  qed
qed

lemma md5_full_blocks_all:
  "md5_full_blocks ctx i = Some ((0, ctx\<lparr>md5_state := md5_blocks (md5_state ctx) i\<rparr>), rest_bytes i)"
proof (induction ctx i rule: md5_full_blocks.induct)
  case (1 ctx i)
  show ?case
  proof (cases "length i < 64")
    case True
    then show ?thesis by (simp add: rest_bytes_short md5_blocks_short md5_full_blocks.simps [of ctx i])
  next
    case False
    then show ?thesis
      using 1 [of "(0, ctx\<lparr>md5_state := md5_compress (md5_state ctx) (take 64 i)\<rparr>)" 0
          "ctx\<lparr>md5_state := md5_compress (md5_state ctx) (take 64 i)\<rparr>"]
      by (simp add: rest_bytes_more md5_full_blocks.simps [of ctx i] mbedtls_internal_md5_process_def
          md5_blocks.simps [of "md5_state ctx" i])
  qed
qed

section \<open>What a context stands for\<close>

text \<open>The context after the updates with the text \<open>m\<close>: the number of its bytes in two words, the state
  after its full blocks, and the bytes that do not fill a block.\<close>

definition md5_represents :: "mbedtls_md5_context \<Rightarrow> bytes \<Rightarrow> bool" where
  "md5_represents ctx m \<longleftrightarrow> md5_total ctx = (of_nat (length m), of_nat (length m div 2 ^ 32))
     \<and> md5_state ctx = md5_blocks md5_start_state m \<and> length (md5_buffer ctx) = 64
     \<and> take (length m mod 64) (md5_buffer ctx) = rest_bytes m"

lemma unat_u32: "unat (of_nat n :: u32) = n mod 2 ^ 32"
  by (simp add: unat_of_nat)

lemma md5_left: "unat ((of_nat n :: u32) AND 0x3F) = n mod 64"
proof -
  have "(of_nat n :: u32) AND 0x3F = take_bit 6 (of_nat n)"
    by (simp add: take_bit_eq_mask mask_eq_exp_minus_1)
  then have "unat ((of_nat n :: u32) AND 0x3F) = take_bit 6 (unat (of_nat n :: u32))"
    by (simp only: unsigned_take_bit_eq)
  also have "\<dots> = n mod 64"
    by (simp only: unat_u32 take_bit_eq_mod mod_mod_cancel [of "2 ^ 6" "2 ^ 32" n] le_imp_power_dvd) simp
  finally show ?thesis .
qed

lemma carry_wraps:
  fixes l n M :: nat
  assumes "n < M"
  shows "(l + n) mod M < n \<longleftrightarrow> M \<le> l mod M + n"
    and "(l + n) div M = l div M + (if M \<le> l mod M + n then 1 else 0)"
proof -
  obtain q r where l: "l = M * q + r" and r: "r < M"
    using assms by (metis mult_div_mod_eq mod_less_divisor gr_zeroI not_less_zero)
  have m: "(l + n) mod M = (r + n) mod M" "(l + n) div M = q + (r + n) div M" "l mod M = r" "l div M = q"
    using r assms by (simp_all add: l add.assoc)
  have "r + n < M \<or> M \<le> r + n \<and> (r + n) mod M = r + n - M \<and> (r + n) div M = 1"
    using r assms by (auto simp: le_mod_geq le_div_geq not_less)
  then show "(l + n) mod M < n \<longleftrightarrow> M \<le> l mod M + n"
    and "(l + n) div M = l div M + (if M \<le> l mod M + n then 1 else 0)"
    using r assms unfolding m by auto
qed

lemma md5_carry:
  assumes "n < 2 ^ 32"
  shows "(of_nat l + of_nat n < (of_nat n :: u32)) \<longleftrightarrow> 2 ^ 32 \<le> l mod 2 ^ 32 + n"
proof -
  have "unat (of_nat l + of_nat n :: u32) = (l + n) mod 2 ^ 32"
    by (simp only: of_nat_add [symmetric] unat_u32)
  moreover have "unat (of_nat n :: u32) = n" using assms by (simp only: unat_u32 mod_less)
  ultimately show ?thesis by (simp only: word_less_nat_alt carry_wraps(1) [OF assms])
qed

lemma md5_total_step:
  assumes "n < 2 ^ 32"
  shows "(if of_nat l + of_nat n < (of_nat n :: u32) then of_nat (l div 4294967296) + 1
            else of_nat (l div 4294967296))
    = (of_nat ((l + n) div 4294967296) :: u32)"
proof -
  have e: "(4294967296 :: nat) = 2 ^ 32" by simp
  show ?thesis unfolding e by (simp only: md5_carry [OF assms] carry_wraps(2) [OF assms]) simp
qed

section \<open>Update\<close>

lemma rest_bytes_append: "rest_bytes (a @ b) = rest_bytes (rest_bytes a @ b)"
proof (induction a rule: length_induct)
  case (1 a)
  show ?case
  proof (cases "length a < 64")
    case False
    then have "rest_bytes (drop 64 a @ b) = rest_bytes (rest_bytes (drop 64 a) @ b)"
      by (intro 1 [rule_format]) auto
    then show ?thesis using False by (simp add: rest_bytes_more [of a] rest_bytes_more [of "a @ b"])
  qed (simp add: rest_bytes_short)
qed

lemma write_at_tail:
  assumes "take p b = r" "length r = p" "p + length v \<le> length b"
  shows "write_at b p v = Some (r @ v @ drop (p + length v) b)"
  using assms by (simp add: write_at_def)

text \<open>The bytes left over go behind those the buffer holds; a call without any leaves the buffer.\<close>

lemma put_rest:
  assumes "take p (md5_buffer c) = r" "length r = p" "length (md5_buffer c) = 64" "p + length v \<le> 64"
  shows "\<exists>b. (if v \<noteq> [] then do { buf \<leftarrow> write_at (md5_buffer c) p v; Some (0::int, c\<lparr>md5_buffer := buf\<rparr>) }
              else Some (0, c)) = Some (0, c\<lparr>md5_buffer := b\<rparr>)
           \<and> length b = 64 \<and> take (p + length v) b = r @ v"
proof (cases "v = []")
  case True
  then show ?thesis using assms by (intro exI [of _ "md5_buffer c"]) simp
next
  case False
  then show ?thesis using assms write_at_tail [OF assms(1,2), of v]
    by (intro exI [of _ "r @ v @ drop (p + length v) (md5_buffer c)"]) simp
qed

text \<open>An update that fills the buffer, and one that does not.\<close>

lemma md5_update_fill:
  assumes rep: "md5_represents ctx m" and len: "length input < 2 ^ 32" "input \<noteq> []"
    and p: "length m mod 64 \<noteq> 0" and f: "64 - length m mod 64 \<le> length input"
  shows "\<exists>ctx'. mbedtls_md5_update ctx input = Some (0, ctx') \<and> md5_represents ctx' (m @ input)"
proof -
  let ?p = "length m mod 64" and ?r = "rest_bytes m" and ?st = "md5_blocks md5_start_state m"
  let ?tot = "(of_nat (length m) + of_nat (length input), of_nat ((length m + length input) div 4294967296)) :: u32 \<times> u32"
  define f where "f = 64 - ?p"
  define b where "b = ?r @ take f input"
  define i where "i = drop f input"
  define st2 where "st2 = md5_blocks (md5_compress ?st b) i"
  define c2 where "c2 = ctx\<lparr>md5_total := ?tot, md5_buffer := b, md5_state := st2\<rparr>"
  have c: "md5_total ctx = (of_nat (length m), of_nat (length m div 4294967296))" "md5_state ctx = ?st"
      "length (md5_buffer ctx) = 64" "take ?p (md5_buffer ctx) = ?r"
    using rep by (simp_all add: md5_represents_def)
  have b: "length b = 64" using f by (simp add: b_def f_def min_absorb2)
  have w: "write_at (md5_buffer ctx) ?p (take f input) = Some b"
    using f c(3) by (subst write_at_tail [OF c(4)]) (auto simp: min_absorb2 b_def f_def)
  have ri: "?r @ input = b @ i" by (simp add: b_def i_def)
  have bc: "md5_buffer c2 = b" by (simp add: c2_def)
  obtain buf where put: "(if rest_bytes i \<noteq> [] then do { buf \<leftarrow> write_at b 0 (rest_bytes i);
        Some (0::int, c2\<lparr>md5_buffer := buf\<rparr>) } else Some (0, c2)) = Some (0, c2\<lparr>md5_buffer := buf\<rparr>)"
    and buf: "length buf = 64" "take (length (rest_bytes i)) buf = rest_bytes i"
    using put_rest [of 0 c2 "[]" "rest_bytes i"] b unfolding bc by auto
  have "mbedtls_md5_update ctx input
      = (if rest_bytes i \<noteq> [] then do { buf \<leftarrow> write_at b 0 (rest_bytes i);
        Some (0::int, c2\<lparr>md5_buffer := buf\<rparr>) } else Some (0, c2))"
    using p f w b unfolding mbedtls_md5_update_def c(1) fst_conv snd_conv md5_left Let_def
      md5_total_step [OF len(1)] if_not_P [OF len(2)] f_def [symmetric]
    by (simp add: c(2) i_def [symmetric] mbedtls_internal_md5_process_def md5_full_blocks_all c2_def st2_def)
  moreover have "rest_bytes (m @ input) = rest_bytes i"
    using b by (subst rest_bytes_append) (simp add: ri rest_bytes_more [of "b @ i"])
  moreover have "md5_blocks md5_start_state (m @ input) = st2"
    using b by (subst md5_blocks_append) (simp only: ri md5_blocks_one st2_def)
  ultimately show ?thesis
    using put buf length_rest_bytes [of "m @ input"]
    by (intro exI [of _ "c2\<lparr>md5_buffer := buf\<rparr>"]) (simp add: md5_represents_def c2_def)
qed

lemma md5_update_keep:
  assumes rep: "md5_represents ctx m" and len: "length input < 2 ^ 32" "input \<noteq> []"
    and p: "length m mod 64 = 0 \<or> length m mod 64 + length input < 64"
  shows "\<exists>ctx'. mbedtls_md5_update ctx input = Some (0, ctx') \<and> md5_represents ctx' (m @ input)"
proof -
  let ?p = "length m mod 64" and ?r = "rest_bytes m" and ?st = "md5_blocks md5_start_state m"
  let ?tot = "(of_nat (length m) + of_nat (length input), of_nat ((length m + length input) div 4294967296)) :: u32 \<times> u32"
  define i where "i = rest_bytes input"
  define c2 where "c2 = ctx\<lparr>md5_total := ?tot, md5_state := md5_blocks ?st input\<rparr>"
  have c: "md5_total ctx = (of_nat (length m), of_nat (length m div 4294967296))" "md5_state ctx = ?st"
      "length (md5_buffer ctx) = 64" "take ?p (md5_buffer ctx) = ?r"
    using rep by (simp_all add: md5_represents_def)
  have r: "rest_bytes (?r @ input) = ?r @ i \<and> md5_blocks ?st (?r @ input) = md5_blocks ?st input
      \<and> ?p + length i \<le> 64"
    using p
  proof (elim disjE)
    assume "?p = 0"
    moreover from this have "?r = []" by (metis length_rest_bytes length_0_conv)
    ultimately show ?thesis by (simp add: less_imp_le i_def)
  qed (simp add: rest_bytes_short md5_blocks_short i_def)
  obtain buf where put: "(if i \<noteq> [] then do { buf \<leftarrow> write_at (md5_buffer c2) ?p i;
        Some (0::int, c2\<lparr>md5_buffer := buf\<rparr>) } else Some (0, c2)) = Some (0, c2\<lparr>md5_buffer := buf\<rparr>)"
    and buf: "length buf = 64" "take (?p + length i) buf = ?r @ i"
    using put_rest [of ?p c2 ?r i] c r by (auto simp: c2_def)
  have n: "\<not> (?p \<noteq> 0 \<and> 64 - ?p \<le> length input)" using p by linarith
  have "mbedtls_md5_update ctx input
      = (if i \<noteq> [] then do { buf \<leftarrow> write_at (md5_buffer c2) ?p i;
        Some (0::int, c2\<lparr>md5_buffer := buf\<rparr>) } else Some (0, c2))"
    unfolding mbedtls_md5_update_def c(1) fst_conv snd_conv md5_left Let_def if_not_P [OF n] if_not_P [OF len(2)]
    by (simp add: c(2) md5_total_step [OF len(1)] i_def md5_full_blocks_all c2_def)
  moreover have "length i = (length m + length input) mod 64 - ?p" "?p + length i = (length m + length input) mod 64"
    using r length_rest_bytes [of "?r @ input"] by (auto simp: mod_add_left_eq)
  ultimately show ?thesis
    using put buf r
    by (intro exI [of _ "c2\<lparr>md5_buffer := buf\<rparr>"])
      (simp add: md5_represents_def c2_def rest_bytes_append [of m] md5_blocks_append [of _ m])
qed

lemma md5_update_nothing: "mbedtls_md5_update ctx [] = Some (0, ctx)"
  by (simp add: mbedtls_md5_update_def)

theorem md5_update_represents:
  assumes "md5_represents ctx m" and "length input < 2 ^ 32"
  shows "\<exists>ctx'. mbedtls_md5_update ctx input = Some (0, ctx') \<and> md5_represents ctx' (m @ input)"
proof -
  have "64 - length m mod 64 \<le> length input \<or> length m mod 64 + length input < 64" by linarith
  then show ?thesis
    using md5_update_fill [OF assms] md5_update_keep [OF assms] assms(1)
    by (cases "input = []"; cases "length m mod 64 = 0") (auto simp: md5_update_nothing)
qed

lemma md5_starts_represents: "length (md5_buffer ctx) = 64 \<Longrightarrow>
    md5_represents (snd (mbedtls_md5_starts ctx)) []"
  by (simp add: mbedtls_md5_starts_def md5_represents_def md5_blocks_short rest_bytes_def)

section \<open>Finish\<close>

text \<open>The two words of the length are the low and the high half of the number of bits.\<close>

lemma of_int_nat_u32: "of_int (int n) = (of_nat n :: u32)"
  by simp

lemma md5_low: "push_bit 3 (of_nat l :: u32) = of_int (8 * int l)"
  by (simp add: push_bit_eq_mult)

lemma md5_bits:
  "drop_bit 29 (of_nat l :: u32) OR push_bit 3 (of_nat (l div 4294967296)) = of_int (8 * int l div 2 ^ 32)"
proof -
  have "8 * int l div 2 ^ 32 = int (l div 2 ^ 29)" by (simp add: zdiv_int)
  then have e: "of_int (8 * int l div 2 ^ 32) = (of_nat (drop_bit 29 l) :: u32)"
    by (simp add: drop_bit_eq_div)
  have "(4294967296 :: nat) = 2 ^ 32" by simp
  then have d: "l div 4294967296 = drop_bit 32 l" by (simp only: drop_bit_eq_div)
  show ?thesis unfolding e d
    by (rule bit_eqI) (auto simp: bit_simps)
qed

section \<open>Padding\<close>

lemma write_at_append: "write_at (x @ y) (length x) v
    = (if length v \<le> length y then Some (x @ v @ drop (length v) y) else None)"
  by (simp add: write_at_def)

lemma write_at_next:
  assumes "length x = n" "length v \<le> length y"
  shows "write_at (x @ y) n v = Some ((x @ v) @ drop (length v) y)"
  using assms by (simp add: write_at_def)

lemma md5_pad_zeros:
  assumes "p < 64"
  shows "(119 - p) mod 64 = (if p + 1 \<le> 56 then 55 - p else (63 - p) + 56 :: nat)"
  using assms by (auto simp: mod_if)

text \<open>The length words at the end of the last block.\<close>

lemma write_length_words:
  assumes "length x = 56" "length y = 8"
  shows "(do { b2 \<leftarrow> write_at (x @ y) 56 (le32 low); b3 \<leftarrow> write_at b2 60 (le32 high); f b3 })
    = f (x @ le32 low @ le32 high)"
proof -
  have "write_at (x @ y) 56 (le32 low) = Some ((x @ le32 low) @ drop 4 y)"
    using assms by (subst write_at_next) auto
  moreover have "write_at ((x @ le32 low) @ drop 4 y) 60 (le32 high) = Some (((x @ le32 low) @ le32 high) @ [])"
    using assms by (subst write_at_next) auto
  ultimately show ?thesis by simp
qed

lemma length_digest_bytes [simp]: "length (digest_bytes st) = 16"
  by (simp add: digest_bytes_def split: prod.splits)

lemma length_md5_of [simp]: "length (md5_of m) = 16"
  by (simp add: md5_of_def)

lemma md5_free_init: "mbedtls_md5_free ctx = mbedtls_md5_init"
  by (cases ctx) (simp add: mbedtls_md5_free_def mbedtls_md5_init_def)

theorem md5_finish_digest:
  assumes rep: "md5_represents ctx m" and out: "16 \<le> length output"
  shows "mbedtls_md5_finish ctx output = Some (0, md5_of m @ drop 16 output, mbedtls_md5_init)"
proof -
  let ?p = "length m mod 64" and ?r = "rest_bytes m" and ?st = "md5_blocks md5_start_state m"
  let ?low = "le32 (of_int (8 * int (length m)))" and ?high = "le32 (of_int (8 * int (length m) div 2 ^ 32))"
  let ?z = "\<lambda>n. replicate n NUL"
  have c: "md5_total ctx = (of_nat (length m), of_nat (length m div 4294967296))" "md5_state ctx = ?st"
    using rep by (simp_all add: md5_represents_def)
  define s where "s = drop ?p (md5_buffer ctx)"
  have "take ?p (md5_buffer ctx) = ?r" "length (md5_buffer ctx) = 64"
    using rep by (simp_all add: md5_represents_def)
  then have s: "md5_buffer ctx = ?r @ s" "length s = 64 - ?p"
    using append_take_drop_id [of ?p "md5_buffer ctx"] by (simp_all add: s_def)
  have p: "?p < 64" by simp
  have pad: "md5_blocks md5_start_state (md5_padded m)
      = md5_blocks ?st (?r @ [CHR 0x80] @ ?z ((119 - ?p) mod 64) @ ?low @ ?high)"
    by (simp add: md5_padded_def md5_blocks_append [of _ m])
  have w0: "write_at (?r @ s) ?p [CHR 0x80] = Some ((?r @ [CHR 0x80]) @ drop 1 s)"
    using s(2) p by (subst write_at_next) auto
  have w: "write_at ((?r @ [CHR 0x80]) @ drop 1 s) (?p + 1) (?z n)
      = Some ((?r @ [CHR 0x80] @ ?z n) @ drop (n + 1) s)" if "?p + 1 + n \<le> 64" for n
    using s(2) p that by (subst write_at_next) auto
  have wo: "write_at output 0 (digest_bytes d) = Some (digest_bytes d @ drop 16 output)" for d
    using out by (simp add: write_at_def)
  show ?thesis
  proof (cases "?p + 1 \<le> 56")
    case True
    define x where "x = ?r @ [CHR 0x80] @ ?z (55 - ?p)"
    have x: "length x = 56" "length (drop (56 - ?p) s) = 8" using True s(2) by (simp_all add: x_def)
    have n: "55 - ?p + 1 = 56 - ?p" using True by simp
    have wx: "write_at ((?r @ [CHR 0x80]) @ drop 1 s) (?p + 1) (?z (56 - (?p + 1))) = Some (x @ drop (56 - ?p) s)"
      using w [of "55 - ?p", unfolded n] True by (simp add: x_def)
    have "mbedtls_md5_finish ctx output
        = Some (0, digest_bytes (md5_compress ?st (x @ ?low @ ?high)) @ drop 16 output, mbedtls_md5_init)"
      using x True out wo unfolding mbedtls_md5_finish_def c(1) s(1) prod.case md5_left Let_def w0 md5_bits
      unfolding md5_low wx Option.bind.simps
      by (simp add: write_length_words mbedtls_internal_md5_process_def c(2) md5_free_init)
    moreover have "md5_blocks md5_start_state (md5_padded m) = md5_compress ?st (x @ ?low @ ?high)"
      unfolding pad md5_pad_zeros [OF p] if_P [OF True] using x(1)
        md5_blocks_one [of "x @ ?low @ ?high" ?st "[]"] by (simp add: x_def md5_blocks_short)
    ultimately show ?thesis by (simp add: md5_of_def)
  next
    case False
    define x where "x = ?r @ [CHR 0x80] @ ?z (63 - ?p)"
    have x: "length x = 64" using p by (simp add: x_def)
    have wx: "write_at ((?r @ [CHR 0x80]) @ drop 1 s) (?p + 1) (?z (64 - (?p + 1))) = Some x"
      using w [of "63 - ?p"] s(2) by (simp add: x_def)
    have wz: "write_at x 0 (?z 56) = Some (?z 56 @ drop 56 x)" using x by (simp add: write_at_def)
    have "mbedtls_md5_finish ctx output
        = Some (0, digest_bytes (md5_compress (md5_compress ?st x) (?z 56 @ ?low @ ?high)) @ drop 16 output, mbedtls_md5_init)"
      using x False out wo wz unfolding mbedtls_md5_finish_def c(1) s(1) prod.case md5_left Let_def w0 md5_bits
      unfolding md5_low wx Option.bind.simps
      by (simp add: write_length_words mbedtls_internal_md5_process_def c(2) md5_free_init)
    moreover have "md5_blocks md5_start_state (md5_padded m) 
        = md5_compress (md5_compress ?st x) (?z 56 @ ?low @ ?high)"
      unfolding pad md5_pad_zeros [OF p] if_not_P [OF False] replicate_add using md5_blocks_one [OF x, of ?st "?z 56 @ ?low @ ?high"]
        md5_blocks_one [of "?z 56 @ ?low @ ?high" "md5_compress ?st x" "[]"]
      by (simp add: x_def md5_blocks_short)
    ultimately show ?thesis by (simp add: md5_of_def)
  qed
qed

section \<open>Whole texts\<close>

text \<open>The updates with the chunks of a text, one after the other.\<close>

fun md5_updates :: "mbedtls_md5_context \<Rightarrow> bytes list \<Rightarrow> (int \<times> mbedtls_md5_context) option" where
  "md5_updates ctx [] = Some (0, ctx)"
| "md5_updates ctx (c # cs) = do {
     (ret, ctx1) \<leftarrow> mbedtls_md5_update ctx c;
     (if ret \<noteq> 0 then Some (ret, ctx1) else md5_updates ctx1 cs) }"

lemma md5_updates_represents:
  assumes "md5_represents ctx m" and "\<forall>c\<in>set cs. length c < 2 ^ 32"
  shows "\<exists>ctx'. md5_updates ctx cs = Some (0, ctx') \<and> md5_represents ctx' (m @ concat cs)"
  using assms
proof (induction cs arbitrary: ctx m)
  case (Cons c cs)
  obtain c1 where "mbedtls_md5_update ctx c = Some (0, c1)" "md5_represents c1 (m @ c)"
    using md5_update_represents Cons.prems by force
  then show ?case using Cons.IH [of c1 "m @ c"] Cons.prems by auto
qed simp

lemma md5_chunks_digest:
  assumes "\<forall>c\<in>set cs. length c < 2 ^ 32" and "16 \<le> length output"
  shows "(do { (ret, ctx) \<leftarrow> md5_updates (snd (mbedtls_md5_starts mbedtls_md5_init)) cs;
               mbedtls_md5_finish ctx output })
    = Some (0, md5_of (concat cs) @ drop 16 output, mbedtls_md5_init)"
proof -
  have "md5_represents (snd (mbedtls_md5_starts mbedtls_md5_init)) []"
    by (rule md5_starts_represents) (simp add: mbedtls_md5_init_def)
  then obtain c where "md5_updates (snd (mbedtls_md5_starts mbedtls_md5_init)) cs = Some (0, c)"
    and "md5_represents c (concat cs)"
    using md5_updates_represents [OF _ assms(1)] by fastforce
  then show ?thesis using md5_finish_digest assms(2) by simp
qed

lemma md5_whole_digest:
  assumes "length m < 2 ^ 32" and "16 \<le> length output"
  shows "mbedtls_md5 m output = Some (0, md5_of m @ drop 16 output)"
proof -
  obtain ctx where s: "mbedtls_md5_starts mbedtls_md5_init = (0, ctx)" and r: "md5_represents ctx []"
    using md5_starts_represents [of mbedtls_md5_init] by (simp add: mbedtls_md5_starts_def mbedtls_md5_init_def)
  obtain c where "mbedtls_md5_update ctx m = Some (0, c)" "md5_represents c m"
    using md5_update_represents [OF r assms(1)] by auto
  then show ?thesis using s md5_finish_digest [OF _ assms(2)] by (simp add: mbedtls_md5_def)
qed

section \<open>The digest of a file\<close>

text \<open>The hash functions as \<open>fs_md5\<close> calls them; a fault would be the error 1.\<close>

definition md5_update_step :: "mbedtls_md5_context \<Rightarrow> bytes \<Rightarrow> int \<times> mbedtls_md5_context" where
  "md5_update_step ctx b = (case mbedtls_md5_update ctx b of Some r \<Rightarrow> r | None \<Rightarrow> (1, ctx))"

definition md5_finish_step :: "mbedtls_md5_context \<Rightarrow> int \<times> bytes" where
  "md5_finish_step ctx = (case mbedtls_md5_finish ctx (replicate 16 NUL) of
     Some (ret, out, c) \<Rightarrow> (ret, out) | None \<Rightarrow> (1, replicate 16 NUL))"

lemma md5_file_loop:
  assumes "md5_represents ctx m"
  shows "\<exists>ctx'. fs_md5_loop md5_update_step ctx r = (0, ctx') \<and> md5_represents ctx' (m @ hashed_part r)"
  using assms
proof (induction r arbitrary: ctx m rule: hashed_part.induct)
  case (1 r)
  show ?case
  proof (cases "length r < 8")
    case True
    then show ?thesis using 1(2)
      by (simp add: fs_md5_loop.simps [of md5_update_step ctx r] hashed_part.simps [of r] FS_READBUFF_LEN_def)
  next
    case False
    then obtain c s where r: "r = c # s" by (cases r) auto
    obtain c1 where u: "mbedtls_md5_update ctx [c] = Some (0, c1)" and c1: "md5_represents c1 (m @ [c])"
      using md5_update_represents [OF 1(2), of "[c]"] by auto
    have us: "md5_update_step ctx [c] = (0, c1)" using u by (simp add: md5_update_step_def)
    have "hashed_part r = c # hashed_part (drop 8 r)"
      using False r by (subst hashed_part.simps) simp
    then show ?thesis
      using 1(1) [OF False c1] False r us
      by (subst fs_md5_loop.simps) (simp add: FS_READBUFF_LEN_def)
  qed
qed

lemma md5_of_file:
  assumes "16 \<le> length output"
  shows "fs_md5 (mbedtls_md5_starts mbedtls_md5_init) md5_update_step md5_finish_step True fp output s
    = Some (0, md5_of (hashed_part (drop (f_pos fp) (file_bytes fp s))) @ drop 16 output)"
proof -
  obtain ctx where s: "mbedtls_md5_starts mbedtls_md5_init = (0, ctx)" and r: "md5_represents ctx []"
    using md5_starts_represents [of mbedtls_md5_init] by (simp add: mbedtls_md5_starts_def mbedtls_md5_init_def)
  obtain c where "fs_md5_loop md5_update_step ctx (drop (f_pos fp) (file_bytes fp s)) = (0, c)"
    and c: "md5_represents c (hashed_part (drop (f_pos fp) (file_bytes fp s)))"
    using md5_file_loop [OF r] by fastforce
  then show ?thesis
    using s md5_finish_digest [OF c, of "replicate 16 NUL"] assms
    by (simp add: fs_md5_def md5_finish_step_def arr_copy_def)
qed

end
