(* ===== verification/PropConfig.thy ===== *)
theory PropConfig
  imports Samples Md5Facts
begin

text \<open>
  What holds of the configuration commands of \<^verbatim>\<open>cm_lbs/cm_lbs/src/cm_lbs_api.c\<close>: \<open>AT+MLBSCFG\<close> with and
  without a value, over any disk in order, and for whole histories of commands.
\<close>

section \<open>Setting\<close>

text \<open>Property C1 [set_refines]: on an environment whose disk is in order, \<open>AT+MLBSCFG="<option>",<value>\<close> is
  exactly the abstract command on the contents of the configuration files. It returns the same
  status, leaves the disk in order with the abstract contents and no stream open, and follows a wild
  pointer in exactly the cases the abstract command names.\<close>

theorem MLBSCFG_set_refines:
  assumes "env_ok w"
  shows "case spec_command subcmd val (env_store w) of
      None \<Rightarrow> cm_lbs_atcmd_MLBSCFG_set subcmd val w = None
    | Some (x, st) \<Rightarrow> (\<exists>w'. cm_lbs_atcmd_MLBSCFG_set subcmd val w = Some (x, w') \<and> env_ok w'
        \<and> env_store w' = st \<and> fs_open (env_fs w') = fs_open (env_fs w))"
  using MLBSCFG_set_implements [OF assms, of subcmd val] unfolding implements_def .

lemma set_method_11:
  "spec_command ''method'' (Some ''11'') st = Some (CM_LBS_OK, st\<lparr>st_platform := Some \<lparr>platform = 11\<rparr>\<rparr>)"
  by (simp add: spec_command_def cm_lbs_atcmd_subcmd_to_option_def option_info_def option_value_def
      is_digit_def atoi_small(2) nat_of_dec_def digit_val_def platform_defs spec_set_def val_int_def)

theorem MLBSCFG_set_refines_witness:
  "\<exists>w'. cm_lbs_atcmd_MLBSCFG_set ''method'' (Some ''11'') sample_env = Some (CM_LBS_OK, w') \<and> env_ok w'
     \<and> platform_of (env_store w') = 11"
  using MLBSCFG_set_refines [OF sample_env_ok, of "''method''" "Some ''11''"]
  by (auto simp: set_method_11 platform_of_def)

text \<open>A history of commands; it stops at a fault.\<close>

fun run_sets :: "(string \<times> string option) list \<Rightarrow> 'e lbs_env_scheme \<Rightarrow> 'e lbs_env_scheme option" where
  "run_sets [] w = Some w"
| "run_sets ((s, v) # cs) w = do { (r, w1) \<leftarrow> cm_lbs_atcmd_MLBSCFG_set s v w; run_sets cs w1 }"

lemma set_keeps:
  assumes "env_ok w" and "store_valid (env_store w)"
    and "cm_lbs_atcmd_MLBSCFG_set s v w = Some (r, w')"
  shows "env_ok w' \<and> store_valid (env_store w') \<and> fs_open (env_fs w') = fs_open (env_fs w)"
  using MLBSCFG_set_implements [OF assms(1), of s v] assms(2,3) spec_command_valid
  unfolding implements_def by (fastforce split: option.splits)

lemma set_keeps_terminated:
  assumes "env_ok w" and "keys_terminated (env_store w)"
    and "cm_lbs_atcmd_MLBSCFG_set s val w = Some (r, w')"
    and "\<And>v. val = Some v \<Longrightarrow> short_text (cm_lbs_atcmd_subcmd_to_option s) v"
  shows "keys_terminated (env_store w')"
proof -
  obtain st where "spec_command s val (env_store w) = Some (r, st)" "env_store w' = st"
    using MLBSCFG_set_implements [OF assms(1), of s val] assms(3)
    by (auto simp: implements_def split: option.splits)
  then show ?thesis using spec_command_terminated [OF _ assms(2,4)] by simp
qed

text \<open>Commands whose signature keys and product ids are shorter than their arrays.\<close>

definition short_command :: "string \<times> string option \<Rightarrow> bool" where
  "short_command c = (case c of (s, val) \<Rightarrow>
     (case val of None \<Rightarrow> True | Some v \<Rightarrow> short_text (cm_lbs_atcmd_subcmd_to_option s) v))"

lemma history_terminated:
  assumes "env_ok w" and "store_valid (env_store w)" and "keys_terminated (env_store w)"
    and "list_all short_command cmds" and "run_sets cmds w = Some w'"
  shows "keys_terminated (env_store w')"
  using assms
proof (induction cmds arbitrary: w)
  case (Cons c cs)
  obtain s v where c: "c = (s, v)" by (cases c)
  obtain r w1 where r: "cm_lbs_atcmd_MLBSCFG_set s v w = Some (r, w1)" "run_sets cs w1 = Some w'"
    using Cons.prems(5) c by (auto split: bind_splits)
  have "keys_terminated (env_store w1)"
    by (rule set_keeps_terminated [OF Cons.prems(1,3) r(1)]) (use Cons.prems(4) c in \<open>simp add: short_command_def\<close>)
  then show ?case
    using Cons.IH [of w1] Cons.prems(4) set_keeps [OF Cons.prems(1,2) r(1)] r(2) by simp
qed simp

text \<open>Property C7 [history_valid]: take an environment whose disk is in order, whose allocator succeeds and
  whose configuration files hold valid values (or do not exist), and any sequence of \<open>AT+MLBSCFG\<close>
  commands, whatever names and values they carry, that runs without a fault. It stores no precision
  outside 1..8, no switch other than 0 and 1, no platform the service does not know and no API key
  without its terminating NUL; the disk stays in order and every stream is closed. A signature key of
  128 characters or a product id of 64 is stored without a NUL; if the commands carry none of that
  length, these keep their NUL, too.\<close>

theorem config_history_valid:
  assumes "env_ok w" and "store_valid (env_store w)" and "run_sets cmds w = Some w'"
  shows "env_ok w' \<and> store_valid (env_store w') \<and> fs_open (env_fs w') = fs_open (env_fs w)
    \<and> (list_all short_command cmds \<and> keys_terminated (env_store w) \<longrightarrow> keys_terminated (env_store w'))"
proof (intro conjI impI)
  have "env_ok w' \<and> store_valid (env_store w') \<and> fs_open (env_fs w') = fs_open (env_fs w)"
    using assms
  proof (induction cmds arbitrary: w)
    case (Cons c cs)
    obtain s v where c: "c = (s, v)" by (cases c)
    obtain r w1 where "cm_lbs_atcmd_MLBSCFG_set s v w = Some (r, w1)" and "run_sets cs w1 = Some w'"
      using Cons.prems(3) c by (auto split: bind_splits)
    then show ?case using set_keeps [OF Cons.prems(1,2)] Cons.IH by metis
  qed simp
  then show "env_ok w'" "store_valid (env_store w')" "fs_open (env_fs w') = fs_open (env_fs w)" by simp_all
  show "keys_terminated (env_store w')" if "list_all short_command cmds \<and> keys_terminated (env_store w)"
    using history_terminated [OF assms(1,2) _ _ assms(3)] that by simp
qed

lemma set_precision_6_store:
  "spec_command ''precision'' (Some ''6'') (env_store sample_env) = Some (CM_LBS_OK,
     (env_store sample_env)\<lparr>st_oneospos := Some ((oneospos_defaults zero_oneospos)\<lparr>o_precision := 6\<rparr>)\<rparr>)"
  by (simp add: spec_command_def cm_lbs_atcmd_subcmd_to_option_def option_info_def option_value_def
      ranged_value_def is_digit_def atoi_small nat_of_dec_def digit_val_def spec_set_def val_int_def
      oneospos_apply_def cur_oneospos_def) (simp add: sample_store)

text \<open>Two commands that are accepted: a precision for OneOS, then the second version of AMAP.\<close>

theorem config_history_valid_witness:
  "\<exists>w'. run_sets [(''precision'', Some ''6''), (''method'', Some ''11'')] sample_env = Some w' \<and> env_ok w'
     \<and> store_valid (env_store w') \<and> keys_terminated (env_store w')
     \<and> map_option o_precision (st_oneospos (env_store w')) = Some 6 \<and> platform_of (env_store w') = 11"
proof -
  obtain w1 where 1: "cm_lbs_atcmd_MLBSCFG_set ''precision'' (Some ''6'') sample_env = Some (CM_LBS_OK, w1)"
    "env_ok w1" "env_store w1
       = (env_store sample_env)\<lparr>st_oneospos := Some ((oneospos_defaults zero_oneospos)\<lparr>o_precision := 6\<rparr>)\<rparr>"
    using MLBSCFG_set_implements [OF sample_env_ok, of "''precision''" "Some ''6''"] set_precision_6_store
    by (auto simp: implements_def)
  obtain w2 where 2: "cm_lbs_atcmd_MLBSCFG_set ''method'' (Some ''11'') w1 = Some (CM_LBS_OK, w2)"
    "env_store w2 = (env_store w1)\<lparr>st_platform := Some \<lparr>platform = 11\<rparr>\<rparr>"
    using MLBSCFG_set_implements [OF 1(2), of "''method''" "Some ''11''"]
    by (auto simp: implements_def set_method_11)
  have run: "run_sets [(''precision'', Some ''6''), (''method'', Some ''11'')] sample_env = Some w2"
    using 1(1) 2(1) by simp
  have "list_all short_command [(''precision'', Some ''6''), (''method'', Some ''11'')]"
    by (simp add: short_command_def short_text_def cm_lbs_atcmd_subcmd_to_option_def option_info_def)
  moreover have "keys_terminated (env_store sample_env)"
    by (simp add: sample_store keys_terminated_def)
  ultimately have "env_ok w2 \<and> store_valid (env_store w2) \<and> keys_terminated (env_store w2)"
    using config_history_valid [OF sample_env_ok sample_valid run] by blast
  moreover have "map_option o_precision (st_oneospos (env_store w2)) = Some 6" "platform_of (env_store w2) = 11"
    using 1(3) 2(2) by (simp_all add: platform_of_def)
  ultimately show ?thesis using run by blast
qed

text \<open>A signature key that fills its array is accepted, and stored without its NUL.\<close>

lemma full_signature_key:
  assumes "env_ok w" and "platform_of (env_store w) \<in> {CM_LBS_PLAT_AMAP10, CM_LBS_PLAT_AMAP20}"
    and "NUL \<notin> set v" and "length v = 128"
  shows "\<exists>w'. cm_lbs_atcmd_MLBSCFG_set ''signkey'' (Some v) w = Some (CM_LBS_OK, w') \<and> env_ok w'
    \<and> c_str (signature_key (cur_amap (env_store w'))) = None"
proof -
  define st where "st = put_amap (platform_of (env_store w)) ((cur_amap (env_store w))\<lparr>signature_key := v\<rparr>) (env_store w)"
  have "spec_command ''signkey'' (Some v) (env_store w) = Some (CM_LBS_OK, st)"
    using assms(2,4) by (auto simp: spec_command_def cm_lbs_atcmd_subcmd_to_option_def option_info_def
        option_value_def spec_set_def amap_apply_def val_str_def CM_LBS_AMAP_SIGNATUREKEY_LEN_def
        arr_fill_full st_def platform_defs)
  moreover have "cur_amap st = (cur_amap (env_store w))\<lparr>signature_key := v\<rparr>"
    using assms(2) by (auto simp: st_def cur_amap_def amap_slot_def put_amap_def platform_of_def platform_defs)
  ultimately show ?thesis
    using MLBSCFG_set_implements [OF assms(1), of "''signkey''" "Some v"] assms(3)
    by (auto simp: implements_def c_str_no_NUL)
qed

text \<open>Setting a number makes that number the shown one.\<close>

lemma set_then_shown:
  assumes "spec_set op (Val_int n) st = Some (CM_LBS_OK, st')"
    and "platform_of st \<in> {CM_LBS_PLAT_AMAP10, CM_LBS_PLAT_AMAP20, CM_LBS_PLAT_ONEOSPOS}"
  shows "shown_number op st' = Some n"
proof (cases "op = LBS_ATCMD_METHOD_OP")
  case True
  then show ?thesis using assms by (auto simp: spec_set_def shown_number_def val_int_def platform_of_def)
next
  case False
  have pf: "platform_of (st\<lparr>st_oneospos := Some b\<rparr>) = platform_of st"
    "platform_of (put_amap pf a st) = platform_of st" for a b pf
    by (simp_all add: platform_of_def put_amap_def)
  show ?thesis
  proof (cases "platform_of st = CM_LBS_PLAT_ONEOSPOS")
    case True
    then show ?thesis using assms(1) False
      by (cases op) (auto simp: spec_set_def shown_number_def oneospos_apply_def val_int_def val_str_def
          pf cur_oneospos_def)
  next
    case ne: False
    have slot: "amap_slot CM_LBS_PLAT_AMAP10 (put_amap CM_LBS_PLAT_AMAP10 a st) = Some a"
      "amap_slot CM_LBS_PLAT_AMAP20 (put_amap CM_LBS_PLAT_AMAP20 a st) = Some a" for a
      by (simp_all add: amap_slot_def put_amap_def platform_defs)
    show ?thesis using assms False ne
      by (cases op) (auto simp: spec_set_def shown_number_def amap_apply_def val_int_def val_str_def
          pf cur_amap_def slot)
  qed
qed

lemma spec_command_number:
  assumes "spec_command s (Some v) st = Some (CM_LBS_OK, st')"
    and "option_value (cm_lbs_atcmd_subcmd_to_option s) v = Some (Some (Val_int n))"
  shows "spec_set (cm_lbs_atcmd_subcmd_to_option s) (Val_int n) st = Some (CM_LBS_OK, st')"
  using assms by (simp add: spec_command_def)

lemma option_value_number:
  "option_value op v = Some (Some (Val_int n)) \<Longrightarrow> n = atoi v"
  by (cases op) (auto simp: option_value_def ranged_value_def split: if_splits)

definition numeric_option :: "cm_lbs_atcmd_option_e \<Rightarrow> bool" where
  "numeric_option op \<longleftrightarrow> op \<in> {LBS_ATCMD_METHOD_OP, LBS_ATCMD_PRECISION, LBS_ATCMD_DESCR_MODE,
     LBS_ATCMD_SIGN_ENABLE, LBS_ATCMD_NEARBTS_ENABLE, LBS_ATCMD_ONEOS_CHANGE_COORDINATE}"

lemma numeric_set_value:
  assumes "numeric_option op" and "option_value op v = Some x" and "x \<noteq> None"
  shows "option_value op v = Some (Some (Val_int (atoi v)))"
  using assms by (auto simp: numeric_option_def option_value_def ranged_value_def split: if_splits)

lemma command_ok_value:
  assumes "spec_command s (Some v) st = Some (CM_LBS_OK, st')"
  obtains x where "option_value (cm_lbs_atcmd_subcmd_to_option s) v = Some (Some x)"
  using assms by (auto simp: spec_command_def split: option.splits)

section \<open>Reading back\<close>

text \<open>Property C9 [set_then_get]: a number that \<open>AT+MLBSCFG\<close> accepted is what the read form of the command
  then prints, on every platform and for every numeric option: the answer is the prefix with the
  option's name and the decimal form of the value \<open>atoi\<close> made of the text.\<close>

theorem MLBSCFG_set_then_get:
  assumes "env_ok w" and "store_valid (env_store w)" and "64 \<le> length a"
    and "cm_lbs_atcmd_MLBSCFG_set s (Some v) w = Some (CM_LBS_OK, w')"
    and "numeric_option (cm_lbs_atcmd_subcmd_to_option s)"
  shows "\<exists>b. cm_lbs_atcmd_MLBSCFG_get md5 s (Some a) w' = Some ((CM_LBS_OK, Some b), w')
    \<and> c_str b = Some (cfg_prefix s @ dec_int (sint (atoi v)))"
proof -
  have w': "env_ok w'" "store_valid (env_store w')" using set_keeps [OF assms(1,2,4)] by auto
  have spec: "spec_command s (Some v) (env_store w) = Some (CM_LBS_OK, env_store w')"
    using MLBSCFG_set_implements [OF assms(1), of s "Some v"] assms(4)
    by (auto simp: implements_def split: option.splits)
  obtain x where "option_value (cm_lbs_atcmd_subcmd_to_option s) v = Some (Some x)"
    by (rule command_ok_value [OF spec])
  then have "option_value (cm_lbs_atcmd_subcmd_to_option s) v = Some (Some (Val_int (atoi v)))"
    using numeric_set_value [OF assms(5)] by blast
  from set_then_shown [OF spec_command_number [OF spec this]]
  have "shown_number (cm_lbs_atcmd_subcmd_to_option s) (env_store w') = Some (atoi v)"
    using assms(2) by (simp add: store_valid_def)
  from MLBSCFG_get_number [OF w' assms(3) this] show ?thesis .
qed

lemma set_precision_6:
  "\<exists>st. spec_command ''precision'' (Some ''6'') (env_store sample_env) = Some (CM_LBS_OK, st)"
  by (simp add: spec_command_def cm_lbs_atcmd_subcmd_to_option_def option_info_def option_value_def
      ranged_value_def is_digit_def atoi_small nat_of_dec_def digit_val_def spec_set_def val_int_def
      oneospos_apply_def)

theorem MLBSCFG_set_then_get_witness:
  "\<exists>w' b. cm_lbs_atcmd_MLBSCFG_set ''precision'' (Some ''6'') sample_env = Some (CM_LBS_OK, w')
     \<and> cm_lbs_atcmd_MLBSCFG_get (\<lambda>x. x) ''precision'' (Some (replicate 64 NUL)) w'
         = Some ((CM_LBS_OK, Some b), w')
     \<and> c_str b = Some (cfg_prefix ''precision'' @ ''6'')"
proof -
  obtain w' where w': "cm_lbs_atcmd_MLBSCFG_set ''precision'' (Some ''6'') sample_env
      = Some (CM_LBS_OK, w')"
    using MLBSCFG_set_implements [OF sample_env_ok, of "''precision''" "Some ''6''"] set_precision_6
    by (auto simp: implements_def)
  have n: "numeric_option (cm_lbs_atcmd_subcmd_to_option ''precision'')"
    by (simp add: numeric_option_def cm_lbs_atcmd_subcmd_to_option_def option_info_def)
  have "dec_int (sint (atoi ''6'')) = ''6''"
    by (simp add: atoi_small is_digit_def nat_of_dec_def digit_val_def dec_int_def dec_nat.simps
        digit_char_def)
  then show ?thesis
    using MLBSCFG_set_then_get [OF sample_env_ok sample_valid _ w' n, of "replicate 64 NUL" "\<lambda>x. x"] w'
    by auto
qed

text \<open>A key or a product id is never printed. The read form answers with the
  option's name and the 32 hexadecimal digits of the MD5 of the stored string, and leaves the
  environment alone.\<close>

theorem MLBSCFG_get_masks_secrets:
  assumes "env_ok w" and "80 \<le> length a"
    and "shown_secret (cm_lbs_atcmd_subcmd_to_option s) (env_store w) = Some k" and "c_str k = Some v"
  shows "\<exists>b. cm_lbs_atcmd_MLBSCFG_get md5_of s (Some a) w = Some ((CM_LBS_OK, Some b), w)
    \<and> c_str b = Some (cfg_prefix s @ masked md5_of v)"
  by (rule MLBSCFG_get_secret [OF assms(1,2) length_md5_of assms(3,4)])

theorem MLBSCFG_get_masks_secrets_witness:
  "\<exists>b. cm_lbs_atcmd_MLBSCFG_get md5_of ''pid'' (Some (replicate 80 NUL)) sample_env
       = Some ((CM_LBS_OK, Some b), sample_env)
     \<and> c_str b = Some (cfg_prefix ''pid'' @ masked md5_of ''m5CAIkqYGa'')"
proof (rule MLBSCFG_get_masks_secrets [OF sample_env_ok])
  show "shown_secret (cm_lbs_atcmd_subcmd_to_option ''pid'') (env_store sample_env)
      = Some (''m5CAIkqYGa'' @ replicate 54 NUL)"
    by (simp add: shown_secret_def cm_lbs_atcmd_subcmd_to_option_def option_info_def cur_pid_def)
       (simp add: sample_store CM_LBS_ONEOSPOS_INTERNAL_PID_def)
  show "c_str (''m5CAIkqYGa'' @ replicate 54 NUL) = Some ''m5CAIkqYGa''"
    by (simp add: c_str_def)
qed simp_all

section \<open>Refusals\<close>

text \<open>A null value, an option the table does not have and the read-only internal
  product id are refused with a parameter error before anything is read or written, whatever the
  state of the disk and of the allocator.\<close>

theorem MLBSCFG_set_refused:
  assumes "v = None \<or> cm_lbs_atcmd_subcmd_to_option s
    \<in> {LBS_LBS_ATCMD_NULL_OP, LBS_ATCMD_ONEOS_INTERNAL_PID}"
  shows "cm_lbs_atcmd_MLBSCFG_set s v w = Some (CM_LBS_PARAMERR, w)"
  using assms by (auto simp: cm_lbs_atcmd_MLBSCFG_set_def Let_def split: option.split)

theorem MLBSCFG_set_refused_witness:
  "cm_lbs_atcmd_MLBSCFG_set ''Method'' (Some ''10'') sample_env = Some (CM_LBS_PARAMERR, sample_env)"
  by (rule MLBSCFG_set_refused) (simp add: cm_lbs_atcmd_subcmd_to_option_def option_info_def)

text \<open>The numbers an option takes.\<close>

definition number_allowed :: "cm_lbs_atcmd_option_e \<Rightarrow> int \<Rightarrow> bool" where
  "number_allowed op n \<longleftrightarrow>
     (if op = LBS_ATCMD_METHOD_OP then n \<in> {10, 11, 40}
      else if op = LBS_ATCMD_PRECISION then n \<in> {1..8} else n \<in> {0, 1})"

text \<open>The checks of the numeric options do refuse every value that is not a
  number and every number out of range, but the refusal itself is broken: apart from the platform and
  the neighbour-cell switch, whose number is checked without a log line, the rejected value is handed
  to the log as a string pointer made of one \<open>char\<close>, and the command never returns.\<close>

theorem MLBSCFG_set_bad_number:
  assumes "numeric_option (cm_lbs_atcmd_subcmd_to_option s)"
    and "(\<exists>c \<in> set v. \<not> is_digit c) \<or> \<not> number_allowed (cm_lbs_atcmd_subcmd_to_option s) (sint (atoi v))"
  shows "cm_lbs_atcmd_MLBSCFG_set s (Some v) w =
    (if (\<forall>c \<in> set v. is_digit c)
        \<and> cm_lbs_atcmd_subcmd_to_option s \<in> {LBS_ATCMD_METHOD_OP, LBS_ATCMD_NEARBTS_ENABLE}
     then Some (CM_LBS_PARAMERR, w) else None)"
proof -
  have dig: "cm_lbs_atcmd_string_is_digital v = CM_LBS_OK \<longleftrightarrow> (\<forall>c \<in> set v. is_digit c)"
    by (auto simp: cm_lbs_atcmd_string_is_digital_def)
  have eq: "atoi v = 10 \<or> atoi v = 11 \<or> atoi v = 40 \<Longrightarrow> sint (atoi v) \<in> {10, 11, 40}" by auto
  show ?thesis
    using assms eq
    by (cases "cm_lbs_atcmd_subcmd_to_option s")
       (auto simp: numeric_option_def cm_lbs_atcmd_MLBSCFG_set_def set_ranged_def bad_log_def dig
          number_allowed_def Let_def platform_defs lbs_default_defs)
qed

theorem MLBSCFG_set_bad_number_witness:
  "cm_lbs_atcmd_MLBSCFG_set ''precision'' (Some ''x'') sample_env = None"
  using MLBSCFG_set_bad_number [of "''precision''" "''x''" sample_env]
  by (simp add: cm_lbs_atcmd_subcmd_to_option_def option_info_def numeric_option_def is_digit_def)

text \<open>The number is cut to 32 bits before it is checked, so a value far out of range
  can pass: the platform \<open>4294967336\<close> is stored as OneOS (40).\<close>

theorem MLBSCFG_set_wraps:
  assumes "env_ok w" and "\<forall>c \<in> set v. is_digit c" and "nat_of_dec v < 2 ^ 63"
    and "nat_of_dec v mod 2 ^ 32 = 40"
  shows "\<exists>w'. cm_lbs_atcmd_MLBSCFG_set ''method'' (Some v) w = Some (CM_LBS_OK, w') \<and> env_ok w'
    \<and> platform_of (env_store w') = CM_LBS_PLAT_ONEOSPOS"
proof -
  have "atoi v = of_int (int (nat_of_dec v))"
    using atoi_digits [OF assms(2)] assms(3) by (simp add: min_def)
  also have "\<dots> = of_nat (nat_of_dec v)" by (rule of_int_of_nat_eq)
  also have "\<dots> = (of_nat (nat_of_dec v mod 2 ^ 32) :: u32)"
    by (rule word_unat_eq_iff [THEN iffD2]) (simp add: unsigned_of_nat take_bit_eq_mod)
  finally have n: "atoi v = CM_LBS_PLAT_ONEOSPOS" using assms(4) by (simp add: platform_defs)
  have "spec_command ''method'' (Some v) (env_store w)
      = Some (CM_LBS_OK, (env_store w)\<lparr>st_platform := Some \<lparr>platform = CM_LBS_PLAT_ONEOSPOS\<rparr>\<rparr>)"
    using assms(2) by (simp add: spec_command_def cm_lbs_atcmd_subcmd_to_option_def option_info_def
        option_value_def n spec_set_def val_int_def)
  with MLBSCFG_set_implements [OF assms(1), of "''method''" "Some v"] show ?thesis
    by (auto simp: implements_def platform_of_def)
qed

theorem MLBSCFG_set_wraps_witness:
  "\<exists>w'. cm_lbs_atcmd_MLBSCFG_set ''method'' (Some ''4294967336'') sample_env = Some (CM_LBS_OK, w')
     \<and> env_ok w' \<and> platform_of (env_store w') = CM_LBS_PLAT_ONEOSPOS"
  by (rule MLBSCFG_set_wraps [OF sample_env_ok])
     (simp_all add: is_digit_def nat_of_dec_def digit_val_def)

text \<open>Property C24 [key_lengths]: the API key of an AMAP platform, when the disk is in order and the
  allocator succeeds. A key shorter than its array is stored
  with its NUL and accepted; a key that fills the array is copied without a NUL and the log line that
  follows reads past it; a longer key is refused and nothing changes.\<close>

theorem MLBSCFG_set_apikey:
  assumes "env_ok w" and "platform_of (env_store w) \<in> {CM_LBS_PLAT_AMAP10, CM_LBS_PLAT_AMAP20}"
    and "NUL \<notin> set v"
  shows "if length v < 128 then
      \<exists>w'. cm_lbs_atcmd_MLBSCFG_set ''apikey'' (Some v) w = Some (CM_LBS_OK, w') \<and> env_ok w'
        \<and> c_str (apikey (cur_amap (env_store w'))) = Some v
    else if length v = 128 then cm_lbs_atcmd_MLBSCFG_set ''apikey'' (Some v) w = None
    else \<exists>w'. cm_lbs_atcmd_MLBSCFG_set ''apikey'' (Some v) w = Some (CM_LBS_PARAMERR, w')
        \<and> env_ok w' \<and> env_store w' = env_store w"
proof -
  have ne: "platform_of (env_store w) \<noteq> CM_LBS_PLAT_ONEOSPOS"
    using assms(2) by (auto simp: platform_defs)
  have spec: "spec_command ''apikey'' (Some v) (env_store w)
      = spec_set LBS_ATCMD_APIKEY_OP (Val_str v) (env_store w)"
    by (simp add: spec_command_def cm_lbs_atcmd_subcmd_to_option_def option_info_def option_value_def)
  note imp = MLBSCFG_set_implements [OF assms(1), of "''apikey''" "Some v", unfolded spec]
  consider "length v < 128" | "length v = 128" | "128 < length v" by linarith
  then show ?thesis
  proof cases
    case 1
    then obtain k where k: "arr_fill 128 v = Some k" "c_str k = Some v"
      using c_str_arr_fill [OF assms(3) 1] by (auto split: bind_splits)
    define st where "st = put_amap (platform_of (env_store w)) ((cur_amap (env_store w))\<lparr>apikey := k\<rparr>) (env_store w)"
    have "spec_set LBS_ATCMD_APIKEY_OP (Val_str v) (env_store w) = Some (CM_LBS_OK, st)"
      using 1 k assms(2) ne by (auto simp: spec_set_def amap_apply_def val_str_def
          CM_LBS_AMAP_APIKET_LEN_def st_def)
    moreover have "cur_amap st = (cur_amap (env_store w))\<lparr>apikey := k\<rparr>"
      using assms(2) by (auto simp: st_def cur_amap_def amap_slot_def put_amap_def platform_of_def platform_defs)
    ultimately show ?thesis using imp 1 k(2) by (auto simp: implements_def)
  next
    case 2
    then have "c_str v = None" using assms(3) by (simp add: c_str_def)
    then have "spec_set LBS_ATCMD_APIKEY_OP (Val_str v) (env_store w) = None"
      using 2 ne by (simp add: spec_set_def amap_apply_def val_str_def CM_LBS_AMAP_APIKET_LEN_def
          arr_fill_full)
    then show ?thesis using imp 2 by (simp add: implements_def)
  next
    case 3
    then have "spec_set LBS_ATCMD_APIKEY_OP (Val_str v) (env_store w) = Some (CM_LBS_PARAMERR, env_store w)"
      using ne by (simp add: spec_set_def amap_apply_def val_str_def CM_LBS_AMAP_APIKET_LEN_def)
    then show ?thesis using imp 3 by (auto simp: implements_def)
  qed
qed

theorem MLBSCFG_set_apikey_witness:
  "\<exists>w'. cm_lbs_atcmd_MLBSCFG_set ''apikey'' (Some ''abc'') sample_amap_env = Some (CM_LBS_OK, w') \<and> env_ok w'
     \<and> c_str (apikey (cur_amap (env_store w'))) = Some ''abc''"
  using MLBSCFG_set_apikey [OF sample_amap_env_ok, of "''abc''"] by (simp add: sample_amap_platform)

section \<open>The list of options\<close>

text \<open>\<open>AT+MLBSCFG=?\<close> answers with exactly this list of options and ranges, provided
  the caller's buffer holds it (224 characters and the NUL); its own two arrays are large enough.\<close>

theorem MLBSCFG_test_text:
  assumes "224 < length buf"
  shows "\<exists>out. cm_lbs_atcmd_MLBSCFG_test (Some buf) = Some (Some out) \<and> length out = length buf
    \<and> c_str out = Some (
        ''+MLBSCFG: '' @ quoted ''method'' @ '',(10,11,40)'' @ CRLF
      @ ''+MLBSCFG: '' @ quoted ''apikey'' @ '',<apikey>'' @ CRLF
      @ ''+MLBSCFG: '' @ quoted ''signen'' @ '',(0,1)'' @ CRLF
      @ ''+MLBSCFG: '' @ quoted ''signkey'' @ '',<signkey>'' @ CRLF
      @ ''+MLBSCFG: '' @ quoted ''precision'' @ '',(1-8)'' @ CRLF
      @ ''+MLBSCFG: '' @ quoted ''format'' @ '',(0,1)'' @ CRLF
      @ ''+MLBSCFG: '' @ quoted ''pid'' @ '',<pid>'' @ CRLF
      @ ''+MLBSCFG: '' @ quoted ''nearbtsen'' @ '',(0,1)'' @ CRLF)"
proof -
  have arr: "\<exists>b. arr_cat v a = Some b \<and> c_str b = Some (s @ v) \<and> length b = length a"
    if "c_str a = Some s" "NUL \<notin> set v" "length s + length v < length a" for a s v
    using arr_cat_ok [OF that] by metis
  obtain m0 where m0: "arr_puts (''+MLBSCFG: '' @ quoted ''method'' @ '',('') (replicate 128 NUL) = Some m0"
    "c_str m0 = Some (''+MLBSCFG: '' @ quoted ''method'' @ '',('')" "length m0 = 128"
    using arr_puts_ok [of "''+MLBSCFG: '' @ quoted ''method'' @ '',(''" "replicate 128 NUL"]
    by (auto simp: quoted_def)
  obtain m1 where m1: "arr_cat ''10'' m0 = Some m1"
    "c_str m1 = Some (''+MLBSCFG: '' @ quoted ''method'' @ '',(10'')" "length m1 = 128"
    using arr [OF m0(2), of "''10''"] m0(3) by (auto simp: quoted_def)
  obtain m2 where m2: "arr_cat '',11'' m1 = Some m2"
    "c_str m2 = Some (''+MLBSCFG: '' @ quoted ''method'' @ '',(10,11'')" "length m2 = 128"
    using arr [OF m1(2), of "'',11''"] m1(3) by (auto simp: quoted_def)
  obtain m3 where m3: "arr_cat '',40'' m2 = Some m3"
    "c_str m3 = Some (''+MLBSCFG: '' @ quoted ''method'' @ '',(10,11,40'')" "length m3 = 128"
    using arr [OF m2(2), of "'',40''"] m2(3) by (auto simp: quoted_def)
  obtain m4 where m4: "arr_cat ('')'' @ CRLF) m3 = Some m4"
    "c_str m4 = Some (''+MLBSCFG: '' @ quoted ''method'' @ '',(10,11,40)'' @ CRLF)" "length m4 = 128"
    using arr [OF m3(2), of "'')'' @ CRLF"] m3(3) by (auto simp: quoted_def CRLF_def)
  let ?keys = "''+MLBSCFG: '' @ quoted ''apikey'' @ '',<apikey>'' @ CRLF
      @ ''+MLBSCFG: '' @ quoted ''signen'' @ '',(0,1)'' @ CRLF
      @ ''+MLBSCFG: '' @ quoted ''signkey'' @ '',<signkey>'' @ CRLF"
  obtain m5 where m5: "arr_cat ?keys m4 = Some m5"
    "c_str m5 = Some ((''+MLBSCFG: '' @ quoted ''method'' @ '',(10,11,40)'' @ CRLF) @ ?keys)"
    using arr [OF m4(2), of ?keys] m4(3) by (auto simp: quoted_def CRLF_def)
  let ?all = "((''+MLBSCFG: '' @ quoted ''method'' @ '',(10,11,40)'' @ CRLF) @ ?keys)
      @ ''+MLBSCFG: '' @ quoted ''precision'' @ '',(1-8)'' @ CRLF
      @ (''+MLBSCFG: '' @ quoted ''format'' @ '',(0,1)'' @ CRLF)
      @ ''+MLBSCFG: '' @ quoted ''pid'' @ '',<pid>'' @ CRLF
      @ ''+MLBSCFG: '' @ quoted ''nearbtsen'' @ '',(0,1)'' @ CRLF"
  obtain out where out: "arr_puts ?all buf = Some out" "c_str out = Some ?all" "length out = length buf"
    using arr_puts_ok [of ?all buf] assms by (auto simp: quoted_def CRLF_def)
  have nums: "dec_int CM_LBS_PRECISION_MIN = ''1''" "dec_int CM_LBS_PRECISION_MAX = ''8''"
    "dec_int CM_LBS_DESCR_MODE_MIN = ''0''" "dec_int CM_LBS_DESCR_MODE_MAX = ''1''"
    by (simp_all add: lbs_default_defs dec_int_def dec_nat.simps digit_char_def)
  show ?thesis
    using m0(1) m1(1) m2(1) m3(1) m4(1) m5 out
    by (simp add: cm_lbs_atcmd_MLBSCFG_test_def nums fits_def quoted_def CRLF_def)
qed

theorem MLBSCFG_test_text_witness:
  "\<exists>out. cm_lbs_atcmd_MLBSCFG_test (Some (replicate 256 NUL)) = Some (Some out) \<and> length out = 256"
  using MLBSCFG_test_text [of "replicate 256 NUL"] by auto

end
