(* ===== verification/PropSession.thy ===== *)
theory PropSession
  imports Samples
begin

text \<open>
  What holds of the location service of \<^verbatim>\<open>cm_lbs/cm_lbs/src/cm_lbs.c\<close> and of the reports of the AT
  layer: the life of a session over every history of calls, the ways a request can be refused, and
  the histories in which the service goes wrong.
\<close>

section \<open>Every history\<close>

text \<open>Requests that succeed without doing anything, for the witnesses.\<close>

definition quiet :: locators where
  "quiet = \<lparr>locate_amap = (\<lambda>a w. Some (CM_LBS_OK, w)), locate_oneospos = (\<lambda>a w. Some (CM_LBS_OK, w))\<rparr>"

lemma quiet_keeps: "locators_keep quiet"
  by (simp add: locators_keep_def keeps_contract_def quiet_def)

definition sample_amap_attr :: cm_lbs_amap_location_attr_t where
  "sample_amap_attr = \<lparr>at_api_key = Some (''key'' @ [NUL]), at_time_out = 10, at_digital_sign_enable = 0,
     at_digital_key = None, at_show_fields_enable = 0, at_nearbts_enable = 0\<rparr>"

definition sample_started :: lbs_world where
  "sample_started = sample_world\<lparr>w_platform := 10, w_task := True,
     w_queun := Some \<lparr>msgid = 1, msg_len = 4\<rparr>, w_mq := [1 \<mapsto> []], w_next := 2,
     w_amap := Some \<lparr>am_ueinfo = None,
       am_auth = \<lparr>au_platform = 10, au_digital_sign_enable = 0, au_digital_sign_key = None,
         au_apikey = Some (''key'' @ [NUL]), au_time_out = 10, au_show_fields_enable = 0\<rparr>,
       am_cb_arg = None, am_nearbts_enable = 0\<rparr>\<rparr>"

lemma sample_init:
  "cm_lbs_init CM_LBS_PLAT_AMAP10 (Some (Amap_attr sample_amap_attr)) sample_world = Some (0, sample_started)"
  by (simp add: cm_lbs_init_def cm_lbs_task_create_def cm_lbs_CreateTask_def next_answer_def
      cm_lbs_CreateQuen_def env_malloc_def malloc_ok_def sizeof_cm_lbs_msg_t_def
      CM_LBS_MESSAGE_QUEUE_BUFLEN_def cm_lbs_init_amap_def cm_lbs_copy_amap_authentication_by_attr_def
      sample_amap_attr_def sample_world_def sample_started_def platform_defs c_str_def strncpy_new_def
      Let_def)

text \<open>Start the service, and let calls of \<open>cm_lbs_init\<close>, \<open>cm_lbs_location\<close> and
  \<open>cm_lbs_deinit\<close>, turns of the task and changes of the network happen in any order. In every state
  this can reach, each session owns only a block of device information that is allocated, the two
  sessions never share one, a location request returns, and \<open>cm_lbs_deinit\<close> returns with both sessions
  gone: no history frees a block twice. The requests of the platforms are assumed to keep the service
  in order and to leave it alone when they fail.\<close>

theorem reachable_states_are_safe:
  assumes "lbs_fresh w" and "locators_keep ls" and "lbs_reaches gcj ls w w'"
  shows "amap_uid w' \<subseteq> w_live w' \<and> oneospos_uid w' \<subseteq> w_live w' \<and> amap_uid w' \<inter> oneospos_uid w' = {}
    \<and> cm_lbs_location f arg w' \<noteq> None
    \<and> (\<exists>w''. cm_lbs_deinit w' = Some w'' \<and> w_amap w'' = None \<and> w_oneospos w'' = None
         \<and> w_live w'' = w_live w' - amap_uid w' - oneospos_uid w')"
proof -
  have inv: "lbs_inv w'" using reaches_inv [OF assms(3,2) fresh_inv [OF assms(1)]] .
  then show ?thesis using deinit_ok [OF inv] location_total [OF inv, of f arg]
    by (simp add: lbs_inv_def)
qed

theorem reachable_states_are_safe_witness:
  "lbs_reaches (\<lambda>a b. (a, b)) quiet sample_world sample_started
   \<and> cm_lbs_location (Some ATCMD_CALLBACK) 0 sample_started \<noteq> None
   \<and> (\<exists>w''. cm_lbs_deinit sample_started = Some w'' \<and> w_amap w'' = None \<and> w_oneospos w'' = None)"
proof -
  have r: "lbs_reaches (\<lambda>a b. (a, b)) quiet sample_world sample_started"
    unfolding lbs_reaches_def using step_init [OF sample_init] by blast
  from reachable_states_are_safe [OF sample_fresh quiet_keeps r] r show ?thesis by blast
qed

section \<open>One session at a time\<close>

lemma malloc_task: "env_malloc (w :: lbs_world) = (ok, w1) \<Longrightarrow> w_task w1 = w_task w \<and> w_platform w1 = w_platform w"
  using same_more(7,8) [OF malloc_more] by blast

lemma task_created:
  assumes "cm_lbs_task_create w = (CM_LBS_OK, v)"
  shows "w_task v \<and> w_platform v = w_platform w"
  using assms unfolding cm_lbs_task_create_def cm_lbs_CreateTask_def cm_lbs_CreateQuen_def Let_def
  by (auto dest!: malloc_task split: if_splits prod.splits)

lemma init_amap_task:
  assumes "cm_lbs_init_amap pf atr v = Some (0, w1)"
  shows "w_task w1 = w_task v \<and> w_platform w1 = w_platform v"
proof -
  obtain u a where "w1 = u\<lparr>w_amap := Some a\<rparr>" and u: "lbs_env.more u = lbs_env.more v"
    using init_amap_result [OF assms] by auto
  then show ?thesis using same_more(7,8) [OF u] by simp
qed

lemma init_oneospos_task:
  assumes "cm_lbs_init_oneospos pf atr v = Some (0, w1)"
  shows "w_task w1 = w_task v \<and> w_platform w1 = w_platform v"
proof -
  obtain u a where "w1 = u\<lparr>w_oneospos := Some a\<rparr>" and u: "lbs_env.more u = lbs_env.more v"
    using init_oneospos_result [OF assms] by auto
  then show ?thesis using same_more(7,8) [OF u] by simp
qed

text \<open>A successful initialisation went through the platform's own, with the task running.\<close>

lemma init_ok_cases:
  assumes "lbs_inv w" and "cm_lbs_init pf atr w = Some (0, w1)"
  obtains (amap) v a where "pf = CM_LBS_PLAT_AMAP10 \<or> pf = CM_LBS_PLAT_AMAP20" "atr = Some (Amap_attr a)"
      "lbs_inv v" "cm_lbs_init_amap pf (Some a) v = Some (0, w1)" "w_task w1" "w_platform w1 = pf"
    | (oneospos) v a where "pf = CM_LBS_PLAT_ONEOSPOS" "atr = Some (Oneospos_attr a)"
      "lbs_inv v" "cm_lbs_init_oneospos pf (Some a) v = Some (0, w1)" "w_task w1" "w_platform w1 = pf"
proof -
  obtain v where v: "cm_lbs_task_create (w\<lparr>w_platform := pf\<rparr>) = (CM_LBS_OK, v)"
    using assms(2) by (auto simp: cm_lbs_init_def split: prod.splits if_splits)
  have inv: "lbs_inv v" using task_create_inv(1) [OF _ v] assms(1) set_platform_inv by blast
  have t: "w_task v" "w_platform v = pf" using task_created [OF v] by simp_all
  have no: "cm_lbs_init_amap pf None v \<noteq> Some (0, w1)" "cm_lbs_init_oneospos pf None v \<noteq> Some (0, w1)"
    by (simp_all add: cm_lbs_init_amap_def cm_lbs_init_oneospos_def)
  note run = assms(2) [unfolded cm_lbs_init_def v prod.case, simplified]
  show thesis
  proof (cases "pf = CM_LBS_PLAT_AMAP10 \<or> pf = CM_LBS_PLAT_AMAP20")
    case True
    then obtain a where a: "atr = Some (Amap_attr a)" "cm_lbs_init_amap pf (Some a) v = Some (0, w1)"
      using run no(1) by (auto split: option.splits lbs_attr.splits)
    then show thesis using amap [OF True a(1) inv a(2)] init_amap_task [OF a(2)] t by simp
  next
    case False
    then have pf: "pf = CM_LBS_PLAT_ONEOSPOS" using run by (simp split: if_splits)
    then obtain a where a: "atr = Some (Oneospos_attr a)" "cm_lbs_init_oneospos pf (Some a) v = Some (0, w1)"
      using run no(2) False by (auto split: option.splits lbs_attr.splits)
    then show thesis using oneospos [OF pf a(1) inv a(2)] init_oneospos_task [OF a(2)] t by simp
  qed
qed

text \<open>The attributes of a call are read as the structure of its platform; a null pointer fits both.\<close>

definition attr_fits :: "platform_e \<Rightarrow> lbs_attr option \<Rightarrow> bool" where
  "attr_fits pf atr \<longleftrightarrow> (case atr of
       None \<Rightarrow> pf \<in> {CM_LBS_PLAT_AMAP10, CM_LBS_PLAT_AMAP20, CM_LBS_PLAT_ONEOSPOS}
     | Some (Amap_attr a) \<Rightarrow> pf \<in> {CM_LBS_PLAT_AMAP10, CM_LBS_PLAT_AMAP20}
     | Some (Oneospos_attr a) \<Rightarrow> pf = CM_LBS_PLAT_ONEOSPOS)"

lemma occupied_init:
  assumes "w_task w" and "occupied pf w" and "attr_fits pf atr"
  shows "cm_lbs_init pf atr w
    = Some (if pf = CM_LBS_PLAT_ONEOSPOS \<and> atr = None then -1 else -2, w\<lparr>w_platform := pf\<rparr>)"
  using assms(2,3) running_task_create [OF assms(1), of pf]
  by (cases atr) (auto simp: cm_lbs_init_def cm_lbs_init_amap_def cm_lbs_init_oneospos_def occupied_def
      attr_fits_def platform_defs split: lbs_attr.splits)

lemma started_occupies:
  assumes "lbs_inv w" and "cm_lbs_init pf atr w = Some (0, w1)"
  shows "lbs_inv w1 \<and> w_task w1 \<and> occupied pf w1"
  using assms
proof (cases rule: init_ok_cases)
  case (amap v a)
  then show ?thesis
    using init_inv [OF assms] amap.init_opens [OF amap(3,4)] by (auto simp: occupied_def platform_defs)
next
  case (oneospos v a)
  then show ?thesis
    using init_inv [OF assms] oneospos.init_opens [OF oneospos(3,4)] by (simp add: occupied_def)
qed

text \<open>Property C12 [init_busy]: a session that was started excludes a second one until it is released.
  After \<open>cm_lbs_init\<close> returned 0 let any calls of \<open>cm_lbs_init\<close>, for any platform and with any
  attributes, any location requests and any changes of the network follow, where no location request is
  refused with -2 or -3, which releases a session. Then a further \<open>cm_lbs_init\<close> for a platform that
  shares the session (the two versions of AMAP share one) returns -2, whatever its attributes (null, or the
  structure of its platform), or -1 for OneOS without attributes, and changes nothing but the current platform.\<close>

theorem second_init_is_busy:
  assumes "lbs_inv w" and "cm_lbs_init pf atr w = Some (0, w1)"
    and "run_calls cs w1 = Some (rs, w2)" and "\<not> list_ex refusal rs"
    and "attr_fits pf' atr'" and "pf' = CM_LBS_PLAT_ONEOSPOS \<longleftrightarrow> pf = CM_LBS_PLAT_ONEOSPOS"
  shows "cm_lbs_init pf' atr' w2
    = Some (if pf' = CM_LBS_PLAT_ONEOSPOS \<and> atr' = None then -1 else -2, w2\<lparr>w_platform := pf'\<rparr>)"
proof -
  have "lbs_inv w1" "w_task w1" "occupied pf w1" using started_occupies [OF assms(1,2)] by simp_all
  then have "w_task w2" "occupied pf w2" using calls_keep_session [OF _ _ _ assms(3,4)] by blast+
  then show ?thesis using occupied_init [OF _ _ assms(5)] assms(6) by (simp add: occupied_def)
qed

definition sample_located_calls :: "lbs_call list" where
  "sample_located_calls = [Call_location (Some ATCMD_CALLBACK) 0, Call_init CM_LBS_PLAT_AMAP20 None]"

lemma sample_calls:
  "\<exists>w2. run_calls sample_located_calls sample_started
     = Some ([(Call_location (Some ATCMD_CALLBACK) 0, 0), (Call_init CM_LBS_PLAT_AMAP20 None, -2)], w2)"
  by (simp add: sample_located_calls_def sample_started_def sample_world_def cm_lbs_location_def
      cm_lbs_location_amap_def cm_lbs_get_netstate_def cm_lbs_QueueSend_def CM_LBS_MESSAGE_QUEUE_BUFLEN_def
      cm_lbs_init_def cm_lbs_task_create_def cm_lbs_init_amap_def platform_defs Let_def)

text \<open>A request and an attempt for the second version, both on the session of the first.\<close>

theorem second_init_is_busy_witness:
  "\<exists>rs w2. run_calls sample_located_calls sample_started = Some (rs, w2)
     \<and> cm_lbs_init CM_LBS_PLAT_AMAP10 (Some (Amap_attr sample_amap_attr)) w2
         = Some (-2, w2\<lparr>w_platform := CM_LBS_PLAT_AMAP10\<rparr>)"
proof -
  obtain w2 where w2: "run_calls sample_located_calls sample_started
     = Some ([(Call_location (Some ATCMD_CALLBACK) 0, 0), (Call_init CM_LBS_PLAT_AMAP20 None, -2)], w2)"
    using sample_calls by blast
  have "\<not> list_ex refusal [(Call_location (Some ATCMD_CALLBACK) 0, 0), (Call_init CM_LBS_PLAT_AMAP20 None, -2)]"
    by (simp add: refusal_def)
  from second_init_is_busy [OF sample_inv sample_init w2 this, of CM_LBS_PLAT_AMAP10 "Some (Amap_attr sample_amap_attr)"]
  show ?thesis using w2 by (simp add: attr_fits_def platform_defs)
qed

text \<open>Property C13 [refused_request]: a location request that is refused for want of a network (-2) or of
  room in the queue (-3) releases the session of the current platform: the block of device information
  that it owns is freed, and no other block is; the next request is answered with -1, and the caller has
  to initialise again.\<close>

theorem refused_request_releases_session:
  assumes "lbs_inv w" and "cm_lbs_location f arg w = Some (r, w1)" and "r = -2 \<or> r = -3"
  shows "lbs_inv w1 \<and>
    (if w_platform w = CM_LBS_PLAT_ONEOSPOS
     then w_oneospos w1 = None \<and> w_live w1 = w_live w - oneospos_uid w
       \<and> cm_lbs_location_oneospos g arg' w1 = Some (-1, w1)
     else w_amap w1 = None \<and> w_live w1 = w_live w - amap_uid w
       \<and> cm_lbs_location_amap g arg' w1 = Some (-1, w1))"
proof (cases "w_platform w = CM_LBS_PLAT_ONEOSPOS")
  case True
  then have l: "cm_lbs_location_oneospos f arg w = Some (r, w1)"
    using assms(2) by (simp add: cm_lbs_location_def platform_defs)
  have "w_oneospos w \<noteq> None"
    using oneospos.request_never_opens(1) [OF assms(1) l] assms(3) by fastforce
  from oneospos.refused_request_releases [OF assms(1) this l assms(3)] show ?thesis using True by simp
next
  case False
  then have l: "cm_lbs_location_amap f arg w = Some (r, w1)"
    using assms(2,3) by (auto simp: cm_lbs_location_def split: if_splits)
  have "w_amap w \<noteq> None"
    using amap.request_never_opens(1) [OF assms(1) l] assms(3) by fastforce
  from amap.refused_request_releases [OF assms(1) this l assms(3)] show ?thesis using False by simp
qed

lemma sample_started_inv: "lbs_inv sample_started"
  using init_inv [OF sample_inv sample_init] .

text \<open>A session that owns a block, next to a block that nobody owns, when the network is gone.\<close>

definition sample_offline :: lbs_world where
  "sample_offline = sample_started\<lparr>w_pdptype := 0, w_live := {2, 3}, w_next := 4,
     w_amap := map_option (am_ueinfo_update (\<lambda>_. Some 2)) (w_amap sample_started)\<rparr>"

lemma sample_offline_inv: "lbs_inv sample_offline"
  by (simp add: sample_offline_def sample_started_def sample_world_def inv_defs sizeof_cm_lbs_msg_t_def)

theorem refused_request_releases_session_witness:
  "\<exists>w1. cm_lbs_location (Some ATCMD_CALLBACK) 0 sample_offline = Some (-2, w1)
     \<and> w_amap w1 = None \<and> w_live sample_offline = {2, 3} \<and> w_live w1 = {3}
     \<and> cm_lbs_location_amap (Some ATCMD_CALLBACK) 0 w1 = Some (-1, w1)"
proof -
  have uid: "w_live sample_offline = {2, 3}" "amap_uid sample_offline = {2}"
    by (simp_all add: sample_offline_def sample_started_def amap_uid_def)
  obtain w1 where l: "cm_lbs_location (Some ATCMD_CALLBACK) 0 sample_offline = Some (-2, w1)"
    by (simp add: cm_lbs_location_def cm_lbs_location_amap_def cm_lbs_get_netstate_def
        cm_lbs_s_amap_attr_free_def cm_amap_free_ueinfo_def free_ueinfo_def sample_offline_def
        sample_started_def platform_defs)
  have "w_platform sample_offline \<noteq> CM_LBS_PLAT_ONEOSPOS"
    by (simp add: sample_offline_def sample_started_def platform_defs)
  then show ?thesis
    using refused_request_releases_session [OF sample_offline_inv l, of "Some ATCMD_CALLBACK" 0] l
    by (auto simp: uid)
qed

section \<open>Reports of failures\<close>

lemma length_statecode: "length (dec_int (statecode s)) = 3" and statecode_no_NUL: "NUL \<notin> set (dec_int (statecode s))"
  by (cases s; simp add: statecode_def dec_int_def dec_nat.simps digit_char_def)+

lemma malloc_all_ok: "env_allocs (w :: lbs_world) = [] \<Longrightarrow> env_malloc w = (True, w)"
  by (simp add: env_malloc_def malloc_ok_def)

lemma error_text:
  assumes "env_allocs w = []" and "s \<noteq> LBS_ATCMD_STATE_SUCCED"
  shows "cm_lbs_atcmd_location_urc_rsp gcj s l w
    = Some (w\<lparr>w_urc := w_urc w @ [CRLF @ ''+MLBSLOC: '' @ dec_int (statecode s)]\<rparr>)"
proof -
  have len: "length (mlbsloc_head s) = 15" and nul: "NUL \<notin> set (mlbsloc_head s)"
    using length_statecode [of s] statecode_no_NUL [of s] by (simp_all add: mlbsloc_head_def CRLF_def)
  obtain b where b: "arr_puts (mlbsloc_head s) (replicate CM_LBS_ATCMD_URCLEN_MAX NUL) = Some b"
    "c_str b = Some (mlbsloc_head s)"
    using arr_puts_ok [OF nul, of "replicate CM_LBS_ATCMD_URCLEN_MAX NUL"] len
    by (auto simp: urc_len_defs)
  show ?thesis using assms b
    by (simp add: cm_lbs_atcmd_location_urc_rsp_def malloc_all_ok Let_def cm_lbs_urc_rsp_def
        mlbsloc_head_def)
qed

lemma error_reported:
  assumes "lbs_inv w" and "env_allocs w = []" and "ev \<noteq> CM_LBS_LOCATION_OK"
  shows "dispatch_cb gcj ATCMD_CALLBACK ev l arg w = Some (w\<lparr>w_amap := None, w_oneospos := None,
    w_live := w_live w - amap_uid w - oneospos_uid w,
    w_urc := w_urc w @ [CRLF @ ''+MLBSLOC: '' @ dec_int (statecode (atcmd_state ev))]\<rparr>)"
proof -
  let ?v = "w\<lparr>w_urc := w_urc w @ [CRLF @ ''+MLBSLOC: '' @ dec_int (statecode (atcmd_state ev))]\<rparr>"
  have s: "atcmd_state ev \<noteq> LBS_ATCMD_STATE_SUCCED" using assms(3) by (cases ev) (simp_all add: atcmd_state_def)
  have inv: "lbs_inv ?v" using assms(1) by (simp add: lbs_inv_def)
  show ?thesis using error_text [OF assms(2) s, of gcj l] deinit_ok [OF inv]
    by (simp add: dispatch_cb_def cm_lbs_atcmd_callback_def)
qed

text \<open>Property C11 [error_report]: when a location fails and there is memory for the report, the callback of \<open>AT+MLBSLOC\<close> reports exactly one
  line, \<open>+MLBSLOC: <code>\<close>, whose code depends only on the event (120 for a timeout, 121 for a bad key,
  122 for a bad parameter, 123 and 125 for the quotas, 124 for the rate limit, 126 for everything
  else), and then ends both sessions and frees what they own; a block of device information that no
  session owns stays.\<close>

theorem failure_is_reported_once:
  assumes "lbs_inv w" and "env_allocs w = []" and "ev \<noteq> CM_LBS_LOCATION_OK"
  shows "\<exists>w'. dispatch_cb gcj ATCMD_CALLBACK ev l arg w = Some w' \<and> lbs_inv w'
    \<and> w_urc w' = w_urc w @ [CRLF @ ''+MLBSLOC: '' @ (case ev of
          CM_LBS_TIMEOUT \<Rightarrow> ''120'' | CM_LBS_KEY_ERR \<Rightarrow> ''121'' | CM_LBS_PARAM_INVALID \<Rightarrow> ''122''
        | CM_LBS_OVER_DAYQUTA \<Rightarrow> ''123'' | CM_LBS_OVER_QPS \<Rightarrow> ''124'' | CM_LBS_OVER_QUOTA \<Rightarrow> ''125''
        | _ \<Rightarrow> ''126'')]
    \<and> w_amap w' = None \<and> w_oneospos w' = None
    \<and> w_live w' = w_live w - amap_uid w - oneospos_uid w"
proof -
  note r = error_reported [OF assms, of gcj l arg]
  have code: "dec_int (statecode (atcmd_state ev)) = (case ev of
          CM_LBS_TIMEOUT \<Rightarrow> ''120'' | CM_LBS_KEY_ERR \<Rightarrow> ''121'' | CM_LBS_PARAM_INVALID \<Rightarrow> ''122''
        | CM_LBS_OVER_DAYQUTA \<Rightarrow> ''123'' | CM_LBS_OVER_QPS \<Rightarrow> ''124'' | CM_LBS_OVER_QUOTA \<Rightarrow> ''125''
        | _ \<Rightarrow> ''126'')"
    using assms(3) by (cases ev) (simp_all add: atcmd_state_def statecode_def dec_int_def dec_nat.simps
        digit_char_def)
  show ?thesis using r dispatch_cb_returns(1) [OF assms(1) r] by (simp add: code)
qed

theorem failure_is_reported_once_witness:
  "\<exists>w'. dispatch_cb (\<lambda>a b. (a, b)) ATCMD_CALLBACK CM_LBS_TIMEOUT None 0 sample_started = Some w'
     \<and> w_urc w' = [CRLF @ ''+MLBSLOC: 120''] \<and> w_amap w' = None"
  using failure_is_reported_once [OF sample_started_inv, of CM_LBS_TIMEOUT "\<lambda>a b. (a, b)" None 0]
  by (auto simp: sample_started_def sample_world_def)

text \<open>Property C10 [filtered_key]: a location with one of the six blacklisted API keys never reaches the
  platform, whatever its request would do: the task reports one line with code 126, ends the session
  and frees the block it had just allocated for the request.\<close>

theorem filtered_key_is_not_located:
  assumes "lbs_inv w" and "env_allocs w = []" and "w_amap w = Some a"
    and "au_apikey (am_auth a) = Some k" and "c_str k = Some key" and "key \<in> set s_amap_key_filter"
    and "am_cb_arg a = Some \<lparr>cb = Some ATCMD_CALLBACK, cb_arg = arg\<rparr>"
  shows "\<exists>w'. cm_lbs_asyn_location_amap (dispatch_cb gcj) locate w = Some w' \<and> lbs_inv w'
    \<and> w_urc w' = w_urc w @ [CRLF @ ''+MLBSLOC: 126''] \<and> w_amap w' = None
    \<and> w_live w' = w_live w - amap_uid w - oneospos_uid w"
proof -
  define v where "v = w\<lparr>w_live := insert (w_next w) (w_live w), w_next := Suc (w_next w)\<rparr>"
  have n: "new_ueinfo w = (Some (w_next w), v)"
    using assms(2) by (simp add: new_ueinfo_def malloc_all_ok v_def)
  have fresh: "w_next w \<notin> w_live w" using assms(1) by (auto simp: lbs_inv_def)
  note nv = new_ueinfo_cases [OF assms(1) n]
  have uids: "amap_uid v = amap_uid w" "oneospos_uid v = oneospos_uid w" by (simp_all add: v_def)
  define u where "u = v\<lparr>w_amap := None, w_oneospos := None, w_live := w_live v - amap_uid v - oneospos_uid v,
    w_urc := w_urc v @ [CRLF @ ''+MLBSLOC: 126'']\<rparr>"
  have code: "dec_int (statecode (atcmd_state CM_LBS_UNKNOW_ERR)) = ''126''"
    by (simp add: atcmd_state_def statecode_def dec_int_def dec_nat.simps digit_char_def)
  have av: "env_allocs v = []" using assms(2) by (simp add: v_def)
  have d: "dispatch_cb gcj ATCMD_CALLBACK CM_LBS_UNKNOW_ERR None arg v = Some u"
    using error_reported [OF nv(1) av, of CM_LBS_UNKNOW_ERR gcj None arg] by (simp add: code u_def)
  have c: "cm_lbs_amap_callback (dispatch_cb gcj) AMAP_LOCATION_APIKEY_FOBIDEN None (am_cb_arg a) v = Some u"
    by (simp add: cm_lbs_amap_callback_def assms(7) amap_ret_def d)
  have i: "w_next w \<in> w_live u" using nv(4) by (simp add: u_def)
  define w' where "w' = u\<lparr>w_live := w_live u - {w_next w}\<rparr>"
  have f: "cm_amap_free_ueinfo (Some (w_next w)) u = Some w'"
    using i by (simp add: cm_amap_free_ueinfo_def free_ueinfo_def w'_def)
  have flt: "cm_amap_key_filter key \<noteq> CM_LBS_OK" using assms(6) by (simp add: cm_amap_key_filter_def)
  have run: "cm_lbs_asyn_location_amap (dispatch_cb gcj) locate w = Some w'"
    by (simp add: cm_lbs_asyn_location_amap_def cm_amap_get_ueinfo_def assms(3-5) n c f flt)
  have "lbs_inv w'"
    using free_loose [OF dispatch_cb_returns(1) [OF nv(1) d], of "Some (w_next w)"] f
    by (simp add: cm_amap_free_ueinfo_def u_def)
  moreover have "w_live w' = w_live w - amap_uid w - oneospos_uid w"
    using fresh by (simp add: w'_def u_def uids) (auto simp: v_def)
  moreover have "w_urc w' = w_urc w @ [CRLF @ ''+MLBSLOC: 126'']" "w_amap w' = None"
    by (simp_all add: w'_def u_def v_def)
  ultimately show ?thesis using run by blast
qed

text \<open>A running session with a given key, its request not yet handled.\<close>

definition sample_session :: "string \<Rightarrow> cm_amap_t" where
  "sample_session key = \<lparr>am_ueinfo = None,
     am_auth = \<lparr>au_platform = 10, au_digital_sign_enable = 0, au_digital_sign_key = None,
       au_apikey = Some (key @ [NUL]), au_time_out = 10, au_show_fields_enable = 0\<rparr>,
     am_cb_arg = Some \<lparr>cb = Some ATCMD_CALLBACK, cb_arg = 0\<rparr>, am_nearbts_enable = 0\<rparr>"

definition sample_located :: "string \<Rightarrow> lbs_world" where
  "sample_located key = sample_started\<lparr>w_amap := Some (sample_session key)\<rparr>"

lemma sample_located_inv: "lbs_inv (sample_located key)"
  using sample_started_inv by (simp add: sample_located_def sample_session_def lbs_inv_def)

lemma sample_located_simps [simp]:
  "w_amap (sample_located key) = Some (sample_session key)" "env_allocs (sample_located key) = []"
  "w_urc (sample_located key) = []" "w_platform (sample_located key) = CM_LBS_PLAT_AMAP10"
  by (simp_all add: sample_located_def sample_started_def sample_world_def platform_defs)

theorem filtered_key_is_not_located_witness:
  "\<exists>w'. cm_lbs_asyn_location_amap (dispatch_cb (\<lambda>a b. (a, b))) (\<lambda>a w. None)
         (sample_located ''17c91c31e704f1306d3b870d2cef76ca'') = Some w'
     \<and> w_urc w' = [CRLF @ ''+MLBSLOC: 126''] \<and> w_amap w' = None"
proof -
  let ?key = "''17c91c31e704f1306d3b870d2cef76ca''"
  have k: "c_str (?key @ [NUL]) = Some ?key" by (simp add: c_str_def)
  have m: "?key \<in> set s_amap_key_filter" by (simp add: s_amap_key_filter_def)
  have "au_apikey (am_auth (sample_session ?key)) = Some (?key @ [NUL])"
    "am_cb_arg (sample_session ?key) = Some \<lparr>cb = Some ATCMD_CALLBACK, cb_arg = 0\<rparr>"
    by (simp_all add: sample_session_def)
  from filtered_key_is_not_located [OF sample_located_inv sample_located_simps(2,1) this(1) k m this(2),
      of "\<lambda>a b. (a, b)" "\<lambda>a w. None"]
  show ?thesis by auto
qed

section \<open>Where the service goes wrong\<close>

lemma init_keeps_queue:
  assumes "w_task w" and "cm_lbs_init pf atr w = Some (r, w')"
  shows "w_queun w' = w_queun w"
proof -
  have c: "cm_lbs_task_create (w\<lparr>w_platform := pf\<rparr>) = (CM_LBS_OK, w\<lparr>w_platform := pf\<rparr>)"
    using assms(1) by (simp add: cm_lbs_task_create_def)
  have "w' = w\<lparr>w_platform := pf\<rparr> \<or> (\<exists>a. cm_lbs_init_amap pf a (w\<lparr>w_platform := pf\<rparr>) = Some (r, w'))
      \<or> (\<exists>a. cm_lbs_init_oneospos pf a (w\<lparr>w_platform := pf\<rparr>) = Some (r, w'))"
    using assms(2) by (auto simp: cm_lbs_init_def c split: if_splits option.splits lbs_attr.splits)
  then consider "w' = w\<lparr>w_platform := pf\<rparr>" | a where "cm_lbs_init_amap pf a (w\<lparr>w_platform := pf\<rparr>) = Some (r, w')"
    | a where "cm_lbs_init_oneospos pf a (w\<lparr>w_platform := pf\<rparr>) = Some (r, w')" by blast
  then show ?thesis
  proof cases
    case 2
    obtain v where v: "lbs_env.more v = lbs_env.more (w\<lparr>w_platform := pf\<rparr>)"
      and "w' = v \<or> (\<exists>a. w' = v\<lparr>w_amap := Some a\<rparr>)" using init_amap_result [OF 2] by blast
    then show ?thesis using same_more(5) [OF v] by (elim disjE exE) simp_all
  next
    case 3
    obtain v where v: "lbs_env.more v = lbs_env.more (w\<lparr>w_platform := pf\<rparr>)"
      and "w' = v \<or> (\<exists>a. w' = v\<lparr>w_oneospos := Some a\<rparr>)" using init_oneospos_result [OF 3] by blast
    then show ?thesis using same_more(5) [OF v] by (elim disjE exE) simp_all
  qed simp
qed

lemma no_queue_no_location:
  assumes "w_queun w = None" and "cm_lbs_location f arg w = Some (r, w')"
  shows "r \<noteq> 0"
  using assms by (auto simp: cm_lbs_location_def cm_lbs_location_amap_def cm_lbs_location_oneospos_def
      cm_lbs_QueueSend_def Let_def split: if_splits option.splits bind_splits)

text \<open>Property C15 [lost_queue]: the task is created before its queue, and a task that exists is taken for a
  service that works. If the queue cannot be created the first \<open>cm_lbs_init\<close> reports -2, but the thread
  runs already and its first turn follows the null handle; a later \<open>cm_lbs_init\<close> no longer tries to
  create the queue, and no location request that follows it can succeed.\<close>

theorem lost_queue_is_permanent:
  assumes "\<not> w_task w" and "w_queun w = None" and "env_allocs w = []"
    and "fst (next_answer (w_threads w))" and "\<not> fst (next_answer (w_msggets w))"
  shows "\<exists>w1. cm_lbs_init pf atr w = Some (-2, w1) \<and> cm_lbs_main_task call ls w1 = None
    \<and> (\<forall>pf' atr' r2 w2 f arg r3 w3. cm_lbs_init pf' atr' w1 = Some (r2, w2) \<longrightarrow>
         cm_lbs_location f arg w2 = Some (r3, w3) \<longrightarrow> r3 \<noteq> 0)"
proof -
  obtain l where l: "next_answer (w_threads w) = (True, l)"
    using assms(4) by (cases "next_answer (w_threads w)") simp
  obtain m where m: "next_answer (w_msggets w) = (False, m)"
    using assms(5) by (cases "next_answer (w_msggets w)") simp
  define w1 where "w1 = w\<lparr>w_platform := pf, w_threads := l, w_task := True, w_msggets := m, w_queun := None\<rparr>"
  have "cm_lbs_task_create (w\<lparr>w_platform := pf\<rparr>) = (CM_LBS_ERR, w1)"
    using assms(1,3) by (simp add: cm_lbs_task_create_def cm_lbs_CreateTask_def l cm_lbs_CreateQuen_def m
        malloc_all_ok sizeof_cm_lbs_msg_t_def CM_LBS_MESSAGE_QUEUE_BUFLEN_def w1_def Let_def)
  then have "cm_lbs_init pf atr w = Some (-2, w1)" by (simp add: cm_lbs_init_def)
  moreover have "cm_lbs_main_task call ls w1 = None"
    by (simp add: cm_lbs_main_task_def cm_lbs_QueueRev_def w1_def)
  moreover have "w_queun w2 = None" if "cm_lbs_init pf' atr' w1 = Some (r2, w2)" for pf' atr' r2 w2
    using init_keeps_queue [OF _ that] by (simp add: w1_def)
  ultimately show ?thesis using no_queue_no_location by blast
qed

theorem lost_queue_is_permanent_witness:
  "\<exists>w1. cm_lbs_init CM_LBS_PLAT_AMAP10 (Some (Amap_attr sample_amap_attr))
       (sample_world\<lparr>w_msggets := [False]\<rparr>) = Some (-2, w1)
     \<and> cm_lbs_main_task (dispatch_cb (\<lambda>a b. (a, b))) quiet w1 = None"
  using lost_queue_is_permanent [of "sample_world\<lparr>w_msggets := [False]\<rparr>" CM_LBS_PLAT_AMAP10
      "Some (Amap_attr sample_amap_attr)" "dispatch_cb (\<lambda>a b. (a, b))" quiet]
  by (auto simp: sample_world_def next_answer_def)

text \<open>Property C16 [deinit_race]: ending the service between a request and the task's turn is not
  supported: the message stays in the queue, and the turn that takes it follows the null session.\<close>

theorem deinit_before_turn_faults:
  assumes "lbs_inv w" and "cm_lbs_location f arg w = Some (0, w1)" and "w_queun w = Some q"
    and "w_mq w (msgid q) = Some ms" and "CM_LBS_GET_UEINFO \<notin> set ms" and "cm_lbs_deinit w1 = Some w2"
  shows "cm_lbs_main_task call ls w2 = None"
proof -
  have pf: "w_platform w \<in> {CM_LBS_PLAT_AMAP10, CM_LBS_PLAT_AMAP20, CM_LBS_PLAT_ONEOSPOS}"
    using assms(2) by (auto simp: cm_lbs_location_def split: if_splits)
  have "w_queun w1 = Some q \<and> w_mq w1 (msgid q) = Some (ms @ [CM_LBS_LOCATION]) \<and> w_platform w1 = w_platform w"
    using assms(2-4) location_amap_result [OF assms(1), of f arg 0 w1]
      location_oneospos_result [OF assms(1), of f arg 0 w1]
    by (auto simp: cm_lbs_location_def split: if_splits)
  moreover have "lbs_inv w1" using location_inv [OF assms(1,2)] .
  ultimately have w2: "w_queun w2 = Some q" "w_mq w2 (msgid q) = Some (ms @ [CM_LBS_LOCATION])"
    "w_platform w2 = w_platform w" "w_amap w2 = None" "w_oneospos w2 = None"
    using deinit_ok assms(6) by auto
  obtain m ms' where m: "ms @ [CM_LBS_LOCATION] = m # ms'" by (cases ms) auto
  then have "m = CM_LBS_LOCATION" using assms(5) by (cases ms; cases m) auto
  then have rcv: "cm_lbs_QueueRev (w_queun w2) w2
      = Some (Some (CM_LBS_OK, Some CM_LBS_LOCATION, w2\<lparr>w_mq := (w_mq w2)(msgid q \<mapsto> ms')\<rparr>))"
    using w2 m by (simp add: cm_lbs_QueueRev_def)
  show ?thesis using pf w2
    by (auto simp: cm_lbs_main_task_def rcv [unfolded w2(1)] cm_lbs_asyn_location_def cm_lbs_asyn_location_amap_def
        cm_lbs_asyn_location_oneospos_def platform_defs)
qed

lemma sample_location:
  "cm_lbs_location (Some ATCMD_CALLBACK) 0 sample_started
     = Some (0, (sample_located ''key'')\<lparr>w_mq := [1 \<mapsto> [CM_LBS_LOCATION]]\<rparr>)"
  by (simp add: cm_lbs_location_def cm_lbs_location_amap_def cm_lbs_get_netstate_def cm_lbs_QueueSend_def
      CM_LBS_MESSAGE_QUEUE_BUFLEN_def sample_located_def sample_session_def sample_started_def
      sample_world_def platform_defs Let_def)

theorem deinit_before_turn_faults_witness:
  "\<exists>w2. cm_lbs_deinit ((sample_located ''key'')\<lparr>w_mq := [1 \<mapsto> [CM_LBS_LOCATION]]\<rparr>) = Some w2
     \<and> cm_lbs_main_task (dispatch_cb (\<lambda>a b. (a, b))) quiet w2 = None"
proof -
  obtain w2 where d: "cm_lbs_deinit ((sample_located ''key'')\<lparr>w_mq := [1 \<mapsto> [CM_LBS_LOCATION]]\<rparr>) = Some w2"
    using deinit_ok [OF location_inv [OF sample_started_inv sample_location]] by blast
  have "w_queun sample_started = Some \<lparr>msgid = 1, msg_len = 4\<rparr>" "w_mq sample_started 1 = Some []"
    by (simp_all add: sample_started_def)
  with deinit_before_turn_faults [OF sample_started_inv sample_location _ _ _ d,
      of "\<lparr>msgid = 1, msg_len = 4\<rparr>" "[]"] d
  show ?thesis by simp
qed

text \<open>When the result of an AMAP location cannot be allocated, the upper
  layer is still told of a success, with a null result, and each of the two callbacks of the AT layer
  follows that null pointer.\<close>

theorem no_memory_is_reported_as_success:
  assumes "env_allocs w = [False]"
  shows "cm_lbs_amap_callback call AMAP_LOCATION_SUCCEED r (Some \<lparr>cb = Some f, cb_arg = arg\<rparr>) w
      = call f CM_LBS_LOCATION_OK None arg (w\<lparr>env_allocs := []\<rparr>)
    \<and> cm_lbs_amap_callback (dispatch_cb gcj) AMAP_LOCATION_SUCCEED r m w = None"
proof
  have mal: "env_malloc w = (False, w\<lparr>env_allocs := []\<rparr>)"
    using assms by (simp add: env_malloc_def malloc_ok_def)
  show "cm_lbs_amap_callback call AMAP_LOCATION_SUCCEED r (Some \<lparr>cb = Some f, cb_arg = arg\<rparr>) w
      = call f CM_LBS_LOCATION_OK None arg (w\<lparr>env_allocs := []\<rparr>)"
    by (simp add: cm_lbs_amap_callback_def mal amap_ret_def)
  have amap: "cm_lbs_atcmd_amap_location_urc_rsp None pf buf v = None" if "env_allocs v = []" for pf buf v
    using that by (auto simp: cm_lbs_atcmd_amap_location_urc_rsp_def malloc_all_ok Let_def split: bind_splits)
  have oneospos: "cm_lbs_atcmd_oneospos_location_urc_rsp gcj None pf buf v = None" for pf buf v
    by (auto simp: cm_lbs_atcmd_oneospos_location_urc_rsp_def Let_def split: bind_splits)
  have "dispatch_cb gcj g CM_LBS_LOCATION_OK None a (w\<lparr>env_allocs := []\<rparr>) = None" for g a
    by (cases g) (auto simp: dispatch_cb_def cm_lbs_atcmd_callback_def atcmd_state_def on_fs_def
        cm_lbs_atcmd_location_urc_rsp_def malloc_all_ok Let_def amap oneospos
        cm_lbs_atcmd_at_mlbs_callback_def split: bind_splits if_splits)
  then show "cm_lbs_amap_callback (dispatch_cb gcj) AMAP_LOCATION_SUCCEED r m w = None"
    by (simp add: cm_lbs_amap_callback_def mal amap_ret_def split: bind_splits)
qed

theorem no_memory_is_reported_as_success_witness:
  "cm_lbs_amap_callback (dispatch_cb (\<lambda>a b. (a, b))) AMAP_LOCATION_SUCCEED None
     (Some \<lparr>cb = Some ATCMD_CALLBACK, cb_arg = 0\<rparr>) (sample_started\<lparr>env_allocs := [False]\<rparr>) = None"
  by (rule no_memory_is_reported_as_success [THEN conjunct2]) simp

text \<open>The signature key of a session is cut or padded to the length of the API
  key, with which it is copied: a longer signature key loses its end.\<close>

theorem signature_key_takes_api_key_length:
  assumes "NUL \<notin> set k" and "NUL \<notin> set d" and "length k \<le> length d" and "env_allocs w = []"
    and "at_api_key attr = Some (k @ [NUL])" and "at_digital_key attr = Some (d @ [NUL])"
  shows "\<exists>auth sk. cm_lbs_copy_amap_authentication_by_attr pf attr w = Some (auth, w)
    \<and> (\<exists>ak. au_apikey auth = Some ak \<and> c_str ak = Some k)
    \<and> au_digital_sign_key auth = Some sk \<and> c_str sk = Some (take (length k) d)"
proof -
  have k: "c_str (k @ [NUL]) = Some k" using assms(1) by (simp add: c_str_append_NUL)
  have tw: "takeWhile (\<lambda>c. c \<noteq> NUL) (v @ [NUL]) = v" if "NUL \<notin> set v" for v
    using that by (subst takeWhile_append2) auto
  have new: "\<exists>b. strncpy_new (length k) (v @ [NUL]) = Some b \<and> c_str b = Some (take (length k) v)"
    if "NUL \<notin> set v" "length k \<le> length v" for v
  proof -
    have "NUL \<notin> set (take (length k) v)" using that(1) by (meson in_set_takeD)
    then show ?thesis using that
      by (simp add: strncpy_new_def tw Let_def c_str_append_NUL min_def)
  qed
  obtain ak where "strncpy_new (length k) (k @ [NUL]) = Some ak" "c_str ak = Some k"
    using new [OF assms(1)] by auto
  moreover obtain sk where "strncpy_new (length k) (d @ [NUL]) = Some sk" "c_str sk = Some (take (length k) d)"
    using new [OF assms(2,3)] by blast
  ultimately show ?thesis using assms(4-6) k
    by (simp add: cm_lbs_copy_amap_authentication_by_attr_def malloc_all_ok)
qed

theorem signature_key_takes_api_key_length_witness:
  "\<exists>auth sk. cm_lbs_copy_amap_authentication_by_attr CM_LBS_PLAT_AMAP10
      (sample_amap_attr\<lparr>at_digital_key := Some (''secret'' @ [NUL])\<rparr>) sample_world = Some (auth, sample_world)
    \<and> au_digital_sign_key auth = Some sk \<and> c_str sk = Some ''sec''"
  using signature_key_takes_api_key_length [of "''key''" "''secret''" sample_world
      "sample_amap_attr\<lparr>at_digital_key := Some (''secret'' @ [NUL])\<rparr>" CM_LBS_PLAT_AMAP10]
  by (auto simp: sample_amap_attr_def sample_world_def)

end
