(* ===== verification/OpenFiles.thy ===== *)
theory OpenFiles
  imports Prelude
begin

text \<open>
  The list of open files of \<^verbatim>\<open>libfs/src/cm_file_util.c\<close> (\<open>insert_openflist\<close>,
  \<open>find_openflist_byHandle\<close>, \<open>close_openflist_byFname\<close>, \<open>remove_openflist\<close>): a singly linked list
  in the heap, because closing by name frees nodes that other nodes still point to. The heap maps
  addresses to nodes; a freed or foreign address is \<open>None\<close>, and following it is a fault. The loops
  are partial functions: a cyclic list gives \<open>None\<close> as well, so \<open>Some\<close> means that the loop ends
  without a fault.
\<close>

section \<open>Nodes, heap and list\<close>

type_synonym addr = nat

record FS_OpenFileInfo =
  fHandle :: u32
  fp :: nat
  fMode :: u32
  fWriteLen :: u32
  nxt :: "addr option"
  fname :: string

type_synonym heap = "addr \<Rightarrow> FS_OpenFileInfo option"

record FS_OpenFileInfo_list =
  node :: "addr option"
  num :: u32
  maxNum :: u32

text \<open>The state: the heap, the list header and the streams closed so far.\<close>

record oflist =
  hp :: heap
  lst :: FS_OpenFileInfo_list
  closed :: "nat list"

definition FS_OPENFILE_HANDLE_START :: u32 where
  "FS_OPENFILE_HANDLE_START = 1"

section \<open>The operations\<close>

text \<open>The \<open>while\<close> loop of \<open>insert_openflist\<close>: the node after which there is a gap.\<close>

partial_function (option) gap_after :: "heap \<Rightarrow> addr \<Rightarrow> addr option" where
  "gap_after h a = do {
     n \<leftarrow> h a;
     (case nxt n of
        None \<Rightarrow> Some a
      | Some b \<Rightarrow> do {
          m \<leftarrow> h b;
          (if fHandle n + 1 = fHandle m then gap_after h b else Some a) }) }"

definition insert_openflist :: "addr \<Rightarrow> oflist \<Rightarrow> (u32 \<times> oflist) option" where
  "insert_openflist new s = do {
     nw \<leftarrow> hp s new;
     (case node (lst s) of
        None \<Rightarrow> Some (FS_OPENFILE_HANDLE_START,
          s\<lparr>hp := (hp s)(new \<mapsto> nw\<lparr>fHandle := FS_OPENFILE_HANDLE_START\<rparr>),
            lst := (lst s)\<lparr>node := Some new, num := num (lst s) + 1\<rparr>\<rparr>)
      | Some h0 \<Rightarrow> do {
          a \<leftarrow> gap_after (hp s) h0;
          n \<leftarrow> hp s a;
          Some (fHandle n + 1,
            s\<lparr>hp := (hp s)(new \<mapsto> nw\<lparr>nxt := nxt n, fHandle := fHandle n + 1\<rparr>,
                           a \<mapsto> n\<lparr>nxt := Some new\<rparr>),
              lst := (lst s)\<lparr>num := num (lst s) + 1\<rparr>\<rparr>) }) }"

partial_function (option) find_walk :: "heap \<Rightarrow> u32 \<Rightarrow> addr option \<Rightarrow> addr option option" where
  "find_walk h handle index =
     (case index of
        None \<Rightarrow> Some None
      | Some a \<Rightarrow> do {
          n \<leftarrow> h a;
          (if fHandle n = handle then Some (Some a) else find_walk h handle (nxt n)) })"

definition find_openflist_byHandle :: "u32 \<Rightarrow> oflist \<Rightarrow> addr option option" where
  "find_openflist_byHandle handle s = find_walk (hp s) handle (node (lst s))"

text \<open>The loop of \<open>close_openflist_byFname\<close>: only a match at the head is unlinked before it is
  freed.\<close>

partial_function (option) close_walk :: "string \<Rightarrow> addr option \<Rightarrow> oflist \<Rightarrow> oflist option" where
  "close_walk name index s =
     (case index of
        None \<Rightarrow> Some s
      | Some a \<Rightarrow> do {
          n \<leftarrow> hp s a;
          (if fname n = name
           then close_walk name (nxt n)
             (s\<lparr>closed := closed s @ [fp n],
                hp := (hp s)(a := None),
                lst := (lst s)\<lparr>node := (if Some a = node (lst s) then nxt n else node (lst s)),
                               num := num (lst s) - 1\<rparr>\<rparr>)
           else close_walk name (nxt n) s) })"

text \<open>The result is the pointer the loop ends with, which is null.\<close>

definition close_openflist_byFname :: "string option \<Rightarrow> oflist \<Rightarrow> (addr option \<times> oflist) option" where
  "close_openflist_byFname name s =
     (case (node (lst s), name) of
        (Some a, Some nm) \<Rightarrow> do { s1 \<leftarrow> close_walk nm (Some a) s; Some (None, s1) }
      | _ \<Rightarrow> Some (None, s))"

partial_function (option) remove_walk :: "u32 \<Rightarrow> addr \<Rightarrow> addr option \<Rightarrow> oflist \<Rightarrow> oflist option" where
  "remove_walk handle head cur s =
     (case cur of
        None \<Rightarrow> Some s
      | Some c \<Rightarrow> do {
          n \<leftarrow> hp s c;
          (if fHandle n = handle then do {
             p \<leftarrow> hp s head;
             Some (s\<lparr>hp := (hp s)(head \<mapsto> p\<lparr>nxt := nxt n\<rparr>, c := None),
                     lst := (lst s)\<lparr>num := num (lst s) - 1\<rparr>\<rparr>) }
           else remove_walk handle c (nxt n) s) })"

definition remove_openflist :: "u32 \<Rightarrow> oflist \<Rightarrow> oflist option" where
  "remove_openflist handle s =
     (case node (lst s) of
        None \<Rightarrow> Some s
      | Some h0 \<Rightarrow> do {
          n \<leftarrow> hp s h0;
          (if fHandle n = handle
           then Some (s\<lparr>hp := (hp s)(h0 := None),
                        lst := (lst s)\<lparr>node := nxt n, num := num (lst s) - 1\<rparr>\<rparr>)
           else remove_walk handle h0 (nxt n) s) })"

section \<open>The list in the heap\<close>

text \<open>\<open>lseg h p as q\<close>: following \<open>next\<close> from the pointer \<open>p\<close> visits the nodes \<open>as\<close> and then
  holds the pointer \<open>q\<close>. A whole list is \<open>lseg h p as None\<close>.\<close>

fun lseg :: "heap \<Rightarrow> addr option \<Rightarrow> addr list \<Rightarrow> addr option \<Rightarrow> bool" where
  "lseg h p [] q \<longleftrightarrow> p = q"
| "lseg h p (a # as) q \<longleftrightarrow>
     p = Some a \<and> (case h a of None \<Rightarrow> False | Some n \<Rightarrow> lseg h (nxt n) as q)"

abbreviation chain :: "heap \<Rightarrow> addr option \<Rightarrow> addr list \<Rightarrow> bool" where
  "chain h p as \<equiv> lseg h p as None"

definition handle_at :: "heap \<Rightarrow> addr \<Rightarrow> u32" where
  "handle_at h a = (case h a of None \<Rightarrow> 0 | Some n \<Rightarrow> fHandle n)"

definition handles :: "heap \<Rightarrow> addr list \<Rightarrow> u32 list" where
  "handles h as = map (handle_at h) as"

text \<open>Well-formed: distinct nodes, ascending handles from 1 on, below the largest handle, and a
  counter that agrees with the nodes.\<close>

definition of_inv :: "oflist \<Rightarrow> addr list \<Rightarrow> bool" where
  "of_inv s as \<longleftrightarrow> chain (hp s) (node (lst s)) as \<and> distinct as
     \<and> sorted_wrt (<) (handles (hp s) as) \<and> (\<forall>x \<in> set (handles (hp s) as). 1 \<le> x)
     \<and> num (lst s) = of_nat (length as)"

text \<open>What insertion does to the handles: fill the first gap after the first handle.\<close>

fun ins_handle :: "u32 list \<Rightarrow> u32 list" where
  "ins_handle [] = [1]"
| "ins_handle [x] = [x, x + 1]"
| "ins_handle (x # y # r) = (if x + 1 = y then x # ins_handle (y # r) else x # (x + 1) # y # r)"

fun new_handle :: "u32 list \<Rightarrow> u32" where
  "new_handle [] = 1"
| "new_handle [x] = x + 1"
| "new_handle (x # y # r) = (if x + 1 = y then new_handle (y # r) else x + 1)"

lemma lseg_Cons [simp]:
  "lseg h p (a # as) q \<longleftrightarrow> p = Some a \<and> (\<exists>n. h a = Some n \<and> lseg h (nxt n) as q)"
  by (auto split: option.splits)

declare lseg.simps(2) [simp del]

lemma lseg_append:
  "lseg h p (as @ bs) q \<longleftrightarrow> (\<exists>r. lseg h p as r \<and> lseg h r bs q)"
  by (induction as arbitrary: p) auto

lemma lseg_dom: "lseg h p as q \<Longrightarrow> a \<in> set as \<Longrightarrow> \<exists>n. h a = Some n"
  by (induction as arbitrary: p) auto

lemma lseg_cong:
  "(\<And>a. a \<in> set as \<Longrightarrow> h' a = h a) \<Longrightarrow> lseg h' p as q = lseg h p as q"
  by (induction as arbitrary: p) auto

lemma lseg_upd_other [simp]:
  "x \<notin> set as \<Longrightarrow> lseg (h(x := v)) p as q = lseg h p as q"
  by (rule lseg_cong) auto

lemma lseg_last:
  "as \<noteq> [] \<Longrightarrow> lseg h p as q \<Longrightarrow> \<exists>n. h (last as) = Some n \<and> nxt n = q"
  by (induction as arbitrary: p) auto

lemma lseg_retarget:
  assumes "lseg h p (as @ [a]) q" and "a \<notin> set as"
  shows "lseg (h(a \<mapsto> (the (h a))\<lparr>nxt := r\<rparr>)) p (as @ [a]) r"
  using assms by (auto simp: lseg_append)

lemma handle_at_Some [simp]: "h a = Some n \<Longrightarrow> handle_at h a = fHandle n"
  by (simp add: handle_at_def)

lemma handle_at_upd [simp]: "handle_at (h(a := v)) b = (if b = a
    then (case v of None \<Rightarrow> 0 | Some n \<Rightarrow> fHandle n) else handle_at h b)"
  by (simp add: handle_at_def)

lemma handles_cong:
  "(\<And>a. a \<in> set as \<Longrightarrow> handle_at h' a = handle_at h a) \<Longrightarrow> handles h' as = handles h as"
  by (simp add: handles_def)

lemma handles_simps [simp]:
  "handles h [] = []" "handles h (a # as) = handle_at h a # handles h as"
  "handles h (as @ bs) = handles h as @ handles h bs"
  "length (handles h as) = length as" "set (handles h as) = handle_at h ` set as"
  by (simp_all add: handles_def)

section \<open>Looking up\<close>

lemma find_walk_eqs [simp]:
  "find_walk h handle None = Some None"
  "h a = Some n \<Longrightarrow> find_walk h handle (Some a)
     = (if fHandle n = handle then Some (Some a) else find_walk h handle (nxt n))"
  "h a = None \<Longrightarrow> find_walk h handle (Some a) = None"
  by (subst find_walk.simps, simp)+

lemma find_walk_chain:
  "chain h p as \<Longrightarrow> find_walk h handle p = Some (find (\<lambda>a. handle_at h a = handle) as)"
  by (induction as arbitrary: p) auto

lemma find_openflist_correct:
  assumes "of_inv s as"
  shows "find_openflist_byHandle handle s = Some (find (\<lambda>a. handle_at (hp s) a = handle) as)"
  using assms by (simp add: find_openflist_byHandle_def of_inv_def find_walk_chain)

section \<open>Insertion\<close>

lemma u32_succ:
  fixes x y :: u32
  shows "x < -1 \<Longrightarrow> x < x + 1" and "x < y \<Longrightarrow> x + 1 \<noteq> y \<Longrightarrow> x + 1 < y"
    and "x < y \<Longrightarrow> x + 1 \<le> y"
  by unat_arith+

lemma set_ins_handle: "set (ins_handle hs) = insert (new_handle hs) (set hs)"
  by (induction hs rule: ins_handle.induct) auto

text \<open>Between the first handle and the new one every handle is in use.\<close>

lemma new_handle_first:
  assumes "sorted_wrt (<) hs" and "\<forall>x \<in> set hs. x < -1" and "hs \<noteq> []"
  shows "\<forall>h. hd hs \<le> h \<and> h < new_handle hs \<longrightarrow> h \<in> set hs"
  using assms
proof (induction hs rule: ins_handle.induct)
  case (2 x)
  have "h = x" if "x \<le> h" "h < x + 1" for h
    using that u32_succ(3) [of x h] by fastforce
  then show ?case by auto
next
  case (3 x y r)
  have eq: "h = x" if "x \<le> h" "h < x + 1" for h
    using that u32_succ(3) [of x h] by fastforce
  show ?case
  proof (cases "x + 1 = y")
    case True
    have "h \<in> set (x # y # r)" if "x \<le> h" "h < new_handle (y # r)" for h
    proof (cases "y \<le> h")
      case ge: True
      then show ?thesis using 3 True that by auto
    next
      case False
      then show ?thesis using eq [of h] that(1) True by (simp add: not_le)
    qed
    then show ?thesis using True by simp
  next
    case False
    then show ?thesis using eq by auto
  qed
qed simp

lemma new_handle_gt:
  assumes "sorted_wrt (<) hs" and "\<forall>x \<in> set hs. x < -1" and "hs \<noteq> []"
  shows "hd hs < new_handle hs"
  using assms
proof (induction hs rule: ins_handle.induct)
  case (3 x y r)
  then show ?case
    by (cases "x + 1 = y") (auto intro: u32_succ(1) less_trans)
qed (auto intro: u32_succ(1))

lemma new_handle_fresh:
  assumes "sorted_wrt (<) hs" and "\<forall>x \<in> set hs. x < -1"
  shows "new_handle hs \<notin> set hs"
  using assms
proof (induction hs rule: ins_handle.induct)
  case (3 x y r)
  show ?case
  proof (cases "x + 1 = y")
    case True
    then have "y < new_handle (y # r)" and "x < y"
      using 3 new_handle_gt [of "y # r"] by auto
    then show ?thesis using 3 True by auto
  next
    case False
    then have "x < x + 1" and "x + 1 < y"
      using 3 u32_succ [of x] by auto
    then show ?thesis using 3 False by auto
  qed
qed (auto dest: u32_succ(1))

lemma sorted_ins_handle:
  assumes "sorted_wrt (<) hs" and "\<forall>x \<in> set hs. x < -1"
  shows "sorted_wrt (<) (ins_handle hs)"
  using assms
proof (induction hs rule: ins_handle.induct)
  case (3 x y r)
  show ?case
  proof (cases "x + 1 = y")
    case True
    have "y < new_handle (y # r)" and "x < y"
      using 3 True new_handle_gt [of "y # r"] by auto
    then have "\<forall>z \<in> set (ins_handle (y # r)). x < z"
      using 3 by (auto simp: set_ins_handle)
    then show ?thesis using 3 True by simp
  next
    case False
    then have "x < x + 1" and "x + 1 < y"
      using 3 u32_succ [of x] by auto
    then show ?thesis using 3 False by auto
  qed
qed (auto intro: u32_succ(1))

lemma ins_handle_pos:
  assumes "sorted_wrt (<) hs" and "\<forall>x \<in> set hs. x < -1" and "\<forall>x \<in> set hs. 1 \<le> x"
  shows "1 \<le> new_handle hs"
proof (cases "hs = []")
  case False
  then have "1 \<le> hd hs" and "hd hs < new_handle hs"
    using assms new_handle_gt by auto
  then show ?thesis by simp
qed simp

lemma gap_after_eqs [simp]:
  "h a = Some n \<Longrightarrow> nxt n = None \<Longrightarrow> gap_after h a = Some a"
  "h a = Some n \<Longrightarrow> nxt n = Some b \<Longrightarrow> h b = Some m \<Longrightarrow> gap_after h a
     = (if fHandle n + 1 = fHandle m then gap_after h b else Some a)"
  by (subst gap_after.simps, simp)+

lemma gap_after_chain:
  assumes "chain h p (a # as)"
  shows "\<exists>pre x post. a # as = pre @ x # post \<and> gap_after h a = Some x
    \<and> new_handle (handles h (a # as)) = handle_at h x + 1
    \<and> ins_handle (handles h (a # as))
        = handles h (pre @ [x]) @ (handle_at h x + 1) # handles h post"
  using assms
proof (induction as arbitrary: p a)
  case Nil
  then show ?case by (intro exI [of _ "[]"]) auto
next
  case (Cons b bs)
  from Cons.prems obtain n m where n: "h a = Some n" "nxt n = Some b" "h b = Some m"
    and c: "chain h (Some b) (b # bs)" by auto
  show ?case
  proof (cases "fHandle n + 1 = fHandle m")
    case True
    obtain pre x post where ih: "b # bs = pre @ x # post" "gap_after h b = Some x"
      "new_handle (handles h (b # bs)) = handle_at h x + 1"
      "ins_handle (handles h (b # bs)) = handles h (pre @ [x]) @ (handle_at h x + 1) # handles h post"
      using Cons.IH [OF c] by blast
    have "new_handle (handles h (a # b # bs)) = new_handle (handles h (b # bs))"
      "ins_handle (handles h (a # b # bs)) = handle_at h a # ins_handle (handles h (b # bs))"
      "gap_after h a = gap_after h b"
      using True n by simp_all
    then have "a # b # bs = (a # pre) @ x # post \<and> gap_after h a = Some x
      \<and> new_handle (handles h (a # b # bs)) = handle_at h x + 1
      \<and> ins_handle (handles h (a # b # bs))
          = handles h ((a # pre) @ [x]) @ (handle_at h x + 1) # handles h post"
      using ih by (simp only:) simp
    then show ?thesis by blast
  next
    case False
    then show ?thesis
      using n by (intro exI [of _ "[]"] exI [of _ a] exI [of _ "b # bs"]) auto
  qed
qed

lemma insert_openflist_correct:
  assumes inv: "of_inv s as" and new: "new \<notin> set as" "hp s new = Some nw" "nxt nw = None"
    and room: "\<forall>x \<in> set (handles (hp s) as). x < -1"
  defines "hs \<equiv> handles (hp s) as"
  shows "\<exists>s' as'. insert_openflist new s = Some (new_handle hs, s') \<and> of_inv s' as'
    \<and> set as' = insert new (set as) \<and> handles (hp s') as' = ins_handle hs
    \<and> handle_at (hp s') new = new_handle hs \<and> (\<forall>a \<in> set as. handle_at (hp s') a = handle_at (hp s) a)"
proof (cases as)
  case Nil
  then show ?thesis
    using inv new unfolding hs_def
    by (intro exI [of _ "snd (the (insert_openflist new s))"] exI [of _ "[new]"])
      (auto simp: insert_openflist_def of_inv_def FS_OPENFILE_HANDLE_START_def)
next
  case (Cons a r)
  have c: "chain (hp s) (node (lst s)) as" and d: "distinct as"
    and so: "sorted_wrt (<) hs" and pos: "\<forall>x \<in> set hs. 1 \<le> x"
    and nm: "num (lst s) = of_nat (length as)"
    using inv by (auto simp: of_inv_def hs_def)
  obtain pre x post where sp: "as = pre @ x # post" and g: "gap_after (hp s) a = Some x"
    and nh: "new_handle hs = handle_at (hp s) x + 1"
    and ih: "ins_handle hs = handles (hp s) (pre @ [x]) @ (handle_at (hp s) x + 1) # handles (hp s) post"
    using gap_after_chain [OF c [unfolded Cons]] unfolding hs_def Cons by blast
  obtain n where n: "hp s x = Some n" "lseg (hp s) (nxt n) post None"
    "lseg (hp s) (node (lst s)) pre (Some x)"
    using c unfolding sp by (auto simp: lseg_append)
  define h' where "h' = (hp s)(new \<mapsto> nw\<lparr>nxt := nxt n, fHandle := fHandle n + 1\<rparr>,
      x \<mapsto> n\<lparr>nxt := Some new\<rparr>)"
  define s' where "s' = s\<lparr>hp := h', lst := (lst s)\<lparr>num := num (lst s) + 1\<rparr>\<rparr>"
  have run: "insert_openflist new s = Some (new_handle hs, s')"
    using c Cons new g n nh by (simp add: insert_openflist_def s'_def h'_def)
  have x: "x \<noteq> new" "x \<notin> set pre" "x \<notin> set post" "new \<notin> set pre" "new \<notin> set post"
    using d new(1) unfolding sp by auto
  have ch: "chain h' (node (lst s)) (pre @ x # new # post)"
    using n x by (auto simp: lseg_append h'_def)
  have same: "handles h' pre = handles (hp s) pre" "handles h' post = handles (hp s) post"
    using x by (auto intro!: handles_cong simp: h'_def)
  have hh: "handles h' (pre @ x # new # post) = ins_handle hs"
    using x n(1) by (simp add: ih same) (simp add: h'_def)
  have "of_inv s' (pre @ x # new # post)"
    using ch hh sorted_ins_handle [OF so] room set_ins_handle [of hs] ins_handle_pos [OF so _ pos]
      pos d new(1) nm
    unfolding of_inv_def sp s'_def hs_def by auto
  moreover have "handle_at h' new = new_handle hs"
    and "\<forall>b \<in> set as. handle_at h' b = handle_at (hp s) b"
    using x n(1) new(1) by (auto simp: h'_def nh)
  ultimately show ?thesis
    using run hh unfolding sp by (intro exI [of _ s'] exI [of _ "pre @ x # new # post"])
      (auto simp: s'_def)
qed

section \<open>Removal by handle\<close>

lemma remove_walk_eqs [simp]:
  "remove_walk handle p None s = Some s"
  "hp s c = Some n \<Longrightarrow> fHandle n \<noteq> handle \<Longrightarrow>
     remove_walk handle p (Some c) s = remove_walk handle c (nxt n) s"
  "hp s c = Some n \<Longrightarrow> fHandle n = handle \<Longrightarrow> hp s p = Some m \<Longrightarrow>
     remove_walk handle p (Some c) s
       = Some (s\<lparr>hp := (hp s)(p \<mapsto> m\<lparr>nxt := nxt n\<rparr>, c := None),
                 lst := (lst s)\<lparr>num := num (lst s) - 1\<rparr>\<rparr>)"
  by (subst remove_walk.simps, simp)+

text \<open>The heap after the node \<open>c\<close> behind \<open>p\<close> has been unlinked and freed.\<close>

definition unlinked :: "addr \<Rightarrow> addr \<Rightarrow> oflist \<Rightarrow> oflist" where
  "unlinked p c s = s\<lparr>hp := (hp s)(p \<mapsto> (the (hp s p))\<lparr>nxt := nxt (the (hp s c))\<rparr>, c := None),
     lst := (lst s)\<lparr>num := num (lst s) - 1\<rparr>\<rparr>"

lemma remove_walk_chain:
  assumes "hp s p = Some m" and "chain (hp s) q as"
  shows "remove_walk handle p q s =
    (case dropWhile (\<lambda>a. handle_at (hp s) a \<noteq> handle) as of
       [] \<Rightarrow> Some s
     | c # post \<Rightarrow> Some (unlinked
         (last (p # takeWhile (\<lambda>a. handle_at (hp s) a \<noteq> handle) as)) c s))"
  using assms
proof (induction as arbitrary: p m q)
  case (Cons a as)
  then obtain n where n: "q = Some a" "hp s a = Some n" "chain (hp s) (nxt n) as" by auto
  show ?case
  proof (cases "fHandle n = handle")
    case True
    then show ?thesis using n Cons.prems by (simp add: unlinked_def)
  next
    case False
    then show ?thesis
      using n Cons.IH [OF n(2,3)]
      by (cases "dropWhile (\<lambda>a. handle_at (hp s) a \<noteq> handle) as")
        (simp_all del: dropWhile_eq_Nil_conv)
  qed
qed simp

lemma unlinked_chain:
  assumes c: "chain (hp s) q (pre @ p # c # post)" and d: "distinct (pre @ p # c # post)"
  shows "chain (hp (unlinked p c s)) q (pre @ p # post)"
    and "\<forall>a \<in> set (pre @ p # post). handle_at (hp (unlinked p c s)) a = handle_at (hp s) a"
    and "hp (unlinked p c s) c = None"
  using assms by (auto simp: lseg_append unlinked_def)

lemma handles_inj:
  assumes "of_inv s as"
  shows "inj_on (handle_at (hp s)) (set as)"
proof -
  have "distinct (handles (hp s) as)"
    using assms by (simp add: of_inv_def strict_sorted_iff)
  then show ?thesis
    by (simp add: handles_def distinct_map)
qed

lemma sorted_handles_delete:
  "sorted_wrt (<) (handles h (pre @ c # post)) \<Longrightarrow> sorted_wrt (<) (handles h (pre @ post))"
  by (auto simp: sorted_wrt_append)

lemma split_at_handle:
  assumes "of_inv s as" and "c \<in> set as"
  obtains pre post where "as = pre @ c # post"
    and "takeWhile (\<lambda>a. handle_at (hp s) a \<noteq> handle_at (hp s) c) as = pre"
    and "dropWhile (\<lambda>a. handle_at (hp s) a \<noteq> handle_at (hp s) c) as = c # post"
proof -
  obtain pre post where sp: "as = pre @ c # post" "c \<notin> set pre"
    using assms(2) by (meson split_list_first)
  have "handle_at (hp s) a \<noteq> handle_at (hp s) c" if "a \<in> set pre" for a
    using inj_onD [OF handles_inj [OF assms(1)], of a c] that sp by auto
  then show ?thesis using sp that by (simp add: takeWhile_append dropWhile_append)
qed

lemma remove_openflist_absent:
  assumes "of_inv s as" and "\<forall>a \<in> set as. handle_at (hp s) a \<noteq> handle"
  shows "remove_openflist handle s = Some s"
proof (cases as)
  case Nil
  then show ?thesis using assms by (auto simp: of_inv_def remove_openflist_def)
next
  case (Cons a r)
  then obtain n where n: "node (lst s) = Some a" "hp s a = Some n" "chain (hp s) (nxt n) r"
    using assms(1) by (auto simp: of_inv_def)
  have dw: "dropWhile (\<lambda>a. handle_at (hp s) a \<noteq> handle) r = []"
    using assms(2) Cons by simp
  have "remove_walk handle a (nxt n) s = Some s"
    using remove_walk_chain [OF n(2,3), of handle] by (simp only: dw list.case)
  then show ?thesis
    using n assms(2) Cons by (simp add: remove_openflist_def)
qed

lemma remove_openflist_present:
  assumes inv: "of_inv s as" and c: "c \<in> set as"
  shows "\<exists>s'. remove_openflist (handle_at (hp s) c) s = Some s' \<and> of_inv s' (removeAll c as)
    \<and> hp s' c = None \<and> (\<forall>a \<in> set as - {c}. handle_at (hp s') a = handle_at (hp s) a)"
proof -
  obtain pre post where sp: "as = pre @ c # post"
    and tw: "takeWhile (\<lambda>a. handle_at (hp s) a \<noteq> handle_at (hp s) c) as = pre"
    and dw: "dropWhile (\<lambda>a. handle_at (hp s) a \<noteq> handle_at (hp s) c) as = c # post"
    using split_at_handle [OF inv c] .
  have ch: "chain (hp s) (node (lst s)) as" and d: "distinct as"
    and so: "sorted_wrt (<) (handles (hp s) as)"
    and pos: "\<forall>x \<in> set (handles (hp s) as). 1 \<le> x" and nm: "num (lst s) = of_nat (length as)"
    using inv by (auto simp: of_inv_def)
  have ra: "removeAll c as = pre @ post" using d unfolding sp by simp
  have so': "sorted_wrt (<) (handles (hp s) (pre @ post))"
    using so unfolding sp by (rule sorted_handles_delete)
  define s' where "s' = (case pre of
      [] \<Rightarrow> s\<lparr>hp := (hp s)(c := None),
               lst := (lst s)\<lparr>node := nxt (the (hp s c)), num := num (lst s) - 1\<rparr>\<rparr>
    | _ \<Rightarrow> unlinked (last pre) c s)"
  have all: "remove_openflist (handle_at (hp s) c) s = Some s'
      \<and> chain (hp s') (node (lst s')) (pre @ post)
      \<and> (\<forall>a \<in> set (pre @ post). handle_at (hp s') a = handle_at (hp s) a) \<and> hp s' c = None"
  proof (cases pre)
    case Nil
    then show ?thesis
      using ch d unfolding sp s'_def by (auto simp: remove_openflist_def)
  next
    case (Cons a r)
    obtain p q where pq: "pre = q @ [p]" using Cons by (metis rev_exhaust list.discI)
    obtain n where n: "node (lst s) = Some a" "hp s a = Some n" "chain (hp s) (nxt n) (r @ c # post)"
      using ch unfolding sp Cons by auto
    have ne: "fHandle n \<noteq> handle_at (hp s) c"
      using tw n(2) unfolding sp Cons by (auto split: if_splits)
    have "takeWhile (\<lambda>a. handle_at (hp s) a \<noteq> handle_at (hp s) c) (r @ c # post) = r"
      and "dropWhile (\<lambda>a. handle_at (hp s) a \<noteq> handle_at (hp s) c) (r @ c # post) = c # post"
      using tw dw n(2) ne unfolding sp Cons by simp_all
    then have "remove_openflist (handle_at (hp s) c) s = Some (unlinked (last pre) c s)"
      using remove_walk_chain [OF n(2,3), of "handle_at (hp s) c"] n ne Cons
      by (simp add: remove_openflist_def)
    moreover have "last pre = p" using pq by simp
    moreover have "s' = unlinked (last pre) c s" unfolding s'_def by (simp add: Cons)
    moreover have "chain (hp s) (node (lst s)) (q @ p # c # post)" "distinct (q @ p # c # post)"
      using ch d unfolding sp pq by simp_all
    note unlinked_chain [OF this]
    moreover have "node (lst (unlinked p c s)) = node (lst s)"
      by (simp add: unlinked_def)
    ultimately show ?thesis unfolding pq by simp
  qed
  have hh: "handles (hp s') (pre @ post) = handles (hp s) (pre @ post)"
    using all by (intro handles_cong) blast
  have "num (lst s') = of_nat (length (pre @ post))"
    using nm unfolding sp s'_def by (auto simp: unlinked_def split: list.split)
  then have "of_inv s' (pre @ post)"
    using all so' pos d hh unfolding of_inv_def sp by (auto simp del: handles_simps(3))
  then show ?thesis
    using all ra d unfolding sp by auto
qed

end
