(* ===== verification/OpenFilesClose.thy ===== *)
theory OpenFilesClose
  imports OpenFiles
begin

text \<open>
  Closing open files by name (\<open>close_openflist_byFname\<close> of
  \<^verbatim>\<open>libfs/src/cm_file_util.c\<close>): what the loop does to the heap, when the list stays sound and
  when it keeps a pointer to a freed node.
\<close>

section \<open>One step of the loop\<close>

definition name_at :: "heap \<Rightarrow> addr \<Rightarrow> string" where
  "name_at h a = (case h a of None \<Rightarrow> [] | Some n \<Rightarrow> fname n)"

definition fp_at :: "heap \<Rightarrow> addr \<Rightarrow> nat" where
  "fp_at h a = (case h a of None \<Rightarrow> 0 | Some n \<Rightarrow> fp n)"

lemma name_at_Some [simp]: "h a = Some n \<Longrightarrow> name_at h a = fname n"
  by (simp add: name_at_def)

lemma fp_at_Some [simp]: "h a = Some n \<Longrightarrow> fp_at h a = fp n"
  by (simp add: fp_at_def)

lemma close_walk_eqs [simp]:
  "close_walk nm None s = Some s"
  "hp s a = Some n \<Longrightarrow> fname n \<noteq> nm \<Longrightarrow> close_walk nm (Some a) s = close_walk nm (nxt n) s"
  by (subst close_walk.simps, simp)+

text \<open>One match: the stream is closed, the node freed, and the head moved on if it was the match.\<close>

definition closed_one :: "addr \<Rightarrow> oflist \<Rightarrow> oflist" where
  "closed_one a s = s\<lparr>closed := closed s @ [fp_at (hp s) a], hp := (hp s)(a := None),
     lst := (lst s)\<lparr>node := (if Some a = node (lst s) then nxt (the (hp s a)) else node (lst s)),
                    num := num (lst s) - 1\<rparr>\<rparr>"

lemma close_walk_match:
  "hp s a = Some n \<Longrightarrow> fname n = nm \<Longrightarrow>
     close_walk nm (Some a) s = close_walk nm (nxt n) (closed_one a s)"
  by (subst close_walk.simps) (simp add: closed_one_def)

lemma closed_one_hp [simp]: "hp (closed_one a s) = (hp s)(a := None)"
  by (simp add: closed_one_def)

lemma closed_one_simps [simp]:
  "closed (closed_one a s) = closed s @ [fp_at (hp s) a]"
  "num (lst (closed_one a s)) = num (lst s) - 1"
  "node (lst s) = Some a \<Longrightarrow> node (lst (closed_one a s)) = nxt (the (hp s a))"
  "node (lst s) \<noteq> Some a \<Longrightarrow> node (lst (closed_one a s)) = node (lst s)"
  by (simp_all add: closed_one_def)

lemma name_at_other [simp]: "x \<noteq> a \<Longrightarrow> name_at (h(a := v)) x = name_at h x"
  by (simp add: name_at_def)

lemma fp_at_other [simp]: "x \<noteq> a \<Longrightarrow> fp_at (h(a := v)) x = fp_at h x"
  by (simp add: fp_at_def)

text \<open>The nodes a call closes.\<close>

definition matches :: "string \<Rightarrow> heap \<Rightarrow> addr list \<Rightarrow> addr list" where
  "matches nm h as = filter (\<lambda>a. name_at h a = nm) as"

lemma matches_simps [simp]:
  "matches nm h [] = []"
  "matches nm h (a # as) = (if name_at h a = nm then a # matches nm h as else matches nm h as)"
  "matches nm h (as @ bs) = matches nm h as @ matches nm h bs"
  "set (matches nm h as) = {a \<in> set as. name_at h a = nm}"
  by (auto simp: matches_def)

lemma matches_other [simp]:
  "a \<notin> set as \<Longrightarrow> matches nm (h(a := v)) as = matches nm h as"
  by (induction as) auto

lemma map_fp_at_other [simp]:
  "a \<notin> set as \<Longrightarrow> map (fp_at (h(a := v))) (matches nm h as) = map (fp_at h) (matches nm h as)"
  by (induction as) auto

section \<open>The whole loop\<close>

text \<open>It frees exactly the nodes with the name, leaves every other node as it is, closes the
  streams of the freed nodes in list order and lowers the counter by their number.\<close>

lemma close_walk_chain:
  assumes "chain (hp s) p as" and "distinct as"
  shows "\<exists>s'. close_walk nm p s = Some s'
    \<and> hp s' = (\<lambda>x. if x \<in> set (matches nm (hp s) as) then None else hp s x)
    \<and> closed s' = closed s @ map (fp_at (hp s)) (matches nm (hp s) as)
    \<and> num (lst s') = num (lst s) - of_nat (length (matches nm (hp s) as))"
  using assms
proof (induction as arbitrary: p s)
  case (Cons a as)
  then obtain n where n: "p = Some a" "hp s a = Some n" "chain (hp s) (nxt n) as"
    and d: "a \<notin> set as" "distinct as"
    by auto
  show ?case
  proof (cases "fname n = nm")
    case False
    have "close_walk nm p s = close_walk nm (nxt n) s" and "matches nm (hp s) (a # as) = matches nm (hp s) as"
      using n False by simp_all
    then show ?thesis
      using Cons.IH [OF n(3) d(2)] by (simp only:)
  next
    case True
    have c: "chain (hp (closed_one a s)) (nxt n) as" using n d by simp
    have e: "close_walk nm p s = close_walk nm (nxt n) (closed_one a s)"
      using n True by (simp add: close_walk_match)
    have m: "matches nm (hp s) (a # as) = a # matches nm (hp s) as"
      using n True by simp
    have h: "(\<lambda>x. if x \<in> set (matches nm (hp s) as) then None else ((hp s)(a := None)) x)
       = (\<lambda>x. if x \<in> set (a # matches nm (hp s) as) then None else hp s x)"
      by (rule ext) simp
    from Cons.IH [OF c d(2)] obtain s' where s': "close_walk nm (nxt n) (closed_one a s) = Some s'"
      "hp s' = (\<lambda>x. if x \<in> set (matches nm (hp s) as) then None else ((hp s)(a := None)) x)"
      "closed s' = (closed s @ [fp_at (hp s) a]) @ map (fp_at (hp s)) (matches nm (hp s) as)"
      "num (lst s') = num (lst s) - 1 - of_nat (length (matches nm (hp s) as))"
      unfolding closed_one_hp closed_one_simps matches_other [OF d(1)] map_fp_at_other [OF d(1)]
      by blast
    show ?thesis
      unfolding e m
    proof (intro exI [of _ s'] conjI)
      show "num (lst s') = num (lst s) - of_nat (length (a # matches nm (hp s) as))"
        using s'(4) by (simp add: diff_diff_eq)
      show "hp s' = (\<lambda>x. if x \<in> set (a # matches nm (hp s) as) then None else hp s x)"
        using s'(2) h by (simp only:)
      show "closed s' = closed s @ map (fp_at (hp s)) (a # matches nm (hp s) as)"
        using s'(3) by simp
    qed (rule s'(1))
  qed
qed simp

text \<open>The head pointer moves past the matches at the front and stays on the first node that does
  not match.\<close>

lemma close_walk_keeps_head:
  assumes "chain (hp s) p as" and "distinct as" and "node (lst s) \<notin> Some ` set as"
    and "close_walk nm p s = Some s'"
  shows "node (lst s') = node (lst s)"
  using assms
proof (induction as arbitrary: p s)
  case (Cons a as)
  then obtain n where n: "p = Some a" "hp s a = Some n" "chain (hp s) (nxt n) as"
    and d: "a \<notin> set as" "distinct as" "node (lst s) \<noteq> Some a" "node (lst s) \<notin> Some ` set as"
    by auto
  show ?case
  proof (cases "fname n = nm")
    case False
    then have "close_walk nm (nxt n) s = Some s'" using Cons.prems(4) n by simp
    then show ?thesis using Cons.IH [OF n(3) d(2,4)] by simp
  next
    case True
    have c: "chain (hp (closed_one a s)) (nxt n) as" using n d by simp
    have r: "close_walk nm (nxt n) (closed_one a s) = Some s'"
      using Cons.prems(4) n True by (simp add: close_walk_match)
    have "node (lst (closed_one a s)) \<notin> Some ` set as" using d by simp
    from Cons.IH [OF c d(2) this r] show ?thesis using d(3) by simp
  qed
qed simp

lemma close_walk_head:
  assumes "chain (hp s) (node (lst s)) as" and "distinct as"
    and "close_walk nm (node (lst s)) s = Some s'"
  shows "node (lst s') = (case dropWhile (\<lambda>a. name_at (hp s) a = nm) as of [] \<Rightarrow> None | a # _ \<Rightarrow> Some a)"
  using assms
proof (induction as arbitrary: s)
  case (Cons a as)
  then obtain n where n: "node (lst s) = Some a" "hp s a = Some n" "chain (hp s) (nxt n) as"
    and d: "a \<notin> set as" "distinct as"
    by auto
  show ?case
  proof (cases "fname n = nm")
    case False
    have "close_walk nm (nxt n) s = Some s'" using Cons.prems(3) n False by simp
    then have "node (lst s') = node (lst s)"
      using close_walk_keeps_head [OF n(3) d(2)] d n by auto
    then show ?thesis using n False by simp
  next
    case True
    have nd: "node (lst (closed_one a s)) = nxt n" using n by simp
    have c: "chain (hp (closed_one a s)) (node (lst (closed_one a s))) as" using n d nd by simp
    have r: "close_walk nm (node (lst (closed_one a s))) (closed_one a s) = Some s'"
      using Cons.prems(3) n True nd by (simp add: close_walk_match)
    have w: "dropWhile (\<lambda>b. name_at (hp (closed_one a s)) b = nm) as
      = dropWhile (\<lambda>b. name_at (hp s) b = nm) as"
      using d(1) by (intro dropWhile_cong refl) (metis closed_one_hp name_at_other)
    show ?thesis using Cons.IH [OF c d(2) r, unfolded w] n True by simp
  qed
qed simp

section \<open>When the list stays sound\<close>

text \<open>With all matches in front, the call leaves the well-formed list of the other nodes.\<close>

lemma close_openflist_front:
  assumes inv: "of_inv s (pre @ post)" and pre: "\<forall>a \<in> set pre. name_at (hp s) a = nm"
    and post: "\<forall>a \<in> set post. name_at (hp s) a \<noteq> nm"
  shows "\<exists>s'. close_openflist_byFname (Some nm) s = Some (None, s') \<and> of_inv s' post
    \<and> closed s' = closed s @ map (fp_at (hp s)) pre
    \<and> (\<forall>a \<in> set post. hp s' a = hp s a) \<and> (\<forall>a \<in> set pre. hp s' a = None)"
proof -
  have ch: "chain (hp s) (node (lst s)) (pre @ post)" and d: "distinct (pre @ post)"
    using inv by (auto simp: of_inv_def)
  have "matches nm (hp s) pre = pre" and "matches nm (hp s) post = []"
    using pre post by (auto simp: matches_def filter_empty_conv)
  then have m: "matches nm (hp s) (pre @ post) = pre" by simp
  obtain s' where run: "close_walk nm (node (lst s)) s = Some s'"
    and h: "hp s' = (\<lambda>x. if x \<in> set pre then None else hp s x)"
    and cl: "closed s' = closed s @ map (fp_at (hp s)) pre"
    and nu: "num (lst s') = num (lst s) - of_nat (length pre)"
    using close_walk_chain [OF ch d, of nm] unfolding m by blast
  have dw: "dropWhile (\<lambda>a. name_at (hp s) a = nm) (pre @ post) = post"
    using pre post by (cases post) (simp_all add: dropWhile_append)
  have nd: "node (lst s') = (case post of [] \<Rightarrow> None | a # _ \<Rightarrow> Some a)"
    using close_walk_head [OF ch d run] unfolding dw .
  obtain r where r: "lseg (hp s) r post None"
    using ch by (auto simp: lseg_append)
  have r': "r = Some (hd post)" if "post \<noteq> []"
    using r that by (cases post) auto
  have same: "\<forall>a \<in> set post. hp s' a = hp s a" using d h by auto
  have "chain (hp s') (node (lst s')) post"
  proof (cases post)
    case Nil
    then show ?thesis using nd by simp
  next
    case (Cons b bs)
    then have "r = node (lst s')" using nd r' by simp
    then show ?thesis using r lseg_cong [of post "hp s'" "hp s" r None] same by metis
  qed
  moreover have "handles (hp s') post = handles (hp s) post"
    using same by (intro handles_cong) (simp add: handle_at_def)
  ultimately have "of_inv s' post"
    using inv d nu by (auto simp: of_inv_def sorted_wrt_append)
  moreover have "close_openflist_byFname (Some nm) s = Some (None, s')"
  proof (cases "pre @ post")
    case Nil
    then have "node (lst s) = None" using ch by simp
    then show ?thesis using run by (simp add: close_openflist_byFname_def)
  next
    case (Cons a as)
    then have "node (lst s) = Some a" using ch by simp
    then show ?thesis using run by (simp add: close_openflist_byFname_def)
  qed
  ultimately show ?thesis using cl same h by auto
qed

text \<open>A match behind a node that stays is freed and still pointed to: looking up a handle that no
  node before it has follows the dangling pointer.\<close>

lemma close_openflist_dangling:
  assumes inv: "of_inv s (a # as @ b # post)" and a: "name_at (hp s) a \<noteq> nm"
    and as: "\<forall>x \<in> set as. name_at (hp s) x \<noteq> nm" and b: "name_at (hp s) b = nm"
    and none: "\<forall>x \<in> set (a # as @ b # post). handle_at (hp s) x \<noteq> handle"
  shows "\<exists>s'. close_openflist_byFname (Some nm) s = Some (None, s')
    \<and> find_openflist_byHandle handle s' = None"
proof -
  let ?l = "a # as @ b # post"
  have ch: "chain (hp s) (node (lst s)) ?l" and d: "distinct ?l"
    using inv by (auto simp: of_inv_def)
  obtain s' where run: "close_walk nm (node (lst s)) s = Some s'"
    and h: "hp s' = (\<lambda>x. if x \<in> set (matches nm (hp s) ?l) then None else hp s x)"
    using close_walk_chain [OF ch d, of nm] by blast
  have nd: "node (lst s') = Some a"
    using close_walk_head [OF ch d run] a by simp
  have s0: "lseg (hp s) (Some a) (a # as) (Some b)"
    using ch by (auto simp: lseg_append)
  have "\<forall>x \<in> set (a # as). x \<notin> set (matches nm (hp s) ?l)"
    using a as unfolding matches_simps(4) by simp
  then have keep: "\<forall>x \<in> set (a # as). hp s' x = hp s x" unfolding h by simp
  have "b \<in> set (matches nm (hp s) ?l)"
    using b unfolding matches_simps(4) by simp
  then have gone: "hp s' b = None" unfolding h by simp
  have "lseg (hp s') (Some a) (a # as) (Some b) = lseg (hp s) (Some a) (a # as) (Some b)"
    using keep by (intro lseg_cong) blast
  then have seg: "lseg (hp s') (Some a) (a # as) (Some b)"
    using s0 by (simp only:)
  have walk: "find_walk (hp s') handle p = None"
    if "lseg (hp s') p xs (Some b)" and "\<forall>x \<in> set xs. handle_at (hp s') x \<noteq> handle" for p xs
    using that gone by (induction xs arbitrary: p) auto
  have "\<forall>x \<in> set (a # as). handle_at (hp s') x \<noteq> handle"
    using none keep unfolding handle_at_def by simp
  then have "find_walk (hp s') handle (Some a) = None"
    using walk [OF seg] by blast
  moreover have "node (lst s) = Some a" using ch by simp
  ultimately show ?thesis
    using run nd by (simp add: close_openflist_byFname_def find_openflist_byHandle_def)
qed

end
