(* ===== verification/HandleTable.thy ===== *)
theory HandleTable
  imports OpenFilesClose
begin

text \<open>
  The contract the users of the open-file list rely on: a partial map from handles to open files,
  where inserting chooses the handle. The locale states it for any table; the list in the heap of
  \<^verbatim>\<open>libfs/src/cm_file_util.c\<close> is the instance.
\<close>

locale handle_table =
  fixes ins :: "'a \<Rightarrow> 't \<Rightarrow> ('h \<times> 't) option"
    and look :: "'h \<Rightarrow> 't \<Rightarrow> 'a option option"
    and rem :: "'h \<Rightarrow> 't \<Rightarrow> 't option"
    and rep :: "'t \<Rightarrow> ('h \<rightharpoonup> 'a) \<Rightarrow> bool"
    and fresh :: "'t \<Rightarrow> 'a \<Rightarrow> bool"
  assumes ins_law: "rep t m \<Longrightarrow> fresh t a \<Longrightarrow>
      \<exists>h t'. ins a t = Some (h, t') \<and> m h = None \<and> rep t' (m(h \<mapsto> a))"
    and look_law: "rep t m \<Longrightarrow> look h t = Some (m h)"
    and rem_law: "rep t m \<Longrightarrow> \<exists>t'. rem h t = Some t' \<and> rep t' (m(h := None))"
begin

lemma look_inserted:
  assumes "rep t m" and "fresh t a"
  obtains h t' where "ins a t = Some (h, t')" and "look h t = Some None" and "look h t' = Some (Some a)"
    and "\<forall>k. k \<noteq> h \<longrightarrow> look k t' = look k t"
  using ins_law [OF assms] look_law assms(1) by (metis fun_upd_apply)

lemma look_removed:
  assumes "rep t m"
  obtains t' where "rem h t = Some t'" and "look h t' = Some None"
    and "\<forall>k. k \<noteq> h \<longrightarrow> look k t' = look k t"
  using rem_law [OF assms] look_law assms by (metis fun_upd_apply)

lemma rep_functional: "rep t m \<Longrightarrow> rep t m' \<Longrightarrow> m = m'"
  by (rule ext) (metis look_law option.inject)

text \<open>Opening a file and closing it again leaves every lookup as it was.\<close>

lemma ins_rem:
  assumes "rep t m" and "fresh t a"
  obtains h t1 t2 where "ins a t = Some (h, t1)" and "rem h t1 = Some t2"
    and "\<forall>k. look k t2 = look k t"
proof -
  obtain h t1 where 1: "ins a t = Some (h, t1)" "m h = None" "rep t1 (m(h \<mapsto> a))"
    using ins_law [OF assms] by blast
  obtain t2 where 2: "rem h t1 = Some t2" "rep t2 (m(h \<mapsto> a, h := None))"
    using rem_law [OF 1(3)] by blast
  have "m(h \<mapsto> a, h := None) = m" using 1(2) by auto
  then show ?thesis using that 1(1) 2 look_law assms(1) by metis
qed

end

section \<open>The list in the heap as a table\<close>

text \<open>The map a well-formed list stands for: its handles, to the addresses of their nodes.\<close>

definition of_map :: "oflist \<Rightarrow> addr list \<Rightarrow> u32 \<rightharpoonup> addr" where
  "of_map s as = map_of (map (\<lambda>a. (handle_at (hp s) a, a)) as)"

definition of_rep :: "oflist \<Rightarrow> (u32 \<rightharpoonup> addr) \<Rightarrow> bool" where
  "of_rep s m \<longleftrightarrow> (\<exists>as. of_inv s as \<and> m = of_map s as)"

text \<open>A node that may be inserted: allocated, unlinked, and the largest handle is not in use.\<close>

definition of_fresh :: "oflist \<Rightarrow> addr \<Rightarrow> bool" where
  "of_fresh s a \<longleftrightarrow> (\<exists>nw. hp s a = Some nw \<and> nxt nw = None)
     \<and> (\<forall>as. of_inv s as \<longrightarrow> a \<notin> set as \<and> (\<forall>x \<in> set (handles (hp s) as). x < -1))"

lemma of_map_eq_Some:
  assumes "of_inv s as"
  shows "of_map s as h = Some a \<longleftrightarrow> a \<in> set as \<and> handle_at (hp s) a = h"
proof -
  have "distinct (map fst (map (\<lambda>a. (handle_at (hp s) a, a)) as))"
    using handles_inj [OF assms] assms by (simp add: distinct_map of_inv_def comp_def)
  then show ?thesis unfolding of_map_def by (auto simp: map_of_eq_Some_iff)
qed

lemma of_map_find: "of_map s as h = find (\<lambda>a. handle_at (hp s) a = h) as"
  by (induction as) (auto simp: of_map_def)

lemma of_map_eqI:
  assumes "of_inv s as" and "\<And>h a. m h = Some a \<longleftrightarrow> a \<in> set as \<and> handle_at (hp s) a = h"
  shows "m = of_map s as"
proof
  show "m h = of_map s as h" for h
    using assms(2) of_map_eq_Some [OF assms(1)] by (metis option.exhaust)
qed

lemma of_ins_law:
  assumes "of_rep s m" and "of_fresh s a"
  shows "\<exists>h s'. insert_openflist a s = Some (h, s') \<and> m h = None \<and> of_rep s' (m(h \<mapsto> a))"
proof -
  obtain as where inv: "of_inv s as" and m: "m = of_map s as"
    using assms(1) unfolding of_rep_def by blast
  define h where "h = new_handle (handles (hp s) as)"
  obtain nw where nw: "hp s a = Some nw" "nxt nw = None" and a: "a \<notin> set as"
    and room: "\<forall>x \<in> set (handles (hp s) as). x < -1"
    using assms(2) inv unfolding of_fresh_def by blast
  obtain s' as' where ins: "insert_openflist a s = Some (h, s')" "of_inv s' as'"
    and set: "set as' = insert a (set as)" and new: "handle_at (hp s') a = h"
    and old: "\<forall>b \<in> set as. handle_at (hp s') b = handle_at (hp s) b"
    using insert_openflist_correct [OF inv a nw room] unfolding h_def by blast
  have "h \<notin> set (handles (hp s) as)"
    using new_handle_fresh [of "handles (hp s) as"] inv room unfolding h_def of_inv_def by blast
  then have none: "m h = None"
    unfolding m using of_map_eq_Some [OF inv] by (auto simp del: handles_simps(3))
      (metis handles_simps(5) image_eqI option.exhaust)
  have "m(h \<mapsto> a) = of_map s' as'"
  proof (rule of_map_eqI [OF ins(2)])
    fix k b
    have mk: "m k = Some b \<longleftrightarrow> b \<in> set as \<and> handle_at (hp s) b = k"
      unfolding m by (rule of_map_eq_Some [OF inv])
    show "(m(h \<mapsto> a)) k = Some b \<longleftrightarrow> b \<in> set as' \<and> handle_at (hp s') b = k"
    proof (cases "b = a")
      case True
      then show ?thesis using mk a new set by auto
    next
      case False
      then have "b \<in> set as' \<and> handle_at (hp s') b = k \<longleftrightarrow> m k = Some b"
        using mk old unfolding set by auto
      then show ?thesis using False none by auto
    qed
  qed
  then show ?thesis using ins none unfolding of_rep_def by blast
qed

lemma of_rem_law:
  assumes "of_rep s m"
  shows "\<exists>s'. remove_openflist h s = Some s' \<and> of_rep s' (m(h := None))"
proof -
  obtain as where inv: "of_inv s as" and m: "m = of_map s as"
    using assms(1) unfolding of_rep_def by blast
  show ?thesis
  proof (cases "\<exists>c \<in> set as. handle_at (hp s) c = h")
    case False
    then have "m h = None" unfolding m using of_map_eq_Some [OF inv] by (metis option.exhaust)
    then have "m(h := None) = m" by auto
    then show ?thesis using remove_openflist_absent [OF inv] False assms by auto
  next
    case True
    then obtain c where c: "c \<in> set as" "handle_at (hp s) c = h" by blast
    obtain s' where s': "remove_openflist h s = Some s'" "of_inv s' (removeAll c as)"
      and old: "\<forall>a \<in> set as - {c}. handle_at (hp s') a = handle_at (hp s) a"
      using remove_openflist_present [OF inv c(1)] c(2) by blast
    have inj: "b = c" if "b \<in> set as" "handle_at (hp s) b = h" for b
      using inj_onD [OF handles_inj [OF inv]] that c by metis
    have "m(h := None) = of_map s' (removeAll c as)"
    proof (rule of_map_eqI [OF s'(2)])
      fix k b
      have mk: "m k = Some b \<longleftrightarrow> b \<in> set as \<and> handle_at (hp s) b = k"
        unfolding m by (rule of_map_eq_Some [OF inv])
      have r: "b \<in> set (removeAll c as) \<longleftrightarrow> b \<in> set as - {c}" by simp
      show "(m(h := None)) k = Some b
          \<longleftrightarrow> b \<in> set (removeAll c as) \<and> handle_at (hp s') b = k"
      proof (cases "k = h")
        case True
        then show ?thesis using old inj unfolding r by auto
      next
        case False
        then have "b \<noteq> c" if "m k = Some b" using that mk c by auto
        then show ?thesis using False mk old unfolding r by auto
      qed
    qed
    then show ?thesis using s' unfolding of_rep_def by blast
  qed
qed

interpretation ofl: handle_table insert_openflist find_openflist_byHandle remove_openflist of_rep of_fresh
proof unfold_locales
  show "find_openflist_byHandle h s = Some (m h)" if "of_rep s m" for s m h
    using that find_openflist_correct unfolding of_rep_def by (auto simp: of_map_find)
qed (blast intro: of_ins_law of_rem_law)+

end
