(* ===== verification/MainProg.thy ===== *)
theory MainProg
  imports FileUtil
begin

text \<open>
  The program of \<^verbatim>\<open>src/main.c\<close>: the buffer that collects a response body, the test files, and the
  self-test of the configuration store that \<open>main\<close> runs. What it prints is a list of labels and
  values.
\<close>

section \<open>The response buffer\<close>

text \<open>\<open>memory\<close> is the allocated block, \<open>msize\<close> the bytes of it that are response data.\<close>

record MemoryStruct =
  memory :: bytes
  msize :: "64 word"

text \<open>\<open>WriteMemoryCallback\<close>; \<open>realloc_ok\<close> says whether \<open>realloc\<close> finds the memory. A block size that
  wraps around is too small for the copy, which is a fault, as is reading past \<open>contents\<close>.\<close>

definition WriteMemoryCallback :: "bool \<Rightarrow> bytes \<Rightarrow> 64 word \<Rightarrow> 64 word \<Rightarrow> MemoryStruct
    \<Rightarrow> (64 word \<times> MemoryStruct) option" where
  "WriteMemoryCallback realloc_ok contents sz nmemb mem =
     (let realsize = sz * nmemb;
          need = msize mem + realsize + 1
      in if \<not> realloc_ok then Some (0, mem)
         else if unat need \<noteq> unat (msize mem) + unat realsize + 1
              \<or> length contents < unat realsize \<or> length (memory mem) < unat (msize mem)
         then None
         else Some (realsize,
           \<lparr>memory = take (unat (msize mem)) (memory mem) @ take (unat realsize) contents @ [NUL],
            msize = msize mem + realsize\<rparr>))"

text \<open>What libcurl does with the callback: hand over the chunks of the body in turn.\<close>

fun receive :: "bytes list \<Rightarrow> MemoryStruct \<Rightarrow> MemoryStruct option" where
  "receive [] mem = Some mem"
| "receive (c # cs) mem = do {
     (r, mem') \<leftarrow> WriteMemoryCallback True c 1 (of_nat (length c)) mem;
     receive cs mem' }"

definition holds_body :: "MemoryStruct \<Rightarrow> bytes \<Rightarrow> bool" where
  "holds_body mem b \<longleftrightarrow> length b < 2 ^ 64 \<and> msize mem = of_nat (length b)
     \<and> take (length b) (memory mem) = b \<and> length b < length (memory mem)"

lemma unat_of_nat64: "n < 2 ^ 64 \<Longrightarrow> unat (of_nat n :: 64 word) = n"
  by (simp add: unsigned_of_nat take_bit_nat_eq_self)

lemma WriteMemoryCallback_appends:
  assumes "holds_body mem b" and "length b + length c + 1 < 2 ^ 64"
  shows "\<exists>mem'. WriteMemoryCallback True c 1 (of_nat (length c)) mem = Some (of_nat (length c), mem')
    \<and> holds_body mem' (b @ c) \<and> memory mem' = b @ c @ [NUL]"
proof -
  have s: "unat (msize mem) = length b" and c: "unat (of_nat (length c) :: 64 word) = length c"
    using assms by (simp_all add: holds_body_def unat_of_nat64)
  have "msize mem + of_nat (length c) + 1 = (of_nat (length b + length c + 1) :: 64 word)"
    using assms by (simp add: holds_body_def)
  then have n: "unat (msize mem + of_nat (length c) + 1) = length b + length c + 1"
    using unat_of_nat64 [OF assms(2)] by (simp only:)
  show ?thesis
    using assms n s c by (simp add: WriteMemoryCallback_def holds_body_def Let_def)
qed

lemma receive_holds:
  assumes "holds_body mem b" and "length b + length (concat cs) + 1 < 2 ^ 64"
  shows "\<exists>mem'. receive cs mem = Some mem' \<and> holds_body mem' (b @ concat cs)
    \<and> (cs \<noteq> [] \<longrightarrow> memory mem' = b @ concat cs @ [NUL])"
  using assms
proof (induction cs arbitrary: mem b)
  case (Cons c cs)
  obtain mem' where m: "WriteMemoryCallback True c 1 (of_nat (length c)) mem = Some (of_nat (length c), mem')"
      "holds_body mem' (b @ c)" "memory mem' = b @ c @ [NUL]"
    using WriteMemoryCallback_appends [OF Cons.prems(1), of c] Cons.prems(2) by auto
  show ?case
    using Cons.IH [OF m(2)] Cons.prems(2) m by (cases cs) auto
qed simp

section \<open>Writing the test files\<close>

text \<open>\<open>write_to_file\<close>: the result of \<open>fputs\<close> is not looked at.\<close>

definition write_to_file :: "string \<Rightarrow> string \<Rightarrow> filesys \<Rightarrow> filesys option" where
  "write_to_file filename data s =
     (case fopen_wb filename s of
        (None, s1) \<Rightarrow> Some s1
      | (Some fd, s1) \<Rightarrow> do {
          (r, s2) \<leftarrow> fwrite1 fd data (length data) s1;
          Some (fclose_fs s2) })"

definition hello_data :: bytes where
  "hello_data = ''Hello world!'' @ replicate 20 NUL"

definition file_write :: "filesys \<Rightarrow> (u32 \<times> filesys) option" where
  "file_write s = do {
     (r, s1) \<leftarrow> cm_nv_write (Some ''file_test.txt'') (Some hello_data) 32 s;
     Some (if r < 0 then -1 else 0, s1) }"

definition file_read :: "filesys \<Rightarrow> (u32 \<times> filesys) option" where
  "file_read s = do {
     (r, buf, s1) \<leftarrow> cm_nv_read (Some ''file_test.txt'') (Some (replicate 32 NUL)) 32 s;
     Some (if r < 0 then -1 else 0, s1) }"

section \<open>The store of the self-test\<close>

text \<open>\<open>__cm_lbs_FileWrite\<close> and \<open>__cm_lbs_FileRead\<close> of \<^verbatim>\<open>main.c\<close>. A failed write leaves the stream
  open, as does a short read; the reader opens the name without the directory in front.\<close>

definition main_FileWrite :: "string option \<Rightarrow> bytes option \<Rightarrow> u32 \<Rightarrow> filesys
    \<Rightarrow> (int \<times> filesys) option" where
  "main_FileWrite file_path file_data sz s =
     (case (file_path, file_data) of
        (Some path, Some d) \<Rightarrow>
          if sz = 0 \<or> length path > 64 then Some (-1, s)
          else do {
            real_path \<leftarrow> sprintf_path 128 ''./'' path;
            (case fopen_wb real_path s of
               (None, s1) \<Rightarrow> Some (-1, s1)
             | (Some fd, s1) \<Rightarrow> do {
                 (res, s2) \<leftarrow> fwrite1 fd d (unat sz) s1;
                 (if res \<noteq> 1 then Some (-1, s2) else Some (sint sz, fclose_fs s2)) }) }
      | _ \<Rightarrow> Some (-1, s))"

definition main_FileRead :: "string option \<Rightarrow> bytes option \<Rightarrow> u32 \<Rightarrow> filesys
    \<Rightarrow> (int \<times> bytes option \<times> filesys) option" where
  "main_FileRead file_path file_rdata sz s =
     (case (file_path, file_rdata) of
        (Some path, Some buf) \<Rightarrow>
          if sz = 0 \<or> length path > 64 then Some (-1, file_rdata, s)
          else do {
            real_path \<leftarrow> sprintf_path 128 ''./'' path;
            (case fopen_rd path s of
               (None, s1) \<Rightarrow> Some (-1, file_rdata, s1)
             | (Some fd, s1) \<Rightarrow> do {
                 (res, buf', fd') \<leftarrow> fread1 fd buf (unat sz) s1;
                 (if res \<noteq> 1 then Some (-1, Some buf', s1)
                  else Some (sint sz, Some buf', fclose_fs s1)) }) }
      | _ \<Rightarrow> Some (-1, file_rdata, s))"

text \<open>Reading the plain name finds what was written under it with \<open>./\<close> in front: both resolve to
  the same file when the name is relative.\<close>

lemma main_file_roundtrip:
  assumes "length path \<le> 64" and "take 1 path \<noteq> ''/''" and "resolve path \<noteq> []" and "can_write (resolve path) s"
    and "sz \<noteq> 0" and "unat sz \<le> length d" and "unat sz \<le> fs_room s" and "length buf = unat sz"
  shows "\<exists>s'. main_FileWrite (Some path) (Some d) sz s = Some (sint sz, s')
    \<and> main_FileRead (Some path) (Some buf) sz s' = Some (sint sz, Some (take (unat sz) d), s')
    \<and> fs_open s' = fs_open s"
  using assms resolve_dot [OF assms(2)]
  by (auto simp: main_FileWrite_def main_FileRead_def sprintf_path_def fopen_wb_def fwrite1_def
      Let_def file_bytes_def fclose_fs_def fopen_rd_def can_read_def can_write_def fread1_def)

section \<open>The self-test\<close>

text \<open>\<open>cfg_t\<close> as it lies in memory on a 64-bit target: four bytes of padding behind \<open>user_id\<close>, and
  \<open>name\<close> is an array of 32 pointers, 256 bytes, used as a string.\<close>

record info_t =
  age :: u32
  height :: u32
  iname :: bytes

record cfg_t =
  user_id :: u32
  pad :: bytes
  info :: info_t

definition sizeof_cfg_t :: u32 where
  "sizeof_cfg_t = 272"

definition cfg_bytes :: "cfg_t \<Rightarrow> bytes" where
  "cfg_bytes c = le32 (user_id c) @ pad c @ le32 (age (info c)) @ le32 (height (info c)) @ iname (info c)"

definition cfg_of_bytes :: "bytes \<Rightarrow> cfg_t" where
  "cfg_of_bytes b = \<lparr>user_id = un32 b, pad = take 4 (drop 4 b),
     info = \<lparr>age = un32 (drop 8 b), height = un32 (drop 12 b), iname = drop 16 b\<rparr>\<rparr>"

definition cfg_wf :: "cfg_t \<Rightarrow> bool" where
  "cfg_wf c \<longleftrightarrow> length (pad c) = 4 \<and> length (iname (info c)) = 256"

lemma cfg_of_bytes_inverse: "cfg_wf c \<Longrightarrow> cfg_of_bytes (cfg_bytes c) = c"
  by (simp add: cfg_wf_def cfg_of_bytes_def cfg_bytes_def)

lemma wf_cfg_of_bytes: "length b = 272 \<Longrightarrow> cfg_wf (cfg_of_bytes b)"
  by (simp add: cfg_wf_def cfg_of_bytes_def)

lemma length_cfg_bytes: "cfg_wf c \<Longrightarrow> length (cfg_bytes c) = 272"
  by (simp add: cfg_wf_def cfg_bytes_def)

interpretation main_cfg: struct_image cfg_bytes cfg_of_bytes cfg_wf sizeof_cfg_t
  by unfold_locales
    (simp_all add: cfg_of_bytes_inverse wf_cfg_of_bytes length_cfg_bytes sizeof_cfg_t_def)

definition ATCMD_CONFIG_FILE_PATH :: string where
  "ATCMD_CONFIG_FILE_PATH = ''./atcmd_lbscfg''"

definition show_cfg :: "cfg_t \<Rightarrow> (string \<times> string) list option" where
  "show_cfg c = do {
     nm \<leftarrow> c_str (iname (info c));
     Some [(''User ID'', dec_int (sint (user_id c))), (''Age'', dec_int (sint (age (info c)))),
           (''Height'', dec_int (sint (height (info c)))), (''Name'', nm)] }"

text \<open>\<open>cm_lbs_nv_test\<close>; the first two arguments are the contents of the blocks \<open>malloc\<close> returns,
  \<open>None\<close> for a null pointer, which the code follows.\<close>

definition cm_lbs_nv_test :: "bytes option \<Rightarrow> bytes option \<Rightarrow> filesys
    \<Rightarrow> (int \<times> (string \<times> string) list \<times> filesys) option" where
  "cm_lbs_nv_test block1 block2 s = do {
     b1 \<leftarrow> block1;
     b2 \<leftarrow> block2;
     nm \<leftarrow> arr_copy (''Mike'' @ [NUL]) (iname (info (cfg_of_bytes b1)));
     let atcmd_cfg = (cfg_of_bytes b1)\<lparr>user_id := 10001,
           info := \<lparr>age = 25, height = 175, iname = nm\<rparr>\<rparr>;
     out1 \<leftarrow> show_cfg atcmd_cfg;
     (ret_write, s1) \<leftarrow>
       main_FileWrite (Some ATCMD_CONFIG_FILE_PATH) (Some (cfg_bytes atcmd_cfg)) sizeof_cfg_t s;
     (ret_read, rd, s2) \<leftarrow>
       main_FileRead (Some ATCMD_CONFIG_FILE_PATH) (Some b2) sizeof_cfg_t s1;
     b3 \<leftarrow> rd;
     out2 \<leftarrow> show_cfg (cfg_of_bytes b3);
     Some (if ret_read = ret_write then 0 else -1, out1 @ out2, s2) }"

definition main_prog :: "bytes option \<Rightarrow> bytes option \<Rightarrow> filesys
    \<Rightarrow> (int \<times> (string \<times> string) list \<times> filesys) option" where
  "main_prog block1 block2 s = do {
     (nv_code, out, s1) \<leftarrow> cm_lbs_nv_test block1 block2 s;
     Some (0, out @ [(''cm_lbs_nv_code'', dec_int nv_code)], s1) }"

definition mike_out :: "(string \<times> string) list" where
  "mike_out = [(''User ID'', ''10001''), (''Age'', ''25''), (''Height'', ''175''), (''Name'', ''Mike'')]"

lemma resolve_cfg_path [simp]: "resolve ATCMD_CONFIG_FILE_PATH = ''atcmd_lbscfg''"
  by (simp add: ATCMD_CONFIG_FILE_PATH_def resolve_def Let_def)

lemma cm_lbs_nv_test_ok:
  assumes "length b1 = 272" and "length b2 = 272" and "can_write ''atcmd_lbscfg'' s"
    and "272 \<le> fs_room s"
  shows "\<exists>s'. cm_lbs_nv_test (Some b1) (Some b2) s = Some (0, mike_out @ mike_out, s')
    \<and> fs_open s' = fs_open s"
proof -
  define nm where "nm = ''Mike'' @ NUL # drop 21 b1"
  define c where "c = (cfg_of_bytes b1)\<lparr>user_id := 10001,
     info := \<lparr>age = 25, height = 175, iname = nm\<rparr>\<rparr>"
  have nm: "arr_copy (''Mike'' @ [NUL]) (iname (info (cfg_of_bytes b1))) = Some nm"
    using assms(1) by (simp add: arr_copy_def cfg_of_bytes_def nm_def)
  have wf: "cfg_wf c" using assms(1) by (simp add: cfg_wf_def c_def nm_def cfg_of_bytes_def)
  have "c_str nm = Some ''Mike''"
    unfolding nm_def by (rule c_str_append_NUL) simp
  then have out: "show_cfg c = Some mike_out"
    by (simp add: show_cfg_def c_def mike_out_def dec_int_def dec_nat.simps digit_char_def)
  obtain s' where w: "main_FileWrite (Some ATCMD_CONFIG_FILE_PATH) (Some (cfg_bytes c)) sizeof_cfg_t s
        = Some (sint sizeof_cfg_t, s')"
    and r: "main_FileRead (Some ATCMD_CONFIG_FILE_PATH) (Some b2) sizeof_cfg_t s'
        = Some (sint sizeof_cfg_t, Some (take (unat sizeof_cfg_t) (cfg_bytes c)), s')"
    and o: "fs_open s' = fs_open s"
    using main_file_roundtrip [of ATCMD_CONFIG_FILE_PATH s sizeof_cfg_t "cfg_bytes c" b2]
      assms length_cfg_bytes [OF wf]
    by (auto simp: sizeof_cfg_t_def ATCMD_CONFIG_FILE_PATH_def resolve_def Let_def)
  note t = main_cfg.take_enc [OF wf]
  show ?thesis
    using nm out w r o unfolding t
    by (simp add: cm_lbs_nv_test_def main_cfg.dec_enc [OF wf] flip: c_def)
qed

end
