(* ===== verification/PropFiles.thy ===== *)
theory PropFiles
  imports Samples HandleTable MainProg
begin

text \<open>
  What holds of \<^verbatim>\<open>libfs/src/cm_file_util.c\<close>: the list of open files as a table of handles, closing by
  name, the NV files, the check of seek offsets and the digest of a file.
\<close>

section \<open>The list of open files\<close>

text \<open>Two open files with handles 1 and 2, and a node that is not yet linked.\<close>

definition sample_node :: "u32 \<Rightarrow> addr option \<Rightarrow> string \<Rightarrow> FS_OpenFileInfo" where
  "sample_node h n nm = \<lparr>fHandle = h, fp = 0, fMode = 0, fWriteLen = 0, nxt = n, fname = nm\<rparr>"

definition sample_list :: oflist where
  "sample_list = \<lparr>hp = [10 \<mapsto> sample_node 1 (Some 20) ''a'', 20 \<mapsto> sample_node 2 None ''b'',
       30 \<mapsto> sample_node 0 None ''c''],
     lst = \<lparr>node = Some 10, num = 2, maxNum = 16\<rparr>, closed = []\<rparr>"

lemma sample_list_inv: "of_inv sample_list [10, 20]"
  by (simp add: of_inv_def sample_list_def sample_node_def handle_at_def)

lemma sample_list_unique: "of_inv sample_list as \<Longrightarrow> as = [10, 20]"
  by (cases as; cases "tl as"; cases "tl (tl as)")
     (auto simp: of_inv_def sample_list_def sample_node_def)

lemma below_last: "(1::u32) < -1" "(2::u32) < -1"
  by (simp_all add: word_less_nat_alt unsigned_minus_1_eq_mask mask_eq_exp_minus_1)

lemma sample_list_rep: "of_rep sample_list (of_map sample_list [10, 20])"
  using sample_list_inv by (auto simp: of_rep_def)

lemma sample_list_fresh: "of_fresh sample_list 30"
proof -
  have "\<exists>nw. hp sample_list 30 = Some nw \<and> nxt nw = None" by (simp add: sample_list_def sample_node_def)
  moreover have "30 \<notin> set as \<and> (\<forall>x \<in> set (handles (hp sample_list) as). x < -1)" if "of_inv sample_list as" for as
    using sample_list_unique [OF that] by (simp add: sample_list_def sample_node_def handle_at_def below_last)
  ultimately show ?thesis by (simp add: of_fresh_def)
qed

text \<open>Property C8 [open_table]: the list is a table of open files. Inserting a file gives a handle that was
  free, under which the file is then found; every other handle finds what it found before; removing
  the handle again returns and undoes exactly that. All of it terminates without touching a freed
  node.\<close>

theorem open_files_are_a_table:
  assumes "of_rep s m" and "of_fresh s a"
  shows "\<exists>h s1 s2. insert_openflist a s = Some (h, s1)
    \<and> find_openflist_byHandle h s = Some None \<and> find_openflist_byHandle h s1 = Some (Some a)
    \<and> (\<forall>k. k \<noteq> h \<longrightarrow> find_openflist_byHandle k s1 = find_openflist_byHandle k s)
    \<and> remove_openflist h s1 = Some s2
    \<and> (\<forall>k. find_openflist_byHandle k s2 = find_openflist_byHandle k s)"
proof -
  obtain h s1 where 1: "insert_openflist a s = Some (h, s1)" "find_openflist_byHandle h s = Some None"
    "find_openflist_byHandle h s1 = Some (Some a)"
    "\<forall>k. k \<noteq> h \<longrightarrow> find_openflist_byHandle k s1 = find_openflist_byHandle k s"
    by (rule ofl.look_inserted [OF assms])
  obtain h' t1 s2 where 2: "insert_openflist a s = Some (h', t1)" "remove_openflist h' t1 = Some s2"
    "\<forall>k. find_openflist_byHandle k s2 = find_openflist_byHandle k s"
    by (rule ofl.ins_rem [OF assms])
  then show ?thesis using 1 by auto
qed

theorem open_files_are_a_table_witness:
  "\<exists>h s1. insert_openflist 30 sample_list = Some (h, s1) \<and> find_openflist_byHandle h s1 = Some (Some 30)
     \<and> find_openflist_byHandle h sample_list = Some None"
  using open_files_are_a_table [OF sample_list_rep sample_list_fresh] by blast

text \<open>Property C35 [insert_order]: inserting into a list that holds a file keeps the list well-formed
  (acyclic, distinct nodes, strictly ascending handles, none of them 0, a counter that agrees). The new
  node gets the first handle behind the one of the first node that is free, and stands at its place in
  the order; no other handle changes. The largest handle must be unused, since the next one wraps to 0.\<close>

theorem insert_fills_first_gap:
  assumes "of_inv s as" and "as \<noteq> []" and "new \<notin> set as" and "hp s new = Some nw" and "nxt nw = None"
    and "\<forall>x \<in> set (handles (hp s) as). x < -1"
  shows "\<exists>s' as'. insert_openflist new s = Some (new_handle (handles (hp s) as), s') \<and> of_inv s' as'
    \<and> set as' = insert new (set as) \<and> handles (hp s') as' = ins_handle (handles (hp s) as)
    \<and> new_handle (handles (hp s) as) \<notin> set (handles (hp s) as)
    \<and> (\<forall>h. handle_at (hp s) (hd as) \<le> h \<and> h < new_handle (handles (hp s) as) \<longrightarrow> h \<in> set (handles (hp s) as))
    \<and> handle_at (hp s') new = new_handle (handles (hp s) as)
    \<and> (\<forall>a \<in> set as. handle_at (hp s') a = handle_at (hp s) a)"
proof -
  have so: "sorted_wrt (<) (handles (hp s) as)" using assms(1) by (simp add: of_inv_def)
  have hd: "hd (handles (hp s) as) = handle_at (hp s) (hd as)" "handles (hp s) as \<noteq> []"
    using assms(2) by (cases as; simp)+
  from new_handle_fresh [OF so assms(6)] new_handle_first [OF so assms(6) hd(2), unfolded hd(1)] show ?thesis
    using insert_openflist_correct [OF assms(1,3-6)] by metis
qed

theorem insert_fills_first_gap_witness:
  "\<exists>s' as'. insert_openflist 30 sample_list = Some (3, s') \<and> of_inv s' as' \<and> set as' = {10, 20, 30}"
proof -
  have h: "handles (hp sample_list) [10, 20] = [1, 2]"
    by (simp add: sample_list_def sample_node_def handle_at_def)
  have "hp sample_list 30 = Some (sample_node 0 None ''c'')" "nxt (sample_node 0 None ''c'') = None"
    by (simp_all add: sample_list_def sample_node_def)
  from insert_fills_first_gap [OF sample_list_inv _ _ this] show ?thesis
    unfolding h by (simp add: insert_commute below_last) metis
qed

text \<open>The first file of an empty list gets the handle 1, the value of \<open>FS_OPENFILE_HANDLE_START\<close>, although the
  comment at the field \<open>fHandle\<close> says that handles start from 2.\<close>

lemma first_handle_is_1:
  assumes "of_inv s []" and "hp s new = Some nw"
  shows "\<exists>s'. insert_openflist new s = Some (1, s')"
  using assms by (auto simp: insert_openflist_def of_inv_def FS_OPENFILE_HANDLE_START_def)

text \<open>Removing a handle of the list unlinks and frees exactly the node that has it,
  wherever it stands, and keeps the list well-formed and the other handles as they are; removing a
  handle that is not in use changes nothing.\<close>

theorem remove_takes_one_node:
  assumes "of_inv s as"
  shows "if \<exists>c \<in> set as. handle_at (hp s) c = handle
    then \<exists>c s'. c \<in> set as \<and> handle_at (hp s) c = handle \<and> remove_openflist handle s = Some s'
      \<and> of_inv s' (removeAll c as) \<and> hp s' c = None
      \<and> (\<forall>a \<in> set as - {c}. handle_at (hp s') a = handle_at (hp s) a)
    else remove_openflist handle s = Some s"
  using remove_openflist_present [OF assms] remove_openflist_absent [OF assms] by auto

theorem remove_takes_one_node_witness:
  "\<exists>s'. remove_openflist 2 sample_list = Some s' \<and> of_inv s' [10]"
  using remove_takes_one_node [OF sample_list_inv, of 2]
  by (auto simp: sample_list_def sample_node_def handle_at_def)

text \<open>Closing a file by name works when its open instances are at the front of
  the list: each of their streams is closed once and in order, their nodes are freed, and what is left
  is a well-formed list of the others, untouched.\<close>

theorem close_by_name_at_front:
  assumes "of_inv s (pre @ post)" and "\<forall>a \<in> set pre. name_at (hp s) a = nm"
    and "\<forall>a \<in> set post. name_at (hp s) a \<noteq> nm"
  shows "\<exists>s'. close_openflist_byFname (Some nm) s = Some (None, s') \<and> of_inv s' post
    \<and> closed s' = closed s @ map (fp_at (hp s)) pre
    \<and> (\<forall>a \<in> set post. hp s' a = hp s a) \<and> (\<forall>a \<in> set pre. hp s' a = None)"
  by (rule close_openflist_front [OF assms])

theorem close_by_name_at_front_witness:
  "\<exists>s'. close_openflist_byFname (Some ''a'') sample_list = Some (None, s') \<and> of_inv s' [20] \<and> closed s' = [0]"
proof -
  have i: "of_inv sample_list ([10] @ [20])" using sample_list_inv by simp
  have "\<forall>a \<in> set [10]. name_at (hp sample_list) a = ''a''" "\<forall>a \<in> set [20]. name_at (hp sample_list) a \<noteq> ''a''"
    by (simp_all add: sample_list_def sample_node_def name_at_def)
  from close_by_name_at_front [OF i this] show ?thesis
    by (auto simp: sample_list_def sample_node_def fp_at_def)
qed

text \<open>Property C36 [close_dangling]: anywhere else the closed node is freed but stays linked: after closing a
  name whose first instance is behind another file, the next search for a handle that is not in the
  list reads freed memory.\<close>

theorem close_by_name_leaves_dangling_node:
  assumes "of_inv s (a # as @ b # post)" and "name_at (hp s) a \<noteq> nm"
    and "\<forall>x \<in> set as. name_at (hp s) x \<noteq> nm" and "name_at (hp s) b = nm"
    and "\<forall>x \<in> set (a # as @ b # post). handle_at (hp s) x \<noteq> handle"
  shows "\<exists>s'. close_openflist_byFname (Some nm) s = Some (None, s')
    \<and> find_openflist_byHandle handle s' = None"
  by (rule close_openflist_dangling [OF assms])

theorem close_by_name_leaves_dangling_node_witness:
  "\<exists>s'. close_openflist_byFname (Some ''b'') sample_list = Some (None, s')
     \<and> find_openflist_byHandle 9 s' = None"
proof -
  have i: "of_inv sample_list (10 # [] @ 20 # [])" using sample_list_inv by simp
  show ?thesis
    by (rule close_by_name_leaves_dangling_node [OF i])
       (simp_all add: sample_list_def sample_node_def name_at_def handle_at_def)
qed

section \<open>The NV files\<close>

text \<open>Property C39 [nv_roundtrip]: what \<open>cm_nv_write\<close> stores \<open>cm_nv_read\<close> gives back: for a name of at most
  64 characters, a writable file and enough room, both return the length, the first \<open>n\<close> bytes of the
  reader's buffer are the data and the rest of it is untouched, and the file system is the one the
  writer left.\<close>

theorem nv_write_then_read:
  assumes "length fn \<le> 64" and "n \<noteq> 0" and "unat n \<le> length d" and "unat n \<le> length buf"
    and "can_write (resolve (CM_NV_DIR @ fn)) s"
    and "unat n \<le> fs_room s + file_size (resolve (CM_NV_DIR @ fn)) s"
  shows "\<exists>s'. cm_nv_write (Some fn) (Some d) n s = Some (sint n, s') \<and>
     cm_nv_read (Some fn) (Some buf) n s'
       = Some (sint n, Some (take (unat n) d @ drop (unat n) buf), s')"
  unfolding cm_nv_write_def cm_nv_read_def
  using assms by (intro nv_roundtrip) (simp_all add: nv_args_def length_nv_dirs)

theorem nv_write_then_read_witness:
  "\<exists>s'. cm_nv_write (Some ''cfg'') (Some ''abcd'') 3 sample_fs = Some (3, s') \<and>
     cm_nv_read (Some ''cfg'') (Some ''XXXX'') 3 s' = Some (3, Some ''abcX'', s')"
  using nv_write_then_read [of "''cfg''" 3 "''abcd''" "''XXXX''" sample_fs]
  by (simp add: CM_NV_DIR_def resolve_def can_write_def sample_fs_def dir_exists_def parent_dir_def
      file_size_def)

text \<open>\<open>cm_nv_read\<close> of a file shorter than asked fails with -1 but has filled the
  start of the buffer, and it never closes the stream: every such call leaves one more stream open.\<close>

theorem nv_read_of_short_file_leaks:
  assumes "length fn \<le> 64" and "n \<noteq> 0" and "unat n \<le> length buf"
    and "can_read (resolve (CM_NV_DIR @ fn)) s" and "fs_files s (resolve (CM_NV_DIR @ fn)) = Some b"
    and "length b < unat n"
  shows "cm_nv_read (Some fn) (Some buf) n s
    = Some (-1, Some (b @ drop (length b) buf), s\<lparr>fs_open := Suc (fs_open s)\<rparr>)"
  unfolding cm_nv_read_def
  using assms by (intro nv_read_short) (simp_all add: nv_args_def length_nv_dirs can_read_def)

theorem nv_read_of_short_file_leaks_witness:
  "cm_nv_read (Some ''cfg'') (Some ''XXXX'') 4 (sample_fs\<lparr>fs_files := [''cfg'' \<mapsto> ''ab'']\<rparr>)
     = Some (-1, Some ''abXX'', sample_fs\<lparr>fs_files := [''cfg'' \<mapsto> ''ab''], fs_open := 1\<rparr>)"
  using nv_read_of_short_file_leaks [of "''cfg''" 4 "''XXXX''" "sample_fs\<lparr>fs_files := [''cfg'' \<mapsto> ''ab'']\<rparr>" "''ab''"]
  by (simp add: CM_NV_DIR_def resolve_def can_read_def sample_fs_def)

text \<open>Whatever the arguments (null pointers, long names, a full or refusing
  disk), both writers return as long as the data buffer holds the length asked for, and no stream
  stays open.\<close>

theorem nv_writers_return_and_close:
  assumes "\<And>d. data = Some d \<Longrightarrow> unat n \<le> length d"
  shows "(\<exists>r s'. cm_nv_write filename data n s = Some (r, s') \<and> fs_open s' = fs_open s)
    \<and> (\<exists>r s'. cm_factory_nv_write filename data n s = Some (r, s') \<and> fs_open s' = fs_open s)"
  unfolding cm_nv_write_def cm_factory_nv_write_def
  using nv_write_no_fault [OF length_nv_dirs(1) assms] nv_write_no_fault [OF length_nv_dirs(2) assms]
  by blast

theorem nv_writers_return_and_close_witness:
  "\<exists>r s'. cm_nv_write (Some (replicate 65 CHR ''x'')) (Some ''abcd'') 4 sample_fs = Some (r, s')
     \<and> fs_open s' = fs_open sample_fs"
  by (rule nv_writers_return_and_close [THEN conjunct1]) simp

section \<open>Offsets and digests\<close>

text \<open>For a seek from the start or from the current position, the check says exactly
  whether the target leaves the file: before its start or after its end, for every signed offset, on
  files below 2 GB.\<close>

theorem overflow_check_is_exact:
  assumes "length (file_bytes st s) < 2 ^ 31" and "f_pos st \<le> length (file_bytes st s)"
    and "dir = 0 \<or> dir = 1"
  shows "is_fs_OverFlow st offset dir s
    = seek_leaves (f_pos st) (length (file_bytes st s)) offset dir"
proof (cases "dir = 0")
  case True
  then show ?thesis using is_fs_OverFlow_start [of st s offset] assms(1,2) by simp
next
  case False
  then show ?thesis using is_fs_OverFlow_current [OF assms(1,2), of offset] assms(3) by simp
qed

definition sample_file :: "FILE \<times> filesys" where
  "sample_file = (\<lparr>f_path = ''f'', f_pos = 2\<rparr>, sample_fs\<lparr>fs_files := [''f'' \<mapsto> ''abcd'']\<rparr>)"

lemma sample_file_bytes: "file_bytes (fst sample_file) (snd sample_file) = ''abcd''"
  by (simp add: sample_file_def file_bytes_def sample_fs_def)

theorem overflow_check_is_exact_witness:
  "is_fs_OverFlow (fst sample_file) (-3) 1 (snd sample_file)"
  using overflow_check_is_exact [of "fst sample_file" "snd sample_file" 1 "-3"]
  by (simp add: sample_file_bytes) (simp add: sample_file_def seek_leaves_def seek_target_def)

text \<open>For a seek from the end the check misses half of its purpose: it only
  asks whether the offset is positive, because the sum it compares with 0 is unsigned. So a seek to
  any place before the start of the file passes.\<close>

theorem overflow_check_from_end_misses:
  assumes "dir \<noteq> 0" and "dir \<noteq> 1" and "sint offset < - int (length (file_bytes st s))"
  shows "\<not> is_fs_OverFlow st offset dir s
    \<and> seek_leaves (f_pos st) (length (file_bytes st s)) offset dir"
  using is_fs_OverFlow_end [OF assms(1,2), of st offset s] assms
  by (simp add: seek_leaves_def seek_target_def)

theorem overflow_check_from_end_misses_witness:
  "\<not> is_fs_OverFlow (fst sample_file) (-5) 2 (snd sample_file)"
  using overflow_check_from_end_misses [of 2 "-5" "fst sample_file" "snd sample_file"]
  by (simp add: sample_file_bytes)

text \<open>The digest of a file is not the digest of its contents: of every full block of
  eight bytes only the first byte reaches the hash, and a last block that is not full is left out, so
  two files with the same first bytes have the same digest.\<close>

theorem file_digest_skips_bytes:
  assumes "\<And>c b. fst (update c b) = 0"
    and "hashed_part (drop (f_pos st) (file_bytes st s)) = hashed_part (drop (f_pos st') (file_bytes st' s'))"
  shows "fs_md5 starts update finish mem_ok st out s = fs_md5 starts update finish mem_ok st' out s'"
proof -
  have "fs_md5_loop update c (drop (f_pos st) (file_bytes st s))
      = fs_md5_loop update c (drop (f_pos st') (file_bytes st' s'))" for c
    using assms(2) by (simp add: fs_md5_loop_hashed [OF assms(1)])
  then show ?thesis by (cases starts; cases "fst starts = 0"; cases mem_ok) (simp_all add: fs_md5_def)
qed

theorem file_digest_skips_bytes_witness:
  "fs_md5 (0, [] :: bytes) (\<lambda>c b. (0, c @ b)) (\<lambda>c. (0, replicate 16 NUL)) True
     \<lparr>f_path = ''f'', f_pos = 0\<rparr> (replicate 16 NUL) (sample_fs\<lparr>fs_files := [''f'' \<mapsto> ''a1234567rest'']\<rparr>)
   = fs_md5 (0, []) (\<lambda>c b. (0, c @ b)) (\<lambda>c. (0, replicate 16 NUL)) True
     \<lparr>f_path = ''f'', f_pos = 0\<rparr> (replicate 16 NUL) (sample_fs\<lparr>fs_files := [''f'' \<mapsto> ''aXXXXXXX'']\<rparr>)"
  by (rule file_digest_skips_bytes)
     (simp_all add: file_bytes_def hashed_part.simps FS_READBUFF_LEN_def)

section \<open>The configuration files and the test program\<close>

text \<open>The first use of the store creates its directory: on a disk where neither
  name is taken or refused, the directory of the service exists afterwards, the store is ready, and
  no file has changed.\<close>

theorem store_directory_is_created:
  assumes "fs_files s ''/userdata'' = None" and "fs_files s ''/userdata/cm_lbs'' = None"
    and "''/userdata'' \<notin> fs_deny s" and "''/userdata/cm_lbs'' \<notin> fs_deny s"
  shows "\<exists>s'. ensure_dir s = Some (True, s') \<and> lbs_ready s'
    \<and> dir_exists ''/userdata/cm_lbs'' s' \<and> fs_files s' = fs_files s \<and> fs_open s' = fs_open s
    \<and> fs_dirs s \<subseteq> fs_dirs s'"
  using ensure_dir_fresh [OF assms] unfolding dirs_grow_def by auto

theorem store_directory_is_created_witness:
  "\<exists>s'. ensure_dir (sample_fs\<lparr>fs_dirs := {}\<rparr>) = Some (True, s') \<and> dir_exists ''/userdata/cm_lbs'' s'"
  using store_directory_is_created [of "sample_fs\<lparr>fs_dirs := {}\<rparr>"] by (auto simp: sample_fs_def)

text \<open>Property C37 [config_roundtrip]: on a disk in order each configuration structure that is written is
  read back field by field, into any structure of the caller, and the disk stays in order.\<close>

theorem config_files_roundtrip:
  assumes "store_ok s" and "amap_wf c" and "amap_wf c0" and "oneospos_wf d" and "oneospos_wf d0"
    and "pf \<in> {CM_LBS_PLAT_AMAP10, CM_LBS_PLAT_AMAP20}"
  shows "(\<exists>s'. cm_lbs_atcmd_write_amapcfg pf (Some c) s = Some (CM_LBS_OK, s') \<and> store_ok s'
      \<and> cm_lbs_atcmd_read_amapcfg pf (Some c0) s' = Some ((CM_LBS_OK, Some c), s'))
    \<and> (\<exists>s'. cm_lbs_atcmd_write_oneosposcfg pf (Some d) s = Some (CM_LBS_OK, s') \<and> store_ok s'
      \<and> cm_lbs_atcmd_Read_oneosposcfg pf (Some d0) s' = Some ((CM_LBS_OK, Some d), s'))"
proof
  obtain s' where s': "cm_lbs_atcmd_write_amapcfg pf (Some c) s = Some (CM_LBS_OK, s')" "store_ok s'"
    "store_of s' = put_amap pf c (store_of s)"
    by (rule write_amapcfg_store [OF assms(1,2)])
  have "amap_slot pf (store_of s') = Some c"
    using assms(6) by (auto simp: s'(3) amap_slot_def put_amap_def platform_defs)
  then show "\<exists>s'. cm_lbs_atcmd_write_amapcfg pf (Some c) s = Some (CM_LBS_OK, s') \<and> store_ok s'
      \<and> cm_lbs_atcmd_read_amapcfg pf (Some c0) s' = Some ((CM_LBS_OK, Some c), s')"
    using s'(1,2) read_amapcfg_store [OF s'(2) assms(3), of pf] by auto
next
  obtain s' where s': "cm_lbs_atcmd_write_oneosposcfg pf (Some d) s = Some (CM_LBS_OK, s')" "store_ok s'"
    "store_of s' = (store_of s)\<lparr>st_oneospos := Some d\<rparr>"
    by (rule write_oneosposcfg_store [OF assms(1,4)])
  then show "\<exists>s'. cm_lbs_atcmd_write_oneosposcfg pf (Some d) s = Some (CM_LBS_OK, s') \<and> store_ok s'
      \<and> cm_lbs_atcmd_Read_oneosposcfg pf (Some d0) s' = Some ((CM_LBS_OK, Some d), s')"
    using read_oneosposcfg_store [OF s'(2) assms(5), of pf] by auto
qed

theorem config_files_roundtrip_witness:
  "\<exists>s'. cm_lbs_atcmd_write_amapcfg CM_LBS_PLAT_AMAP20 (Some (amap_defaults zero_amap)) sample_fs = Some (CM_LBS_OK, s')
     \<and> cm_lbs_atcmd_read_amapcfg CM_LBS_PLAT_AMAP20 (Some zero_amap) s'
         = Some ((CM_LBS_OK, Some (amap_defaults zero_amap)), s')"
  using config_files_roundtrip [OF sample_store_ok, of "amap_defaults zero_amap" zero_amap zero_oneospos
      zero_oneospos CM_LBS_PLAT_AMAP20] by auto

text \<open>The response buffer of the HTTP test holds the body and nothing else: after
  any chunks whatever, each handed to the callback in turn with memory available, the block is the
  concatenation of the chunks with a NUL behind it, and no write leaves the block.\<close>

theorem response_is_collected:
  assumes "holds_body mem b" and "length b + length (concat cs) + 1 < 2 ^ 64"
  shows "\<exists>mem'. receive cs mem = Some mem' \<and> holds_body mem' (b @ concat cs)
    \<and> (cs \<noteq> [] \<longrightarrow> memory mem' = b @ concat cs @ [NUL])"
  by (rule receive_holds [OF assms])

theorem response_is_collected_witness:
  "\<exists>mem'. receive [''ab'', [], ''c''] \<lparr>memory = [NUL], msize = 0\<rparr> = Some mem' \<and> memory mem' = ''abc'' @ [NUL]"
  using response_is_collected [of "\<lparr>memory = [NUL], msize = 0\<rparr>" "[]" "[''ab'', [], ''c'']"]
  by (auto simp: holds_body_def)

text \<open>The self-test that \<open>main\<close> runs succeeds on every disk with a writable file
  and 272 bytes of room: it stores its structure, reads it back into another, and prints the same user id,
  age, height and name from both; no stream stays open.\<close>

theorem self_test_prints_what_it_stored:
  assumes "length b1 = 272" and "length b2 = 272" and "can_write ''atcmd_lbscfg'' s"
    and "272 \<le> fs_room s"
  shows "\<exists>s'. cm_lbs_nv_test (Some b1) (Some b2) s = Some (0, mike_out @ mike_out, s')
    \<and> fs_open s' = fs_open s"
  by (rule cm_lbs_nv_test_ok [OF assms])

theorem self_test_prints_what_it_stored_witness:
  "\<exists>s'. cm_lbs_nv_test (Some (replicate 272 CHR ''x'')) (Some (replicate 272 NUL)) sample_fs
     = Some (0, mike_out @ mike_out, s')"
  using self_test_prints_what_it_stored [of "replicate 272 CHR ''x''" "replicate 272 NUL" sample_fs]
  by (auto simp: can_write_def sample_fs_def dir_exists_def parent_dir_def)

end
