(* ===== verification/PropFormat.thy ===== *)
theory PropFormat
  imports Samples
begin

text \<open>
  What holds of the text handling of \<^verbatim>\<open>cm_lbs/cm_lbs/src/cm_lbs_api.c\<close>: the decimals of a coordinate,
  the hexadecimal form of a digest, and the factory command.
\<close>

section \<open>The decimals of a coordinate\<close>

text \<open>The text of a coordinate with a decimal point gets exactly the number of
  decimals asked for, cut or filled with zeros, and its whole part is kept, as long as the result and
  the input fit into the array of 16; eight decimals in the input are the exception stated next.\<close>

theorem coordinate_gets_its_decimals:
  assumes "CHR ''.'' \<notin> set whole" and "NUL \<notin> set whole" and "NUL \<notin> set frc"
    and "length whole + 1 + max n (length frc) < 16" and "n \<le> 8"
    and "length frc \<noteq> 8 \<or> n = 8"
  shows "\<exists>out. cm_lbs_atcmd_string_assign_decimal (Some (whole @ CHR ''.'' # frc)) (replicate 16 NUL) (int n)
      = Some out \<and> c_str out = Some (with_decimals n whole frc)"
  by (rule assign_decimal_ok [OF assms])

theorem coordinate_gets_its_decimals_witness:
  "\<exists>out. cm_lbs_atcmd_string_assign_decimal (Some ''106.55012'') (replicate 16 NUL) 3 = Some out
     \<and> c_str out = Some ''106.550''"
  using coordinate_gets_its_decimals [of "''106''" "''55012''" 3] by (simp add: with_decimals_def)

text \<open>A coordinate with eight decimals, the precision of the platform, is
  never cut: whatever the configured precision, all eight are reported.\<close>

theorem eight_decimals_are_kept:
  assumes "CHR ''.'' \<notin> set whole" and "length frc = 8" and "length whole < 7" and "count \<le> 8"
    and "NUL \<notin> set whole" and "NUL \<notin> set frc"
  shows "\<exists>out. cm_lbs_atcmd_string_assign_decimal (Some (whole @ CHR ''.'' # frc)) (replicate 16 NUL) count
      = Some out \<and> c_str out = Some (whole @ CHR ''.'' # frc)"
  by (rule assign_decimal_eight [OF assms])

theorem eight_decimals_are_kept_witness:
  "\<exists>out. cm_lbs_atcmd_string_assign_decimal (Some ''106.55012345'') (replicate 16 NUL) 2 = Some out
     \<and> c_str out = Some ''106.55012345''"
  using eight_decimals_are_kept [of "''106''" "''55012345''" 2] by simp

text \<open>A coordinate without a decimal point does not get one: zeros are put
  behind its last digit, one more than the precision, so \<open>106\<close> with precision 2 becomes \<open>106000\<close>.\<close>

theorem whole_number_grows:
  assumes "CHR ''.'' \<notin> set whole" and "NUL \<notin> set whole" and "length whole + n + 1 < 16" and "n < 8"
  shows "\<exists>out. cm_lbs_atcmd_string_assign_decimal (Some whole) (replicate 16 NUL) (int n)
      = Some out \<and> c_str out = Some (whole @ replicate (n + 1) CHR ''0'')"
  by (rule assign_decimal_whole [OF assms])

theorem whole_number_grows_witness:
  "\<exists>out. cm_lbs_atcmd_string_assign_decimal (Some ''106'') (replicate 16 NUL) 2 = Some out
     \<and> c_str out = Some ''106000''"
  using whole_number_grows [of "''106''" 2] by (simp add: numeral_3_eq_3)

section \<open>Hexadecimal digits\<close>

text \<open>The hexadecimal form that is printed determines the bytes: the array holds two
  digits for each of the \<open>n\<close> bytes, and reading the digits back gives the bytes.\<close>

theorem hex_form_is_faithful:
  assumes "n \<le> length bin" and "2 * n < length buf" and "buf ! (2 * n) = NUL"
  shows "\<exists>h v. cm_lbs_atcmd_data_to_hex buf bin n = Some h \<and> c_str h = Some v
    \<and> length v = 2 * n \<and> of_hex v = take n bin"
proof -
  obtain h where "cm_lbs_atcmd_data_to_hex buf bin n = Some h" "c_str h = Some (to_hex (take n bin))"
    by (rule data_to_hex_ok [OF assms])
  then show ?thesis using assms(1) by (auto simp: of_to_hex length_to_hex)
qed

theorem hex_form_is_faithful_witness:
  "\<exists>h v. cm_lbs_atcmd_data_to_hex (replicate 5 NUL) ''AZ'' 2 = Some h \<and> c_str h = Some v \<and> of_hex v = ''AZ''"
  using hex_form_is_faithful [of 2 "''AZ''" "replicate 5 NUL"] by auto

section \<open>The factory command\<close>

text \<open>On this platform, whose NV driver is compiled out, \<open>AT+MLBSFACTORY\<close> can
  neither read nor write: every call that returns fails with an unknown or a parameter error and
  leaves the answer buffer as it was.\<close>

theorem factory_command_never_succeeds:
  assumes "cm_lbs_atcmd_mlbsfact md5 subcmd arg at_rsp w = Some ((e, b), w')"
  shows "(e = LBS_ATCMD_UNKNOWERR \<or> e = LBS_ATCMD_PARAERR) \<and> b = at_rsp"
  using mlbsfact_never_succeeds [OF assms] by blast

theorem factory_command_never_succeeds_witness:
  "\<exists>e b w'. cm_lbs_atcmd_mlbsfact (\<lambda>x. x) ''amapv1key'' (Some ''k'') (Some []) sample_env = Some ((e, b), w')
     \<and> b = Some [] \<and> e \<noteq> LBS_ATCMD_SUCCESS"
proof -
  have "\<exists>x. cm_lbs_atcmd_mlbsfact (\<lambda>x. x) ''amapv1key'' (Some ''k'') (Some []) sample_env = Some x"
    using fact_store_total
    by (auto simp: cm_lbs_atcmd_mlbsfact_def cm_lbs_atcmd_mlbsfact_typefind_def nvcfg_option_info_def
        cm_lbs_atcmd_mlbsfact_write_def sample_env_def env_malloc_def malloc_ok_def fact_store_def
        fact_text_def arr_fill_def nv_len_defs)
  then obtain e b w' where "cm_lbs_atcmd_mlbsfact (\<lambda>x. x) ''amapv1key'' (Some ''k'') (Some []) sample_env
      = Some ((e, b), w')" by (metis surj_pair)
  from factory_command_never_succeeds [OF this] this show ?thesis by auto
qed

text \<open>The arrays of the factory settings that hold text.\<close>

definition fact_limit :: "cm_lbs_atcmd_nvcfg_type_t \<Rightarrow> nat option" where
  "fact_limit ty =
     (case ty of
        LBS_ATCMD_NVCFG_ONEOSPOSPID \<Rightarrow> Some 64
      | LBS_ATCMD_NVCFG_AMAPV1KEY \<Rightarrow> Some 128 | LBS_ATCMD_NVCFG_AMAPV1SIGNA \<Rightarrow> Some 128
      | LBS_ATCMD_NVCFG_AMAPV2KEY \<Rightarrow> Some 128 | LBS_ATCMD_NVCFG_AMAPV2SIGNA \<Rightarrow> Some 128
      | _ \<Rightarrow> None)"

text \<open>A text the factory command stores is the one its read form takes up,
  when it is shorter than its array; a text that fills the array is accepted as well but has no NUL,
  and reading it runs past the array; a longer one is refused.\<close>

theorem factory_text_roundtrip:
  assumes "fact_limit ty = Some n" and "NUL \<notin> set param"
  shows "if length param < n then \<exists>nv' f. fact_store ty param nv = Some (Inr nv')
      \<and> fact_field ty nv' = Some f \<and> c_str f = Some param
    else if length param = n then \<exists>nv'. fact_store ty param nv = Some (Inr nv') \<and> fact_field ty nv' = None
    else fact_store ty param nv = Some (Inl LBS_ATCMD_PARAERR)"
proof -
  have n: "n \<le> 128" using assms(1) by (cases ty) (simp_all add: fact_limit_def)
  have full: "c_str param = None" if "length param = n" using assms(2) by (simp add: c_str_def)
  have cat: "\<exists>f. arr_cat param (replicate 128 NUL) = Some f \<and> c_str f = Some param" if "length param < n"
  proof -
    have e: "c_str (replicate 128 NUL) = Some []" by (simp add: c_str_def)
    have l: "length [] + length param < length (replicate 128 NUL)" using that n by simp
    from arr_cat_ok [OF e assms(2) l] show ?thesis by (metis append_Nil)
  qed
  consider "length param < n" | "length param = n" | "n < length param" by linarith
  then show ?thesis
  proof cases
    case 1
    obtain a where a: "arr_fill n param = Some a" "c_str a = Some param"
      using c_str_arr_fill [OF assms(2) 1] by (auto split: bind_splits)
    obtain f where f: "arr_cat param (replicate 128 NUL) = Some f" "c_str f = Some param"
      using cat [OF 1] by blast
    show ?thesis using 1 assms(1) a f
      by (cases ty) (auto simp: fact_limit_def fact_store_def fact_text_def fact_field_def nv_len_defs
          Let_def)
  next
    case 2
    have "c_str param = None" "arr_fill n param = Some param" using full [OF 2] arr_fill_full [OF 2] .
    then show ?thesis using 2 assms(1)
      by (cases ty) (simp_all add: fact_limit_def fact_store_def fact_text_def fact_field_def nv_len_defs
          Let_def)
  next
    case 3
    then show ?thesis using assms(1)
      by (cases ty) (simp_all add: fact_limit_def fact_store_def fact_text_def nv_len_defs)
  qed
qed

theorem factory_text_roundtrip_witness:
  "\<exists>nv' f. fact_store LBS_ATCMD_NVCFG_ONEOSPOSPID ''pid'' zero_nvconfig = Some (Inr nv')
     \<and> fact_field LBS_ATCMD_NVCFG_ONEOSPOSPID nv' = Some f \<and> c_str f = Some ''pid''"
  using factory_text_roundtrip [of LBS_ATCMD_NVCFG_ONEOSPOSPID 64 "''pid''" zero_nvconfig]
  by (simp add: fact_limit_def)

end
