(* ===== verification/AmapParse.thy ===== *)
theory AmapParse
  imports LbsTask
begin

text \<open>
  The answers of the AMAP service, \<^verbatim>\<open>cm_lbs/cm_lbs/src/cm_lbs_amap.c\<close>: the codes of the service, the
  copy of a text into a result, and the two parsers. The JSON parser is the argument \<open>parse\<close>; a null
  tree, a missing \<open>status\<close> or a member that is no string is followed where the code follows it.
\<close>

section \<open>Codes\<close>

definition s_amap_rspcode :: "(cm_lbs_amap_event_e \<times> string) list" where
  "s_amap_rspcode =
    [(AMAP_LOCATION_SUCCEED, ''OK''),
     (AMAP_LOCATION_KEY_INVALID, ''INVALID_USER_KEY''),
     (AMAP_LOCATION_OVER_DAYQUOTA, ''OVER_QUOTA''),
     (AMAP_LOCATION_OVER_QPS, ''CUQPS_HAS_EXCEEDED_THE_LIMIT''),
     (AMAP_LOCATION_UNKNOWN_ERR, ''UNKNOWN_ERROR'')]"

fun find_rspcode :: "string \<Rightarrow> (cm_lbs_amap_event_e \<times> string) list \<Rightarrow> cm_lbs_amap_event_e" where
  "find_rspcode info [] = AMAP_LOCATION_UNKNOWN_ERR"
| "find_rspcode info ((ev, code) # rs) = (if code = info then ev else find_rspcode info rs)"

definition cm_lbs_amap_rspcode_parse :: "string \<Rightarrow> cm_lbs_amap_event_e" where
  "cm_lbs_amap_rspcode_parse rsp_info = find_rspcode rsp_info s_amap_rspcode"

section \<open>Copying a text\<close>

definition CM_LBS_AMAP_RSP_LENMAX :: nat where
  "CM_LBS_AMAP_RSP_LENMAX = 256"

text \<open>\<open>__amap_copy_location_rsp\<close>: the state and the pointer, null unless the copy was made.\<close>

definition amap_copy_location_rsp :: "string option \<Rightarrow> lbs_world
    \<Rightarrow> (cm_lbs_state_e \<times> string option) \<times> lbs_world" where
  "amap_copy_location_rsp json_vue w =
     (case json_vue of
        None \<Rightarrow> ((CM_LBS_ERR, None), w)
      | Some v \<Rightarrow>
          if 0 < length v \<and> length v < CM_LBS_AMAP_RSP_LENMAX
          then (case env_malloc w of (ok, w1) \<Rightarrow>
             if ok then ((CM_LBS_OK, Some v), w1) else ((CM_LBS_MEMROYERR, None), w1))
          else ((CM_LBS_MEMROYERR, None), w))"

text \<open>A result before anything was filled in: \<open>cm_lbs_malloc\<close> zeroes it.\<close>

definition zero_amap_rsp :: cm_lbs_amap_location_rsp_t where
  "zero_amap_rsp = \<lparr>am_event = AMAP_LOCATION_UNKNOWN_ERR, am_longitude = None, am_latitude = None,
     am_radius = None, am_country = None, am_province = None, am_city = None, am_district = None,
     am_citycode = None, am_adcode = None, am_street = None, am_road = None, am_poi = None,
     am_location_describe = None\<rparr>"

text \<open>The optional members of an answer, in the order of the code: a member that is there must be
  copied, otherwise the parser breaks out.\<close>

fun copy_members :: "(cJSON option \<times> (string option \<Rightarrow> cm_lbs_amap_location_rsp_t \<Rightarrow> cm_lbs_amap_location_rsp_t)) list
    \<Rightarrow> cm_lbs_amap_location_rsp_t \<Rightarrow> lbs_world \<Rightarrow> bool \<times> cm_lbs_amap_location_rsp_t \<times> lbs_world" where
  "copy_members [] rsp w = (True, rsp, w)"
| "copy_members ((None, put) # ms) rsp w = copy_members ms rsp w"
| "copy_members ((Some item, put) # ms) rsp w =
     (case amap_copy_location_rsp (valuestring item) w of ((copy_ret, v), w1) \<Rightarrow>
        if copy_ret = CM_LBS_OK then copy_members ms (put v rsp) w1 else (False, put v rsp, w1))"

text \<open>The text \<open>"longitude,latitude"\<close> cut at its first comma; \<open>None\<close> when it has none.\<close>

definition split_comma :: "string \<Rightarrow> (string \<times> string) option" where
  "split_comma s =
     (if CHR '','' \<in> set s
      then Some (takeWhile (\<lambda>c. c \<noteq> CHR '','') s, tl (dropWhile (\<lambda>c. c \<noteq> CHR '','') s)) else None)"

text \<open>Storing the two halves, with the checks on their lengths.\<close>

definition amap_put_location :: "string \<times> string \<Rightarrow> cm_lbs_amap_location_rsp_t \<Rightarrow> lbs_world
    \<Rightarrow> bool \<times> cm_lbs_amap_location_rsp_t \<times> lbs_world" where
  "amap_put_location lonlat rsp w =
     (case lonlat of (lon, lat) \<Rightarrow>
        if \<not> (0 < length lon \<and> length lon < CM_LBS_AMAP_RSP_LENMAX) then (False, rsp, w)
        else (case env_malloc w of (ok, w1) \<Rightarrow>
          if \<not> ok then (False, rsp, w1)
          else let rsp1 = rsp\<lparr>am_longitude := Some lon\<rparr> in
            if \<not> (0 < length lat \<and> length lat < CM_LBS_AMAP_RSP_LENMAX) then (False, rsp1, w1)
            else (case env_malloc w1 of (ok2, w2) \<Rightarrow>
              if \<not> ok2 then (False, rsp1, w2) else (True, rsp1\<lparr>am_latitude := Some lat\<rparr>, w2))))"

section \<open>The parser of version 1\<close>

text \<open>The event of an answer without coordinates: the code of \<open>info\<close>, which must not be a success.\<close>

definition amap_info_event :: "string \<Rightarrow> cm_lbs_amap_event_e" where
  "amap_info_event info =
     (let ret = cm_lbs_amap_rspcode_parse info
      in if ret = AMAP_LOCATION_SUCCEED then AMAP_LOCATION_UNKNOWN_ERR else ret)"

definition amapv1_refused :: "cJSON option \<Rightarrow> cm_lbs_amap_event_e option" where
  "amapv1_refused info =
     (case info of
        None \<Rightarrow> Some AMAP_LOCATION_UNKNOWN_ERR
      | Some i \<Rightarrow> do { s \<leftarrow> valuestring i; Some (amap_info_event s) })"

definition amapv1_parse :: "(string \<Rightarrow> cJSON option) \<Rightarrow> cm_lbs_amap_location_rsp_t \<Rightarrow> string
    \<Rightarrow> lbs_world \<Rightarrow> (cm_lbs_amap_event_e \<times> cm_lbs_amap_location_rsp_t \<times> lbs_world) option" where
  "amapv1_parse parse rsp param w =
     (case parse param of
        None \<Rightarrow> Some (AMAP_LOCATION_UNKNOWN_ERR, rsp, w)
      | Some location_json \<Rightarrow> do {
          let info = cJSON_GetObjectItem (Some location_json) ''info'';
          let result = cJSON_GetObjectItem (Some location_json) ''result'';
          status \<leftarrow> cJSON_GetObjectItem (Some location_json) ''status'';
          s \<leftarrow> valuestring status;
          (if CHR ''1'' \<in> set s \<and> result \<noteq> None then
            (case cJSON_GetObjectItem result ''location'' of
               None \<Rightarrow> do { ev \<leftarrow> amapv1_refused info; Some (ev, rsp, w) }
             | Some location_vue \<Rightarrow> do {
                 loc \<leftarrow> valuestring location_vue;
                 (case split_comma loc of
                    None \<Rightarrow> do {
                      i \<leftarrow> info;
                      code \<leftarrow> valuestring i;
                      Some (if code \<noteq> ''OK'' then amap_info_event code else AMAP_LOCATION_UNKNOWN_ERR,
                            rsp, w) }
                  | Some lonlat \<Rightarrow>
                      (case amap_put_location lonlat rsp w of (ok, rsp1, w1) \<Rightarrow>
                         if \<not> ok then Some (AMAP_LOCATION_UNKNOWN_ERR, rsp1, w1)
                         else (case copy_members
                             [(cJSON_GetObjectItem result ''city'', \<lambda>v r. r\<lparr>am_city := v\<rparr>),
                              (cJSON_GetObjectItem result ''province'', \<lambda>v r. r\<lparr>am_province := v\<rparr>),
                              (cJSON_GetObjectItem result ''adcode'', \<lambda>v r. r\<lparr>am_adcode := v\<rparr>),
                              (cJSON_GetObjectItem result ''street'', \<lambda>v r. r\<lparr>am_street := v\<rparr>),
                              (cJSON_GetObjectItem result ''poi'', \<lambda>v r. r\<lparr>am_poi := v\<rparr>),
                              (cJSON_GetObjectItem result ''desc'', \<lambda>v r. r\<lparr>am_location_describe := v\<rparr>),
                              (cJSON_GetObjectItem result ''country'', \<lambda>v r. r\<lparr>am_country := v\<rparr>),
                              (cJSON_GetObjectItem result ''radius'', \<lambda>v r. r\<lparr>am_radius := v\<rparr>),
                              (cJSON_GetObjectItem result ''road'', \<lambda>v r. r\<lparr>am_road := v\<rparr>),
                              (cJSON_GetObjectItem result ''citycode'', \<lambda>v r. r\<lparr>am_citycode := v\<rparr>)]
                             rsp1 w1 of (copied, rsp2, w2) \<Rightarrow>
                           Some (if copied then AMAP_LOCATION_SUCCEED else AMAP_LOCATION_UNKNOWN_ERR,
                                 rsp2, w2)))) })
           else do { ev \<leftarrow> amapv1_refused info; Some (ev, rsp, w) }) })"

section \<open>The parser of version 2\<close>

definition amapv2_code :: "cJSON option \<Rightarrow> cm_lbs_amap_event_e option" where
  "amapv2_code info =
     (case info of
        None \<Rightarrow> Some AMAP_LOCATION_UNKNOWN_ERR
      | Some i \<Rightarrow> map_option cm_lbs_amap_rspcode_parse (valuestring i))"

definition amapv2_address :: "cJSON option \<Rightarrow> cm_lbs_amap_location_rsp_t \<Rightarrow> lbs_world
    \<Rightarrow> bool \<times> cm_lbs_amap_location_rsp_t \<times> lbs_world" where
  "amapv2_address addressComponent rsp w = copy_members
     [(cJSON_GetObjectItem addressComponent ''country'', \<lambda>v r. r\<lparr>am_country := v\<rparr>),
      (cJSON_GetObjectItem addressComponent ''province'', \<lambda>v r. r\<lparr>am_province := v\<rparr>),
      (cJSON_GetObjectItem addressComponent ''city'', \<lambda>v r. r\<lparr>am_city := v\<rparr>),
      (cJSON_GetObjectItem addressComponent ''district'', \<lambda>v r. r\<lparr>am_district := v\<rparr>),
      (cJSON_GetObjectItem addressComponent ''citycode'', \<lambda>v r. r\<lparr>am_citycode := v\<rparr>),
      (cJSON_GetObjectItem addressComponent ''adcode'', \<lambda>v r. r\<lparr>am_adcode := v\<rparr>),
      (cJSON_GetObjectItem addressComponent ''street'', \<lambda>v r. r\<lparr>am_street := v\<rparr>),
      (cJSON_GetObjectItem addressComponent ''road'', \<lambda>v r. r\<lparr>am_road := v\<rparr>),
      (cJSON_GetObjectItem addressComponent ''poi'', \<lambda>v r. r\<lparr>am_poi := v\<rparr>)] rsp w"

text \<open>The part of \<open>__cm_lbs_amapv2_parse\<close> behind the coordinates: the radius, the description and the
  members of the address; a missing description or address ends the parse with success.\<close>

definition amapv2_details :: "cJSON \<Rightarrow> cJSON \<Rightarrow> cm_lbs_amap_location_rsp_t \<Rightarrow> lbs_world
    \<Rightarrow> (cm_lbs_amap_event_e \<times> cm_lbs_amap_location_rsp_t \<times> lbs_world) option" where
  "amapv2_details location_json radius rsp w = do {
     radius_str \<leftarrow> fits 12 (dec_int (valueint radius));
     (case amap_copy_location_rsp (Some radius_str) w of ((copy_ret, v), w1) \<Rightarrow>
        let rsp1 = rsp\<lparr>am_radius := v\<rparr> in
        if copy_ret \<noteq> CM_LBS_OK then Some (AMAP_LOCATION_UNKNOWN_ERR, rsp1, w1)
        else (case cJSON_GetObjectItem (Some location_json) ''formatted_address'' of
            None \<Rightarrow> Some (AMAP_LOCATION_SUCCEED, rsp1, w1)
          | Some desc \<Rightarrow>
              (case amap_copy_location_rsp (valuestring desc) w1 of ((copy_ret2, v2), w2) \<Rightarrow>
                 let rsp2 = rsp1\<lparr>am_location_describe := v2\<rparr> in
                 if copy_ret2 \<noteq> CM_LBS_OK then Some (AMAP_LOCATION_UNKNOWN_ERR, rsp2, w2)
                 else (case cJSON_GetObjectItem (Some location_json) ''addressComponent'' of
                     None \<Rightarrow> Some (AMAP_LOCATION_SUCCEED, rsp2, w2)
                   | Some addressComponent \<Rightarrow>
                       (case amapv2_address (Some addressComponent) rsp2 w2 of (copied, rsp3, w3) \<Rightarrow>
                          Some (if copied then AMAP_LOCATION_SUCCEED else AMAP_LOCATION_UNKNOWN_ERR,
                                rsp3, w3)))))) }"

definition amapv2_parse :: "(string \<Rightarrow> cJSON option) \<Rightarrow> cm_lbs_amap_location_rsp_t \<Rightarrow> string
    \<Rightarrow> lbs_world \<Rightarrow> (cm_lbs_amap_event_e \<times> cm_lbs_amap_location_rsp_t \<times> lbs_world) option" where
  "amapv2_parse parse rsp param w =
     (case parse param of
        None \<Rightarrow> Some (AMAP_LOCATION_UNKNOWN_ERR, rsp, w)
      | Some location_json \<Rightarrow>
          let status = cJSON_GetObjectItem (Some location_json) ''status'';
              info = cJSON_GetObjectItem (Some location_json) ''info'';
              infocode = cJSON_GetObjectItem (Some location_json) ''infocode'';
              position = cJSON_GetObjectItem (Some location_json) ''position''
          in if status = None \<or> info = None \<or> infocode = None \<or> position = None
             then do { ev \<leftarrow> amapv2_code info; Some (ev, rsp, w) }
             else (case (cJSON_GetObjectItem position ''location'', cJSON_GetObjectItem position ''radius'') of
                 (Some location_vue, Some radius) \<Rightarrow> do {
                   loc \<leftarrow> valuestring location_vue;
                   (case split_comma loc of
                      None \<Rightarrow> Some (AMAP_LOCATION_UNKNOWN_ERR, rsp, w)
                    | Some lonlat \<Rightarrow>
                        (case amap_put_location lonlat rsp w of (ok, rsp1, w1) \<Rightarrow>
                           if \<not> ok then Some (AMAP_LOCATION_UNKNOWN_ERR, rsp1, w1)
                           else amapv2_details location_json radius rsp1 w1)) }
               | _ \<Rightarrow> Some (AMAP_LOCATION_UNKNOWN_ERR, rsp, w)))"

section \<open>The parser of the platform\<close>

definition cm_lbs_amap_http_location_parse :: "(string \<Rightarrow> cJSON option) \<Rightarrow> platform_e
    \<Rightarrow> cm_lbs_amap_location_rsp_t option \<Rightarrow> string \<Rightarrow> lbs_world
    \<Rightarrow> (cm_lbs_amap_event_e \<times> cm_lbs_amap_location_rsp_t option \<times> lbs_world) option" where
  "cm_lbs_amap_http_location_parse parse pf rsp param w =
     (case rsp of
        None \<Rightarrow> Some (AMAP_LOCATION_FAIL, None, w)
      | Some r \<Rightarrow>
          if pf = CM_LBS_PLAT_AMAP10 then do {
            (ev, r1, w1) \<leftarrow> amapv1_parse parse r param w; Some (ev, Some r1, w1) }
          else if pf = CM_LBS_PLAT_AMAP20 then do {
            (ev, r1, w1) \<leftarrow> amapv2_parse parse r param w; Some (ev, Some r1, w1) }
          else Some (AMAP_LOCATION_FAIL, Some r, w))"

end
