(* ===== verification/AmapRequest.thy ===== *)
theory AmapRequest
  imports AmapParse
begin

text \<open>
  The requests to the AMAP service, \<^verbatim>\<open>cm_lbs/cm_lbs/src/cm_lbs_amap.c\<close>: the path with the parameters of
  both versions and their digital signature. Every write past a buffer is a fault.
\<close>

section \<open>Constants\<close>

definition CM_AMAP_HTTPPATH_LENMAX :: nat where "CM_AMAP_HTTPPATH_LENMAX = 1024"

definition CM_LBS_AMAPV1_URL :: string where "CM_LBS_AMAPV1_URL = ''http://apilocate.amap.com''"
definition CM_LBS_AMAPV2_URL :: string where "CM_LBS_AMAPV2_URL = ''http://restapi.amap.com''"
definition CM_LBS_AMAPV1_PATH :: string where "CM_LBS_AMAPV1_PATH = ''/position?''"
definition CM_LBS_AMAPV2_PATH :: string where "CM_LBS_AMAPV2_PATH = ''/v5/position/IoT?''"

section \<open>Appending to a buffer\<close>

text \<open>A run of \<open>strcat\<close> into a buffer of \<open>n\<close> bytes that holds the string \<open>s\<close>.\<close>

fun strcats :: "nat \<Rightarrow> string list \<Rightarrow> string \<Rightarrow> string option" where
  "strcats n [] s = Some s"
| "strcats n (v # vs) s = do { t \<leftarrow> fits n (s @ v); strcats n vs t }"

text \<open>A parameter that is only appended when its pointer is not null.\<close>

definition optional_param :: "string \<Rightarrow> string option \<Rightarrow> string list" where
  "optional_param name v = (case v of None \<Rightarrow> [] | Some s \<Rightarrow> [name, s])"

section \<open>The digital signature\<close>

text \<open>\<open>__cm_amap_digital_signature\<close>: the array \<open>sign\<close> afterwards gets the MD5 of the parameters and the
  key in lower-case hexadecimal. The digest is computed in place, over the buffer it reads. A null key
  is a fault.\<close>

definition amap_digital_signature :: "(bytes \<Rightarrow> bytes) \<Rightarrow> string \<Rightarrow> bytes option \<Rightarrow> bytes
    \<Rightarrow> lbs_world \<Rightarrow> ((int \<times> bytes) \<times> lbs_world) option" where
  "amap_digital_signature md5 requst_param sign_key sign w =
     (case env_malloc w of (ok, w1) \<Rightarrow>
        if \<not> ok then Some ((-1, sign), w1)
        else do {
          t1 \<leftarrow> arr_cat requst_param (replicate CM_AMAP_HTTPPATH_LENMAX NUL);
          k \<leftarrow> sign_key;
          key \<leftarrow> c_str k;
          temp_buf \<leftarrow> arr_cat key t1;
          (temp_buf', sign') \<leftarrow> cm_lbs_md5 md5 temp_buf sign;
          s \<leftarrow> c_str sign';
          Some ((0, map tolower s @ drop (length s) sign'), w1) })"

text \<open>Both paths end the same way: the signature covers everything behind the head of the path.\<close>

definition amap_sign_path :: "(bytes \<Rightarrow> bytes) \<Rightarrow> string \<Rightarrow> cm_amap_authentication_t \<Rightarrow> string
    \<Rightarrow> lbs_world \<Rightarrow> ((int \<times> string) \<times> lbs_world) option" where
  "amap_sign_path md5 head auth http_path w =
     (if au_digital_sign_enable auth \<noteq> 0 then do {
        ((ret, sign_md5), w1) \<leftarrow> amap_digital_signature md5 (drop (length head) http_path)
            (au_digital_sign_key auth) (replicate 64 NUL) w;
        (if ret = 0 then do {
           sig \<leftarrow> c_str sign_md5;
           p \<leftarrow> strcats CM_AMAP_HTTPPATH_LENMAX [''&sig='', sig] http_path;
           Some ((int (length p), p), w1) }
         else Some ((int (length http_path), http_path), w1)) }
      else Some ((int (length http_path), http_path), w))"

section \<open>The two versions of the path\<close>

definition amapv1_bts :: "cm_service_cell_info_t \<Rightarrow> string option" where
  "amapv1_bts ci = do {
     lac \<leftarrow> c_str (ci_lac ci);
     cellid \<leftarrow> c_str (ci_cellid ci);
     fits 64 (''&bts='' @ dec_int (sint (ci_mcc ci)) @ '','' @ dec_int (sint (ci_mnc ci)) @ '','' @ lac
       @ '','' @ cellid @ '','' @ dec_int (sint (ci_signal ci))) }"

definition amapv1_create_requst_HttpPath :: "(bytes \<Rightarrow> bytes) \<Rightarrow> string \<Rightarrow> cm_amap_ue_info_t
    \<Rightarrow> cm_amap_authentication_t \<Rightarrow> lbs_world \<Rightarrow> ((int \<times> string) \<times> lbs_world) option" where
  "amapv1_create_requst_HttpPath md5 http_path ue_info auth w = do {
     bts \<leftarrow> amapv1_bts (ue_cell_info ue_info);
     imei \<leftarrow> c_str (ue_imei ue_info);
     k \<leftarrow> au_apikey auth;
     key \<leftarrow> c_str k;
     p \<leftarrow> strcats CM_AMAP_HTTPPATH_LENMAX
       ([CM_LBS_AMAPV1_PATH, ''accesstype=0'', bts, ''&cdma=0'', ''&imei='', imei, ''&key='', key]
        @ optional_param ''&nearbts='' (ue_nearbts ue_info)
        @ optional_param ''&network='' (ue_network_type ue_info)
        @ [''&output=json'']
        @ optional_param ''&serverip='' (ue_server_ip ue_info)) http_path;
     amap_sign_path md5 CM_LBS_AMAPV1_PATH auth p w }"

text \<open>\<open>__amav2deal_nearbts_create\<close>: a freshness of 5 behind every neighbouring cell. The block has 64
  bytes more than the text, which is enough for thirty separators.\<close>

fun nearbts_loop :: "string \<Rightarrow> string" where
  "nearbts_loop [] = []"
| "nearbts_loop (c # cs) = (if c = CHR ''|'' then '',5'' @ c # nearbts_loop cs else c # nearbts_loop cs)"

definition amav2deal_nearbts_create :: "string option \<Rightarrow> lbs_world
    \<Rightarrow> (string option \<times> lbs_world) option" where
  "amav2deal_nearbts_create near_bts w =
     (case near_bts of
        None \<Rightarrow> Some (None, w)
      | Some nb \<Rightarrow>
          if length nb \<le> 5 then Some (None, w)
          else (case env_malloc w of (ok, w1) \<Rightarrow>
            if \<not> ok then Some (None, w1)
            else do {
              ret \<leftarrow> fits (length nb + 64) (nearbts_loop nb @ '',5'');
              Some (Some ret, w1) }))"

definition amapv2_bts :: "cm_amap_ue_info_t \<Rightarrow> string option" where
  "amapv2_bts ue = do {
     lac \<leftarrow> c_str (ci_lac (ue_cell_info ue));
     cellid \<leftarrow> c_str (ci_cellid (ue_cell_info ue));
     fits 64 (''&bts='' @ dec_int (sint (ci_mcc (ue_cell_info ue))) @ '',''
       @ dec_int (sint (ci_mnc (ue_cell_info ue))) @ '','' @ lac @ '','' @ cellid @ '',''
       @ dec_int (sint (ci_signal (ue_cell_info ue))) @ '','' @ dec_int (sint (ue_cage ue))) }"

definition amapv2_create_requst_HttpPath :: "(bytes \<Rightarrow> bytes) \<Rightarrow> string \<Rightarrow> cm_amap_ue_info_t
    \<Rightarrow> cm_amap_authentication_t \<Rightarrow> lbs_world \<Rightarrow> ((int \<times> string) \<times> lbs_world) option" where
  "amapv2_create_requst_HttpPath md5 http_path ue_info auth w = do {
     bts \<leftarrow> amapv2_bts ue_info;
     imei \<leftarrow> c_str (ue_imei ue_info);
     k \<leftarrow> au_apikey auth;
     key \<leftarrow> c_str k;
     (near, w1) \<leftarrow> amav2deal_nearbts_create (ue_nearbts ue_info) w;
     p \<leftarrow> strcats CM_AMAP_HTTPPATH_LENMAX
       ([CM_LBS_AMAPV2_PATH, ''accesstype=0'', bts, ''&cdma=0'', ''&imei='', imei, ''&key='', key]
        @ optional_param ''&nearbts='' near
        @ optional_param ''&network='' (ue_network_type ue_info)
        @ [''&output=json'']
        @ optional_param ''&serverip='' (ue_server_ip ue_info)
        @ (if au_show_fields_enable auth = 1
           then [''&show_fields=formatted_address,addressComponent''] else [])) http_path;
     amap_sign_path md5 CM_LBS_AMAPV2_PATH auth p w1 }"

text \<open>\<open>__cm_amap_create_requst_HttpPath\<close>: another platform leaves the path empty and returns -1.\<close>

definition amap_create_requst_HttpPath :: "(bytes \<Rightarrow> bytes) \<Rightarrow> string \<Rightarrow> cm_amap_ue_info_t
    \<Rightarrow> cm_amap_authentication_t \<Rightarrow> lbs_world \<Rightarrow> ((int \<times> string) \<times> lbs_world) option" where
  "amap_create_requst_HttpPath md5 http_path ueinfo auth w =
     (if au_platform auth = CM_LBS_PLAT_AMAP10 then amapv1_create_requst_HttpPath md5 http_path ueinfo auth w
      else if au_platform auth = CM_LBS_PLAT_AMAP20 then amapv2_create_requst_HttpPath md5 http_path ueinfo auth w
      else Some ((-1, http_path), w))"

section \<open>Facts about the buffers\<close>

lemma strcats_eq:
  "length s < n \<Longrightarrow> strcats n vs s = (if length (s @ concat vs) < n then Some (s @ concat vs) else None)"
  by (induction vs arbitrary: s) (auto simp: fits_def)

lemma length_nearbts_loop: "length (nearbts_loop s) = length s + 2 * count_list s (CHR ''|'')"
  by (induction s) simp_all

end
