(* ===== verification/Curl.thy ===== *)
theory Curl
  imports LbsTask
begin

text \<open>
  What the platforms rely on in libcurl: easy handles that are created, used and cleaned up, a multi
  handle, and calls that succeed or not as the list \<open>w_curl\<close> says. Using an easy handle after its
  cleanup is a fault; the calls reject null handles. Also the events of an HTTP client, and the values
  the two platforms read from variables they never set.
\<close>

section \<open>Handles\<close>

definition curl_easy_init :: "lbs_world \<Rightarrow> nat option \<times> lbs_world" where
  "curl_easy_init w = (case next_answer (w_curl w) of (ok, r) \<Rightarrow>
     if ok then (Some (w_next w), w\<lparr>w_curl := r, w_handles := insert (w_next w) (w_handles w),
                                   w_next := Suc (w_next w)\<rparr>)
     else (None, w\<lparr>w_curl := r\<rparr>))"

definition curl_multi_init :: "lbs_world \<Rightarrow> bool \<times> lbs_world" where
  "curl_multi_init w = (case next_answer (w_curl w) of (ok, r) \<Rightarrow> (ok, w\<lparr>w_curl := r\<rparr>))"

definition curl_easy_setopt :: "nat option \<Rightarrow> lbs_world \<Rightarrow> lbs_world option" where
  "curl_easy_setopt h w =
     (case h of None \<Rightarrow> Some w | Some i \<Rightarrow> if i \<in> w_handles w then Some w else None)"

definition curl_multi_add_handle :: "bool \<Rightarrow> nat option \<Rightarrow> lbs_world \<Rightarrow> (bool \<times> lbs_world) option" where
  "curl_multi_add_handle multi h w =
     (case h of
        None \<Rightarrow> Some (False, w)
      | Some i \<Rightarrow>
          if i \<notin> w_handles w then None
          else if \<not> multi then Some (False, w)
          else (case next_answer (w_curl w) of (ok, r) \<Rightarrow> Some (ok, w\<lparr>w_curl := r\<rparr>)))"

definition curl_multi_perform :: "bool \<Rightarrow> lbs_world \<Rightarrow> bool \<times> lbs_world" where
  "curl_multi_perform multi w =
     (if \<not> multi then (False, w)
      else (case next_answer (w_curl w) of (ok, r) \<Rightarrow> (ok, w\<lparr>w_curl := r\<rparr>)))"

text \<open>\<open>curl_multi_remove_handle\<close> and \<open>curl_easy_cleanup\<close>.\<close>

definition curl_easy_cleanup :: "nat option \<Rightarrow> lbs_world \<Rightarrow> lbs_world option" where
  "curl_easy_cleanup h w =
     (case h of
        None \<Rightarrow> Some w
      | Some i \<Rightarrow> if i \<in> w_handles w then Some (w\<lparr>w_handles := w_handles w - {i}\<rparr>) else None)"

section \<open>Events of the HTTP client\<close>

text \<open>The events of \<open>cm_httpclient_callback_event_e\<close> with the data their parameter points to: the
  error, the response code, and the text of the response (\<open>None\<close> when the pointer is not to a string).\<close>

datatype cm_httpclient_error_event_e =
    CM_HTTP_EVENT_CODE_DNS_FAIL | CM_HTTP_EVENT_CODE_CONNECT_FAIL | CM_HTTP_EVENT_CODE_CONNECT_TIMEOUT
  | CM_HTTP_EVENT_CODE_SSL_CONNECT_FAIL | CM_HTTP_EVENT_CODE_CONNECT_BREAK
  | CM_HTTP_EVENT_CODE_WAITRSP_TIMEOUT | CM_HTTP_EVENT_CODE_DATA_PARSE_FAIL
  | CM_HTTP_EVENT_CODE_CACHR_NOT_ENOUGH | CM_HTTP_EVENT_CODE_DATA_DROP
  | CM_HTTP_EVENT_CODE_WRITE_FILE_FAIL | CM_HTTP_EVENT_CODE_UNKNOWN

datatype cm_httpclient_callback_event_e =
    CM_HTTP_CALLBACK_EVENT_REQ_START_SUCC_IND
  | CM_HTTP_CALLBACK_EVENT_ERROR_IND cm_httpclient_error_event_e
  | CM_HTTP_CALLBACK_EVENT_RSP_HEADER_IND nat
  | CM_HTTP_CALLBACK_EVENT_RSP_CONTENT_IND "string option"
  | CM_HTTP_CALLBACK_EVENT_RSP_END_IND

section \<open>Indeterminate values\<close>

text \<open>
  Both platforms use variables they never set: the AMAP request prints its URL to an uninitialised
  pointer and takes the response from another one; the OneOS request writes behind a string literal and
  reads the response from a block nobody fills. This is undefined behaviour; the model takes what the
  variables happen to hold as an argument, so that the code behind such a use can be stated too: the
  bytes that may be written through the URL pointer, whether the byte behind the literal may be
  written, and the string at the response pointer. No value at all is a fault.
\<close>

record indet =
  url_room :: nat
  literal_writable :: bool
  response_text :: "string option"

end
