(* ===== verification/AmapLocation.thy ===== *)
theory AmapLocation
  imports AmapRequest Curl
begin

text \<open>
  The AMAP platform as a whole, \<^verbatim>\<open>cm_lbs/cm_lbs/src/cm_lbs_amap.c\<close>: the client and its copies, the
  results and attributes it remembers, the HTTP request, the events of the HTTP client, and
  \<open>cm_amap_location\<close>. The callback of the session is the argument \<open>cbf\<close>, the JSON parser \<open>parse\<close>, the
  digest \<open>md5\<close>.
\<close>

type_synonym amap_cb = "cm_lbs_amap_event_e \<Rightarrow> cm_lbs_amap_location_rsp_t option
    \<Rightarrow> cm_lbs_callback_msg_t option \<Rightarrow> lbs_world \<Rightarrow> lbs_world option"

definition set_amap :: "(amap_static \<Rightarrow> amap_static) \<Rightarrow> lbs_world \<Rightarrow> lbs_world" where
  "set_amap f w = w\<lparr>w_amapst := f (w_amapst w)\<rparr>"

section \<open>The client\<close>

text \<open>\<open>__cm_amap_copy_ueinfo\<close>: the gateway address and the network type are stored in \<open>nearbts\<close>. A
  failed allocation ends the copy.\<close>

definition amap_copy_ueinfo :: "cm_amap_ue_info_t \<Rightarrow> lbs_world \<Rightarrow> cm_amap_ue_info_t \<times> lbs_world" where
  "amap_copy_ueinfo src w =
     (let copy = (\<lambda>v des w k. case v of
            None \<Rightarrow> k des w
          | Some s \<Rightarrow> (case env_malloc w of (ok, w1) \<Rightarrow>
              if ok then k (des\<lparr>ue_nearbts := Some s\<rparr>) w1 else (des, w1)))
      in copy (ue_nearbts src) src w (\<lambda>des1 w1.
         copy (ue_server_ip src) des1 w1 (\<lambda>des2 w2.
         copy (ue_network_type src) des2 w2 (\<lambda>des3 w3. (des3, w3)))))"

text \<open>\<open>__cm_amap_copy_auth\<close>: the copy and which of its keys are its own. Without memory it keeps the
  pointers of the source.\<close>

definition amap_copy_auth :: "cm_amap_authentication_t \<Rightarrow> lbs_world
    \<Rightarrow> ((cm_amap_authentication_t \<times> bool \<times> bool) \<times> lbs_world) option" where
  "amap_copy_auth src w = do {
     (ok, k, w1) \<leftarrow> (case au_apikey src of
         None \<Rightarrow> Some (True, None, w)
       | Some a \<Rightarrow> do { s \<leftarrow> c_str a; (case env_malloc w of (ok, w1) \<Rightarrow>
           Some (ok, if ok then Some (s @ [NUL]) else Some a, w1)) });
     (if \<not> ok then Some ((src, False, False), w1)
      else (case au_digital_sign_key src of
          None \<Rightarrow> Some ((src\<lparr>au_apikey := k\<rparr>, True, True), w1)
        | Some d \<Rightarrow> do { s \<leftarrow> c_str d; (case env_malloc w1 of (ok2, w2) \<Rightarrow>
            Some ((if ok2 then src\<lparr>au_apikey := k, au_digital_sign_key := Some (s @ [NUL])\<rparr>
                   else src\<lparr>au_apikey := k\<rparr>, True, ok2), w2)) })) }"

definition amap_create_by_attr :: "cm_amap_ue_info_t option \<Rightarrow> cm_amap_t \<Rightarrow> lbs_world
    \<Rightarrow> (cm_amap_client option \<times> lbs_world) option" where
  "amap_create_by_attr ueinfo attr w =
     (case ueinfo of
        None \<Rightarrow> Some (None, w)
      | Some ue \<Rightarrow>
          (case env_malloc w of (ok1, w1) \<Rightarrow>
             if \<not> ok1 then Some (None, w1)
             else (case env_malloc w1 of (ok2, w2) \<Rightarrow>
               if \<not> ok2 then Some (None, w2)
               else (case env_malloc w2 of (ok3, w3) \<Rightarrow>
                 if \<not> ok3 then Some (None, w3)
                 else (case amap_copy_ueinfo ue w3 of (u, w4) \<Rightarrow> do {
                   ((au, own_key, own_sign), w5) \<leftarrow> amap_copy_auth (am_auth attr) w4;
                   Some (Some \<lparr>cl_http_client = s_amap_curl_handle (w_amapst w5), cl_busy = False,
                     cl_ueinfo = u, cl_auth = au, cl_own_apikey = own_key,
                     cl_own_sign_key = own_sign, cl_cb_arg = am_cb_arg attr\<rparr>, w5) })))))"

text \<open>\<open>__cm_amap_delete\<close> on the client, with \<open>__cm_amap_free_auth\<close>. A key that is the session's own is
  freed here and again with the session: a fault.\<close>

definition amap_free_auth :: "cm_amap_client \<Rightarrow> unit option" where
  "amap_free_auth c =
     (if (au_apikey (cl_auth c) \<noteq> None \<and> \<not> cl_own_apikey c)
         \<or> (au_digital_sign_key (cl_auth c) \<noteq> None \<and> \<not> cl_own_sign_key c) then None else Some ())"

definition amap_delete :: "lbs_world \<Rightarrow> lbs_world option" where
  "amap_delete w =
     (case s_amap_client (w_amapst w) of
        None \<Rightarrow> Some w
      | Some c \<Rightarrow> do {
          _ \<leftarrow> amap_free_auth c;
          Some (set_amap (\<lambda>s. s\<lparr>s_amap_client := None\<rparr>) w) })"

definition amap_state_busy :: "lbs_world \<Rightarrow> bool" where
  "amap_state_busy w = (case s_amap_client (w_amapst w) of None \<Rightarrow> False | Some c \<Rightarrow> cl_busy c)"

section \<open>Remembered results\<close>

text \<open>The ten copies that the backup and the reuse of a result make; a text that cannot be copied is
  left out. The district, the street and the road are not among them.\<close>

definition amap_copy_rsp :: "cm_lbs_amap_location_rsp_t \<Rightarrow> lbs_world
    \<Rightarrow> cm_lbs_amap_location_rsp_t \<times> lbs_world" where
  "amap_copy_rsp old w =
     (case amap_copy_location_rsp (am_longitude old) w of ((_, lon), w1) \<Rightarrow>
      case amap_copy_location_rsp (am_latitude old) w1 of ((_, lat), w2) \<Rightarrow>
      case amap_copy_location_rsp (am_radius old) w2 of ((_, rad), w3) \<Rightarrow>
      case amap_copy_location_rsp (am_country old) w3 of ((_, cou), w4) \<Rightarrow>
      case amap_copy_location_rsp (am_province old) w4 of ((_, pro), w5) \<Rightarrow>
      case amap_copy_location_rsp (am_city old) w5 of ((_, cit), w6) \<Rightarrow>
      case amap_copy_location_rsp (am_citycode old) w6 of ((_, cco), w7) \<Rightarrow>
      case amap_copy_location_rsp (am_adcode old) w7 of ((_, adc), w8) \<Rightarrow>
      case amap_copy_location_rsp (am_poi old) w8 of ((_, po), w9) \<Rightarrow>
      case amap_copy_location_rsp (am_location_describe old) w9 of ((_, des), w10) \<Rightarrow>
        (zero_amap_rsp\<lparr>am_event := am_event old, am_longitude := lon, am_latitude := lat,
           am_radius := rad, am_country := cou, am_province := pro, am_city := cit,
           am_citycode := cco, am_adcode := adc, am_poi := po, am_location_describe := des\<rparr>, w10))"

text \<open>\<open>__cm_lbs_amap_rsp_backup\<close>.\<close>

definition amap_rsp_backup :: "cm_lbs_amap_location_rsp_t \<Rightarrow> lbs_world \<Rightarrow> lbs_world" where
  "amap_rsp_backup location_rsp w =
     (if am_event location_rsp \<noteq> AMAP_LOCATION_SUCCEED
      then set_amap (\<lambda>s. s\<lparr>s_amap_location_rsp := None\<rparr>) w
      else (case env_malloc w of (ok, w1) \<Rightarrow>
        if \<not> ok then w1
        else (case amap_copy_rsp location_rsp w1 of (rsp, w2) \<Rightarrow>
          set_amap (\<lambda>s. s\<lparr>s_amap_location_rsp := Some rsp, s_amap_rsp_time := w_time w2\<rparr>) w2)))"

definition CM_LBS_AMAP_LOCATION_RSP_VALID_TIME :: int where
  "CM_LBS_AMAP_LOCATION_RSP_VALID_TIME = 2 * 60 * 60"

text \<open>\<open>__cm_amap_return_last_location\<close>: the remembered result, when it is at most two hours old and its
  coordinates are longer than six characters. A result without coordinates is a fault.\<close>

definition amap_return_last_location :: "amap_cb option \<Rightarrow> cm_amap_t \<Rightarrow> lbs_world
    \<Rightarrow> (cm_lbs_state_e \<times> lbs_world) option" where
  "amap_return_last_location cbf attr w =
     (case s_amap_location_rsp (w_amapst w) of
        None \<Rightarrow> Some (CM_LBS_ERR, w)
      | Some old_rsp \<Rightarrow>
          (let time_dif = w_time w - s_amap_rsp_time (w_amapst w) in
           if sint time_dif < 0 \<or> sint time_dif > CM_LBS_AMAP_LOCATION_RSP_VALID_TIME
           then Some (CM_LBS_ERR, w)
           else (case cbf of
              None \<Rightarrow> Some (CM_LBS_ERR, w)
            | Some f \<Rightarrow>
                (case env_malloc w of (ok, w1) \<Rightarrow>
                   if \<not> ok then Some (CM_LBS_ERR, w1)
                   else (case amap_copy_rsp old_rsp w1 of (rsp, w2) \<Rightarrow> do {
                     lon \<leftarrow> am_longitude rsp;
                     long_enough \<leftarrow> (if length lon > 6
                        then map_option (\<lambda>lat. length lat > 6) (am_latitude rsp) else Some False);
                     (if long_enough then do {
                        w3 \<leftarrow> f AMAP_LOCATION_SUCCEED (Some rsp) (am_cb_arg attr) w2;
                        Some (CM_LBS_OK, w3) }
                      else Some (CM_LBS_ERR, w2)) })))))"

section \<open>Remembered attributes\<close>

text \<open>\<open>__cm_amap_ueinfo_compare\<close>; the remembered block may be freed, a fault.\<close>

definition amap_ueinfo_compare :: "cm_amap_ue_info_t option \<Rightarrow> lbs_world \<Rightarrow> cm_lbs_state_e option" where
  "amap_ueinfo_compare new_ue w =
     (case (s_ue_info_last (w_amapst w), new_ue) of
        (Some old, Some new) \<Rightarrow>
          if \<not> ue_last_live (w_amapst w) then None
          else do {
            oi \<leftarrow> c_str (ue_imei old); ni \<leftarrow> c_str (ue_imei new);
            (if oi \<noteq> ni then Some CM_LBS_ERR else do {
            os \<leftarrow> c_str (ue_imsi old); ns \<leftarrow> c_str (ue_imsi new);
            (if os \<noteq> ns then Some CM_LBS_ERR else do {
            ol \<leftarrow> c_str (ci_lac (ue_cell_info old)); nl \<leftarrow> c_str (ci_lac (ue_cell_info new));
            (if ol \<noteq> nl then Some CM_LBS_ERR else do {
            oc \<leftarrow> c_str (ci_cellid (ue_cell_info old)); nc \<leftarrow> c_str (ci_cellid (ue_cell_info new));
            Some (if oc = nc \<and> ue_nearbts old = ue_nearbts new
                \<and> ci_mcc (ue_cell_info old) = ci_mcc (ue_cell_info new)
                \<and> ci_mnc (ue_cell_info old) = ci_mnc (ue_cell_info new)
                \<and> ci_signal (ue_cell_info old) = ci_signal (ue_cell_info new)
              then CM_LBS_OK else CM_LBS_ERR) }) }) }) }
      | _ \<Rightarrow> Some CM_LBS_ERR)"

text \<open>\<open>__cm_amap_backup_ueinfo\<close>: when the copy cannot be allocated the freed block stays remembered, and
  a later backup frees it again.\<close>

definition amap_backup_ueinfo :: "cm_amap_ue_info_t \<Rightarrow> lbs_world \<Rightarrow> lbs_world option" where
  "amap_backup_ueinfo new_ue w =
     (if s_ue_info_last (w_amapst w) \<noteq> None \<and> \<not> ue_last_live (w_amapst w) then None
      else (let w0 = set_amap (\<lambda>s. s\<lparr>ue_last_live := False\<rparr>) w in
        case env_malloc w0 of (ok, w1) \<Rightarrow>
          if \<not> ok then Some w1
          else (case amap_copy_ueinfo new_ue w1 of (u, w2) \<Rightarrow>
            Some (set_amap (\<lambda>s. s\<lparr>s_ue_info_last := Some u, ue_last_live := True\<rparr>) w2))))"

text \<open>A null key leaves what is remembered of it alone.\<close>

definition opt_c_str :: "bytes option \<Rightarrow> string option option" where
  "opt_c_str a = (case a of None \<Rightarrow> Some None | Some b \<Rightarrow> map_option Some (c_str b))"

definition amap_backup_lastkey :: "bytes option \<Rightarrow> bytes option \<Rightarrow> u32 \<Rightarrow> u32 \<Rightarrow> lbs_world
    \<Rightarrow> lbs_world option" where
  "amap_backup_lastkey last_key last_signkey show_fields last_signen w = do {
     let w0 = set_amap (\<lambda>s. s\<lparr>s_signen := last_signen, s_show_fields_enable := show_fields\<rparr>) w;
     key \<leftarrow> opt_c_str last_key;
     (case (case key of
          None \<Rightarrow> (True, w0)
        | Some k \<Rightarrow> (case env_malloc w0 of (ok, w1) \<Rightarrow>
            (ok, set_amap (\<lambda>s. s\<lparr>s_amap_last_key := if ok then Some k else None\<rparr>) w1))) of (ok, w1) \<Rightarrow>
        if \<not> ok then Some w1
        else do {
          signkey \<leftarrow> opt_c_str last_signkey;
          (case signkey of
             None \<Rightarrow> Some w1
           | Some k \<Rightarrow> (case env_malloc w1 of (ok2, w2) \<Rightarrow>
               Some (set_amap (\<lambda>s. s\<lparr>s_amap_last_signkey := if ok2 then Some k else None\<rparr>) w2))) }) }"

definition amap_compare_lastkey :: "bytes option \<Rightarrow> bytes option \<Rightarrow> u32 \<Rightarrow> u32 \<Rightarrow> lbs_world
    \<Rightarrow> cm_lbs_state_e option" where
  "amap_compare_lastkey last_key last_signkey show_fields sign_en w = do {
     key \<leftarrow> opt_c_str last_key;
     (if key \<noteq> s_amap_last_key (w_amapst w) then Some CM_LBS_ERR
      else do {
        signkey \<leftarrow> opt_c_str last_signkey;
        Some (if signkey \<noteq> s_amap_last_signkey (w_amapst w)
                \<or> s_show_fields_enable (w_amapst w) \<noteq> show_fields
                \<or> s_signen (w_amapst w) \<noteq> sign_en
              then CM_LBS_ERR else CM_LBS_OK) }) }"

section \<open>Events of the HTTP client\<close>

text \<open>\<open>__cm_lbs_amap_http_release\<close> cleans the handle up; the static variable keeps pointing to it.\<close>

definition amap_http_release :: "lbs_world \<Rightarrow> lbs_world option" where
  "amap_http_release w = curl_easy_cleanup (s_amap_curl_handle (w_amapst w)) w"

text \<open>The branch of \<open>cm_lbs_http_callback\<close> for a response: parsed, remembered and reported, once per
  request (\<open>callback_state\<close>).\<close>

definition amap_http_content :: "(string \<Rightarrow> cJSON option) \<Rightarrow> amap_cb \<Rightarrow> cm_amap_client \<Rightarrow> string option
    \<Rightarrow> lbs_world \<Rightarrow> lbs_world option" where
  "amap_http_content parse cbf client content w =
     (if amap_callback_state (w_amapst w) = 2 then Some w
      else (case env_malloc (set_amap (\<lambda>s. s\<lparr>amap_callback_state := 2\<rparr>) w) of (ok, w1) \<Rightarrow>
        if \<not> ok then cbf AMAP_LOCATION_UNKNOWN_ERR None (cl_cb_arg client) w1
        else do {
          text \<leftarrow> content;
          (ev, rsp, w2) \<leftarrow> cm_lbs_amap_http_location_parse parse (au_platform (cl_auth client))
             (Some zero_amap_rsp) text w1;
          r \<leftarrow> rsp;
          let location_rsp = r\<lparr>am_event := ev\<rparr>;
          cbf ev (Some location_rsp) (cl_cb_arg client) (amap_rsp_backup location_rsp w2) }))"

text \<open>\<open>cm_lbs_http_callback\<close>: without a client it is a fault, and events of another handle are ignored.\<close>

definition amap_http_callback :: "(string \<Rightarrow> cJSON option) \<Rightarrow> amap_cb \<Rightarrow> nat option
    \<Rightarrow> cm_httpclient_callback_event_e \<Rightarrow> lbs_world \<Rightarrow> lbs_world option" where
  "amap_http_callback parse cbf client_handle event w = do {
     c \<leftarrow> s_amap_client (w_amapst w);
     (if client_handle \<noteq> cl_http_client c then Some w
      else (case event of
          CM_HTTP_CALLBACK_EVENT_REQ_START_SUCC_IND \<Rightarrow> Some w
        | CM_HTTP_CALLBACK_EVENT_ERROR_IND err_event \<Rightarrow> do {
            w1 \<leftarrow> cbf (if err_event = CM_HTTP_EVENT_CODE_CONNECT_TIMEOUT then AMAP_LOCATION_TIMEOUT
                     else AMAP_LOCATION_CONNECTFAILL) None (cl_cb_arg c) w;
            w2 \<leftarrow> amap_http_release w1;
            amap_delete w2 }
        | CM_HTTP_CALLBACK_EVENT_RSP_HEADER_IND response_code \<Rightarrow>
            if response_code \<noteq> 200 then cbf AMAP_LOCATION_FAIL None (cl_cb_arg c) w else Some w
        | CM_HTTP_CALLBACK_EVENT_RSP_CONTENT_IND content \<Rightarrow> amap_http_content parse cbf c content w
        | CM_HTTP_CALLBACK_EVENT_RSP_END_IND \<Rightarrow> do {
            w1 \<leftarrow> amap_http_release w;
            w2 \<leftarrow> amap_delete w1;
            Some (set_amap (\<lambda>s. s\<lparr>amap_callback_state := 0\<rparr>) w2) })) }"

section \<open>The request\<close>

text \<open>Creating the handles on first use: \<open>s_amap_http_client\<close> is always null. Only if neither handle
  could be created is it an error.\<close>

definition amap_curl_open :: "lbs_world \<Rightarrow> bool \<times> lbs_world" where
  "amap_curl_open w =
     (if s_amap_curl_handle (w_amapst w) \<noteq> None then (True, w)
      else (case curl_easy_init w of (h, w1) \<Rightarrow>
            case curl_multi_init w1 of (m, w2) \<Rightarrow>
              (h \<noteq> None \<or> m,
               set_amap (\<lambda>s. s\<lparr>s_amap_curl_handle := h, s_amap_curl_multi_handle := m\<rparr>) w2)))"

text \<open>\<open>snprintf(curl_url, strlen(url) + strlen(path), "%s%s", url, path)\<close>: the limit includes the NUL, so
  the last character of the URL is cut off.\<close>

definition amap_print_url :: "nat \<Rightarrow> string \<Rightarrow> string \<Rightarrow> string option" where
  "amap_print_url room url path =
     (let size = length url + length path
      in if size > room then None else Some (take (size - 1) (url @ path)))"

text \<open>The transfer of \<open>__cm_amap_http_requst\<close>, with the response handed to the event function: the URL
  goes through a pointer that was never set and the response comes from another one (\<open>ind\<close>). The write
  function is only installed after the transfer.\<close>

definition amap_http_transfer :: "(string \<Rightarrow> cJSON option) \<Rightarrow> indet \<Rightarrow> amap_cb \<Rightarrow> cm_amap_client
    \<Rightarrow> string \<Rightarrow> lbs_world \<Rightarrow> (cm_lbs_state_e \<times> lbs_world) option" where
  "amap_http_transfer parse ind cbf c http_path w = do {
     let handle = s_amap_curl_handle (w_amapst w);
     let multi = s_amap_curl_multi_handle (w_amapst w);
     curl_url \<leftarrow> amap_print_url (url_room ind)
       (if au_platform (cl_auth c) = CM_LBS_PLAT_AMAP10 then CM_LBS_AMAPV1_URL
        else CM_LBS_AMAPV2_URL) http_path;
     w1 \<leftarrow> curl_easy_setopt handle
       (set_amap (\<lambda>s. s\<lparr>s_amap_client := Some (c\<lparr>cl_http_client := handle\<rparr>)\<rparr>) w);
     (added, w2) \<leftarrow> curl_multi_add_handle multi handle w1;
     (if \<not> added then Some (CM_LBS_ERR, w2)
      else (case curl_multi_perform multi w2 of (performed, w3) \<Rightarrow>
        if \<not> performed then Some (CM_LBS_ERR, w3)
        else do {
          w4 \<leftarrow> amap_http_callback parse cbf handle
            (CM_HTTP_CALLBACK_EVENT_RSP_CONTENT_IND (response_text ind))
            (w3\<lparr>w_sent := w_sent w3 @ [curl_url]\<rparr>);
          Some (CM_LBS_OK, w4) })) }"

definition amap_http_requst :: "(string \<Rightarrow> cJSON option) \<Rightarrow> (bytes \<Rightarrow> bytes) \<Rightarrow> indet \<Rightarrow> amap_cb
    \<Rightarrow> lbs_world \<Rightarrow> (cm_lbs_state_e \<times> lbs_world) option" where
  "amap_http_requst parse md5 ind cbf w =
     (case env_malloc w of (ok, w1) \<Rightarrow>
        if \<not> ok then Some (CM_LBS_MEMROYERR, w1)
        else do {
          c \<leftarrow> s_amap_client (w_amapst w1);
          ((http_len, http_path), w2) \<leftarrow> amap_create_requst_HttpPath md5 [] (cl_ueinfo c) (cl_auth c) w1;
          (if http_len < 0 then Some (CM_LBS_ERR, w2)
           else (case amap_curl_open w2 of (opened, w3) \<Rightarrow>
             if \<not> opened then Some (CM_LBS_ERR, w3)
             else amap_http_transfer parse ind cbf c http_path w3)) })"

section \<open>The location\<close>

text \<open>What \<open>cm_amap_location\<close> does when no remembered result was used.\<close>

definition amap_fresh_location :: "(string \<Rightarrow> cJSON option) \<Rightarrow> (bytes \<Rightarrow> bytes) \<Rightarrow> indet \<Rightarrow> amap_cb
    \<Rightarrow> cm_amap_ue_info_t option \<Rightarrow> cm_amap_t \<Rightarrow> lbs_world \<Rightarrow> (cm_lbs_state_e \<times> lbs_world) option" where
  "amap_fresh_location parse md5 ind cbf ueinfo attr w = do {
     (client, w1) \<leftarrow> amap_create_by_attr ueinfo attr w;
     (case client of
        None \<Rightarrow> Some (CM_LBS_PARAMERR, w1)
      | Some c \<Rightarrow> do {
          let au = am_auth attr;
          ue \<leftarrow> ueinfo;
          w2 \<leftarrow> amap_backup_lastkey (au_apikey au) (au_digital_sign_key au) (au_show_fields_enable au)
            (au_digital_sign_enable au)
            (set_amap (\<lambda>s. s\<lparr>s_amap_client := Some (c\<lparr>cl_busy := True\<rparr>)\<rparr>) w1);
          w3 \<leftarrow> amap_backup_ueinfo ue w2;
          (ret, w4) \<leftarrow> amap_http_requst parse md5 ind cbf w3;
          (if ret = CM_LBS_OK then Some (ret, w4)
           else do {
             w5 \<leftarrow> amap_http_release w4;
             w6 \<leftarrow> amap_delete w5;
             Some (ret, w6) }) }) }"

definition cm_amap_location :: "(string \<Rightarrow> cJSON option) \<Rightarrow> (bytes \<Rightarrow> bytes) \<Rightarrow> indet \<Rightarrow> amap_cb
    \<Rightarrow> cm_amap_ue_info_t option \<Rightarrow> cm_amap_t \<Rightarrow> lbs_world \<Rightarrow> (cm_lbs_state_e \<times> lbs_world) option" where
  "cm_amap_location parse md5 ind cbf ueinfo attr w =
     (if amap_state_busy w \<or> s_amap_client (w_amapst w) \<noteq> None then Some (CM_LBS_BUSY, w)
      else do {
        same_ueinfo \<leftarrow> amap_ueinfo_compare ueinfo w;
        same_keys \<leftarrow> (if same_ueinfo = CM_LBS_OK
          then (let au = am_auth attr in amap_compare_lastkey (au_apikey au) (au_digital_sign_key au)
            (au_show_fields_enable au) (au_digital_sign_enable au) w)
          else Some CM_LBS_ERR);
        (last, w1) \<leftarrow> (if same_keys = CM_LBS_OK then amap_return_last_location (Some cbf) attr w
          else Some (CM_LBS_ERR, w));
        (if last = CM_LBS_OK then Some (CM_LBS_OK, w1)
         else amap_fresh_location parse md5 ind cbf ueinfo attr w1) })"

end
