(* ===== verification/AmapFacts.thy ===== *)
theory AmapFacts
  imports AmapLocation
begin

text \<open>
  Facts about the AMAP platform: what its operations leave alone of the service, that its request keeps
  the contract of the task, and what the parsers promise.
\<close>

section \<open>The service is left alone\<close>

text \<open>A platform may use memory, libcurl and its own static variables; the rest of the state belongs to
  the service and to the other platform.\<close>

definition service_same :: "lbs_world \<Rightarrow> lbs_world \<Rightarrow> bool" where
  "service_same w w' \<longleftrightarrow> w_amap w' = w_amap w \<and> w_oneospos w' = w_oneospos w \<and> w_live w' = w_live w
     \<and> w_queun w' = w_queun w \<and> w_mq w' = w_mq w \<and> w_task w' = w_task w \<and> w_urc w' = w_urc w
     \<and> w_next w \<le> w_next w' \<and> w_oneosst w' = w_oneosst w"

lemma service_same_refl [simp]: "service_same w w"
  by (simp add: service_same_def)

lemma service_same_trans: "service_same u v \<Longrightarrow> service_same v w \<Longrightarrow> service_same u w"
  by (auto simp: service_same_def)

lemma service_same_inv: "service_same w w' \<Longrightarrow> lbs_inv w \<Longrightarrow> lbs_inv w'"
  unfolding service_same_def inv_defs by (auto split: option.splits)

lemma service_same_malloc: "env_malloc w = (ok, w') \<Longrightarrow> service_same w w'"
  using same_more [OF malloc_more, of w ok w'] by (simp add: service_same_def)

lemma service_same_set_amap [simp]:
  "service_same w (set_amap f w')= service_same w w'" "service_same (set_amap f w) w' = service_same w w'"
  by (simp_all add: service_same_def set_amap_def)

lemma service_same_sent [simp]: "service_same w (w'\<lparr>w_sent := x\<rparr>) = service_same w w'"
  by (simp add: service_same_def)

lemma more_service: "lbs_env.more w' = lbs_env.more w \<Longrightarrow> service_same w w'"
  using same_more [of w' w] by (simp add: service_same_def)

section \<open>Operations that only use memory\<close>

lemma copy_location_more:
  "amap_copy_location_rsp v w = (r, w') \<Longrightarrow> lbs_env.more w' = lbs_env.more w"
  by (auto simp: amap_copy_location_rsp_def dest!: malloc_more
      split: option.splits if_splits prod.splits)

lemma copy_members_more:
  "copy_members ms rsp w = (ok, r, w') \<Longrightarrow> lbs_env.more w' = lbs_env.more w"
proof (induction ms rsp w rule: copy_members.induct)
  case (3 item put ms rsp w)
  obtain st v w1 where c: "amap_copy_location_rsp (valuestring item) w = ((st, v), w1)"
    by (metis prod.exhaust)
  show ?case using 3 copy_location_more [OF c] c
    by (cases "st = CM_LBS_OK") auto
qed simp_all

lemma put_location_more:
  "amap_put_location p rsp w = (ok, r, w') \<Longrightarrow> lbs_env.more w' = lbs_env.more w"
  by (auto simp: amap_put_location_def Let_def dest!: malloc_more split: prod.splits if_splits)

lemma v1_more:
  "amapv1_parse parse rsp param w = Some (ev, r, w') \<Longrightarrow> lbs_env.more w' = lbs_env.more w"
  unfolding amapv1_parse_def Let_def
  by (auto dest!: copy_members_more put_location_more
      split: option.splits prod.splits if_splits bind_splits)

lemma details_more:
  "amapv2_details j radius rsp w = Some (ev, r, w') \<Longrightarrow> lbs_env.more w' = lbs_env.more w"
  unfolding amapv2_details_def amapv2_address_def Let_def
  by (auto dest!: copy_members_more copy_location_more
      split: option.splits prod.splits if_splits bind_splits)

lemma v2_more:
  "amapv2_parse parse rsp param w = Some (ev, r, w') \<Longrightarrow> lbs_env.more w' = lbs_env.more w"
  unfolding amapv2_parse_def Let_def
  by (auto dest!: details_more put_location_more
      split: option.splits prod.splits if_splits bind_splits)

lemma parse_more:
  "cm_lbs_amap_http_location_parse parse pf rsp param w = Some (ev, r, w')
    \<Longrightarrow> lbs_env.more w' = lbs_env.more w"
  unfolding cm_lbs_amap_http_location_parse_def
  by (auto dest!: v1_more v2_more split: option.splits if_splits bind_splits)

lemma signature_more:
  "amap_digital_signature md5 p k s w = Some (r, w') \<Longrightarrow> lbs_env.more w' = lbs_env.more w"
  unfolding amap_digital_signature_def
  by (auto dest!: malloc_more split: prod.splits if_splits bind_splits)

lemma sign_path_more:
  "amap_sign_path md5 h au p w = Some (r, w') \<Longrightarrow> lbs_env.more w' = lbs_env.more w"
  unfolding amap_sign_path_def
  by (auto dest!: signature_more split: prod.splits if_splits bind_splits)

lemma nearbts_more:
  "amav2deal_nearbts_create nb w = Some (r, w') \<Longrightarrow> lbs_env.more w' = lbs_env.more w"
  unfolding amav2deal_nearbts_create_def
  by (auto dest!: malloc_more split: option.splits prod.splits if_splits bind_splits)

lemma path_more:
  "amap_create_requst_HttpPath md5 p ue au w = Some (r, w') \<Longrightarrow> lbs_env.more w' = lbs_env.more w"
  unfolding amap_create_requst_HttpPath_def amapv1_create_requst_HttpPath_def
    amapv2_create_requst_HttpPath_def
  by (auto dest!: sign_path_more nearbts_more split: prod.splits if_splits bind_splits)

lemma copy_rsp_more:
  "amap_copy_rsp old w = (r, w') \<Longrightarrow> lbs_env.more w' = lbs_env.more w"
  unfolding amap_copy_rsp_def
  by (clarsimp split: prod.splits) (metis copy_location_more)

lemma copy_ueinfo_more:
  "amap_copy_ueinfo u w = (r, w') \<Longrightarrow> lbs_env.more w' = lbs_env.more w"
  unfolding amap_copy_ueinfo_def Let_def
  by (auto dest!: malloc_more split: option.splits prod.splits if_splits)

lemma copy_auth_more:
  "amap_copy_auth au w = Some (r, w') \<Longrightarrow> lbs_env.more w' = lbs_env.more w"
  unfolding amap_copy_auth_def
  by (auto dest!: malloc_more split: option.splits prod.splits if_splits bind_splits)

lemma create_more:
  "amap_create_by_attr ue attr w = Some (r, w') \<Longrightarrow> lbs_env.more w' = lbs_env.more w"
  unfolding amap_create_by_attr_def
  by (auto dest!: malloc_more copy_auth_more copy_ueinfo_more
      split: option.splits prod.splits if_splits bind_splits)

lemmas memory_service = more_service [OF parse_more] more_service [OF path_more]
  more_service [OF copy_rsp_more] more_service [OF copy_ueinfo_more] more_service [OF create_more]

section \<open>Operations on the static variables and on libcurl\<close>

lemma backup_same: "service_same w (amap_rsp_backup r w)"
  unfolding amap_rsp_backup_def
  by (auto dest!: memory_service(3) service_same_malloc intro: service_same_trans split: prod.splits)


lemma delete_same: "amap_delete w = Some w' \<Longrightarrow> service_same w w'"
  by (auto simp: amap_delete_def split: option.splits bind_splits)

lemma backup_ueinfo_same: "amap_backup_ueinfo ue w = Some w' \<Longrightarrow> service_same w w'"
  unfolding amap_backup_ueinfo_def Let_def
  by (auto dest!: service_same_malloc memory_service(4) intro: service_same_trans
      split: prod.splits if_splits)

lemma backup_lastkey_same:
  "amap_backup_lastkey k sk sf se w = Some w' \<Longrightarrow> service_same w w'"
  unfolding amap_backup_lastkey_def Let_def
  by (auto dest!: service_same_malloc intro: service_same_trans
      split: option.splits prod.splits if_splits bind_splits)

lemma curl_same:
  "curl_easy_init w = (h, w1) \<Longrightarrow> service_same w w1"
  "curl_multi_init w = (m, w1) \<Longrightarrow> service_same w w1"
  "curl_easy_setopt h w = Some w1 \<Longrightarrow> service_same w w1"
  "curl_multi_add_handle m h w = Some (b, w1) \<Longrightarrow> service_same w w1"
  "curl_multi_perform m w = (b, w1) \<Longrightarrow> service_same w w1"
  "curl_easy_cleanup h w = Some w1 \<Longrightarrow> service_same w w1"
  by (auto simp: curl_easy_init_def curl_multi_init_def curl_easy_setopt_def curl_multi_add_handle_def
      curl_multi_perform_def curl_easy_cleanup_def service_same_def next_answer_def
      split: option.splits prod.splits if_splits list.splits)

lemma curl_open_same: "amap_curl_open w = (b, w1) \<Longrightarrow> service_same w w1"
  unfolding amap_curl_open_def
  by (auto dest!: curl_same intro: service_same_trans split: prod.splits if_splits)

lemma http_release_same: "amap_http_release w = Some w' \<Longrightarrow> service_same w w'"
  unfolding amap_http_release_def by (rule curl_same)

section \<open>The contract of the request\<close>

text \<open>Handling an event is leaving the service alone or handing it to the callback.\<close>

lemma http_content_calls:
  assumes "amap_http_content parse cbf c content w = Some w'"
  shows "service_same w w' \<or> (\<exists>v ev r m. service_same w v \<and> cbf ev r m v = Some w')"
proof (cases "amap_callback_state (w_amapst w) = 2")
  case True
  then show ?thesis using assms by (simp add: amap_http_content_def)
next
  case False
  obtain ok w1 where m: "env_malloc (set_amap (\<lambda>s. s\<lparr>amap_callback_state := 2\<rparr>) w) = (ok, w1)"
    by (cases "env_malloc (set_amap (\<lambda>s. s\<lparr>amap_callback_state := 2\<rparr>) w)")
  have s1: "service_same w w1" using service_same_malloc [OF m] by simp
  show ?thesis
  proof (cases ok)
    case False
    then show ?thesis using assms \<open>amap_callback_state (w_amapst w) \<noteq> 2\<close> s1
      by (auto simp: amap_http_content_def m)
  next
    case True
    then obtain ev rsp w2 r where p: "cm_lbs_amap_http_location_parse parse (au_platform (cl_auth c))
        (Some zero_amap_rsp) (the content) w1 = Some (ev, rsp, w2)" and "rsp = Some r"
      and cb: "cbf ev (Some (r\<lparr>am_event := ev\<rparr>)) (cl_cb_arg c) (amap_rsp_backup (r\<lparr>am_event := ev\<rparr>) w2) = Some w'"
      using assms False by (auto simp: amap_http_content_def m Let_def split: bind_splits)
    have "service_same w (amap_rsp_backup (r\<lparr>am_event := ev\<rparr>) w2)"
      using s1 memory_service(1) [OF p] backup_same service_same_trans by blast
    then show ?thesis using cb by blast
  qed
qed

lemma http_callback_content:
  assumes "amap_http_callback parse cbf h (CM_HTTP_CALLBACK_EVENT_RSP_CONTENT_IND content) w = Some w'"
  shows "service_same w w' \<or> (\<exists>v ev r m. service_same w v \<and> cbf ev r m v = Some w')"
  using assms http_content_calls unfolding amap_http_callback_def
  by (fastforce split: bind_splits if_splits)

definition calls_or_same :: "amap_cb \<Rightarrow> lbs_world \<Rightarrow> cm_lbs_state_e \<Rightarrow> lbs_world \<Rightarrow> bool" where
  "calls_or_same cbf w ret w' \<longleftrightarrow> service_same w w'
     \<or> ret = CM_LBS_OK \<and> (\<exists>v ev r m. service_same w v \<and> cbf ev r m v = Some w')"

lemma calls_or_same_trans:
  "service_same u w \<Longrightarrow> calls_or_same cbf w ret w' \<Longrightarrow> calls_or_same cbf u ret w'"
  unfolding calls_or_same_def using service_same_trans by blast

lemma http_transfer_calls:
  assumes "amap_http_transfer parse ind cbf c path w = Some (ret, w')"
  shows "calls_or_same cbf w ret w'"
proof -
  define h where "h = s_amap_curl_handle (w_amapst w)"
  define m where "m = s_amap_curl_multi_handle (w_amapst w)"
  define w0 where "w0 = set_amap (\<lambda>s. s\<lparr>s_amap_client := Some (c\<lparr>cl_http_client := h\<rparr>)\<rparr>) w"
  obtain url w1 added w2 where u: "curl_easy_setopt h w0 = Some w1"
    and a: "curl_multi_add_handle m h w1 = Some (added, w2)"
    and rest: "(if \<not> added then Some (CM_LBS_ERR, w2)
      else (case curl_multi_perform m w2 of (performed, w3) \<Rightarrow>
        if \<not> performed then Some (CM_LBS_ERR, w3)
        else do {
          w4 \<leftarrow> amap_http_callback parse cbf h
            (CM_HTTP_CALLBACK_EVENT_RSP_CONTENT_IND (response_text ind))
            (w3\<lparr>w_sent := w_sent w3 @ [url]\<rparr>);
          Some (CM_LBS_OK, w4) })) = Some (ret, w')"
    using assms unfolding amap_http_transfer_def Let_def h_def m_def w0_def
    by (clarsimp simp: bind_eq_Some_conv simp del: not_None_eq)
  obtain performed w3 where p: "curl_multi_perform m w2 = (performed, w3)"
    by (cases "curl_multi_perform m w2")
  have "service_same w w0" by (simp add: w0_def)
  then have s: "service_same w w2" "service_same w w3"
    using curl_same(3) [OF u] curl_same(4) [OF a] curl_same(5) [OF p] service_same_trans by blast+
  show ?thesis
  proof (cases "added \<and> performed")
    case True
    then obtain "amap_http_callback parse cbf h (CM_HTTP_CALLBACK_EVENT_RSP_CONTENT_IND (response_text ind))
        (w3\<lparr>w_sent := w_sent w3 @ [url]\<rparr>) = Some w'" and "ret = CM_LBS_OK"
      using rest by (auto simp: p split: bind_splits)
    from http_callback_content [OF this(1)] this(2) have "calls_or_same cbf (w3\<lparr>w_sent := w_sent w3 @ [url]\<rparr>) ret w'"
      by (simp add: calls_or_same_def)
    then show ?thesis using s(2) by (intro calls_or_same_trans [of w]) simp_all
  next
    case False
    then show ?thesis using rest s by (auto simp: p calls_or_same_def split: if_splits)
  qed
qed

lemma http_requst_calls:
  assumes "amap_http_requst parse md5 ind cbf w = Some (ret, w')"
  shows "calls_or_same cbf w ret w'"
proof -
  obtain ok w1 where m: "env_malloc w = (ok, w1)" by (cases "env_malloc w")
  note s1 = service_same_malloc [OF m]
  show ?thesis
  proof (cases ok)
    case False
    then show ?thesis using assms s1 by (simp add: amap_http_requst_def m calls_or_same_def)
  next
    case True
    then obtain c len path w2 where p: "amap_create_requst_HttpPath md5 [] (cl_ueinfo c) (cl_auth c) w1
        = Some ((len, path), w2)" and c: "s_amap_client (w_amapst w1) = Some c"
      using assms by (auto simp: amap_http_requst_def m split: bind_splits)
    obtain opened w3 where o: "amap_curl_open w2 = (opened, w3)" by (cases "amap_curl_open w2")
    have s3: "service_same w w2" "service_same w w3"
      using s1 memory_service(2) [OF p] curl_open_same [OF o] service_same_trans by blast+
    have "(if len < 0 then Some (CM_LBS_ERR, w2) else if \<not> opened then Some (CM_LBS_ERR, w3)
        else amap_http_transfer parse ind cbf c path w3) = Some (ret, w')"
      using assms True by (simp add: amap_http_requst_def m c p o cong: if_cong)
    then show ?thesis using s3 calls_or_same_trans [OF s3(2) http_transfer_calls]
      by (auto simp: calls_or_same_def split: if_splits)
  qed
qed

lemma fresh_location_calls:
  assumes "amap_fresh_location parse md5 ind cbf ueinfo attr w = Some (ret, w')"
  shows "calls_or_same cbf w ret w'"
proof -
  obtain client w1 where c: "amap_create_by_attr ueinfo attr w = Some (client, w1)"
    and rest: "amap_fresh_location parse md5 ind cbf ueinfo attr w = Some (ret, w')"
    using assms by (auto simp: amap_fresh_location_def split: bind_splits)
  note s1 = memory_service(5) [OF c]
  show ?thesis
  proof (cases client)
    case None
    then show ?thesis using assms s1 by (simp add: amap_fresh_location_def c calls_or_same_def)
  next
    case (Some cl)
    obtain ue w2 w3 r w4 where
      k: "amap_backup_lastkey (au_apikey (am_auth attr)) (au_digital_sign_key (am_auth attr))
        (au_show_fields_enable (am_auth attr)) (au_digital_sign_enable (am_auth attr))
        (set_amap (\<lambda>s. s\<lparr>s_amap_client := Some (cl\<lparr>cl_busy := True\<rparr>)\<rparr>) w1) = Some w2"
      and u: "amap_backup_ueinfo ue w2 = Some w3"
      and r: "amap_http_requst parse md5 ind cbf w3 = Some (r, w4)"
      and fin: "(if r = CM_LBS_OK then Some (r, w4) else do {
             w5 \<leftarrow> amap_http_release w4; w6 \<leftarrow> amap_delete w5; Some (r, w6) }) = Some (ret, w')"
      using assms Some unfolding amap_fresh_location_def c Let_def
      by (clarsimp simp: bind_eq_Some_conv simp del: not_None_eq)
    have s3: "service_same w w3"
      using s1 backup_lastkey_same [OF k] backup_ueinfo_same [OF u] service_same_trans
      by (metis service_same_set_amap(2))
    note q = calls_or_same_trans [OF s3 http_requst_calls [OF r]]
    show ?thesis
    proof (cases "r = CM_LBS_OK")
      case False
      then obtain w5 where "amap_http_release w4 = Some w5" "amap_delete w5 = Some w'" "ret = r"
        using fin by (auto split: bind_splits)
      then have "service_same w4 w'" using http_release_same delete_same service_same_trans by blast
      moreover have "service_same w w4" using q False by (simp add: calls_or_same_def)
      ultimately have "service_same w w'" by (rule service_same_trans [rotated])
      then show ?thesis by (simp add: calls_or_same_def)
    qed (use fin q in simp)
  qed
qed

lemma return_last_calls:
  assumes "amap_return_last_location (Some cbf) attr w = Some (ret, w')"
  shows "calls_or_same cbf w ret w'"
proof (cases "s_amap_location_rsp (w_amapst w)")
  case None
  then show ?thesis using assms by (simp add: amap_return_last_location_def calls_or_same_def)
next
  case (Some old)
  obtain ok w1 where m: "env_malloc w = (ok, w1)" by (cases "env_malloc w")
  obtain rsp w2 where c: "amap_copy_rsp old w1 = (rsp, w2)" by (cases "amap_copy_rsp old w1")
  have s: "service_same w w1" "service_same w w2"
    using service_same_malloc [OF m] memory_service(3) [OF c] service_same_trans by blast+
  show ?thesis using assms s unfolding calls_or_same_def
    by (auto simp: amap_return_last_location_def Some Let_def m c split: if_splits bind_splits)
qed

lemma location_calls:
  assumes "cm_amap_location parse md5 ind cbf ueinfo attr w = Some (ret, w')"
  shows "calls_or_same cbf w ret w'"
proof (cases "s_amap_client (w_amapst w)")
  case (Some c)
  then show ?thesis using assms by (simp add: cm_amap_location_def calls_or_same_def)
next
  case None
  obtain same last w1 where
    l: "(if same = CM_LBS_OK then amap_return_last_location (Some cbf) attr w else Some (CM_LBS_ERR, w))
      = Some (last, w1)"
    and f: "(if last = CM_LBS_OK then Some (CM_LBS_OK, w1)
       else amap_fresh_location parse md5 ind cbf ueinfo attr w1) = Some (ret, w')"
    using assms None unfolding cm_amap_location_def Let_def amap_state_busy_def
    by (clarsimp simp: bind_eq_Some_conv simp del: not_None_eq)
  have "calls_or_same cbf w last w1"
    using l return_last_calls [of cbf attr w last w1] by (auto simp: calls_or_same_def split: if_splits)
  moreover have "calls_or_same cbf w1 ret w'" if "last \<noteq> CM_LBS_OK"
    using f that fresh_location_calls [of parse md5 ind cbf ueinfo attr w1 ret w'] by simp
  ultimately show ?thesis
    using f calls_or_same_trans unfolding calls_or_same_def
    by (metis option.inject prod.inject service_same_trans)
qed

text \<open>The request of the AMAP platform in this build, where the device information is a zeroed block.\<close>

definition amap_locate :: "(string \<Rightarrow> string \<Rightarrow> string \<times> string) \<Rightarrow> (string \<Rightarrow> cJSON option)
    \<Rightarrow> (bytes \<Rightarrow> bytes) \<Rightarrow> indet \<Rightarrow> cm_amap_t \<Rightarrow> lbs_world \<Rightarrow> (cm_lbs_state_e \<times> lbs_world) option" where
  "amap_locate gcj parse md5 ind a =
     cm_amap_location parse md5 ind (cm_lbs_amap_callback (dispatch_cb gcj))
       (map_option (\<lambda>_. zero_amap_ueinfo) (am_ueinfo a)) a"

lemma amap_locate_keeps: "keeps_contract (amap_locate gcj parse md5 ind)"
proof -
  have "lbs_inv w' \<and> (ret \<noteq> CM_LBS_OK \<longrightarrow> w_amap w' = w_amap w \<and> w_oneospos w' = w_oneospos w)"
    if i: "lbs_inv w" and l: "amap_locate gcj parse md5 ind a w = Some (ret, w')" for a w ret w'
  proof -
    have "calls_or_same (cm_lbs_amap_callback (dispatch_cb gcj)) w ret w'"
      using l location_calls unfolding amap_locate_def by blast
    then show ?thesis
      using i service_same_inv amap_callback_inv(1) unfolding calls_or_same_def
      by (metis service_same_def)
  qed
  then show ?thesis unfolding keeps_contract_def by blast
qed

end
