(* ===== verification/AmapSpec.thy ===== *)
theory AmapSpec
  imports AmapFacts
begin

text \<open>
  What the AMAP platform computes: the results its parsers produce, and the path of a request with its
  signature.
\<close>

section \<open>Answers\<close>

lemma split_comma_Some:
  assumes "split_comma s = Some (lon, lat)"
  shows "s = lon @ CHR '','' # lat" and "CHR '','' \<notin> set lon"
proof -
  have c: "CHR '','' \<in> set s" and lon: "lon = takeWhile (\<lambda>c. c \<noteq> CHR '','') s"
    and lat: "lat = tl (dropWhile (\<lambda>c. c \<noteq> CHR '','') s)"
    using assms by (auto simp: split_comma_def split: if_splits)
  obtain d ds where d: "dropWhile (\<lambda>c. c \<noteq> CHR '','') s = d # ds"
    using c by (cases "dropWhile (\<lambda>c. c \<noteq> CHR '','') s") (auto simp: dropWhile_eq_Nil_conv)
  then have "d = CHR '',''" using hd_dropWhile [of "\<lambda>c. c \<noteq> CHR '',''" s] c by auto
  then show "s = lon @ CHR '','' # lat"
    using d lat lon takeWhile_dropWhile_id [of "\<lambda>c. c \<noteq> CHR '',''" s] by simp
  show "CHR '','' \<notin> set lon" using lon by (auto dest: set_takeWhileD)
qed

lemma split_comma_append:
  "CHR '','' \<notin> set lon \<Longrightarrow> split_comma (lon @ CHR '','' # lat) = Some (lon, lat)"
  by (auto simp: split_comma_def takeWhile_append dropWhile_append)

text \<open>The coordinates are not touched by the other members.\<close>

lemma copy_members_coordinates:
  assumes "copy_members ms rsp w = (ok, r, w')"
    and "\<forall>(i, put) \<in> set ms. \<forall>v x. am_longitude (put v x) = am_longitude x \<and> am_latitude (put v x) = am_latitude x"
  shows "am_longitude r = am_longitude rsp \<and> am_latitude r = am_latitude rsp"
  using assms
proof (induction ms rsp w rule: copy_members.induct)
  case (3 item put ms rsp w)
  obtain st v w1 where c: "amap_copy_location_rsp (valuestring item) w = ((st, v), w1)"
    by (metis prod.exhaust)
  show ?case
  proof (cases "st = CM_LBS_OK")
    case True
    then show ?thesis using 3 c by auto
  next
    case False
    then show ?thesis using 3(2,3) c by auto
  qed
qed auto

lemma put_location_ok:
  assumes "amap_put_location (lon, lat) rsp w = (True, r, w')"
  shows "r = rsp\<lparr>am_longitude := Some lon, am_latitude := Some lat\<rparr>"
    and "0 < length lon" "length lon < 256" "0 < length lat" "length lat < 256"
  using assms by (auto simp: amap_put_location_def Let_def CM_LBS_AMAP_RSP_LENMAX_def
      split: if_splits prod.splits)

text \<open>Version 1 reports a success only with coordinates.\<close>

definition has_coordinates :: "cm_lbs_amap_location_rsp_t \<Rightarrow> bool" where
  "has_coordinates r = (case (am_longitude r, am_latitude r) of
     (Some lon, Some lat) \<Rightarrow> 0 < length lon \<and> length lon < 256 \<and> 0 < length lat \<and> length lat < 256
        \<and> CHR '','' \<notin> set lon
   | _ \<Rightarrow> False)"

lemma info_event_no_success: "amap_info_event s \<noteq> AMAP_LOCATION_SUCCEED"
  by (simp add: amap_info_event_def Let_def)

lemma refused_no_success: "amapv1_refused info = Some ev \<Longrightarrow> ev \<noteq> AMAP_LOCATION_SUCCEED"
  using info_event_no_success by (auto simp: amapv1_refused_def split: option.splits bind_splits)

lemma v1_success_coordinates:
  assumes "amapv1_parse parse rsp param w = Some (AMAP_LOCATION_SUCCEED, r, w')"
  shows "has_coordinates r"
proof -
  obtain j where j: "parse param = Some j"
    using assms by (cases "parse param") (auto simp: amapv1_parse_def)
  define res where "res = cJSON_GetObjectItem (Some j) ''result''"
  obtain loc lonlat ms r1 w1 where sc: "split_comma loc = Some lonlat"
    and pl: "amap_put_location lonlat rsp w = (True, r1, w1)"
    and cm: "copy_members ms r1 w1 = (True, r, w')"
    and ms: "\<forall>(i, put) \<in> set ms. \<forall>v x. am_longitude (put v x) = am_longitude x \<and> am_latitude (put v x) = am_latitude x"
    using assms info_event_no_success refused_no_success
    unfolding amapv1_parse_def j option.case Let_def res_def [symmetric]
    by (fastforce split: option.splits if_splits prod.splits bind_splits)
  obtain lon lat where l: "lonlat = (lon, lat)" by (cases lonlat)
  note p = put_location_ok [OF pl [unfolded l]]
  show ?thesis
    using copy_members_coordinates [OF cm ms] p split_comma_Some(2) [OF sc [unfolded l]]
    by (simp add: has_coordinates_def)
qed

text \<open>With memory at hand the optional members are copied as they are; \<open>member_ok\<close> is what a member must
  be for that.\<close>

definition member_ok :: "cJSON option \<Rightarrow> bool" where
  "member_ok i = (case i of None \<Rightarrow> True
     | Some x \<Rightarrow> (case valuestring x of None \<Rightarrow> False | Some s \<Rightarrow> 0 < length s \<and> length s < 256))"

lemma malloc_plenty: "env_allocs w = [] \<Longrightarrow> env_malloc w = (True, w)"
  by (simp add: env_malloc_def malloc_ok_def)

lemma copy_members_plenty:
  assumes "env_allocs w = []" and "\<forall>(i, put) \<in> set ms. member_ok i"
  shows "copy_members ms rsp w
    = (True, fold (\<lambda>(i, put) r. case i of None \<Rightarrow> r | Some x \<Rightarrow> put (valuestring x) r) ms rsp, w)"
  using assms(2)
proof (induction ms arbitrary: rsp)
  case (Cons m ms)
  obtain i put where m: "m = (i, put)" by (cases m)
  show ?case
  proof (cases i)
    case None
    then show ?thesis using Cons by (simp add: m)
  next
    case (Some x)
    then obtain s where "valuestring x = Some s" "0 < length s" "length s < 256"
      using Cons(2) by (auto simp: m member_ok_def split: option.splits)
    then show ?thesis using Cons Some assms(1)
      by (simp add: m amap_copy_location_rsp_def CM_LBS_AMAP_RSP_LENMAX_def malloc_plenty)
  qed
qed simp

lemma put_location_plenty:
  assumes "env_allocs w = []" and "lon \<noteq> []" "length lon < 256" "lat \<noteq> []" "length lat < 256"
  shows "amap_put_location (lon, lat) rsp w = (True, rsp\<lparr>am_longitude := Some lon, am_latitude := Some lat\<rparr>, w)"
  using assms by (simp add: amap_put_location_def malloc_plenty CM_LBS_AMAP_RSP_LENMAX_def)

lemma put_member:
  "am_city r = None \<Longrightarrow> (case i of None \<Rightarrow> r | Some x \<Rightarrow> r\<lparr>am_city := valuestring x\<rparr>) = r\<lparr>am_city := item_string i\<rparr>"
  "am_province r = None \<Longrightarrow> (case i of None \<Rightarrow> r | Some x \<Rightarrow> r\<lparr>am_province := valuestring x\<rparr>) = r\<lparr>am_province := item_string i\<rparr>"
  "am_adcode r = None \<Longrightarrow> (case i of None \<Rightarrow> r | Some x \<Rightarrow> r\<lparr>am_adcode := valuestring x\<rparr>) = r\<lparr>am_adcode := item_string i\<rparr>"
  "am_street r = None \<Longrightarrow> (case i of None \<Rightarrow> r | Some x \<Rightarrow> r\<lparr>am_street := valuestring x\<rparr>) = r\<lparr>am_street := item_string i\<rparr>"
  "am_poi r = None \<Longrightarrow> (case i of None \<Rightarrow> r | Some x \<Rightarrow> r\<lparr>am_poi := valuestring x\<rparr>) = r\<lparr>am_poi := item_string i\<rparr>"
  "am_location_describe r = None \<Longrightarrow> (case i of None \<Rightarrow> r | Some x \<Rightarrow> r\<lparr>am_location_describe := valuestring x\<rparr>) = r\<lparr>am_location_describe := item_string i\<rparr>"
  "am_country r = None \<Longrightarrow> (case i of None \<Rightarrow> r | Some x \<Rightarrow> r\<lparr>am_country := valuestring x\<rparr>) = r\<lparr>am_country := item_string i\<rparr>"
  "am_radius r = None \<Longrightarrow> (case i of None \<Rightarrow> r | Some x \<Rightarrow> r\<lparr>am_radius := valuestring x\<rparr>) = r\<lparr>am_radius := item_string i\<rparr>"
  "am_road r = None \<Longrightarrow> (case i of None \<Rightarrow> r | Some x \<Rightarrow> r\<lparr>am_road := valuestring x\<rparr>) = r\<lparr>am_road := item_string i\<rparr>"
  "am_citycode r = None \<Longrightarrow> (case i of None \<Rightarrow> r | Some x \<Rightarrow> r\<lparr>am_citycode := valuestring x\<rparr>) = r\<lparr>am_citycode := item_string i\<rparr>"
  by (cases i; simp add: item_string_def)+

definition v1_members :: "string list" where
  "v1_members = [''city'', ''province'', ''adcode'', ''street'', ''poi'', ''desc'', ''country'',
     ''radius'', ''road'', ''citycode'']"

text \<open>The result version 1 makes of the members of \<open>result\<close>.\<close>

definition v1_result :: "string \<Rightarrow> string \<Rightarrow> cJSON option \<Rightarrow> cm_lbs_amap_location_rsp_t" where
  "v1_result lon lat result = (let get = (\<lambda>name. item_string (cJSON_GetObjectItem result name)) in
     zero_amap_rsp\<lparr>am_longitude := Some lon, am_latitude := Some lat, am_city := get ''city'',
       am_province := get ''province'', am_adcode := get ''adcode'', am_street := get ''street'',
       am_poi := get ''poi'', am_location_describe := get ''desc'', am_country := get ''country'',
       am_radius := get ''radius'', am_road := get ''road'', am_citycode := get ''citycode''\<rparr>)"

lemma v1_complete:
  assumes "env_allocs w = []" and "parse param = Some j"
    and "item_string (cJSON_GetObjectItem (Some j) ''status'') = Some s" "CHR ''1'' \<in> set s"
    and "item_string (cJSON_GetObjectItem (cJSON_GetObjectItem (Some j) ''result'') ''location'')
      = Some (lon @ CHR '','' # lat)"
    and "CHR '','' \<notin> set lon" "lon \<noteq> []" "length lon < 256" "lat \<noteq> []" "length lat < 256"
    and "\<forall>name \<in> set v1_members.
      member_ok (cJSON_GetObjectItem (cJSON_GetObjectItem (Some j) ''result'') name)"
  shows "amapv1_parse parse zero_amap_rsp param w
    = Some (AMAP_LOCATION_SUCCEED, v1_result lon lat (cJSON_GetObjectItem (Some j) ''result''), w)"
proof -
  define res where "res = cJSON_GetObjectItem (Some j) ''result''"
  obtain st where st: "cJSON_GetObjectItem (Some j) ''status'' = Some st" "valuestring st = Some s"
    using assms(3) by (auto simp: item_string_def split: bind_splits)
  obtain loc where loc: "cJSON_GetObjectItem res ''location'' = Some loc"
    "valuestring loc = Some (lon @ CHR '','' # lat)"
    using assms(5) by (auto simp: item_string_def res_def split: bind_splits)
  have r: "res \<noteq> None" using loc(1) by (cases res) simp_all
  have m: "member_ok (cJSON_GetObjectItem res ''city'')" "member_ok (cJSON_GetObjectItem res ''province'')"
    "member_ok (cJSON_GetObjectItem res ''adcode'')" "member_ok (cJSON_GetObjectItem res ''street'')"
    "member_ok (cJSON_GetObjectItem res ''poi'')" "member_ok (cJSON_GetObjectItem res ''desc'')"
    "member_ok (cJSON_GetObjectItem res ''country'')" "member_ok (cJSON_GetObjectItem res ''radius'')"
    "member_ok (cJSON_GetObjectItem res ''road'')" "member_ok (cJSON_GetObjectItem res ''citycode'')"
    using assms(11) by (simp_all add: v1_members_def res_def)
  have "amapv1_parse parse zero_amap_rsp param w = Some (AMAP_LOCATION_SUCCEED, v1_result lon lat res, w)"
    unfolding amapv1_parse_def assms(2) option.case Let_def res_def [symmetric]
    using st loc r assms(1,4,6-10) m
    by (simp add: split_comma_append put_location_plenty copy_members_plenty v1_result_def Let_def
        put_member zero_amap_rsp_def)
  then show ?thesis by (simp add: res_def)
qed

text \<open>An answer of version 2 with the code \<open>OK\<close> but without a position is taken for a success.\<close>

lemma v2_success_without_position:
  assumes "parse param = Some j" and "item_string (cJSON_GetObjectItem (Some j) ''info'') = Some ''OK''"
    and "cJSON_GetObjectItem (Some j) ''position'' = None"
  shows "amapv2_parse parse rsp param w = Some (AMAP_LOCATION_SUCCEED, rsp, w)"
proof -
  obtain i where "cJSON_GetObjectItem (Some j) ''info'' = Some i" "valuestring i = Some ''OK''"
    using assms(2) by (auto simp: item_string_def split: bind_splits)
  then show ?thesis using assms(1,3)
    by (simp add: amapv2_parse_def Let_def amapv2_code_def cm_lbs_amap_rspcode_parse_def s_amap_rspcode_def)
qed

section \<open>Requests\<close>

text \<open>The signature of a parameter text: the lower-case MD5 of the text and the key.\<close>

definition amap_signature :: "(bytes \<Rightarrow> bytes) \<Rightarrow> string \<Rightarrow> string \<Rightarrow> string" where
  "amap_signature md5 params key = map tolower (masked md5 (params @ key))"

lemma tolower_NUL: "tolower c = NUL \<Longrightarrow> c = NUL"
proof (rule ccontr)
  assume a: "tolower c = NUL" "c \<noteq> NUL"
  then have b: "65 \<le> (of_char c :: nat)" "(of_char c :: nat) \<le> 90"
    by (auto simp: tolower_def Let_def split: if_splits)
  have "(of_char (tolower c) :: nat) = (of_char c + 32) mod 256"
    using b by (simp add: tolower_def Let_def)
  then show False using a b by simp
qed

lemma lower_no_NUL: "NUL \<notin> set s \<Longrightarrow> NUL \<notin> set (map tolower s)"
  using tolower_NUL by fastforce

lemma digital_signature_ok:
  assumes "env_allocs w = []" and "NUL \<notin> set params" and "c_str k = Some key"
    and "length params + length key < 1024" and "\<And>x. length (md5 x) = 16"
  obtains sg where "amap_digital_signature md5 params (Some k) (replicate 64 NUL) w = Some ((0, sg), w)"
    and "c_str sg = Some (amap_signature md5 params key)"
proof -
  have kn: "NUL \<notin> set key" using c_str_SomeD(1) [OF assms(3)] .
  have z: "c_str (replicate CM_AMAP_HTTPPATH_LENMAX NUL) = Some []"
    by (simp add: c_str_def CM_AMAP_HTTPPATH_LENMAX_def)
  obtain t1 where t1: "arr_cat params (replicate CM_AMAP_HTTPPATH_LENMAX NUL) = Some t1"
    "c_str t1 = Some params" "length t1 = 1024"
    using arr_cat_ok [OF z assms(2)] assms(4) by (auto simp: CM_AMAP_HTTPPATH_LENMAX_def)
  obtain t2 where t2: "arr_cat key t1 = Some t2" "c_str t2 = Some (params @ key)" "length t2 = 1024"
    using arr_cat_ok [OF t1(2) kn] assms(4) t1(3) by auto
  obtain i h where h: "cm_lbs_atcmd_md5 md5 t2 (replicate 64 NUL) = Some (i, h)"
    "c_str h = Some (masked md5 (params @ key))"
    using atcmd_md5_ok [where ?md5.0 = md5, OF t2(2) _ assms(5)] t2(3) by auto
  have "cm_lbs_md5 md5 t2 (replicate 64 NUL) = Some (i, h)"
    using h(1) by (simp add: cm_lbs_md5_def cm_lbs_atcmd_md5_def cm_lbs_data_to_hex_def
        cm_lbs_atcmd_data_to_hex_def)
  moreover have "c_str (map tolower (masked md5 (params @ key)) @ drop (length (masked md5 (params @ key))) h)
      = Some (amap_signature md5 params key)"
  proof -
    have "drop (length (masked md5 (params @ key))) h = NUL # drop (Suc (length (masked md5 (params @ key)))) h"
    proof -
      have s: "masked md5 (params @ key) = takeWhile (\<lambda>c. c \<noteq> NUL) h"
        using h(2) by (auto simp: c_str_def split: if_splits)
      have l: "length (masked md5 (params @ key)) < length h" using c_str_SomeD(2) [OF h(2)] .
      have "h ! length (masked md5 (params @ key)) = NUL"
        using nth_length_takeWhile [of "\<lambda>c. c \<noteq> NUL" h] l by (simp add: s)
      then show ?thesis using l by (metis Cons_nth_drop_Suc)
    qed
    then show ?thesis
      using c_str_append_NUL [OF lower_no_NUL [OF masked_no_NUL]] by (simp add: amap_signature_def)
  qed
  ultimately show ?thesis
    using that assms(1,3) t1 t2 h(2) by (simp add: amap_digital_signature_def malloc_plenty)
qed

definition signed_params :: "(bytes \<Rightarrow> bytes) \<Rightarrow> cm_amap_authentication_t \<Rightarrow> string \<Rightarrow> string" where
  "signed_params md5 au params =
     (if au_digital_sign_enable au = 0 then params
      else params @ ''&sig='' @ amap_signature md5 params
        (case au_digital_sign_key au of None \<Rightarrow> [] | Some k \<Rightarrow> takeWhile (\<lambda>c. c \<noteq> NUL) k))"

text \<open>What the signature needs: a key, and room in both buffers.\<close>

definition can_sign :: "cm_amap_authentication_t \<Rightarrow> string \<Rightarrow> bool" where
  "can_sign au params \<longleftrightarrow> au_digital_sign_enable au = 0
     \<or> (\<exists>k key. au_digital_sign_key au = Some k \<and> c_str k = Some key \<and> length params + length key < 1024)"

lemma sign_path_ok:
  assumes "env_allocs w = []" and "NUL \<notin> set params" and "can_sign au params"
    and "length head + length params + 37 < 1024" and "\<And>x. length (md5 x) = 16"
  shows "amap_sign_path md5 head au (head @ params) w
    = Some ((int (length (head @ signed_params md5 au params)), head @ signed_params md5 au params), w)"
proof (cases "au_digital_sign_enable au = 0")
  case True
  then show ?thesis by (simp add: amap_sign_path_def signed_params_def)
next
  case False
  then obtain k key where k: "au_digital_sign_key au = Some k" "c_str k = Some key"
      "length params + length key < 1024"
    using assms(3) by (auto simp: can_sign_def)
  obtain sg where sg: "amap_digital_signature md5 params (Some k) (replicate 64 NUL) w = Some ((0, sg), w)"
    "c_str sg = Some (amap_signature md5 params key)"
    by (rule digital_signature_ok [where ?md5.0 = md5, OF assms(1,2) k(2,3) assms(5)])
  have kt: "takeWhile (\<lambda>c. c \<noteq> NUL) k = key" using k(2) by (auto simp: c_str_def split: if_splits)
  have l: "length (amap_signature md5 params key) = 32"
    using length_masked assms(5) by (simp add: amap_signature_def)
  show ?thesis using False k sg l assms(4) kt
    by (simp add: amap_sign_path_def signed_params_def fits_def CM_AMAP_HTTPPATH_LENMAX_def)
qed

text \<open>The parameters of version 1, in the order the signature depends on.\<close>

definition text_of :: "bytes \<Rightarrow> string" where
  "text_of a = takeWhile (\<lambda>c. c \<noteq> NUL) a"

definition cell_text :: "cm_service_cell_info_t \<Rightarrow> string" where
  "cell_text ci = ''&bts='' @ dec_int (sint (ci_mcc ci)) @ '','' @ dec_int (sint (ci_mnc ci)) @ '',''
     @ text_of (ci_lac ci) @ '','' @ text_of (ci_cellid ci) @ '','' @ dec_int (sint (ci_signal ci))"

definition v1_params :: "cm_amap_ue_info_t \<Rightarrow> string \<Rightarrow> string" where
  "v1_params ue key = ''accesstype=0'' @ cell_text (ue_cell_info ue) @ ''&cdma=0&imei='' @ text_of (ue_imei ue)
     @ ''&key='' @ key @ concat (optional_param ''&nearbts='' (ue_nearbts ue))
     @ concat (optional_param ''&network='' (ue_network_type ue)) @ ''&output=json''
     @ concat (optional_param ''&serverip='' (ue_server_ip ue))"

text \<open>Version 2 adds the freshness of the cells and the request for the address.\<close>

definition v2_nearbts :: "string option \<Rightarrow> string option" where
  "v2_nearbts nb = (case nb of None \<Rightarrow> None
     | Some s \<Rightarrow> if length s \<le> 5 then None else Some (nearbts_loop s @ '',5''))"

definition v2_params :: "cm_amap_ue_info_t \<Rightarrow> u32 \<Rightarrow> string \<Rightarrow> string" where
  "v2_params ue show_fields key = ''accesstype=0'' @ cell_text (ue_cell_info ue) @ '',''
     @ dec_int (sint (ue_cage ue)) @ ''&cdma=0&imei='' @ text_of (ue_imei ue)
     @ ''&key='' @ key @ concat (optional_param ''&nearbts='' (v2_nearbts (ue_nearbts ue)))
     @ concat (optional_param ''&network='' (ue_network_type ue)) @ ''&output=json''
     @ concat (optional_param ''&serverip='' (ue_server_ip ue))
     @ (if show_fields = 1 then ''&show_fields=formatted_address,addressComponent'' else [])"

text \<open>Device information with terminated texts.\<close>

definition ue_wf :: "cm_amap_ue_info_t \<Rightarrow> bool" where
  "ue_wf ue \<longleftrightarrow> NUL \<in> set (ue_imei ue) \<and> NUL \<in> set (ci_lac (ue_cell_info ue))
     \<and> NUL \<in> set (ci_cellid (ue_cell_info ue))
     \<and> (\<forall>s \<in> set_option (ue_nearbts ue). NUL \<notin> set s \<and> count_list s (CHR ''|'') \<le> 30)
     \<and> (\<forall>s \<in> set_option (ue_network_type ue). NUL \<notin> set s)
     \<and> (\<forall>s \<in> set_option (ue_server_ip ue). NUL \<notin> set s)"

lemma c_str_text: "NUL \<in> set a \<Longrightarrow> c_str a = Some (text_of a)"
  by (simp add: c_str_def text_of_def)

lemma text_of_no_NUL: "NUL \<notin> set (text_of a)"
  by (auto simp: text_of_def dest: set_takeWhileD)

lemma optional_no_NUL:
  "\<forall>s \<in> set_option v. NUL \<notin> set s \<Longrightarrow> NUL \<notin> set name \<Longrightarrow> NUL \<notin> set (concat (optional_param name v))"
  by (auto simp: optional_param_def split: option.splits)

lemma cell_text_no_NUL: "NUL \<notin> set (cell_text ci)"
  using text_of_no_NUL dec_int_no_NUL by (simp add: cell_text_def)

lemma v1_params_no_NUL: "ue_wf ue \<Longrightarrow> NUL \<notin> set key \<Longrightarrow> NUL \<notin> set (v1_params ue key)"
  using cell_text_no_NUL text_of_no_NUL
    optional_no_NUL [of "ue_nearbts ue" "''&nearbts=''"] optional_no_NUL [of "ue_network_type ue" "''&network=''"]
    optional_no_NUL [of "ue_server_ip ue" "''&serverip=''"]
  unfolding v1_params_def ue_wf_def by simp

lemma nearbts_loop_no_NUL: "NUL \<notin> set s \<Longrightarrow> NUL \<notin> set (nearbts_loop s)"
  by (induction s) auto

lemma v2_params_no_NUL:
  assumes "ue_wf ue" and "NUL \<notin> set key"
  shows "NUL \<notin> set (v2_params ue sf key)"
proof -
  have "\<forall>s \<in> set_option (v2_nearbts (ue_nearbts ue)). NUL \<notin> set s"
    using assms(1) nearbts_loop_no_NUL by (auto simp: v2_nearbts_def ue_wf_def split: option.splits if_splits)
  then show ?thesis
    using assms cell_text_no_NUL text_of_no_NUL dec_int_no_NUL
      optional_no_NUL [of "v2_nearbts (ue_nearbts ue)" "''&nearbts=''"] optional_no_NUL [of "ue_network_type ue" "''&network=''"]
      optional_no_NUL [of "ue_server_ip ue" "''&serverip=''"]
    unfolding v2_params_def ue_wf_def by simp
qed

lemma nearbts_create_ok:
  assumes "env_allocs w = []" and "\<forall>s \<in> set_option nb. count_list s (CHR ''|'') \<le> 30"
  shows "amav2deal_nearbts_create nb w = Some (v2_nearbts nb, w)"
  using assms by (cases nb)
    (simp_all add: amav2deal_nearbts_create_def v2_nearbts_def malloc_plenty fits_def length_nearbts_loop)

lemma cell_buffer_ok:
  assumes "ue_wf ue"
  shows "length (cell_text (ue_cell_info ue)) < 64 \<Longrightarrow> amapv1_bts (ue_cell_info ue) = Some (cell_text (ue_cell_info ue))"
    and "length (cell_text (ue_cell_info ue) @ '','' @ dec_int (sint (ue_cage ue))) < 64
      \<Longrightarrow> amapv2_bts ue = Some (cell_text (ue_cell_info ue) @ '','' @ dec_int (sint (ue_cage ue)))"
  using assms by (simp_all add: amapv1_bts_def amapv2_bts_def ue_wf_def c_str_text cell_text_def fits_def)

text \<open>The path of version 1: the head, the parameters, and the signature of exactly these parameters.\<close>

lemma v1_path_ok:
  assumes "env_allocs w = []" and "ue_wf ue" and "length (cell_text (ue_cell_info ue)) < 64"
    and "au_apikey au = Some k" "c_str k = Some key"
    and "length (v1_params ue key) < 970" and "can_sign au (v1_params ue key)"
    and "\<And>x. length (md5 x) = 16"
  shows "amapv1_create_requst_HttpPath md5 [] ue au w
    = Some ((int (length (CM_LBS_AMAPV1_PATH @ signed_params md5 au (v1_params ue key))),
             CM_LBS_AMAPV1_PATH @ signed_params md5 au (v1_params ue key)), w)"
proof -
  have l: "length CM_LBS_AMAPV1_PATH = 10" by (simp add: CM_LBS_AMAPV1_PATH_def)
  note n = v1_params_no_NUL [OF assms(2) c_str_SomeD(1) [OF assms(5)]]
  have s: "amap_sign_path md5 CM_LBS_AMAPV1_PATH au (CM_LBS_AMAPV1_PATH @ v1_params ue key) w
    = Some ((int (length (CM_LBS_AMAPV1_PATH @ signed_params md5 au (v1_params ue key))),
             CM_LBS_AMAPV1_PATH @ signed_params md5 au (v1_params ue key)), w)"
    using sign_path_ok [where ?md5.0 = md5, OF assms(1) n assms(7) _ assms(8), of CM_LBS_AMAPV1_PATH] assms(6) l
    by simp
  have p: "strcats CM_AMAP_HTTPPATH_LENMAX
       ([CM_LBS_AMAPV1_PATH, ''accesstype=0'', cell_text (ue_cell_info ue), ''&cdma=0'', ''&imei='',
         text_of (ue_imei ue), ''&key='', key]
        @ optional_param ''&nearbts='' (ue_nearbts ue)
        @ optional_param ''&network='' (ue_network_type ue)
        @ [''&output=json'']
        @ optional_param ''&serverip='' (ue_server_ip ue)) [] = Some (CM_LBS_AMAPV1_PATH @ v1_params ue key)"
    using assms(6) l by (subst strcats_eq) (simp_all add: CM_AMAP_HTTPPATH_LENMAX_def v1_params_def)
  have i: "c_str (ue_imei ue) = Some (text_of (ue_imei ue))" using assms(2) by (simp add: ue_wf_def c_str_text)
  show ?thesis
    unfolding amapv1_create_requst_HttpPath_def cell_buffer_ok(1) [OF assms(2,3)] i assms(4)
    using assms(5) p s by (simp del: strcats.simps)
qed

lemma v2_path_ok:
  assumes "env_allocs w = []" and "ue_wf ue"
    and "length (cell_text (ue_cell_info ue) @ '','' @ dec_int (sint (ue_cage ue))) < 64"
    and "au_apikey au = Some k" "c_str k = Some key"
    and "length (v2_params ue (au_show_fields_enable au) key) < 970"
    and "can_sign au (v2_params ue (au_show_fields_enable au) key)"
    and "\<And>x. length (md5 x) = 16"
  shows "amapv2_create_requst_HttpPath md5 [] ue au w
    = Some ((int (length (CM_LBS_AMAPV2_PATH @ signed_params md5 au (v2_params ue (au_show_fields_enable au) key))),
             CM_LBS_AMAPV2_PATH @ signed_params md5 au (v2_params ue (au_show_fields_enable au) key)), w)"
proof -
  let ?p = "v2_params ue (au_show_fields_enable au) key"
  have l: "length CM_LBS_AMAPV2_PATH = 17" by (simp add: CM_LBS_AMAPV2_PATH_def)
  note n = v2_params_no_NUL [OF assms(2) c_str_SomeD(1) [OF assms(5)], of "au_show_fields_enable au"]
  have s: "amap_sign_path md5 CM_LBS_AMAPV2_PATH au (CM_LBS_AMAPV2_PATH @ ?p) w
    = Some ((int (length (CM_LBS_AMAPV2_PATH @ signed_params md5 au ?p)),
             CM_LBS_AMAPV2_PATH @ signed_params md5 au ?p), w)"
    using sign_path_ok [where ?md5.0 = md5, OF assms(1) n assms(7) _ assms(8), of CM_LBS_AMAPV2_PATH] assms(6) l
    by simp
  have p: "strcats CM_AMAP_HTTPPATH_LENMAX
       ([CM_LBS_AMAPV2_PATH, ''accesstype=0'', cell_text (ue_cell_info ue) @ '','' @ dec_int (sint (ue_cage ue)),
         ''&cdma=0'', ''&imei='', text_of (ue_imei ue), ''&key='', key]
        @ optional_param ''&nearbts='' (v2_nearbts (ue_nearbts ue))
        @ optional_param ''&network='' (ue_network_type ue)
        @ [''&output=json'']
        @ optional_param ''&serverip='' (ue_server_ip ue)
        @ (if au_show_fields_enable au = 1
           then [''&show_fields=formatted_address,addressComponent''] else [])) []
    = Some (CM_LBS_AMAPV2_PATH @ ?p)"
    using assms(6) l
    by (subst strcats_eq; cases "au_show_fields_enable au = 1")
       (simp_all add: CM_AMAP_HTTPPATH_LENMAX_def v2_params_def)
  have i: "c_str (ue_imei ue) = Some (text_of (ue_imei ue))" using assms(2) by (simp add: ue_wf_def c_str_text)
  have nb: "amav2deal_nearbts_create (ue_nearbts ue) w = Some (v2_nearbts (ue_nearbts ue), w)"
    using nearbts_create_ok [OF assms(1)] assms(2) by (auto simp: ue_wf_def)
  show ?thesis
    unfolding amapv2_create_requst_HttpPath_def cell_buffer_ok(2) [OF assms(2,3)] i assms(4) nb
    using assms(5) p s by (simp del: strcats.simps)
qed

end
