(* ===== verification/AmapLife.thy ===== *)
theory AmapLife
  imports AmapSpec
begin

text \<open>
  How long a client and a remembered result of the AMAP platform live, and a request from its start to
  the callback.
\<close>

section \<open>The life of a client\<close>

text \<open>What the callback of the service leaves alone.\<close>

definition keeps_platform :: "amap_cb \<Rightarrow> bool" where
  "keeps_platform cbf \<longleftrightarrow> (\<forall>ev r m v v'. cbf ev r m v = Some v' \<longrightarrow> w_amapst v' = w_amapst v)"

lemma curl_amapst:
  "curl_easy_setopt h w = Some w1 \<Longrightarrow> w_amapst w1 = w_amapst w"
  "curl_multi_add_handle m h w = Some (b, w1) \<Longrightarrow> w_amapst w1 = w_amapst w"
  "curl_multi_perform m w = (b, w1) \<Longrightarrow> w_amapst w1 = w_amapst w"
  "curl_easy_cleanup h w = Some w1 \<Longrightarrow> w_amapst w1 = w_amapst w"
  by (auto simp: curl_easy_setopt_def curl_multi_add_handle_def curl_multi_perform_def
      curl_easy_cleanup_def next_answer_def split: option.splits prod.splits if_splits list.splits)

lemma set_amap_st [simp]: "w_amapst (set_amap f w) = f (w_amapst w)"
  by (simp add: set_amap_def)

lemma rsp_backup_client [simp]: "s_amap_client (w_amapst (amap_rsp_backup r w)) = s_amap_client (w_amapst w)"
  unfolding amap_rsp_backup_def
  by (auto simp: same_more(12) [OF malloc_more] same_more(12) [OF copy_rsp_more] split: prod.splits)

lemma http_content_client:
  assumes "amap_http_content parse cbf c content w = Some w'" and "keeps_platform cbf"
  shows "s_amap_client (w_amapst w') = s_amap_client (w_amapst w)"
proof (cases "amap_callback_state (w_amapst w) = 2")
  case False
  obtain ok w1 where m: "env_malloc (set_amap (\<lambda>s. s\<lparr>amap_callback_state := 2\<rparr>) w) = (ok, w1)"
    by (cases "env_malloc (set_amap (\<lambda>s. s\<lparr>amap_callback_state := 2\<rparr>) w)")
  have c1: "s_amap_client (w_amapst w1) = s_amap_client (w_amapst w)"
    using same_more(12) [OF malloc_more [OF m]] by simp
  show ?thesis
  proof (cases ok)
    case ok: False
    then show ?thesis using assms c1 False
      by (auto simp: amap_http_content_def m keeps_platform_def)
  next
    case True
    then obtain ev rsp w2 r where p: "cm_lbs_amap_http_location_parse parse (au_platform (cl_auth c))
        (Some zero_amap_rsp) (the content) w1 = Some (ev, rsp, w2)"
      and cb: "cbf ev (Some (r\<lparr>am_event := ev\<rparr>)) (cl_cb_arg c) (amap_rsp_backup (r\<lparr>am_event := ev\<rparr>) w2) = Some w'"
      using assms(1) False by (auto simp: amap_http_content_def m Let_def split: bind_splits)
    have "w_amapst w' = w_amapst (amap_rsp_backup (r\<lparr>am_event := ev\<rparr>) w2)"
      using assms(2) cb unfolding keeps_platform_def by blast
    then show ?thesis using c1 same_more(12) [OF parse_more [OF p]] by simp
  qed
qed (use assms in \<open>simp add: amap_http_content_def\<close>)

lemma transfer_client:
  assumes "amap_http_transfer parse ind cbf c path w = Some (ret, w')" and "keeps_platform cbf"
  shows "s_amap_client (w_amapst w') \<noteq> None"
    and "ret \<noteq> CM_LBS_OK \<Longrightarrow> s_amap_location_rsp (w_amapst w') = s_amap_location_rsp (w_amapst w)"
proof -
  define h where "h = s_amap_curl_handle (w_amapst w)"
  define m where "m = s_amap_curl_multi_handle (w_amapst w)"
  define w0 where "w0 = set_amap (\<lambda>s. s\<lparr>s_amap_client := Some (c\<lparr>cl_http_client := h\<rparr>)\<rparr>) w"
  obtain url w1 added w2 where u: "curl_easy_setopt h w0 = Some w1"
    and a: "curl_multi_add_handle m h w1 = Some (added, w2)"
    and rest: "(if \<not> added then Some (CM_LBS_ERR, w2)
      else (case curl_multi_perform m w2 of (performed, w3) \<Rightarrow>
        if \<not> performed then Some (CM_LBS_ERR, w3)
        else do {
          w4 \<leftarrow> amap_http_callback parse cbf h
            (CM_HTTP_CALLBACK_EVENT_RSP_CONTENT_IND (response_text ind))
            (w3\<lparr>w_sent := w_sent w3 @ [url]\<rparr>);
          Some (CM_LBS_OK, w4) })) = Some (ret, w')"
    using assms(1) unfolding amap_http_transfer_def Let_def h_def m_def w0_def
    by (clarsimp simp: bind_eq_Some_conv simp del: not_None_eq)
  obtain performed w3 where p: "curl_multi_perform m w2 = (performed, w3)"
    by (cases "curl_multi_perform m w2")
  have s: "w_amapst w2 = w_amapst w0" "w_amapst w3 = w_amapst w0"
    using curl_amapst(1) [OF u] curl_amapst(2) [OF a] curl_amapst(3) [OF p] by simp_all
  have "s_amap_client (w_amapst w') \<noteq> None
    \<and> (ret \<noteq> CM_LBS_OK \<longrightarrow> s_amap_location_rsp (w_amapst w') = s_amap_location_rsp (w_amapst w))"
  proof (cases "added \<and> performed")
    case True
    then obtain "amap_http_callback parse cbf h (CM_HTTP_CALLBACK_EVENT_RSP_CONTENT_IND (response_text ind))
        (w3\<lparr>w_sent := w_sent w3 @ [url]\<rparr>) = Some w'" and "ret = CM_LBS_OK"
      using rest by (auto simp: p split: bind_splits)
    then show ?thesis
      using s http_content_client [OF _ assms(2), of parse "c\<lparr>cl_http_client := h\<rparr>" "response_text ind"
          "w3\<lparr>w_sent := w_sent w3 @ [url]\<rparr>" w'] by (simp add: amap_http_callback_def w0_def)
  next
    case False
    then show ?thesis using rest s by (auto simp: p w0_def split: if_splits)
  qed
  then show "s_amap_client (w_amapst w') \<noteq> None"
    "ret \<noteq> CM_LBS_OK \<Longrightarrow> s_amap_location_rsp (w_amapst w') = s_amap_location_rsp (w_amapst w)" by simp_all
qed

lemma curl_open_client:
  assumes "amap_curl_open w = (b, w1)"
  shows "s_amap_client (w_amapst w1) = s_amap_client (w_amapst w)"
    and "s_amap_location_rsp (w_amapst w1) = s_amap_location_rsp (w_amapst w)"
  using assms by (auto simp: amap_curl_open_def curl_easy_init_def curl_multi_init_def next_answer_def
      split: if_splits prod.splits list.splits)

lemma requst_client:
  assumes "amap_http_requst parse md5 ind cbf w = Some (ret, w')" and "keeps_platform cbf"
    and "s_amap_client (w_amapst w) \<noteq> None"
  shows "s_amap_client (w_amapst w') \<noteq> None
    \<and> (ret \<noteq> CM_LBS_OK \<longrightarrow> s_amap_location_rsp (w_amapst w') = s_amap_location_rsp (w_amapst w))"
proof -
  obtain ok w1 where m: "env_malloc w = (ok, w1)" by (cases "env_malloc w")
  note s1 = same_more(12) [OF malloc_more [OF m]]
  show ?thesis
  proof (cases ok)
    case False
    then show ?thesis using assms(1,3) s1 by (simp add: amap_http_requst_def m)
  next
    case True
    then obtain c len path w2 where p: "amap_create_requst_HttpPath md5 [] (cl_ueinfo c) (cl_auth c) w1
        = Some ((len, path), w2)" and c: "s_amap_client (w_amapst w1) = Some c"
      using assms(1) by (auto simp: amap_http_requst_def m split: bind_splits)
    obtain opened w3 where o: "amap_curl_open w2 = (opened, w3)" by (cases "amap_curl_open w2")
    have s2: "w_amapst w2 = w_amapst w" using same_more(12) [OF path_more [OF p]] s1 by simp
    have "(if len < 0 then Some (CM_LBS_ERR, w2) else if \<not> opened then Some (CM_LBS_ERR, w3)
        else amap_http_transfer parse ind cbf c path w3) = Some (ret, w')"
      using assms(1) True by (simp add: amap_http_requst_def m c p o cong: if_cong)
    then show ?thesis
      using transfer_client [OF _ assms(2), of parse ind c path w3 ret w'] s2 curl_open_client [OF o] assms(3)
      by (auto split: if_splits)
  qed
qed

lemma backup_client:
  "amap_backup_lastkey k sk sf se w = Some w' \<Longrightarrow> s_amap_client (w_amapst w') = s_amap_client (w_amapst w)
    \<and> s_amap_location_rsp (w_amapst w') = s_amap_location_rsp (w_amapst w)"
  "amap_backup_ueinfo ue w = Some w' \<Longrightarrow> s_amap_client (w_amapst w') = s_amap_client (w_amapst w)
    \<and> s_amap_location_rsp (w_amapst w') = s_amap_location_rsp (w_amapst w)"
  unfolding amap_backup_lastkey_def amap_backup_ueinfo_def Let_def
  by (auto simp: same_more(12) [OF malloc_more] same_more(12) [OF copy_ueinfo_more]
      split: option.splits prod.splits if_splits bind_splits)

text \<open>No client and no remembered result: how the platform starts, and how every failed request leaves
  it.\<close>

definition amap_idle :: "amap_static \<Rightarrow> bool" where
  "amap_idle s \<longleftrightarrow> s_amap_client s = None \<and> s_amap_location_rsp s = None"

lemma fresh_location_client:
  assumes "amap_fresh_location parse md5 ind cbf ueinfo attr w = Some (ret, w')" and "keeps_platform cbf"
    and "amap_idle (w_amapst w)"
  shows "if ret = CM_LBS_OK then s_amap_client (w_amapst w') \<noteq> None else amap_idle (w_amapst w')"
proof -
  obtain client w1 where c: "amap_create_by_attr ueinfo attr w = Some (client, w1)"
    using assms(1) by (auto simp: amap_fresh_location_def split: bind_splits)
  have i1: "amap_idle (w_amapst w1)" using same_more(12) [OF create_more [OF c]] assms(3) by simp
  show ?thesis
  proof (cases client)
    case None
    then show ?thesis using assms(1) i1 by (auto simp: amap_fresh_location_def c)
  next
    case (Some cl)
    obtain ue w2 w3 r w4 where
      k: "amap_backup_lastkey (au_apikey (am_auth attr)) (au_digital_sign_key (am_auth attr))
        (au_show_fields_enable (am_auth attr)) (au_digital_sign_enable (am_auth attr))
        (set_amap (\<lambda>s. s\<lparr>s_amap_client := Some (cl\<lparr>cl_busy := True\<rparr>)\<rparr>) w1) = Some w2"
      and u: "amap_backup_ueinfo ue w2 = Some w3"
      and r: "amap_http_requst parse md5 ind cbf w3 = Some (r, w4)"
      and fin: "(if r = CM_LBS_OK then Some (r, w4) else do {
             w5 \<leftarrow> amap_http_release w4; w6 \<leftarrow> amap_delete w5; Some (r, w6) }) = Some (ret, w')"
      using assms(1) Some unfolding amap_fresh_location_def c Let_def
      by (clarsimp simp: bind_eq_Some_conv simp del: not_None_eq)
    have c3: "s_amap_client (w_amapst w3) \<noteq> None" "s_amap_location_rsp (w_amapst w3) = None"
      using backup_client(1) [OF k] backup_client(2) [OF u] i1 by (simp_all add: amap_idle_def)
    note q = requst_client [OF r assms(2) c3(1)]
    show ?thesis
    proof (cases "r = CM_LBS_OK")
      case False
      then obtain w5 where "amap_http_release w4 = Some w5" "amap_delete w5 = Some w'" "ret = r"
        using fin by (auto split: bind_splits)
      then show ?thesis using False q c3(2) curl_amapst(4) [of _ w4 w5]
        by (auto simp: amap_http_release_def amap_delete_def amap_idle_def split: option.splits bind_splits)
    qed (use fin q in simp)
  qed
qed

text \<open>From an idle platform: a call that succeeds leaves its client behind, any other leaves the
  platform idle. With a client there, every call is refused.\<close>

lemma location_client:
  assumes "cm_amap_location parse md5 ind cbf ueinfo attr w = Some (ret, w')" and "keeps_platform cbf"
    and "amap_idle (w_amapst w)"
  shows "if ret = CM_LBS_OK then s_amap_client (w_amapst w') \<noteq> None else amap_idle (w_amapst w')"
proof -
  have r: "amap_return_last_location f attr w = Some (CM_LBS_ERR, w)" for f
    using assms(3) by (simp add: amap_return_last_location_def amap_idle_def)
  have "amap_fresh_location parse md5 ind cbf ueinfo attr w = Some (ret, w')"
    using assms(1,3) unfolding cm_amap_location_def Let_def amap_state_busy_def amap_idle_def
    by (auto simp: r split: bind_splits if_splits)
  from fresh_location_client [OF this assms(2,3)] show ?thesis .
qed

lemma location_busy:
  "s_amap_client (w_amapst w) \<noteq> None \<Longrightarrow>
    cm_amap_location parse md5 ind cbf ueinfo attr w = Some (CM_LBS_BUSY, w)"
  by (simp add: cm_amap_location_def)

lemma deinit_platforms:
  assumes "cm_lbs_deinit w = Some w'"
  shows "w_amapst w' = w_amapst w" and "w_oneosst w' = w_oneosst w" and "w_handles w' = w_handles w"
  using assms unfolding cm_lbs_deinit_def cm_lbs_s_amap_attr_free_def cm_lbs_s_oneospos_attr_free_def
    cm_amap_free_ueinfo_def cm_oneospos_free_ueinfo_def free_ueinfo_def
  by (auto split: option.splits bind_splits if_splits)

lemma dispatch_platforms:
  assumes "dispatch_cb gcj f ev rsp arg w = Some w'"
  shows "w_amapst w' = w_amapst w" and "w_oneosst w' = w_oneosst w"
proof -
  have "w_amapst w' = w_amapst w \<and> w_oneosst w' = w_oneosst w"
  proof (cases f)
    case ATCMD_CALLBACK
    then obtain u where 1: "cm_lbs_atcmd_location_urc_rsp gcj (atcmd_state ev) rsp w = Some u"
      "cm_lbs_deinit u = Some w'"
      using assms by (auto simp: dispatch_cb_def cm_lbs_atcmd_callback_def split: bind_splits)
    obtain t v where "lbs_env.more v = lbs_env.more w" "u = v\<lparr>w_urc := w_urc w @ [t]\<rparr>"
      by (rule urc_reported [OF 1(1)])
    then show ?thesis using deinit_platforms [OF 1(2)] same_more(12,13) [of v w] by simp
  next
    case AT_MLBS_CALLBACK
    then obtain t where "cm_lbs_deinit (cm_lbs_urc_rsp t w) = Some w'"
      using assms by (auto simp: dispatch_cb_def cm_lbs_atcmd_at_mlbs_callback_def
          split: bind_splits if_splits)
    from deinit_platforms [OF this] show ?thesis by (simp add: cm_lbs_urc_rsp_def)
  qed
  then show "w_amapst w' = w_amapst w" "w_oneosst w' = w_oneosst w" by simp_all
qed

lemma service_callback_keeps: "keeps_platform (cm_lbs_amap_callback (dispatch_cb gcj))"
proof -
  have "w_amapst v' = w_amapst v" if c: "cm_lbs_amap_callback (dispatch_cb gcj) ev r m v = Some v'"
    for ev r m v v'
  proof -
    obtain u f res arg where "lbs_env.more u = lbs_env.more v" "dispatch_cb gcj f (amap_ret ev) res arg u = Some v'"
      by (rule amap_callback_calls [OF c])
    then show ?thesis using dispatch_platforms(1) same_more(12) [of u v] by simp
  qed
  then show ?thesis unfolding keeps_platform_def by blast
qed

section \<open>A request from start to end\<close>

text \<open>With memory, libcurl and room for the URL, and with device information as this build has it (no
  texts behind pointers but the neighbouring cells).\<close>

lemma copy_ueinfo_plenty:
  assumes "env_allocs w = []" and "ue_server_ip ue = None" and "ue_network_type ue = None"
  shows "amap_copy_ueinfo ue w = (ue, w)"
  using assms by (simp add: amap_copy_ueinfo_def malloc_plenty Let_def split: option.split)

lemma copy_auth_plenty:
  assumes "env_allocs w = []" and "au_apikey au = Some k" "c_str k = Some key"
    and "au_digital_sign_key au = Some d" "c_str d = Some dkey"
  shows "amap_copy_auth au w
    = Some ((au\<lparr>au_apikey := Some (key @ [NUL]), au_digital_sign_key := Some (dkey @ [NUL])\<rparr>, True, True), w)"
  using assms by (simp add: amap_copy_auth_def malloc_plenty)

lemma allocs_simps [simp]:
  "env_allocs (set_amap f w) = env_allocs w" "env_allocs (w\<lparr>w_curl := x\<rparr>) = env_allocs w"
  "env_allocs (w\<lparr>w_sent := y\<rparr>) = env_allocs w"
  by (simp_all add: set_amap_def)

lemma signed_params_copy:
  "c_str d = Some dkey \<Longrightarrow> au_digital_sign_key au = Some d \<Longrightarrow>
    signed_params md5 (au\<lparr>au_apikey := k, au_digital_sign_key := Some (dkey @ [NUL])\<rparr>) ps = signed_params md5 au ps"
  using c_str_SomeD(1) [of d dkey]
  by (auto simp: signed_params_def c_str_def takeWhile_append split: if_splits)

text \<open>The URL of a request as it should be.\<close>

definition amap_url :: "(bytes \<Rightarrow> bytes) \<Rightarrow> cm_amap_ue_info_t \<Rightarrow> cm_amap_authentication_t \<Rightarrow> string \<Rightarrow> string" where
  "amap_url md5 ue au key =
     (if au_platform au = CM_LBS_PLAT_AMAP10
      then CM_LBS_AMAPV1_URL @ CM_LBS_AMAPV1_PATH @ signed_params md5 au (v1_params ue key)
      else CM_LBS_AMAPV2_URL @ CM_LBS_AMAPV2_PATH
        @ signed_params md5 au (v2_params ue (au_show_fields_enable au) key))"

definition request_fits :: "cm_amap_ue_info_t \<Rightarrow> cm_amap_authentication_t \<Rightarrow> string \<Rightarrow> bool" where
  "request_fits ue au key \<longleftrightarrow>
     (if au_platform au = CM_LBS_PLAT_AMAP10
      then length (cell_text (ue_cell_info ue)) < 64 \<and> length (v1_params ue key) < 970
        \<and> can_sign au (v1_params ue key)
      else au_platform au = CM_LBS_PLAT_AMAP20
        \<and> length (cell_text (ue_cell_info ue) @ '','' @ dec_int (sint (ue_cage ue))) < 64
        \<and> length (v2_params ue (au_show_fields_enable au) key) < 970
        \<and> can_sign au (v2_params ue (au_show_fields_enable au) key))"

lemma path_ok:
  assumes "env_allocs w = []" and "ue_wf ue" and "request_fits ue au key"
    and "au_apikey au = Some k" "c_str k = Some key" and "\<And>x. length (md5 x) = 16"
  obtains path where "amap_create_requst_HttpPath md5 [] ue au w = Some ((int (length path), path), w)"
    and "(if au_platform au = CM_LBS_PLAT_AMAP10 then CM_LBS_AMAPV1_URL else CM_LBS_AMAPV2_URL) @ path
      = amap_url md5 ue au key" and "path \<noteq> []"
proof (cases "au_platform au = CM_LBS_PLAT_AMAP10")
  case True
  then show ?thesis
    using that v1_path_ok [where ?md5.0 = md5, OF assms(1,2) _ assms(4,5) _ _ assms(6)] assms(3)
    by (simp add: amap_create_requst_HttpPath_def amap_url_def request_fits_def CM_LBS_AMAPV1_PATH_def)
next
  case False
  then have "au_platform au = CM_LBS_PLAT_AMAP20" using assms(3) by (simp add: request_fits_def)
  then show ?thesis
    using that v2_path_ok [where ?md5.0 = md5, OF assms(1,2) _ assms(4,5) _ _ assms(6)] assms(3) False
    by (simp add: amap_create_requst_HttpPath_def amap_url_def request_fits_def CM_LBS_AMAPV2_PATH_def)
qed

lemma print_url_ok:
  "length (url @ path) \<le> room \<Longrightarrow> amap_print_url room url path = Some (butlast (url @ path))"
  by (simp add: amap_print_url_def Let_def butlast_conv_take)

lemma transfer_ok:
  assumes "s_amap_curl_handle (w_amapst w) = Some i" "s_amap_curl_multi_handle (w_amapst w)"
    and "i \<in> w_handles w" and "w_curl w = []"
    and "url = (if au_platform (cl_auth c) = CM_LBS_PLAT_AMAP10 then CM_LBS_AMAPV1_URL else CM_LBS_AMAPV2_URL)"
    and "length (url @ path) \<le> url_room ind"
  shows "amap_http_transfer parse ind cbf c path w
    = map_option (Pair CM_LBS_OK) (amap_http_callback parse cbf (Some i)
        (CM_HTTP_CALLBACK_EVENT_RSP_CONTENT_IND (response_text ind))
        (set_amap (\<lambda>s. s\<lparr>s_amap_client := Some (c\<lparr>cl_http_client := Some i\<rparr>)\<rparr>) w
          \<lparr>w_sent := w_sent w @ [butlast (url @ path)]\<rparr>))"
proof -
  define w0 where "w0 = set_amap (\<lambda>s. s\<lparr>s_amap_client := Some (c\<lparr>cl_http_client := Some i\<rparr>)\<rparr>) w"
  have h: "w_handles w0 = w_handles w" "w_curl w0 = []" "w_sent w0 = w_sent w" "w0\<lparr>w_curl := []\<rparr> = w0"
    using assms(4) by (simp_all add: w0_def set_amap_def)
  have "amap_print_url (url_room ind) (if au_platform (cl_auth c) = CM_LBS_PLAT_AMAP10
      then CM_LBS_AMAPV1_URL else CM_LBS_AMAPV2_URL) path = Some (butlast (url @ path))"
    using print_url_ok [OF assms(6)] assms(5) by simp
  then show ?thesis
    using assms(1-3) h(1-3) unfolding w0_def [symmetric] map_conv_bind_option
    by (simp add: amap_http_transfer_def curl_easy_setopt_def curl_multi_add_handle_def
        curl_multi_perform_def next_answer_def w0_def [symmetric] comp_def h(4))
qed

lemma content_ok:
  assumes "amap_callback_state (w_amapst w) = 0" and "env_allocs w = []"
    and "content = Some text"
    and "cm_lbs_amap_http_location_parse parse (au_platform (cl_auth c)) (Some zero_amap_rsp) text
      (set_amap (\<lambda>s. s\<lparr>amap_callback_state := 2\<rparr>) w)
      = Some (ev, Some r, set_amap (\<lambda>s. s\<lparr>amap_callback_state := 2\<rparr>) w)"
  shows "amap_http_content parse cbf c content w
    = cbf ev (Some (r\<lparr>am_event := ev\<rparr>)) (cl_cb_arg c)
        (amap_rsp_backup (r\<lparr>am_event := ev\<rparr>) (set_amap (\<lambda>s. s\<lparr>amap_callback_state := 2\<rparr>) w))"
  using assms by (simp add: amap_http_content_def malloc_plenty Let_def)

lemma backup_plenty:
  assumes "env_allocs w = []" and "au_apikey au = Some k" "c_str k = Some key"
    and "au_digital_sign_key au = Some d" "c_str d = Some dkey"
  shows "amap_backup_lastkey (au_apikey au) (au_digital_sign_key au) sf se w
    = Some (set_amap (\<lambda>s. s\<lparr>s_signen := se, s_show_fields_enable := sf, s_amap_last_key := Some key,
        s_amap_last_signkey := Some dkey\<rparr>) w)"
  using assms by (simp add: amap_backup_lastkey_def opt_c_str_def malloc_plenty set_amap_def)

lemma backup_ueinfo_plenty:
  assumes "env_allocs w = []" and "s_ue_info_last (w_amapst w) = None"
    and "ue_server_ip ue = None" "ue_network_type ue = None"
  shows "amap_backup_ueinfo ue w
    = Some (set_amap (\<lambda>s. s\<lparr>s_ue_info_last := Some ue, ue_last_live := True\<rparr>) w)"
  using assms by (simp add: amap_backup_ueinfo_def malloc_plenty copy_ueinfo_plenty set_amap_def)

lemma curl_open_plenty:
  assumes "w_curl w = []" and "s_amap_curl_handle (w_amapst w) = None"
  shows "amap_curl_open w = (True, set_amap (\<lambda>s. s\<lparr>s_amap_curl_handle := Some (w_next w),
      s_amap_curl_multi_handle := True\<rparr>)
    (w\<lparr>w_handles := insert (w_next w) (w_handles w), w_next := Suc (w_next w)\<rparr>))"
  using assms by (simp add: amap_curl_open_def curl_easy_init_def curl_multi_init_def next_answer_def
      set_amap_def)

text \<open>The copy of the keys in the client says the same as the session's keys.\<close>

lemma copied_auth:
  assumes "au_digital_sign_key au = Some d" "c_str d = Some dkey"
    and "au' = au\<lparr>au_apikey := Some (key @ [NUL]), au_digital_sign_key := Some (dkey @ [NUL])\<rparr>"
  shows "amap_url md5 ue au' key = amap_url md5 ue au key" and "request_fits ue au' key = request_fits ue au key"
proof -
  have "c_str (dkey @ [NUL]) = Some dkey" using c_str_append_NUL [OF c_str_SomeD(1) [OF assms(2)], of "[]"] .
  then have "can_sign au' ps = can_sign au ps" for ps using assms by (simp add: can_sign_def)
  then show "request_fits ue au' key = request_fits ue au key" by (simp add: request_fits_def assms(3))
  show "amap_url md5 ue au' key = amap_url md5 ue au key"
    using signed_params_copy [OF assms(2,1)] by (simp add: amap_url_def assms(3))
qed

lemma backup_sent: "w_sent (amap_rsp_backup r w) = w_sent w"
  unfolding amap_rsp_backup_def
  by (auto simp: set_amap_def same_more(15) [OF malloc_more] same_more(15) [OF copy_rsp_more]
      split: prod.splits)

lemma copy_rsp_plenty:
  assumes "env_allocs w = []"
  shows "\<exists>r'. amap_copy_rsp r w = (r', w)"
proof -
  have "\<forall>v. \<exists>x. amap_copy_location_rsp v w = (x, w)"
    using assms by (auto simp: amap_copy_location_rsp_def malloc_plenty split: option.split)
  then obtain f where "\<And>v. amap_copy_location_rsp v w = (f v, w)" by metis
  then show ?thesis by (simp add: amap_copy_rsp_def split: prod.split)
qed

lemma backup_env:
  assumes "env_allocs w = []"
  shows "env_fs (amap_rsp_backup r w) = env_fs w \<and> env_allocs (amap_rsp_backup r w) = []"
  using assms copy_rsp_plenty [OF assms, of r]
  by (auto simp: amap_rsp_backup_def malloc_plenty set_amap_def)

text \<open>The HTTP part, from a client that was just created.\<close>

lemma first_transfer:
  assumes "env_allocs w = []" "w_curl w = []" "s_amap_curl_handle (w_amapst w) = None"
    and "amap_callback_state (w_amapst w) = 0" and c: "s_amap_client (w_amapst w) = Some c"
    and "amap_create_requst_HttpPath md5 [] (cl_ueinfo c) (cl_auth c) w = Some ((int (length path), path), w)"
    and "(if au_platform (cl_auth c) = CM_LBS_PLAT_AMAP10 then CM_LBS_AMAPV1_URL else CM_LBS_AMAPV2_URL) @ path = url"
    and "length url \<le> url_room ind" and "response_text ind = Some text"
    and "\<And>v. env_allocs v = [] \<Longrightarrow> cm_lbs_amap_http_location_parse parse (au_platform (cl_auth c))
      (Some zero_amap_rsp) text v = Some (ev, Some r, v)"
  shows "\<exists>v. amap_http_requst parse md5 ind cbf w = map_option (Pair CM_LBS_OK)
      (cbf ev (Some (r\<lparr>am_event := ev\<rparr>)) (cl_cb_arg c) v)
    \<and> w_sent v = w_sent w @ [butlast url] \<and> service_same w v
    \<and> env_fs v = env_fs w \<and> env_allocs v = []"
proof -
  define i where "i = w_next w"
  define w4 where "w4 = set_amap (\<lambda>s. s\<lparr>s_amap_curl_handle := Some i, s_amap_curl_multi_handle := True\<rparr>)
    (w\<lparr>w_handles := insert i (w_handles w), w_next := Suc i\<rparr>)"
  have open': "amap_curl_open w = (True, w4)"
    unfolding w4_def i_def by (rule curl_open_plenty [OF assms(2,3)])
  have st4: "s_amap_curl_handle (w_amapst w4) = Some i" "s_amap_curl_multi_handle (w_amapst w4)"
    "i \<in> w_handles w4" "w_curl w4 = []" "env_allocs w4 = []" "w_sent w4 = w_sent w"
    "amap_callback_state (w_amapst w4) = 0" "service_same w w4"
    using assms(1,2,4) by (simp_all add: w4_def, simp_all add: set_amap_def service_same_def i_def)
  define c5 where "c5 = c\<lparr>cl_http_client := Some i\<rparr>"
  define w5 where "w5 = set_amap (\<lambda>s. s\<lparr>s_amap_client := Some c5\<rparr>) w4
    \<lparr>w_sent := w_sent w4 @ [butlast url]\<rparr>"
  have st5: "amap_callback_state (w_amapst w5) = 0" "env_allocs w5 = []" "s_amap_client (w_amapst w5) = Some c5"
    "w_sent w5 = w_sent w @ [butlast url]" "service_same w w5"
    using st4 by (simp_all add: w5_def set_amap_def service_same_def)
  define v where "v = amap_rsp_backup (r\<lparr>am_event := ev\<rparr>) (set_amap (\<lambda>s. s\<lparr>amap_callback_state := 2\<rparr>) w5)"
  have e: "env_allocs (set_amap (\<lambda>s. s\<lparr>amap_callback_state := 2\<rparr>) w5) = []" using st5(2) by simp
  have p5: "cl_cb_arg c5 = cl_cb_arg c" "cl_auth c5 = cl_auth c" by (simp_all add: c5_def)
  have "amap_http_content parse cbf c5 (response_text ind) w5 = cbf ev (Some (r\<lparr>am_event := ev\<rparr>)) (cl_cb_arg c5) v"
    unfolding v_def by (rule content_ok [OF st5(1,2) assms(9)]) (simp add: assms(10) [OF e] p5)
  then have "amap_http_callback parse cbf (Some i) (CM_HTTP_CALLBACK_EVENT_RSP_CONTENT_IND (response_text ind)) w5
    = cbf ev (Some (r\<lparr>am_event := ev\<rparr>)) (cl_cb_arg c) v"
    using st5(3) p5 by (simp add: amap_http_callback_def c5_def)
  then have "amap_http_requst parse md5 ind cbf w = map_option (Pair CM_LBS_OK)
      (cbf ev (Some (r\<lparr>am_event := ev\<rparr>)) (cl_cb_arg c) v)"
    using transfer_ok [OF st4(1-4), of _ c path ind parse cbf] assms(6-8) c open'
    by (simp add: amap_http_requst_def malloc_plenty [OF assms(1)] w5_def c5_def cong: if_cong)
  moreover have "w_sent v = w_sent w @ [butlast url]"
    using st5(4) by (simp add: v_def backup_sent set_amap_def)
  moreover have "service_same w v"
    using st5(5) backup_same service_same_trans unfolding v_def by (metis service_same_set_amap(1))
  moreover have "env_fs v = env_fs w \<and> env_allocs v = []"
    using backup_env [OF e, of "r\<lparr>am_event := ev\<rparr>"]
    by (simp add: v_def) (simp add: w5_def w4_def set_amap_def)
  ultimately show ?thesis by blast
qed

text \<open>The first request after the start: one URL goes out, without its last character, and the answer's
  result reaches the callback once.\<close>

lemma first_request:
  assumes "w_amapst w = zero_amap_static" "env_allocs w = []" "w_curl w = []"
    and "ue_wf ue" "ue_server_ip ue = None" "ue_network_type ue = None" "request_fits ue au key"
    and "au_apikey au = Some k" "c_str k = Some key" "au_digital_sign_key au = Some d" "c_str d = Some dkey"
    and "am_auth attr = au" and "\<And>x. length (md5 x) = 16"
    and "length (amap_url md5 ue au key) \<le> url_room ind" and "response_text ind = Some text"
    and "\<And>v. env_allocs v = [] \<Longrightarrow>
      cm_lbs_amap_http_location_parse parse (au_platform au) (Some zero_amap_rsp) text v = Some (ev, Some r, v)"
  shows "\<exists>v. cm_amap_location parse md5 ind cbf (Some ue) attr w
      = map_option (Pair CM_LBS_OK) (cbf ev (Some (r\<lparr>am_event := ev\<rparr>)) (am_cb_arg attr) v)
    \<and> w_sent v = w_sent w @ [butlast (amap_url md5 ue au key)] \<and> service_same w v
    \<and> env_fs v = env_fs w \<and> env_allocs v = []"
proof -
  define au' where "au' = au\<lparr>au_apikey := Some (key @ [NUL]), au_digital_sign_key := Some (dkey @ [NUL])\<rparr>"
  define c where "c = \<lparr>cl_http_client = None, cl_busy = False, cl_ueinfo = ue, cl_auth = au',
    cl_own_apikey = True, cl_own_sign_key = True, cl_cb_arg = am_cb_arg attr\<rparr>"
  define w1 where "w1 = set_amap (\<lambda>s. s\<lparr>s_amap_client := Some (c\<lparr>cl_busy := True\<rparr>)\<rparr>) w"
  define w2 where "w2 = set_amap (\<lambda>s. s\<lparr>s_signen := au_digital_sign_enable au,
    s_show_fields_enable := au_show_fields_enable au, s_amap_last_key := Some key, s_amap_last_signkey := Some dkey\<rparr>) w1"
  define w3 where "w3 = set_amap (\<lambda>s. s\<lparr>s_ue_info_last := Some ue, ue_last_live := True\<rparr>) w2"
  have create: "amap_create_by_attr (Some ue) attr w = Some (Some c, w)"
    using assms(1,2,12) copy_ueinfo_plenty [OF assms(2,5,6)] copy_auth_plenty [OF assms(2,8-11)]
    by (simp add: amap_create_by_attr_def malloc_plenty c_def au'_def zero_amap_static_def)
  have st: "s_ue_info_last (w_amapst w2) = None" "env_allocs w1 = []" "env_allocs w2 = []" "env_allocs w3 = []"
    "w_curl w3 = []" "s_amap_curl_handle (w_amapst w3) = None" "amap_callback_state (w_amapst w3) = 0"
    "s_amap_client (w_amapst w3) = Some (c\<lparr>cl_busy := True\<rparr>)" "w_sent w3 = w_sent w" "service_same w w3"
    using assms(1-3)
    by (simp_all add: w1_def w2_def w3_def zero_amap_static_def, simp_all add: set_amap_def)
  have b: "amap_backup_lastkey (au_apikey au) (au_digital_sign_key au) (au_show_fields_enable au)
      (au_digital_sign_enable au) w1 = Some w2" "amap_backup_ueinfo ue w2 = Some w3"
    unfolding w2_def w3_def
    by (rule backup_plenty [OF st(2) assms(8-11)], rule backup_ueinfo_plenty [OF _ _ assms(5,6)])
       (use st in \<open>simp_all add: w2_def\<close>)
  have k': "au_apikey au' = Some (key @ [NUL])" "c_str (key @ [NUL]) = Some key" "au_platform au' = au_platform au"
    using c_str_append_NUL [OF c_str_SomeD(1) [OF assms(9)], of "[]"] by (simp_all add: au'_def)
  note cp = copied_auth [OF assms(10,11) au'_def]
  obtain path where path: "amap_create_requst_HttpPath md5 [] ue au' w3 = Some ((int (length path), path), w3)"
    and url: "(if au_platform au' = CM_LBS_PLAT_AMAP10 then CM_LBS_AMAPV1_URL else CM_LBS_AMAPV2_URL) @ path
      = amap_url md5 ue au key"
    using path_ok [where ?md5.0 = md5, OF st(4) assms(4) _ k'(1,2) assms(13)] cp assms(7) by metis
  have cc: "cl_ueinfo (c\<lparr>cl_busy := True\<rparr>) = ue" "cl_auth (c\<lparr>cl_busy := True\<rparr>) = au'"
    "cl_cb_arg (c\<lparr>cl_busy := True\<rparr>) = am_cb_arg attr" by (simp_all add: c_def)
  have "\<exists>v. amap_http_requst parse md5 ind cbf w3 = map_option (Pair CM_LBS_OK)
      (cbf ev (Some (r\<lparr>am_event := ev\<rparr>)) (am_cb_arg attr) v)
    \<and> w_sent v = w_sent w3 @ [butlast (amap_url md5 ue au key)] \<and> service_same w3 v
    \<and> env_fs v = env_fs w3 \<and> env_allocs v = []"
    using first_transfer [OF st(4-8), where ?md5.0 = md5] path url assms(14-16) k'(3) unfolding cc by metis
  then obtain v where v: "amap_http_requst parse md5 ind cbf w3 = map_option (Pair CM_LBS_OK)
      (cbf ev (Some (r\<lparr>am_event := ev\<rparr>)) (am_cb_arg attr) v)"
    "w_sent v = w_sent w @ [butlast (amap_url md5 ue au key)]" "service_same w v"
    "env_fs v = env_fs w" "env_allocs v = []"
    using st(9,10) service_same_trans by (auto simp: w1_def w2_def w3_def set_amap_def)
  have "amap_fresh_location parse md5 ind cbf (Some ue) attr w = map_option (Pair CM_LBS_OK)
      (cbf ev (Some (r\<lparr>am_event := ev\<rparr>)) (am_cb_arg attr) v)"
    using create b v(1) assms(12)
    by (cases "cbf ev (Some (r\<lparr>am_event := ev\<rparr>)) (am_cb_arg attr) v")
       (simp_all add: amap_fresh_location_def w1_def)
  then show ?thesis using assms(1) v(2-5)
    by (auto simp: cm_amap_location_def amap_state_busy_def amap_ueinfo_compare_def zero_amap_static_def)
qed

end
