(* ===== verification/OneosLocation.thy ===== *)
theory OneosLocation
  imports AmapFacts
begin

text \<open>
  The OneOS platform, \<^verbatim>\<open>cm_lbs/cm_lbs/src/cm_lbs_oneospos.c\<close>: the answer, the results and attributes it
  remembers, the body of the request, the HTTP exchange, and \<open>cm_oneospos_location\<close>. The callback of
  the session is the argument \<open>cbf\<close>, the JSON parser \<open>parse\<close>. The client is the copy of the session's
  attributes; its pointer is never reset, so \<open>client_live\<close> says whether the block is allocated.
\<close>

type_synonym oneospos_cb = "cm_oneospos_callback_event_e \<Rightarrow> cm_oneospos_location_rsp_t option
    \<Rightarrow> cm_lbs_callback_msg_t option \<Rightarrow> lbs_world \<Rightarrow> lbs_world option"

definition set_oneos :: "(oneospos_static \<Rightarrow> oneospos_static) \<Rightarrow> lbs_world \<Rightarrow> lbs_world" where
  "set_oneos f w = w\<lparr>w_oneosst := f (w_oneosst w)\<rparr>"

section \<open>The answer\<close>

definition receive_event :: "(cm_oneospos_callback_event_e \<times> string) list" where
  "receive_event = [(CM_ONEOSPOS_EVENT_FAIL, ''10000''), (CM_ONEOSPOS_EVENT_OVER_RESTRICT, ''11000''),
     (CM_ONEOSPOS_EVENT_UNSET_PLATFORM, ''12000'')]"

fun find_receive :: "string \<Rightarrow> (cm_oneospos_callback_event_e \<times> string) list
    \<Rightarrow> cm_oneospos_callback_event_e" where
  "find_receive code [] = CM_ONEOSPOS_EVENT_UNKNOW"
| "find_receive code ((ev, c) # rs) = (if c = code then ev else find_receive code rs)"

definition oneospos_find_callback_event :: "string \<Rightarrow> cm_oneospos_callback_event_e" where
  "oneospos_find_callback_event code = find_receive code receive_event"

text \<open>\<open>__cm_location_string_parse_to_latitude_longitude\<close> into two arrays, whatever their size; the second
  half is copied with its NUL, the first without.\<close>

definition location_string_parse :: "string option \<Rightarrow> bytes \<Rightarrow> bytes
    \<Rightarrow> (cm_lbs_state_e \<times> bytes \<times> bytes) option" where
  "location_string_parse la_longitude latitude longitude =
     (case la_longitude of
        None \<Rightarrow> Some (CM_LBS_PARAMERR, latitude, longitude)
      | Some s \<Rightarrow>
          (case split_comma s of
             None \<Rightarrow> Some (CM_LBS_ERR, latitude, longitude)
           | Some (la, lon) \<Rightarrow> do {
               latitude' \<leftarrow> arr_copy la latitude;
               longitude' \<leftarrow> arr_copy (lon @ [NUL]) longitude;
               Some (CM_LBS_OK, latitude', longitude') }))"

definition CM_LBS_ONEOSPOS_RSP_LENMAX :: nat where "CM_LBS_ONEOSPOS_RSP_LENMAX = 64"

definition oneospos_copy_location_rsp :: "string option \<Rightarrow> lbs_world
    \<Rightarrow> (cm_lbs_state_e \<times> string option) \<times> lbs_world" where
  "oneospos_copy_location_rsp json_vue w =
     (case json_vue of
        None \<Rightarrow> ((CM_LBS_ERR, None), w)
      | Some v \<Rightarrow>
          if 0 < length v \<and> length v < CM_LBS_ONEOSPOS_RSP_LENMAX
          then (case env_malloc w of (ok, w1) \<Rightarrow>
             if ok then ((CM_LBS_OK, Some v), w1) else ((CM_LBS_MEMROYERR, None), w1))
          else ((CM_LBS_MEMROYERR, None), w))"

text \<open>A zeroed result: the event 0 is the success.\<close>

definition zero_oneospos_rsp :: cm_oneospos_location_rsp_t where
  "zero_oneospos_rsp = \<lparr>op_event = CM_ONEOSPOS_EVENT_SUCCESS, op_latitude = None, op_longitude = None\<rparr>"

text \<open>The position of an answer, in two arrays of 24 bytes.\<close>

definition oneospos_put_location :: "string option \<Rightarrow> cm_oneospos_location_rsp_t \<Rightarrow> lbs_world
    \<Rightarrow> (cm_oneospos_callback_event_e \<times> cm_oneospos_location_rsp_t \<times> lbs_world) option" where
  "oneospos_put_location pos rsp w = do {
     (st, la_arr, lon_arr) \<leftarrow> location_string_parse pos (replicate 24 NUL) (replicate 24 NUL);
     (if st \<noteq> CM_LBS_OK then Some (CM_ONEOSPOS_EVENT_UNKNOW, rsp, w)
      else do {
        latitude_temp \<leftarrow> c_str la_arr;
        (case oneospos_copy_location_rsp (Some latitude_temp) w of ((cp1, la), w1) \<Rightarrow>
           let rsp1 = rsp\<lparr>op_latitude := la\<rparr> in
           if cp1 \<noteq> CM_LBS_OK then Some (CM_ONEOSPOS_EVENT_UNKNOW, rsp1, w1)
           else do {
             longitude_temp \<leftarrow> c_str lon_arr;
             (case oneospos_copy_location_rsp (Some longitude_temp) w1 of ((cp2, lon), w2) \<Rightarrow>
                Some (if cp2 \<noteq> CM_LBS_OK then CM_ONEOSPOS_EVENT_UNKNOW else CM_ONEOSPOS_EVENT_SUCCESS,
                      rsp1\<lparr>op_longitude := lon\<rparr>, w2)) }) }) }"

text \<open>\<open>__cm_oneospos_http_location_parse\<close>. A code that is no string is a fault.\<close>

definition oneospos_http_location_parse :: "(string \<Rightarrow> cJSON option) \<Rightarrow> cm_oneospos_location_rsp_t \<Rightarrow> string
    \<Rightarrow> lbs_world \<Rightarrow> (cm_oneospos_callback_event_e \<times> cm_oneospos_location_rsp_t \<times> lbs_world) option" where
  "oneospos_http_location_parse parse rsp param w = do {
     (ret, rsp1, w1) \<leftarrow> (case parse param of
         None \<Rightarrow> Some (CM_ONEOSPOS_EVENT_UNKNOW, rsp, w)
       | Some location_json \<Rightarrow>
           (case cJSON_GetObjectItem (Some location_json) ''success'' of
              None \<Rightarrow> Some (CM_ONEOSPOS_EVENT_UNKNOW, rsp, w)
            | Some success \<Rightarrow>
                let is_true = (jtype success mod 256 = cJSON_True) in
                (case (is_true, cJSON_GetObjectItem (Some location_json) ''code'',
                       cJSON_GetObjectItem (Some location_json) ''data'') of
                   (False, Some code, _) \<Rightarrow> do {
                     s \<leftarrow> valuestring code;
                     Some (oneospos_find_callback_event s, rsp, w) }
                 | (True, _, Some data) \<Rightarrow>
                     (case cJSON_GetObjectItem (Some data) ''pos'' of
                        None \<Rightarrow> Some (CM_ONEOSPOS_EVENT_UNKNOW, rsp, w)
                      | Some pos \<Rightarrow> oneospos_put_location (valuestring pos) rsp w)
                 | _ \<Rightarrow> Some (CM_ONEOSPOS_EVENT_UNKNOW, rsp, w))));
     Some (ret, rsp1\<lparr>op_event := ret\<rparr>, w1) }"

section \<open>Remembered results and attributes\<close>

definition oneospos_copy_rsp :: "cm_oneospos_location_rsp_t \<Rightarrow> lbs_world
    \<Rightarrow> cm_oneospos_location_rsp_t \<times> lbs_world" where
  "oneospos_copy_rsp old w =
     (case oneospos_copy_location_rsp (op_longitude old) w of ((_, lon), w1) \<Rightarrow>
      case oneospos_copy_location_rsp (op_latitude old) w1 of ((_, la), w2) \<Rightarrow>
        (\<lparr>op_event = op_event old, op_latitude = la, op_longitude = lon\<rparr>, w2))"

definition oneospos_rsp_backup :: "cm_oneospos_location_rsp_t \<Rightarrow> lbs_world \<Rightarrow> lbs_world" where
  "oneospos_rsp_backup location_rsp w =
     (if op_event location_rsp \<noteq> CM_ONEOSPOS_EVENT_SUCCESS
      then set_oneos (\<lambda>s. s\<lparr>s_rsp_buf := None\<rparr>) w
      else (case env_malloc w of (ok, w1) \<Rightarrow>
        if \<not> ok then w1
        else (case oneospos_copy_rsp location_rsp w1 of (l_rsp, w2) \<Rightarrow>
          set_oneos (\<lambda>s. s\<lparr>s_rsp_buf := Some l_rsp, s_oneospos_rsp_time := w_time w2\<rparr>) w2)))"

definition CM_LBS_ONEOSPOS_LOCATION_RSP_VALID_TIME :: int where
  "CM_LBS_ONEOSPOS_LOCATION_RSP_VALID_TIME = 2 * 60 * 60"

definition oneospos_return_last_location :: "oneospos_cb option \<Rightarrow> cm_oneospos_attr_t \<Rightarrow> lbs_world
    \<Rightarrow> (cm_lbs_state_e \<times> lbs_world) option" where
  "oneospos_return_last_location cbf attr w =
     (case s_rsp_buf (w_oneosst w) of
        None \<Rightarrow> Some (CM_LBS_ERR, w)
      | Some old_rsp \<Rightarrow>
          (let time_dif = w_time w - s_oneospos_rsp_time (w_oneosst w) in
           if sint time_dif < 0 \<or> sint time_dif > CM_LBS_ONEOSPOS_LOCATION_RSP_VALID_TIME
           then Some (CM_LBS_ERR, w)
           else (case cbf of
              None \<Rightarrow> Some (CM_LBS_ERR, w)
            | Some f \<Rightarrow>
                (case env_malloc w of (ok, w1) \<Rightarrow>
                   if \<not> ok then Some (CM_LBS_ERR, w1)
                   else (case oneospos_copy_rsp old_rsp w1 of (rsp, w2) \<Rightarrow> do {
                     lon \<leftarrow> op_longitude rsp;
                     long_enough \<leftarrow> (if length lon > 6
                        then map_option (\<lambda>la. length la > 6) (op_latitude rsp) else Some False);
                     (if long_enough then do {
                        w3 \<leftarrow> f CM_ONEOSPOS_EVENT_SUCCESS (Some rsp) (op_cb_arg attr) w2;
                        Some (CM_LBS_OK, w3) }
                      else Some (CM_LBS_ERR, w2)) })))))"

definition oneospos_ueinfo_compare :: "cm_oneospos_ueinfo_t option \<Rightarrow> lbs_world
    \<Rightarrow> cm_lbs_state_e option" where
  "oneospos_ueinfo_compare new_ue w =
     (case (o_ue_info_last (w_oneosst w), new_ue) of
        (Some old, Some new) \<Rightarrow>
          if \<not> o_ue_last_live (w_oneosst w) then None
          else do {
            oi \<leftarrow> c_str (ou_imei old); ni \<leftarrow> c_str (ou_imei new);
            (if oi \<noteq> ni then Some CM_LBS_ERR else do {
            os \<leftarrow> c_str (ou_imsi old); ns \<leftarrow> c_str (ou_imsi new);
            (if os \<noteq> ns then Some CM_LBS_ERR else do {
            ol \<leftarrow> c_str (ci_lac (ou_cell_info old)); nl \<leftarrow> c_str (ci_lac (ou_cell_info new));
            (if ol \<noteq> nl then Some CM_LBS_ERR else do {
            oc \<leftarrow> c_str (ci_cellid (ou_cell_info old)); nc \<leftarrow> c_str (ci_cellid (ou_cell_info new));
            Some (if oc = nc \<and> ou_nearbts old = ou_nearbts new
                \<and> ci_mcc (ou_cell_info old) = ci_mcc (ou_cell_info new)
                \<and> ci_mnc (ou_cell_info old) = ci_mnc (ou_cell_info new)
                \<and> ci_signal (ou_cell_info old) = ci_signal (ou_cell_info new)
              then CM_LBS_OK else CM_LBS_ERR) }) }) }) }
      | _ \<Rightarrow> Some CM_LBS_ERR)"

text \<open>\<open>__cm_oneospos_create_ueinfo\<close>: an empty list of cells is dropped, and so is one that cannot be
  allocated.\<close>

definition oneospos_create_ueinfo :: "cm_oneospos_ueinfo_t \<Rightarrow> lbs_world
    \<Rightarrow> cm_oneospos_ueinfo_t option \<times> lbs_world" where
  "oneospos_create_ueinfo src w =
     (case env_malloc w of (ok, w1) \<Rightarrow>
        if \<not> ok then (None, w1)
        else (case ou_nearbts src of
            None \<Rightarrow> (Some src, w1)
          | Some nb \<Rightarrow>
              if length nb > 0 then (case env_malloc w1 of (ok2, w2) \<Rightarrow>
                (Some (src\<lparr>ou_nearbts := if ok2 then Some nb else None\<rparr>), w2))
              else (Some (src\<lparr>ou_nearbts := None\<rparr>), w1)))"

definition oneospos_backup_ueinfo :: "cm_oneospos_ueinfo_t \<Rightarrow> lbs_world \<Rightarrow> lbs_world option" where
  "oneospos_backup_ueinfo new_ue w =
     (if o_ue_info_last (w_oneosst w) \<noteq> None \<and> \<not> o_ue_last_live (w_oneosst w) then None
      else (case oneospos_create_ueinfo new_ue (set_oneos (\<lambda>s. s\<lparr>o_ue_last_live := False\<rparr>) w) of
          (None, w1) \<Rightarrow> Some w1
        | (Some u, w1) \<Rightarrow> Some (set_oneos (\<lambda>s. s\<lparr>o_ue_info_last := Some u, o_ue_last_live := True\<rparr>) w1)))"

definition oneospos_backup_lastpid :: "bytes \<Rightarrow> lbs_world \<Rightarrow> lbs_world option" where
  "oneospos_backup_lastpid last_pid w = do {
     p \<leftarrow> c_str last_pid;
     (case env_malloc w of (ok, w1) \<Rightarrow>
        Some (set_oneos (\<lambda>s. s\<lparr>s_oneospos_lastpid := if ok then Some p else None\<rparr>) w1)) }"

definition oneospos_compare_lastpid :: "bytes \<Rightarrow> lbs_world \<Rightarrow> cm_lbs_state_e option" where
  "oneospos_compare_lastpid last_pid w =
     (case s_oneospos_lastpid (w_oneosst w) of
        None \<Rightarrow> Some CM_LBS_ERR
      | Some q \<Rightarrow> do { p \<leftarrow> c_str last_pid; Some (if p = q then CM_LBS_OK else CM_LBS_ERR) })"

section \<open>The body of the request\<close>

definition ONEOSPOS_HTTP_CONTENT_LEN :: nat where "ONEOSPOS_HTTP_CONTENT_LEN = 1024"

definition oneospos_bts :: "cm_oneospos_ueinfo_t \<Rightarrow> string option" where
  "oneospos_bts ue = do {
     lac \<leftarrow> c_str (ci_lac (ou_cell_info ue));
     cellid \<leftarrow> c_str (ci_cellid (ou_cell_info ue));
     fits 512 (dec_int (sint (ci_mcc (ou_cell_info ue))) @ '','' @ dec_int (sint (ci_mnc (ou_cell_info ue)))
       @ '','' @ lac @ '','' @ cellid @ '','' @ dec_int (sint (ci_signal (ou_cell_info ue)))
       @ (case ou_nearbts ue of None \<Rightarrow> [] | Some nb \<Rightarrow> if length nb > 3 then CHR ''|'' # nb else [])) }"

text \<open>\<open>__cm_oneospos_create_http_content\<close>: the length and the buffer. The error is -1 as an unsigned
  number.\<close>

definition oneospos_create_http_content :: "cm_oneospos_ueinfo_t option \<Rightarrow> bytes \<Rightarrow> string \<Rightarrow> lbs_world
    \<Rightarrow> ((u32 \<times> string) \<times> lbs_world) option" where
  "oneospos_create_http_content ueinfo pid http_content w =
     (case ueinfo of
        None \<Rightarrow> Some ((- 1, http_content), w)
      | Some ue \<Rightarrow>
          (case env_malloc w of (ok, w1) \<Rightarrow>
             if \<not> ok then Some ((- 1, http_content), w1)
             else do {
               bts \<leftarrow> oneospos_bts ue;
               p \<leftarrow> c_str pid;
               imei \<leftarrow> c_str (ou_imei ue);
               c \<leftarrow> strcats ONEOSPOS_HTTP_CONTENT_LEN
                 [CHR ''{'' # quoted ''pid'' @ '':'' @ [CHR 0x22], p, CHR 0x22 # '','',
                  quoted ''cellList'' @ '':'' @ [CHR 0x22], bts, CHR 0x22 # '','',
                  quoted ''batchId'' @ '':'' @ [CHR 0x22], imei, CHR 0x22 # ''}''] http_content;
               Some ((of_nat (length c), c), w1) }))"

section \<open>The client\<close>

text \<open>\<open>__cm_oneospos_oneospos_client_free\<close>, always called with the client: a client or a body that was
  already freed is a fault.\<close>

definition oneospos_client_free :: "lbs_world \<Rightarrow> lbs_world option" where
  "oneospos_client_free w = do {
     w1 \<leftarrow> (case s_oneospos_client (w_oneosst w) of
         None \<Rightarrow> Some w
       | Some a \<Rightarrow> if \<not> client_live (w_oneosst w) then None
           else do {
             v \<leftarrow> cm_oneospos_free_ueinfo (op_ueinfo a) w;
             Some (set_oneos (\<lambda>s. s\<lparr>client_live := False\<rparr>) v) });
     w2 \<leftarrow> (case s_http_content (w_oneosst w1) of
         None \<Rightarrow> Some w1
       | Some c \<Rightarrow> if \<not> content_live (w_oneosst w1) then None
           else Some (set_oneos (\<lambda>s. s\<lparr>s_http_content := None, content_live := False\<rparr>) w1));
     Some (set_oneos (\<lambda>s. s\<lparr>s_oneospos_busy := False, s_http_conten_len := 0\<rparr>) w2) }"

text \<open>\<open>__cm_oneospos_http_release\<close>; the static variable keeps pointing to the handle.\<close>

definition oneospos_http_release :: "lbs_world \<Rightarrow> lbs_world option" where
  "oneospos_http_release w = curl_easy_cleanup (s_oneospos_curl_handle (w_oneosst w)) w"

section \<open>Events of the HTTP client\<close>

text \<open>\<open>__cm_oneospos_http_send_contant\<close>. Its result is not used; a transfer that starts sends the body.\<close>

definition oneospos_http_send_contant :: "lbs_world \<Rightarrow> lbs_world option" where
  "oneospos_http_send_contant w =
     (let handle = s_oneospos_curl_handle (w_oneosst w) in
      case s_http_content (w_oneosst w) of
        None \<Rightarrow> Some w
      | Some content \<Rightarrow>
          if handle = None then Some w
          else if \<not> content_live (w_oneosst w) then None
          else do {
            w1 \<leftarrow> curl_easy_setopt handle w;
            (added, w2) \<leftarrow> curl_multi_add_handle (s_curl_multi_handle (w_oneosst w)) handle w1;
            (if \<not> added then Some w2
             else (case curl_multi_perform (s_curl_multi_handle (w_oneosst w)) w2 of (performed, w3) \<Rightarrow>
               Some (if performed then w3\<lparr>w_sent := w_sent w3 @ [content]\<rparr> else w3))) })"

text \<open>The branch of \<open>cm_lbs_http_callback\<close> for a response: reported, then remembered, once per request.
  Without memory for the result, remembering it is a fault.\<close>

definition oneospos_http_content :: "(string \<Rightarrow> cJSON option) \<Rightarrow> oneospos_cb \<Rightarrow> cm_oneospos_attr_t
    \<Rightarrow> string option \<Rightarrow> lbs_world \<Rightarrow> lbs_world option" where
  "oneospos_http_content parse cbf client content w =
     (if oneospos_callback_state (w_oneosst w) = 2 then Some w
      else (case env_malloc (set_oneos (\<lambda>s. s\<lparr>oneospos_callback_state := 2\<rparr>) w) of (ok, w1) \<Rightarrow>
        if \<not> ok then do {
          w2 \<leftarrow> cbf CM_ONEOSPOS_EVENT_UNKNOW None (op_cb_arg client) w1;
          None }
        else do {
          text \<leftarrow> content;
          (ev, rsp, w2) \<leftarrow> oneospos_http_location_parse parse zero_oneospos_rsp text w1;
          let location_rsp = rsp\<lparr>op_event := ev\<rparr>;
          w3 \<leftarrow> cbf ev (Some location_rsp) (op_cb_arg client) w2;
          oneospos_http_release (oneospos_rsp_backup location_rsp w3) }))"

definition oneospos_http_callback :: "(string \<Rightarrow> cJSON option) \<Rightarrow> oneospos_cb \<Rightarrow> nat option
    \<Rightarrow> cm_httpclient_callback_event_e \<Rightarrow> lbs_world \<Rightarrow> lbs_world option" where
  "oneospos_http_callback parse cbf client_handle event w =
     (if client_handle \<noteq> s_oneospos_curl_handle (w_oneosst w) then Some w
      else do {
        c \<leftarrow> s_oneospos_client (w_oneosst w);
        (if \<not> client_live (w_oneosst w) then None
         else (case event of
            CM_HTTP_CALLBACK_EVENT_REQ_START_SUCC_IND \<Rightarrow> oneospos_http_send_contant w
          | CM_HTTP_CALLBACK_EVENT_ERROR_IND err_event \<Rightarrow> do {
              w1 \<leftarrow> cbf (if err_event = CM_HTTP_EVENT_CODE_CONNECT_TIMEOUT then CM_ONEOSPOS_EVENT_TIMEOUT
                       else CM_ONEOSPOS_EVENT_CONERR) None (op_cb_arg c) w;
              w2 \<leftarrow> oneospos_http_release w1;
              oneospos_client_free w2 }
          | CM_HTTP_CALLBACK_EVENT_RSP_HEADER_IND response_code \<Rightarrow>
              if response_code \<noteq> 200 then do {
                w1 \<leftarrow> cbf CM_ONEOSPOS_EVENT_UNKNOW None (op_cb_arg c) w;
                w2 \<leftarrow> oneospos_http_release w1;
                oneospos_client_free w2 }
              else Some w
          | CM_HTTP_CALLBACK_EVENT_RSP_CONTENT_IND content \<Rightarrow> oneospos_http_content parse cbf c content w
          | CM_HTTP_CALLBACK_EVENT_RSP_END_IND \<Rightarrow> do {
              w1 \<leftarrow> oneospos_http_release w;
              w2 \<leftarrow> oneospos_client_free w1;
              Some (set_oneos (\<lambda>s. s\<lparr>oneospos_callback_state := 0\<rparr>) w2) })) })"

section \<open>The request\<close>

definition ONEOSPOS_HTTP_HOST :: string where
  "ONEOSPOS_HTTP_HOST = ''https://os.iot.10086.cn/api/ops/cms/lbs/report''"

definition oneospos_curl_open :: "lbs_world \<Rightarrow> bool \<times> lbs_world" where
  "oneospos_curl_open w =
     (if s_oneospos_curl_handle (w_oneosst w) \<noteq> None \<or> s_curl_multi_handle (w_oneosst w) then (True, w)
      else (case curl_easy_init w of (h, w1) \<Rightarrow>
            case curl_multi_init w1 of (m, w2) \<Rightarrow>
              (h \<noteq> None \<or> m,
               set_oneos (\<lambda>s. s\<lparr>s_oneospos_curl_handle := h, s_curl_multi_handle := m\<rparr>) w2)))"

definition curl_slist_append :: "lbs_world \<Rightarrow> bool \<times> lbs_world" where
  "curl_slist_append w = (case next_answer (w_curl w) of (ok, r) \<Rightarrow> (ok, w\<lparr>w_curl := r\<rparr>))"

text \<open>\<open>__cm_oneospos_http_post\<close>: the transfer is started without the body. The terminating NUL of the
  header is written one byte behind its literal, and the block of the response, which nobody fills, is
  read without a check (\<open>ind\<close>).\<close>

definition oneospos_transfer :: "(string \<Rightarrow> cJSON option) \<Rightarrow> indet \<Rightarrow> oneospos_cb \<Rightarrow> bool
    \<Rightarrow> lbs_world \<Rightarrow> (cm_lbs_state_e \<times> lbs_world) option" where
  "oneospos_transfer parse ind cbf rsp_data w = do {
     let handle = s_oneospos_curl_handle (w_oneosst w);
     let multi = s_curl_multi_handle (w_oneosst w);
     w1 \<leftarrow> curl_easy_setopt handle w;
     (if \<not> literal_writable ind then None
      else (case curl_slist_append w1 of (slist, w2) \<Rightarrow>
        if \<not> slist then Some (CM_LBS_ERR, w2)
        else do {
          (added, w3) \<leftarrow> curl_multi_add_handle multi handle w2;
          (if \<not> added then Some (CM_LBS_ERR, w3)
           else (case curl_multi_perform multi w3 of (performed, w4) \<Rightarrow>
             if \<not> performed then Some (CM_LBS_ERR, w4)
             else if \<not> rsp_data then None
             else do {
               w5 \<leftarrow> oneospos_http_callback parse cbf handle
                 (CM_HTTP_CALLBACK_EVENT_RSP_CONTENT_IND (response_text ind))
                 (w4\<lparr>w_sent := w_sent w4 @ [ONEOSPOS_HTTP_HOST]\<rparr>);
               Some (CM_LBS_OK, w5) })) })) }"

definition oneospos_http_post :: "(string \<Rightarrow> cJSON option) \<Rightarrow> indet \<Rightarrow> oneospos_cb \<Rightarrow> lbs_world
    \<Rightarrow> (cm_lbs_state_e \<times> lbs_world) option" where
  "oneospos_http_post parse ind cbf w =
     (case env_malloc w of (rsp_data, w1) \<Rightarrow>
      case oneospos_curl_open w1 of (opened, w2) \<Rightarrow>
        if \<not> opened then Some (CM_LBS_ERR, w2)
        else oneospos_transfer parse ind cbf rsp_data w2)"

section \<open>The location\<close>

text \<open>\<open>cm_oneospos_asynlocation\<close>: the body is zeroed before the allocation is checked, so no memory is a
  fault; a length of -1 is not smaller than 1. When the request fails the body is freed but stays in
  \<open>s_http_content\<close>.\<close>

definition cm_oneospos_asynlocation :: "(string \<Rightarrow> cJSON option) \<Rightarrow> indet \<Rightarrow> oneospos_cb
    \<Rightarrow> cm_oneospos_ueinfo_t option \<Rightarrow> bytes \<Rightarrow> lbs_world \<Rightarrow> (cm_lbs_state_e \<times> lbs_world) option" where
  "cm_oneospos_asynlocation parse ind cbf ueinfo pid w =
     (case env_malloc w of (ok, w1) \<Rightarrow>
        if \<not> ok then None
        else do {
          ((l_content_len, http_content), w2) \<leftarrow> oneospos_create_http_content ueinfo pid [] w1;
          (if l_content_len < 1 then do {
             w3 \<leftarrow> oneospos_http_release w2;
             Some (CM_LBS_REPEERR, w3) }
           else do {
             (ret, w3) \<leftarrow> oneospos_http_post parse ind cbf
               (set_oneos (\<lambda>s. s\<lparr>s_http_content := Some http_content, content_live := True,
                 s_http_conten_len := l_content_len\<rparr>) w2);
             (if ret = CM_LBS_OK then Some (ret, w3)
              else do {
                w4 \<leftarrow> oneospos_http_release w3;
                Some (ret, set_oneos (\<lambda>s. s\<lparr>content_live := False\<rparr>) w4) }) }) })"

text \<open>What \<open>cm_oneospos_location\<close> does when no remembered result was used.\<close>

definition oneospos_fresh_location :: "(string \<Rightarrow> cJSON option) \<Rightarrow> indet \<Rightarrow> oneospos_cb
    \<Rightarrow> cm_oneospos_ueinfo_t \<Rightarrow> cm_oneospos_attr_t \<Rightarrow> lbs_world \<Rightarrow> (cm_lbs_state_e \<times> lbs_world) option" where
  "oneospos_fresh_location parse ind cbf ueinfo attr w = do {
     (internal_atrr, w1) \<leftarrow> cm_oneospos_create_attr attr w;
     (case internal_atrr of
        None \<Rightarrow> Some (CM_LBS_MEMROYERR, set_oneos (\<lambda>s. s\<lparr>s_oneospos_busy := False\<rparr>) w1)
      | Some c \<Rightarrow> do {
          w2 \<leftarrow> oneospos_backup_lastpid (op_pid attr)
            (set_oneos (\<lambda>s. s\<lparr>s_oneospos_client := Some c, client_live := True\<rparr>) w1);
          w3 \<leftarrow> oneospos_backup_ueinfo ueinfo w2;
          (ret, w4) \<leftarrow> cm_oneospos_asynlocation parse ind cbf (Some ueinfo) (op_pid attr) w3;
          (if ret = CM_LBS_OK then Some (ret, w4)
           else do {
             w5 \<leftarrow> oneospos_client_free (set_oneos (\<lambda>s. s\<lparr>s_oneospos_busy := False\<rparr>) w4);
             Some (ret, w5) }) }) }"

definition cm_oneospos_location :: "(string \<Rightarrow> cJSON option) \<Rightarrow> indet \<Rightarrow> oneospos_cb
    \<Rightarrow> cm_oneospos_ueinfo_t option \<Rightarrow> cm_oneospos_attr_t \<Rightarrow> lbs_world
    \<Rightarrow> (cm_lbs_state_e \<times> lbs_world) option" where
  "cm_oneospos_location parse ind cbf ueinfo attr w =
     (case ueinfo of
        None \<Rightarrow> Some (CM_LBS_PARAMERR, w)
      | Some ue \<Rightarrow>
          if s_oneospos_busy (w_oneosst w) then Some (CM_LBS_BUSY, w)
          else do {
            let w0 = set_oneos (\<lambda>s. s\<lparr>s_oneospos_busy := True\<rparr>) w;
            same_ueinfo \<leftarrow> oneospos_ueinfo_compare ueinfo w0;
            same_pid \<leftarrow> (if same_ueinfo = CM_LBS_OK then oneospos_compare_lastpid (op_pid attr) w0
              else Some CM_LBS_ERR);
            (last, w1) \<leftarrow> (if same_pid = CM_LBS_OK then oneospos_return_last_location (Some cbf) attr w0
              else Some (CM_LBS_ERR, w0));
            (if last = CM_LBS_OK
             then Some (CM_LBS_OK, set_oneos (\<lambda>s. s\<lparr>s_oneospos_busy := False\<rparr>) w1)
             else oneospos_fresh_location parse ind cbf ue attr w1) })"

end
