(* ===== verification/OneosFacts.thy ===== *)
theory OneosFacts
  imports OneosLocation AmapSpec
begin

text \<open>
  Facts about the OneOS platform: what its operations leave alone of the service, that its request keeps
  the contract of the task, what the parser of the position promises, and how a request ends.
\<close>

section \<open>The service only grows\<close>

text \<open>The platform allocates device information of its own, which no session owns; the rest of the
  service it leaves alone.\<close>

definition rest_same :: "lbs_world \<Rightarrow> lbs_world \<Rightarrow> bool" where
  "rest_same w w' \<longleftrightarrow> w_amap w' = w_amap w \<and> w_oneospos w' = w_oneospos w \<and> w_live w' = w_live w
     \<and> w_queun w' = w_queun w \<and> w_mq w' = w_mq w \<and> w_task w' = w_task w \<and> w_urc w' = w_urc w
     \<and> w_next w \<le> w_next w' \<and> w_amapst w' = w_amapst w"

definition service_grows :: "lbs_world \<Rightarrow> lbs_world \<Rightarrow> bool" where
  "service_grows w w' \<longleftrightarrow> w_amap w' = w_amap w \<and> w_oneospos w' = w_oneospos w
     \<and> w_queun w' = w_queun w \<and> w_mq w' = w_mq w \<and> w_task w' = w_task w \<and> w_urc w' = w_urc w
     \<and> w_next w \<le> w_next w' \<and> w_live w \<subseteq> w_live w'
     \<and> (\<forall>i \<in> w_live w' - w_live w. i < w_next w') \<and> w_amapst w' = w_amapst w"

lemma rest_same_refl [simp]: "rest_same w w"
  by (simp add: rest_same_def)

lemma rest_same_sent [simp]: "rest_same w (w'\<lparr>w_sent := x\<rparr>) = rest_same w w'"
  by (simp add: rest_same_def)

lemma rest_same_trans: "rest_same u v \<Longrightarrow> rest_same v w \<Longrightarrow> rest_same u w"
  by (auto simp: rest_same_def)

lemma rest_same_inv: "rest_same w w' \<Longrightarrow> lbs_inv w \<Longrightarrow> lbs_inv w'"
  unfolding rest_same_def inv_defs by (auto split: option.splits)

lemma more_rest: "lbs_env.more w' = lbs_env.more w \<Longrightarrow> rest_same w w'"
  using same_more [of w' w] by (simp add: rest_same_def)

lemma rest_same_malloc: "env_malloc w = (ok, w') \<Longrightarrow> rest_same w w'"
  by (rule more_rest [OF malloc_more])

lemma curl_rest:
  "curl_easy_init w = (x, w1) \<Longrightarrow> rest_same w w1"
  "curl_multi_init w = (m, w1) \<Longrightarrow> rest_same w w1"
  "curl_easy_setopt h w = Some w1 \<Longrightarrow> rest_same w w1"
  "curl_multi_add_handle m h w = Some (b, w1) \<Longrightarrow> rest_same w w1"
  "curl_multi_perform m w = (b, w1) \<Longrightarrow> rest_same w w1"
  "curl_easy_cleanup h w = Some w1 \<Longrightarrow> rest_same w w1"
  by (auto simp: curl_easy_init_def curl_multi_init_def curl_easy_setopt_def curl_multi_add_handle_def
      curl_multi_perform_def curl_easy_cleanup_def rest_same_def next_answer_def
      split: option.splits prod.splits if_splits list.splits)

lemma rest_same_grows: "rest_same w w' \<Longrightarrow> service_grows w w'"
  by (simp add: rest_same_def service_grows_def)

lemma service_grows_trans:
  assumes "service_grows u v" and "service_grows v w"
  shows "service_grows u w"
proof -
  have "i < w_next w" if "i \<in> w_live w" "i \<notin> w_live u" for i
    using assms that unfolding service_grows_def
    by (cases "i \<in> w_live v") (meson DiffI less_le_trans)+
  then show ?thesis using assms unfolding service_grows_def by auto
qed

lemma service_grows_inv:
  assumes "service_grows w w'" and "lbs_inv w"
  shows "lbs_inv w'"
proof -
  have u: "amap_uid w' = amap_uid w" "oneospos_uid w' = oneospos_uid w" "queue_ok w' = queue_ok w"
    using assms(1) by (simp_all add: service_grows_def amap_uid_def oneospos_uid_def queue_ok_def
        split: option.split)
  have "i < w_next w'" if "i \<in> w_live w'" for i
    using assms that unfolding service_grows_def lbs_inv_def
    by (cases "i \<in> w_live w") (meson DiffI less_le_trans)+
  then show ?thesis using assms u unfolding service_grows_def lbs_inv_def by auto
qed

lemma rest_same_set_oneos [simp]:
  "rest_same w (set_oneos f w') = rest_same w w'" "rest_same (set_oneos f w) w' = rest_same w w'"
  by (simp_all add: rest_same_def set_oneos_def)

lemma set_oneos_st [simp]: "w_oneosst (set_oneos f w) = f (w_oneosst w)"
  by (simp add: set_oneos_def)

lemma oneos_allocs [simp]:
  "env_allocs (set_oneos f w) = env_allocs w" "env_allocs (w\<lparr>w_oneosst := s\<rparr>) = env_allocs w"
  by (simp_all add: set_oneos_def)

section \<open>Operations that only use memory\<close>

lemma oneos_copy_location_more:
  "oneospos_copy_location_rsp v w = (r, w') \<Longrightarrow> lbs_env.more w' = lbs_env.more w"
  by (auto simp: oneospos_copy_location_rsp_def dest!: malloc_more
      split: option.splits if_splits prod.splits)

lemma oneos_put_more:
  "oneospos_put_location p rsp w = Some (ev, r, w') \<Longrightarrow> lbs_env.more w' = lbs_env.more w"
  unfolding oneospos_put_location_def Let_def
  by (auto dest!: oneos_copy_location_more split: prod.splits if_splits bind_splits)

lemma oneos_parse_more:
  "oneospos_http_location_parse parse rsp param w = Some (ev, r, w') \<Longrightarrow> lbs_env.more w' = lbs_env.more w"
  unfolding oneospos_http_location_parse_def Let_def
  by (auto dest!: oneos_put_more split: option.splits prod.splits if_splits bind_splits bool.splits)

lemma oneos_copy_rsp_more:
  "oneospos_copy_rsp old w = (r, w') \<Longrightarrow> lbs_env.more w' = lbs_env.more w"
  unfolding oneospos_copy_rsp_def
  by (clarsimp split: prod.splits) (metis oneos_copy_location_more)

lemma oneos_create_ueinfo_more:
  "oneospos_create_ueinfo u w = (r, w') \<Longrightarrow> lbs_env.more w' = lbs_env.more w"
  unfolding oneospos_create_ueinfo_def
  by (auto dest!: malloc_more split: option.splits prod.splits if_splits)

lemma oneos_content_more:
  "oneospos_create_http_content ue pid b w = Some (r, w') \<Longrightarrow> lbs_env.more w' = lbs_env.more w"
  unfolding oneospos_create_http_content_def
  by (auto dest!: malloc_more split: option.splits prod.splits if_splits bind_splits)

lemmas oneos_memory_service = more_rest [OF oneos_parse_more] more_rest [OF oneos_content_more]
  more_rest [OF oneos_copy_rsp_more] more_rest [OF oneos_create_ueinfo_more]

lemma new_ueinfo_grows: "new_ueinfo w = (u, w') \<Longrightarrow> service_grows w w'"
proof -
  assume n: "new_ueinfo w = (u, w')"
  obtain ok v where m: "env_malloc w = (ok, v)" by (cases "env_malloc w")
  note s = same_more [OF malloc_more [OF m]]
  show ?thesis using n s by (cases ok) (auto simp: new_ueinfo_def m service_grows_def)
qed

lemma create_attr_grows:
  "cm_oneospos_create_attr src w = Some (r, w') \<Longrightarrow> service_grows w w'"
  unfolding cm_oneospos_create_attr_def
  by (auto dest!: rest_same_malloc rest_same_grows new_ueinfo_grows intro: service_grows_trans
      split: option.splits prod.splits if_splits bind_splits)

section \<open>Operations on the static variables and on libcurl\<close>

lemma oneos_backup_same: "rest_same w (oneospos_rsp_backup r w)"
  unfolding oneospos_rsp_backup_def
  by (auto dest!: oneos_memory_service(3) rest_same_malloc intro: rest_same_trans split: prod.splits)

lemma oneos_backup_ueinfo_same: "oneospos_backup_ueinfo ue w = Some w' \<Longrightarrow> rest_same w w'"
  unfolding oneospos_backup_ueinfo_def
  by (auto dest!: oneos_memory_service(4) split: prod.splits if_splits option.splits)

lemma oneos_backup_lastpid_same: "oneospos_backup_lastpid p w = Some w' \<Longrightarrow> rest_same w w'"
  unfolding oneospos_backup_lastpid_def
  by (auto dest!: rest_same_malloc split: prod.splits bind_splits)

lemma oneos_release_same: "oneospos_http_release w = Some w' \<Longrightarrow> rest_same w w'"
  unfolding oneospos_http_release_def by (rule curl_rest)

lemma oneos_curl_open_same: "oneospos_curl_open w = (b, w1) \<Longrightarrow> rest_same w w1"
  unfolding oneospos_curl_open_def
  by (auto dest!: curl_rest intro: rest_same_trans split: prod.splits if_splits)

lemma slist_same: "curl_slist_append w = (b, w1) \<Longrightarrow> rest_same w w1"
  by (auto simp: curl_slist_append_def next_answer_def rest_same_def split: list.splits prod.splits)

lemma curl_oneosst:
  "curl_easy_init w = (h, w1) \<Longrightarrow> w_oneosst w1 = w_oneosst w"
  "curl_multi_init w = (m, w1) \<Longrightarrow> w_oneosst w1 = w_oneosst w"
  "curl_easy_setopt h w = Some w1 \<Longrightarrow> w_oneosst w1 = w_oneosst w"
  "curl_multi_add_handle m h w = Some (b, w1) \<Longrightarrow> w_oneosst w1 = w_oneosst w"
  "curl_multi_perform m w = (b, w1) \<Longrightarrow> w_oneosst w1 = w_oneosst w"
  "curl_easy_cleanup h w = Some w1 \<Longrightarrow> w_oneosst w1 = w_oneosst w"
  "curl_slist_append w = (b, w1) \<Longrightarrow> w_oneosst w1 = w_oneosst w"
  by (auto simp: curl_easy_init_def curl_multi_init_def curl_easy_setopt_def curl_multi_add_handle_def
      curl_multi_perform_def curl_easy_cleanup_def curl_slist_append_def next_answer_def
      split: option.splits prod.splits if_splits list.splits)

text \<open>Steps that also keep the request under way: the client, the body, the busy flag.\<close>

definition near :: "lbs_world \<Rightarrow> lbs_world \<Rightarrow> bool" where
  "near w w' \<longleftrightarrow> rest_same w w'
     \<and> s_oneospos_busy (w_oneosst w') = s_oneospos_busy (w_oneosst w)
     \<and> s_oneospos_client (w_oneosst w') = s_oneospos_client (w_oneosst w)
     \<and> client_live (w_oneosst w') = client_live (w_oneosst w)
     \<and> s_http_content (w_oneosst w') = s_http_content (w_oneosst w)
     \<and> content_live (w_oneosst w') = content_live (w_oneosst w)"

lemma near_refl [simp]: "near w w"
  by (simp add: near_def)

lemma near_trans: "near u v \<Longrightarrow> near v w \<Longrightarrow> near u w"
  by (auto simp: near_def intro: rest_same_trans)

lemma near_more: "lbs_env.more w' = lbs_env.more w \<Longrightarrow> near w w'"
  using more_rest [of w' w] same_more(13) [of w' w] by (simp add: near_def)

lemma near_curl: "rest_same w w' \<Longrightarrow> w_oneosst w' = w_oneosst w \<Longrightarrow> near w w'"
  by (simp add: near_def)

lemma near_set [simp]:
  "near w (set_oneos (\<lambda>s. s\<lparr>oneospos_callback_state := n\<rparr>) w') = near w w'"
  "near w (set_oneos (\<lambda>s. s\<lparr>s_oneospos_curl_handle := h, s_curl_multi_handle := m\<rparr>) w') = near w w'"
  "near w (set_oneos (\<lambda>s. s\<lparr>s_rsp_buf := x\<rparr>) w') = near w w'"
  "near w (set_oneos (\<lambda>s. s\<lparr>s_rsp_buf := x, s_oneospos_rsp_time := y\<rparr>) w') = near w w'"
  "near w (set_oneos (\<lambda>s. s\<lparr>s_oneospos_lastpid := p\<rparr>) w') = near w w'"
  "near w (set_oneos (\<lambda>s. s\<lparr>o_ue_last_live := l\<rparr>) w') = near w w'"
  "near w (set_oneos (\<lambda>s. s\<lparr>o_ue_info_last := u, o_ue_last_live := l\<rparr>) w') = near w w'"
  "near w (w'\<lparr>w_sent := t\<rparr>) = near w w'"
  "near (set_oneos (\<lambda>s. s\<lparr>oneospos_callback_state := n\<rparr>) w) w' = near w w'"
  "near (set_oneos (\<lambda>s. s\<lparr>o_ue_last_live := l\<rparr>) w) w' = near w w'"
  by (simp_all add: near_def)

lemma near_steps:
  "curl_easy_init w = (x, w1) \<Longrightarrow> near w w1" "curl_multi_init w = (b, w1) \<Longrightarrow> near w w1"
  "curl_easy_setopt h w = Some w1 \<Longrightarrow> near w w1"
  "curl_multi_add_handle m h w = Some (b, w1) \<Longrightarrow> near w w1"
  "curl_multi_perform m w = (b, w1) \<Longrightarrow> near w w1"
  "curl_easy_cleanup h w = Some w1 \<Longrightarrow> near w w1"
  "curl_slist_append w = (b, w1) \<Longrightarrow> near w w1"
  by (rule near_curl; blast dest: curl_rest slist_same curl_oneosst)+

lemmas near_memory = near_more [OF malloc_more] near_more [OF oneos_parse_more]
  near_more [OF oneos_content_more] near_more [OF oneos_copy_rsp_more] near_more [OF oneos_create_ueinfo_more]

lemma oneos_curl_open_near:
  assumes "oneospos_curl_open w = (b, w1)"
  shows "near w w1"
proof -
  obtain h u where h: "curl_easy_init w = (h, u)" by (cases "curl_easy_init w")
  obtain m v where m: "curl_multi_init u = (m, v)" by (cases "curl_multi_init u")
  show ?thesis using assms near_trans [OF near_steps(1) [OF h] near_steps(2) [OF m]]
    by (auto simp: oneospos_curl_open_def h m split: if_splits)
qed

lemma oneos_release_near: "oneospos_http_release w = Some w' \<Longrightarrow> near w w'"
  unfolding oneospos_http_release_def by (rule near_steps)

lemma oneos_backup_near: "near w (oneospos_rsp_backup r w)"
  unfolding oneospos_rsp_backup_def
  by (auto dest!: near_memory(1,4) intro: near_trans split: prod.splits)

lemma oneos_backups_near:
  "oneospos_backup_lastpid p w = Some w' \<Longrightarrow> near w w'"
  "oneospos_backup_ueinfo ue w = Some w' \<Longrightarrow> near w w'"
  unfolding oneospos_backup_lastpid_def oneospos_backup_ueinfo_def
  by (auto dest!: near_memory(1,5) split: prod.splits if_splits option.splits bind_splits)

section \<open>The contract of the request\<close>

text \<open>A response is ignored or handed to the callback.\<close>

definition calls_or_near :: "oneospos_cb \<Rightarrow> lbs_world \<Rightarrow> lbs_world \<Rightarrow> bool" where
  "calls_or_near cbf w w' \<longleftrightarrow> near w w'
     \<or> (\<exists>v ev r m v'. near w v \<and> cbf ev r m v = Some v' \<and> near v' w')"

lemma calls_or_near_trans: "near u w \<Longrightarrow> calls_or_near cbf w w' \<Longrightarrow> calls_or_near cbf u w'"
  unfolding calls_or_near_def using near_trans by blast

lemma oneos_content_calls:
  assumes "oneospos_http_content parse cbf c content w = Some w'"
  shows "calls_or_near cbf w w'"
proof (cases "oneospos_callback_state (w_oneosst w) = 2")
  case True
  then show ?thesis using assms by (simp add: oneospos_http_content_def calls_or_near_def)
next
  case False
  obtain ok w1 where m: "env_malloc (set_oneos (\<lambda>s. s\<lparr>oneospos_callback_state := 2\<rparr>) w) = (ok, w1)"
    by (cases "env_malloc (set_oneos (\<lambda>s. s\<lparr>oneospos_callback_state := 2\<rparr>) w)")
  have n1: "near w w1" using near_memory(1) [OF m] by simp
  obtain answer ev rsp w2 w3 where
    p: "oneospos_http_location_parse parse zero_oneospos_rsp answer w1 = Some (ev, rsp, w2)"
    and cb: "cbf ev (Some (rsp\<lparr>op_event := ev\<rparr>)) (op_cb_arg c) w2 = Some w3"
    and r: "oneospos_http_release (oneospos_rsp_backup (rsp\<lparr>op_event := ev\<rparr>) w3) = Some w'"
    using assms False by (auto simp: oneospos_http_content_def m Let_def split: bind_splits if_splits)
  have "near w w2" using n1 near_memory(2) [OF p] near_trans by blast
  moreover have "near w3 w'" using oneos_backup_near oneos_release_near [OF r] near_trans by blast
  ultimately show ?thesis using cb unfolding calls_or_near_def by blast
qed

lemma oneos_callback_calls:
  assumes "oneospos_http_callback parse cbf h (CM_HTTP_CALLBACK_EVENT_RSP_CONTENT_IND content) w = Some w'"
  shows "calls_or_near cbf w w'"
  using assms oneos_content_calls unfolding oneospos_http_callback_def
  by (auto simp: calls_or_near_def split: bind_splits if_splits)

lemma oneos_transfer_calls:
  assumes "oneospos_transfer parse ind cbf rsp_data w = Some (ret, w')"
  shows "if ret = CM_LBS_OK then calls_or_near cbf w w' else near w w'"
proof -
  define h where "h = s_oneospos_curl_handle (w_oneosst w)"
  define m where "m = s_curl_multi_handle (w_oneosst w)"
  obtain w1 where u: "curl_easy_setopt h w = Some w1"
    using assms unfolding oneospos_transfer_def h_def Let_def by (auto split: bind_splits)
  obtain slist w2 where l: "curl_slist_append w1 = (slist, w2)" by (cases "curl_slist_append w1")
  have n2: "near w w2" using near_steps(3) [OF u] near_steps(7) [OF l] near_trans by blast
  have run: "(if \<not> slist then Some (CM_LBS_ERR, w2) else do {
      (added, w3) \<leftarrow> curl_multi_add_handle m h w2;
      (if \<not> added then Some (CM_LBS_ERR, w3)
       else (case curl_multi_perform m w3 of (performed, w4) \<Rightarrow>
         if \<not> performed then Some (CM_LBS_ERR, w4)
         else if \<not> rsp_data then None
         else do {
           w5 \<leftarrow> oneospos_http_callback parse cbf h
             (CM_HTTP_CALLBACK_EVENT_RSP_CONTENT_IND (response_text ind))
             (w4\<lparr>w_sent := w_sent w4 @ [ONEOSPOS_HTTP_HOST]\<rparr>);
           Some (CM_LBS_OK, w5) })) }) = Some (ret, w')"
    using assms u l unfolding oneospos_transfer_def Let_def h_def [symmetric] m_def [symmetric]
    by (simp split: if_splits)
  show ?thesis
  proof (cases slist)
    case False
    then show ?thesis using run n2 by simp
  next
    case True
    obtain added w3 where a: "curl_multi_add_handle m h w2 = Some (added, w3)"
      using run True by (auto split: bind_splits)
    obtain performed w4 where p: "curl_multi_perform m w3 = (performed, w4)"
      by (cases "curl_multi_perform m w3")
    have n: "near w w3" "near w w4"
      using n2 near_steps(4) [OF a] near_steps(5) [OF p] near_trans by blast+
    show ?thesis
    proof (cases "added \<and> performed")
      case True
      then obtain "oneospos_http_callback parse cbf h (CM_HTTP_CALLBACK_EVENT_RSP_CONTENT_IND (response_text ind))
          (w4\<lparr>w_sent := w_sent w4 @ [ONEOSPOS_HTTP_HOST]\<rparr>) = Some w'" and "ret = CM_LBS_OK"
        using run \<open>slist\<close> a p by (auto split: bind_splits if_splits)
      from oneos_callback_calls [OF this(1)] this(2) show ?thesis
        using calls_or_near_trans [of w "w4\<lparr>w_sent := w_sent w4 @ [ONEOSPOS_HTTP_HOST]\<rparr>" cbf w'] n(2) by simp
    next
      case False
      then show ?thesis using run \<open>slist\<close> a p n by (auto split: if_splits)
    qed
  qed
qed

lemma oneos_post_calls:
  assumes "oneospos_http_post parse ind cbf w = Some (ret, w')"
  shows "if ret = CM_LBS_OK then calls_or_near cbf w w' else near w w'"
proof -
  obtain d w1 where m: "env_malloc w = (d, w1)" by (cases "env_malloc w")
  obtain b w2 where o: "oneospos_curl_open w1 = (b, w2)" by (cases "oneospos_curl_open w1")
  have n: "near w w2" using near_memory(1) [OF m] oneos_curl_open_near [OF o] near_trans by blast
  have "(if \<not> b then Some (CM_LBS_ERR, w2) else oneospos_transfer parse ind cbf d w2) = Some (ret, w')"
    using assms by (simp add: oneospos_http_post_def m o)
  then show ?thesis
    using n oneos_transfer_calls [of parse ind cbf d w2 ret w'] calls_or_near_trans [OF n] near_trans [OF n]
    by (auto split: if_splits)
qed

text \<open>The body is remembered before the transfer; when that fails the body is freed and still
  remembered.\<close>

lemma small_length: "0 < n \<Longrightarrow> n < 1024 \<Longrightarrow> \<not> (of_nat n :: u32) < 1"
  by (simp add: word_less_nat_alt unat_of_nat)

lemma content_length_pos:
  assumes "oneospos_create_http_content ue pid b w = Some ((len, c), w')"
  shows "\<not> len < 1"
proof -
  have "len = - 1 \<or> (len = of_nat (length c) \<and> 0 < length c \<and> length c < 1024)"
    using assms unfolding oneospos_create_http_content_def
    by (auto simp: fits_def ONEOSPOS_HTTP_CONTENT_LEN_def
        split: option.splits prod.splits if_splits bind_splits)
  then show ?thesis using small_length [of "length c"] by auto
qed

lemma oneos_asynlocation_calls:
  assumes "cm_oneospos_asynlocation parse ind cbf ue pid w = Some (ret, w')"
  shows "if ret = CM_LBS_OK
    then (\<exists>u c len. near w u \<and> calls_or_near cbf (set_oneos (\<lambda>s. s\<lparr>s_http_content := Some c,
      content_live := True, s_http_conten_len := len\<rparr>) u) w')
    else s_http_content (w_oneosst w') \<noteq> None \<and> \<not> content_live (w_oneosst w')"
proof -
  obtain w1 where m: "env_malloc w = (True, w1)"
    using assms by (auto simp: cm_oneospos_asynlocation_def split: prod.splits if_splits)
  obtain len c w2 where c: "oneospos_create_http_content ue pid [] w1 = Some ((len, c), w2)"
    using assms by (auto simp: cm_oneospos_asynlocation_def m split: bind_splits)
  define v where "v = set_oneos (\<lambda>s. s\<lparr>s_http_content := Some c, content_live := True,
      s_http_conten_len := len\<rparr>) w2"
  obtain r w3 where p: "oneospos_http_post parse ind cbf v = Some (r, w3)"
    and fin: "(if r = CM_LBS_OK then Some (r, w3) else do {
       w4 \<leftarrow> oneospos_http_release w3;
       Some (r, set_oneos (\<lambda>s. s\<lparr>content_live := False\<rparr>) w4) }) = Some (ret, w')"
    using assms content_length_pos [OF c]
    by (auto simp: cm_oneospos_asynlocation_def m c v_def split: bind_splits)
  have n: "near w w2" using near_memory(1) [OF m] near_memory(3) [OF c] near_trans by blast
  note q = oneos_post_calls [OF p]
  show ?thesis
  proof (cases "r = CM_LBS_OK")
    case True
    then show ?thesis using q fin n unfolding v_def by auto
  next
    case False
    then obtain w4 where r: "oneospos_http_release w3 = Some w4"
      and w': "w' = set_oneos (\<lambda>s. s\<lparr>content_live := False\<rparr>) w4" "ret = r"
      using fin by (auto split: bind_splits)
    have "near v w4" using q False oneos_release_near [OF r] near_trans by auto
    then show ?thesis using False w' by (simp add: near_def v_def)
  qed
qed

text \<open>Releasing the client then is a fault.\<close>

lemma freed_content_faults:
  assumes "s_http_content (w_oneosst w) \<noteq> None" and "\<not> content_live (w_oneosst w)"
  shows "oneospos_client_free w = None"
proof -
  have "w_oneosst v = w_oneosst w" if "cm_oneospos_free_ueinfo i w = Some v" for i v
    using that by (auto simp: cm_oneospos_free_ueinfo_def free_ueinfo_def split: option.splits if_splits)
  then show ?thesis using assms unfolding oneospos_client_free_def
    by (auto split: option.splits bind_splits)
qed

lemma failed_request_faults:
  assumes "cm_oneospos_asynlocation parse ind cbf ue pid w = Some (ret, w')" and "ret \<noteq> CM_LBS_OK"
  shows "oneospos_client_free (set_oneos (\<lambda>s. s\<lparr>s_oneospos_busy := False\<rparr>) w') = None"
  using oneos_asynlocation_calls [OF assms(1)] assms(2) freed_content_faults by simp

text \<open>What a request that returns has done.\<close>

definition calls_or_grows :: "oneospos_cb \<Rightarrow> lbs_world \<Rightarrow> cm_lbs_state_e \<Rightarrow> lbs_world \<Rightarrow> bool" where
  "calls_or_grows cbf w ret w' \<longleftrightarrow> service_grows w w'
     \<or> ret = CM_LBS_OK \<and> (\<exists>v ev r m v'. service_grows w v \<and> cbf ev r m v = Some v' \<and> rest_same v' w')"


lemma oneos_fresh_calls:
  assumes "oneospos_fresh_location parse ind cbf ue attr w = Some (ret, w')"
  shows "calls_or_grows cbf w ret w'"
proof -
  obtain client w1 where c: "cm_oneospos_create_attr attr w = Some (client, w1)"
    using assms by (auto simp: oneospos_fresh_location_def split: bind_splits)
  note g1 = create_attr_grows [OF c]
  show ?thesis
  proof (cases client)
    case None
    have "service_grows w1 (set_oneos (\<lambda>s. s\<lparr>s_oneospos_busy := False\<rparr>) w1)"
      by (simp add: rest_same_grows)
    then show ?thesis using assms service_grows_trans [OF g1]
      by (auto simp: oneospos_fresh_location_def c None calls_or_grows_def)
  next
    case (Some cl)
    define v1 where "v1 = set_oneos (\<lambda>s. s\<lparr>s_oneospos_client := Some cl, client_live := True\<rparr>) w1"
    obtain w2 w3 r w4 where
      p: "oneospos_backup_lastpid (op_pid attr) v1 = Some w2" and u: "oneospos_backup_ueinfo ue w2 = Some w3"
      and a: "cm_oneospos_asynlocation parse ind cbf (Some ue) (op_pid attr) w3 = Some (r, w4)"
      and fin: "(if r = CM_LBS_OK then Some (r, w4) else do {
           w5 \<leftarrow> oneospos_client_free (set_oneos (\<lambda>s. s\<lparr>s_oneospos_busy := False\<rparr>) w4);
           Some (r, w5) }) = Some (ret, w')"
      using assms unfolding oneospos_fresh_location_def c Some v1_def
      by (clarsimp simp: bind_eq_Some_conv simp del: not_None_eq)
    have r: "r = CM_LBS_OK" using fin failed_request_faults [OF a] by (auto split: if_splits)
    then have ret: "ret = CM_LBS_OK" "w' = w4" using fin by simp_all
    obtain x y len where x: "near w3 x" and q: "calls_or_near cbf (set_oneos (\<lambda>s. s\<lparr>s_http_content := Some y,
      content_live := True, s_http_conten_len := len\<rparr>) x) w4"
      using oneos_asynlocation_calls [OF a] r by auto
    have "service_grows w1 v1" by (simp add: v1_def rest_same_grows)
    moreover have "near v1 x" using oneos_backups_near(1) [OF p] oneos_backups_near(2) [OF u] x near_trans by blast
    ultimately have g: "service_grows w x"
      using g1 service_grows_trans rest_same_grows unfolding near_def by blast
    have s: "service_grows w v" if "near (set_oneos (\<lambda>s. s\<lparr>s_http_content := Some y,
      content_live := True, s_http_conten_len := len\<rparr>) x) v" for v
      using that service_grows_trans [OF g rest_same_grows] by (simp add: near_def)
    show ?thesis using q ret s unfolding calls_or_near_def calls_or_grows_def
      by (meson near_def)
  qed
qed


lemma oneos_return_last_calls:
  assumes "oneospos_return_last_location (Some cbf) attr w = Some (ret, w')"
  shows "calls_or_grows cbf w ret w'"
proof (cases "s_rsp_buf (w_oneosst w)")
  case None
  then show ?thesis using assms
    by (simp add: oneospos_return_last_location_def calls_or_grows_def rest_same_grows)
next
  case (Some old)
  obtain ok w1 where m: "env_malloc w = (ok, w1)" by (cases "env_malloc w")
  obtain rsp w2 where c: "oneospos_copy_rsp old w1 = (rsp, w2)" by (cases "oneospos_copy_rsp old w1")
  have s: "service_grows w w" "service_grows w w1" "service_grows w w2"
    using rest_same_malloc [OF m] oneos_memory_service(3) [OF c] rest_same_trans rest_same_grows
    by (blast intro: rest_same_refl)+
  have called: "calls_or_grows cbf w CM_LBS_OK v" if "cbf ev r m w2 = Some v" for ev r m v
    using s(3) that rest_same_refl unfolding calls_or_grows_def by blast
  have not_called: "calls_or_grows cbf w e w" "calls_or_grows cbf w e w1" "calls_or_grows cbf w e w2" for e
    using s by (simp_all add: calls_or_grows_def)
  show ?thesis using assms called not_called
    by (auto simp: oneospos_return_last_location_def Some Let_def m c split: if_splits bind_splits)
qed

lemma oneos_location_calls:
  assumes "cm_oneospos_location parse ind cbf ueinfo attr w = Some (ret, w')"
  shows "calls_or_grows cbf w ret w'"
proof (cases "ueinfo = None \<or> s_oneospos_busy (w_oneosst w)")
  case True
  then show ?thesis using assms
    by (auto simp: cm_oneospos_location_def calls_or_grows_def rest_same_grows split: option.splits)
next
  case False
  define w0 where "w0 = set_oneos (\<lambda>s. s\<lparr>s_oneospos_busy := True\<rparr>) w"
  obtain ue where ue: "ueinfo = Some ue" using False by auto
  obtain same last w1 where
    l: "(if same = CM_LBS_OK then oneospos_return_last_location (Some cbf) attr w0
      else Some (CM_LBS_ERR, w0)) = Some (last, w1)"
    and f: "(if last = CM_LBS_OK then Some (CM_LBS_OK, set_oneos (\<lambda>s. s\<lparr>s_oneospos_busy := False\<rparr>) w1)
       else oneospos_fresh_location parse ind cbf ue attr w1) = Some (ret, w')"
    using assms False unfolding cm_oneospos_location_def Let_def w0_def ue
    by (clarsimp simp: bind_eq_Some_conv simp del: not_None_eq)
  have g: "service_grows w w0" by (simp add: w0_def rest_same_grows)
  have q: "calls_or_grows cbf w0 last w1"
    using l oneos_return_last_calls [of cbf attr w0 last w1] rest_same_grows [of w0 w0]
    by (auto simp: calls_or_grows_def split: if_splits)
  show ?thesis
  proof (cases "last = CM_LBS_OK")
    case True
    then have "rest_same w1 w'" "ret = CM_LBS_OK" using f by auto
    then show ?thesis using q True g unfolding calls_or_grows_def
      by (meson service_grows_trans rest_same_grows rest_same_trans)
  next
    case False
    then have "service_grows w w1" using q g service_grows_trans by (auto simp: calls_or_grows_def)
    moreover have "calls_or_grows cbf w1 ret w'"
      using f False oneos_fresh_calls [of parse ind cbf ue attr w1 ret w'] by simp
    ultimately show ?thesis unfolding calls_or_grows_def by (meson service_grows_trans)
  qed
qed

text \<open>The request of the OneOS platform in this build, where the device information is a zeroed block.\<close>

definition oneospos_locate :: "(string \<Rightarrow> string \<Rightarrow> string \<times> string) \<Rightarrow> (string \<Rightarrow> cJSON option)
    \<Rightarrow> indet \<Rightarrow> cm_oneospos_attr_t \<Rightarrow> lbs_world \<Rightarrow> (cm_lbs_state_e \<times> lbs_world) option" where
  "oneospos_locate gcj parse ind a =
     cm_oneospos_location parse ind (cm_lbs_oneospos_callback (dispatch_cb gcj))
       (map_option (\<lambda>_. zero_oneospos_ueinfo) (op_ueinfo a)) a"

lemma oneospos_locate_keeps: "keeps_contract (oneospos_locate gcj parse ind)"
proof -
  have "lbs_inv w' \<and> (ret \<noteq> CM_LBS_OK \<longrightarrow> w_amap w' = w_amap w \<and> w_oneospos w' = w_oneospos w)"
    if i: "lbs_inv w" and l: "oneospos_locate gcj parse ind a w = Some (ret, w')" for a w ret w'
  proof -
    have "calls_or_grows (cm_lbs_oneospos_callback (dispatch_cb gcj)) w ret w'"
      using l oneos_location_calls unfolding oneospos_locate_def by blast
    then show ?thesis
      using i service_grows_inv rest_same_inv oneospos_callback_inv(1) unfolding calls_or_grows_def
      by (metis service_grows_def)
  qed
  then show ?thesis unfolding keeps_contract_def by blast
qed

end
