(* ===== verification/OneosLife.thy ===== *)
theory OneosLife
  imports OneosFacts
begin

text \<open>
  What a request of the OneOS platform comes to: the position it reads from an answer, the one request
  it can serve, and that request from its start to the callback.
\<close>

section \<open>The position of an answer\<close>

text \<open>Both halves have 24 bytes on the stack, so a half of 24 characters or more is a fault.\<close>

lemma c_str_of_copy:
  assumes "NUL \<notin> set v" and "arr_copy v (replicate n NUL) = Some b"
  shows "c_str b = (if length v < n then Some v else None)"
  using assms c_str_append_NUL [OF assms(1)]
  by (cases "n - length v") (auto simp: arr_copy_def c_str_def split: if_splits)

lemma c_str_of_copy_NUL:
  "NUL \<notin> set v \<Longrightarrow> arr_copy (v @ [NUL]) (replicate n NUL) = Some b \<Longrightarrow> c_str b = Some v"
  using c_str_append_NUL [of v] by (auto simp: arr_copy_def split: if_splits)

lemma oneos_position:
  assumes "env_allocs w = []" and "CHR '','' \<notin> set la" and "NUL \<notin> set la" "NUL \<notin> set lon"
    and "la \<noteq> []" "lon \<noteq> []"
  shows "oneospos_put_location (Some (la @ CHR '','' # lon)) rsp w
    = (if length la < 24 \<and> length lon < 24
       then Some (CM_ONEOSPOS_EVENT_SUCCESS, rsp\<lparr>op_latitude := Some la, op_longitude := Some lon\<rparr>, w)
       else None)"
proof (cases "length la \<le> 24 \<and> length lon < 24")
  case True
  obtain a b where a: "arr_copy la (replicate 24 NUL) = Some a"
    and b: "arr_copy (lon @ [NUL]) (replicate 24 NUL) = Some b"
    using True by (simp add: arr_copy_def)
  show ?thesis
    using True assms(1,5,6) c_str_of_copy [OF assms(3) a] c_str_of_copy_NUL [OF assms(4) b] a b
    by (simp add: oneospos_put_location_def location_string_parse_def split_comma_append [OF assms(2)]
        oneospos_copy_location_rsp_def CM_LBS_ONEOSPOS_RSP_LENMAX_def malloc_plenty)
next
  case False
  then show ?thesis
    by (auto simp: oneospos_put_location_def location_string_parse_def split_comma_append [OF assms(2)]
        arr_copy_def)
qed

text \<open>An answer that says no success is mapped by its code.\<close>

lemma oneos_refusal:
  assumes "parse param = Some j" and "cJSON_GetObjectItem (Some j) ''success'' = Some s"
    and "jtype s mod 256 \<noteq> cJSON_True" and "item_string (cJSON_GetObjectItem (Some j) ''code'') = Some code"
  shows "oneospos_http_location_parse parse rsp param w = (let ev = (
      if code = ''10000'' then CM_ONEOSPOS_EVENT_FAIL
      else if code = ''11000'' then CM_ONEOSPOS_EVENT_OVER_RESTRICT
      else if code = ''12000'' then CM_ONEOSPOS_EVENT_UNSET_PLATFORM
      else CM_ONEOSPOS_EVENT_UNKNOW) in Some (ev, rsp\<lparr>op_event := ev\<rparr>, w))"
  using assms by (auto simp: oneospos_http_location_parse_def Let_def oneospos_find_callback_event_def
      receive_event_def item_string_def split: option.splits)

section \<open>The life of the platform\<close>

definition keeps_oneos :: "oneospos_cb \<Rightarrow> bool" where
  "keeps_oneos cbf \<longleftrightarrow> (\<forall>ev r m v v'. cbf ev r m v = Some v' \<longrightarrow> w_oneosst v' = w_oneosst v)"

text \<open>Not busy and no remembered result: how the platform starts.\<close>

definition oneos_idle :: "oneospos_static \<Rightarrow> bool" where
  "oneos_idle s \<longleftrightarrow> \<not> s_oneospos_busy s \<and> s_rsp_buf s = None"

lemma malloc_oneosst: "env_malloc (w :: lbs_world) = (ok, w') \<Longrightarrow> w_oneosst w' = w_oneosst w"
  by (rule same_more(13) [OF malloc_more])

lemma new_ueinfo_oneosst: "new_ueinfo w = (u, w') \<Longrightarrow> w_oneosst w' = w_oneosst w"
  unfolding new_ueinfo_def by (auto dest!: malloc_oneosst split: prod.splits if_splits)

lemma create_attr_oneosst:
  "cm_oneospos_create_attr src w = Some (r, w') \<Longrightarrow> w_oneosst w' = w_oneosst w"
  unfolding cm_oneospos_create_attr_def
  by (auto dest!: malloc_oneosst new_ueinfo_oneosst
      split: option.splits prod.splits if_splits bind_splits)

lemma calls_or_near_busy:
  assumes "calls_or_near cbf w w'" and "keeps_oneos cbf"
  shows "s_oneospos_busy (w_oneosst w') = s_oneospos_busy (w_oneosst w)"
proof (cases "near w w'")
  case True
  then show ?thesis by (simp add: near_def)
next
  case False
  then obtain v ev r m v' where "near w v" "cbf ev r m v = Some v'" "near v' w'"
    using assms(1) unfolding calls_or_near_def by blast
  moreover have "w_oneosst v' = w_oneosst v" using assms(2) \<open>cbf ev r m v = Some v'\<close>
    unfolding keeps_oneos_def by blast
  ultimately show ?thesis by (simp add: near_def)
qed

lemma oneos_fresh_life:
  assumes "oneospos_fresh_location parse ind cbf ue attr w = Some (ret, w')" and "keeps_oneos cbf"
    and "s_oneospos_busy (w_oneosst w)" and "s_rsp_buf (w_oneosst w) = None"
  shows "if ret = CM_LBS_OK then s_oneospos_busy (w_oneosst w') else ret = CM_LBS_MEMROYERR \<and> oneos_idle (w_oneosst w')"
proof -
  obtain client w1 where c: "cm_oneospos_create_attr attr w = Some (client, w1)"
    using assms by (auto simp: oneospos_fresh_location_def split: bind_splits)
  note s1 = create_attr_oneosst [OF c]
  show ?thesis
  proof (cases client)
    case None
    then show ?thesis using assms s1 by (auto simp: oneospos_fresh_location_def c oneos_idle_def)
  next
    case (Some cl)
    define v1 where "v1 = set_oneos (\<lambda>s. s\<lparr>s_oneospos_client := Some cl, client_live := True\<rparr>) w1"
    obtain w2 w3 r w4 where
      p: "oneospos_backup_lastpid (op_pid attr) v1 = Some w2" and u: "oneospos_backup_ueinfo ue w2 = Some w3"
      and a: "cm_oneospos_asynlocation parse ind cbf (Some ue) (op_pid attr) w3 = Some (r, w4)"
      and fin: "(if r = CM_LBS_OK then Some (r, w4) else do {
           w5 \<leftarrow> oneospos_client_free (set_oneos (\<lambda>s. s\<lparr>s_oneospos_busy := False\<rparr>) w4);
           Some (r, w5) }) = Some (ret, w')"
      using assms unfolding oneospos_fresh_location_def c Some v1_def
      by (clarsimp simp: bind_eq_Some_conv simp del: not_None_eq)
    have r: "r = CM_LBS_OK" using fin failed_request_faults [OF a] by (auto split: if_splits)
    obtain x y len where x: "near w3 x" and q: "calls_or_near cbf (set_oneos (\<lambda>s. s\<lparr>s_http_content := Some y,
      content_live := True, s_http_conten_len := len\<rparr>) x) w4"
      using oneos_asynlocation_calls [OF a] r by auto
    have "near v1 x" using oneos_backups_near(1) [OF p] oneos_backups_near(2) [OF u] x near_trans by blast
    then have "s_oneospos_busy (w_oneosst x)" using s1 assms(3) by (simp add: near_def v1_def)
    then show ?thesis using calls_or_near_busy [OF q assms(2)] r fin by simp
  qed
qed

text \<open>From an idle platform a request that returns has either succeeded, and then the platform stays
  busy, or it found no device information or no memory. No failure of the transfer is ever returned.\<close>

lemma oneos_location_life:
  assumes "cm_oneospos_location parse ind cbf ueinfo attr w = Some (ret, w')" and "keeps_oneos cbf"
    and "oneos_idle (w_oneosst w)"
  shows "if ret = CM_LBS_OK then s_oneospos_busy (w_oneosst w')
    else (ret = CM_LBS_PARAMERR \<or> ret = CM_LBS_MEMROYERR) \<and> oneos_idle (w_oneosst w')"
proof (cases ueinfo)
  case None
  then show ?thesis using assms by (auto simp: cm_oneospos_location_def)
next
  case (Some ue)
  define w0 where "w0 = set_oneos (\<lambda>s. s\<lparr>s_oneospos_busy := True\<rparr>) w"
  have s0: "s_oneospos_busy (w_oneosst w0)" "s_rsp_buf (w_oneosst w0) = None"
    using assms(3) by (simp_all add: w0_def oneos_idle_def)
  have r: "oneospos_return_last_location f attr w0 = Some (CM_LBS_ERR, w0)" for f
    using s0 by (simp add: oneospos_return_last_location_def)
  have "oneospos_fresh_location parse ind cbf ue attr w0 = Some (ret, w')"
    using assms(1,3) r unfolding cm_oneospos_location_def Let_def w0_def oneos_idle_def Some
    by (auto split: bind_splits if_splits)
  from oneos_fresh_life [OF this assms(2) s0] show ?thesis by (auto split: if_splits)
qed

lemma oneos_location_busy:
  "s_oneospos_busy (w_oneosst w) \<Longrightarrow>
    cm_oneospos_location parse ind cbf (Some ue) attr w = Some (CM_LBS_BUSY, w)"
  by (simp add: cm_oneospos_location_def)

section \<open>The body of a request\<close>

definition oneos_cells :: "cm_oneospos_ueinfo_t \<Rightarrow> string" where
  "oneos_cells ue = (let ci = ou_cell_info ue in
     dec_int (sint (ci_mcc ci)) @ '','' @ dec_int (sint (ci_mnc ci)) @ '','' @ text_of (ci_lac ci)
     @ '','' @ text_of (ci_cellid ci) @ '','' @ dec_int (sint (ci_signal ci))
     @ (case ou_nearbts ue of None \<Rightarrow> [] | Some nb \<Rightarrow> if length nb > 3 then CHR ''|'' # nb else []))"

text \<open>A JSON object with three members.\<close>

definition oneos_body :: "string \<Rightarrow> cm_oneospos_ueinfo_t \<Rightarrow> string" where
  "oneos_body pid ue = ''{'' @ quoted ''pid'' @ '':'' @ quoted pid @ '','' @ quoted ''cellList'' @ '':''
     @ quoted (oneos_cells ue) @ '','' @ quoted ''batchId'' @ '':'' @ quoted (text_of (ou_imei ue)) @ ''}''"

definition oneos_ue_wf :: "cm_oneospos_ueinfo_t \<Rightarrow> bool" where
  "oneos_ue_wf ue \<longleftrightarrow> NUL \<in> set (ou_imei ue) \<and> NUL \<in> set (ci_lac (ou_cell_info ue))
     \<and> NUL \<in> set (ci_cellid (ou_cell_info ue))"

lemma oneos_body_ok:
  assumes "env_allocs w = []" and "oneos_ue_wf ue" and "c_str pid = Some p"
    and "length (oneos_cells ue) < 512"
  shows "oneospos_create_http_content (Some ue) pid [] w
    = (if length (oneos_body p ue) < 1024
       then Some ((of_nat (length (oneos_body p ue)), oneos_body p ue), w) else None)"
proof -
  have bts: "oneospos_bts ue = Some (oneos_cells ue)"
    using assms(2,4)
    by (simp add: oneospos_bts_def oneos_cells_def oneos_ue_wf_def c_str_text fits_def Let_def)
  have imei: "c_str (ou_imei ue) = Some (text_of (ou_imei ue))"
    using assms(2) by (simp add: oneos_ue_wf_def c_str_text)
  have "concat [CHR ''{'' # quoted ''pid'' @ '':'' @ [CHR 0x22], p, CHR 0x22 # '','',
      quoted ''cellList'' @ '':'' @ [CHR 0x22], oneos_cells ue, CHR 0x22 # '','',
      quoted ''batchId'' @ '':'' @ [CHR 0x22], text_of (ou_imei ue), CHR 0x22 # ''}''] = oneos_body p ue"
    by (simp add: oneos_body_def quoted_def)
  then have "strcats ONEOSPOS_HTTP_CONTENT_LEN [CHR ''{'' # quoted ''pid'' @ '':'' @ [CHR 0x22], p, CHR 0x22 # '','',
      quoted ''cellList'' @ '':'' @ [CHR 0x22], oneos_cells ue, CHR 0x22 # '','',
      quoted ''batchId'' @ '':'' @ [CHR 0x22], text_of (ou_imei ue), CHR 0x22 # ''}''] []
    = (if length (oneos_body p ue) < 1024 then Some (oneos_body p ue) else None)"
    using strcats_eq [of "[]" ONEOSPOS_HTTP_CONTENT_LEN] by (simp add: ONEOSPOS_HTTP_CONTENT_LEN_def del: strcats.simps)
  then show ?thesis
    by (simp add: oneospos_create_http_content_def malloc_plenty [OF assms(1)] bts assms(3) imei del: strcats.simps)
qed

section \<open>A request from start to end\<close>

lemma oneos_create_attr_plenty:
  assumes "env_allocs w = []" and "op_ueinfo a = Some i" and "c_str (op_pid a) = Some p"
  shows "cm_oneospos_create_attr a w = Some (Some (a\<lparr>op_ueinfo := Some (w_next w), op_pid := p @ [NUL]\<rparr>),
    w\<lparr>w_live := insert (w_next w) (w_live w), w_next := Suc (w_next w)\<rparr>)"
proof -
  have "strncpy_new (length p) (op_pid a) = Some (p @ [NUL])"
    using assms(3) by (auto simp: strncpy_new_def c_str_def Let_def split: if_splits)
  then show ?thesis using assms
    by (simp add: cm_oneospos_create_attr_def new_ueinfo_def malloc_plenty env_malloc_def malloc_ok_def)
qed

text \<open>The transfer of a platform whose handles are there, up to the answer.\<close>

lemma oneos_transfer_ok:
  assumes "s_oneospos_curl_handle (w_oneosst w) = Some i" "s_curl_multi_handle (w_oneosst w)"
    and "i \<in> w_handles w" and "w_curl w = []" and "literal_writable ind"
  shows "oneospos_transfer parse ind cbf True w
    = map_option (Pair CM_LBS_OK) (oneospos_http_callback parse cbf (Some i)
        (CM_HTTP_CALLBACK_EVENT_RSP_CONTENT_IND (response_text ind))
        (w\<lparr>w_sent := w_sent w @ [ONEOSPOS_HTTP_HOST]\<rparr>))"
proof -
  have curl: "w\<lparr>w_curl := [], w_sent := t\<rparr> = w\<lparr>w_sent := t\<rparr>" for t using assms(4) by (cases w) simp
  show ?thesis using assms unfolding map_conv_bind_option
    by (simp add: oneospos_transfer_def curl_easy_setopt_def curl_multi_add_handle_def
        curl_multi_perform_def curl_slist_append_def next_answer_def comp_def curl)
qed

lemma oneos_content_ok:
  assumes "oneospos_callback_state (w_oneosst w) = 0" and "env_allocs w = []" and "content = Some answer"
    and "w0 = set_oneos (\<lambda>s. s\<lparr>oneospos_callback_state := 2\<rparr>) w"
    and "oneospos_http_location_parse parse zero_oneospos_rsp answer w0 = Some (ev, r, w0)"
  shows "oneospos_http_content parse cbf c content w
    = do { v \<leftarrow> cbf ev (Some (r\<lparr>op_event := ev\<rparr>)) (op_cb_arg c) w0;
           oneospos_http_release (oneospos_rsp_backup (r\<lparr>op_event := ev\<rparr>) v) }"
  using assms by (simp add: oneospos_http_content_def malloc_plenty Let_def)

text \<open>Opening the handles.\<close>

lemma oneos_open_plenty:
  assumes "w_curl w = []" and "s_oneospos_curl_handle (w_oneosst w) = None" and "\<not> s_curl_multi_handle (w_oneosst w)"
  shows "oneospos_curl_open w = (True, set_oneos (\<lambda>s. s\<lparr>s_oneospos_curl_handle := Some (w_next w),
      s_curl_multi_handle := True\<rparr>)
    (w\<lparr>w_handles := insert (w_next w) (w_handles w), w_next := Suc (w_next w)\<rparr>))"
  using assms by (simp add: oneospos_curl_open_def curl_easy_init_def curl_multi_init_def next_answer_def
      set_oneos_def)

text \<open>The HTTP part: one request without its body, and the answer's result reaches the callback once.\<close>

lemma oneos_first_post:
  assumes "env_allocs w = []" "w_curl w = []" "s_oneospos_curl_handle (w_oneosst w) = None"
    and "\<not> s_curl_multi_handle (w_oneosst w)" "oneospos_callback_state (w_oneosst w) = 0"
    and c: "s_oneospos_client (w_oneosst w) = Some c" "client_live (w_oneosst w)"
    and "literal_writable ind" and "response_text ind = Some answer"
    and p: "\<And>v. env_allocs v = [] \<Longrightarrow>
      oneospos_http_location_parse parse zero_oneospos_rsp answer v = Some (ev, r, v)"
  shows "\<exists>v. oneospos_http_post parse ind cbf w = map_option (Pair CM_LBS_OK)
      (do { v' \<leftarrow> cbf ev (Some (r\<lparr>op_event := ev\<rparr>)) (op_cb_arg c) v;
            oneospos_http_release (oneospos_rsp_backup (r\<lparr>op_event := ev\<rparr>) v') })
    \<and> w_sent v = w_sent w @ [ONEOSPOS_HTTP_HOST] \<and> near w v
    \<and> s_oneospos_curl_handle (w_oneosst v) = Some (w_next w) \<and> w_next w \<in> w_handles v
    \<and> env_fs v = env_fs w \<and> env_allocs v = []"
proof -
  define i where "i = w_next w"
  define w1 where "w1 = set_oneos (\<lambda>s. s\<lparr>s_oneospos_curl_handle := Some i, s_curl_multi_handle := True\<rparr>)
    (w\<lparr>w_handles := insert i (w_handles w), w_next := Suc i\<rparr>)"
  have o: "oneospos_curl_open w = (True, w1)"
    unfolding w1_def i_def by (rule oneos_open_plenty [OF assms(2-4)])
  define w2 where "w2 = w1\<lparr>w_sent := w_sent w1 @ [ONEOSPOS_HTTP_HOST]\<rparr>"
  define v where "v = set_oneos (\<lambda>s. s\<lparr>oneospos_callback_state := 2\<rparr>) w2"
  have s1: "s_oneospos_curl_handle (w_oneosst w1) = Some i" "s_curl_multi_handle (w_oneosst w1)"
    "i \<in> w_handles w1" "w_curl w1 = []"
    using assms(2) by (simp_all add: w1_def, simp_all add: set_oneos_def)
  have s2: "oneospos_callback_state (w_oneosst w2) = 0" "env_allocs w2 = []" "env_allocs v = []"
    "s_oneospos_curl_handle (w_oneosst w2) = Some i" "s_oneospos_client (w_oneosst w2) = Some c"
    "client_live (w_oneosst w2)"
    using assms(1,5) c by (simp_all add: v_def w2_def w1_def set_oneos_def)
  have "near w w1" unfolding w1_def by (simp add: near_def rest_same_def set_oneos_def i_def)
  then have n: "near w v" by (simp add: v_def w2_def)
  have "oneospos_http_content parse cbf c (response_text ind) w2
    = do { v' \<leftarrow> cbf ev (Some (r\<lparr>op_event := ev\<rparr>)) (op_cb_arg c) v;
           oneospos_http_release (oneospos_rsp_backup (r\<lparr>op_event := ev\<rparr>) v') }"
    by (rule oneos_content_ok [OF s2(1,2) assms(9) v_def p [OF s2(3)]])
  then have "oneospos_http_callback parse cbf (Some i)
      (CM_HTTP_CALLBACK_EVENT_RSP_CONTENT_IND (response_text ind)) w2
    = do { v' \<leftarrow> cbf ev (Some (r\<lparr>op_event := ev\<rparr>)) (op_cb_arg c) v;
           oneospos_http_release (oneospos_rsp_backup (r\<lparr>op_event := ev\<rparr>) v') }"
    using s2 by (simp add: oneospos_http_callback_def)
  then have "oneospos_http_post parse ind cbf w = map_option (Pair CM_LBS_OK)
      (do { v' \<leftarrow> cbf ev (Some (r\<lparr>op_event := ev\<rparr>)) (op_cb_arg c) v;
            oneospos_http_release (oneospos_rsp_backup (r\<lparr>op_event := ev\<rparr>) v') })"
    using oneos_transfer_ok [OF s1 assms(8), of parse cbf]
    by (simp add: oneospos_http_post_def malloc_plenty [OF assms(1)] o w2_def)
  moreover have "w_sent v = w_sent w @ [ONEOSPOS_HTTP_HOST]" "i \<in> w_handles v"
    "s_oneospos_curl_handle (w_oneosst v) = Some i" "env_fs v = env_fs w" "env_allocs v = []"
    using s1 assms(1) by (simp_all add: v_def w2_def w1_def set_oneos_def)
  ultimately show ?thesis using n unfolding i_def by blast
qed

text \<open>The first request after the start. The body is made but stays in the client.\<close>

lemma oneos_first_request:
  assumes "w_oneosst w = zero_oneospos_static" "env_allocs w = []" "w_curl w = []"
    and "op_ueinfo attr = Some i" "c_str (op_pid attr) = Some pid"
    and "oneos_ue_wf ue" "ou_nearbts ue = None" "length (oneos_cells ue) < 512"
    and "length (oneos_body pid ue) < 1024"
    and "literal_writable ind" "response_text ind = Some answer"
    and "\<And>v. env_allocs v = [] \<Longrightarrow>
      oneospos_http_location_parse parse zero_oneospos_rsp answer v = Some (ev, r, v)"
  shows "\<exists>v h. cm_oneospos_location parse ind cbf (Some ue) attr w = map_option (Pair CM_LBS_OK)
      (do { v' \<leftarrow> cbf ev (Some (r\<lparr>op_event := ev\<rparr>)) (op_cb_arg attr) v;
            oneospos_http_release (oneospos_rsp_backup (r\<lparr>op_event := ev\<rparr>) v') })
    \<and> w_sent v = w_sent w @ [ONEOSPOS_HTTP_HOST] \<and> service_grows w v
    \<and> s_http_content (w_oneosst v) = Some (oneos_body pid ue)
    \<and> s_oneospos_curl_handle (w_oneosst v) = Some h \<and> h \<in> w_handles v
    \<and> env_fs v = env_fs w \<and> env_allocs v = []"
proof -
  define c where "c = attr\<lparr>op_ueinfo := Some (w_next w), op_pid := pid @ [NUL]\<rparr>"
  define w0 where "w0 = set_oneos (\<lambda>s. s\<lparr>s_oneospos_busy := True\<rparr>) w"
  define w1 where "w1 = w0\<lparr>w_live := insert (w_next w) (w_live w), w_next := Suc (w_next w)\<rparr>"
  define w2 where "w2 = set_oneos (\<lambda>s. s\<lparr>s_oneospos_client := Some c, client_live := True\<rparr>) w1"
  define w3 where "w3 = set_oneos (\<lambda>s. s\<lparr>s_oneospos_lastpid := Some pid\<rparr>) w2"
  define w4 where "w4 = set_oneos (\<lambda>s. s\<lparr>o_ue_info_last := Some ue, o_ue_last_live := True\<rparr>) w3"
  define w5 where "w5 = set_oneos (\<lambda>s. s\<lparr>s_http_content := Some (oneos_body pid ue), content_live := True,
    s_http_conten_len := of_nat (length (oneos_body pid ue))\<rparr>) w4"
  note ws = w0_def w1_def w2_def w3_def w4_def w5_def
  have alloc: "env_allocs w0 = []" "env_allocs w2 = []" "env_allocs w3 = []" "env_allocs w4 = []" "env_allocs w5 = []"
    using assms(2) by (simp_all add: ws set_oneos_def)
  have "w_live w0 = w_live w" "w_next w0 = w_next w" by (simp_all add: w0_def set_oneos_def)
  then have create: "cm_oneospos_create_attr attr w0 = Some (Some c, w1)"
    using oneos_create_attr_plenty [OF alloc(1) assms(4,5)] by (simp add: c_def w1_def)
  have pid: "oneospos_backup_lastpid (op_pid attr) w2 = Some w3"
    using assms(5) by (simp add: oneospos_backup_lastpid_def malloc_plenty [OF alloc(2)] w3_def)
  have "o_ue_info_last (w_oneosst w3) = None"
    using assms(1) by (simp add: ws zero_oneospos_static_def set_oneos_def)
  moreover have "oneospos_create_ueinfo ue (set_oneos (\<lambda>s. s\<lparr>o_ue_last_live := False\<rparr>) w3)
    = (Some ue, set_oneos (\<lambda>s. s\<lparr>o_ue_last_live := False\<rparr>) w3)"
    using alloc(3) assms(7) by (simp add: oneospos_create_ueinfo_def malloc_plenty)
  ultimately have ue: "oneospos_backup_ueinfo ue w3 = Some w4"
    by (simp add: oneospos_backup_ueinfo_def w4_def set_oneos_def)
  have body: "oneospos_create_http_content (Some ue) (op_pid attr) [] w4
    = Some ((of_nat (length (oneos_body pid ue)), oneos_body pid ue), w4)"
    using oneos_body_ok [OF alloc(4) assms(6,5,8)] assms(9) by simp
  have s5: "s_oneospos_curl_handle (w_oneosst w5) = None" "\<not> s_curl_multi_handle (w_oneosst w5)"
    "oneospos_callback_state (w_oneosst w5) = 0" "s_oneospos_client (w_oneosst w5) = Some c"
    "client_live (w_oneosst w5)" "w_curl w5 = []" "w_sent w5 = w_sent w"
    using assms(1,3) by (simp_all add: ws zero_oneospos_static_def set_oneos_def)
  have "op_cb_arg c = op_cb_arg attr" by (simp add: c_def)
  then obtain v where post: "oneospos_http_post parse ind cbf w5 = map_option (Pair CM_LBS_OK)
      (do { v' \<leftarrow> cbf ev (Some (r\<lparr>op_event := ev\<rparr>)) (op_cb_arg attr) v;
            oneospos_http_release (oneospos_rsp_backup (r\<lparr>op_event := ev\<rparr>) v') })"
    and v: "w_sent v = w_sent w @ [ONEOSPOS_HTTP_HOST]" "near w5 v"
      "s_oneospos_curl_handle (w_oneosst v) = Some (w_next w5)" "w_next w5 \<in> w_handles v"
      "env_fs v = env_fs w5" "env_allocs v = []"
    using oneos_first_post [OF alloc(5) s5(6,1-5) assms(10-12), of cbf] s5(7) by metis
  have "cm_oneospos_asynlocation parse ind cbf (Some ue) (op_pid attr) w4
      = oneospos_http_post parse ind cbf w5"
    using content_length_pos [OF body] post
    by (simp add: cm_oneospos_asynlocation_def malloc_plenty [OF alloc(4)] body w5_def [symmetric])
       (auto split: bind_splits)
  then have "oneospos_fresh_location parse ind cbf ue attr w0 = oneospos_http_post parse ind cbf w5"
    using create pid ue post unfolding w2_def
    by (simp add: oneospos_fresh_location_def) (auto split: bind_splits)
  then have "cm_oneospos_location parse ind cbf (Some ue) attr w = oneospos_http_post parse ind cbf w5"
    using assms(1) by (simp add: cm_oneospos_location_def w0_def [symmetric] oneospos_ueinfo_compare_def)
       (simp add: w0_def zero_oneospos_static_def)
  moreover have "service_grows w w5"
    by (auto simp: ws set_oneos_def service_grows_def)
  then have "service_grows w v" using v(2) service_grows_trans rest_same_grows by (auto simp: near_def)
  moreover have "s_http_content (w_oneosst v) = Some (oneos_body pid ue)" using v(2) by (simp add: near_def w5_def)
  moreover have "env_fs v = env_fs w" using v(5) by (simp add: ws set_oneos_def)
  ultimately show ?thesis using post v by auto
qed

end
