(* ===== verification/LbsPlatforms.thy ===== *)
theory LbsPlatforms
  imports AmapLife OneosLife LbsConfigSpec
begin

text \<open>
  The service on its two platforms: the reports of a success, a turn of the task from the message to
  the report, and the states that can be reached when the requests are the platforms' own.
\<close>

section \<open>The report of a success\<close>

lemma length_cat_zeros: "cat_zeros n a = Some b \<Longrightarrow> length b = length a"
  by (induction n arbitrary: a) (auto dest!: length_arr_cat split: bind_splits)

lemma decimals_SomeD:
  assumes "decimals s p = Some t"
  shows "NUL \<notin> set t" and "length t < 16"
proof -
  obtain a where a: "cm_lbs_atcmd_string_assign_decimal s (replicate 16 NUL) (sint p) = Some a" "c_str a = Some t"
    using assms by (auto simp: decimals_def split: bind_splits)
  have "length a = 16"
    using a(1) unfolding cm_lbs_atcmd_string_assign_decimal_def Let_def
    by (auto dest!: length_cat_zeros length_arr_copy split: option.splits if_splits bind_splits)
  then show "NUL \<notin> set t" "length t < 16" using c_str_SomeD [OF a(2)] by auto
qed

text \<open>What the configuration says of the report: the precision, and whether a OneOS position is
  converted.\<close>

definition oneos_settings :: "cfg_store \<Rightarrow> u32 \<times> u32" where
  "oneos_settings st = (case st_oneospos st of
      None \<Rightarrow> (CM_LBS_PRECISION_DEFAULT, CM_LBS_ONEOS_COORDINATE)
    | Some c \<Rightarrow> (o_precision c, o_coordinate_enable c))"

definition success_report :: "string \<Rightarrow> string \<Rightarrow> string" where
  "success_report lon la = CRLF @ ''+MLBSLOC: 100,'' @ lon @ '','' @ la"

lemma head_succed:
  "mlbsloc_head LBS_ATCMD_STATE_SUCCED @ CHR '','' # lon @ CHR '','' # la = success_report lon la"
  by (simp add: mlbsloc_head_def statecode_def dec_int_def dec_nat.simps digit_char_def success_report_def)

lemma oneos_success_report:
  assumes "env_ok w" and "platform_of (env_store w) = CM_LBS_PLAT_ONEOSPOS"
    and "oneos_settings (env_store w) = (prec, conv)"
    and "l_latitude loc = Some la" "length la < 24" "l_longitude loc = Some lon" "length lon < 24"
    and "(if conv = 1 then gcj la lon else (la, lon)) = (la1, lon1)" "length la1 < 24" "length lon1 < 24"
    and "decimals (Some la1) prec = Some la2" "decimals (Some lon1) prec = Some lon2"
  shows "cm_lbs_atcmd_location_urc_rsp gcj LBS_ATCMD_STATE_SUCCED (Some loc) w
    = Some (cm_lbs_urc_rsp (success_report lon2 la2) w)"
proof -
  have al: "env_allocs w = []" using assms(1) by (simp add: env_ok_def)
  have t: "NUL \<notin> set (success_report lon2 la2)" "length (success_report lon2 la2) < CM_LBS_ATCMD_URCLEN_MAX"
    using decimals_SomeD [OF assms(11)] decimals_SomeD [OF assms(12)]
    by (simp_all add: success_report_def urc_len_defs CRLF_def)
  have "length (success_report lon2 la2) < length (replicate CM_LBS_ATCMD_URCLEN_MAX NUL)" using t(2) by simp
  from arr_puts_ok [OF t(1) this] obtain b where b: "arr_puts (success_report lon2 la2) (replicate CM_LBS_ATCMD_URCLEN_MAX NUL) = Some b"
    "c_str b = Some (success_report lon2 la2)" by blast
  have "cm_lbs_atcmd_oneospos_location_urc_rsp gcj (Some loc) CM_LBS_PLAT_ONEOSPOS
      (replicate CM_LBS_ATCMD_URCLEN_MAX NUL) w = Some ((CM_LBS_OK, b), w)"
    using assms(3-12) b(1) unfolding oneos_settings_def
    by (cases "st_oneospos (env_store w)")
       (auto simp: cm_lbs_atcmd_oneospos_location_urc_rsp_def env_rules [OF assms(1)] Let_def fits_def
         head_succed split: if_splits)
  then show ?thesis using al assms(2) b(2)
    by (simp add: cm_lbs_atcmd_location_urc_rsp_def malloc_plenty env_rules [OF assms(1)] Let_def)
qed

definition amap_settings :: "platform_e \<Rightarrow> cfg_store \<Rightarrow> u32 \<times> u32" where
  "amap_settings pf st = (case amap_slot pf st of
      None \<Rightarrow> (CM_LBS_PRECISION_DEFAULT, CM_LBS_DESCR_MODE_DEFAULT)
    | Some c \<Rightarrow> (a_precision c, a_descr_mode c))"

definition amap_report :: "u32 \<Rightarrow> string \<Rightarrow> string \<Rightarrow> string \<Rightarrow> string \<Rightarrow> string" where
  "amap_report mode lon la radius descr = success_report lon la @ '','' @ radius
     @ (if mode = 0 then [] else '','' @ quoted descr)"

lemma head_amap:
  "mlbsloc_head LBS_ATCMD_STATE_SUCCED @ CHR '','' # lon @ CHR '','' # la @ CHR '','' # radius
    = success_report lon la @ CHR '','' # radius"
  using head_succed [of lon la] by (simp add: success_report_def)

lemma amap_success_report:
  assumes "env_ok w" and "platform_of (env_store w) = pf" "pf \<noteq> CM_LBS_PLAT_ONEOSPOS"
    and "amap_settings pf (env_store w) = (prec, mode)"
    and "decimals (l_latitude loc) prec = Some la" "decimals (l_longitude loc) prec = Some lon"
    and "l_radius loc = Some radius" "NUL \<notin> set radius" "length radius < 256"
    and "mode \<noteq> 0 \<Longrightarrow> l_location_describe loc = Some descr \<and> NUL \<notin> set descr \<and> length descr < 256"
  shows "cm_lbs_atcmd_location_urc_rsp gcj LBS_ATCMD_STATE_SUCCED (Some loc) w
    = Some (cm_lbs_urc_rsp (amap_report mode lon la radius descr) w)"
proof -
  have al: "env_allocs w = []" using assms(1) by (simp add: env_ok_def)
  define s where "s = success_report lon la @ CHR '','' # radius"
  have t: "NUL \<notin> set s" "length s < 512"
    using decimals_SomeD [OF assms(5)] decimals_SomeD [OF assms(6)] assms(8,9)
    by (simp_all add: s_def success_report_def CRLF_def)
  have "length s < length (replicate CM_LBS_ATCMD_URCLEN_MAX NUL)" using t(2) by (simp add: urc_len_defs)
  from arr_puts_ok [OF t(1) this] obtain b where b: "arr_puts s (replicate CM_LBS_ATCMD_URCLEN_MAX NUL) = Some b"
    "c_str b = Some s" "length b = CM_LBS_ATCMD_URCLEN_MAX" by auto
  have run: "cm_lbs_atcmd_amap_location_urc_rsp (Some loc) pf (replicate CM_LBS_ATCMD_URCLEN_MAX NUL) w
    = (if mode = 0 then Some ((CM_LBS_OK, b), w)
       else do {
         des \<leftarrow> l_location_describe loc;
         (if length des > CM_LBS_ATCMD_URCDESCRLEN_MAX - 2 then Some ((CM_LBS_ERR, b), w)
          else do {
            d \<leftarrow> arr_puts ('','' @ quoted des) (replicate CM_LBS_ATCMD_URCDESCRLEN_MAX NUL);
            location_desrc \<leftarrow> c_str d;
            b2 \<leftarrow> arr_cat location_desrc b;
            Some ((CM_LBS_OK, b2), w) }) })"
    using assms(4-7) b(1) al unfolding amap_settings_def s_def
    by (cases "amap_slot pf (env_store w)")
       (simp_all add: cm_lbs_atcmd_amap_location_urc_rsp_def env_rules [OF assms(1)] malloc_plenty head_amap
         cong: if_cong)
  have "\<exists>b'. cm_lbs_atcmd_amap_location_urc_rsp (Some loc) pf (replicate CM_LBS_ATCMD_URCLEN_MAX NUL) w
      = Some ((CM_LBS_OK, b'), w) \<and> c_str b' = Some (amap_report mode lon la radius descr)"
  proof (cases "mode = 0")
    case True
    then show ?thesis using run b(2) by (simp add: amap_report_def s_def)
  next
    case False
    then have d: "l_location_describe loc = Some descr" "NUL \<notin> set descr" "length descr < 256"
      using assms(10) by auto
    have q: "NUL \<notin> set ('','' @ quoted descr)" "length ('','' @ quoted descr) < 512"
      using d by (simp_all add: quoted_def)
    have "length ('','' @ quoted descr) < length (replicate CM_LBS_ATCMD_URCDESCRLEN_MAX NUL)"
      using q(2) by (simp add: urc_len_defs)
    from arr_puts_ok [OF q(1) this] obtain e where
      e: "arr_puts ('','' @ quoted descr) (replicate CM_LBS_ATCMD_URCDESCRLEN_MAX NUL) = Some e"
        "c_str e = Some ('','' @ quoted descr)" by blast
    have "length s + length ('','' @ quoted descr) < length b"
      using t(2) q(2) b(3) by (simp add: urc_len_defs)
    from arr_cat_ok [OF b(2) q(1) this] obtain b' where
      b': "arr_cat ('','' @ quoted descr) b = Some b'" "c_str b' = Some (s @ '','' @ quoted descr)" by blast
    have small: "\<not> CM_LBS_ATCMD_URCDESCRLEN_MAX - 2 < length descr" using d(3) by (simp add: urc_len_defs)
    have "amap_report mode lon la radius descr = s @ '','' @ quoted descr"
      using False by (simp add: amap_report_def s_def)
    then show ?thesis using run False d(1) e b' small by simp
  qed
  then show ?thesis using al assms(2,3)
    by (auto simp: cm_lbs_atcmd_location_urc_rsp_def malloc_plenty env_rules [OF assms(1)] Let_def)
qed

section \<open>The callbacks of a success\<close>

lemma urc_rsp_inv: "lbs_inv w \<Longrightarrow> lbs_inv (cm_lbs_urc_rsp t w)"
  by (simp add: cm_lbs_urc_rsp_def lbs_inv_def)

lemma dispatch_success:
  assumes "lbs_inv v"
    and "cm_lbs_atcmd_location_urc_rsp gcj LBS_ATCMD_STATE_SUCCED (Some loc) v = Some (cm_lbs_urc_rsp t v)"
  shows "dispatch_cb gcj ATCMD_CALLBACK CM_LBS_LOCATION_OK (Some loc) n v
    = Some (v\<lparr>w_urc := w_urc v @ [t], w_amap := None, w_oneospos := None,
        w_live := w_live v - amap_uid v - oneospos_uid v\<rparr>)"
  using assms(2) deinit_ok [OF urc_rsp_inv [OF assms(1), of t]]
  by (simp add: dispatch_cb_def cm_lbs_atcmd_callback_def atcmd_state_def) (simp add: cm_lbs_urc_rsp_def)

lemma service_oneos_callback_keeps: "keeps_oneos (cm_lbs_oneospos_callback (dispatch_cb gcj))"
proof -
  have "w_oneosst v' = w_oneosst v" if c: "cm_lbs_oneospos_callback (dispatch_cb gcj) ev r m v = Some v'"
    for ev r m v v'
  proof -
    obtain x u where x: "lbs_env.more x = lbs_env.more v"
      and u: "u = x \<or> (\<exists>f ret res arg. dispatch_cb gcj f ret res arg x = Some u)"
      and f: "cm_lbs_s_oneospos_attr_free u = Some v'"
      by (rule oneospos_callback_calls [OF c])
    have "w_oneosst u = w_oneosst x" using u dispatch_platforms(2) by blast
    moreover have "w_oneosst v' = w_oneosst u"
      using f by (auto simp: cm_lbs_s_oneospos_attr_free_def cm_oneospos_free_ueinfo_def free_ueinfo_def
          split: option.splits bind_splits if_splits)
    ultimately show ?thesis using same_more(13) [OF x] by simp
  qed
  then show ?thesis unfolding keeps_oneos_def by blast
qed

lemma oneos_callback_success:
  assumes "lbs_inv v" and "env_allocs v = []" and "op_latitude r = Some la" "op_longitude r = Some lon"
    and "cm_lbs_atcmd_location_urc_rsp gcj LBS_ATCMD_STATE_SUCCED
      (Some (zero_rsp\<lparr>l_latitude := Some la, l_longitude := Some lon\<rparr>)) v = Some (cm_lbs_urc_rsp t v)"
  shows "cm_lbs_oneospos_callback (dispatch_cb gcj) CM_ONEOSPOS_EVENT_SUCCESS (Some r)
      (Some \<lparr>cb = Some ATCMD_CALLBACK, cb_arg = n\<rparr>) v
    = Some (v\<lparr>w_urc := w_urc v @ [t], w_amap := None, w_oneospos := None,
        w_live := w_live v - amap_uid v - oneospos_uid v\<rparr>)"
  using assms dispatch_success [OF assms(1,5), of n]
  by (simp add: cm_lbs_oneospos_callback_def oneospos_result_def malloc_plenty cm_lbs_s_oneospos_attr_free_def)

section \<open>A turn of the task for OneOS\<close>

text \<open>An answer with a position.\<close>

definition oneos_answer :: "cJSON option \<Rightarrow> string \<Rightarrow> string \<Rightarrow> bool" where
  "oneos_answer j la lon \<longleftrightarrow> (\<exists>s. cJSON_GetObjectItem j ''success'' = Some s \<and> jtype s mod 256 = cJSON_True)
     \<and> item_string (cJSON_GetObjectItem (cJSON_GetObjectItem j ''data'') ''pos'') = Some (la @ CHR '','' # lon)
     \<and> CHR '','' \<notin> set la \<and> NUL \<notin> set la \<and> NUL \<notin> set lon \<and> la \<noteq> [] \<and> lon \<noteq> []
     \<and> length la < 24 \<and> length lon < 24"

lemma oneos_answer_parsed:
  assumes "oneos_answer (parse answer) la lon" and "env_allocs v = []"
  shows "oneospos_http_location_parse parse rsp answer v = Some (CM_ONEOSPOS_EVENT_SUCCESS,
    rsp\<lparr>op_event := CM_ONEOSPOS_EVENT_SUCCESS, op_latitude := Some la, op_longitude := Some lon\<rparr>, v)"
proof -
  obtain j where j: "parse answer = Some j"
    using assms(1) by (cases "parse answer") (auto simp: oneos_answer_def cJSON_GetObjectItem_def get_object_item_def)
  obtain s where s: "cJSON_GetObjectItem (Some j) ''success'' = Some s" "jtype s mod 256 = cJSON_True"
    using assms(1) by (auto simp: oneos_answer_def j)
  obtain pos where pos: "cJSON_GetObjectItem (cJSON_GetObjectItem (Some j) ''data'') ''pos'' = Some pos"
    "valuestring pos = Some (la @ CHR '','' # lon)"
    using assms(1) by (auto simp: oneos_answer_def j item_string_def bind_eq_Some_conv)
  then obtain data where data: "cJSON_GetObjectItem (Some j) ''data'' = Some data"
    by (cases "cJSON_GetObjectItem (Some j) ''data''") (auto simp: cJSON_GetObjectItem_def get_object_item_def)
  show ?thesis
    using s pos data oneos_position [OF assms(2), of la lon rsp] assms(1) 
    by (simp add: oneospos_http_location_parse_def j oneos_answer_def)
qed

text \<open>What remembering a result and releasing the handle leave alone.\<close>

lemma oneos_copy_rsp_plenty:
  assumes "env_allocs w = []"
  shows "\<exists>r'. oneospos_copy_rsp r w = (r', w)"
proof -
  have "\<forall>v. \<exists>x. oneospos_copy_location_rsp v w = (x, w)"
    using assms by (auto simp: oneospos_copy_location_rsp_def malloc_plenty split: option.split)
  then obtain f where "\<And>v. oneospos_copy_location_rsp v w = (f v, w)" by metis
  then show ?thesis by (simp add: oneospos_copy_rsp_def split: prod.split)
qed

lemma oneos_backup_rest:
  fixes w :: lbs_world
  shows "w_sent (oneospos_rsp_backup r w) = w_sent w" "w_handles (oneospos_rsp_backup r w) = w_handles w"
    "s_oneospos_curl_handle (w_oneosst (oneospos_rsp_backup r w)) = s_oneospos_curl_handle (w_oneosst w)"
    "env_allocs w = [] \<Longrightarrow> env_allocs (oneospos_rsp_backup r w) = []"
proof -
  obtain ok w1 where m: "env_malloc w = (ok, w1)" by (cases "env_malloc w")
  obtain x w2 where c: "oneospos_copy_rsp r w1 = (x, w2)" by (cases "oneospos_copy_rsp r w1")
  show "w_sent (oneospos_rsp_backup r w) = w_sent w" "w_handles (oneospos_rsp_backup r w) = w_handles w"
    "s_oneospos_curl_handle (w_oneosst (oneospos_rsp_backup r w)) = s_oneospos_curl_handle (w_oneosst w)"
    using same_more [OF malloc_more [OF m]] same_more [OF oneos_copy_rsp_more [OF c]]
    by (simp_all add: oneospos_rsp_backup_def m c, simp_all add: set_oneos_def)
  show "env_allocs (oneospos_rsp_backup r w) = []" if "env_allocs w = []"
    using that oneos_copy_rsp_plenty [OF that, of r]
    by (auto simp: oneospos_rsp_backup_def malloc_plenty)
qed

lemma oneos_finish:
  assumes "s_oneospos_curl_handle (w_oneosst v) = Some h" and "h \<in> w_handles v"
  obtains w' where "oneospos_http_release (oneospos_rsp_backup r v) = Some w'" and "rest_same v w'"
    and "w_sent w' = w_sent v" and "env_allocs v = [] \<Longrightarrow> env_allocs w' = []"
proof -
  have "oneospos_http_release (oneospos_rsp_backup r v)
    = Some (oneospos_rsp_backup r v\<lparr>w_handles := w_handles v - {h}\<rparr>)" (is "_ = Some ?w")
    using assms oneos_backup_rest(1-3) [of r v] by (simp add: oneospos_http_release_def curl_easy_cleanup_def)
  moreover have "rest_same v ?w" using oneos_backup_same [of v r] by (simp add: rest_same_def)
  moreover have "w_sent ?w = w_sent v" using oneos_backup_rest(1) [of r v] by simp
  moreover have "env_allocs ?w = []" if "env_allocs v = []" using oneos_backup_rest(4) [OF that] by simp
  ultimately show ?thesis using that by blast
qed

lemma zero_cells: "oneos_cells zero_oneospos_ueinfo = ''0,0,,,0''"
  by (simp add: oneos_cells_def zero_oneospos_ueinfo_def zero_cell_info_def text_of_def dec_int_def
      dec_nat.simps digit_char_def)

lemma zero_body_length: "length pid < 64 \<Longrightarrow> length (oneos_body pid zero_oneospos_ueinfo) < 1024"
  by (simp add: oneos_body_def zero_cells quoted_def) (simp add: zero_oneospos_ueinfo_def text_of_def)

lemma zero_oneos_ue_wf: "oneos_ue_wf zero_oneospos_ueinfo"
  by (simp add: oneos_ue_wf_def zero_oneospos_ueinfo_def zero_cell_info_def)

lemma new_ueinfo_plenty:
  "env_allocs w = [] \<Longrightarrow> new_ueinfo w
    = (Some (w_next w), w\<lparr>w_live := insert (w_next w) (w_live w), w_next := Suc (w_next w)\<rparr>)"
  by (simp add: new_ueinfo_def env_malloc_def malloc_ok_def)

text \<open>The OneOS session's turn, from the first request of the platform to the report.\<close>

lemma oneos_turn:
  assumes inv: "lbs_inv w" and env: "env_ok w" and "w_curl w = []" and st: "w_oneosst w = zero_oneospos_static"
    and a: "w_oneospos w = Some a" "op_cb_arg a = Some \<lparr>cb = Some ATCMD_CALLBACK, cb_arg = n\<rparr>"
      "c_str (op_pid a) = Some pid" "length pid < 64"
    and cfg: "platform_of (env_store w) = CM_LBS_PLAT_ONEOSPOS" "oneos_settings (env_store w) = (prec, conv)"
    and ind: "literal_writable ind" "response_text ind = Some answer" "oneos_answer (parse answer) la lon"
    and out: "(if conv = 1 then gcj la lon else (la, lon)) = (la1, lon1)" "length la1 < 24" "length lon1 < 24"
      "decimals (Some la1) prec = Some la2" "decimals (Some lon1) prec = Some lon2"
  shows "\<exists>w'. cm_lbs_asyn_location_oneospos (dispatch_cb gcj) (oneospos_locate gcj parse ind) w = Some w'
    \<and> w_urc w' = w_urc w @ [success_report lon2 la2] \<and> w_sent w' = w_sent w @ [ONEOSPOS_HTTP_HOST]
    \<and> w_amap w' = None \<and> w_oneospos w' = None \<and> s_oneospos_busy (w_oneosst w')
    \<and> lbs_inv w' \<and> env_allocs w' = [] \<and> w_task w' = w_task w"
proof -
  have al: "env_allocs w = []" using env by (simp add: env_ok_def)
  define i where "i = w_next w"
  define a1 where "a1 = a\<lparr>op_ueinfo := Some i\<rparr>"
  define w1 where "w1 = w\<lparr>w_live := insert i (w_live w), w_next := Suc i\<rparr>"
  define v0 where "v0 = w1\<lparr>w_oneospos := Some a1\<rparr>"
  have n: "new_ueinfo w = (Some i, w1)" unfolding i_def w1_def by (rule new_ueinfo_plenty [OF al])
  have s0: "env_allocs v0 = []" "w_curl v0 = []" "w_oneosst v0 = zero_oneospos_static" "env_fs v0 = env_fs w"
    "w_sent v0 = w_sent w" "w_urc v0 = w_urc w"
    using al assms(3) st by (simp_all add: v0_def w1_def)
  have inv0: "lbs_inv v0"
    using oneospos_session_takes [OF new_ueinfo_cases(1) [OF inv n], of i a1] new_ueinfo_cases(4) [OF inv n]
    by (simp add: v0_def a1_def)
  define r where "r = zero_oneospos_rsp\<lparr>op_event := CM_ONEOSPOS_EVENT_SUCCESS, op_latitude := Some la,
    op_longitude := Some lon\<rparr>"
  define cbf where "cbf = cm_lbs_oneospos_callback (dispatch_cb gcj)"
  have p1: "op_ueinfo a1 = Some i" "c_str (op_pid a1) = Some pid" "op_cb_arg a1 = op_cb_arg a"
    using a(3) by (simp_all add: a1_def)
  note parsed = oneos_answer_parsed [where parse = parse and answer = answer, OF ind(3), of _ zero_oneospos_rsp,
      folded r_def]
  note req = oneos_first_request [OF s0(3,1,2) p1(1,2) zero_oneos_ue_wf _ _ zero_body_length [OF a(4)]
      ind(1,2) parsed, of cbf, unfolded p1(3)]
  have "ou_nearbts zero_oneospos_ueinfo = None" "length (oneos_cells zero_oneospos_ueinfo) < 512"
    "r\<lparr>op_event := CM_ONEOSPOS_EVENT_SUCCESS\<rparr> = r"
    by (simp_all add: zero_cells r_def, simp add: zero_oneospos_ueinfo_def)
  then obtain v h where loc: "cm_oneospos_location parse ind cbf (Some zero_oneospos_ueinfo) a1 v0
      = map_option (Pair CM_LBS_OK) (do { v' \<leftarrow> cbf CM_ONEOSPOS_EVENT_SUCCESS (Some r) (op_cb_arg a) v;
          oneospos_http_release (oneospos_rsp_backup r v') })"
    and v: "w_sent v = w_sent w @ [ONEOSPOS_HTTP_HOST]" "service_grows v0 v"
      "s_oneospos_curl_handle (w_oneosst v) = Some h" "h \<in> w_handles v" "env_fs v = env_fs w" "env_allocs v = []"
    using req s0(4,5) by auto
  have iv: "lbs_inv v" by (rule service_grows_inv [OF v(2) inv0])
  have env_v: "env_ok v" "env_store v = env_store w"
    using env v(5,6) by (simp_all add: env_ok_def env_store_def)
  have urc: "cm_lbs_atcmd_location_urc_rsp gcj LBS_ATCMD_STATE_SUCCED
      (Some (zero_rsp\<lparr>l_latitude := Some la, l_longitude := Some lon\<rparr>)) v = Some (cm_lbs_urc_rsp (success_report lon2 la2) v)"
    using oneos_success_report [OF env_v(1), of prec conv _ la lon gcj la1 lon1 la2 lon2] env_v(2) cfg out ind(3)
    by (simp add: oneos_answer_def)
  define u where "u = v\<lparr>w_urc := w_urc v @ [success_report lon2 la2], w_amap := None, w_oneospos := None,
        w_live := w_live v - amap_uid v - oneospos_uid v\<rparr>"
  have cb: "cbf CM_ONEOSPOS_EVENT_SUCCESS (Some r) (op_cb_arg a) v = Some u"
    unfolding cbf_def u_def a(2) by (rule oneos_callback_success [OF iv v(6) _ _ urc]) (simp_all add: r_def)
  obtain w' where fin: "oneospos_http_release (oneospos_rsp_backup r u) = Some w'" "rest_same u w'"
    "w_sent w' = w_sent u" "env_allocs w' = []"
    using oneos_finish [of u h] v(3,4,6) by (auto simp: u_def)
  have iu: "lbs_inv u" using oneospos_callback_inv(1) [OF iv cb [unfolded cbf_def]] .
  have "w_task v0 = w_task w" by (simp add: v0_def w1_def)
  have l: "oneospos_locate gcj parse ind a1 v0 = Some (CM_LBS_OK, w')"
    using loc cb fin(1) by (simp add: oneospos_locate_def cbf_def a1_def)
  have "s_oneospos_busy (w_oneosst w')"
    using oneos_location_life [OF l [unfolded oneospos_locate_def] service_oneos_callback_keeps] s0(3)
    by (simp add: oneos_idle_def zero_oneospos_static_def)
  moreover have "cm_lbs_asyn_location_oneospos (dispatch_cb gcj) (oneospos_locate gcj parse ind) w = Some w'"
    using l a(1) by (simp add: cm_lbs_asyn_location_oneospos_def cm_oneospos_get_ueinfo_def n a1_def v0_def)
  ultimately show ?thesis using fin(2-4) v(1,2) s0(6) \<open>w_task v0 = w_task w\<close> rest_same_inv [OF fin(2) iu]
    by (auto simp: u_def rest_same_def service_grows_def)
qed

section \<open>A turn of the task for AMAP\<close>

text \<open>A complete answer of the first version.\<close>

definition amap_answer :: "cJSON option \<Rightarrow> string \<Rightarrow> string \<Rightarrow> bool" where
  "amap_answer j lon la \<longleftrightarrow> (\<exists>s. item_string (cJSON_GetObjectItem j ''status'') = Some s \<and> CHR ''1'' \<in> set s)
     \<and> item_string (cJSON_GetObjectItem (cJSON_GetObjectItem j ''result'') ''location'') = Some (lon @ CHR '','' # la)
     \<and> CHR '','' \<notin> set lon \<and> lon \<noteq> [] \<and> length lon < 256 \<and> la \<noteq> [] \<and> length la < 256
     \<and> (\<forall>name \<in> set v1_members. member_ok (cJSON_GetObjectItem (cJSON_GetObjectItem j ''result'') name))"

lemma amap_answer_parsed:
  assumes "amap_answer (parse answer) lon la" and "env_allocs v = []"
  shows "cm_lbs_amap_http_location_parse parse CM_LBS_PLAT_AMAP10 (Some zero_amap_rsp) answer v
    = Some (AMAP_LOCATION_SUCCEED, Some (v1_result lon la (cJSON_GetObjectItem (parse answer) ''result'')), v)"
proof -
  obtain s where s: "item_string (cJSON_GetObjectItem (parse answer) ''status'') = Some s" "CHR ''1'' \<in> set s"
    using assms(1) by (auto simp: amap_answer_def)
  obtain j where j: "parse answer = Some j"
    using s(1) by (cases "parse answer") (auto simp: item_string_def)
  have "amapv1_parse parse zero_amap_rsp answer v
    = Some (AMAP_LOCATION_SUCCEED, v1_result lon la (cJSON_GetObjectItem (Some j) ''result''), v)"
    by (rule v1_complete [where parse = parse and param = answer, OF assms(2) j s [unfolded j]]) (use assms(1) in \<open>simp_all add: amap_answer_def j\<close>)
  then show ?thesis by (simp add: cm_lbs_amap_http_location_parse_def j)
qed

lemma amap_callback_success:
  assumes "lbs_inv v" and "env_allocs v = []"
    and "loc = zero_rsp\<lparr>l_adcode := am_adcode r, l_city := am_city r, l_citycode := am_citycode r,
      l_country := am_country r, l_latitude := am_latitude r, l_location_describe := am_location_describe r,
      l_longitude := am_longitude r, l_poi := am_poi r, l_province := am_province r, l_radius := am_radius r,
      l_state := CM_LBS_LOCATION_OK\<rparr>"
    and "cm_lbs_atcmd_location_urc_rsp gcj LBS_ATCMD_STATE_SUCCED (Some loc) v = Some (cm_lbs_urc_rsp t v)"
  shows "cm_lbs_amap_callback (dispatch_cb gcj) AMAP_LOCATION_SUCCEED (Some r)
      (Some \<lparr>cb = Some ATCMD_CALLBACK, cb_arg = n\<rparr>) v
    = Some (v\<lparr>w_urc := w_urc v @ [t], w_amap := None, w_oneospos := None,
        w_live := w_live v - amap_uid v - oneospos_uid v\<rparr>)"
  using dispatch_success [OF assms(1,4), of n] assms(2)
  unfolding assms(3) by (simp add: cm_lbs_amap_callback_def malloc_plenty amap_ret_def)

lemma zero_ue:
  "ue_wf zero_amap_ueinfo" "ue_server_ip zero_amap_ueinfo = None" "ue_network_type zero_amap_ueinfo = None"
  by (simp_all add: ue_wf_def zero_amap_ueinfo_def zero_cell_info_def)

text \<open>The AMAP session's turn with the first version, from the first request of the platform to the
  report.\<close>

lemma amap_turn:
  assumes inv: "lbs_inv w" and env: "env_ok w" and "w_curl w = []" and st: "w_amapst w = zero_amap_static"
    and a: "w_amap w = Some a" "am_cb_arg a = Some \<lparr>cb = Some ATCMD_CALLBACK, cb_arg = n\<rparr>"
      "am_auth a = au" "au_platform au = CM_LBS_PLAT_AMAP10"
    and key: "au_apikey au = Some k" "c_str k = Some key" "key \<notin> set s_amap_key_filter"
      "au_digital_sign_key au = Some d" "c_str d = Some dkey" "request_fits zero_amap_ueinfo au key"
    and cfg: "platform_of (env_store w) = pf" "pf \<noteq> CM_LBS_PLAT_ONEOSPOS" "amap_settings pf (env_store w) = (prec, mode)"
    and md5: "\<And>x. length (md5 x) = 16"
    and ind: "length (amap_url md5 zero_amap_ueinfo au key) \<le> url_room ind" "response_text ind = Some answer"
      "amap_answer (parse answer) lon la"
    and res: "res = v1_result lon la (cJSON_GetObjectItem (parse answer) ''result'')"
      "am_radius res = Some radius" "NUL \<notin> set radius" "length radius < 256"
      "mode \<noteq> 0 \<Longrightarrow> am_location_describe res = Some descr \<and> NUL \<notin> set descr \<and> length descr < 256"
    and out: "decimals (Some la) prec = Some la'" "decimals (Some lon) prec = Some lon'"
  shows "\<exists>w'. cm_lbs_asyn_location_amap (dispatch_cb gcj) (amap_locate gcj parse md5 ind) w = Some w'
    \<and> w_urc w' = w_urc w @ [amap_report mode lon' la' radius descr]
    \<and> w_sent w' = w_sent w @ [butlast (amap_url md5 zero_amap_ueinfo au key)]
    \<and> w_amap w' = None \<and> w_oneospos w' = None \<and> s_amap_client (w_amapst w') \<noteq> None
    \<and> lbs_inv w' \<and> env_allocs w' = [] \<and> w_task w' = w_task w"
proof -
  have al: "env_allocs w = []" using env by (simp add: env_ok_def)
  define i where "i = w_next w"
  define a1 where "a1 = a\<lparr>am_ueinfo := Some i\<rparr>"
  define w1 where "w1 = w\<lparr>w_live := insert i (w_live w), w_next := Suc i\<rparr>"
  define v0 where "v0 = w1\<lparr>w_amap := Some a1\<rparr>"
  have n: "new_ueinfo w = (Some i, w1)" unfolding i_def w1_def by (rule new_ueinfo_plenty [OF al])
  have s0: "env_allocs v0 = []" "w_curl v0 = []" "w_amapst v0 = zero_amap_static" "env_fs v0 = env_fs w"
    "w_sent v0 = w_sent w" "w_urc v0 = w_urc w"
    using al assms(3) st by (simp_all add: v0_def w1_def)
  have inv0: "lbs_inv v0"
    using amap_session_takes [OF new_ueinfo_cases(1) [OF inv n], of i a1] new_ueinfo_cases(4) [OF inv n]
    by (simp add: v0_def a1_def)
  define cbf where "cbf = cm_lbs_amap_callback (dispatch_cb gcj)"
  define r where "r = res\<lparr>am_event := AMAP_LOCATION_SUCCEED\<rparr>"
  note parsed = amap_answer_parsed [where parse = parse and answer = answer, OF ind(3), folded res(1), folded a(4)]
  have p1: "am_auth a1 = au" "am_cb_arg a1 = am_cb_arg a" using a(3) by (simp_all add: a1_def)
  obtain v where loc: "cm_amap_location parse md5 ind cbf (Some zero_amap_ueinfo) a1 v0
      = map_option (Pair CM_LBS_OK) (cbf AMAP_LOCATION_SUCCEED (Some r) (am_cb_arg a) v)"
    and v: "w_sent v = w_sent w @ [butlast (amap_url md5 zero_amap_ueinfo au key)]" "service_same v0 v"
      "env_fs v = env_fs w" "env_allocs v = []"
    using first_request [where ?md5.0 = md5, OF s0(3,1,2) zero_ue key(6,1,2,4,5) p1(1) md5 ind(1,2) parsed, of cbf]
      s0(4,5) p1(2) unfolding r_def by auto
  have iv: "lbs_inv v" by (rule service_same_inv [OF v(2) inv0])
  have env_v: "env_ok v" "env_store v = env_store w"
    using env v(3,4) by (simp_all add: env_ok_def env_store_def)
  define l where "l = zero_rsp\<lparr>l_adcode := am_adcode r, l_city := am_city r, l_citycode := am_citycode r,
      l_country := am_country r, l_latitude := am_latitude r, l_location_describe := am_location_describe r,
      l_longitude := am_longitude r, l_poi := am_poi r, l_province := am_province r, l_radius := am_radius r,
      l_state := CM_LBS_LOCATION_OK\<rparr>"
  have pos: "am_latitude res = Some la" "am_longitude res = Some lon"
    by (simp_all add: res(1) v1_result_def Let_def)
  have lf: "l_latitude l = Some la" "l_longitude l = Some lon" "l_radius l = Some radius"
    "l_location_describe l = am_location_describe res"
    using pos res(2) by (simp_all add: l_def r_def)
  have urc: "cm_lbs_atcmd_location_urc_rsp gcj LBS_ATCMD_STATE_SUCCED (Some l) v
    = Some (cm_lbs_urc_rsp (amap_report mode lon' la' radius descr) v)"
    by (rule amap_success_report [OF env_v(1), where pf = pf and prec = prec])
       (use env_v(2) cfg out res(3-5) lf in simp_all)
  define u where "u = v\<lparr>w_urc := w_urc v @ [amap_report mode lon' la' radius descr], w_amap := None,
    w_oneospos := None, w_live := w_live v - amap_uid v - oneospos_uid v\<rparr>"
  have cb: "cbf AMAP_LOCATION_SUCCEED (Some r) (am_cb_arg a) v = Some u"
    unfolding cbf_def u_def a(2) by (rule amap_callback_success [OF iv v(4) l_def urc])
  have loc': "amap_locate gcj parse md5 ind a1 v0 = Some (CM_LBS_OK, u)"
    using loc cb by (simp add: amap_locate_def cbf_def a1_def)
  have "s_amap_client (w_amapst u) \<noteq> None"
    using location_client [OF loc' [unfolded amap_locate_def] service_callback_keeps] s0(3)
    by (simp add: amap_idle_def zero_amap_static_def)
  moreover have "cm_lbs_asyn_location_amap (dispatch_cb gcj) (amap_locate gcj parse md5 ind) w = Some u"
    using loc' a(1,3) key(1-3)
    by (simp add: cm_lbs_asyn_location_amap_def cm_amap_get_ueinfo_def n a1_def v0_def cm_amap_key_filter_def)
  moreover have "lbs_inv u" using amap_callback_inv(1) [OF iv cb [unfolded cbf_def]] .
  moreover have "w_task v0 = w_task w" by (simp add: v0_def w1_def)
  ultimately show ?thesis using v(1,2,4) s0(6)
    by (auto simp: u_def service_same_def)
qed

end
