(* ===== verification/LbsOnce.thy ===== *)
theory LbsOnce
  imports LbsPlatforms
begin

text \<open>
  One location per start: a request that succeeds leaves its platform occupied, nothing the service does
  ever frees it again, and the next turn for that platform is a fault. The static variables of the
  platforms are followed through every step of the service.
\<close>

section \<open>The service does not touch the platforms\<close>

definition statics :: "lbs_world \<Rightarrow> amap_static \<times> oneospos_static" where
  "statics w = (w_amapst w, w_oneosst w)"

lemma statics_simps [simp]:
  "statics (w\<lparr>w_amap := a\<rparr>) = statics w" "statics (w\<lparr>w_oneospos := b\<rparr>) = statics w"
  "statics (w\<lparr>w_mq := q\<rparr>) = statics w" "statics (w\<lparr>w_live := l\<rparr>) = statics w"
  "statics (w\<lparr>w_platform := p\<rparr>) = statics w" "statics (w\<lparr>w_pdptype := n\<rparr>) = statics w"
  "statics (w\<lparr>w_queun := u\<rparr>) = statics w" "statics (w\<lparr>w_task := t\<rparr>) = statics w"
  "statics (w\<lparr>w_threads := h\<rparr>) = statics w" "statics (w\<lparr>w_next := i\<rparr>) = statics w"
  "statics (w\<lparr>w_msggets := g\<rparr>) = statics w"
  by (simp_all add: statics_def)

lemma statics_more: "lbs_env.more w' = lbs_env.more w \<Longrightarrow> statics w' = statics w"
  using same_more(12,13) [of w' w] by (simp add: statics_def)

lemma statics_malloc: "env_malloc w = (ok, w') \<Longrightarrow> statics w' = statics w"
  by (rule statics_more [OF malloc_more])

lemma statics_free: "free_ueinfo u w = Some w' \<Longrightarrow> statics w' = statics w"
  by (auto simp: free_ueinfo_def split: option.splits if_splits)

lemma statics_attr_free:
  "cm_lbs_s_amap_attr_free w = Some w' \<Longrightarrow> statics w' = statics w"
  "cm_lbs_s_oneospos_attr_free w = Some w' \<Longrightarrow> statics w' = statics w"
  unfolding cm_lbs_s_amap_attr_free_def cm_lbs_s_oneospos_attr_free_def cm_amap_free_ueinfo_def
    cm_oneospos_free_ueinfo_def
  by (auto dest!: statics_free split: option.splits bind_splits)

lemma statics_send: "cm_lbs_QueueSend q ev w = (r, w') \<Longrightarrow> statics w' = statics w"
  unfolding cm_lbs_QueueSend_def by (auto split: option.splits if_splits)

lemma statics_queue: "cm_lbs_CreateQuen n w = (q, w') \<Longrightarrow> statics w' = statics w"
proof -
  assume c: "cm_lbs_CreateQuen n w = (q, w')"
  obtain ok w1 where m: "env_malloc w = (ok, w1)" by (cases "env_malloc w")
  show ?thesis using c statics_malloc [OF m]
    by (auto simp: cm_lbs_CreateQuen_def m Let_def split: if_splits prod.splits)
qed

lemma statics_create:
  assumes "cm_lbs_task_create w = (r, w')"
  shows "statics w' = statics w"
proof -
  obtain t l where n: "next_answer (w_threads w) = (t, l)" by (cases "next_answer (w_threads w)")
  define v where "v = w\<lparr>w_threads := l, w_task := t\<rparr>"
  obtain q u where c: "cm_lbs_CreateQuen sizeof_cm_lbs_msg_t v = (q, u)"
    by (cases "cm_lbs_CreateQuen sizeof_cm_lbs_msg_t v")
  have "w' = (if w_task w then w else if \<not> t then v else u\<lparr>w_queun := q\<rparr>)"
    using assms c by (auto simp: cm_lbs_task_create_def cm_lbs_CreateTask_def n v_def Let_def split: if_splits)
  then show ?thesis using statics_queue [OF c] by (simp add: v_def)
qed

lemma statics_init_platform:
  "cm_lbs_init_amap pf attr w = Some (r, w') \<Longrightarrow> statics w' = statics w"
  "cm_lbs_init_oneospos pf oattr w = Some (r, w') \<Longrightarrow> statics w' = statics w"
proof -
  assume i: "cm_lbs_init_amap pf attr w = Some (r, w')"
  show "statics w' = statics w"
  proof (cases "r = 0")
    case True
    then obtain v a where "w' = v\<lparr>w_amap := Some a\<rparr>" "lbs_env.more v = lbs_env.more w"
      using init_amap_result [OF i] by blast
    then show ?thesis using statics_more [of v w] by simp
  next
    case False
    then show ?thesis using init_amap_result [OF i] statics_more by blast
  qed
next
  assume i: "cm_lbs_init_oneospos pf oattr w = Some (r, w')"
  show "statics w' = statics w"
  proof (cases "r = 0")
    case True
    then obtain v a where "w' = v\<lparr>w_oneospos := Some a\<rparr>" "lbs_env.more v = lbs_env.more w"
      using init_oneospos_result [OF i] by blast
    then show ?thesis using statics_more [of v w] by simp
  next
    case False
    then show ?thesis using init_oneospos_result [OF i] statics_more by blast
  qed
qed

lemma statics_init:
  assumes "cm_lbs_init pf attr w = Some (r, w')"
  shows "statics w' = statics w"
proof -
  obtain ret w1 where c: "cm_lbs_task_create (w\<lparr>w_platform := pf\<rparr>) = (ret, w1)"
    by (cases "cm_lbs_task_create (w\<lparr>w_platform := pf\<rparr>)")
  have "statics w1 = statics w" using statics_create [OF c] by simp
  moreover have "w' = w1 \<or> (\<exists>atr. cm_lbs_init_amap pf atr w1 = Some (r, w'))
      \<or> (\<exists>atr. cm_lbs_init_oneospos pf atr w1 = Some (r, w'))"
    using assms by (auto simp: cm_lbs_init_def c split: if_splits option.splits lbs_attr.splits)
  then have "statics w' = statics w1" using statics_init_platform by blast
  ultimately show ?thesis by simp
qed

lemma statics_location: "cm_lbs_location f arg w = Some (r, w') \<Longrightarrow> statics w' = statics w"
  unfolding cm_lbs_location_def cm_lbs_location_amap_def cm_lbs_location_oneospos_def Let_def
  by (auto dest!: statics_attr_free statics_send split: option.splits if_splits prod.splits bind_splits)

lemma statics_deinit: "cm_lbs_deinit w = Some w' \<Longrightarrow> statics w' = statics w"
  using deinit_platforms [of w w'] by (simp add: statics_def)

lemma statics_dispatch: "dispatch_cb gcj f ev rsp arg w = Some w' \<Longrightarrow> statics w' = statics w"
  using dispatch_platforms [of gcj f ev rsp arg w w'] by (simp add: statics_def)

lemma statics_amap_callback:
  assumes "cm_lbs_amap_callback (dispatch_cb gcj) ev r m v = Some v'"
  shows "statics v' = statics v"
proof -
  obtain u f res arg where "lbs_env.more u = lbs_env.more v" "dispatch_cb gcj f (amap_ret ev) res arg u = Some v'"
    by (rule amap_callback_calls [OF assms])
  then show ?thesis using statics_dispatch statics_more by metis
qed

lemma statics_oneos_callback:
  assumes "cm_lbs_oneospos_callback (dispatch_cb gcj) ev r m v = Some v'"
  shows "statics v' = statics v"
proof -
  obtain x u where "lbs_env.more x = lbs_env.more v"
    and "u = x \<or> (\<exists>f ret res arg. dispatch_cb gcj f ret res arg x = Some u)"
    and "cm_lbs_s_oneospos_attr_free u = Some v'"
    by (rule oneospos_callback_calls [OF assms])
  then show ?thesis using statics_dispatch statics_more statics_attr_free(2) by metis
qed

lemma statics_new_ueinfo: "new_ueinfo w = (u, w') \<Longrightarrow> statics w' = statics w"
  unfolding new_ueinfo_def by (auto dest!: statics_malloc split: prod.splits if_splits)

section \<open>Occupied platforms stay occupied\<close>

definition amap_occupied :: "lbs_world \<Rightarrow> bool" where
  "amap_occupied w \<longleftrightarrow> s_amap_client (w_amapst w) \<noteq> None"

definition oneos_occupied :: "lbs_world \<Rightarrow> bool" where
  "oneos_occupied w \<longleftrightarrow> s_oneospos_busy (w_oneosst w)"

lemma occupied_statics:
  "statics w' = statics w \<Longrightarrow> amap_occupied w' = amap_occupied w"
  "statics w' = statics w \<Longrightarrow> oneos_occupied w' = oneos_occupied w"
  by (simp_all add: statics_def amap_occupied_def oneos_occupied_def)

definition persists :: "lbs_world \<Rightarrow> lbs_world \<Rightarrow> bool" where
  "persists w w' \<longleftrightarrow> (amap_occupied w \<longrightarrow> amap_occupied w') \<and> (oneos_occupied w \<longrightarrow> oneos_occupied w')"

lemma persists_refl [simp]: "persists w w"
  by (simp add: persists_def)

lemma persists_trans: "persists u v \<Longrightarrow> persists v w \<Longrightarrow> persists u w"
  by (auto simp: persists_def)

lemma persists_statics: "statics w' = statics w \<Longrightarrow> persists w w'"
  using occupied_statics [of w' w] by (simp add: persists_def)

text \<open>The platforms' own requests, as the task has them.\<close>

definition platform_locators :: "(string \<Rightarrow> string \<Rightarrow> string \<times> string) \<Rightarrow> (string \<Rightarrow> cJSON option)
    \<Rightarrow> (bytes \<Rightarrow> bytes) \<Rightarrow> indet \<Rightarrow> locators" where
  "platform_locators gcj parse md5 ind =
     \<lparr>locate_amap = amap_locate gcj parse md5 ind, locate_oneospos = oneospos_locate gcj parse ind\<rparr>"

lemma platform_locators_simps [simp]:
  "locate_amap (platform_locators gcj parse md5 ind) = amap_locate gcj parse md5 ind"
  "locate_oneospos (platform_locators gcj parse md5 ind) = oneospos_locate gcj parse ind"
  by (simp_all add: platform_locators_def)

lemma platform_locators_keep: "locators_keep (platform_locators gcj parse md5 ind)"
  by (simp add: locators_keep_def platform_locators_def amap_locate_keeps oneospos_locate_keeps)

lemma amap_locate_occupied:
  assumes "amap_locate gcj parse md5 ind a w = Some (ret, w')"
  shows "persists w w'"
proof -
  have 1: "amap_occupied w \<longrightarrow> amap_occupied w'"
    using assms location_busy unfolding amap_locate_def amap_occupied_def by fastforce
  have "calls_or_same (cm_lbs_amap_callback (dispatch_cb gcj)) w ret w'"
    using assms(1) location_calls unfolding amap_locate_def by blast
  then have "w_oneosst w' = w_oneosst w"
    using statics_amap_callback unfolding calls_or_same_def service_same_def statics_def by (metis prod.inject)
  then have "oneos_occupied w \<longrightarrow> oneos_occupied w'" by (simp add: oneos_occupied_def)
  with 1 show ?thesis by (simp add: persists_def)
qed

lemma oneos_locate_occupied:
  assumes "oneospos_locate gcj parse ind a w = Some (ret, w')"
  shows "persists w w'"
proof -
  have 1: "oneos_occupied w \<longrightarrow> oneos_occupied w'"
    using assms unfolding oneospos_locate_def oneos_occupied_def cm_oneospos_location_def
    by (auto split: option.splits)
  have "calls_or_grows (cm_lbs_oneospos_callback (dispatch_cb gcj)) w ret w'"
    using assms oneos_location_calls unfolding oneospos_locate_def by blast
  then have "w_amapst w' = w_amapst w"
    using statics_oneos_callback unfolding calls_or_grows_def service_grows_def rest_same_def statics_def
    by (metis prod.inject)
  then have "amap_occupied w \<longrightarrow> amap_occupied w'" by (simp add: amap_occupied_def)
  with 1 show ?thesis by (simp add: persists_def)
qed

lemmas persists_steps = persists_statics [OF statics_new_ueinfo] persists_statics [OF statics_amap_callback]
  persists_statics [OF statics_oneos_callback]
  persists_statics [OF statics_free [folded cm_amap_free_ueinfo_def]]
  persists_statics [OF statics_free [folded cm_oneospos_free_ueinfo_def]]

lemma asyn_amap_persists:
  assumes "cm_lbs_asyn_location_amap (dispatch_cb gcj) (amap_locate gcj parse md5 ind) w = Some w'"
  shows "persists w w'"
proof -
  obtain a where a: "w_amap w = Some a"
    using assms by (auto simp: cm_lbs_asyn_location_amap_def split: bind_splits)
  obtain u w1 where n: "new_ueinfo w = (u, w1)" by (cases "new_ueinfo w")
  note s1 = persists_steps(1) [OF n]
  have loc: "persists w1 x" if "amap_locate gcj parse md5 ind b (w1\<lparr>w_amap := c\<rparr>) = Some (r, x)" for b c r x
    using amap_locate_occupied [OF that] persists_trans persists_statics [of "w1\<lparr>w_amap := c\<rparr>" w1] by simp
  show ?thesis
    using assms s1 unfolding cm_lbs_asyn_location_amap_def a cm_amap_get_ueinfo_def n
    by (auto simp: Let_def persists_def dest!: loc persists_steps(2,4) split: if_splits bind_splits)
qed

lemma asyn_oneos_persists:
  assumes "cm_lbs_asyn_location_oneospos (dispatch_cb gcj) (oneospos_locate gcj parse ind) w = Some w'"
  shows "persists w w'"
proof -
  obtain a where a: "w_oneospos w = Some a"
    using assms by (auto simp: cm_lbs_asyn_location_oneospos_def split: bind_splits)
  obtain u w1 where n: "new_ueinfo w = (u, w1)" by (cases "new_ueinfo w")
  note s1 = persists_steps(1) [OF n]
  have loc: "persists w1 x" if "oneospos_locate gcj parse ind b (w1\<lparr>w_oneospos := c\<rparr>) = Some (r, x)" for b c r x
    using oneos_locate_occupied [OF that] persists_trans persists_statics [of "w1\<lparr>w_oneospos := c\<rparr>" w1] by simp
  show ?thesis
    using assms s1 unfolding cm_lbs_asyn_location_oneospos_def a cm_oneospos_get_ueinfo_def n
    by (auto simp: Let_def persists_def dest!: loc persists_steps(3,5) split: if_splits bind_splits)
qed

text \<open>Every step of the service keeps an occupied platform occupied.\<close>

lemma task_persists:
  assumes "cm_lbs_main_task (dispatch_cb gcj) (platform_locators gcj parse md5 ind) w = Some w'"
  shows "persists w w'"
proof -
  obtain r where r: "cm_lbs_QueueRev (w_queun w) w = Some r"
    using assms by (auto simp: cm_lbs_main_task_def split: bind_splits)
  show ?thesis
  proof (cases r)
    case None
    then show ?thesis using assms r by (simp add: cm_lbs_main_task_def)
  next
    case (Some x)
    obtain ret ev w1 where x: "x = (ret, ev, w1)" by (cases x)
    have "statics w1 = statics w"
      using r Some x by (auto simp: cm_lbs_QueueRev_def split: option.splits list.splits)
    note p1 = persists_statics [OF this]
    have "persists w1 v" if l: "cm_lbs_asyn_location (dispatch_cb gcj) (platform_locators gcj parse md5 ind) w1 = Some v" for v
    proof -
      obtain u where u: "(if w_platform w1 = CM_LBS_PLAT_AMAP10 \<or> w_platform w1 = CM_LBS_PLAT_AMAP20
          then cm_lbs_asyn_location_amap (dispatch_cb gcj) (amap_locate gcj parse md5 ind) w1 else Some w1) = Some u"
        and v: "(if w_platform u = CM_LBS_PLAT_ONEOSPOS
          then cm_lbs_asyn_location_oneospos (dispatch_cb gcj) (oneospos_locate gcj parse ind) u else Some u) = Some v"
        using l unfolding cm_lbs_asyn_location_def platform_locators_simps by (auto split: bind_splits)
      have "persists w1 u" using u asyn_amap_persists by (auto split: if_splits)
      moreover have "persists u v" using v asyn_oneos_persists by (auto split: if_splits)
      ultimately show ?thesis by (rule persists_trans)
    qed
    then show ?thesis using assms r Some x p1 persists_trans
      by (auto simp: cm_lbs_main_task_def split: if_splits)
  qed
qed

lemma step_persists:
  assumes "lbs_step gcj (platform_locators gcj parse md5 ind) w w'"
  shows "persists w w'"
  using assms
proof cases
  case step_network
  then show ?thesis by (simp add: persists_statics)
qed (use persists_statics statics_init statics_location statics_deinit task_persists in metis)+

lemma reaches_persists:
  assumes "lbs_reaches gcj (platform_locators gcj parse md5 ind) w w'"
  shows "persists w w'"
  using assms unfolding lbs_reaches_def
  by (induction rule: rtranclp_induct) (use step_persists persists_trans in \<open>simp, blast\<close>)

section \<open>A turn for an occupied platform\<close>

lemma amap_occupied_turn:
  assumes "lbs_inv w" and "amap_occupied w" and "w_amap w = Some a" and "au_apikey (am_auth a) = Some k"
    and "c_str k = Some key" "key \<notin> set s_amap_key_filter" and "fst (env_malloc w)"
  shows "cm_lbs_asyn_location_amap (dispatch_cb gcj) (amap_locate gcj parse md5 ind) w = None"
proof -
  obtain u w1 where n: "new_ueinfo w = (u, w1)" by (cases "new_ueinfo w")
  obtain i where i: "u = Some i" using n assms(7) by (auto simp: new_ueinfo_def split: prod.splits)
  note w1 = new_ueinfo_cases [OF assms(1) n]
  define a1 where "a1 = a\<lparr>am_ueinfo := Some i\<rparr>"
  define v where "v = w1\<lparr>w_amap := Some a1\<rparr>"
  have v: "lbs_inv v" "i \<in> amap_uid v"
    using amap_session_takes [OF w1(1), of i a1] w1(4) [OF i] by (simp_all add: v_def a1_def)
  have "statics v = statics w" using statics_new_ueinfo [OF n] by (simp add: v_def)
  then have "amap_occupied v" using occupied_statics(1) [of v w] assms(2) by simp
  then have "amap_locate gcj parse md5 ind a1 v = Some (CM_LBS_BUSY, v)"
    unfolding amap_locate_def amap_occupied_def by (rule location_busy)
  note l = this
  have "cm_lbs_asyn_location_amap (dispatch_cb gcj) (amap_locate gcj parse md5 ind) w = do {
      (ret, w2) \<leftarrow> amap_locate gcj parse md5 ind a1 v;
      (if ret \<noteq> CM_LBS_OK then do {
         s \<leftarrow> w_amap w2;
         w3 \<leftarrow> cm_lbs_amap_callback (dispatch_cb gcj) AMAP_LOCATION_UNKNOWN_ERR None (am_cb_arg s) w2;
         cm_amap_free_ueinfo (Some i) w3 }
       else Some w2) }"
    using assms(3-6) i
    by (simp add: cm_lbs_asyn_location_amap_def cm_amap_get_ueinfo_def n Let_def cm_amap_key_filter_def
        v_def a1_def cong: if_cong)
  also have "\<dots> = do {
         w3 \<leftarrow> cm_lbs_amap_callback (dispatch_cb gcj) AMAP_LOCATION_UNKNOWN_ERR None (am_cb_arg a1) v;
         cm_amap_free_ueinfo (Some i) w3 }"
    by (simp add: l) (simp add: v_def)
  also have "\<dots> = None" by (rule amap_double_free [OF v])
  finally show ?thesis .
qed

lemma oneos_occupied_turn:
  assumes "lbs_inv w" and "oneos_occupied w" and "w_oneospos w = Some a" and "fst (env_malloc w)"
  shows "cm_lbs_asyn_location_oneospos (dispatch_cb gcj) (oneospos_locate gcj parse ind) w = None"
proof -
  obtain u w1 where n: "new_ueinfo w = (u, w1)" by (cases "new_ueinfo w")
  obtain i where i: "u = Some i" using n assms(4) by (auto simp: new_ueinfo_def split: prod.splits)
  note w1 = new_ueinfo_cases [OF assms(1) n]
  define a1 where "a1 = a\<lparr>op_ueinfo := Some i\<rparr>"
  define v where "v = w1\<lparr>w_oneospos := Some a1\<rparr>"
  have v: "lbs_inv v" "i \<in> oneospos_uid v"
    using oneospos_session_takes [OF w1(1), of i a1] w1(4) [OF i] by (simp_all add: v_def a1_def)
  have "statics v = statics w" using statics_new_ueinfo [OF n] by (simp add: v_def)
  then have "oneos_occupied v" using occupied_statics(2) [of v w] assms(2) by simp
  then have "oneospos_locate gcj parse ind a1 v = Some (CM_LBS_BUSY, v)"
    unfolding oneospos_locate_def oneos_occupied_def a1_def by (simp add: oneos_location_busy)
  note l = this
  have "cm_lbs_asyn_location_oneospos (dispatch_cb gcj) (oneospos_locate gcj parse ind) w = do {
      (ret, w2) \<leftarrow> oneospos_locate gcj parse ind a1 v;
      (if ret \<noteq> CM_LBS_OK then do {
         s \<leftarrow> w_oneospos w2;
         w3 \<leftarrow> cm_lbs_oneospos_callback (dispatch_cb gcj) CM_ONEOSPOS_EVENT_UNKNOW None (op_cb_arg s) w2;
         cm_oneospos_free_ueinfo (Some i) w3 }
       else Some w2) }"
    using assms(3) i
    by (simp add: cm_lbs_asyn_location_oneospos_def cm_oneospos_get_ueinfo_def n Let_def
        v_def a1_def cong: if_cong)
  also have "\<dots> = do {
         w3 \<leftarrow> cm_lbs_oneospos_callback (dispatch_cb gcj) CM_ONEOSPOS_EVENT_UNKNOW None (op_cb_arg a1) v;
         cm_oneospos_free_ueinfo (Some i) w3 }"
    by (simp add: l) (simp add: v_def)
  also have "\<dots> = None" by (rule oneospos_double_free [OF v])
  finally show ?thesis .
qed

section \<open>The first turn occupies its platform\<close>

text \<open>A turn that returns was a request that succeeded: after a failed one the block of device information
  would have been freed twice.\<close>

lemma amap_turn_success:
  assumes "keeps_contract locate" and "lbs_inv w" and "w_amap w = Some a" and "au_apikey (am_auth a) = Some k"
    and "c_str k = Some key" "key \<notin> set s_amap_key_filter" and "fst (env_malloc w)"
    and "cm_lbs_asyn_location_amap (dispatch_cb gcj) locate w = Some w'"
  obtains a1 v where "locate a1 v = Some (CM_LBS_OK, w')" and "statics v = statics w"
proof -
  obtain u w1 where n: "new_ueinfo w = (u, w1)" by (cases "new_ueinfo w")
  obtain i where i: "u = Some i" using n assms(7) by (auto simp: new_ueinfo_def split: prod.splits)
  note w1 = new_ueinfo_cases [OF assms(2) n]
  define a1 where "a1 = a\<lparr>am_ueinfo := Some i\<rparr>"
  define v where "v = w1\<lparr>w_amap := Some a1\<rparr>"
  have v: "lbs_inv v" "i \<in> amap_uid v"
    using amap_session_takes [OF w1(1), of i a1] w1(4) [OF i] by (simp_all add: v_def a1_def)
  have st: "statics v = statics w" using statics_new_ueinfo [OF n] by (simp add: v_def)
  obtain ret w2 where l: "locate a1 v = Some (ret, w2)"
    and rest: "(if ret \<noteq> CM_LBS_OK then do {
         s \<leftarrow> w_amap w2;
         w3 \<leftarrow> cm_lbs_amap_callback (dispatch_cb gcj) AMAP_LOCATION_UNKNOWN_ERR None (am_cb_arg s) w2;
         cm_amap_free_ueinfo (Some i) w3 }
       else Some w2) = Some w'"
    using assms(3-6,8) i
    by (auto simp: cm_lbs_asyn_location_amap_def cm_amap_get_ueinfo_def n Let_def cm_amap_key_filter_def
        v_def a1_def split: bind_splits)
  note c = contract [OF assms(1) v(1) l]
  have "ret = CM_LBS_OK"
  proof (rule ccontr)
    assume r: "ret \<noteq> CM_LBS_OK"
    then have "i \<in> amap_uid w2" using c(2) v(2) by simp
    from amap_double_free [OF c(1) this] rest r show False by (auto split: bind_splits)
  qed
  then show ?thesis using that l rest st by simp
qed

lemma oneos_turn_success:
  assumes "keeps_contract locate" and "lbs_inv w" and "w_oneospos w = Some a" and "fst (env_malloc w)"
    and "cm_lbs_asyn_location_oneospos (dispatch_cb gcj) locate w = Some w'"
  obtains a1 v where "locate a1 v = Some (CM_LBS_OK, w')" and "statics v = statics w"
proof -
  obtain u w1 where n: "new_ueinfo w = (u, w1)" by (cases "new_ueinfo w")
  obtain i where i: "u = Some i" using n assms(4) by (auto simp: new_ueinfo_def split: prod.splits)
  note w1 = new_ueinfo_cases [OF assms(2) n]
  define a1 where "a1 = a\<lparr>op_ueinfo := Some i\<rparr>"
  define v where "v = w1\<lparr>w_oneospos := Some a1\<rparr>"
  have v: "lbs_inv v" "i \<in> oneospos_uid v"
    using oneospos_session_takes [OF w1(1), of i a1] w1(4) [OF i] by (simp_all add: v_def a1_def)
  have st: "statics v = statics w" using statics_new_ueinfo [OF n] by (simp add: v_def)
  obtain ret w2 where l: "locate a1 v = Some (ret, w2)"
    and rest: "(if ret \<noteq> CM_LBS_OK then do {
         s \<leftarrow> w_oneospos w2;
         w3 \<leftarrow> cm_lbs_oneospos_callback (dispatch_cb gcj) CM_ONEOSPOS_EVENT_UNKNOW None (op_cb_arg s) w2;
         cm_oneospos_free_ueinfo (Some i) w3 }
       else Some w2) = Some w'"
    using assms(3,5) i
    by (auto simp: cm_lbs_asyn_location_oneospos_def cm_oneospos_get_ueinfo_def n Let_def
        v_def a1_def split: bind_splits)
  note c = contract [OF assms(1) v(1) l]
  have "ret = CM_LBS_OK"
  proof (rule ccontr)
    assume r: "ret \<noteq> CM_LBS_OK"
    then have "i \<in> oneospos_uid w2" using c(3) v(2) by simp
    from oneospos_double_free [OF c(1) this] rest r show False by (auto split: bind_splits)
  qed
  then show ?thesis using that l rest st by simp
qed

lemma amap_turn_occupies:
  assumes "lbs_inv w" and "w_amap w = Some a" and "au_apikey (am_auth a) = Some k"
    and "c_str k = Some key" "key \<notin> set s_amap_key_filter" and "fst (env_malloc w)"
    and "amap_idle (w_amapst w)"
    and "cm_lbs_asyn_location_amap (dispatch_cb gcj) (amap_locate gcj parse md5 ind) w = Some w'"
  shows "amap_occupied w'"
proof -
  obtain a1 v where l: "amap_locate gcj parse md5 ind a1 v = Some (CM_LBS_OK, w')" and s: "statics v = statics w"
    by (rule amap_turn_success [OF amap_locate_keeps assms(1-6,8)])
  have "amap_idle (w_amapst v)" using s assms(7) by (simp add: statics_def)
  from location_client [OF l [unfolded amap_locate_def] service_callback_keeps this]
  show ?thesis by (simp add: amap_occupied_def)
qed

lemma oneos_turn_occupies:
  assumes "lbs_inv w" and "w_oneospos w = Some a" and "fst (env_malloc w)" and "oneos_idle (w_oneosst w)"
    and "cm_lbs_asyn_location_oneospos (dispatch_cb gcj) (oneospos_locate gcj parse ind) w = Some w'"
  shows "oneos_occupied w'"
proof -
  obtain a1 v where l: "oneospos_locate gcj parse ind a1 v = Some (CM_LBS_OK, w')" and s: "statics v = statics w"
    by (rule oneos_turn_success [OF oneospos_locate_keeps assms(1-3,5)])
  have "oneos_idle (w_oneosst v)" using s assms(4) by (simp add: statics_def)
  from oneos_location_life [OF l [unfolded oneospos_locate_def] service_oneos_callback_keeps this]
  show ?thesis by (simp add: oneos_occupied_def)
qed

end
