(* ===== verification/JsonString.thy ===== *)
theory JsonString
  imports Json LbsStore
begin

unbundle bit_operations_syntax

text \<open>
  The parse buffer of \<^verbatim>\<open>libjson/src/cJSON.c\<close> and the strings of JSON: white space, the mark of UTF-8,
  the escapes with their UTF-16 literals, and \<open>parse_string\<close> with the block it writes to. Every read
  goes through the memory behind the buffer's pointer and every write through the size of the block,
  so a read or a write outside is a fault.
\<close>

section \<open>The parse buffer\<close>

text \<open>\<open>pb_content\<close> is the memory from the pointer \<open>content\<close> on. Two fields stand for the heap:
  the answers to come of \<open>allocate\<close>, and the number of blocks that are allocated and not freed.
  The nesting depth is the recursion level of the parser of values.\<close>

record parse_buffer =
  pb_content :: bytes
  pb_length :: nat
  pb_offset :: nat
  pb_allocs :: allocs
  pb_live :: int

definition mem_at :: "bytes \<Rightarrow> nat \<Rightarrow> char option" where
  "mem_at mem i = (if i < length mem then Some (mem ! i) else None)"

definition buffer_at :: "parse_buffer \<Rightarrow> nat \<Rightarrow> char option" where
  "buffer_at b i = mem_at (pb_content b) (pb_offset b + i)"

definition buffer_can_read :: "parse_buffer \<Rightarrow> nat \<Rightarrow> bool" where
  "buffer_can_read b n \<longleftrightarrow> pb_offset b + n \<le> pb_length b"

definition can_access_at_index :: "parse_buffer \<Rightarrow> nat \<Rightarrow> bool" where
  "can_access_at_index b i \<longleftrightarrow> pb_offset b + i < pb_length b"

definition step_forward :: "parse_buffer \<Rightarrow> nat \<Rightarrow> parse_buffer" where
  "step_forward b n = b\<lparr>pb_offset := pb_offset b + n\<rparr>"

definition step_back :: "parse_buffer \<Rightarrow> parse_buffer" where
  "step_back b = b\<lparr>pb_offset := pb_offset b - 1\<rparr>"

text \<open>\<open>can_access_at_index(b, 0) && buffer_at_offset(b)[0] == c\<close>\<close>

definition looking_at :: "parse_buffer \<Rightarrow> char \<Rightarrow> bool option" where
  "looking_at b c =
     (if can_access_at_index b 0 then do { d \<leftarrow> buffer_at b 0; Some (d = c) } else Some False)"

text \<open>\<open>hooks.allocate\<close> and \<open>hooks.deallocate\<close>.\<close>

definition pb_allocate :: "parse_buffer \<Rightarrow> bool \<times> parse_buffer" where
  "pb_allocate b = (case malloc_ok (pb_allocs b) of (ok, al) \<Rightarrow>
     (ok, if ok then b\<lparr>pb_allocs := al, pb_live := pb_live b + 1\<rparr> else b\<lparr>pb_allocs := al\<rparr>))"

definition pb_deallocate :: "int \<Rightarrow> parse_buffer \<Rightarrow> parse_buffer" where
  "pb_deallocate n b = b\<lparr>pb_live := pb_live b - n\<rparr>"

section \<open>White space\<close>

function skip_loop :: "parse_buffer \<Rightarrow> parse_buffer option" where
  "skip_loop b =
     (if can_access_at_index b 0 then do {
        c \<leftarrow> buffer_at b 0;
        (if (of_char c :: nat) \<le> 32 then skip_loop (step_forward b 1) else Some b) }
      else Some b)"
  by pat_completeness auto
termination
  by (relation "measure (\<lambda>b. pb_length b - pb_offset b)") (auto simp: can_access_at_index_def step_forward_def)

declare skip_loop.simps [simp del]

definition buffer_skip_whitespace :: "parse_buffer \<Rightarrow> parse_buffer option" where
  "buffer_skip_whitespace b =
     (if \<not> can_access_at_index b 0 then Some b
      else do {
        b1 \<leftarrow> skip_loop b;
        Some (if pb_offset b1 = pb_length b1 then step_back b1 else b1) })"

text \<open>\<open>strncmp(buffer_at_offset(b), s, strlen(s)) == 0\<close> stops at the first difference.\<close>

fun mem_starts :: "bytes \<Rightarrow> nat \<Rightarrow> string \<Rightarrow> bool option" where
  "mem_starts mem i [] = Some True"
| "mem_starts mem i (c # cs) = do {
     d \<leftarrow> mem_at mem i;
     (if d = c then mem_starts mem (Suc i) cs else Some False) }"

definition buffer_starts :: "parse_buffer \<Rightarrow> string \<Rightarrow> bool option" where
  "buffer_starts b s = mem_starts (pb_content b) (pb_offset b) s"

definition skip_utf8_bom :: "parse_buffer \<Rightarrow> parse_buffer option" where
  "skip_utf8_bom b =
     (if can_access_at_index b 4 then do {
        bom \<leftarrow> buffer_starts b [CHR 0xEF, CHR 0xBB, CHR 0xBF];
        Some (if bom then step_forward b 3 else b) }
      else Some b)"

section \<open>UTF-16 literals\<close>

text \<open>One digit of \<open>parse_hex4\<close>; \<open>None\<close> is an invalid one.\<close>

definition hex_digit_value :: "char \<Rightarrow> u32 option" where
  "hex_digit_value c = (let n = (of_char c :: nat) in
     if 48 \<le> n \<and> n \<le> 57 then Some (of_nat (n - 48))
     else if 65 \<le> n \<and> n \<le> 70 then Some (of_nat (10 + n - 65))
     else if 97 \<le> n \<and> n \<le> 102 then Some (of_nat (10 + n - 97))
     else None)"

text \<open>The loop of \<open>parse_hex4\<close>; \<open>k\<close> digits are left. An invalid digit ends it with 0.\<close>

fun hex4_loop :: "bytes \<Rightarrow> nat \<Rightarrow> nat \<Rightarrow> u32 \<Rightarrow> u32 option" where
  "hex4_loop mem p 0 h = Some h"
| "hex4_loop mem p (Suc k) h = do {
     c \<leftarrow> mem_at mem p;
     (case hex_digit_value c of
        None \<Rightarrow> Some 0
      | Some d \<Rightarrow> hex4_loop mem (Suc p) k (if k > 0 then push_bit 4 (h + d) else h + d)) }"

definition parse_hex4 :: "bytes \<Rightarrow> nat \<Rightarrow> u32 option" where
  "parse_hex4 mem p = hex4_loop mem p 4 0"

text \<open>The loop over the continuation bytes, from the last to the second.\<close>

fun utf8_tail :: "nat \<Rightarrow> 64 word \<Rightarrow> bytes \<Rightarrow> 64 word \<times> bytes" where
  "utf8_tail 0 cp acc = (cp, acc)"
| "utf8_tail (Suc k) cp acc =
     utf8_tail k (drop_bit 6 cp) (char_of (unat ((cp OR 0x80) AND 0xBF)) # acc)"

definition utf8_encode :: "nat \<Rightarrow> 64 word \<Rightarrow> 64 word \<Rightarrow> bytes" where
  "utf8_encode utf8_length first_byte_mark codepoint =
     (case utf8_tail (utf8_length - 1) codepoint [] of (cp, rest) \<Rightarrow>
        (if utf8_length > 1 then char_of (unat ((cp OR first_byte_mark) AND 0xFF))
         else char_of (unat (cp AND 0x7F))) # rest)"

text \<open>The bytes of a code point; \<open>None\<close> is an invalid one.\<close>

definition codepoint_bytes :: "64 word \<Rightarrow> bytes option" where
  "codepoint_bytes cp =
     (if cp < 0x80 then Some (utf8_encode 1 0 cp)
      else if cp < 0x800 then Some (utf8_encode 2 0xC0 cp)
      else if cp < 0x10000 then Some (utf8_encode 3 0xE0 cp)
      else if cp \<le> 0x10FFFF then Some (utf8_encode 4 0xF0 cp)
      else None)"

text \<open>\<open>utf16_literal_to_utf8\<close> at the position \<open>p\<close> of a literal that ends at \<open>e\<close>: the length of the
  sequence, 0 when it is no good, and the bytes it stands for. \<open>None\<close> is a fault.\<close>

definition utf16_literal_to_utf8 :: "bytes \<Rightarrow> nat \<Rightarrow> nat \<Rightarrow> (nat \<times> bytes) option" where
  "utf16_literal_to_utf8 mem p e =
     (if int e - int p < 6 then Some (0, [])
      else do {
        first_code \<leftarrow> parse_hex4 mem (p + 2);
        (if 0xDC00 \<le> first_code \<and> first_code \<le> 0xDFFF then Some (0, [])
         else if 0xD800 \<le> first_code \<and> first_code \<le> 0xDBFF then
           (if int e - int (p + 6) < 6 then Some (0, [])
            else do {
              s0 \<leftarrow> mem_at mem (p + 6);
              (if s0 \<noteq> CHR 0x5C then Some (0, [])
               else do {
                 s1 \<leftarrow> mem_at mem (p + 7);
                 (if s1 \<noteq> CHR ''u'' then Some (0, [])
                  else do {
                    second_code \<leftarrow> parse_hex4 mem (p + 8);
                    (if second_code < 0xDC00 \<or> second_code > 0xDFFF then Some (0, [])
                     else (case codepoint_bytes (ucast (0x10000 + (push_bit 10 (first_code AND 0x3FF)
                                                                  OR (second_code AND 0x3FF)))) of
                             None \<Rightarrow> Some (0, [])
                           | Some v \<Rightarrow> Some (12, v))) }) }) })
         else (case codepoint_bytes (ucast first_code) of
                 None \<Rightarrow> Some (0, [])
               | Some v \<Rightarrow> Some (6, v))) })"

section \<open>Strings\<close>

text \<open>The first loop of \<open>parse_string\<close>: the position of the closing quote and the number of escapes.
  \<open>Some None\<close> is the jump to \<open>fail\<close>.\<close>

function string_end :: "parse_buffer \<Rightarrow> nat \<Rightarrow> nat \<Rightarrow> (nat \<times> nat) option option" where
  "string_end b k skipped =
     (if k < pb_length b then do {
        c \<leftarrow> mem_at (pb_content b) k;
        (if c = CHR 0x22 then Some (Some (k, skipped))
         else if c = CHR 0x5C then
           (if k + 1 \<ge> pb_length b then Some None else string_end b (k + 2) (skipped + 1))
         else string_end b (k + 1) skipped) }
      else Some None)"
  by pat_completeness auto
termination by (relation "measure (\<lambda>(b, k, _). pb_length b - k)") auto

declare string_end.simps [simp del]

text \<open>Writing \<open>v\<close> behind \<open>out\<close> into a block of \<open>cap\<close> bytes.\<close>

definition put_bytes :: "nat \<Rightarrow> bytes \<Rightarrow> bytes \<Rightarrow> bytes option" where
  "put_bytes cap out v = (if length out + length v \<le> cap then Some (out @ v) else None)"

text \<open>The escapes of one character.\<close>

definition short_escape :: "char \<Rightarrow> char option" where
  "short_escape c =
     (if c = CHR ''b'' then Some (CHR 0x08)
      else if c = CHR ''f'' then Some (CHR 0x0C)
      else if c = CHR ''n'' then Some (CHR 0x0A)
      else if c = CHR ''r'' then Some (CHR 0x0D)
      else if c = CHR ''t'' then Some (CHR 0x09)
      else if c = CHR 0x22 \<or> c = CHR 0x5C \<or> c = CHR ''/'' then Some c
      else None)"

text \<open>The second loop, from the position \<open>p\<close> to the closing quote at \<open>e\<close>: the position it stops at,
  and the output unless it jumps to \<open>fail\<close>.\<close>

function unescape :: "bytes \<Rightarrow> nat \<Rightarrow> nat \<Rightarrow> nat \<Rightarrow> bytes \<Rightarrow> (nat \<times> bytes option) option" where
  "unescape mem e cap p out =
     (if p < e then do {
        c \<leftarrow> mem_at mem p;
        (if c \<noteq> CHR 0x5C then do {
           out1 \<leftarrow> put_bytes cap out [c];
           unescape mem e cap (p + 1) out1 }
         else do {
           d \<leftarrow> mem_at mem (p + 1);
           (case short_escape d of
              Some v \<Rightarrow> do {
                out1 \<leftarrow> put_bytes cap out [v];
                unescape mem e cap (p + 2) out1 }
            | None \<Rightarrow>
                if d = CHR ''u'' then do {
                  (sequence_length, v) \<leftarrow> utf16_literal_to_utf8 mem p e;
                  (if sequence_length = 0 then Some (p, None)
                   else do {
                     out1 \<leftarrow> put_bytes cap out v;
                     unescape mem e cap (p + sequence_length) out1 }) }
                else Some (p, None)) }) }
      else Some (p, Some out))"
  by pat_completeness auto
termination by (relation "measure (\<lambda>(mem, e, cap, p, out). e - p)") auto

declare unescape.simps [simp del]

text \<open>A node with one field changed.\<close>

definition with_type :: "nat \<Rightarrow> cJSON \<Rightarrow> cJSON" where
  "with_type t n = cJSON_node (child n) t (valuestring n) (valueint n) (valuedouble n) (jstring n)"

definition with_valuestring :: "string option \<Rightarrow> cJSON \<Rightarrow> cJSON" where
  "with_valuestring s n = cJSON_node (child n) (jtype n) s (valueint n) (valuedouble n) (jstring n)"

definition with_string :: "string option \<Rightarrow> cJSON \<Rightarrow> cJSON" where
  "with_string s n = cJSON_node (child n) (jtype n) (valuestring n) (valueint n) (valuedouble n) s"

definition with_number :: "int \<Rightarrow> double \<Rightarrow> cJSON \<Rightarrow> cJSON" where
  "with_number i d n = cJSON_node (child n) (jtype n) (valuestring n) i d (jstring n)"

definition with_child :: "cJSON list \<Rightarrow> cJSON \<Rightarrow> cJSON" where
  "with_child c n = cJSON_node c (jtype n) (valuestring n) (valueint n) (valuedouble n) (jstring n)"

lemmas node_updates = with_type_def with_valuestring_def with_string_def with_number_def with_child_def

type_synonym value_parser = "cJSON \<Rightarrow> parse_buffer \<Rightarrow> (bool \<times> cJSON \<times> parse_buffer) option"

text \<open>\<open>parse_string\<close>. The value of the node is the C string at the start of the block: an escaped NUL
  ends it. On every failure the offset becomes the position of the input pointer.\<close>

definition parse_string :: value_parser where
  "parse_string item b = do {
     c \<leftarrow> buffer_at b 0;
     (if c \<noteq> CHR 0x22 then Some (False, item, step_forward b 1)
      else do {
        found \<leftarrow> string_end b (pb_offset b + 1) 0;
        (case found of
           None \<Rightarrow> Some (False, item, step_forward b 1)
         | Some (input_end, skipped_bytes) \<Rightarrow>
             (case pb_allocate b of (ok, b1) \<Rightarrow>
               if \<not> ok then Some (False, item, step_forward b1 1)
               else do {
                 let allocation_length = input_end - pb_offset b - skipped_bytes;
                 (p, output) \<leftarrow> unescape (pb_content b) input_end (allocation_length + 1) (pb_offset b + 1) [];
                 (case output of
                    None \<Rightarrow> Some (False, item, (pb_deallocate 1 b1)\<lparr>pb_offset := p\<rparr>)
                  | Some v \<Rightarrow> do {
                      block \<leftarrow> put_bytes (allocation_length + 1) v [NUL];
                      value \<leftarrow> c_str block;
                      Some (True, with_valuestring (Some value) (with_type cJSON_String item),
                        b1\<lparr>pb_offset := input_end + 1\<rparr>) }) })) }) }"

end
