(* ===== verification/JsonStringFacts.thy ===== *)
theory JsonStringFacts
  imports JsonString
begin

text \<open>
  What the string parser of cJSON may rely on: the buffer is only moved forward inside its length, and
  the block for a string is large enough for every text that the loops accept.
\<close>

section \<open>Moving through the buffer\<close>

definition pb_ok :: "parse_buffer \<Rightarrow> bool" where
  "pb_ok b \<longleftrightarrow> pb_length b \<le> length (pb_content b) \<and> pb_offset b \<le> pb_length b"

definition advances :: "parse_buffer \<Rightarrow> parse_buffer \<Rightarrow> bool" where
  "advances b b' \<longleftrightarrow> pb_content b' = pb_content b \<and> pb_length b' = pb_length b
     \<and> pb_offset b \<le> pb_offset b' \<and> pb_offset b' \<le> pb_length b"

lemma advances_ok: "pb_ok b \<Longrightarrow> advances b b' \<Longrightarrow> pb_ok b'"
  by (simp add: pb_ok_def advances_def)

lemma advances_trans: "advances a b \<Longrightarrow> advances b c \<Longrightarrow> advances a c"
  by (auto simp: advances_def)

lemma advances_refl: "pb_ok b \<Longrightarrow> advances b b"
  by (simp add: pb_ok_def advances_def)

lemma buffer_at_ok: "pb_ok b \<Longrightarrow> can_access_at_index b i \<Longrightarrow> \<exists>c. buffer_at b i = Some c"
  by (simp add: pb_ok_def can_access_at_index_def buffer_at_def mem_at_def)

lemma looking_at_ok: "pb_ok b \<Longrightarrow> looking_at b c = Some (can_access_at_index b 0 \<and> buffer_at b 0 = Some c)"
  using buffer_at_ok [of b 0] by (auto simp: looking_at_def)

lemma step_forward_simps [simp]:
  "pb_content (step_forward b n) = pb_content b" "pb_length (step_forward b n) = pb_length b"
  "pb_offset (step_forward b n) = pb_offset b + n" "pb_live (step_forward b n) = pb_live b"
  "pb_allocs (step_forward b n) = pb_allocs b"
  by (simp_all add: step_forward_def)

lemma step_back_simps [simp]:
  "pb_content (step_back b) = pb_content b" "pb_length (step_back b) = pb_length b"
  "pb_offset (step_back b) = pb_offset b - 1" "pb_live (step_back b) = pb_live b"
  by (simp_all add: step_back_def)

lemma skip_loop_ok:
  "pb_ok b \<Longrightarrow> \<exists>k. skip_loop b = Some (b\<lparr>pb_offset := k\<rparr>) \<and> pb_offset b \<le> k \<and> k \<le> pb_length b"
proof (induction b rule: skip_loop.induct)
  case (1 b)
  show ?case
  proof (cases "can_access_at_index b 0")
    case True
    then obtain c where c: "buffer_at b 0 = Some c" using buffer_at_ok [OF 1(2)] by blast
    show ?thesis
    proof (cases "(of_char c :: nat) \<le> 32")
      case le: True
      have ok: "pb_ok (step_forward b 1)" using 1(2) True by (simp add: pb_ok_def can_access_at_index_def)
      from 1(1) [OF True c le ok] obtain k where
        "skip_loop (step_forward b 1) = Some (b\<lparr>pb_offset := k\<rparr>)" "pb_offset b + 1 \<le> k" "k \<le> pb_length b"
        by (auto simp: step_forward_def)
      then show ?thesis using True c le by (subst skip_loop.simps) auto
    next
      case False
      then have "skip_loop b = Some (b\<lparr>pb_offset := pb_offset b\<rparr>)"
        using True c by (subst skip_loop.simps) simp
      then show ?thesis using 1(2) by (intro exI [of _ "pb_offset b"]) (simp add: pb_ok_def)
    qed
  next
    case False
    then have "skip_loop b = Some (b\<lparr>pb_offset := pb_offset b\<rparr>)" by (subst skip_loop.simps) simp
    then show ?thesis using 1(2) by (intro exI [of _ "pb_offset b"]) (simp add: pb_ok_def)
  qed
qed

lemma skip_whitespace_ok:
  assumes "pb_ok b"
  obtains k where "buffer_skip_whitespace b = Some (b\<lparr>pb_offset := k\<rparr>)" and "pb_offset b \<le> k" and "k \<le> pb_length b"
    and "pb_offset b < pb_length b \<longrightarrow> k < pb_length b"
proof (cases "pb_offset b < pb_length b")
  case True
  obtain k where "skip_loop b = Some (b\<lparr>pb_offset := k\<rparr>)" "pb_offset b \<le> k" "k \<le> pb_length b"
    using skip_loop_ok [OF assms] by blast
  then show ?thesis using True that [of k] that [of "k - 1"]
    by (cases "k = pb_length b") (auto simp: buffer_skip_whitespace_def can_access_at_index_def step_back_def)
next
  case False
  then show ?thesis using assms that [of "pb_offset b"]
    by (simp add: buffer_skip_whitespace_def can_access_at_index_def pb_ok_def)
qed

section \<open>How much a string can hold\<close>

text \<open>The backslashes the first loop counts, as flags for the positions of the literal. They are never
  neighbours, so half of the positions of any stretch at least are not counted.\<close>

fun escape_marks :: "string \<Rightarrow> bool list" where
  "escape_marks [] = []"
| "escape_marks [c] = [c = CHR 0x5C]"
| "escape_marks (c # d # r) =
     (if c = CHR 0x5C then True # False # escape_marks r else False # escape_marks (d # r))"

lemma length_escape_marks [simp]: "length (escape_marks s) = length s"
  by (induction s rule: escape_marks.induct) auto

lemma escape_marks_backslash: "i < length s \<Longrightarrow> escape_marks s ! i \<Longrightarrow> s ! i = CHR 0x5C"
proof (induction s arbitrary: i rule: escape_marks.induct)
  case (3 c d r)
  show ?case
  proof (cases "c = CHR 0x5C")
    case True
    then show ?thesis using 3 by (cases i; cases "i - 1") auto
  next
    case False
    then show ?thesis using 3(2) [of "i - 1"] 3(3,4) by (cases i) auto
  qed
qed auto

fun sparse :: "bool list \<Rightarrow> bool" where
  "sparse (a # b # r) = (\<not> (a \<and> b) \<and> sparse (b # r))"
| "sparse _ = True"

lemma sparse_Cons_False [simp]: "sparse (False # r) = sparse r"
  by (cases r) auto

lemma sparse_True: "sparse (True # r) = (sparse r \<and> (r = [] \<or> \<not> hd r))"
  by (cases r) auto

lemma sparse_escape_marks: "sparse (escape_marks s)"
  by (induction s rule: escape_marks.induct) (auto simp: sparse_True)

lemma sparse_drop: "sparse ms \<Longrightarrow> sparse (drop n ms)"
  by (induction ms arbitrary: n rule: sparse.induct) (auto simp: drop_Cons split: nat.splits)

text \<open>The room that is left: the positions that are not counted.\<close>

definition room :: "bool list \<Rightarrow> nat" where
  "room ms = length (filter Not ms)"

lemma room_simps [simp]: "room [] = 0" "room (m # ms) = (if m then room ms else Suc (room ms))"
  by (simp_all add: room_def)

lemma room_pairs: "sparse ms \<Longrightarrow> 2 * k \<le> length ms \<Longrightarrow> k + room (drop (2 * k) ms) \<le> room ms"
proof (induction k arbitrary: ms)
  case (Suc k)
  obtain a b r where ms: "ms = a # b # r" using Suc.prems(2) by (cases ms rule: sparse.cases) auto
  have "sparse r" using sparse_drop [OF Suc.prems(1), of 2] by (simp add: ms)
  from Suc.IH [OF this] Suc.prems show ?case by (auto simp: ms)
qed simp

lemma room_marks: "room (escape_marks s) + length (filter id (escape_marks s)) = length s"
  using sum_length_filter_compl [of id "escape_marks s"] by (simp add: room_def id_def comp_def)

section \<open>The closing quote\<close>

definition slice :: "bytes \<Rightarrow> nat \<Rightarrow> nat \<Rightarrow> string" where
  "slice mem k e = take (e - k) (drop k mem)"

lemma length_slice [simp]: "e \<le> length mem \<Longrightarrow> length (slice mem k e) = e - k"
  by (simp add: slice_def)

lemma slice_empty [simp]: "e \<le> k \<Longrightarrow> slice mem k e = []"
  by (simp add: slice_def)

lemma slice_Cons: "k < e \<Longrightarrow> e \<le> length mem \<Longrightarrow> slice mem k e = mem ! k # slice mem (Suc k) e"
  by (simp add: slice_def take_Cons' flip: Cons_nth_drop_Suc)

lemma slice_nth: "e \<le> length mem \<Longrightarrow> i < e - k \<Longrightarrow> slice mem k e ! i = mem ! (k + i)"
  by (simp add: slice_def)

lemma escape_marks_plain: "c \<noteq> CHR 0x5C \<Longrightarrow> escape_marks (c # s) = False # escape_marks s"
  by (cases s) auto

definition escapes_between :: "bytes \<Rightarrow> nat \<Rightarrow> nat \<Rightarrow> nat" where
  "escapes_between mem k e = length (filter id (escape_marks (slice mem k e)))"

lemma escapes_between_plain:
  "k + 1 \<le> e \<Longrightarrow> e \<le> length mem \<Longrightarrow> mem ! k \<noteq> CHR 0x5C \<Longrightarrow> escapes_between mem k e = escapes_between mem (k + 1) e"
  by (simp add: escapes_between_def slice_Cons escape_marks_plain)

lemma escapes_between_escape:
  "k + 2 \<le> e \<Longrightarrow> e \<le> length mem \<Longrightarrow> mem ! k = CHR 0x5C \<Longrightarrow>
    escapes_between mem k e = Suc (escapes_between mem (k + 2) e)"
  by (simp add: escapes_between_def slice_Cons)

text \<open>What the first loop finds.\<close>

definition quote_found :: "parse_buffer \<Rightarrow> nat \<Rightarrow> nat \<Rightarrow> (nat \<times> nat) option \<Rightarrow> bool" where
  "quote_found b k sk r \<longleftrightarrow> (case r of None \<Rightarrow> True | Some (e, s) \<Rightarrow>
     k \<le> e \<and> e < pb_length b \<and> pb_content b ! e = CHR 0x22 \<and> s = sk + escapes_between (pb_content b) k e)"

lemma quote_found_step:
  assumes "quote_found b (k + n) (sk + s) r"
    and "\<And>e. k + n \<le> e \<Longrightarrow> e < pb_length b \<Longrightarrow>
      escapes_between (pb_content b) k e = s + escapes_between (pb_content b) (k + n) e"
  shows "quote_found b k sk r"
  using assms by (auto simp: quote_found_def split: option.splits)

lemma string_end_ok:
  assumes "pb_length b \<le> length (pb_content b)"
  shows "\<exists>r. string_end b k sk = Some r \<and> quote_found b k sk r"
  using assms
proof (induction b k sk rule: string_end.induct)
  case (1 b k sk)
  note run = string_end.simps [of b k sk]
  show ?case
  proof (cases "k < pb_length b")
    case lt: True
    then have m: "mem_at (pb_content b) k = Some (pb_content b ! k)" using 1(3) by (simp add: mem_at_def)
    consider (quote) "pb_content b ! k = CHR 0x22" | (escape) "pb_content b ! k = CHR 0x5C"
      | (plain) "pb_content b ! k \<noteq> CHR 0x22" "pb_content b ! k \<noteq> CHR 0x5C" by blast
    then show ?thesis
    proof cases
      case quote
      then show ?thesis using run lt m by (simp add: quote_found_def escapes_between_def)
    next
      case escape
      show ?thesis
      proof (cases "k + 1 < pb_length b")
        case True
        then have eq: "string_end b k sk = string_end b (k + 2) (sk + 1)" using run lt m escape by simp
        have "\<not> k + 1 \<ge> pb_length b" using True by simp
        from 1(1) [OF lt m _ escape this 1(3)] escape obtain r where
          r: "string_end b (k + 2) (sk + 1) = Some r" "quote_found b (k + 2) (sk + 1) r" by auto
        have "quote_found b k sk r"
          by (rule quote_found_step [OF r(2)]) (use escapes_between_escape 1(3) escape in simp)
        then show ?thesis using eq r(1) by simp
      qed (use run lt m escape in \<open>simp add: quote_found_def\<close>)
    next
      case plain
      then have eq: "string_end b k sk = string_end b (k + 1) sk" using run lt m by simp
      from 1(2) [OF lt m plain 1(3)] obtain r where
        r: "string_end b (k + 1) sk = Some r" "quote_found b (k + 1) (sk + 0) r" by auto
      have "quote_found b k sk r"
        by (rule quote_found_step [OF r(2)]) (use escapes_between_plain 1(3) plain in simp)
      then show ?thesis using eq r(1) by simp
    qed
  qed (use run in \<open>simp add: quote_found_def\<close>)
qed

section \<open>The literals\<close>

lemma hex_digit_small: "hex_digit_value c = Some d \<Longrightarrow> unat d \<le> 15"
  by (auto simp: hex_digit_value_def Let_def unat_of_nat take_bit_nat_def simp del: of_nat_diff split: if_splits)

lemma hex4_loop_ok:
  assumes "p + k \<le> length mem" and "k \<le> 4" and "if k = 0 then unat h < 65536 else unat h + 15 < 16 ^ (5 - k)"
  shows "\<exists>r. hex4_loop mem p k h = Some r \<and> unat r < 65536"
  using assms
proof (induction k arbitrary: p h)
  case (Suc k)
  have m: "mem_at mem p = Some (mem ! p)" using Suc.prems(1) by (simp add: mem_at_def)
  show ?case
  proof (cases "hex_digit_value (mem ! p)")
    case None
    then show ?thesis using m by simp
  next
    case (Some d)
    have h: "unat h + 15 < 16 ^ (4 - k)" using Suc.prems(3) by simp
    have "(16 :: nat) ^ (4 - k) \<le> 16 ^ 4" by (rule power_increasing) simp_all
    then have big: "unat h + unat d < 65536" using h hex_digit_small [OF Some] by simp
    then have s: "unat (h + d) = unat h + unat d" by (simp add: unat_word_ariths)
    show ?thesis
    proof (cases "k = 0")
      case True
      then show ?thesis using m Some s big by simp
    next
      case False
      have "unat (push_bit 4 (h + d)) = 16 * (unat h + unat d)"
        using s big by (simp add: push_bit_eq_mult unat_word_ariths)
      moreover have "16 * (unat h + unat d) + 15 < 16 ^ (5 - k)"
      proof -
        have "unat h + unat d + 1 \<le> 16 ^ (4 - k)" using h hex_digit_small [OF Some] by simp
        then have "16 * (unat h + unat d + 1) \<le> 16 * 16 ^ (4 - k)" by simp
        also have "\<dots> = 16 ^ (5 - k)" using Suc.prems(2) by (simp add: Suc_diff_le flip: power_Suc)
        finally show ?thesis by simp
      qed
      ultimately show ?thesis using Suc.IH [of "Suc p" "push_bit 4 (h + d)"] Suc.prems(1,2) m Some False by simp
    qed
  qed
qed auto

lemma parse_hex4_ok: "p + 4 \<le> length mem \<Longrightarrow> \<exists>r. parse_hex4 mem p = Some r \<and> unat r < 65536"
  unfolding parse_hex4_def by (rule hex4_loop_ok) simp_all

lemma length_utf8_tail: "length (snd (utf8_tail k cp acc)) = k + length acc"
  by (induction k arbitrary: cp acc) auto

lemma length_utf8_encode: "length (utf8_encode (Suc k) m cp) = Suc k"
  using length_utf8_tail [of k cp "[]"] by (cases "utf8_tail k cp []") (simp add: utf8_encode_def)

lemma length_codepoint:
  assumes "codepoint_bytes cp = Some v"
  shows "length v \<le> 4" and "cp < 0x10000 \<Longrightarrow> length v \<le> 3"
  using assms length_utf8_encode [of 0 0 cp] length_utf8_encode [of 1 "0xC0" cp]
    length_utf8_encode [of 2 "0xE0" cp] length_utf8_encode [of 3 "0xF0" cp]
  by (auto simp: codepoint_bytes_def eval_nat_numeral split: if_splits)

lemma ucast_small: "unat (c :: u32) < 65536 \<Longrightarrow> (ucast c :: 64 word) < 0x10000"
  by (simp add: word_less_nat_alt unsigned_ucast_eq take_bit_nat_eq_self)

lemma literal_ok:
  assumes "p < e" and "e < length mem"
  shows "\<exists>n v. utf16_literal_to_utf8 mem p e = Some (n, v)
    \<and> (n = 0 \<or> n = 6 \<and> p + 6 \<le> e \<and> length v \<le> 3 \<or> n = 12 \<and> p + 12 \<le> e \<and> length v \<le> 4)"
proof (cases "p + 6 \<le> e")
  case True
  then obtain c where c: "parse_hex4 mem (p + 2) = Some c" "unat c < 65536"
    using parse_hex4_ok [of "p + 2" mem] assms by auto
  show ?thesis
  proof (cases "0xD800 \<le> c \<and> c \<le> 0xDBFF \<and> p + 12 \<le> e")
    case pair: True
    then obtain d where d: "parse_hex4 mem (p + 8) = Some d"
      using parse_hex4_ok [of "p + 8" mem] assms by auto
    have "mem_at mem (p + 6) = Some (mem ! (p + 6))" "mem_at mem (p + 7) = Some (mem ! (p + 7))"
      using pair assms by (simp_all add: mem_at_def)
    then show ?thesis using True pair c(1) d
      by (auto simp: utf16_literal_to_utf8_def dest: length_codepoint(1) split: option.split)
  next
    case False
    then show ?thesis using True c(1) length_codepoint(2) [OF _ ucast_small [OF c(2)]]
      by (auto simp: utf16_literal_to_utf8_def split: option.split)
  qed
next
  case False
  then show ?thesis by (simp add: utf16_literal_to_utf8_def)
qed

section \<open>The block of a string\<close>

text \<open>The room the rest of a literal needs at the position \<open>p\<close>.\<close>

definition room_from :: "bytes \<Rightarrow> nat \<Rightarrow> nat \<Rightarrow> nat \<Rightarrow> nat" where
  "room_from mem k e p = room (drop (p - k) (escape_marks (slice mem k e)))"

lemma room_from_steps:
  assumes "k \<le> p" and "e < length mem"
  shows "p < e \<Longrightarrow> mem ! p \<noteq> CHR 0x5C \<Longrightarrow> Suc (room_from mem k e (p + 1)) = room_from mem k e p"
    and "p + 2 * n \<le> e \<Longrightarrow> n + room_from mem k e (p + 2 * n) \<le> room_from mem k e p"
proof -
  let ?ms = "escape_marks (slice mem k e)"
  have l: "length ?ms = e - k" using assms(2) by simp
  show "Suc (room_from mem k e (p + 1)) = room_from mem k e p" if a: "p < e" "mem ! p \<noteq> CHR 0x5C"
  proof -
    have i: "p - k < length ?ms" using a assms(1) l by simp
    have "slice mem k e ! (p - k) = mem ! p" using a assms by (simp add: slice_nth)
    then have "\<not> ?ms ! (p - k)" using escape_marks_backslash [of "p - k" "slice mem k e"] a i by auto
    then have "drop (p - k) ?ms = False # drop (Suc (p - k)) ?ms" using Cons_nth_drop_Suc [OF i] by simp
    then show ?thesis using assms(1) by (simp add: room_from_def Suc_diff_le)
  qed
  show "n + room_from mem k e (p + 2 * n) \<le> room_from mem k e p" if a: "p + 2 * n \<le> e"
  proof -
    have d: "p + 2 * n - k = p - k + 2 * n" using assms(1) by simp
    have "sparse (drop (p - k) ?ms)" by (rule sparse_drop [OF sparse_escape_marks])
    moreover have "2 * n \<le> length (drop (p - k) ?ms)" using a l assms(1) by simp
    ultimately show ?thesis using room_pairs [of "drop (p - k) ?ms" n] d
      by (simp add: room_from_def add.commute)
  qed
qed

text \<open>The output so far fits, with one byte to spare until the last position.\<close>

definition fits_block :: "bytes \<Rightarrow> nat \<Rightarrow> nat \<Rightarrow> nat \<Rightarrow> nat \<Rightarrow> bytes \<Rightarrow> bool" where
  "fits_block mem k e A p out \<longleftrightarrow> k \<le> p \<and>
     (if p \<le> e then length out + room_from mem k e p < A else p = e + 1 \<and> length out \<le> A)"

lemma fits_block_length: "fits_block mem k e A p out \<Longrightarrow> length out \<le> A"
  by (auto simp: fits_block_def split: if_splits)

lemma fits_block_window:
  assumes "fits_block mem k e A p out" and "e < length mem" and "p + 2 * n \<le> e" and "length v \<le> n"
  shows "fits_block mem k e A (p + 2 * n) (out @ v)" and "put_bytes (A + 1) out v = Some (out @ v)"
  using assms room_from_steps(2) [of k p e mem n] by (auto simp: fits_block_def put_bytes_def)

text \<open>The second loop never writes past the block and never reads past the closing quote.\<close>

lemma unescape_ok:
  assumes "e < length mem" and "mem ! e = CHR 0x22" and "fits_block mem k e A p out"
  shows "\<exists>p' r. unescape mem e (A + 1) p out = Some (p', r) \<and> p \<le> p' \<and> p' \<le> e + 1
    \<and> (r = None \<longrightarrow> p' \<le> e) \<and> (\<forall>v. r = Some v \<longrightarrow> length v \<le> A)"
  using assms(3)
proof (induction "e + 1 - p" arbitrary: p out rule: less_induct)
  case less
  note fit = less(2)
  have kp: "k \<le> p" using fit by (simp add: fits_block_def)
  note run = unescape.simps [of mem e "A + 1" p out]
  show ?case
  proof (cases "p < e")
    case False
    then show ?thesis using run fits_block_length [OF fit] fit
      by (auto simp: fits_block_def split: if_splits)
  next
    case lt: True
    have next_ok: "\<exists>p' r. unescape mem e (A + 1) p out = Some (p', r) \<and> p \<le> p' \<and> p' \<le> e + 1
        \<and> (r = None \<longrightarrow> p' \<le> e) \<and> (\<forall>v. r = Some v \<longrightarrow> length v \<le> A)"
      if "unescape mem e (A + 1) p out = unescape mem e (A + 1) (p + n) (out @ v)" "0 < n"
        "fits_block mem k e A (p + n) (out @ v)" for n v
      using less(1) [OF _ that(3)] that(1,2) lt by fastforce
    have m: "mem_at mem p = Some (mem ! p)" "mem_at mem (Suc p) = Some (mem ! Suc p)"
      using lt assms(1) by (simp_all add: mem_at_def)
    show ?thesis
    proof (cases "mem ! p = CHR 0x5C")
      case False
      have "fits_block mem k e A (p + 1) (out @ [mem ! p])" "put_bytes (A + 1) out [mem ! p] = Some (out @ [mem ! p])"
        using fit room_from_steps(1) [OF kp assms(1) lt False] lt by (auto simp: fits_block_def put_bytes_def)
      then show ?thesis using next_ok [of 1 "[mem ! p]"] run lt m(1) False by simp
    next
      case esc: True
      show ?thesis
      proof (cases "short_escape (mem ! Suc p)")
        case (Some c)
        have w: "fits_block mem k e A (p + 2) (out @ [c])" "put_bytes (A + 1) out [c] = Some (out @ [c])"
        proof (atomize(full), cases "p + 2 \<le> e")
          case True
          then show "fits_block mem k e A (p + 2) (out @ [c]) \<and> put_bytes (A + 1) out [c] = Some (out @ [c])"
            using fits_block_window [OF fit assms(1), of 1 "[c]"] by simp
        next
          case False
          then have "p + 2 = e + 1" using lt by simp
          then show "fits_block mem k e A (p + 2) (out @ [c]) \<and> put_bytes (A + 1) out [c] = Some (out @ [c])"
            using fit lt by (auto simp: fits_block_def put_bytes_def)
        qed
        have "unescape mem e (A + 1) p out = unescape mem e (A + 1) (p + 2) (out @ [c])"
          using run lt m esc Some w(2) by simp
        from next_ok [OF this _ w(1)] show ?thesis by simp
      next
        case None
        show ?thesis
        proof (cases "mem ! Suc p = CHR ''u''")
          case False
          then show ?thesis using run lt m esc None by simp
        next
          case u: True
          obtain n v where l: "utf16_literal_to_utf8 mem p e = Some (n, v)"
            and n: "n = 0 \<or> n = 6 \<and> p + 6 \<le> e \<and> length v \<le> 3 \<or> n = 12 \<and> p + 12 \<le> e \<and> length v \<le> 4"
            using literal_ok [OF lt assms(1)] by blast
          show ?thesis
          proof (cases "n = 0")
            case True
            then show ?thesis using run lt m esc None u l by simp
          next
            case False
            then have w: "fits_block mem k e A (p + n) (out @ v)" "put_bytes (A + 1) out v = Some (out @ v)"
              using n fits_block_window [OF fit assms(1), of 3 v] fits_block_window [OF fit assms(1), of 6 v] by auto
            have "unescape mem e (A + 1) p out = unescape mem e (A + 1) (p + n) (out @ v)"
              using run lt m esc None u l w(2) False by simp
            from next_ok [OF this _ w(1)] False show ?thesis by simp
          qed
        qed
      qed
    qed
  qed
qed

end
