(* ===== verification/JsonParse.thy ===== *)
theory JsonParse
  imports JsonString "HOL-Library.Log_Nat"
begin

text \<open>
  The parser of \<^verbatim>\<open>libjson/src/cJSON.c\<close>: numbers with \<open>strtod\<close>, the values, the loops over the elements
  of an array and the members of an object, and the entry points. The recursion of the values follows
  the nesting that is still allowed, so no fuel is needed; the two loops are partial functions.
\<close>

section \<open>Numbers\<close>

text \<open>Rounding to a double of 64 bits, to the nearest and on a tie to the even one; a negative zero is
  not told from zero.\<close>

definition log2_floor :: "rat \<Rightarrow> int" where
  "log2_floor q = (let (n, d) = quotient_of q; e = int (nat (bitlen n)) - int (nat (bitlen d))
     in if q \<ge> 2 powi e then e else e - 1)"

definition round_half_even :: "rat \<Rightarrow> int" where
  "round_half_even q = (let f = \<lfloor>q\<rfloor>; r = q - of_int f in
     if r < 1 / 2 then f else if r > 1 / 2 then f + 1 else if even f then f else f + 1)"

definition round_double :: "rat \<Rightarrow> double" where
  "round_double q =
     (if q = 0 then Fin 0
      else let a = \<bar>q\<bar>; u = max (log2_floor a - 52) (- 1074);
               v = of_int (round_half_even (a / 2 powi u)) * 2 powi u
           in if v \<ge> 2 powi 1024 then (if q < 0 then NInf else PInf)
              else Fin (if q < 0 then - v else v))"

definition is_digit_char :: "char \<Rightarrow> bool" where
  "is_digit_char c \<longleftrightarrow> 48 \<le> (of_char c :: nat) \<and> (of_char c :: nat) \<le> 57"

definition digits_value :: "string \<Rightarrow> int" where
  "digits_value ds = foldl (\<lambda>v c. 10 * v + (of_char c - 48)) 0 ds"

definition take_sign :: "string \<Rightarrow> bool \<times> string" where
  "take_sign s = (case s of c # r \<Rightarrow>
       if c = CHR ''-'' then (True, r) else if c = CHR ''+'' then (False, r) else (False, s)
     | [] \<Rightarrow> (False, s))"

text \<open>The exponent of a number and the length of its text, which is 0 when there is none.\<close>

definition take_exponent :: "string \<Rightarrow> int \<times> nat" where
  "take_exponent s = (case s of c # r \<Rightarrow>
       if c = CHR ''e'' \<or> c = CHR ''E'' then
         (case take_sign r of (neg, ds0) \<Rightarrow>
            let ds = takeWhile is_digit_char ds0; v = digits_value ds
            in if ds = [] then (0, 0)
               else (if neg then - v else v, 1 + (length r - length ds0) + length ds))
       else (0, 0)
     | [] \<Rightarrow> (0, 0))"

text \<open>\<open>strtod\<close> of the standard library on texts of digits, signs, points and \<open>e\<close>: the value and the number
  of characters it used, which is 0 when there is no number.\<close>

definition strtod :: "string \<Rightarrow> double \<times> nat" where
  "strtod s = (case take_sign s of (neg, s1) \<Rightarrow>
     let ints = takeWhile is_digit_char s1; s2 = drop (length ints) s1;
         (frac, s3) = (case s2 of c # r \<Rightarrow>
             if c = CHR ''.'' then (takeWhile is_digit_char r, drop (length (takeWhile is_digit_char r)) r)
             else ([], s2) | [] \<Rightarrow> ([], s2))
     in if ints = [] \<and> frac = [] then (Fin 0, 0)
        else (case take_exponent s3 of (ex, n) \<Rightarrow>
          let q = of_int (digits_value (ints @ frac)) * 10 powi (ex - int (length frac))
          in (round_double (if neg then - q else q), length s - length s3 + n)))"

definition INT_MAX :: int where "INT_MAX = 2147483647"
definition INT_MIN :: int where "INT_MIN = - 2147483648"

text \<open>The saturating conversion; a NaN, which \<open>strtod\<close> does not deliver here, has no integer.\<close>

definition saturate_int :: "double \<Rightarrow> int option" where
  "saturate_int d = (case d of PInf \<Rightarrow> Some INT_MAX | NInf \<Rightarrow> Some INT_MIN | NaN \<Rightarrow> None
     | Fin q \<Rightarrow> Some (if q \<ge> of_int INT_MAX then INT_MAX
                      else if q \<le> of_int INT_MIN then INT_MIN
                      else if q \<ge> 0 then \<lfloor>q\<rfloor> else \<lceil>q\<rceil>))"

definition number_char :: "char \<Rightarrow> bool" where
  "number_char c \<longleftrightarrow> is_digit_char c \<or> c \<in> set ''+-eE.''"

text \<open>The loop of \<open>parse_number\<close> into its array of 64 bytes; \<open>k\<close> bytes are left.\<close>

fun number_text :: "nat \<Rightarrow> parse_buffer \<Rightarrow> nat \<Rightarrow> string option" where
  "number_text 0 b i = Some []"
| "number_text (Suc k) b i =
     (if can_access_at_index b i then do {
        c \<leftarrow> buffer_at b i;
        (if number_char c then do { r \<leftarrow> number_text k b (Suc i); Some (c # r) } else Some []) }
      else Some [])"

definition parse_number :: value_parser where
  "parse_number item b = do {
     number_c_string \<leftarrow> number_text 63 b 0;
     (case strtod number_c_string of (number, used) \<Rightarrow>
        if used = 0 then Some (False, item, b)
        else do {
          i \<leftarrow> saturate_int number;
          Some (True, with_type cJSON_Number (with_number i number item), step_forward b used) }) }"

section \<open>Nodes\<close>

definition zero_node :: cJSON where
  "zero_node = cJSON_node [] 0 None 0 (Fin 0) None"

definition cJSON_New_Item :: "parse_buffer \<Rightarrow> cJSON option \<times> parse_buffer" where
  "cJSON_New_Item b = (case pb_allocate b of (ok, b1) \<Rightarrow> (if ok then Some zero_node else None, b1))"

text \<open>The blocks \<open>cJSON_Delete\<close> frees for a node: the node, its children and its strings, as far as the
  flags for a reference and for a constant name say that they are its own.\<close>

definition cJSON_IsReference :: nat where "cJSON_IsReference = 256"
definition cJSON_StringIsConst :: nat where "cJSON_StringIsConst = 512"

fun node_blocks :: "cJSON \<Rightarrow> nat" where
  "node_blocks (cJSON_node c t v i d s) = 1
     + (if odd (t div cJSON_IsReference) then 0
        else sum_list (map node_blocks c) + (if v = None then 0 else 1))
     + (if odd (t div cJSON_StringIsConst) \<or> s = None then 0 else 1)"

text \<open>\<open>cJSON_Delete\<close> of the first of a list of siblings.\<close>

definition cJSON_Delete :: "cJSON list \<Rightarrow> parse_buffer \<Rightarrow> parse_buffer" where
  "cJSON_Delete items b = pb_deallocate (int (sum_list (map node_blocks items))) b"

section \<open>Arrays and objects\<close>

text \<open>The loop over the elements of an array, with the elements so far. It ends with the last node added
  when an element is no value.\<close>

partial_function (option) array_elements ::
  "value_parser \<Rightarrow> cJSON list \<Rightarrow> parse_buffer \<Rightarrow> (bool \<times> cJSON list \<times> parse_buffer) option" where
  "array_elements pv items b =
     (case cJSON_New_Item b of
        (None, b1) \<Rightarrow> Some (False, items, b1)
      | (Some new_item, b1) \<Rightarrow> do {
          b2 \<leftarrow> buffer_skip_whitespace (step_forward b1 1);
          (ok, current_item, b3) \<leftarrow> pv new_item b2;
          (if \<not> ok then Some (False, items @ [current_item], b3)
           else do {
             b4 \<leftarrow> buffer_skip_whitespace b3;
             more \<leftarrow> looking_at b4 (CHR '','');
             (if more then array_elements pv (items @ [current_item]) b4
              else Some (True, items @ [current_item], b4)) }) })"

text \<open>The end of both: the closing bracket.\<close>

definition close_list :: "char \<Rightarrow> nat \<Rightarrow> cJSON \<Rightarrow> bool \<times> cJSON list \<times> parse_buffer
    \<Rightarrow> (bool \<times> cJSON \<times> parse_buffer) option" where
  "close_list bracket t item r = (case r of (ok, items, b) \<Rightarrow>
     if \<not> ok then Some (False, item, cJSON_Delete items b)
     else do {
       closed \<leftarrow> looking_at b bracket;
       (if \<not> closed then Some (False, item, cJSON_Delete items b)
        else Some (True, with_child items (with_type t item), step_forward b 1)) })"

text \<open>\<open>parse_array\<close>, with the parser of its elements; there is none at the nesting limit.\<close>

definition parse_array :: "value_parser option \<Rightarrow> value_parser" where
  "parse_array deeper item b =
     (case deeper of
        None \<Rightarrow> Some (False, item, b)
      | Some pv \<Rightarrow> do {
          c \<leftarrow> buffer_at b 0;
          (if c \<noteq> CHR ''['' then Some (False, item, b)
           else do {
             b1 \<leftarrow> buffer_skip_whitespace (step_forward b 1);
             empty \<leftarrow> looking_at b1 (CHR '']'');
             (if empty then Some (True, with_child [] (with_type cJSON_Array item), step_forward b1 1)
              else if \<not> can_access_at_index b1 0 then Some (False, item, step_back b1)
              else do {
                r \<leftarrow> array_elements pv [] (step_back b1);
                close_list (CHR '']'') cJSON_Array item r }) }) })"

text \<open>The loop over the members of an object.\<close>

partial_function (option) object_members ::
  "value_parser \<Rightarrow> cJSON list \<Rightarrow> parse_buffer \<Rightarrow> (bool \<times> cJSON list \<times> parse_buffer) option" where
  "object_members pv items b =
     (case cJSON_New_Item b of
        (None, b1) \<Rightarrow> Some (False, items, b1)
      | (Some new_item, b1) \<Rightarrow>
          if \<not> can_access_at_index b1 1 then Some (False, items @ [new_item], b1)
          else do {
            b2 \<leftarrow> buffer_skip_whitespace (step_forward b1 1);
            (named, name_item, b3) \<leftarrow> parse_string new_item b2;
            (if \<not> named then Some (False, items @ [name_item], b3)
             else do {
               b4 \<leftarrow> buffer_skip_whitespace b3;
               let current_item = with_valuestring None (with_string (valuestring name_item) name_item);
               colon \<leftarrow> looking_at b4 (CHR '':'');
               (if \<not> colon then Some (False, items @ [current_item], b4)
                else do {
                  b5 \<leftarrow> buffer_skip_whitespace (step_forward b4 1);
                  (ok, member, b6) \<leftarrow> pv current_item b5;
                  (if \<not> ok then Some (False, items @ [member], b6)
                   else do {
                     b7 \<leftarrow> buffer_skip_whitespace b6;
                     more \<leftarrow> looking_at b7 (CHR '','');
                     (if more then object_members pv (items @ [member]) b7
                      else Some (True, items @ [member], b7)) }) }) }) })"

declare array_elements.simps [code] object_members.simps [code]

definition parse_object :: "value_parser option \<Rightarrow> value_parser" where
  "parse_object deeper item b =
     (case deeper of
        None \<Rightarrow> Some (False, item, b)
      | Some pv \<Rightarrow> do {
          open_brace \<leftarrow> looking_at b (CHR ''{'');
          (if \<not> open_brace then Some (False, item, b)
           else do {
             b1 \<leftarrow> buffer_skip_whitespace (step_forward b 1);
             empty \<leftarrow> looking_at b1 (CHR ''}'');
             (if empty then Some (True, with_child [] (with_type cJSON_Object item), step_forward b1 1)
              else if \<not> can_access_at_index b1 0 then Some (False, item, step_back b1)
              else do {
                r \<leftarrow> object_members pv [] (step_back b1);
                close_list (CHR ''}'') cJSON_Object item r }) }) })"

section \<open>Values\<close>

text \<open>\<open>can_read(b, strlen(s)) && strncmp(...) == 0\<close>\<close>

definition reads_word :: "parse_buffer \<Rightarrow> string \<Rightarrow> bool option" where
  "reads_word b s = (if buffer_can_read b (length s) then buffer_starts b s else Some False)"

definition parse_value_with :: "value_parser option \<Rightarrow> value_parser" where
  "parse_value_with deeper item b = do {
     is_null \<leftarrow> reads_word b ''null'';
     (if is_null then Some (True, with_type cJSON_NULL item, step_forward b 4)
      else do {
        is_false \<leftarrow> reads_word b ''false'';
        (if is_false then Some (True, with_type cJSON_False item, step_forward b 5)
         else do {
           is_true \<leftarrow> reads_word b ''true'';
           (if is_true
            then Some (True, with_type cJSON_True (with_number 1 (valuedouble item) item), step_forward b 4)
            else if \<not> can_access_at_index b 0 then Some (False, item, b)
            else do {
              c \<leftarrow> buffer_at b 0;
              (if c = CHR 0x22 then parse_string item b
               else if c = CHR ''-'' \<or> is_digit_char c then parse_number item b
               else if c = CHR ''['' then parse_array deeper item b
               else if c = CHR ''{'' then parse_object deeper item b
               else Some (False, item, b)) }) }) }) }"

text \<open>\<open>parse_value\<close> with the number of nested arrays and objects that are still allowed, which is
  \<open>CJSON_NESTING_LIMIT\<close> less \<open>depth\<close>.\<close>

primrec parse_value :: "nat \<Rightarrow> value_parser" where
  "parse_value 0 = parse_value_with None"
| "parse_value (Suc n) = parse_value_with (Some (parse_value n))"

section \<open>Entry points\<close>

definition CJSON_NESTING_LIMIT :: nat where "CJSON_NESTING_LIMIT = 1000"

text \<open>\<open>cJSON_ParseWithLengthOpts\<close>: the tree, the position the parse ended or failed at, and the buffer.\<close>

definition cJSON_ParseWithLengthOpts :: "bytes option \<Rightarrow> nat \<Rightarrow> bool \<Rightarrow> allocs
    \<Rightarrow> (cJSON option \<times> nat \<times> parse_buffer) option" where
  "cJSON_ParseWithLengthOpts value buffer_length require_null_terminated al =
     (let b0 = \<lparr>pb_content = [], pb_length = 0, pb_offset = 0, pb_allocs = al, pb_live = 0\<rparr>;
          failed = (\<lambda>items b. Some (None,
            if pb_offset b < pb_length b then pb_offset b
            else if pb_length b > 0 then pb_length b - 1 else 0, cJSON_Delete items b))
      in case value of
        None \<Rightarrow> failed [] b0
      | Some mem \<Rightarrow>
          if buffer_length = 0 then failed [] b0
          else (case cJSON_New_Item (b0\<lparr>pb_content := mem, pb_length := buffer_length\<rparr>) of
             (None, b1) \<Rightarrow> failed [] b1
           | (Some item, b1) \<Rightarrow> do {
               b2 \<leftarrow> skip_utf8_bom b1;
               b3 \<leftarrow> buffer_skip_whitespace b2;
               (ok, item1, b4) \<leftarrow> parse_value CJSON_NESTING_LIMIT item b3;
               (if \<not> ok then failed [item1] b4
                else if require_null_terminated then do {
                  b5 \<leftarrow> buffer_skip_whitespace b4;
                  (if pb_offset b5 \<ge> pb_length b5 then failed [item1] b5
                   else do {
                     c \<leftarrow> buffer_at b5 0;
                     (if c \<noteq> NUL then failed [item1] b5 else Some (Some item1, pb_offset b5, b5)) }) }
                else Some (Some item1, pb_offset b4, b4)) }))"

text \<open>\<open>cJSON_ParseWithOpts\<close> and \<open>cJSON_Parse\<close> on memory that holds a C string.\<close>

definition cJSON_ParseWithOpts :: "bytes option \<Rightarrow> bool \<Rightarrow> allocs
    \<Rightarrow> (cJSON option \<times> nat \<times> parse_buffer) option" where
  "cJSON_ParseWithOpts value require_null_terminated al =
     (case value of
        None \<Rightarrow> Some (None, 0, \<lparr>pb_content = [], pb_length = 0, pb_offset = 0, pb_allocs = al, pb_live = 0\<rparr>)
      | Some mem \<Rightarrow> do {
          s \<leftarrow> c_str mem;
          cJSON_ParseWithLengthOpts (Some mem) (length s + 1) require_null_terminated al })"

definition cJSON_Parse :: "bytes option \<Rightarrow> allocs \<Rightarrow> (cJSON option \<times> nat \<times> parse_buffer) option" where
  "cJSON_Parse value al = cJSON_ParseWithOpts value False al"

definition cJSON_ParseWithLength :: "bytes option \<Rightarrow> nat \<Rightarrow> allocs
    \<Rightarrow> (cJSON option \<times> nat \<times> parse_buffer) option" where
  "cJSON_ParseWithLength value buffer_length al = cJSON_ParseWithLengthOpts value buffer_length False al"

end
