(* ===== verification/JsonFacts.thy ===== *)
theory JsonFacts
  imports JsonStringFacts JsonParse
begin

text \<open>
  The parser of cJSON on every input: it returns, it reads inside the buffer and writes inside its
  blocks, what it allocated is what the tree it returns consists of, and the tree is well formed.
\<close>

section \<open>Well-formed trees\<close>

text \<open>What the type of a node says of its other fields, with at most \<open>n\<close> arrays and objects inside each
  other; the members of an object have names and the elements of an array have none.\<close>

fun tree_wf :: "nat \<Rightarrow> cJSON \<Rightarrow> bool" where
  "tree_wf n (cJSON_node c t v i d s) \<longleftrightarrow> INT_MIN \<le> i \<and> i \<le> INT_MAX \<and>
     (t \<in> {cJSON_False, cJSON_True, cJSON_NULL, cJSON_Number} \<and> c = [] \<and> v = None
      \<or> t = cJSON_String \<and> c = [] \<and> (\<exists>x. v = Some x \<and> NUL \<notin> set x)
      \<or> t = cJSON_Array \<and> v = None \<and> 0 < n \<and> (\<forall>x \<in> set c. tree_wf (n - 1) x \<and> jstring x = None)
      \<or> t = cJSON_Object \<and> v = None \<and> 0 < n \<and> (\<forall>x \<in> set c. tree_wf (n - 1) x \<and> jstring x \<noteq> None))"

text \<open>A node a value is parsed into: just allocated, or with the name of a member.\<close>

definition fresh :: "cJSON \<Rightarrow> bool" where
  "fresh n \<longleftrightarrow> child n = [] \<and> valuestring n = None \<and> jtype n \<in> {0, cJSON_String} \<and> valueint n = 0"

lemma fresh_zero [simp]: "fresh zero_node"
  by (simp add: fresh_def zero_node_def)

lemma node_sel [simp]:
  "child (with_type t n) = child n" "jtype (with_type t n) = t" "valuestring (with_type t n) = valuestring n"
  "jstring (with_type t n) = jstring n" "valueint (with_type t n) = valueint n"
  "child (with_valuestring v n) = child n" "jtype (with_valuestring v n) = jtype n"
  "valuestring (with_valuestring v n) = v" "jstring (with_valuestring v n) = jstring n"
  "valueint (with_valuestring v n) = valueint n"
  "child (with_string s n) = child n" "jtype (with_string s n) = jtype n"
  "valuestring (with_string s n) = valuestring n" "jstring (with_string s n) = s"
  "valueint (with_string s n) = valueint n"
  "child (with_number i d n) = child n" "jtype (with_number i d n) = jtype n"
  "valuestring (with_number i d n) = valuestring n" "jstring (with_number i d n) = jstring n"
  "valueint (with_number i d n) = i"
  "child (with_child c n) = c" "jtype (with_child c n) = jtype n"
  "valuestring (with_child c n) = valuestring n" "jstring (with_child c n) = jstring n"
  "valueint (with_child c n) = valueint n"
  by (simp_all add: node_updates)

text \<open>The blocks of a node without the flags.\<close>

definition own_blocks :: "cJSON \<Rightarrow> nat" where
  "own_blocks n = 1 + sum_list (map node_blocks (child n)) + (if valuestring n = None then 0 else 1)
     + (if jstring n = None then 0 else 1)"

lemma blocks_plain: "jtype n < 256 \<Longrightarrow> node_blocks n = own_blocks n"
  by (cases n) (simp add: own_blocks_def cJSON_IsReference_def cJSON_StringIsConst_def)

lemma tree_wf_type: "tree_wf n x \<Longrightarrow> jtype x < 256"
  by (cases x) (auto simp: json_types)

lemma fresh_type: "fresh x \<Longrightarrow> jtype x < 256"
  by (auto simp: fresh_def json_types)

section \<open>What a parser of values does\<close>

text \<open>It returns; it moves forward, by at least one character when it succeeds; the blocks it allocated
  and did not free are those it added to the node; and it leaves a node it could not fill alone.\<close>

definition parsed :: "nat \<Rightarrow> cJSON \<Rightarrow> parse_buffer \<Rightarrow> (bool \<times> cJSON \<times> parse_buffer) option \<Rightarrow> bool" where
  "parsed n item b r \<longleftrightarrow> (\<exists>ok item' b'. r = Some (ok, item', b') \<and> advances b b'
     \<and> (ok \<longrightarrow> pb_offset b < pb_offset b')
     \<and> pb_live b' + int (node_blocks item) = pb_live b + int (node_blocks item')
     \<and> (if ok then tree_wf n item' \<and> jstring item' = jstring item else item' = item))"

definition value_parser_ok :: "nat \<Rightarrow> value_parser \<Rightarrow> bool" where
  "value_parser_ok n pv \<longleftrightarrow> (\<forall>item b. fresh item \<longrightarrow> pb_ok b \<longrightarrow> parsed n item b (pv item b))"

lemma parsed_fail: "advances b b' \<Longrightarrow> pb_live b' = pb_live b \<Longrightarrow> parsed n item b (Some (False, item, b'))"
  unfolding parsed_def by (intro exI [of _ False]) simp

lemma parsed_success:
  assumes "advances b b'" and "pb_offset b < pb_offset b'" and "tree_wf n item'" and "jstring item' = jstring item"
    and "pb_live b' + int (node_blocks item) = pb_live b + int (node_blocks item')"
  shows "parsed n item b (Some (True, item', b'))"
  unfolding parsed_def by (intro exI [of _ True]) (use assms in simp)

lemma allocate_cases:
  obtains (ok) al where "pb_allocate b = (True, b\<lparr>pb_allocs := al, pb_live := pb_live b + 1\<rparr>)"
    | (fail) al where "pb_allocate b = (False, b\<lparr>pb_allocs := al\<rparr>)"
  by (cases "malloc_ok (pb_allocs b)"; cases "fst (malloc_ok (pb_allocs b))") (auto simp: pb_allocate_def)

lemma string_parsed:
  assumes "pb_ok b" and "can_access_at_index b 0" and "fresh item"
  shows "parsed n item b (parse_string item b)"
    and "parse_string item b = Some (True, item', b') \<Longrightarrow>
      \<exists>s. item' = with_valuestring (Some s) (with_type cJSON_String item)"
proof -
  obtain c where c: "buffer_at b 0 = Some c" using buffer_at_ok [OF assms(1,2)] by blast
  have lt: "pb_offset b < pb_length b" and len: "pb_length b \<le> length (pb_content b)"
    using assms(1,2) by (simp_all add: pb_ok_def can_access_at_index_def)
  have fwd: "advances b (step_forward b 1)" using lt by (simp add: advances_def)
  let ?k = "pb_offset b + 1"
  obtain r where r: "string_end b ?k 0 = Some r" "quote_found b ?k 0 r"
    using string_end_ok [OF len] by blast
  show "parse_string item b = Some (True, item', b') \<Longrightarrow>
      \<exists>s. item' = with_valuestring (Some s) (with_type cJSON_String item)"
    by (auto simp: parse_string_def Let_def split: bind_splits if_splits option.splits prod.splits)
  show "parsed n item b (parse_string item b)"
  proof (cases "c = CHR 0x22 \<and> r \<noteq> None")
    case False
    then show ?thesis using c r(1) parsed_fail [OF fwd]
      by (cases "c = CHR 0x22") (auto simp: parse_string_def split: option.split)
  next
    case True
    then obtain e s where es: "r = Some (e, s)" by auto
    have e: "?k \<le> e" "e < pb_length b" "pb_content b ! e = CHR 0x22" "s = escapes_between (pb_content b) ?k e"
      using r(2) by (simp_all add: quote_found_def es)
    show ?thesis
    proof (cases b rule: allocate_cases)
      case (fail al)
      have "advances b (step_forward (b\<lparr>pb_allocs := al\<rparr>) 1)" using lt by (simp add: advances_def)
      from parsed_fail [OF this] show ?thesis
        using True c r(1) es fail by (simp add: parse_string_def)
    next
      case (ok al)
      define A where "A = e - pb_offset b - s"
      have "room (escape_marks (slice (pb_content b) ?k e)) + s = e - ?k"
        using room_marks [of "slice (pb_content b) ?k e"] e len by (simp add: escapes_between_def)
      then have A: "fits_block (pb_content b) ?k e A ?k []"
        using e(1) by (simp add: fits_block_def room_from_def A_def)
      obtain p v where u: "unescape (pb_content b) e (A + 1) ?k [] = Some (p, v)" "?k \<le> p"
        "v = None \<longrightarrow> p \<le> e" "\<forall>x. v = Some x \<longrightarrow> length x \<le> A"
        using unescape_ok [OF _ e(3) A] e(2) len by (metis less_le_trans)
      show ?thesis
      proof (cases v)
        case None
        have "advances b ((pb_deallocate 1 (b\<lparr>pb_allocs := al, pb_live := pb_live b + 1\<rparr>))\<lparr>pb_offset := p\<rparr>)"
          using u(2,3) None e(2) by (simp add: advances_def pb_deallocate_def)
        from parsed_fail [OF this] show ?thesis
          using True c r(1) es ok u(1) None by (simp add: parse_string_def A_def pb_deallocate_def)
      next
        case (Some x)
        then have w: "put_bytes (A + 1) x [NUL] = Some (x @ [NUL])" using u(4) by (simp add: put_bytes_def)
        obtain y where y: "c_str (x @ [NUL]) = Some y" by (simp add: c_str_def)
        have "NUL \<notin> set y" using c_str_SomeD(1) [OF y] .
        then have "tree_wf n (with_valuestring (Some y) (with_type cJSON_String item))"
          using assms(3) by (auto simp: node_updates fresh_def INT_MIN_def INT_MAX_def)
        moreover have "node_blocks (with_valuestring (Some y) (with_type cJSON_String item)) = node_blocks item + 1"
          using assms(3) fresh_type [OF assms(3)]
          by (simp add: blocks_plain own_blocks_def fresh_def json_types)
        ultimately have "parsed n item b (Some (True, with_valuestring (Some y) (with_type cJSON_String item),
            b\<lparr>pb_allocs := al, pb_live := pb_live b + 1, pb_offset := e + 1\<rparr>))"
          using e by (intro parsed_success) (simp_all add: advances_def)
        then show ?thesis using True c r(1) es ok u(1) Some w y by (simp add: parse_string_def A_def)
      qed
    qed
  qed
qed

section \<open>Numbers\<close>

lemma take_exponent_length: "snd (take_exponent s) \<le> length s"
proof (cases s)
  case (Cons c r)
  obtain neg ds where d: "take_sign r = (neg, ds)" by (cases "take_sign r")
  have "length ds \<le> length r" using d by (cases r) (auto simp: take_sign_def split: if_splits)
  then show ?thesis using length_takeWhile_le [of is_digit_char ds]
    by (simp add: Cons take_exponent_def d Let_def) linarith
qed (simp add: take_exponent_def)

lemma round_double_no_NaN: "round_double q \<noteq> NaN"
  by (simp add: round_double_def Let_def)

lemma strtod_ok:
  assumes "strtod s = (d, n)"
  shows "n \<le> length s" and "d \<noteq> NaN"
proof -
  obtain neg s1 where s1: "take_sign s = (neg, s1)" by (cases "take_sign s")
  have l1: "length s1 \<le> length s" using s1 by (cases s) (auto simp: take_sign_def split: if_splits)
  define s2 where "s2 = drop (length (takeWhile is_digit_char s1)) s1"
  obtain frac s3 where f: "(case s2 of c # r \<Rightarrow>
      if c = CHR ''.'' then (takeWhile is_digit_char r, drop (length (takeWhile is_digit_char r)) r)
      else ([], s2) | [] \<Rightarrow> ([], s2)) = (frac, s3)" by (rule prod.exhaust)
  have "length s3 \<le> length s2" using f by (cases s2) (auto split: if_splits)
  then have l3: "length s3 \<le> length s" using l1 by (simp add: s2_def)
  note run = assms [unfolded strtod_def s1 prod.case Let_def, folded s2_def, unfolded f prod.case]
  show "n \<le> length s" "d \<noteq> NaN"
    using run take_exponent_length [of s3] l3 round_double_no_NaN
    by (auto split: if_splits prod.splits)
qed

lemma saturate_range:
  assumes "d \<noteq> NaN"
  shows "\<exists>i. saturate_int d = Some i \<and> INT_MIN \<le> i \<and> i \<le> INT_MAX"
proof (cases d)
  case (Fin q)
  have "INT_MIN \<le> \<lfloor>q\<rfloor> \<and> \<lfloor>q\<rfloor> \<le> INT_MAX" if "of_int INT_MIN < q" "q < of_int INT_MAX"
    using that by (simp add: le_floor_iff floor_le_iff)
  moreover have "INT_MIN \<le> \<lceil>q\<rceil> \<and> \<lceil>q\<rceil> \<le> INT_MAX" if "of_int INT_MIN < q" "q < of_int INT_MAX"
    using that by (simp add: ceiling_le_iff le_ceiling_iff)
  ultimately show ?thesis by (auto simp: saturate_int_def Fin INT_MAX_def INT_MIN_def)
qed (use assms in \<open>simp_all add: saturate_int_def INT_MAX_def INT_MIN_def\<close>)

lemma number_text_ok:
  assumes "pb_ok b" and "pb_offset b + i \<le> pb_length b"
  shows "\<exists>s. number_text k b i = Some s \<and> pb_offset b + i + length s \<le> pb_length b"
  using assms(2)
proof (induction k arbitrary: i)
  case (Suc k)
  show ?case
  proof (cases "can_access_at_index b i")
    case True
    then obtain c where c: "buffer_at b i = Some c" using buffer_at_ok [OF assms(1)] by blast
    from True have "pb_offset b + Suc i \<le> pb_length b" by (simp add: can_access_at_index_def)
    from Suc.IH [OF this] Suc.prems show ?thesis using True c by auto
  qed (use Suc.prems in simp)
qed (use assms in simp)

lemma number_parsed:
  assumes "pb_ok b" and "fresh item"
  shows "parsed n item b (parse_number item b)"
proof -
  obtain s where s: "number_text 63 b 0 = Some s" "pb_offset b + length s \<le> pb_length b"
    using number_text_ok [OF assms(1), of 0 63] assms(1) by (auto simp: pb_ok_def)
  obtain d u where d: "strtod s = (d, u)" by (cases "strtod s")
  note ok = strtod_ok [OF d]
  obtain i where i: "saturate_int d = Some i" "INT_MIN \<le> i" "i \<le> INT_MAX"
    using saturate_range [OF ok(2)] by blast
  show ?thesis
  proof (cases "u = 0")
    case True
    then show ?thesis using s d parsed_fail [OF advances_refl [OF assms(1)]] by (simp add: parse_number_def)
  next
    case False
    have "tree_wf n (with_type cJSON_Number (with_number i d item))"
      using assms(2) i by (auto simp: node_updates fresh_def)
    moreover have "node_blocks (with_type cJSON_Number (with_number i d item)) = node_blocks item"
      using fresh_type [OF assms(2)] by (simp add: blocks_plain own_blocks_def json_types)
    ultimately have "parsed n item b (Some (True, with_type cJSON_Number (with_number i d item), step_forward b u))"
      using False s(2) ok(1) by (intro parsed_success) (simp_all add: advances_def)
    then show ?thesis using s d i False by (simp add: parse_number_def)
  qed
qed

section \<open>Arrays and objects\<close>

definition blocks_of :: "cJSON list \<Rightarrow> nat" where
  "blocks_of items = sum_list (map node_blocks items)"

lemma blocks_of_simps [simp]:
  "blocks_of [] = 0" "blocks_of (xs @ ys) = blocks_of xs + blocks_of ys" "blocks_of (x # xs) = node_blocks x + blocks_of xs"
  by (simp_all add: blocks_of_def)

lemma blocks_zero [simp]: "node_blocks zero_node = 1"
  by (simp add: zero_node_def cJSON_IsReference_def cJSON_StringIsConst_def)

text \<open>What a loop over elements or members does.\<close>

definition list_parsed :: "nat \<Rightarrow> bool \<Rightarrow> cJSON list \<Rightarrow> parse_buffer
    \<Rightarrow> (bool \<times> cJSON list \<times> parse_buffer) option \<Rightarrow> bool" where
  "list_parsed n named items b r \<longleftrightarrow> (\<exists>ok items' b'. r = Some (ok, items', b') \<and> advances b b'
     \<and> pb_live b' + int (blocks_of items) = pb_live b + int (blocks_of items')
     \<and> (ok \<longrightarrow> (\<forall>x \<in> set items'. tree_wf n x \<and> (jstring x \<noteq> None) = named)))"

lemma list_parsed_fail:
  assumes "advances b b'" and "pb_live b' + int (blocks_of items) = pb_live b + int (blocks_of items')"
  shows "list_parsed n named items b (Some (False, items', b'))"
  unfolding list_parsed_def by (intro exI [of _ False]) (use assms in simp)

lemma list_parsed_success:
  assumes "advances b b'" and "pb_live b' + int (blocks_of items) = pb_live b + int (blocks_of items')"
    and "\<forall>x \<in> set items'. tree_wf n x \<and> (jstring x \<noteq> None) = named"
  shows "list_parsed n named items b (Some (True, items', b'))"
  unfolding list_parsed_def by (intro exI [of _ True]) (use assms in simp)

lemma list_parsed_step:
  assumes "list_parsed n named items1 b1 r" and "advances b b1"
    and "pb_live b1 + int (blocks_of items) = pb_live b + int (blocks_of items1)"
  shows "list_parsed n named items b r"
proof -
  obtain ok items' b' where r: "r = Some (ok, items', b')" "advances b1 b'"
    "pb_live b' + int (blocks_of items1) = pb_live b1 + int (blocks_of items')"
    "ok \<longrightarrow> (\<forall>x \<in> set items'. tree_wf n x \<and> (jstring x \<noteq> None) = named)"
    using assms(1) unfolding list_parsed_def by blast
  have "advances b b'" by (rule advances_trans [OF assms(2) r(2)])
  moreover have "pb_live b' + int (blocks_of items) = pb_live b + int (blocks_of items')"
    using r(3) assms(3) by simp
  ultimately show ?thesis unfolding list_parsed_def r(1)
    by (intro exI [of _ ok] exI [of _ items'] exI [of _ b'] conjI r(4) refl)
qed

lemma new_item_cases:
  obtains (ok) al where "cJSON_New_Item b = (Some zero_node, b\<lparr>pb_allocs := al, pb_live := pb_live b + 1\<rparr>)"
    | (fail) al where "cJSON_New_Item b = (None, b\<lparr>pb_allocs := al\<rparr>)"
  by (cases b rule: allocate_cases) (auto simp: cJSON_New_Item_def)

text \<open>Skipping white space, as a step that advances.\<close>

lemma skip_advances:
  assumes "pb_ok b"
  obtains b' where "buffer_skip_whitespace b = Some b'" and "advances b b'" and "pb_live b' = pb_live b"
    and "can_access_at_index b 0 \<Longrightarrow> can_access_at_index b' 0"
proof -
  obtain k where "buffer_skip_whitespace b = Some (b\<lparr>pb_offset := k\<rparr>)" "pb_offset b \<le> k" "k \<le> pb_length b"
    "pb_offset b < pb_length b \<longrightarrow> k < pb_length b" by (rule skip_whitespace_ok [OF assms])
  then show ?thesis using that [of "b\<lparr>pb_offset := k\<rparr>"] by (simp add: advances_def can_access_at_index_def)
qed

lemma parsed_cases:
  assumes "parsed n item b r"
  obtains (ok) item' b' where "r = Some (True, item', b')" "advances b b'" "pb_offset b < pb_offset b'"
      "pb_live b' + int (node_blocks item) = pb_live b + int (node_blocks item')" "tree_wf n item'"
      "jstring item' = jstring item"
    | (fail) b' where "r = Some (False, item, b')" "advances b b'" "pb_live b' = pb_live b"
  using assms unfolding parsed_def by (metis (full_types) add_right_cancel)

definition members_wf :: "nat \<Rightarrow> bool \<Rightarrow> cJSON list \<Rightarrow> bool" where
  "members_wf n named items \<longleftrightarrow> (\<forall>x \<in> set items. tree_wf n x \<and> (jstring x \<noteq> None) = named)"

lemma members_wf_simps [simp]:
  "members_wf n named []" "members_wf n named (xs @ ys) = (members_wf n named xs \<and> members_wf n named ys)"
  "members_wf n named (x # xs) = (tree_wf n x \<and> (jstring x \<noteq> None) = named \<and> members_wf n named xs)"
  by (auto simp: members_wf_def)

lemma step_forward_advances: "can_access_at_index b 0 \<Longrightarrow> advances b (step_forward b 1)"
  by (simp add: advances_def can_access_at_index_def)

lemma array_elements_ok:
  assumes "value_parser_ok n pv"
  shows "pb_ok b \<Longrightarrow> can_access_at_index b 0 \<Longrightarrow> members_wf n False items \<Longrightarrow>
    list_parsed n False items b (array_elements pv items b)"
proof (induction "pb_length b - pb_offset b" arbitrary: items b rule: less_induct)
  case less
  note ok = less(2) and acc = less(3) and wf = less(4)
  note run = array_elements.simps [of pv items b]
  show ?case
  proof (cases b rule: new_item_cases)
    case (fail al)
    have "advances b (b\<lparr>pb_allocs := al\<rparr>)" using advances_refl [OF ok] by (simp add: advances_def)
    from list_parsed_fail [OF this, of items items] show ?thesis using run fail by simp
  next
    case new: (ok al)
    define b1 where "b1 = b\<lparr>pb_allocs := al, pb_live := pb_live b + 1\<rparr>"
    have b1: "advances b (step_forward b1 1)" "pb_live b1 = pb_live b + 1" "pb_offset b1 = pb_offset b"
      using step_forward_advances [OF acc] by (simp_all add: b1_def advances_def)
    have ok1: "pb_ok (step_forward b1 1)" by (rule advances_ok [OF ok b1(1)])
    obtain b2 where b2: "buffer_skip_whitespace (step_forward b1 1) = Some b2" "advances (step_forward b1 1) b2"
      "pb_live b2 = pb_live b1" using skip_advances [OF ok1] by auto
    have ok2: "pb_ok b2" by (rule advances_ok [OF ok1 b2(2)])
    have "parsed n zero_node b2 (pv zero_node b2)" using assms ok2 by (simp add: value_parser_ok_def)
    then show ?thesis
    proof (cases rule: parsed_cases)
      case (fail b3)
      have "advances b b3" using b1(1) b2(2) fail(2) by (blast intro: advances_trans)
      then show ?thesis using run new b2(1) fail list_parsed_fail [of b b3 items "items @ [zero_node]"] b1(2) b2(3)
        by (simp add: b1_def)
    next
      case (ok x b3)
      have adv3: "advances b b3" using b1(1) b2(2) ok(2) by (blast intro: advances_trans)
      have ok3: "pb_ok b3" by (rule advances_ok [OF less(2) adv3])
      obtain b4 where b4: "buffer_skip_whitespace b3 = Some b4" "advances b3 b4" "pb_live b4 = pb_live b3"
        using skip_advances [OF ok3] by auto
      have adv4: "advances b b4" by (rule advances_trans [OF adv3 b4(2)])
      have ok4: "pb_ok b4" by (rule advances_ok [OF less(2) adv4])
      have live: "pb_live b4 + int (blocks_of items) = pb_live b + int (blocks_of (items @ [x]))"
        using ok(4) b4(3) b2(3) b1(2) by simp
      have wf4: "members_wf n False (items @ [x])" using wf ok(5,6) by (simp add: zero_node_def)
      show ?thesis
      proof (cases "can_access_at_index b4 0 \<and> buffer_at b4 0 = Some (CHR '','')")
        case True
        have "pb_length b4 - pb_offset b4 < pb_length b - pb_offset b"
          using ok(3) b4(2) b2(2) acc adv4 b1(3) by (auto simp: advances_def can_access_at_index_def)
        from less(1) [OF this ok4 _ wf4] True
        have "list_parsed n False (items @ [x]) b4 (array_elements pv (items @ [x]) b4)" by simp
        from list_parsed_step [OF this adv4 live] show ?thesis
          using run new b2(1) ok(1) b4(1) looking_at_ok [OF ok4] True by (simp add: b1_def)
      next
        case False
        have "list_parsed n False items b (Some (True, items @ [x], b4))"
          by (rule list_parsed_success [OF adv4 live]) (use wf4 in \<open>simp add: members_wf_def\<close>)
        then show ?thesis
          using run new b2(1) ok(1) b4(1) looking_at_ok [OF ok4] False by (auto simp: b1_def)
      qed
    qed
  qed
qed

text \<open>A node that got its name: the block of the text is the block of the name.\<close>

definition named :: "cJSON \<Rightarrow> cJSON" where
  "named x = with_valuestring None (with_string (valuestring x) x)"

lemma named_node:
  assumes "x = with_valuestring (Some s) (with_type cJSON_String zero_node)"
  shows "fresh (named x)" and "node_blocks (named x) = 2" and "node_blocks x = 2" and "jstring (named x) \<noteq> None"
  using assms by (simp_all add: fresh_def blocks_plain own_blocks_def json_types named_def zero_node_def)

lemma object_members_ok:
  assumes "value_parser_ok n pv"
  shows "pb_ok b \<Longrightarrow> can_access_at_index b 0 \<Longrightarrow> members_wf n True items \<Longrightarrow>
    list_parsed n True items b (object_members pv items b)"
proof (induction "pb_length b - pb_offset b" arbitrary: items b rule: less_induct)
  case less
  note ok = less(2) and acc = less(3) and wf = less(4)
  note run = object_members.simps [of pv items b]
  show ?case
  proof (cases b rule: new_item_cases)
    case (fail al)
    have "advances b (b\<lparr>pb_allocs := al\<rparr>)" using advances_refl [OF ok] by (simp add: advances_def)
    from list_parsed_fail [OF this, of items items] show ?thesis using run fail by simp
  next
    case new: (ok al)
    define b1 where "b1 = b\<lparr>pb_allocs := al, pb_live := pb_live b + 1\<rparr>"
    have same1: "pb_live b1 = pb_live b + 1" "pb_offset b1 = pb_offset b" "advances b b1"
      using advances_refl [OF ok] by (simp_all add: b1_def advances_def)
    show ?thesis
    proof (cases "can_access_at_index b1 1")
      case False
      then show ?thesis using run new list_parsed_fail [of b b1 items "items @ [zero_node]"] same1 by (simp add: b1_def)
    next
      case acc1: True
      have b1: "advances b (step_forward b1 1)" using step_forward_advances [OF acc] by (simp add: b1_def advances_def)
      have ok1: "pb_ok (step_forward b1 1)" by (rule advances_ok [OF ok b1])
      have "can_access_at_index (step_forward b1 1) 0" using acc1 by (simp add: can_access_at_index_def)
      then obtain b2 where b2: "buffer_skip_whitespace (step_forward b1 1) = Some b2" "advances (step_forward b1 1) b2"
        "pb_live b2 = pb_live b1" "can_access_at_index b2 0" using skip_advances [OF ok1] by auto
      have ok2: "pb_ok b2" by (rule advances_ok [OF ok1 b2(2)])
      have adv2: "advances b b2" by (rule advances_trans [OF b1 b2(2)])
      note str = string_parsed(1) [OF ok2 b2(4) fresh_zero, of n] string_parsed(2) [OF ok2 b2(4) fresh_zero]
      from str(1) show ?thesis
      proof (cases rule: parsed_cases)
        case (fail b3)
        have "advances b b3" by (rule advances_trans [OF adv2 fail(2)])
        then show ?thesis
          using run new b2(1) fail list_parsed_fail [of b b3 items "items @ [zero_node]"] same1(1) b2(3) acc1
          by (simp add: b1_def)
      next
        case name: (ok y b3)
        obtain s where y: "y = with_valuestring (Some s) (with_type cJSON_String zero_node)"
          using str(2) [OF name(1)] by blast
        note node = named_node [OF y]
        have adv3: "advances b b3" by (rule advances_trans [OF adv2 name(2)])
        obtain b4 where b4: "buffer_skip_whitespace b3 = Some b4" "advances b3 b4" "pb_live b4 = pb_live b3"
          using skip_advances [OF advances_ok [OF ok adv3]] by auto
        have adv4: "advances b b4" by (rule advances_trans [OF adv3 b4(2)])
        have ok4: "pb_ok b4" by (rule advances_ok [OF ok adv4])
        have live4: "pb_live b4 = pb_live b + 2" using name(4) node(3) b4(3) b2(3) same1(1) by simp
        show ?thesis
        proof (cases "can_access_at_index b4 0 \<and> buffer_at b4 0 = Some (CHR '':'')")
          case False
          have "list_parsed n True items b (Some (False, items @ [named y], b4))"
            by (rule list_parsed_fail [OF adv4]) (use live4 node(2) in simp)
          then show ?thesis
            using run new acc1 b2(1) name(1) b4(1) looking_at_ok [OF ok4] False by (auto simp: b1_def named_def)
        next
          case colon: True
          have b5': "advances b4 (step_forward b4 1)" using step_forward_advances colon by blast
          obtain b5 where b5: "buffer_skip_whitespace (step_forward b4 1) = Some b5" "advances (step_forward b4 1) b5"
            "pb_live b5 = pb_live b4" using skip_advances [OF advances_ok [OF ok4 b5']] by auto
          have adv5: "advances b b5" using adv4 b5' b5(2) by (blast intro: advances_trans)
          have "parsed n (named y) b5 (pv (named y) b5)"
            using assms node(1) advances_ok [OF ok adv5] by (simp add: value_parser_ok_def)
          then show ?thesis
          proof (cases rule: parsed_cases)
            case (fail b6)
            have "list_parsed n True items b (Some (False, items @ [named y], b6))"
              by (rule list_parsed_fail [OF advances_trans [OF adv5 fail(2)]]) (use live4 node(2) fail(3) b5(3) in simp)
            then show ?thesis
              using run new acc1 b2(1) name(1) b4(1) looking_at_ok [OF ok4] colon b5(1) fail(1)
              by (simp add: b1_def named_def)
          next
            case (ok x b6)
            have adv6: "advances b b6" by (rule advances_trans [OF adv5 ok(2)])
            obtain b7 where b7: "buffer_skip_whitespace b6 = Some b7" "advances b6 b7" "pb_live b7 = pb_live b6"
              using skip_advances [OF advances_ok [OF less(2) adv6]] by auto
            have adv7: "advances b b7" by (rule advances_trans [OF adv6 b7(2)])
            have ok7: "pb_ok b7" by (rule advances_ok [OF less(2) adv7])
            have live: "pb_live b7 + int (blocks_of items) = pb_live b + int (blocks_of (items @ [x]))"
              using ok(4) b7(3) b5(3) live4 node(2) by simp
            have wf7: "members_wf n True (items @ [x])" using wf ok(5,6) node(4) by simp
            have step: "object_members pv items b = do {
                more \<leftarrow> looking_at b7 (CHR '','');
                (if more then object_members pv (items @ [x]) b7 else Some (True, items @ [x], b7)) }"
              using run new acc1 b2(1) name(1) b4(1) looking_at_ok [OF ok4] colon b5(1) ok(1) b7(1)
              by (simp add: b1_def named_def)
            show ?thesis
            proof (cases "can_access_at_index b7 0 \<and> buffer_at b7 0 = Some (CHR '','')")
              case True
              have "pb_offset b < pb_offset b7"
                using ok(3) b7(2) b2(2) name(2) b4(2) b5(2) same1(2) by (simp add: advances_def)
              then have "pb_length b7 - pb_offset b7 < pb_length b - pb_offset b"
                using acc adv7 by (auto simp: advances_def can_access_at_index_def)
              from less(1) [OF this ok7 _ wf7] True
              have "list_parsed n True (items @ [x]) b7 (object_members pv (items @ [x]) b7)" by simp
              from list_parsed_step [OF this adv7 live] show ?thesis
                using step looking_at_ok [OF ok7] True by simp
            next
              case False
              have "list_parsed n True items b (Some (True, items @ [x], b7))"
                by (rule list_parsed_success [OF adv7 live]) (use wf7 in \<open>simp add: members_wf_def\<close>)
              then show ?thesis using step looking_at_ok [OF ok7] False by auto
            qed
          qed
        qed
      qed
    qed
  qed
qed

section \<open>Values\<close>

lemma blocks_of_list: "sum_list (map node_blocks items) = blocks_of items"
  by (simp add: blocks_of_def)

lemma filled_node:
  assumes "fresh item" and "t = cJSON_Array \<or> t = cJSON_Object" and "members_wf n (t = cJSON_Object) items"
  shows "tree_wf (Suc n) (with_child items (with_type t item))"
    and "node_blocks (with_child items (with_type t item)) = node_blocks item + blocks_of items"
proof -
  show "tree_wf (Suc n) (with_child items (with_type t item))"
    using assms by (cases item) (auto simp: node_updates fresh_def members_wf_def INT_MIN_def INT_MAX_def json_types)
  have "jtype (with_child items (with_type t item)) < 256" using assms(2) by (auto simp: json_types)
  then show "node_blocks (with_child items (with_type t item)) = node_blocks item + blocks_of items"
    using assms(1) fresh_type [OF assms(1)]
    by (simp add: blocks_plain own_blocks_def fresh_def blocks_of_list)
qed

lemma close_list_ok:
  assumes "list_parsed n (t = cJSON_Object) [] b r" and "t = cJSON_Array \<or> t = cJSON_Object"
    and "fresh item" and "pb_ok b" and "r = Some x"
  shows "parsed (Suc n) item b (close_list bracket t item x)"
proof -
  obtain ok items b' where x: "x = (ok, items, b')" "advances b b'" "pb_live b' = pb_live b + int (blocks_of items)"
    "ok \<longrightarrow> members_wf n (t = cJSON_Object) items"
    using assms(1,5) by (auto simp: list_parsed_def members_wf_def)
  have ok': "pb_ok b'" by (rule advances_ok [OF assms(4) x(2)])
  have "advances b (cJSON_Delete items b')" "pb_live (cJSON_Delete items b') = pb_live b"
    using x(2,3) by (simp_all add: cJSON_Delete_def pb_deallocate_def advances_def blocks_of_list)
  note fail = parsed_fail [OF this, of "Suc n" item]
  show ?thesis
  proof (cases "ok \<and> can_access_at_index b' 0 \<and> buffer_at b' 0 = Some bracket")
    case True
    note node = filled_node [OF assms(3,2), of n items]
    have adv: "advances b (step_forward b' 1)"
      using x(2) step_forward_advances [of b'] True by (blast intro: advances_trans)
    have "parsed (Suc n) item b (Some (True, with_child items (with_type t item), step_forward b' 1))"
      by (rule parsed_success [OF adv]) (use x True node in \<open>simp_all add: advances_def\<close>)
    then show ?thesis using True x(1) looking_at_ok [OF ok'] by (simp add: close_list_def)
  next
    case False
    then show ?thesis using x(1) looking_at_ok [OF ok'] fail by (auto simp: close_list_def)
  qed
qed

text \<open>What both do after the opening bracket.\<close>

lemma bracket_ok:
  assumes "fresh item" and "pb_ok b" and "can_access_at_index b 0" and "t = cJSON_Array \<or> t = cJSON_Object"
    and "\<And>b'. pb_ok b' \<Longrightarrow> can_access_at_index b' 0 \<Longrightarrow> list_parsed n (t = cJSON_Object) [] b' (loop b')"
  shows "parsed (Suc n) item b (do {
      b1 \<leftarrow> buffer_skip_whitespace (step_forward b 1);
      empty \<leftarrow> looking_at b1 bracket;
      (if empty then Some (True, with_child [] (with_type t item), step_forward b1 1)
       else if \<not> can_access_at_index b1 0 then Some (False, item, step_back b1)
       else do {
         r \<leftarrow> loop (step_back b1);
         close_list bracket t item r }) })"
proof -
  have f: "advances b (step_forward b 1)" by (rule step_forward_advances [OF assms(3)])
  obtain b1 where b1: "buffer_skip_whitespace (step_forward b 1) = Some b1" "advances (step_forward b 1) b1"
    "pb_live b1 = pb_live b" using skip_advances [OF advances_ok [OF assms(2) f]] by auto
  have adv: "advances b b1" by (rule advances_trans [OF f b1(2)])
  have ok1: "pb_ok b1" by (rule advances_ok [OF assms(2) adv])
  have pos: "pb_offset b < pb_offset b1" using b1(2) by (simp add: advances_def)
  have backwards: "advances b (step_back b1)" using adv pos by (auto simp: advances_def)
  consider (empty) "can_access_at_index b1 0" "buffer_at b1 0 = Some bracket"
    | (eof) "\<not> can_access_at_index b1 0"
    | (loop) "can_access_at_index b1 0" "buffer_at b1 0 \<noteq> Some bracket" by blast
  then show ?thesis
  proof cases
    case empty
    note node = filled_node [OF assms(1,4), of n "[]"]
    have "advances b (step_forward b1 1)" using adv step_forward_advances [OF empty(1)] by (rule advances_trans)
    then have "parsed (Suc n) item b (Some (True, with_child [] (with_type t item), step_forward b1 1))"
      by (rule parsed_success) (use pos node b1(3) in simp_all)
    then show ?thesis using b1(1) looking_at_ok [OF ok1] empty by simp
  next
    case eof
    then show ?thesis using b1 looking_at_ok [OF ok1] parsed_fail [OF backwards] by simp
  next
    case loop
    have okb: "pb_ok (step_back b1)" by (rule advances_ok [OF assms(2) backwards])
    have "can_access_at_index (step_back b1) 0" using loop(1) by (simp add: can_access_at_index_def)
    note lp = assms(5) [OF okb this]
    obtain x where x: "loop (step_back b1) = Some x" using lp unfolding list_parsed_def by blast
    then have l: "list_parsed n (t = cJSON_Object) [] (step_back b1) (Some x)" using lp by simp
    have "list_parsed n (t = cJSON_Object) [] b (Some x)"
      by (rule list_parsed_step [OF l backwards]) (use b1(3) in simp)
    from close_list_ok [OF this assms(4,1,2) refl] show ?thesis
      using b1(1) looking_at_ok [OF ok1] loop x by simp
  qed
qed

definition deeper_ok :: "nat \<Rightarrow> value_parser option \<Rightarrow> bool" where
  "deeper_ok n deeper \<longleftrightarrow> (case deeper of None \<Rightarrow> True | Some pv \<Rightarrow> \<exists>m. n = Suc m \<and> value_parser_ok m pv)"

lemma array_parsed:
  assumes "deeper_ok n deeper" and "fresh item" and "pb_ok b" and "can_access_at_index b 0"
  shows "parsed n item b (parse_array deeper item b)"
proof (cases deeper)
  case None
  then show ?thesis using parsed_fail [OF advances_refl [OF assms(3)]] by (simp add: parse_array_def)
next
  case (Some pv)
  then obtain m where m: "n = Suc m" "value_parser_ok m pv" using assms(1) by (auto simp: deeper_ok_def)
  obtain c where c: "buffer_at b 0 = Some c" using buffer_at_ok [OF assms(3,4)] by blast
  have "list_parsed m (cJSON_Array = cJSON_Object) [] b' (array_elements pv [] b')"
    if "pb_ok b'" "can_access_at_index b' 0" for b'
    using array_elements_ok [OF m(2) that] by (simp add: json_types)
  from bracket_ok [where bracket = "CHR '']''", OF assms(2-4) _ this] show ?thesis
    using c Some m(1) parsed_fail [OF advances_refl [OF assms(3)]] by (simp add: parse_array_def)
qed

lemma object_parsed:
  assumes "deeper_ok n deeper" and "fresh item" and "pb_ok b" and "can_access_at_index b 0"
  shows "parsed n item b (parse_object deeper item b)"
proof (cases deeper)
  case None
  then show ?thesis using parsed_fail [OF advances_refl [OF assms(3)]] by (simp add: parse_object_def)
next
  case (Some pv)
  then obtain m where m: "n = Suc m" "value_parser_ok m pv" using assms(1) by (auto simp: deeper_ok_def)
  have "list_parsed m (cJSON_Object = cJSON_Object) [] b' (object_members pv [] b')"
    if "pb_ok b'" "can_access_at_index b' 0" for b'
    using object_members_ok [OF m(2) that] by simp
  from bracket_ok [where bracket = "CHR ''}''", OF assms(2-4) _ this] show ?thesis
    using looking_at_ok [OF assms(3)] Some m(1) parsed_fail [OF advances_refl [OF assms(3)]]
    by (simp add: parse_object_def)
qed

lemma mem_starts_ok: "i + length s \<le> length mem \<Longrightarrow> \<exists>r. mem_starts mem i s = Some r"
  by (induction mem i s rule: mem_starts.induct) (auto simp: mem_at_def)

lemma reads_word_ok:
  assumes "pb_ok b"
  shows "\<exists>r. reads_word b s = Some r \<and> (r \<longrightarrow> pb_offset b + length s \<le> pb_length b)"
  using assms mem_starts_ok [of "pb_offset b" s "pb_content b"]
  by (auto simp: reads_word_def buffer_can_read_def buffer_starts_def pb_ok_def)

lemma word_parsed:
  assumes "fresh item" and "pb_offset b + k \<le> pb_length b" and "0 < k"
    and "t \<in> {cJSON_False, cJSON_True, cJSON_NULL}" and "INT_MIN \<le> i" "i \<le> INT_MAX"
  shows "parsed n item b (Some (True, with_type t (with_number i d item), step_forward b k))"
proof (rule parsed_success)
  show "tree_wf n (with_type t (with_number i d item))"
    using assms(1,4-6) by (auto simp: node_updates fresh_def)
  have "jtype (with_type t (with_number i d item)) < 256" using assms(4) by (auto simp: json_types)
  then show "pb_live (step_forward b k) + int (node_blocks item)
      = pb_live b + int (node_blocks (with_type t (with_number i d item)))"
    using fresh_type [OF assms(1)] by (simp add: blocks_plain own_blocks_def)
qed (use assms(2,3) in \<open>simp_all add: advances_def\<close>)

lemma with_number_same: "with_number (valueint x) (valuedouble x) x = x"
  by (simp add: with_number_def)

lemma parse_value_with_ok:
  assumes "deeper_ok n deeper"
  shows "value_parser_ok n (parse_value_with deeper)"
proof -
  have "parsed n item b (parse_value_with deeper item b)" if f: "fresh item" and ok: "pb_ok b" for item b
  proof -
    note fail = parsed_fail [OF advances_refl [OF ok], of n item]
    have zero: "valueint item = 0" using f by (simp add: fresh_def)
    obtain rn where rn: "reads_word b ''null'' = Some rn" "rn \<longrightarrow> pb_offset b + 4 \<le> pb_length b"
      using reads_word_ok [OF ok, of "''null''"] by auto
    obtain rf where rf: "reads_word b ''false'' = Some rf" "rf \<longrightarrow> pb_offset b + 5 \<le> pb_length b"
      using reads_word_ok [OF ok, of "''false''"] by auto
    obtain rt where rt: "reads_word b ''true'' = Some rt" "rt \<longrightarrow> pb_offset b + 4 \<le> pb_length b"
      using reads_word_ok [OF ok, of "''true''"] by auto
    have word: "parsed n item b (Some (True, with_type t item, step_forward b k))"
      if "t \<in> {cJSON_False, cJSON_NULL}" "pb_offset b + k \<le> pb_length b" "0 < k" for t k
    proof -
      have "with_number 0 (valuedouble item) item = item" using with_number_same [of item] zero by simp
      then show ?thesis
        using word_parsed [OF f that(2,3), of t 0 n "valuedouble item"] that(1)
        by (auto simp: INT_MIN_def INT_MAX_def)
    qed
    consider rn | "\<not> rn" rf | "\<not> rn" "\<not> rf" rt | "\<not> rn" "\<not> rf" "\<not> rt" by blast
    then show ?thesis
    proof cases
      case 1
      then show ?thesis using rn word [of cJSON_NULL 4] by (simp add: parse_value_with_def)
    next
      case 2
      then show ?thesis using rn(1) rf word [of cJSON_False 5] by (simp add: parse_value_with_def)
    next
      case 3
      then show ?thesis using rn(1) rf(1) rt word_parsed [OF f, of b 4 cJSON_True 1 n "valuedouble item"]
        by (simp add: parse_value_with_def INT_MIN_def INT_MAX_def)
    next
      case 4
      then have eq: "parse_value_with deeper item b = (if \<not> can_access_at_index b 0 then Some (False, item, b)
            else do {
              c \<leftarrow> buffer_at b 0;
              (if c = CHR 0x22 then parse_string item b
               else if c = CHR ''-'' \<or> is_digit_char c then parse_number item b
               else if c = CHR ''['' then parse_array deeper item b
               else if c = CHR ''{'' then parse_object deeper item b
               else Some (False, item, b)) })"
        using rn(1) rf(1) rt(1) by (simp add: parse_value_with_def cong: if_cong)
      show ?thesis
      proof (cases "can_access_at_index b 0")
        case True
        then obtain c where "buffer_at b 0 = Some c" using buffer_at_ok [OF ok] by blast
        then show ?thesis
          using True fail string_parsed(1) [OF ok True f] number_parsed [OF ok f]
            array_parsed [OF assms f ok True] object_parsed [OF assms f ok True] unfolding eq by simp
      qed (use eq fail in simp)
    qed
  qed
  then show ?thesis by (simp add: value_parser_ok_def)
qed

lemma parse_value_ok: "value_parser_ok n (parse_value n)"
proof (induction n)
  case 0
  show ?case using parse_value_with_ok [of 0 None] by (simp add: deeper_ok_def)
next
  case (Suc n)
  then show ?case using parse_value_with_ok [of "Suc n" "Some (parse_value n)"] by (simp add: deeper_ok_def)
qed

section \<open>Entry points\<close>

lemma blocks_positive: "0 < node_blocks x"
  by (cases x) simp

lemma bom_ok:
  assumes "pb_ok b"
  shows "\<exists>b'. skip_utf8_bom b = Some b' \<and> advances b b' \<and> pb_live b' = pb_live b"
proof (cases "can_access_at_index b 4")
  case True
  then obtain r where "buffer_starts b [CHR 0xEF, CHR 0xBB, CHR 0xBF] = Some r"
    using mem_starts_ok [of "pb_offset b" "[CHR 0xEF, CHR 0xBB, CHR 0xBF]" "pb_content b"] assms
    by (auto simp: buffer_starts_def pb_ok_def can_access_at_index_def)
  then show ?thesis using True advances_refl [OF assms]
    by (auto simp: skip_utf8_bom_def advances_def can_access_at_index_def)
qed (use advances_refl [OF assms] in \<open>simp add: skip_utf8_bom_def\<close>)

text \<open>The parse of a buffer whose memory is there: it returns, a tree it returns is well formed within the
  nesting limit and owns all the blocks that were not freed, without a tree there is none, and the
  position it reports is inside the buffer.\<close>

lemma parse_ok:
  assumes "buffer_length \<le> length mem"
  shows "\<exists>r pos b. cJSON_ParseWithLengthOpts (Some mem) buffer_length rnt al = Some (r, pos, b)
    \<and> pos \<le> buffer_length
    \<and> (case r of None \<Rightarrow> pb_live b = 0
         | Some t \<Rightarrow> tree_wf CJSON_NESTING_LIMIT t \<and> jstring t = None \<and> pb_live b = int (node_blocks t))"
proof (cases "buffer_length = 0")
  case True
  then show ?thesis by (simp add: cJSON_ParseWithLengthOpts_def cJSON_Delete_def pb_deallocate_def)
next
  case len: False
  define b0 where "b0 = \<lparr>pb_content = mem, pb_length = buffer_length, pb_offset = 0, pb_allocs = al, pb_live = 0\<rparr>"
  have ok0: "pb_ok b0" using assms by (simp add: b0_def pb_ok_def)
  show ?thesis
  proof (cases b0 rule: new_item_cases)
    case (fail al')
    then show ?thesis using len
      by (simp add: cJSON_ParseWithLengthOpts_def cJSON_Delete_def pb_deallocate_def b0_def)
  next
    case new: (ok al')
    define b1 where "b1 = b0\<lparr>pb_allocs := al', pb_live := 1\<rparr>"
    have b1: "advances b0 b1" "pb_live b1 = 1" using advances_refl [OF ok0] by (simp_all add: b1_def advances_def)
    have ok1: "pb_ok b1" by (rule advances_ok [OF ok0 b1(1)])
    obtain b2 where b2: "skip_utf8_bom b1 = Some b2" "advances b1 b2" "pb_live b2 = 1"
      using bom_ok [OF ok1] b1(2) by auto
    have ok2: "pb_ok b2" by (rule advances_ok [OF ok1 b2(2)])
    obtain b3 where b3: "buffer_skip_whitespace b2 = Some b3" "advances b2 b3" "pb_live b3 = 1"
      using skip_advances [OF ok2] b2(3) by metis
    have adv3: "advances b0 b3" using b1(1) b2(2) b3(2) by (blast intro: advances_trans)
    have ok3: "pb_ok b3" by (rule advances_ok [OF ok0 adv3])
    have "cJSON_New_Item b0 = (Some zero_node, b1)" using new by (simp add: b1_def b0_def)
    note run = this b2(1) b3(1)
    have failed: "pb_offset b < pb_length b \<longrightarrow> pb_offset b \<le> buffer_length" "pb_length b - 1 \<le> buffer_length"
      if "advances b0 b" for b using that by (auto simp: advances_def b0_def)
    have gone: "pb_live (cJSON_Delete [x] b) = 0" if "pb_live b = int (node_blocks x)" for x b
      using that by (simp add: cJSON_Delete_def pb_deallocate_def)
    have "parsed CJSON_NESTING_LIMIT zero_node b3 (parse_value CJSON_NESTING_LIMIT zero_node b3)"
      using parse_value_ok [of CJSON_NESTING_LIMIT] ok3 by (simp add: value_parser_ok_def)
    then show ?thesis
    proof (cases rule: parsed_cases)
      case (fail b4)
      have "advances b0 b4" by (rule advances_trans [OF adv3 fail(2)])
      then show ?thesis using len run fail failed gone [of b4 zero_node] b3(3)
        by (simp add: cJSON_ParseWithLengthOpts_def flip: b0_def)
    next
      case (ok t b4)
      have adv4: "advances b0 b4" by (rule advances_trans [OF adv3 ok(2)])
      have ok4: "pb_ok b4" by (rule advances_ok [OF ok0 adv4])
      have t: "tree_wf CJSON_NESTING_LIMIT t" "jstring t = None" "pb_live b4 = int (node_blocks t)"
        using ok(4-6) b3(3) by (simp_all add: zero_node_def)
      show ?thesis
      proof (cases rnt)
        case False
        then show ?thesis using len run ok(1) t adv4
          by (simp add: cJSON_ParseWithLengthOpts_def advances_def flip: b0_def) (simp add: b0_def)
      next
        case True
        obtain b5 where b5: "buffer_skip_whitespace b4 = Some b5" "advances b4 b5" "pb_live b5 = pb_live b4"
          using skip_advances [OF ok4] by auto
        have adv5: "advances b0 b5" by (rule advances_trans [OF adv4 b5(2)])
        show ?thesis
        proof (cases "can_access_at_index b5 0")
          case acc: True
          then obtain c where c: "buffer_at b5 0 = Some c" using buffer_at_ok [OF advances_ok [OF ok0 adv5]] by blast
          then show ?thesis using len run ok(1) t adv5 b5 True acc failed [OF adv5] gone [of b5 t]
            by (auto simp: cJSON_ParseWithLengthOpts_def advances_def can_access_at_index_def simp flip: b0_def)
             
        next
          case False
          then show ?thesis using len run ok(1) t adv5 b5 True failed [OF adv5] gone [of b5 t]
            by (simp add: cJSON_ParseWithLengthOpts_def can_access_at_index_def flip: b0_def)
        qed
      qed
    qed
  qed
qed

text \<open>The parser as its clients see it: a C string in, a tree or a null pointer out, with memory at hand.\<close>

definition cJSON_tree :: "string \<Rightarrow> cJSON option" where
  "cJSON_tree s = (case cJSON_Parse (Some (s @ [NUL])) [] of None \<Rightarrow> None | Some (t, _, _) \<Rightarrow> t)"

end
