(* ===== verification/PropPlatforms.thy ===== *)
theory PropPlatforms
  imports LbsOnce PropSession JsonFacts Md5Facts
begin

text \<open>
  What holds of the service with the requests of its two platforms, \<^verbatim>\<open>cm_lbs_amap.c\<close> and
  \<^verbatim>\<open>cm_lbs_oneospos.c\<close>, in place of the parameters: the safety of every history, whole turns from the
  session to the report, what a platform does with an answer, and the one request a platform serves.
\<close>

section \<open>Every history, with the platforms\<close>

text \<open>Property C2 [reachable_safe]: start the service, and let calls of \<open>cm_lbs_init\<close>, \<open>cm_lbs_location\<close> and
  \<open>cm_lbs_deinit\<close>, turns of the task with the requests of the two platforms, and changes of the network
  happen in any order. In every state this can reach, each session owns only a block of device
  information that is allocated, the two sessions never share one, a location request returns, and
  \<open>cm_lbs_deinit\<close> returns with both sessions gone: no history without a fault frees a block twice. It
  holds whatever the JSON parser, the digest, libcurl and the variables that are never set deliver.\<close>

theorem platforms_are_safe:
  assumes "lbs_fresh w" and "lbs_reaches gcj (platform_locators gcj parse md5 ind) w w'"
  shows "amap_uid w' \<subseteq> w_live w' \<and> oneospos_uid w' \<subseteq> w_live w' \<and> amap_uid w' \<inter> oneospos_uid w' = {}
    \<and> cm_lbs_location f arg w' \<noteq> None
    \<and> (\<exists>w''. cm_lbs_deinit w' = Some w'' \<and> w_amap w'' = None \<and> w_oneospos w'' = None
         \<and> w_live w'' = w_live w' - amap_uid w' - oneospos_uid w')"
proof -
  have inv: "lbs_inv w'" by (rule reaches_inv [OF assms(2) platform_locators_keep fresh_inv [OF assms(1)]])
  then show ?thesis using deinit_ok [OF inv] location_total [OF inv, of f arg]
    by (simp add: lbs_inv_def)
qed

theorem platforms_are_safe_witness:
  "lbs_reaches (\<lambda>a b. (a, b)) (platform_locators (\<lambda>a b. (a, b)) (\<lambda>_. None) (\<lambda>_. replicate 16 NUL)
     \<lparr>url_room = 0, literal_writable = False, response_text = None\<rparr>) sample_world sample_started
   \<and> cm_lbs_location (Some ATCMD_CALLBACK) 0 sample_started \<noteq> None
   \<and> (\<exists>w''. cm_lbs_deinit sample_started = Some w'' \<and> w_amap w'' = None \<and> w_oneospos w'' = None)"
proof -
  have r: "lbs_reaches (\<lambda>a b. (a, b)) (platform_locators (\<lambda>a b. (a, b)) (\<lambda>_. None) (\<lambda>_. replicate 16 NUL)
     \<lparr>url_room = 0, literal_writable = False, response_text = None\<rparr>) sample_world sample_started"
    unfolding lbs_reaches_def using step_init [OF sample_init] by blast
  from platforms_are_safe [OF sample_fresh r] r show ?thesis by blast
qed

section \<open>A OneOS turn\<close>


text \<open>The state before the turn, and an answer, for the witness.\<close>

definition sample_oneos_session :: lbs_world where
  "sample_oneos_session = sample_world\<lparr>w_platform := 40, w_task := True,
     w_oneospos := Some \<lparr>op_pid = ''pid'' @ [NUL], op_ueinfo = None,
       op_cb_arg = Some \<lparr>cb = Some ATCMD_CALLBACK, cb_arg = 0\<rparr>, op_nearbts_enable = 0\<rparr>\<rparr>"

definition json_string :: "string \<Rightarrow> string \<Rightarrow> cJSON" where
  "json_string name s = cJSON_node [] cJSON_String (Some s) 0 (Fin 0) (Some name)"

definition json_object :: "string option \<Rightarrow> cJSON list \<Rightarrow> cJSON" where
  "json_object name members = cJSON_node members cJSON_Object None 0 (Fin 0) name"

definition oneos_json :: cJSON where
  "oneos_json = json_object None [cJSON_node [] cJSON_True None 1 (Fin 0) (Some ''success''),
     json_object (Some ''data'') [json_string ''pos'' ''39.90420000,116.40740000'']]"

text \<open>The text of that answer, which the parser of cJSON turns into it.\<close>

definition oneos_text :: string where
  "oneos_text = ''{'' @ quoted ''success'' @ '':true,'' @ quoted ''data'' @ '':{'' @ quoted ''pos'' @ '':''
     @ quoted ''39.90420000,116.40740000'' @ ''}}''"

lemma oneos_text_parsed: "cJSON_tree oneos_text = Some oneos_json"
  by code_simp

definition sample_indet :: "string \<Rightarrow> indet" where
  "sample_indet answer = \<lparr>url_room = 1100, literal_writable = True, response_text = Some answer\<rparr>"

lemma sample_oneos_inv: "lbs_inv sample_oneos_session"
  by (simp add: lbs_inv_def sample_oneos_session_def sample_world_def queue_ok_def oneospos_uid_def
      amap_uid_def)

lemma sample_oneos_env: "env_ok sample_oneos_session" "env_store sample_oneos_session = store_of sample_fs"
  using sample_store_ok by (simp_all add: env_ok_def env_store_def sample_oneos_session_def sample_world_def)

lemmas json_lookup = get_member case_insensitive_eq_def tolower_def item_string_def json_string_def
  json_object_def json_types

lemma oneos_json_answer: "oneos_answer (cJSON_tree oneos_text) ''39.90420000'' ''116.40740000''"
  unfolding oneos_text_parsed by (simp add: oneos_answer_def oneos_json_def json_lookup)

lemma sample_decimals:
  "decimals (Some ''39.90420000'') 8 = Some ''39.90420000''"
  "decimals (Some ''116.40740000'') 8 = Some ''116.40740000''"
  using assign_decimal_eight [of "''39''" "''90420000''" 8] assign_decimal_eight [of "''116''" "''40740000''" 8]
  by (auto simp: decimals_def)

lemma sample_oneos_session_facts:
  "w_curl sample_oneos_session = []" "w_oneosst sample_oneos_session = zero_oneospos_static"
  "w_oneospos sample_oneos_session = Some \<lparr>op_pid = ''pid'' @ [NUL], op_ueinfo = None,
     op_cb_arg = Some \<lparr>cb = Some ATCMD_CALLBACK, cb_arg = 0\<rparr>, op_nearbts_enable = 0\<rparr>"
  "w_urc sample_oneos_session = []" "w_task sample_oneos_session"
  by (simp_all add: sample_oneos_session_def sample_world_def)

lemma sample_oneos_settings: "oneos_settings (env_store sample_oneos_session) = (8, 1)"
  by (simp add: sample_oneos_env sample_store oneos_settings_def lbs_default_defs)

lemma sample_indet_facts: "literal_writable (sample_indet answer)" "response_text (sample_indet answer) = Some answer"
  by (simp_all add: sample_indet_def)

lemma sample_pid: "c_str (''pid'' @ [NUL]) = Some ''pid''"
  by (simp add: c_str_def)


section \<open>An AMAP turn\<close>

text \<open>Property C4 [amap_end_to_end]: a turn of the task for an AMAP session of the first version that has
  been given the callback of the AT layer, on a platform that has served no request yet, when libcurl
  and the memory allow it, the URL pointer points to enough room, and the answer is complete. The turn
  sends one request, whose URL lacks its last character; it reports exactly one line with the code 100,
  longitude, latitude, radius and, when it is configured, the description; and it ends both sessions.\<close>

theorem amap_turn_reports_position:
  assumes "lbs_inv w" and "env_ok w" and "w_curl w = []" and "w_amapst w = zero_amap_static"
    and "w_amap w = Some a" and "am_cb_arg a = Some \<lparr>cb = Some ATCMD_CALLBACK, cb_arg = n\<rparr>"
    and "am_auth a = au" and "au_platform au = CM_LBS_PLAT_AMAP10"
    and "au_apikey au = Some k" and "c_str k = Some key" and "key \<notin> set s_amap_key_filter"
    and "au_digital_sign_key au = Some d" and "c_str d = Some dkey" and "request_fits zero_amap_ueinfo au key"
    and "platform_of (env_store w) = pf" and "pf \<noteq> CM_LBS_PLAT_ONEOSPOS"
    and "amap_settings pf (env_store w) = (prec, mode)"
    and "length (amap_url md5_of zero_amap_ueinfo au key) \<le> url_room ind" and "response_text ind = Some answer"
    and "amap_answer (parse answer) lon la" and "res = v1_result lon la (cJSON_GetObjectItem (parse answer) ''result'')"
    and "am_radius res = Some radius" and "NUL \<notin> set radius" and "length radius < 256"
    and "mode \<noteq> 0 \<Longrightarrow> am_location_describe res = Some descr \<and> NUL \<notin> set descr \<and> length descr < 256"
    and "decimals (Some la) prec = Some la'" and "decimals (Some lon) prec = Some lon'"
  shows "\<exists>w'. cm_lbs_asyn_location_amap (dispatch_cb gcj) (amap_locate gcj parse md5_of ind) w = Some w'
    \<and> w_urc w' = w_urc w @ [CRLF @ ''+MLBSLOC: 100,'' @ lon' @ '','' @ la' @ '','' @ radius
        @ (if mode = 0 then [] else '','' @ quoted descr)]
    \<and> w_sent w' = w_sent w @ [butlast (amap_url md5_of zero_amap_ueinfo au key)]
    \<and> w_amap w' = None \<and> w_oneospos w' = None \<and> lbs_inv w'"
  using amap_turn [where parse = parse and ind = ind and gcj = gcj and ?md5.0 = md5_of, OF assms(1-17) length_md5_of assms(18-)]
  by (auto simp: amap_report_def success_report_def)

definition sample_auth :: cm_amap_authentication_t where
  "sample_auth = \<lparr>au_platform = 10, au_digital_sign_enable = 0, au_digital_sign_key = Some (''d'' @ [NUL]),
     au_apikey = Some (''key'' @ [NUL]), au_time_out = 10, au_show_fields_enable = 0\<rparr>"

definition sample_amap_session :: lbs_world where
  "sample_amap_session = sample_world\<lparr>env_fs := sample_amap_fs, w_platform := 10, w_task := True,
     w_amap := Some \<lparr>am_ueinfo = None, am_auth = sample_auth,
       am_cb_arg = Some \<lparr>cb = Some ATCMD_CALLBACK, cb_arg = 0\<rparr>, am_nearbts_enable = 0\<rparr>\<rparr>"

definition amap_json :: cJSON where
  "amap_json = json_object None [json_string ''status'' ''1'',
     json_object (Some ''result'') [json_string ''location'' ''116.40740000,39.90420000'',
       json_string ''radius'' ''25'', json_string ''city'' ''BJ'']]"

lemma sample_amap_inv: "lbs_inv sample_amap_session"
  by (simp add: lbs_inv_def sample_amap_session_def sample_world_def queue_ok_def oneospos_uid_def
      amap_uid_def)

lemma sample_amap_session_env:
  "env_ok sample_amap_session" "env_store sample_amap_session = env_store sample_amap_env"
  using sample_amap_store_ok
  by (simp_all add: env_ok_def env_store_def sample_amap_session_def sample_world_def sample_amap_env_def)

definition amap_text :: string where
  "amap_text = ''{'' @ quoted ''status'' @ '':'' @ quoted ''1'' @ '','' @ quoted ''result'' @ '':{'' @ quoted ''location'' @ '':''
     @ quoted ''116.40740000,39.90420000'' @ '','' @ quoted ''radius'' @ '':'' @ quoted ''25'' @ '','' @ quoted ''city''
     @ '':'' @ quoted ''BJ'' @ ''}}''"

lemma amap_text_parsed: "cJSON_tree amap_text = Some amap_json"
  by code_simp

lemma amap_json_answer: "amap_answer (cJSON_tree amap_text) ''116.40740000'' ''39.90420000''"
  unfolding amap_text_parsed by (simp add: amap_answer_def amap_json_def json_lookup v1_members_def member_ok_def)

lemma sample_amap_settings: "amap_settings CM_LBS_PLAT_AMAP10 (env_store sample_amap_env) = (8, 0)"
  by (simp add: amap_settings_def amap_slot_def env_store_def sample_amap_env_def store_of_def
      sample_amap_fs_def sample_fs_def path_defs lbs_default_defs platform_defs)

lemma zero_cell_text: "cell_text (ue_cell_info zero_amap_ueinfo) = ''&bts=0,0,,,0''"
  by (simp add: cell_text_def zero_amap_ueinfo_def zero_cell_info_def text_of_def dec_int_def
      dec_nat.simps digit_char_def)

lemma zero_v1_params:
  "v1_params zero_amap_ueinfo ''key'' = ''accesstype=0&bts=0,0,,,0&cdma=0&imei=&key=key&output=json''"
  by (simp add: v1_params_def zero_cell_text) (simp add: zero_amap_ueinfo_def text_of_def optional_param_def)

lemma sample_url:
  "amap_url md5 zero_amap_ueinfo sample_auth ''key''
    = ''http://apilocate.amap.com/position?accesstype=0&bts=0,0,,,0&cdma=0&imei=&key=key&output=json''"
  by (simp add: amap_url_def sample_auth_def zero_v1_params signed_params_def platform_defs
      CM_LBS_AMAPV1_URL_def CM_LBS_AMAPV1_PATH_def)

lemma sample_request_fits: "request_fits zero_amap_ueinfo sample_auth ''key''"
  by (simp add: request_fits_def zero_cell_text zero_v1_params sample_auth_def platform_defs can_sign_def)

lemma sample_radius: "am_radius (v1_result lon la (cJSON_GetObjectItem (cJSON_tree amap_text) ''result'')) = Some ''25''"
  unfolding amap_text_parsed by (simp add: v1_result_def amap_json_def json_lookup Let_def)

lemma sample_amap_session_facts:
  "w_curl sample_amap_session = []" "w_amapst sample_amap_session = zero_amap_static"
  "w_amap sample_amap_session = Some \<lparr>am_ueinfo = None, am_auth = sample_auth,
     am_cb_arg = Some \<lparr>cb = Some ATCMD_CALLBACK, cb_arg = 0\<rparr>, am_nearbts_enable = 0\<rparr>"
  "w_urc sample_amap_session = []" "w_sent sample_amap_session = []" "w_task sample_amap_session"
  by (simp_all add: sample_amap_session_def sample_world_def)

lemma sample_url_room:
  "length (amap_url md5 zero_amap_ueinfo sample_auth ''key'') \<le> url_room (sample_indet answer)"
  by (simp add: sample_indet_def sample_url)

lemma sample_keys:
  "au_platform sample_auth = CM_LBS_PLAT_AMAP10" "au_apikey sample_auth = Some (''key'' @ [NUL])"
  "c_str (''key'' @ [NUL]) = Some ''key''" "''key'' \<notin> set s_amap_key_filter"
  "au_digital_sign_key sample_auth = Some (''d'' @ [NUL])" "c_str (''d'' @ [NUL]) = Some ''d''"
  by (simp_all add: sample_auth_def platform_defs c_str_def s_amap_key_filter_def)

lemma sample_amap_config:
  "platform_of (env_store sample_amap_session) = CM_LBS_PLAT_AMAP10" "CM_LBS_PLAT_AMAP10 \<noteq> CM_LBS_PLAT_ONEOSPOS"
  "amap_settings CM_LBS_PLAT_AMAP10 (env_store sample_amap_session) = (8, 0)"
  by (simp_all add: sample_amap_session_env sample_amap_platform sample_amap_settings)
    (simp add: platform_defs)

theorem amap_turn_reports_position_witness:
  "\<exists>w'. cm_lbs_asyn_location_amap (dispatch_cb (\<lambda>a b. (a, b)))
       (amap_locate (\<lambda>a b. (a, b)) cJSON_tree md5_of (sample_indet amap_text))
       sample_amap_session = Some w'
     \<and> w_urc w' = [CRLF @ ''+MLBSLOC: 100,116.40740000,39.90420000,25'']
     \<and> w_sent w' = [''http://apilocate.amap.com/position?accesstype=0&bts=0,0,,,0&cdma=0&imei=&key=key&output=jso'']
     \<and> w_amap w' = None"
  using amap_turn_reports_position [where parse = cJSON_tree and gcj = "\<lambda>a b. (a, b)" and n = 0,
      OF sample_amap_inv sample_amap_session_env(1) sample_amap_session_facts(1-3) _ _ sample_keys sample_request_fits
        sample_amap_config sample_url_room sample_indet_facts(2) amap_json_answer refl sample_radius _ _ _
        sample_decimals]
    sample_amap_session_facts(4,5) by (simp add: sample_url) blast

section \<open>One location per start\<close>

text \<open>Property C5 [amap_once]: the AMAP platform serves one request between two starts of the program. Take a
  turn of the task for a platform that has kept no client, with a key that is not filtered, that
  returns; then let anything happen that the service can do. Whenever a session is there again, with a
  key that is not filtered and memory for the device information, its turn is a fault: the request is
  refused as busy, because the client of the first one was never deleted, and the refused request frees
  its device information twice.\<close>

theorem amap_serves_one_request:
  assumes "lbs_inv w" and "w_amap w = Some a" and "au_apikey (am_auth a) = Some k" and "c_str k = Some key"
    and "key \<notin> set s_amap_key_filter" and "fst (env_malloc w)" and "amap_idle (w_amapst w)"
    and "cm_lbs_asyn_location_amap (dispatch_cb gcj) (amap_locate gcj parse md5 ind) w = Some w1"
    and "lbs_reaches gcj (platform_locators gcj parse md5 ind) w1 v"
    and "w_amap v = Some b" and "au_apikey (am_auth b) = Some k'" and "c_str k' = Some key'"
    and "key' \<notin> set s_amap_key_filter" and "fst (env_malloc v)"
  shows "cm_lbs_asyn_location_amap (dispatch_cb gcj) (amap_locate gcj parse md5 ind) v = None"
proof -
  have "amap_occupied w1" by (rule amap_turn_occupies [OF assms(1-8)])
  then have o: "amap_occupied v" using reaches_persists [OF assms(9)] by (simp add: persists_def)
  have "lbs_inv w1" by (rule asyn_amap_inv [OF amap_locate_keeps assms(1,8)])
  then have "lbs_inv v" by (rule reaches_inv [OF assms(9) platform_locators_keep])
  from amap_occupied_turn [OF this o assms(10-14)] show ?thesis .
qed

text \<open>Property C6 [oneos_once]: the OneOS platform serves one request between two starts of the program: after
  a turn that returned, whatever the service does, every later turn with a session and memory for the
  device information is a fault, because the busy flag is cleared on no path of a success.\<close>

theorem oneos_serves_one_request:
  assumes "lbs_inv w" and "w_oneospos w = Some a" and "fst (env_malloc w)" and "oneos_idle (w_oneosst w)"
    and "cm_lbs_asyn_location_oneospos (dispatch_cb gcj) (oneospos_locate gcj parse ind) w = Some w1"
    and "lbs_reaches gcj (platform_locators gcj parse md5 ind) w1 v"
    and "w_oneospos v = Some b" and "fst (env_malloc v)"
  shows "cm_lbs_asyn_location_oneospos (dispatch_cb gcj) (oneospos_locate gcj parse ind) v = None"
proof -
  have "oneos_occupied w1" by (rule oneos_turn_occupies [OF assms(1-5)])
  then have o: "oneos_occupied v" using reaches_persists [OF assms(6)] by (simp add: persists_def)
  have "lbs_inv w1" by (rule asyn_oneospos_inv [OF oneospos_locate_keeps assms(1,5)])
  then have "lbs_inv v" by (rule reaches_inv [OF assms(6) platform_locators_keep])
  from oneos_occupied_turn [OF this o assms(7,8)] show ?thesis .
qed

text \<open>The second start of the service, for the witnesses.\<close>

lemma amap_started_again:
  assumes "env_allocs w = []" and "w_amap w = None" and "w_task w"
  shows "\<exists>v b. cm_lbs_init CM_LBS_PLAT_AMAP10 (Some (Amap_attr sample_amap_attr)) w = Some (0, v)
    \<and> w_amap v = Some b \<and> au_apikey (am_auth b) = Some (''key'' @ [NUL]) \<and> env_allocs v = []"
  using assms
  by (simp add: cm_lbs_init_def cm_lbs_task_create_def env_malloc_def malloc_ok_def cm_lbs_init_amap_def
      cm_lbs_copy_amap_authentication_by_attr_def sample_amap_attr_def platform_defs c_str_def strncpy_new_def
      Let_def)

lemma oneos_started_again:
  assumes "env_allocs w = []" and "w_oneospos w = None" and "w_task w"
  shows "\<exists>v b. cm_lbs_init CM_LBS_PLAT_ONEOSPOS (Some (Oneospos_attr \<lparr>oa_pid = Some (''pid'' @ [NUL]),
      oa_time_out = 10, oa_nearbts_enable = 0\<rparr>)) w = Some (0, v) \<and> w_oneospos v = Some b \<and> env_allocs v = []"
  using assms
  by (simp add: cm_lbs_init_def cm_lbs_task_create_def env_malloc_def malloc_ok_def cm_lbs_init_oneospos_def
      cm_oneospos_pid_config_def cm_oneospos_create_attr_def platform_defs c_str_def strncpy_new_def
      arr_copy_def Let_def)

lemma sample_idle: "amap_idle zero_amap_static" "oneos_idle zero_oneospos_static"
  by (simp_all add: amap_idle_def oneos_idle_def zero_amap_static_def zero_oneospos_static_def)

lemma sample_memory: "env_allocs w = [] \<Longrightarrow> fst (env_malloc w)"
  by (simp add: env_malloc_def malloc_ok_def)

lemma sample_amap_memory: "fst (env_malloc sample_amap_session)"
  by (rule sample_memory) (simp add: sample_amap_session_def sample_world_def)

lemma sample_oneos_memory: "fst (env_malloc sample_oneos_session)"
  by (rule sample_memory) (simp add: sample_oneos_session_def sample_world_def)

theorem amap_serves_one_request_witness:
  "\<exists>w1 v. cm_lbs_asyn_location_amap (dispatch_cb (\<lambda>a b. (a, b)))
       (amap_locate (\<lambda>a b. (a, b)) cJSON_tree (\<lambda>_. replicate 16 NUL) (sample_indet amap_text))
       sample_amap_session = Some w1
     \<and> cm_lbs_init CM_LBS_PLAT_AMAP10 (Some (Amap_attr sample_amap_attr)) w1 = Some (0, v)
     \<and> cm_lbs_asyn_location_amap (dispatch_cb (\<lambda>a b. (a, b)))
         (amap_locate (\<lambda>a b. (a, b)) cJSON_tree (\<lambda>_. replicate 16 NUL) (sample_indet amap_text)) v = None"
proof -
  obtain w1 where t: "cm_lbs_asyn_location_amap (dispatch_cb (\<lambda>a b. (a, b)))
       (amap_locate (\<lambda>a b. (a, b)) cJSON_tree (\<lambda>_. replicate 16 NUL) (sample_indet amap_text))
       sample_amap_session = Some w1" and w1: "w_amap w1 = None" "env_allocs w1 = []" "w_task w1"
    using amap_turn [where parse = cJSON_tree and gcj = "\<lambda>a b. (a, b)"
      and ?md5.0 = "\<lambda>_. replicate 16 NUL" and n = 0,
      OF sample_amap_inv sample_amap_session_env(1) sample_amap_session_facts(1-3) _ _ sample_keys sample_request_fits
        sample_amap_config _ sample_url_room sample_indet_facts(2) amap_json_answer refl sample_radius _ _ _
        sample_decimals] sample_amap_session_facts(6) by simp blast
  obtain v b where i: "cm_lbs_init CM_LBS_PLAT_AMAP10 (Some (Amap_attr sample_amap_attr)) w1 = Some (0, v)"
    and v: "w_amap v = Some b" "au_apikey (am_auth b) = Some (''key'' @ [NUL])" "env_allocs v = []"
    using amap_started_again [OF w1(2,1,3)] by blast
  have r: "lbs_reaches (\<lambda>a b. (a, b)) (platform_locators (\<lambda>a b. (a, b)) cJSON_tree (\<lambda>_. replicate 16 NUL)
      (sample_indet amap_text)) w1 v"
    unfolding lbs_reaches_def using step_init [OF i] by blast
  have st: "amap_idle (w_amapst sample_amap_session)" by (simp add: sample_amap_session_facts sample_idle)
  have k: "au_apikey (am_auth \<lparr>am_ueinfo = None, am_auth = sample_auth,
     am_cb_arg = Some \<lparr>cb = Some ATCMD_CALLBACK, cb_arg = 0\<rparr>, am_nearbts_enable = 0\<rparr>) = Some (''key'' @ [NUL])"
    using sample_keys(2) by simp
  from amap_serves_one_request [OF sample_amap_inv sample_amap_session_facts(3) k sample_keys(3,4)
      sample_amap_memory st t r v(1,2) sample_keys(3,4) sample_memory [OF v(3)]]
  show ?thesis using t i by blast
qed

theorem oneos_serves_one_request_witness:
  "\<exists>w1 v. cm_lbs_asyn_location_oneospos (dispatch_cb (\<lambda>a b. (a, b)))
       (oneospos_locate (\<lambda>a b. (a, b)) cJSON_tree (sample_indet oneos_text)) sample_oneos_session = Some w1
     \<and> cm_lbs_init CM_LBS_PLAT_ONEOSPOS (Some (Oneospos_attr \<lparr>oa_pid = Some (''pid'' @ [NUL]),
         oa_time_out = 10, oa_nearbts_enable = 0\<rparr>)) w1 = Some (0, v)
     \<and> cm_lbs_asyn_location_oneospos (dispatch_cb (\<lambda>a b. (a, b)))
       (oneospos_locate (\<lambda>a b. (a, b)) cJSON_tree (sample_indet oneos_text)) v = None"
proof -
  obtain w1 where t: "cm_lbs_asyn_location_oneospos (dispatch_cb (\<lambda>a b. (a, b)))
       (oneospos_locate (\<lambda>a b. (a, b)) cJSON_tree (sample_indet oneos_text)) sample_oneos_session = Some w1"
    and w1: "w_oneospos w1 = None" "env_allocs w1 = []" "w_task w1"
    using oneos_turn [where parse = cJSON_tree and gcj = "\<lambda>a b. (a, b)" and n = 0
      and pid = "''pid''", OF sample_oneos_inv sample_oneos_env(1) sample_oneos_session_facts(1-3) _ _ _ _
      sample_oneos_settings sample_indet_facts oneos_json_answer _ _ _ sample_decimals]
    sample_pid sample_oneos_session_facts(5) by (simp add: sample_oneos_env) blast
  obtain v b where i: "cm_lbs_init CM_LBS_PLAT_ONEOSPOS (Some (Oneospos_attr \<lparr>oa_pid = Some (''pid'' @ [NUL]),
      oa_time_out = 10, oa_nearbts_enable = 0\<rparr>)) w1 = Some (0, v)"
    and v: "w_oneospos v = Some b" "env_allocs v = []"
    using oneos_started_again [OF w1(2,1,3)] by blast
  have r: "lbs_reaches (\<lambda>a b. (a, b)) (platform_locators (\<lambda>a b. (a, b)) cJSON_tree (\<lambda>_. replicate 16 NUL)
      (sample_indet oneos_text)) w1 v"
    unfolding lbs_reaches_def using step_init [OF i] by blast
  have st: "oneos_idle (w_oneosst sample_oneos_session)" by (simp add: sample_oneos_session_facts sample_idle)
  from oneos_serves_one_request [OF sample_oneos_inv sample_oneos_session_facts(3) sample_oneos_memory st t r v(1)
      sample_memory [OF v(2)]]
  show ?thesis using t i by blast
qed

section \<open>Requests that fail\<close>

text \<open>Property C14 [failed_request_double_free]: on both platforms a turn whose request fails ends in a
  double free, with the requests of the two platforms and whatever makes them fail. The turn has
  allocated a block of device information, and the key of an AMAP session is not a filtered one. It is allocated when the request
  returns; whenever the callback of the service returns it is free, since the session that owns it was
  released; and the turn then frees it again.\<close>

theorem failed_request_frees_twice:
  assumes "lbs_inv w" and "new_ueinfo w = (Some i, w1)" and "e \<noteq> CM_LBS_OK"
    and "if w_platform w = CM_LBS_PLAT_ONEOSPOS
      then \<exists>a a1. w_oneospos w = Some a \<and> a1 = a\<lparr>op_ueinfo := Some i\<rparr>
        \<and> oneospos_locate gcj parse ind a1 (w1\<lparr>w_oneospos := Some a1\<rparr>) = Some (e, v)
      else w_platform w \<in> {CM_LBS_PLAT_AMAP10, CM_LBS_PLAT_AMAP20} \<and> (\<exists>a a1 k key. w_amap w = Some a
        \<and> au_apikey (am_auth a) = Some k \<and> c_str k = Some key \<and> key \<notin> set s_amap_key_filter
        \<and> a1 = a\<lparr>am_ueinfo := Some i\<rparr>
        \<and> amap_locate gcj parse md5 ind a1 (w1\<lparr>w_amap := Some a1\<rparr>) = Some (e, v))"
  shows "i \<in> w_live v
    \<and> (\<forall>ev oev rsp orsp m w3. (if w_platform w = CM_LBS_PLAT_ONEOSPOS
          then cm_lbs_oneospos_callback (dispatch_cb gcj) oev orsp m v
          else cm_lbs_amap_callback (dispatch_cb gcj) ev rsp m v) = Some w3 \<longrightarrow> free_ueinfo (Some i) w3 = None)
    \<and> cm_lbs_asyn_location (dispatch_cb gcj) (platform_locators gcj parse md5 ind) w = None"
proof (cases "w_platform w = CM_LBS_PLAT_ONEOSPOS")
  case True
  then obtain a where a: "w_oneospos w = Some a" "oneospos_locate gcj parse ind (a\<lparr>op_ueinfo := Some i\<rparr>)
      (w1\<lparr>w_oneospos := Some (a\<lparr>op_ueinfo := Some i\<rparr>)\<rparr>) = Some (e, v)"
    using assms(4) by auto
  note f = asyn_oneospos_failed [OF oneospos_locate_keeps assms(1,2) a assms(3)]
  show ?thesis using True f by (auto simp: cm_lbs_asyn_location_def platform_defs free_ueinfo_def)
next
  case False
  then obtain a k key where a: "w_amap w = Some a" "au_apikey (am_auth a) = Some k" "c_str k = Some key"
      "key \<notin> set s_amap_key_filter" "amap_locate gcj parse md5 ind (a\<lparr>am_ueinfo := Some i\<rparr>)
      (w1\<lparr>w_amap := Some (a\<lparr>am_ueinfo := Some i\<rparr>)\<rparr>) = Some (e, v)"
    and pf: "w_platform w \<in> {CM_LBS_PLAT_AMAP10, CM_LBS_PLAT_AMAP20}"
    using assms(4) by auto
  note f = asyn_amap_failed [OF amap_locate_keeps assms(1,2) a assms(3)]
  show ?thesis using False pf f by (auto simp: cm_lbs_asyn_location_def free_ueinfo_def)
qed

text \<open>Both platforms with a request that fails: for AMAP no curl handle can be created, and OneOS is busy.\<close>

definition sample_no_curl :: lbs_world where
  "sample_no_curl = sample_amap_session\<lparr>w_curl := [False, False]\<rparr>"

definition sample_busy :: lbs_world where
  "sample_busy = sample_oneos_session\<lparr>w_oneosst := zero_oneospos_static\<lparr>s_oneospos_busy := True\<rparr>\<rparr>"

lemma sample_failing_inv: "lbs_inv sample_no_curl" "lbs_inv sample_busy"
  by (simp_all add: sample_no_curl_def sample_amap_session_def sample_busy_def sample_oneos_session_def
      sample_world_def inv_defs)

definition failing_amap :: "(cm_lbs_state_e \<times> lbs_world) option" where
  "failing_amap = (case new_ueinfo sample_no_curl of (u, w1) \<Rightarrow> do {
     a \<leftarrow> w_amap sample_no_curl;
     let a1 = a\<lparr>am_ueinfo := u\<rparr>;
     amap_locate (\<lambda>a b. (a, b)) cJSON_tree (\<lambda>_. replicate 16 NUL) (sample_indet amap_text) a1 (w1\<lparr>w_amap := Some a1\<rparr>) })"

lemma failing_amap_fails: "map_option fst failing_amap = Some CM_LBS_ERR"
  by code_simp

theorem failed_request_frees_twice_witness:
  "cm_lbs_asyn_location (dispatch_cb (\<lambda>a b. (a, b))) (platform_locators (\<lambda>a b. (a, b)) cJSON_tree
     (\<lambda>_. replicate 16 NUL) (sample_indet amap_text)) sample_no_curl = None
   \<and> cm_lbs_asyn_location (dispatch_cb (\<lambda>a b. (a, b))) (platform_locators (\<lambda>a b. (a, b)) cJSON_tree
     (\<lambda>_. replicate 16 NUL) (sample_indet oneos_text)) sample_busy = None"
proof
  obtain w1 where n: "new_ueinfo sample_no_curl = (Some 1, w1)"
    by (simp add: new_ueinfo_def sample_no_curl_def sample_amap_session_def sample_world_def env_malloc_def malloc_ok_def)
  obtain a where a: "w_amap sample_no_curl = Some a" "au_apikey (am_auth a) = Some (''key'' @ [NUL])"
    "w_platform sample_no_curl = CM_LBS_PLAT_AMAP10"
    by (simp add: sample_no_curl_def sample_amap_session_def sample_auth_def platform_defs)
  define a1 where "a1 = a\<lparr>am_ueinfo := Some 1\<rparr>"
  obtain v where v: "amap_locate (\<lambda>a b. (a, b)) cJSON_tree (\<lambda>_. replicate 16 NUL) (sample_indet amap_text) a1
      (w1\<lparr>w_amap := Some a1\<rparr>) = Some (CM_LBS_ERR, v)"
    using failing_amap_fails by (auto simp: failing_amap_def n a(1) a1_def Let_def)
  show "cm_lbs_asyn_location (dispatch_cb (\<lambda>a b. (a, b))) (platform_locators (\<lambda>a b. (a, b)) cJSON_tree
     (\<lambda>_. replicate 16 NUL) (sample_indet amap_text)) sample_no_curl = None"
    using failed_request_frees_twice [OF sample_failing_inv(1) n, of CM_LBS_ERR "\<lambda>a b. (a, b)" cJSON_tree
        "sample_indet amap_text" v "\<lambda>_. replicate 16 NUL"] a v sample_keys(3,4)
    by (auto simp: platform_defs a1_def)
next
  obtain w1 where n: "new_ueinfo sample_busy = (Some 1, w1)" "s_oneospos_busy (w_oneosst w1)"
    by (simp add: new_ueinfo_def sample_busy_def sample_oneos_session_def sample_world_def env_malloc_def malloc_ok_def)
  obtain a where a: "w_oneospos sample_busy = Some a" "w_platform sample_busy = CM_LBS_PLAT_ONEOSPOS"
    by (simp add: sample_busy_def sample_oneos_session_def platform_defs)
  define a1 where "a1 = a\<lparr>op_ueinfo := Some 1\<rparr>"
  have "oneospos_locate (\<lambda>a b. (a, b)) cJSON_tree (sample_indet oneos_text) a1 (w1\<lparr>w_oneospos := Some a1\<rparr>)
      = Some (CM_LBS_BUSY, w1\<lparr>w_oneospos := Some a1\<rparr>)"
    by (simp add: oneospos_locate_def cm_oneospos_location_def n(2) a1_def)
  then show "cm_lbs_asyn_location (dispatch_cb (\<lambda>a b. (a, b))) (platform_locators (\<lambda>a b. (a, b)) cJSON_tree
     (\<lambda>_. replicate 16 NUL) (sample_indet oneos_text)) sample_busy = None"
    using failed_request_frees_twice [OF sample_failing_inv(2) n(1), of CM_LBS_BUSY "\<lambda>a b. (a, b)" cJSON_tree
        "sample_indet oneos_text" "w1\<lparr>w_oneospos := Some a1\<rparr>" "\<lambda>_. replicate 16 NUL"] a
    by (auto simp: a1_def)
qed

section \<open>Answers\<close>

text \<open>Property C20 [v1_coordinates]: when the parser of the first AMAP version reports a success, the result
  holds a longitude and a latitude, both of 1 to 255 characters and the longitude without a comma,
  whatever the text of the answer and whatever the parser and the memory make of it.\<close>

theorem v1_success_has_coordinates:
  assumes "amapv1_parse parse rsp param w = Some (AMAP_LOCATION_SUCCEED, r, w')"
  shows "\<exists>lon la. am_longitude r = Some lon \<and> am_latitude r = Some la \<and> length lon \<in> {1..255}
    \<and> length la \<in> {1..255} \<and> CHR '','' \<notin> set lon"
  using v1_success_coordinates [OF assms]
  by (auto simp: has_coordinates_def Suc_le_eq less_Suc_eq_le split: option.splits)

theorem v1_success_has_coordinates_witness:
  "\<exists>r w'. amapv1_parse cJSON_tree zero_amap_rsp amap_text sample_amap_session
       = Some (AMAP_LOCATION_SUCCEED, r, w')
     \<and> (\<exists>lon la. am_longitude r = Some lon \<and> am_latitude r = Some la \<and> length lon \<in> {1..255} \<and> length la \<in> {1..255})"
proof -
  have m: "env_allocs sample_amap_session = []" by (simp add: sample_amap_session_def sample_world_def)
  have "cm_lbs_amap_http_location_parse cJSON_tree CM_LBS_PLAT_AMAP10 (Some zero_amap_rsp) amap_text
      sample_amap_session = Some (AMAP_LOCATION_SUCCEED, Some (v1_result ''116.40740000'' ''39.90420000''
        (cJSON_GetObjectItem (cJSON_tree amap_text) ''result'')), sample_amap_session)"
    by (rule amap_answer_parsed [where parse = cJSON_tree, OF amap_json_answer m])
  then obtain r where "amapv1_parse cJSON_tree zero_amap_rsp amap_text sample_amap_session
      = Some (AMAP_LOCATION_SUCCEED, r, sample_amap_session)"
    by (auto simp: cm_lbs_amap_http_location_parse_def split: bind_splits)
  with v1_success_has_coordinates [OF this] show ?thesis by blast
qed

text \<open>The second AMAP version reports a success for an answer that says \<open>OK\<close>
  and has no position: the result is the one passed in, without coordinates.\<close>

theorem v2_succeeds_without_position:
  assumes "parse param = Some j" and "item_string (cJSON_GetObjectItem (Some j) ''info'') = Some ''OK''"
    and "cJSON_GetObjectItem (Some j) ''position'' = None"
  shows "amapv2_parse parse zero_amap_rsp param w = Some (AMAP_LOCATION_SUCCEED, zero_amap_rsp, w)
    \<and> am_longitude zero_amap_rsp = None \<and> am_latitude zero_amap_rsp = None"
  using v2_success_without_position [where parse = parse, OF assms] by (simp add: zero_amap_rsp_def)

theorem v2_succeeds_without_position_witness:
  "amapv2_parse (\<lambda>_. Some (json_object None [json_string ''info'' ''OK''])) zero_amap_rsp ''answer'' sample_world
     = Some (AMAP_LOCATION_SUCCEED, zero_amap_rsp, sample_world)"
  using v2_succeeds_without_position [where parse = "\<lambda>_. Some (json_object None [json_string ''info'' ''OK''])"]
  by (simp add: json_lookup)

text \<open>Property C21 [oneos_position]: the position of a OneOS answer is taken apart at its comma, with 24 bytes
  on the stack for each half: two halves of up to 23 characters give the latitude and the longitude as
  they are, and a longer half is a write or a read past its array.\<close>

theorem oneos_position_needs_room:
  assumes "env_allocs w = []" and "CHR '','' \<notin> set la" and "NUL \<notin> set la" "NUL \<notin> set lon"
    and "la \<noteq> []" "lon \<noteq> []"
  shows "oneospos_put_location (Some (la @ CHR '','' # lon)) rsp w
    = (if length la < 24 \<and> length lon < 24
       then Some (CM_ONEOSPOS_EVENT_SUCCESS, rsp\<lparr>op_latitude := Some la, op_longitude := Some lon\<rparr>, w)
       else None)"
  by (rule oneos_position [OF assms])

theorem oneos_position_needs_room_witness:
  "oneospos_put_location (Some ''39.9042,116.4074'') zero_oneospos_rsp sample_world
     = Some (CM_ONEOSPOS_EVENT_SUCCESS,
         zero_oneospos_rsp\<lparr>op_latitude := Some ''39.9042'', op_longitude := Some ''116.4074''\<rparr>, sample_world)
   \<and> oneospos_put_location (Some ''39.90420000000000000000000,116'') zero_oneospos_rsp sample_world = None"
  using oneos_position_needs_room [of sample_world "''39.9042''" "''116.4074''"]
    oneos_position_needs_room [of sample_world "''39.90420000000000000000000''" "''116''"]
  by (simp add: sample_world_def)

section \<open>Requests\<close>

text \<open>Property C18 [amap_path]: the path of an AMAP request. When the device information is terminated and
  the texts fit, the path behind the host is exactly the parameters of the version in alphabetical
  order, followed, when signing is on, by \<open>&sig=\<close> and the lower-case digest of the parameters and the
  signature key.\<close>

theorem amap_path_is_signed_parameters:
  assumes "env_allocs w = []" and "ue_wf ue" and "request_fits ue au key"
    and "au_apikey au = Some k" "c_str k = Some key"
  shows "\<exists>path. amap_create_requst_HttpPath md5_of [] ue au w = Some ((int (length path), path), w)
    \<and> path = (if au_platform au = CM_LBS_PLAT_AMAP10
        then CM_LBS_AMAPV1_PATH @ signed_params md5_of au (v1_params ue key)
        else CM_LBS_AMAPV2_PATH @ signed_params md5_of au (v2_params ue (au_show_fields_enable au) key))"
proof -
  obtain path where p: "amap_create_requst_HttpPath md5_of [] ue au w = Some ((int (length path), path), w)"
    and u: "(if au_platform au = CM_LBS_PLAT_AMAP10 then CM_LBS_AMAPV1_URL else CM_LBS_AMAPV2_URL) @ path
      = amap_url md5_of ue au key"
    by (rule path_ok [where ?md5.0 = md5_of, OF assms length_md5_of])
  then show ?thesis by (auto simp: amap_url_def split: if_splits)
qed

theorem amap_path_is_signed_parameters_witness:
  "\<exists>n. amap_create_requst_HttpPath md5_of [] zero_amap_ueinfo sample_auth sample_world
     = Some ((n, ''/position?accesstype=0&bts=0,0,,,0&cdma=0&imei=&key=key&output=json''), sample_world)"
  using amap_path_is_signed_parameters [where w = sample_world,
      OF _ zero_ue(1) sample_request_fits sample_keys(2,3)]
  by (simp add: sample_world_def zero_v1_params sample_keys(1) CM_LBS_AMAPV1_PATH_def)
    (simp add: signed_params_def sample_auth_def)

text \<open>The body of a OneOS request is a JSON object with the product id, the cells
  and the batch id; it has 1024 bytes, and a longer text is a write past them: nothing checks the
  length on the way.\<close>

theorem oneos_body_needs_room:
  assumes "env_allocs w = []" and "oneos_ue_wf ue" and "c_str pid = Some p"
    and "length (oneos_cells ue) < 512"
  shows "oneospos_create_http_content (Some ue) pid [] w
    = (if length (oneos_body p ue) < 1024
       then Some ((of_nat (length (oneos_body p ue)), oneos_body p ue), w) else None)"
  by (rule oneos_body_ok [OF assms])

theorem oneos_body_needs_room_witness:
  "\<exists>n b. oneospos_create_http_content (Some zero_oneospos_ueinfo) (''pid'' @ [NUL]) [] sample_world
     = Some ((n, b), sample_world) \<and> b = oneos_body ''pid'' zero_oneospos_ueinfo"
  using oneos_body_needs_room [OF _ zero_oneos_ue_wf sample_pid, of sample_world] zero_body_length [of "''pid''"]
  by (simp add: sample_world_def zero_cells)

text \<open>Property C17 [oneos_outcome]: a request to an idle OneOS platform that returns at all has succeeded, and
  the platform stays busy, or found no device information or no memory, and the platform is idle again.
  No failure of the transfer is ever returned to the service: on that path the content of the request
  is freed twice.\<close>

theorem oneos_request_outcome:
  assumes "oneos_idle (w_oneosst w)"
    and "cm_oneospos_location parse ind (cm_lbs_oneospos_callback (dispatch_cb gcj)) ue attr w = Some (ret, w')"
  shows "if ret = CM_LBS_OK then s_oneospos_busy (w_oneosst w')
    else (ret = CM_LBS_PARAMERR \<or> ret = CM_LBS_MEMROYERR) \<and> oneos_idle (w_oneosst w')"
  by (rule oneos_location_life [OF assms(2) service_oneos_callback_keeps assms(1)])

theorem oneos_request_outcome_witness:
  "\<exists>ret w'. cm_oneospos_location (\<lambda>_. None) (sample_indet []) (cm_lbs_oneospos_callback (dispatch_cb (\<lambda>a b. (a, b))))
      (Some zero_oneospos_ueinfo) \<lparr>op_pid = ''pid'' @ [NUL], op_ueinfo = None, op_cb_arg = None,
        op_nearbts_enable = 0\<rparr> (sample_world\<lparr>env_allocs := [False]\<rparr>) = Some (ret, w')
    \<and> ret \<noteq> CM_LBS_OK \<and> oneos_idle (w_oneosst w')"
proof -
  have i: "oneos_idle (w_oneosst (sample_world\<lparr>env_allocs := [False]\<rparr>))" by (simp add: sample_world_def sample_idle)
  have "\<exists>w'. cm_oneospos_location (\<lambda>_. None) (sample_indet []) (cm_lbs_oneospos_callback (dispatch_cb (\<lambda>a b. (a, b))))
      (Some zero_oneospos_ueinfo) \<lparr>op_pid = ''pid'' @ [NUL], op_ueinfo = None, op_cb_arg = None,
        op_nearbts_enable = 0\<rparr> (sample_world\<lparr>env_allocs := [False]\<rparr>) = Some (CM_LBS_MEMROYERR, w')"
    by (simp add: cm_oneospos_location_def sample_world_def zero_oneospos_static_def Let_def set_oneos_def
      oneospos_ueinfo_compare_def oneospos_return_last_location_def oneospos_fresh_location_def
      cm_oneospos_create_attr_def new_ueinfo_def env_malloc_def malloc_ok_def)
  then show ?thesis using oneos_request_outcome [OF i] by fastforce
qed

end
