(* ===== verification/JsonUtf8.thy ===== *)
theory JsonUtf8
  imports JsonStringFacts
begin

text \<open>
  The UTF-16 literals of cJSON against the definition of UTF-8 by arithmetic: the loops over shifted
  words deliver exactly the bytes of the code point.
\<close>

section \<open>UTF-8\<close>

definition utf8_of :: "nat \<Rightarrow> nat list" where
  "utf8_of n =
     (if n < 128 then [n]
      else if n < 2048 then [192 + n div 64, 128 + n mod 64]
      else if n < 65536 then [224 + n div 4096, 128 + n div 64 mod 64, 128 + n mod 64]
      else [240 + n div 262144, 128 + n div 4096 mod 64, 128 + n div 64 mod 64, 128 + n mod 64])"

lemma continuation_byte: "unat ((cp OR 0x80) AND 0xBF :: 64 word) = 128 + unat cp mod 64"
proof -
  have "((n :: nat) OR 128) AND (128 OR mask 6) = 128 OR take_bit 6 n" for n
    by (rule bit_eqI) (auto simp: bit_simps)
  moreover have "(128 :: nat) OR mask 6 = 191" by (simp add: mask_eq_exp_minus_1)
  ultimately have "((n :: nat) OR 128) AND 191 = 128 OR take_bit 6 n" for n by metis
  moreover have "(128 :: nat) OR take_bit 6 n = 128 + take_bit 6 n" for n
  proof (rule disjunctive_add [symmetric])
    fix i show "\<not> bit (128 :: nat) i \<or> \<not> bit (take_bit 6 n) i"
      using bit_exp_iff [where 'a = nat, of 7 i] by (auto simp: bit_take_bit_iff)
  qed
  ultimately show ?thesis by (simp add: unsigned_or_eq unsigned_and_eq take_bit_eq_mod)
qed

lemma or_small:
  assumes "(n :: nat) < 2 ^ k" and "m mod 2 ^ k = 0"
  shows "n OR m = n + m"
proof -
  have n: "take_bit k n = n" using assms(1) by (simp add: take_bit_nat_eq_self)
  have m: "take_bit k m = 0" using assms(2) by (simp add: take_bit_eq_mod)
  show ?thesis
  proof (rule disjunctive_add [symmetric])
    fix i
    have "bit n i \<Longrightarrow> i < k" using n by (metis bit_take_bit_iff)
    moreover have "\<not> (i < k \<and> bit m i)" using m by (metis bit_take_bit_iff bit_0_eq bot_apply bot_bool_def)
    ultimately show "\<not> bit n i \<or> \<not> bit m i" by blast
  qed
qed

lemma leading_byte:
  assumes "unat (cp :: 64 word) < 2 ^ k" and "unat mark mod 2 ^ k = 0" and "unat cp + unat mark < 256"
  shows "unat ((cp OR mark) AND 0xFF) = unat cp + unat mark"
proof -
  have "unat ((cp OR mark) AND 0xFF) = take_bit 8 (unat cp OR unat mark)"
    by (simp add: unsigned_or_eq unsigned_and_eq take_bit_eq_mask mask_eq_exp_minus_1)
  then show ?thesis using or_small [OF assms(1,2)] assms(3) by (simp add: take_bit_nat_eq_self)
qed

lemma unat_shift6: "unat (drop_bit 6 (cp :: 64 word)) = unat cp div 64"
  by (simp add: drop_bit_eq_div unat_div)

lemma low_byte: "unat (cp :: 64 word) < 128 \<Longrightarrow> unat (cp AND 0x7F) = unat cp"
  using take_bit_nat_eq_self [of "unat cp" 7] by (simp add: unsigned_and_eq take_bit_eq_mask mask_eq_exp_minus_1)

definition tail_byte :: "64 word \<Rightarrow> char" where
  "tail_byte cp = char_of (unat ((cp OR 0x80) AND 0xBF))"

lemma encode_unfold:
  "utf8_encode 1 m cp = [char_of (unat (cp AND 0x7F))]"
  "utf8_encode 2 m cp = [char_of (unat ((drop_bit 6 cp OR m) AND 0xFF)), tail_byte cp]"
  "utf8_encode 3 m cp = [char_of (unat ((drop_bit 6 (drop_bit 6 cp) OR m) AND 0xFF)),
     tail_byte (drop_bit 6 cp), tail_byte cp]"
  "utf8_encode 4 m cp = [char_of (unat ((drop_bit 6 (drop_bit 6 (drop_bit 6 cp)) OR m) AND 0xFF)),
     tail_byte (drop_bit 6 (drop_bit 6 cp)), tail_byte (drop_bit 6 cp), tail_byte cp]"
  by (simp_all add: utf8_encode_def tail_byte_def numeral_2_eq_2 numeral_3_eq_3 del: drop_bit_drop_bit)

lemma tail_byte: "tail_byte cp = char_of (128 + unat cp mod 64)"
  by (simp only: tail_byte_def continuation_byte)

lemma codepoint_bytes_utf8:
  assumes "unat cp \<le> 0x10FFFF"
  shows "codepoint_bytes cp = Some (map char_of (utf8_of (unat cp)))"
proof -
  have lt: "(cp < 0x80) = (unat cp < 128)" "(cp < 0x800) = (unat cp < 2048)" "(cp < 0x10000) = (unat cp < 65536)"
    "cp \<le> 0x10FFFF" using assms by (simp_all add: word_less_nat_alt word_le_nat_alt)
  have m: "unat (0xC0 :: 64 word) = 192" "unat (0xE0 :: 64 word) = 224" "unat (0xF0 :: 64 word) = 240" by simp_all
  have d: "unat cp div 64 div 64 = unat cp div 4096" "unat cp div 4096 div 64 = unat cp div 262144"
    by (simp_all add: div_mult2_eq [symmetric])
  note shifts = unat_shift6 d
  consider "unat cp < 128" | "128 \<le> unat cp" "unat cp < 2048" | "2048 \<le> unat cp" "unat cp < 65536"
    | "65536 \<le> unat cp" by linarith
  then show ?thesis
  proof cases
    case 1
    then show ?thesis using low_byte [OF 1] by (simp only: codepoint_bytes_def lt encode_unfold utf8_of_def list.map if_True)
  next
    case 2
    have "unat ((drop_bit 6 cp OR 0xC0) AND 0xFF) = unat (drop_bit 6 cp) + unat (0xC0 :: 64 word)"
      by (rule leading_byte [where k = 5]) (use 2 in \<open>simp_all only: m shifts, simp_all\<close>)
    then have "unat ((drop_bit 6 cp OR 0xC0) AND 0xFF) = 192 + unat cp div 64" by (simp only: m shifts add.commute)
    then show ?thesis using 2 by (simp add: codepoint_bytes_def lt encode_unfold(2) utf8_of_def tail_byte)
  next
    case 3
    have "unat ((drop_bit 6 (drop_bit 6 cp) OR 0xE0) AND 0xFF) = unat (drop_bit 6 (drop_bit 6 cp)) + unat (0xE0 :: 64 word)"
      by (rule leading_byte [where k = 4]) (use 3 in \<open>simp_all only: m shifts, simp_all\<close>)
    then have "unat ((drop_bit 6 (drop_bit 6 cp) OR 0xE0) AND 0xFF) = 224 + unat cp div 4096" by (simp only: m shifts add.commute)
    then show ?thesis using 3
      by (simp add: codepoint_bytes_def lt encode_unfold(3) utf8_of_def tail_byte shifts del: drop_bit_drop_bit)
  next
    case 4
    have "unat ((drop_bit 6 (drop_bit 6 (drop_bit 6 cp)) OR 0xF0) AND 0xFF)
        = unat (drop_bit 6 (drop_bit 6 (drop_bit 6 cp))) + unat (0xF0 :: 64 word)"
      by (rule leading_byte [where k = 3]) (use assms in \<open>simp_all only: m shifts, simp_all\<close>)
    then have "unat ((drop_bit 6 (drop_bit 6 (drop_bit 6 cp)) OR 0xF0) AND 0xFF) = 240 + unat cp div 262144"
      by (simp only: m shifts add.commute)
    then show ?thesis using 4 lt(4)
      by (simp add: codepoint_bytes_def lt encode_unfold(4) utf8_of_def tail_byte shifts del: drop_bit_drop_bit)
  qed
qed

section \<open>Literals\<close>

lemma mask10: "unat ((c :: u32) AND 0x3FF) = unat c mod 1024"
  using take_bit_eq_mask [of 10 "unat c"]
  by (simp add: unsigned_and_eq take_bit_eq_mod mask_eq_exp_minus_1)

lemma pair_codepoint:
  assumes "0xD800 \<le> hi" "hi \<le> 0xDBFF" and "0xDC00 \<le> lo" "lo \<le> 0xDFFF"
  shows "unat (ucast (0x10000 + (push_bit 10 ((hi :: u32) AND 0x3FF) OR (lo AND 0x3FF))) :: 64 word)
    = 0x10000 + (unat hi - 0xD800) * 1024 + (unat lo - 0xDC00)"
proof -
  have b: "0xD800 \<le> unat hi" "unat hi \<le> 0xDBFF" "0xDC00 \<le> unat lo" "unat lo \<le> 0xDFFF"
    using assms by (simp_all add: word_le_nat_alt)
  have sub: "n mod 1024 = n - m * 1024" if "m * 1024 \<le> n" "n < (m + 1) * 1024" for n m :: nat
  proof -
    have "n = (n - m * 1024) + m * 1024" using that(1) by simp
    then have "n mod 1024 = (n - m * 1024) mod 1024" by (metis mod_mult_self1)
    then show ?thesis using that by simp
  qed
  have h: "unat hi mod 1024 = unat hi - 0xD800" and l: "unat lo mod 1024 = unat lo - 0xDC00"
    using sub [of 54 "unat hi"] sub [of 55 "unat lo"] b by simp_all
  have p: "unat (push_bit 10 (hi AND 0x3FF)) = (unat hi - 0xD800) * 1024"
    using b h by (simp add: push_bit_eq_mult unat_word_ariths mask10)
  have "unat (push_bit 10 (hi AND 0x3FF) OR (lo AND 0x3FF)) = (unat lo - 0xDC00) OR (unat hi - 0xD800) * 1024"
    using p l by (simp add: unsigned_or_eq mask10 or.commute)
  also have "\<dots> = (unat lo - 0xDC00) + (unat hi - 0xD800) * 1024"
    by (rule or_small [where k = 10]) (use b in simp_all)
  finally have "unat (push_bit 10 (hi AND 0x3FF) OR (lo AND 0x3FF)) = (unat lo - 0xDC00) + (unat hi - 0xD800) * 1024" .
  then show ?thesis using b by (simp add: unsigned_ucast_eq unat_word_ariths take_bit_nat_eq_self)
qed

lemma literal_single:
  assumes "p + 6 \<le> e" and "parse_hex4 mem (p + 2) = Some c" and "unat c < 65536" and "\<not> (0xD800 \<le> c \<and> c \<le> 0xDFFF)"
  shows "utf16_literal_to_utf8 mem p e = Some (6, map char_of (utf8_of (unat c)))"
proof -
  have "unat (ucast c :: 64 word) = unat c" using assms(3) by (simp add: unsigned_ucast_eq take_bit_nat_eq_self)
  then have "codepoint_bytes (ucast c) = Some (map char_of (utf8_of (unat c)))"
    using codepoint_bytes_utf8 [of "ucast c"] assms(3) by simp
  moreover have "\<not> (0xDC00 \<le> c \<and> c \<le> 0xDFFF)" "\<not> (0xD800 \<le> c \<and> c \<le> 0xDBFF)"
    using assms(4) by (auto simp: word_le_nat_alt)
  ultimately show ?thesis using assms(1,2) by (auto simp: utf16_literal_to_utf8_def)
qed

lemma literal_pair:
  assumes "p + 12 \<le> e" and "e \<le> length mem" and "parse_hex4 mem (p + 2) = Some hi" and "0xD800 \<le> hi" "hi \<le> 0xDBFF"
    and "mem ! (p + 6) = CHR 0x5C" "mem ! (p + 7) = CHR ''u''"
    and "parse_hex4 mem (p + 8) = Some lo" and "0xDC00 \<le> lo" "lo \<le> 0xDFFF"
  shows "utf16_literal_to_utf8 mem p e
    = Some (12, map char_of (utf8_of (0x10000 + (unat hi - 0xD800) * 1024 + (unat lo - 0xDC00))))"
proof -
  note cp = pair_codepoint [OF assms(4,5,9,10)]
  have b: "unat hi \<le> 0xDBFF" "unat lo \<le> 0xDFFF" using assms(5,10) by (simp_all add: word_le_nat_alt)
  then have "codepoint_bytes (ucast (0x10000 + (push_bit 10 (hi AND 0x3FF) OR (lo AND 0x3FF))))
      = Some (map char_of (utf8_of (0x10000 + (unat hi - 0xD800) * 1024 + (unat lo - 0xDC00))))"
    using codepoint_bytes_utf8 [of "ucast (0x10000 + (push_bit 10 (hi AND 0x3FF) OR (lo AND 0x3FF)))", unfolded cp] by simp
  moreover have "mem_at mem (p + 6) = Some (CHR 0x5C)" "mem_at mem (p + 7) = Some (CHR ''u'')"
    using assms(1,2,6,7) by (simp_all add: mem_at_def)
  moreover have "\<not> (0xDC00 \<le> hi \<and> hi \<le> 0xDFFF)" "\<not> (lo < 0xDC00 \<or> lo > 0xDFFF)"
    using assms(5,9,10) by (auto simp: word_le_nat_alt word_less_nat_alt)
  ultimately show ?thesis using assms(1,3,4,5,8) by (auto simp: utf16_literal_to_utf8_def)
qed

section \<open>The value of four hexadecimal digits\<close>

definition hex_digit_of :: "char \<Rightarrow> nat option" where
  "hex_digit_of c = map_of (zip ''0123456789abcdefABCDEF'' ([0..<16] @ [10..<16])) c"

text \<open>The number that a text of digits stands for, the first digit being the highest. A text with another
  character counts as zero.\<close>

definition code_unit :: "string \<Rightarrow> nat" where
  "code_unit ds = (if \<forall>c \<in> set ds. hex_digit_of c \<noteq> None
     then foldl (\<lambda>n c. 16 * n + the (hex_digit_of c)) 0 ds else 0)"

lemma hex_digits_agree: "list_all (\<lambda>c. hex_digit_value c = map_option of_nat (hex_digit_of c)
    \<and> (case hex_digit_of c of None \<Rightarrow> True | Some d \<Rightarrow> d < 16)) Enum.enum"
  by code_simp

lemma hex_digit_value_of:
  "hex_digit_value c = map_option of_nat (hex_digit_of c)" "hex_digit_of c = Some d \<Longrightarrow> d < 16"
proof -
  have "c \<in> set Enum.enum" unfolding enum_UNIV by (rule UNIV_I)
  then have "hex_digit_value c = map_option of_nat (hex_digit_of c)
      \<and> (case hex_digit_of c of None \<Rightarrow> True | Some d \<Rightarrow> d < 16)"
    using hex_digits_agree unfolding list_all_iff by blast
  then show "hex_digit_value c = map_option of_nat (hex_digit_of c)" "hex_digit_of c = Some d \<Longrightarrow> d < 16"
    by simp_all
qed

lemma shift_nibble: "push_bit 4 (of_nat n :: u32) = of_nat (16 * n)"
  by (simp add: push_bit_eq_mult)

lemma parse_hex4_value:
  assumes "p + 4 \<le> length mem"
  shows "parse_hex4 mem p = Some (of_nat (code_unit (take 4 (drop p mem))))"
    and "code_unit (take 4 (drop p mem)) < 65536"
proof -
  obtain c0 c1 c2 c3 where c: "c0 = mem ! p" "c1 = mem ! (p + 1)" "c2 = mem ! (p + 2)" "c3 = mem ! (p + 3)" by blast
  have t: "take 4 (drop p mem) = [c0, c1, c2, c3]"
    using assms by (intro nth_equalityI) (auto simp: c less_Suc_eq numeral_eq_Suc)
  have m: "mem_at mem p = Some c0" "mem_at mem (Suc p) = Some c1" "mem_at mem (Suc (Suc p)) = Some c2"
    "mem_at mem (Suc (Suc (Suc p))) = Some c3"
    using assms by (simp_all add: mem_at_def c add.commute numeral_eq_Suc)
  have four: "(4 :: nat) = Suc (Suc (Suc (Suc 0)))" by simp
  have "parse_hex4 mem p = Some (of_nat (code_unit [c0, c1, c2, c3])) \<and> code_unit [c0, c1, c2, c3] < 65536"
  proof (cases "\<exists>c \<in> {c0, c1, c2, c3}. hex_digit_of c = None")
    case True
    then show ?thesis
      unfolding parse_hex4_def four
      by (auto simp: m hex_digit_value_of(1) code_unit_def split: option.splits)
  next
    case False
    then obtain d0 d1 d2 d3 where d: "hex_digit_of c0 = Some d0" "hex_digit_of c1 = Some d1"
      "hex_digit_of c2 = Some d2" "hex_digit_of c3 = Some d3" by auto
    have v: "code_unit [c0, c1, c2, c3] = 16 * (16 * (16 * d0 + d1) + d2) + d3"
      by (simp add: code_unit_def d)
    have "parse_hex4 mem p = Some (of_nat (16 * (16 * (16 * d0 + d1) + d2) + d3))"
      unfolding parse_hex4_def four
      by (simp add: m hex_digit_value_of(1) d shift_nibble del: of_nat_add of_nat_mult add: of_nat_add [symmetric])
    then show ?thesis using d [THEN hex_digit_value_of(2)] by (simp add: v)
  qed
  then show "parse_hex4 mem p = Some (of_nat (code_unit (take 4 (drop p mem))))"
    "code_unit (take 4 (drop p mem)) < 65536" by (simp_all add: t)
qed

text \<open>What a literal at \<open>p\<close> stands for: its length and its code point, or nothing.\<close>

definition literal_of :: "string \<Rightarrow> nat \<Rightarrow> nat \<Rightarrow> (nat \<times> nat) option" where
  "literal_of mem p e = (let hi = code_unit (take 4 (drop (p + 2) mem)); lo = code_unit (take 4 (drop (p + 8) mem)) in
     if e < p + 6 then None
     else if hi < 0xD800 \<or> 0xDFFF < hi then Some (6, hi)
     else if hi < 0xDC00 \<and> p + 12 \<le> e \<and> mem ! (p + 6) = CHR 0x5C \<and> mem ! (p + 7) = CHR ''u''
         \<and> 0xDC00 \<le> lo \<and> lo \<le> 0xDFFF
     then Some (12, 0x10000 + (hi - 0xD800) * 1024 + (lo - 0xDC00))
     else None)"

lemma literal_to_utf8:
  assumes "e \<le> length mem"
  shows "utf16_literal_to_utf8 mem p e = Some (case literal_of mem p e of
      None \<Rightarrow> (0, []) | Some (n, cp) \<Rightarrow> (n, map char_of (utf8_of cp)))"
proof (cases "e < p + 6")
  case True
  then show ?thesis by (simp add: literal_of_def utf16_literal_to_utf8_def)
next
  case six: False
  define h where "h = code_unit (take 4 (drop (p + 2) mem))"
  define l where "l = code_unit (take 4 (drop (p + 8) mem))"
  have lit: "literal_of mem p e = (if e < p + 6 then None
     else if h < 0xD800 \<or> 0xDFFF < h then Some (6, h)
     else if h < 0xDC00 \<and> p + 12 \<le> e \<and> mem ! (p + 6) = CHR 0x5C \<and> mem ! (p + 7) = CHR ''u''
         \<and> 0xDC00 \<le> l \<and> l \<le> 0xDFFF
     then Some (12, 0x10000 + (h - 0xD800) * 1024 + (l - 0xDC00)) else None)"
    by (simp only: literal_of_def Let_def h_def l_def)
  have "p + 2 + 4 \<le> length mem" using six assms by simp
  note hv = parse_hex4_value [OF this, folded h_def]
  have hu: "unat (of_nat h :: u32) = h" using hv(2) by (simp add: unsigned_of_nat take_bit_nat_eq_self)
  have cmp: "(n :: u32) \<le> of_nat h \<longleftrightarrow> unat n \<le> h" "of_nat h \<le> (n :: u32) \<longleftrightarrow> h \<le> unat n" for n
    by (simp_all add: word_le_nat_alt hu)
  show ?thesis
  proof (cases "h < 0xD800 \<or> 0xDFFF < h")
    case True
    have "p + 6 \<le> e" using six by simp
    from literal_single [OF this hv(1)] True hv(2) six show ?thesis
      by (auto simp: lit cmp hu)
  next
    case sur: False
    show ?thesis
    proof (cases "h < 0xDC00 \<and> p + 12 \<le> e")
      case False
      then show ?thesis
        using six sur hv(1) by (auto simp: utf16_literal_to_utf8_def lit cmp)
    next
      case full: True
      then have "p + 8 + 4 \<le> length mem" using assms by simp
      note lv = parse_hex4_value [OF this, folded l_def]
      have lu: "unat (of_nat l :: u32) = l" using lv(2) by (simp add: unsigned_of_nat take_bit_nat_eq_self)
      have lcmp: "(n :: u32) \<le> of_nat l \<longleftrightarrow> unat n \<le> l" "of_nat l \<le> (n :: u32) \<longleftrightarrow> l \<le> unat n"
        "of_nat l < (n :: u32) \<longleftrightarrow> l < unat n" "(n :: u32) < of_nat l \<longleftrightarrow> unat n < l" for n
        by (simp_all add: word_le_nat_alt word_less_nat_alt lu)
      have m: "mem_at mem (p + 6) = Some (mem ! (p + 6))" "mem_at mem (p + 7) = Some (mem ! (p + 7))"
        using full assms by (simp_all add: mem_at_def)
      show ?thesis
      proof (cases "mem ! (p + 6) = CHR 0x5C \<and> mem ! (p + 7) = CHR ''u'' \<and> 0xDC00 \<le> l \<and> l \<le> 0xDFFF")
        case True
        have "p + 12 \<le> e" using full by simp
        from literal_pair [OF this assms hv(1) _ _ _ _ lv(1)] True full sur show ?thesis
          by (simp add: lit cmp lcmp hu lu)
      next
        case False
        then show ?thesis
          using six full sur hv(1) lv(1) m
          by (auto simp: utf16_literal_to_utf8_def lit cmp lcmp)
      qed
    qed
  qed
qed

end
