(* ===== verification/PropJson.thy ===== *)
theory PropJson
  imports JsonFacts JsonUtf8
begin

text \<open>
  What holds of the parser of \<^verbatim>\<open>libjson/src/cJSON.c\<close>, which both platforms hand their answers to.
\<close>

section \<open>Every input\<close>

text \<open>Property C22 [json_returns]: the parser returns on every buffer, whatever its bytes and whatever the
  allocations do, and without a fault: it never reads outside the buffer and never writes outside the
  block of a string. The position it reports is inside the buffer, and nothing leaks: after a failure no
  block is allocated, after a success exactly the blocks of the tree.\<close>

theorem every_parse_returns:
  assumes "buffer_length \<le> length mem"
  shows "\<exists>r pos b. cJSON_ParseWithLengthOpts (Some mem) buffer_length require_null_terminated al = Some (r, pos, b)
    \<and> pos \<le> buffer_length
    \<and> pb_live b = (case r of None \<Rightarrow> 0 | Some t \<Rightarrow> int (node_blocks t))"
proof -
  obtain r pos b where p: "cJSON_ParseWithLengthOpts (Some mem) buffer_length require_null_terminated al = Some (r, pos, b)"
    "pos \<le> buffer_length" and r: "case r of None \<Rightarrow> pb_live b = 0
      | Some t \<Rightarrow> tree_wf CJSON_NESTING_LIMIT t \<and> jstring t = None \<and> pb_live b = int (node_blocks t)"
    using parse_ok [OF assms] by blast
  from r have "pb_live b = (case r of None \<Rightarrow> 0 | Some t \<Rightarrow> int (node_blocks t))"
    by (cases r) simp_all
  with p show ?thesis by blast
qed

theorem every_parse_returns_witness:
  "\<exists>pos b. cJSON_ParseWithLengthOpts (Some ''[1,2'') 4 False [] = Some (None, pos, b) \<and> pos \<le> 4 \<and> pb_live b = 0"
proof -
  obtain r pos b where p: "cJSON_ParseWithLengthOpts (Some ''[1,2'') 4 False [] = Some (r, pos, b)" "pos \<le> 4"
    "pb_live b = (case r of None \<Rightarrow> 0 | Some t \<Rightarrow> int (node_blocks t))"
    using every_parse_returns [of 4 "''[1,2''" False "[]"] by auto
  have "map_option fst (cJSON_ParseWithLengthOpts (Some ''[1,2'') 4 False []) = Some None" by code_simp
  then show ?thesis using p by auto
qed

text \<open>Property C33 [json_typed]: a tree the parser returns is well formed: the type of every node says which
  of its fields are set, a string has no NUL, an integer is in the range of \<open>int\<close>, the members of an
  object have names, the elements of an array and the root have none, and at most 1000 arrays and
  objects are nested.\<close>

theorem parsed_tree_is_well_formed:
  assumes "buffer_length \<le> length mem"
    and "cJSON_ParseWithLengthOpts (Some mem) buffer_length require_null_terminated al = Some (Some t, pos, b)"
  shows "tree_wf 1000 t \<and> jstring t = None"
  using parse_ok [OF assms(1), of require_null_terminated al] assms(2) by (simp add: CJSON_NESTING_LIMIT_def)

theorem parsed_tree_is_well_formed_witness:
  "\<exists>t pos b. cJSON_ParseWithLengthOpts (Some ''[1,[null]]'') 10 False [] = Some (Some t, pos, b)
     \<and> tree_wf 1000 t \<and> jtype t = cJSON_Array"
proof -
  have "map_option (\<lambda>(r, _). map_option jtype r) (cJSON_ParseWithLengthOpts (Some ''[1,[null]]'') 10 False [])
    = Some (Some cJSON_Array)" by code_simp
  then obtain t pos b where "cJSON_ParseWithLengthOpts (Some ''[1,[null]]'') 10 False [] = Some (Some t, pos, b)"
    "jtype t = cJSON_Array" by auto
  with parsed_tree_is_well_formed [OF _ this(1)] show ?thesis by simp
qed

section \<open>UTF-16 literals\<close>

text \<open>Property C34 [utf16]: an escape with four digits, at any place of a buffer that ends at \<open>e\<close>. Its digits are
  read as a hexadecimal number of both cases, the first digit being the highest; a number that is no
  surrogate takes six characters and becomes exactly the UTF-8 bytes of that code point, defined by division
  and remainder; a high surrogate with a second escape behind it, inside the buffer, whose number is a low
  surrogate takes twelve and becomes the bytes of the code point of the pair. A text that is too short, a
  high surrogate without a low one and a low surrogate alone are refused. Digits that are not
  hexadecimal are not refused: the number is then 0 and the escape becomes the byte 0.\<close>

theorem utf16_literal_becomes_utf8:
  assumes "e \<le> length mem"
  shows "utf16_literal_to_utf8 mem p e = Some (case literal_of mem p e of
      None \<Rightarrow> (0, [])
    | Some (n, codepoint) \<Rightarrow> (n, map char_of (utf8_of codepoint)))"
  by (rule literal_to_utf8 [OF assms])

lemma sample_literals:
  "literal_of (CHR 0x5C # ''uD83D'' @ CHR 0x5C # ''ude00'') 0 12 = Some (12, 0x1F600)"
  "literal_of (CHR 0x5C # ''uD83D'' @ CHR 0x5C # ''ude00'') 0 11 = None"
  "literal_of (CHR 0x5C # ''u20aC'') 0 6 = Some (6, 0x20AC)"
  "literal_of (CHR 0x5C # ''uZZZZ'') 0 6 = Some (6, 0)"
  by (simp_all add: literal_of_def code_unit_def hex_digit_of_def Let_def upt_conv_Cons)

text \<open>A pair; a pair cut by the end of the buffer; the sign of the euro; and digits that are none.\<close>

theorem utf16_literal_becomes_utf8_witness:
  "utf16_literal_to_utf8 (CHR 0x5C # ''uD83D'' @ CHR 0x5C # ''ude00'') 0 12
     = Some (12, [CHR 0xF0, CHR 0x9F, CHR 0x98, CHR 0x80])
   \<and> utf16_literal_to_utf8 (CHR 0x5C # ''uD83D'' @ CHR 0x5C # ''ude00'') 0 11 = Some (0, [])
   \<and> utf16_literal_to_utf8 (CHR 0x5C # ''u20aC'') 0 6 = Some (6, [CHR 0xE2, CHR 0x82, CHR 0xAC])
   \<and> utf16_literal_to_utf8 (CHR 0x5C # ''uZZZZ'') 0 6 = Some (6, [NUL])"
  using utf16_literal_becomes_utf8 [of 12 "CHR 0x5C # ''uD83D'' @ CHR 0x5C # ''ude00''" 0]
    utf16_literal_becomes_utf8 [of 11 "CHR 0x5C # ''uD83D'' @ CHR 0x5C # ''ude00''" 0]
    utf16_literal_becomes_utf8 [of 6 "CHR 0x5C # ''u20aC''" 0]
    utf16_literal_becomes_utf8 [of 6 "CHR 0x5C # ''uZZZZ''" 0]
  unfolding sample_literals by (simp add: utf8_of_def char_of_def bit_0)

end
