(* ===== verification/JsonPrint.thy ===== *)
theory JsonPrint
  imports JsonParse
begin

text \<open>
  The printer of \<^verbatim>\<open>libjson/src/cJSON.c\<close>: its growing buffer, numbers, strings with their escapes, arrays
  and objects, plain and formatted, and the entry points. A byte of a block that was never written has no
  value, and reading it is a fault, as is a write outside the block.
\<close>

section \<open>The print buffer\<close>

text \<open>\<open>pr_buffer\<close> is the block of the pointer \<open>buffer\<close>, \<open>None\<close> for a null pointer; \<open>pr_realloc\<close> says that
  the hooks have a \<open>reallocate\<close>. As in the parse buffer, two fields stand for the heap.\<close>

record printbuffer =
  pr_buffer :: "char option list option"
  pr_length :: nat
  pr_offset :: nat
  pr_depth :: nat
  pr_noalloc :: bool
  pr_format :: bool
  pr_realloc :: bool
  pr_allocs :: allocs
  pr_live :: int

text \<open>The two ways in which \<open>ensure\<close> gets a block of \<open>newsize\<close> bytes.\<close>

definition pr_grow :: "nat \<Rightarrow> char option list \<Rightarrow> printbuffer \<Rightarrow> (bool \<times> printbuffer) option" where
  "pr_grow newsize block p =
     (case malloc_ok (pr_allocs p) of (ok, al) \<Rightarrow>
        if \<not> ok then Some (False, p\<lparr>pr_buffer := None, pr_length := 0, pr_allocs := al, pr_live := pr_live p - 1\<rparr>)
        else if pr_realloc p then
          Some (True, p\<lparr>pr_buffer := Some (take newsize block @ replicate (newsize - length block) None),
            pr_length := newsize, pr_allocs := al\<rparr>)
        else if pr_offset p + 1 > length block \<or> pr_offset p + 1 > newsize then None
        else Some (True, p\<lparr>pr_buffer := Some (take (pr_offset p + 1) block @ replicate (newsize - (pr_offset p + 1)) None),
            pr_length := newsize, pr_allocs := al\<rparr>))"

text \<open>\<open>ensure\<close>: false for a null pointer, otherwise the pointer is to the offset of the buffer.\<close>

definition ensure :: "printbuffer \<Rightarrow> nat \<Rightarrow> (bool \<times> printbuffer) option" where
  "ensure p needed =
     (case pr_buffer p of
        None \<Rightarrow> Some (False, p)
      | Some block \<Rightarrow>
          if pr_length p > 0 \<and> pr_offset p \<ge> pr_length p then Some (False, p)
          else if int needed > INT_MAX then Some (False, p)
          else (let needed = needed + pr_offset p + 1 in
            if needed \<le> pr_length p then Some (True, p)
            else if pr_noalloc p then Some (False, p)
            else if int needed > INT_MAX div 2 then
              (if int needed \<le> INT_MAX then pr_grow (nat INT_MAX) block p else Some (False, p))
            else pr_grow (needed * 2) block p))"

text \<open>Writing the text \<open>s\<close> from \<open>output[i]\<close> on, where \<open>output\<close> is the pointer that \<open>ensure\<close> returned.\<close>

definition pr_write :: "nat \<Rightarrow> string \<Rightarrow> printbuffer \<Rightarrow> printbuffer option" where
  "pr_write i s p =
     (case pr_buffer p of
        None \<Rightarrow> None
      | Some block \<Rightarrow> (let k = pr_offset p + i in
          if k + length s \<le> length block
          then Some (p\<lparr>pr_buffer := Some (take k block @ map Some s @ drop (k + length s) block)\<rparr>)
          else None))"

text \<open>\<open>strlen\<close> over bytes some of which may not have been written.\<close>

fun cells_strlen :: "char option list \<Rightarrow> nat option" where
  "cells_strlen [] = None"
| "cells_strlen (None # r) = None"
| "cells_strlen (Some c # r) = (if c = NUL then Some 0 else map_option Suc (cells_strlen r))"

definition update_offset :: "printbuffer \<Rightarrow> printbuffer option" where
  "update_offset p =
     (case pr_buffer p of
        None \<Rightarrow> Some p
      | Some block \<Rightarrow> do {
          n \<leftarrow> cells_strlen (drop (pr_offset p) block);
          Some (p\<lparr>pr_offset := pr_offset p + n\<rparr>) })"

definition add_offset :: "nat \<Rightarrow> printbuffer \<Rightarrow> printbuffer" where
  "add_offset n p = p\<lparr>pr_offset := pr_offset p + n\<rparr>"

text \<open>A call that may return false, which ends the function it is in.\<close>

definition p_then :: "(bool \<times> printbuffer) option \<Rightarrow> (printbuffer \<Rightarrow> (bool \<times> printbuffer) option)
    \<Rightarrow> (bool \<times> printbuffer) option" where
  "p_then r f = do { (ok, p) \<leftarrow> r; (if ok then f p else Some (False, p)) }"

lemma p_then_cong [fundef_cong]:
  "r = r' \<Longrightarrow> (\<And>p. r' = Some (True, p) \<Longrightarrow> f p = g p) \<Longrightarrow> p_then r f = p_then r' g"
  by (cases r') (auto simp: p_then_def)

text \<open>\<open>ensure\<close>, the writing of a text to the start of the output, and a new offset.\<close>

definition emit :: "nat \<Rightarrow> string \<Rightarrow> nat \<Rightarrow> printbuffer \<Rightarrow> (bool \<times> printbuffer) option" where
  "emit needed s n p = p_then (ensure p needed) (\<lambda>p1. do {
     p2 \<leftarrow> pr_write 0 s p1;
     Some (True, add_offset n p2) })"

section \<open>Numbers\<close>

text \<open>\<open>sprintf\<close> with \<open>%1.<prec>g\<close>: \<open>prec\<close> significant digits, rounded to the nearest and on a tie to the even
  one, without trailing zeros, with an exponent when it is below -4 or not below \<open>prec\<close>.\<close>

definition log10_floor :: "rat \<Rightarrow> int" where
  "log10_floor q = (let (n, d) = quotient_of q; e = int (length (dec_int n)) - int (length (dec_int d))
     in if q \<ge> 10 powi e then e else e - 1)"

definition strip_zeros :: "string \<Rightarrow> string" where
  "strip_zeros s = rev (dropWhile (\<lambda>c. c = CHR ''0'') (rev s))"

definition with_point :: "string \<Rightarrow> string \<Rightarrow> string" where
  "with_point ints decimals = (let f = strip_zeros decimals in if f = [] then ints else ints @ ''.'' @ f)"

definition format_g :: "nat \<Rightarrow> rat \<Rightarrow> string" where
  "format_g prec q =
     (if q = 0 then ''0''
      else let a = \<bar>q\<bar>; x0 = log10_floor a;
               m0 = round_half_even (a / 10 powi (x0 - int (prec - 1)));
               (m, x) = (if m0 = 10 ^ prec then (10 ^ (prec - 1), x0 + 1) else (m0, x0));
               ds = dec_int m;
               body = (if x < - 4 \<or> x \<ge> int prec
                 then with_point (take 1 ds) (drop 1 ds) @ ''e'' @ (if x < 0 then ''-'' else ''+'')
                        @ (if \<bar>x\<bar> < 10 then ''0'' else []) @ dec_int \<bar>x\<bar>
                 else if x \<ge> 0 then with_point (take (nat x + 1) ds) (drop (nat x + 1) ds)
                 else with_point ''0'' (replicate (nat (- x - 1)) CHR ''0'' @ ds))
           in if q < 0 then CHR ''-'' # body else body)"

text \<open>\<open>compare_double\<close>, every operation of which rounds.\<close>

definition compare_double :: "double \<Rightarrow> double \<Rightarrow> bool" where
  "compare_double a b =
     (case (a, b) of
        (Fin x, Fin y) \<Rightarrow>
          (case (round_double \<bar>x - y\<bar>, round_double (max \<bar>x\<bar> \<bar>y\<bar> * 2 powi (- 52))) of
             (Fin r, Fin s) \<Rightarrow> r \<le> s | _ \<Rightarrow> False)
      | (NaN, _) \<Rightarrow> False | (_, NaN) \<Rightarrow> False
      | (PInf, PInf) \<Rightarrow> False | (NInf, NInf) \<Rightarrow> False
      | _ \<Rightarrow> True)"

text \<open>What \<open>print_number\<close> leaves in \<open>number_buffer\<close>, whose 26 bytes a longer text overruns.\<close>

definition printed_number :: "cJSON \<Rightarrow> string option" where
  "printed_number item =
     (case valuedouble item of
        Fin q \<Rightarrow>
          (if q = of_int (valueint item) then Some (dec_int (valueint item))
           else let s = format_g 15 q
                in if length s > 25 then None
                   else (case strtod s of (test, used) \<Rightarrow>
                     if used = 0 \<or> \<not> compare_double test (Fin q)
                     then (let t = format_g 17 q in if length t > 25 then None else Some t)
                     else Some s))
      | _ \<Rightarrow> Some ''null'')"

definition print_number :: "cJSON \<Rightarrow> printbuffer \<Rightarrow> (bool \<times> printbuffer) option" where
  "print_number item p = do {
     number_buffer \<leftarrow> printed_number item;
     emit (length number_buffer + 1) (number_buffer @ [NUL]) (length number_buffer) p }"

section \<open>Strings\<close>

definition escape_code :: "char \<Rightarrow> char option" where
  "escape_code c =
     (if c = CHR 0x5C \<or> c = CHR 0x22 then Some c
      else if c = CHR 0x08 then Some CHR ''b''
      else if c = CHR 0x0C then Some CHR ''f''
      else if c = CHR 0x0A then Some CHR ''n''
      else if c = CHR 0x0D then Some CHR ''r''
      else if c = CHR 0x09 then Some CHR ''t''
      else None)"

definition escape_size :: "char \<Rightarrow> nat" where
  "escape_size c = (if escape_code c \<noteq> None then 1 else if (of_char c :: nat) < 32 then 5 else 0)"

definition hex_lower :: "nat \<Rightarrow> char" where
  "hex_lower n = ''0123456789abcdef'' ! n"

text \<open>\<open>sprintf(output, "u%04x", c)\<close>\<close>

definition u_escape :: "char \<Rightarrow> string" where
  "u_escape c = ''u00'' @ [hex_lower (of_char c div 16), hex_lower (of_char c mod 16)]"

text \<open>The second loop of \<open>print_string_ptr\<close>, writing from \<open>output[k]\<close> on.\<close>

fun write_escaped :: "nat \<Rightarrow> string \<Rightarrow> printbuffer \<Rightarrow> printbuffer option" where
  "write_escaped k [] p = Some p"
| "write_escaped k (c # cs) p =
     (if (of_char c :: nat) > 31 \<and> c \<noteq> CHR 0x22 \<and> c \<noteq> CHR 0x5C then do {
        p1 \<leftarrow> pr_write k [c] p;
        write_escaped (k + 1) cs p1 }
      else do {
        p1 \<leftarrow> pr_write k [CHR 0x5C] p;
        (case escape_code c of
           Some d \<Rightarrow> do { p2 \<leftarrow> pr_write (k + 1) [d] p1; write_escaped (k + 2) cs p2 }
         | None \<Rightarrow> do { p2 \<leftarrow> pr_write (k + 1) (u_escape c @ [NUL]) p1; write_escaped (k + 6) cs p2 }) })"

definition print_string_ptr :: "string option \<Rightarrow> printbuffer \<Rightarrow> (bool \<times> printbuffer) option" where
  "print_string_ptr input p =
     (case input of
        None \<Rightarrow> emit 3 [CHR 0x22, CHR 0x22, NUL] 0 p
      | Some s \<Rightarrow>
          (let escape_characters = sum_list (map escape_size s);
               output_length = length s + escape_characters
           in if escape_characters = 0
              then emit (output_length + 3) (CHR 0x22 # s @ [CHR 0x22, NUL]) 0 p
              else p_then (ensure p (output_length + 3)) (\<lambda>p1. do {
                p2 \<leftarrow> pr_write 0 [CHR 0x22] p1;
                p3 \<leftarrow> write_escaped 1 s p2;
                p4 \<leftarrow> pr_write (output_length + 1) [CHR 0x22, NUL] p3;
                Some (True, p4) })))"

definition print_string :: "cJSON \<Rightarrow> printbuffer \<Rightarrow> (bool \<times> printbuffer) option" where
  "print_string item p = print_string_ptr (valuestring item) p"

section \<open>Values\<close>

definition cJSON_Raw :: nat where "cJSON_Raw = 128"

definition deeper :: "printbuffer \<Rightarrow> printbuffer" where
  "deeper p = p\<lparr>pr_depth := pr_depth p + 1\<rparr>"

definition shallower :: "bool \<times> printbuffer \<Rightarrow> bool \<times> printbuffer" where
  "shallower r = (case r of (ok, p) \<Rightarrow> (ok, if ok then p\<lparr>pr_depth := pr_depth p - 1\<rparr> else p))"

definition updated :: "printbuffer \<Rightarrow> (bool \<times> printbuffer) option" where
  "updated p = map_option (Pair True) (update_offset p)"

definition TAB :: char where "TAB = CHR 0x09"
definition NL :: char where "NL = CHR 0x0A"

text \<open>\<open>print_value\<close> with \<open>print_array\<close> and \<open>print_object\<close>, and their loops over the elements and the
  members.\<close>

fun print_value :: "cJSON \<Rightarrow> printbuffer \<Rightarrow> (bool \<times> printbuffer) option"
  and print_elements :: "cJSON list \<Rightarrow> printbuffer \<Rightarrow> (bool \<times> printbuffer) option"
  and print_members :: "cJSON list \<Rightarrow> printbuffer \<Rightarrow> (bool \<times> printbuffer) option" where
  "print_value (cJSON_node c t v i d s) p =
     (let item = cJSON_node c t v i d s; t' = t mod 256
      in if t' = cJSON_NULL then emit 5 (''null'' @ [NUL]) 0 p
      else if t' = cJSON_False then emit 6 (''false'' @ [NUL]) 0 p
      else if t' = cJSON_True then emit 5 (''true'' @ [NUL]) 0 p
      else if t' = cJSON_Number then print_number item p
      else if t' = cJSON_Raw then
        (case v of None \<Rightarrow> Some (False, p) | Some r \<Rightarrow> emit (length r + 1) (r @ [NUL]) 0 p)
      else if t' = cJSON_String then print_string item p
      else if t' = cJSON_Array then
        p_then (emit 1 ''['' 1 p) (\<lambda>p1.
        p_then (print_elements c (deeper p1)) (\<lambda>p2.
        map_option shallower (emit 2 ('']'' @ [NUL]) 0 p2)))
      else if t' = cJSON_Object then
        p_then (emit (if pr_format p then 3 else 2) (if pr_format p then [CHR ''{'', NL] else ''{'')
                  (if pr_format p then 2 else 1) p) (\<lambda>p1.
        p_then (print_members c (deeper p1)) (\<lambda>p2.
        map_option shallower
          (emit (if pr_format p2 then pr_depth p2 + 1 else 2)
             ((if pr_format p2 then replicate (pr_depth p2 - 1) TAB else []) @ [CHR ''}'', NUL]) 0 p2)))
      else Some (False, p))"
| "print_elements [] p = Some (True, p)"
| "print_elements (x # xs) p =
     p_then (print_value x p) (\<lambda>p1.
     p_then (updated p1) (\<lambda>p2.
     if xs = [] then Some (True, p2)
     else p_then (emit (if pr_format p2 then 3 else 2) ((if pr_format p2 then '', '' else '','') @ [NUL])
                    (if pr_format p2 then 2 else 1) p2) (print_elements xs)))"
| "print_members [] p = Some (True, p)"
| "print_members (x # xs) p =
     p_then (if pr_format p then emit (pr_depth p) (replicate (pr_depth p) TAB) (pr_depth p) p else Some (True, p)) (\<lambda>p1.
     p_then (print_string_ptr (jstring x) p1) (\<lambda>p2.
     p_then (updated p2) (\<lambda>p3.
     p_then (emit (if pr_format p3 then 2 else 1) (if pr_format p3 then [CHR '':'', TAB] else '':'')
               (if pr_format p3 then 2 else 1) p3) (\<lambda>p4.
     p_then (print_value x p4) (\<lambda>p5.
     p_then (updated p5) (\<lambda>p6.
     let s = (if xs = [] then [] else '','') @ (if pr_format p6 then [NL] else [])
     in p_then (emit (length s + 1) (s @ [NUL]) (length s) p6) (print_members xs)))))))"

declare print_value.simps [simp del]

section \<open>Entry points\<close>

definition cjson_print :: "cJSON option \<Rightarrow> bool \<Rightarrow> bool \<Rightarrow> allocs \<Rightarrow> (char option list option \<times> printbuffer) option" where
  "cjson_print item format reallocate al =
     (let b0 = \<lparr>pr_buffer = None, pr_length = 256, pr_offset = 0, pr_depth = 0, pr_noalloc = False,
                pr_format = format, pr_realloc = reallocate, pr_allocs = al, pr_live = 0\<rparr>;
          fail = (\<lambda>p. Some (None, p\<lparr>pr_buffer := None,
            pr_live := (if pr_buffer p = None then pr_live p else pr_live p - 1)\<rparr>))
      in case malloc_ok al of (ok, al1) \<Rightarrow>
        if \<not> ok then fail (b0\<lparr>pr_allocs := al1\<rparr>)
        else (case item of
            None \<Rightarrow> fail (b0\<lparr>pr_buffer := Some (replicate 256 None), pr_allocs := al1, pr_live := 1\<rparr>)
          | Some i \<Rightarrow> do {
              (ok, p) \<leftarrow> print_value i (b0\<lparr>pr_buffer := Some (replicate 256 None), pr_allocs := al1, pr_live := 1\<rparr>);
              (if \<not> ok then fail p
               else do {
                 p1 \<leftarrow> update_offset p;
                 (case (malloc_ok (pr_allocs p1), pr_buffer p1) of ((ok, al2), buf) \<Rightarrow>
                   if \<not> ok then fail (p1\<lparr>pr_allocs := al2\<rparr>)
                   else (case buf of
                       None \<Rightarrow> None
                     | Some block \<Rightarrow>
                         if pr_realloc p1
                         then Some (Some (take (pr_offset p1 + 1) block
                                @ replicate (pr_offset p1 + 1 - length block) None),
                              p1\<lparr>pr_buffer := None, pr_allocs := al2\<rparr>)
                         else if min (pr_length p1) (pr_offset p1 + 1) > length block then None
                         else Some (Some ((take (min (pr_length p1) (pr_offset p1 + 1)) block
                                @ replicate (pr_offset p1 + 1 - min (pr_length p1) (pr_offset p1 + 1)) None)
                                [pr_offset p1 := Some NUL]),
                              p1\<lparr>pr_buffer := None, pr_allocs := al2\<rparr>))) }) }))"

text \<open>The global hooks are \<open>malloc\<close>, \<open>free\<close> and \<open>realloc\<close>.\<close>

definition cJSON_Print :: "cJSON option \<Rightarrow> allocs \<Rightarrow> (char option list option \<times> printbuffer) option" where
  "cJSON_Print item al = cjson_print item True True al"

definition cJSON_PrintUnformatted :: "cJSON option \<Rightarrow> allocs \<Rightarrow> (char option list option \<times> printbuffer) option" where
  "cJSON_PrintUnformatted item al = cjson_print item False True al"

definition cJSON_PrintBuffered :: "cJSON option \<Rightarrow> int \<Rightarrow> bool \<Rightarrow> allocs
    \<Rightarrow> (char option list option \<times> printbuffer) option" where
  "cJSON_PrintBuffered item prebuffer fmt al =
     (let p = \<lparr>pr_buffer = None, pr_length = 0, pr_offset = 0, pr_depth = 0, pr_noalloc = False,
                pr_format = fmt, pr_realloc = True, pr_allocs = al, pr_live = 0\<rparr>
      in if prebuffer < 0 then Some (None, p)
         else (case malloc_ok al of (ok, al1) \<Rightarrow>
           if \<not> ok then Some (None, p\<lparr>pr_allocs := al1\<rparr>)
           else do {
             (ok, p1) \<leftarrow> (case item of
                None \<Rightarrow> Some (False, p\<lparr>pr_buffer := Some (replicate (nat prebuffer) None),
                  pr_length := nat prebuffer, pr_allocs := al1, pr_live := 1\<rparr>)
              | Some i \<Rightarrow> print_value i (p\<lparr>pr_buffer := Some (replicate (nat prebuffer) None),
                  pr_length := nat prebuffer, pr_allocs := al1, pr_live := 1\<rparr>));
             (if \<not> ok then Some (None, p1\<lparr>pr_buffer := None,
                pr_live := (if pr_buffer p1 = None then pr_live p1 else pr_live p1 - 1)\<rparr>)
              else Some (pr_buffer p1, p1)) }))"

text \<open>\<open>cJSON_PrintPreallocated\<close> into the caller's block.\<close>

definition cJSON_PrintPreallocated :: "cJSON option \<Rightarrow> char option list option \<Rightarrow> int \<Rightarrow> bool
    \<Rightarrow> (bool \<times> char option list option) option" where
  "cJSON_PrintPreallocated item buffer len format =
     (if len < 0 \<or> buffer = None then Some (False, buffer)
      else (let p = \<lparr>pr_buffer = buffer, pr_length = nat len, pr_offset = 0, pr_depth = 0, pr_noalloc = True,
                     pr_format = format, pr_realloc = True, pr_allocs = [], pr_live = 0\<rparr>
            in case item of
                None \<Rightarrow> Some (False, buffer)
              | Some i \<Rightarrow> do { (ok, p1) \<leftarrow> print_value i p; Some (ok, pr_buffer p1) }))"

end
