(* ===== verification/JsonPrintBuffer.thy ===== *)
theory JsonPrintBuffer
  imports JsonPrint JsonFacts
begin

text \<open>
  The text a tree stands for, and the buffer of the printer: how it grows, what the writing of a text into
  it leaves there, and the sequences of such steps.
\<close>

section \<open>The text of a tree\<close>

definition escaped :: "char \<Rightarrow> string" where
  "escaped c = (case escape_code c of Some d \<Rightarrow> [CHR 0x5C, d]
     | None \<Rightarrow> if (of_char c :: nat) < 32 then CHR 0x5C # u_escape c else [c])"

definition string_text :: "string option \<Rightarrow> string" where
  "string_text s = CHR 0x22 # (case s of None \<Rightarrow> [] | Some x \<Rightarrow> concat (map escaped x)) @ [CHR 0x22]"

fun node_text :: "bool \<Rightarrow> nat \<Rightarrow> cJSON \<Rightarrow> string"
  and elements_text :: "bool \<Rightarrow> nat \<Rightarrow> cJSON list \<Rightarrow> string"
  and members_text :: "bool \<Rightarrow> nat \<Rightarrow> cJSON list \<Rightarrow> string" where
  "node_text fmt d (cJSON_node c t v i x s) =
     (let t' = t mod 256
      in if t' = cJSON_NULL then ''null''
      else if t' = cJSON_False then ''false''
      else if t' = cJSON_True then ''true''
      else if t' = cJSON_Number then the (printed_number (cJSON_node c t v i x s))
      else if t' = cJSON_Raw then (case v of None \<Rightarrow> [] | Some r \<Rightarrow> r)
      else if t' = cJSON_String then string_text v
      else if t' = cJSON_Array then ''['' @ elements_text fmt (Suc d) c @ '']''
      else if t' = cJSON_Object then
        ''{'' @ (if fmt then [NL] else []) @ members_text fmt (Suc d) c @ (if fmt then replicate d TAB else []) @ ''}''
      else [])"
| "elements_text fmt d [] = []"
| "elements_text fmt d (x # xs) =
     node_text fmt d x @ (if xs = [] then [] else if fmt then '', '' else '','') @ elements_text fmt d xs"
| "members_text fmt d [] = []"
| "members_text fmt d (x # xs) =
     (if fmt then replicate d TAB else []) @ string_text (jstring x) @ (if fmt then [CHR '':'', TAB] else '':'')
       @ node_text fmt d x @ ((if xs = [] then [] else '','') @ (if fmt then [NL] else [])) @ members_text fmt d xs"

text \<open>The trees that can be printed, and those whose fields can be read and whose numbers fit their array.\<close>

fun printable :: "cJSON \<Rightarrow> bool" where
  "printable (cJSON_node c t v i x s) \<longleftrightarrow>
     t mod 256 \<in> {cJSON_NULL, cJSON_False, cJSON_True, cJSON_Number, cJSON_Raw, cJSON_String, cJSON_Array, cJSON_Object}
     \<and> (t mod 256 = cJSON_Raw \<longrightarrow> v \<noteq> None) \<and> (\<forall>y \<in> set c. printable y)"

fun readable :: "cJSON \<Rightarrow> bool" where
  "readable (cJSON_node c t v i x s) \<longleftrightarrow>
     (\<forall>y. v = Some y \<longrightarrow> NUL \<notin> set y) \<and> (\<forall>y. s = Some y \<longrightarrow> NUL \<notin> set y)
     \<and> (t mod 256 = cJSON_Number \<longrightarrow> printed_number (cJSON_node c t v i x s) \<noteq> None)
     \<and> (\<forall>y \<in> set c. readable y)"

lemma readable_code [code]:
  "readable (cJSON_node c t v i x s) \<longleftrightarrow>
     (case v of None \<Rightarrow> True | Some y \<Rightarrow> NUL \<notin> set y) \<and> (case s of None \<Rightarrow> True | Some y \<Rightarrow> NUL \<notin> set y)
     \<and> (t mod 256 = cJSON_Number \<longrightarrow> printed_number (cJSON_node c t v i x s) \<noteq> None) \<and> list_all readable c"
  by (cases v; cases s) (auto simp: list_all_iff)

section \<open>The buffer\<close>

definition pr_ok :: "printbuffer \<Rightarrow> bool" where
  "pr_ok p \<longleftrightarrow> (\<exists>block. pr_buffer p = Some block \<and> length block = pr_length p)
     \<and> (pr_offset p < pr_length p \<or> pr_length p = 0 \<and> pr_offset p = 0 \<and> (pr_realloc p \<or> pr_noalloc p))"

definition pr_text :: "printbuffer \<Rightarrow> char option list" where
  "pr_text p = take (pr_offset p) (the (pr_buffer p))"

text \<open>The text \<open>s\<close> was added to the buffer; the buffer was lost or kept when a call failed; and a text
  the buffer can grow for.\<close>

definition same_print :: "printbuffer \<Rightarrow> printbuffer \<Rightarrow> bool" where
  "same_print p p' \<longleftrightarrow> pr_depth p' = pr_depth p \<and> pr_noalloc p' = pr_noalloc p \<and> pr_format p' = pr_format p
     \<and> pr_realloc p' = pr_realloc p \<and> pr_live p' = pr_live p \<and> (pr_allocs p = [] \<longrightarrow> pr_allocs p' = [])"

definition grows :: "printbuffer \<Rightarrow> string \<Rightarrow> printbuffer \<Rightarrow> bool" where
  "grows p s p' \<longleftrightarrow> pr_ok p' \<and> pr_text p' = pr_text p @ map Some s \<and> pr_offset p' = pr_offset p + length s
     \<and> same_print p p'"

definition lost :: "printbuffer \<Rightarrow> printbuffer \<Rightarrow> bool" where
  "lost p p' \<longleftrightarrow> pr_live p' = (if pr_buffer p' = None then pr_live p - 1 else pr_live p)"

definition can_grow :: "printbuffer \<Rightarrow> string \<Rightarrow> bool" where
  "can_grow p s \<longleftrightarrow> pr_allocs p = [] \<and> \<not> pr_noalloc p \<and> int (pr_offset p + length s) + 8 \<le> INT_MAX div 2"

definition step_ok :: "bool \<Rightarrow> printbuffer \<Rightarrow> string \<Rightarrow> (bool \<times> printbuffer) option \<Rightarrow> bool" where
  "step_ok g p s r \<longleftrightarrow> (\<exists>ok p'. r = Some (ok, p') \<and> (if ok then grows p s p' else lost p p')
     \<and> (g \<and> can_grow p s \<longrightarrow> ok))"

text \<open>A value leaves the offset anywhere in its text; \<open>update_offset\<close> moves it to the NUL.\<close>

definition at_nul :: "printbuffer \<Rightarrow> bool" where
  "at_nul p \<longleftrightarrow> the (pr_buffer p) ! pr_offset p = Some NUL \<and> pr_offset p < pr_length p"

definition value_ok :: "bool \<Rightarrow> printbuffer \<Rightarrow> string \<Rightarrow> (bool \<times> printbuffer) option \<Rightarrow> bool" where
  "value_ok g p s r \<longleftrightarrow> (\<exists>ok p'. r = Some (ok, p')
     \<and> (if ok then \<exists>p2. update_offset p' = Some p2 \<and> grows p s p2 \<and> at_nul p2 else lost p p')
     \<and> (g \<and> can_grow p s \<longrightarrow> ok))"

lemma grows_refl: "pr_ok p \<Longrightarrow> grows p [] p"
  by (simp add: grows_def same_print_def)

lemma grows_trans: "grows p s p1 \<Longrightarrow> grows p1 t p2 \<Longrightarrow> grows p (s @ t) p2"
  by (auto simp: grows_def same_print_def)

lemma grows_lost: "grows p s p1 \<Longrightarrow> lost p1 p2 \<Longrightarrow> lost p p2"
  by (simp add: grows_def same_print_def lost_def)

lemma grows_can: "grows p s p1 \<Longrightarrow> can_grow p (s @ t) \<Longrightarrow> can_grow p1 t"
  by (simp add: grows_def same_print_def can_grow_def add.assoc)

lemma can_grow_prefix: "can_grow p (s @ t) \<Longrightarrow> can_grow p s"
  by (simp add: can_grow_def)

lemma lost_refl: "pr_ok p \<Longrightarrow> lost p p"
  by (auto simp: pr_ok_def lost_def)

section \<open>Sequences\<close>

lemma step_then:
  assumes "step_ok g p s r" and "\<And>p1. grows p s p1 \<Longrightarrow> step_ok g p1 t (f p1)"
  shows "step_ok g p (s @ t) (p_then r f)"
proof -
  obtain ok p1 where r: "r = Some (ok, p1)" "if ok then grows p s p1 else lost p p1" "g \<and> can_grow p s \<longrightarrow> ok"
    using assms(1) by (auto simp: step_ok_def)
  show ?thesis
  proof (cases ok)
    case True
    then have gr: "grows p s p1" using r(2) by simp
    obtain ok2 p2 where "f p1 = Some (ok2, p2)" "if ok2 then grows p1 t p2 else lost p1 p2"
        "g \<and> can_grow p1 t \<longrightarrow> ok2"
      using assms(2) [OF gr] by (auto simp: step_ok_def)
    then show ?thesis using True r(1) grows_trans [OF gr] grows_lost [OF gr] grows_can [OF gr, of t]
      by (auto simp: step_ok_def p_then_def split: if_splits)
  next
    case False
    then show ?thesis using r can_grow_prefix by (auto simp: step_ok_def p_then_def)
  qed
qed

lemma step_then_value:
  assumes "step_ok g p s r" and "\<And>p1. grows p s p1 \<Longrightarrow> value_ok g p1 t (f p1)"
  shows "value_ok g p (s @ t) (p_then r f)"
proof -
  obtain ok p1 where r: "r = Some (ok, p1)" "if ok then grows p s p1 else lost p p1" "g \<and> can_grow p s \<longrightarrow> ok"
    using assms(1) by (auto simp: step_ok_def)
  show ?thesis
  proof (cases ok)
    case True
    then have gr: "grows p s p1" using r(2) by simp
    obtain ok2 p2 where "f p1 = Some (ok2, p2)"
        "if ok2 then \<exists>p3. update_offset p2 = Some p3 \<and> grows p1 t p3 \<and> at_nul p3 else lost p1 p2"
        "g \<and> can_grow p1 t \<longrightarrow> ok2"
      using assms(2) [OF gr] by (auto simp: value_ok_def)
    then show ?thesis using True r(1) grows_trans [OF gr] grows_lost [OF gr] grows_can [OF gr, of t]
      by (cases ok2) (auto simp: value_ok_def p_then_def)
  next
    case False
    then show ?thesis using r can_grow_prefix by (auto simp: value_ok_def p_then_def)
  qed
qed

lemma value_then:
  assumes "value_ok g p s r" and "\<And>p1. grows p s p1 \<Longrightarrow> step_ok g p1 t (f p1)"
  shows "step_ok g p (s @ t) (p_then r (\<lambda>p1. p_then (updated p1) f))"
proof -
  obtain ok p1 where r: "r = Some (ok, p1)"
      "if ok then \<exists>p2. update_offset p1 = Some p2 \<and> grows p s p2 \<and> at_nul p2 else lost p p1"
      "g \<and> can_grow p s \<longrightarrow> ok"
    using assms(1) by (auto simp: value_ok_def)
  then have "step_ok g p s (p_then r updated)"
    by (cases ok) (auto simp: step_ok_def p_then_def updated_def)
  then have "step_ok g p (s @ t) (p_then (p_then r updated) f)"
    using assms(2) by (rule step_then)
  moreover have "p_then (p_then r updated) f = p_then r (\<lambda>p1. p_then (updated p1) f)"
    using r(1) by (simp add: p_then_def)
  ultimately show ?thesis by simp
qed

lemma p_then_shallower: "p_then r (\<lambda>p. map_option shallower (g p)) = map_option shallower (p_then r g)"
  by (cases r) (auto simp: p_then_def shallower_def)

section \<open>Making room and writing\<close>

lemma take_block: "n \<le> length block \<Longrightarrow> n \<le> k \<Longrightarrow> take n (take k block @ r) = take n block"
  by (simp add: min_def)

lemma grow_ok:
  assumes "pr_ok p" and b: "pr_buffer p = Some block" "length block = pr_length p"
    and n: "pr_length p < newsize" "pr_offset p < newsize" and "\<not> pr_noalloc p"
  shows "\<exists>ok p'. pr_grow newsize block p = Some (ok, p') \<and>
    (if ok then grows p [] p' \<and> pr_length p' = newsize else lost p p') \<and> (pr_allocs p = [] \<longrightarrow> ok)"
proof -
  obtain ok al where m: "malloc_ok (pr_allocs p) = (ok, al)" and al: "pr_allocs p = [] \<longrightarrow> ok \<and> al = []"
    by (cases "pr_allocs p") (auto simp: malloc_ok_def)
  have o: "pr_offset p \<le> length block" "pr_realloc p \<or> pr_offset p + 1 \<le> length block"
    using assms(1,6) b by (auto simp: pr_ok_def)
  show ?thesis
  proof (cases ok)
    case False
    then show ?thesis using m al b by (intro exI [of _ False]) (simp add: pr_grow_def lost_def)
  next
    case True
    then show ?thesis using m al b n o
      by (intro exI [of _ True])
        (auto simp: pr_grow_def grows_def pr_ok_def pr_text_def same_print_def min_def)
  qed
qed

lemma ensure_unfold:
  assumes "pr_buffer p = Some block" and "\<not> (pr_length p > 0 \<and> pr_offset p \<ge> pr_length p)"
  shows "ensure p needed =
     (if int needed > INT_MAX then Some (False, p)
      else if needed + pr_offset p + 1 \<le> pr_length p then Some (True, p)
      else if pr_noalloc p then Some (False, p)
      else if int (needed + pr_offset p + 1) > INT_MAX div 2 then
        (if int (needed + pr_offset p + 1) \<le> INT_MAX then pr_grow (nat INT_MAX) block p else Some (False, p))
      else pr_grow ((needed + pr_offset p + 1) * 2) block p)"
  unfolding ensure_def assms(1) option.case if_not_P [OF assms(2)] Let_def by (rule refl)

lemma ensure_grow_ok:
  assumes "pr_ok p" and b: "pr_buffer p = Some block" "length block = pr_length p" and "\<not> pr_noalloc p"
    and n: "needed + pr_offset p + 1 \<le> sz" "pr_length p < needed + pr_offset p + 1"
  shows "\<exists>ok p'. pr_grow sz block p = Some (ok, p') \<and>
    (if ok then grows p [] p' \<and> pr_offset p' + needed < pr_length p' else lost p p') \<and> (pr_allocs p = [] \<longrightarrow> ok)"
proof -
  have "pr_length p < sz" "pr_offset p < sz" using n by simp_all
  from grow_ok [OF assms(1-3) this assms(4)] obtain ok p' where g: "pr_grow sz block p = Some (ok, p')"
      "if ok then grows p [] p' \<and> pr_length p' = sz else lost p p'" "pr_allocs p = [] \<longrightarrow> ok" by blast
  have "pr_offset p' + needed < pr_length p'" if ok
  proof -
    have "pr_offset p' = pr_offset p" "pr_length p' = sz" using g(2) that by (simp_all add: grows_def)
    then show ?thesis using n(1) by simp
  qed
  then show ?thesis using g by (intro exI [of _ ok] exI [of _ p']) (cases ok; simp)
qed

lemma ensure_ok:
  assumes "pr_ok p"
  shows "\<exists>ok p'. ensure p needed = Some (ok, p') \<and>
    (if ok then grows p [] p' \<and> pr_offset p' + needed < pr_length p' else lost p p')
    \<and> (pr_allocs p = [] \<and> \<not> pr_noalloc p \<and> int (pr_offset p + needed) + 1 \<le> INT_MAX div 2 \<longrightarrow> ok)"
    (is "\<exists>ok p'. ?e = _ \<and> ?post ok p' \<and> (?can \<longrightarrow> ok)")
proof -
  obtain block where b: "pr_buffer p = Some block" "length block = pr_length p"
    using assms by (auto simp: pr_ok_def)
  have o: "\<not> (pr_length p > 0 \<and> pr_offset p \<ge> pr_length p)" using assms by (auto simp: pr_ok_def)
  let ?n = "needed + pr_offset p + 1"
  have half: "INT_MAX div 2 < INT_MAX" by (simp add: INT_MAX_def)
  have failing: "\<exists>ok p'. ?e = Some (ok, p') \<and> ?post ok p' \<and> (?can \<longrightarrow> ok)" if "?e = Some (False, p)" "\<not> ?can"
    unfolding that(1) using that(2) lost_refl [OF assms] by (intro exI [of _ False] exI [of _ p]) simp
  have growing: "\<exists>ok p'. ?e = Some (ok, p') \<and> ?post ok p' \<and> (?can \<longrightarrow> ok)"
    if "?e = pr_grow sz block p" "?n \<le> sz" "\<not> ?n \<le> pr_length p" "\<not> pr_noalloc p" for sz
  proof -
    have "pr_length p < ?n" using that(3) by simp
    from ensure_grow_ok [OF assms b that(4,2) this] show ?thesis unfolding that(1) by blast
  qed
  note e = ensure_unfold [OF b(1) o, of needed]
  show ?thesis
  proof (cases "int needed > INT_MAX")
    case True
    then show ?thesis using half by (intro failing) (simp_all add: e)
  next
    case small: False
    show ?thesis
    proof (cases "?n \<le> pr_length p")
      case True
      then have "?e = Some (True, p)" unfolding e if_not_P [OF small] by simp
      then show ?thesis using True grows_refl [OF assms] by (intro exI [of _ True] exI [of _ p]) simp
    next
      case more: False
      show ?thesis
      proof (cases "pr_noalloc p")
        case True
        then show ?thesis
          unfolding e if_not_P [OF small] if_not_P [OF more] by (intro exI [of _ False] exI [of _ p]) (simp add: lost_refl [OF assms])
      next
        case alloc: False
        note e' = e [unfolded if_not_P [OF small] if_not_P [OF more] if_not_P [OF alloc]]
        consider "int ?n > INT_MAX" | "int ?n > INT_MAX div 2" "int ?n \<le> INT_MAX" | "\<not> int ?n > INT_MAX div 2"
          by linarith
        then show ?thesis
        proof cases
          case 1
          then have "?e = Some (False, p)" "\<not> ?can" using half unfolding e' by simp_all
          then show ?thesis by (rule failing)
        next
          case 2
          then show ?thesis using more alloc by (intro growing [of "nat INT_MAX"]) (simp_all add: e' del: of_nat_add)
        next
          case 3
          then show ?thesis using more alloc by (intro growing [of "?n * 2"]) (simp_all add: e' del: of_nat_add)
        qed
      qed
    qed
  qed
qed

text \<open>Writing into the room that was made.\<close>

lemma write_ok:
  assumes "pr_ok p" and "pr_offset p + i + length s \<le> pr_length p"
  obtains block where "pr_buffer p = Some block" "length block = pr_length p"
    and "pr_write i s p = Some (p\<lparr>pr_buffer := Some (take (pr_offset p + i) block @ map Some s
        @ drop (pr_offset p + i + length s) block)\<rparr>)"
  using assms by (auto simp: pr_ok_def pr_write_def Let_def)

lemma emit_ok:
  assumes "pr_ok p" and "length s \<le> needed + 1" and "n \<le> length s" "n \<le> needed" "needed \<le> n + 7"
  shows "step_ok g p (take n s) (emit needed s n p)"
proof -
  obtain ok p1 where e: "ensure p needed = Some (ok, p1)"
      "if ok then grows p [] p1 \<and> pr_offset p1 + needed < pr_length p1 else lost p p1"
    and c: "pr_allocs p = [] \<and> \<not> pr_noalloc p \<and> int (pr_offset p + needed) + 1 \<le> INT_MAX div 2 \<longrightarrow> ok"
    using ensure_ok [OF assms(1), of needed] by blast
  have g: "can_grow p (take n s) \<longrightarrow> ok" using c assms(3-5) by (auto simp: can_grow_def)
  show ?thesis
  proof (cases ok)
    case False
    then show ?thesis using e g by (auto simp: step_ok_def emit_def p_then_def)
  next
    case True
    then have p1: "grows p [] p1" "pr_offset p1 + needed < pr_length p1" using e(2) by simp_all
    then have "pr_ok p1" "pr_offset p1 + 0 + length s \<le> pr_length p1" using assms(2) by (simp_all add: grows_def)
    then obtain block where b: "pr_buffer p1 = Some block" "length block = pr_length p1"
      and w: "pr_write 0 s p1 = Some (p1\<lparr>pr_buffer := Some (take (pr_offset p1) block @ map Some s
        @ drop (pr_offset p1 + length s) block)\<rparr>)"
      by (rule write_ok) simp
    have "grows p (take n s) (add_offset n (p1\<lparr>pr_buffer := Some (take (pr_offset p1) block @ map Some s
        @ drop (pr_offset p1 + length s) block)\<rparr>))"
      using p1 b assms(2-4) by (auto simp: grows_def add_offset_def pr_ok_def pr_text_def same_print_def take_map)
    then show ?thesis using True e(1) w g by (auto simp: step_ok_def emit_def p_then_def)
  qed
qed

text \<open>A text with its NUL in the block.\<close>

lemma cells_strlen_text: "NUL \<notin> set s \<Longrightarrow> cells_strlen (map Some s @ Some NUL # r) = Some (length s)"
  by (induction s) auto

definition holds_text :: "printbuffer \<Rightarrow> string \<Rightarrow> printbuffer \<Rightarrow> bool" where
  "holds_text p s q \<longleftrightarrow> (\<exists>post. pr_buffer q = Some (pr_text p @ map Some s @ Some NUL # post)
      \<and> pr_length q = pr_offset p + length s + 1 + length post)
    \<and> length (pr_text p) = pr_offset p \<and> same_print p q"

lemma value_written:
  assumes h: "holds_text p s q" and "pr_offset q = pr_offset p + n" and n: "n = 0 \<or> n = length s" and "NUL \<notin> set s"
  shows "\<exists>p2. update_offset q = Some p2 \<and> grows p s p2 \<and> at_nul p2"
proof -
  obtain post where q: "pr_buffer q = Some (pr_text p @ map Some s @ Some NUL # post)"
      "pr_length q = pr_offset p + length s + 1 + length post"
    and l: "length (pr_text p) = pr_offset p" and sp: "same_print p q" using h by (auto simp: holds_text_def)
  let ?p2 = "q\<lparr>pr_offset := pr_offset p + length s\<rparr>"
  have "cells_strlen (drop n (map Some s) @ Some NUL # post) = Some (length s - n)"
    using n assms(4) by (elim disjE) (simp_all add: cells_strlen_text)
  then have "update_offset q = Some ?p2"
    using assms(2) n l q by (auto simp: update_offset_def)
  moreover have "grows p s ?p2"
    using q l sp by (simp add: grows_def pr_ok_def pr_text_def same_print_def)
  moreover have "at_nul ?p2" using q l by (simp add: at_nul_def nth_append)
  ultimately show ?thesis by blast
qed

lemma value_after_ensure:
  assumes "pr_ok p" and "needed \<le> length s + 7" and "NUL \<notin> set s" and "n = 0 \<or> n = length s"
    and w: "\<And>p1. grows p [] p1 \<Longrightarrow> pr_offset p1 + needed < pr_length p1 \<Longrightarrow>
      \<exists>q. f p1 = Some (True, q) \<and> holds_text p1 s q \<and> pr_offset q = pr_offset p1 + n"
  shows "value_ok g p s (p_then (ensure p needed) f)"
proof -
  obtain ok p1 where e: "ensure p needed = Some (ok, p1)"
      "if ok then grows p [] p1 \<and> pr_offset p1 + needed < pr_length p1 else lost p p1"
    and c: "pr_allocs p = [] \<and> \<not> pr_noalloc p \<and> int (pr_offset p + needed) + 1 \<le> INT_MAX div 2 \<longrightarrow> ok"
    using ensure_ok [OF assms(1), of needed] by blast
  have g: "can_grow p s \<longrightarrow> ok" using c assms(2) by (auto simp: can_grow_def)
  show ?thesis
  proof (cases ok)
    case False
    then show ?thesis using e g by (auto simp: value_ok_def p_then_def)
  next
    case True
    then have p1: "grows p [] p1" "pr_offset p1 + needed < pr_length p1" using e(2) by simp_all
    obtain q where q: "f p1 = Some (True, q)" "holds_text p1 s q" "pr_offset q = pr_offset p1 + n"
      using w [OF p1] by blast
    obtain p2 where "update_offset q = Some p2" "grows p1 s p2" "at_nul p2"
      using value_written [OF q(2,3) assms(4,3)] by blast
    then show ?thesis using True e(1) q(1) grows_trans [OF p1(1)] by (auto simp: value_ok_def p_then_def)
  qed
qed

lemma room_block:
  assumes "grows p [] p1" and "pr_offset p1 + needed < pr_length p1"
  obtains block where "pr_buffer p1 = Some (pr_text p1 @ block)" "length block = pr_length p1 - pr_offset p1"
    "length (pr_text p1) = pr_offset p1" "needed < length block"
proof -
  obtain b where "pr_buffer p1 = Some b" "length b = pr_length p1"
    using assms(1) by (auto simp: grows_def pr_ok_def)
  then show ?thesis using that [of "drop (pr_offset p1) b"] assms(2) by (simp add: pr_text_def)
qed

lemma same_print_refl: "same_print p (p\<lparr>pr_buffer := b, pr_offset := k\<rparr>)"
  by (simp add: same_print_def)

lemma emit_value:
  assumes "pr_ok p" and "NUL \<notin> set s" and "length s \<le> needed" "needed \<le> length s + 7" and "n = 0 \<or> n = length s"
  shows "value_ok g p s (emit needed (s @ [NUL]) n p)"
  unfolding emit_def
proof (rule value_after_ensure [OF assms(1,4,2,5)])
  fix p1 assume p1: "grows p [] p1" "pr_offset p1 + needed < pr_length p1"
  obtain block where b: "pr_buffer p1 = Some (pr_text p1 @ block)" "length block = pr_length p1 - pr_offset p1"
      "length (pr_text p1) = pr_offset p1" "needed < length block" by (rule room_block [OF p1])
  let ?b = "pr_text p1 @ map Some s @ Some NUL # drop (length s + 1) block"
  have "pr_write 0 (s @ [NUL]) p1 = Some (p1\<lparr>pr_buffer := Some ?b\<rparr>)"
    using b assms(3) by (simp add: pr_write_def Let_def)
  moreover have "holds_text p1 s (add_offset n (p1\<lparr>pr_buffer := Some ?b\<rparr>))"
    using b assms(3) p1 by (auto simp: holds_text_def add_offset_def same_print_def)
  ultimately show "\<exists>q. do { p2 \<leftarrow> pr_write 0 (s @ [NUL]) p1; Some (True, add_offset n p2) } = Some (True, q)
      \<and> holds_text p1 s q \<and> pr_offset q = pr_offset p1 + n"
    by (simp add: add_offset_def)
qed

end
