(* ===== verification/JsonPrintFacts.thy ===== *)
theory JsonPrintFacts
  imports JsonPrintBuffer
begin

text \<open>
  The printer of cJSON against the text a tree stands for: it writes that text and a NUL into its block,
  never reads a byte that was not written nor writes outside the block, and what it does with the block
  when memory runs out.
\<close>

section \<open>Strings and numbers\<close>

lemma escaped_plain: "escape_size c = 0 \<Longrightarrow> escaped c = [c]"
  by (auto simp: escape_size_def escaped_def split: if_splits)

lemma length_u_escape [simp]: "length (u_escape c) = 5"
  by (simp add: u_escape_def)

lemma length_escaped: "length (escaped c) = 1 + escape_size c"
  by (auto simp: escape_size_def escaped_def split: option.split)

lemma length_escaped_text: "length (concat (map escaped s)) = length s + sum_list (map escape_size s)"
  by (induction s) (simp_all add: length_escaped)

lemma escaped_text_plain: "sum_list (map escape_size s) = 0 \<Longrightarrow> concat (map escaped s) = s"
  by (induction s) (simp_all add: escaped_plain)

lemma pr_write_at:
  assumes "pr_buffer p = Some (pre @ x)" and "length pre = pr_offset p + k" and "length s \<le> length x"
  shows "pr_write k s p = Some (p\<lparr>pr_buffer := Some (pre @ map Some s @ drop (length s) x)\<rparr>)"
proof -
  have "take (pr_offset p + k) (pre @ x) = pre" using assms(2) by simp
  moreover have "drop (pr_offset p + k + length s) (pre @ x) = drop (length s) x" using assms(2) by simp
  ultimately show ?thesis using assms by (simp add: pr_write_def Let_def)
qed

lemma escaped_normal:
  assumes "(of_char c :: nat) > 31" "c \<noteq> CHR 0x22" "c \<noteq> CHR 0x5C"
  shows "escaped c = [c]"
proof -
  have "c \<noteq> CHR 0x08" "c \<noteq> CHR 0x0C" "c \<noteq> CHR 0x0A" "c \<noteq> CHR 0x0D" "c \<noteq> CHR 0x09" using assms(1) by auto
  then show ?thesis using assms by (simp add: escaped_def escape_code_def)
qed

lemma escaped_special:
  assumes "\<not> ((of_char c :: nat) > 31 \<and> c \<noteq> CHR 0x22 \<and> c \<noteq> CHR 0x5C)"
  shows "escaped c = CHR 0x5C # (case escape_code c of Some d \<Rightarrow> [d] | None \<Rightarrow> u_escape c)"
  using assms by (auto simp: escaped_def escape_code_def split: if_splits)

lemma write_escaped_ok:
  assumes "pr_buffer p = Some (pre @ x)" and "length pre = pr_offset p + k"
    and "length (concat (map escaped s)) < length x"
  shows "\<exists>y. write_escaped k s p = Some (p\<lparr>pr_buffer := Some (pre @ map Some (concat (map escaped s)) @ y)\<rparr>)
    \<and> length y = length x - length (concat (map escaped s))"
  using assms
proof (induction s arbitrary: k p pre x)
  case Nil
  then show ?case by (intro exI [of _ x]) simp
next
  case (Cons c cs)
  let ?e = "escaped c" and ?r = "concat (map escaped cs)"
  have len: "length ?e + length ?r < length x" using Cons.prems(3) by simp
  have next_char: "\<exists>y. write_escaped (k + length ?e) cs (p\<lparr>pr_buffer := Some ((pre @ map Some ?e) @ z)\<rparr>)
      = Some (p\<lparr>pr_buffer := Some (pre @ map Some (?e @ ?r) @ y)\<rparr>) \<and> length y = length x - length (?e @ ?r)"
    if "length z = length x - length ?e" for z
  proof -
    have "length ?r < length z" using that len by simp
    then show ?thesis
      using Cons.IH [of "p\<lparr>pr_buffer := Some ((pre @ map Some ?e) @ z)\<rparr>" "pre @ map Some ?e" z "k + length ?e"]
        Cons.prems(2) that by simp
  qed
  show ?case
  proof (cases "(of_char c :: nat) > 31 \<and> c \<noteq> CHR 0x22 \<and> c \<noteq> CHR 0x5C")
    case True
    then have e: "?e = [c]" by (simp add: escaped_normal)
    show ?thesis
      using True next_char [of "drop 1 x"] pr_write_at [OF Cons.prems(1,2), of "[c]"] len by (simp add: e)
  next
    case False
    note e = escaped_special [OF False] and u = write_escaped.simps(2) [of k c cs p, unfolded if_not_P [OF False]]
    let ?b = "pre @ [Some (CHR 0x5C)]" and ?x = "drop 1 x"
    have w1: "pr_write k [CHR 0x5C] p = Some (p\<lparr>pr_buffer := Some (?b @ ?x)\<rparr>)"
      using pr_write_at [OF Cons.prems(1,2), of "[CHR 0x5C]"] len by simp
    have w2: "pr_write (k + 1) s (p\<lparr>pr_buffer := Some (?b @ ?x)\<rparr>)
        = Some (p\<lparr>pr_buffer := Some (?b @ map Some s @ drop (length s) ?x)\<rparr>)" if "length s \<le> length ?x" for s
      using pr_write_at [of "p\<lparr>pr_buffer := Some (?b @ ?x)\<rparr>" ?b ?x "k + 1" s] that Cons.prems(2) by simp
    show ?thesis
    proof (cases "escape_code c")
      case (Some d)
      then show ?thesis unfolding u using w1 w2 [of "[d]"] next_char [of "drop 1 ?x"] len by (simp add: e)
    next
      case None
      have six: "length (u_escape c @ [NUL]) = 6" by simp
      have "length (u_escape c @ [NUL]) \<le> length ?x" using len None by (simp add: e)
      then have w3: "pr_write (k + 1) (u_escape c @ [NUL]) (p\<lparr>pr_buffer := Some (?b @ ?x)\<rparr>)
          = Some (p\<lparr>pr_buffer := Some ((pre @ map Some ?e) @ Some NUL # drop 6 ?x)\<rparr>)"
        unfolding w2 [OF \<open>length (u_escape c @ [NUL]) \<le> length ?x\<close>] six using None by (simp add: e)
      have "length (Some NUL # drop 6 ?x) = length x - length ?e" using len None by (simp add: e)
      from next_char [OF this] show ?thesis unfolding u using w1 w3 None by (simp add: e)
    qed
  qed
qed

lemma hex_lower_set: "n < 16 \<Longrightarrow> hex_lower n \<in> set ''0123456789abcdef''"
  unfolding hex_lower_def by (rule nth_mem) simp

lemma no_NUL_escaped:
  assumes "c \<noteq> NUL"
  shows "NUL \<notin> set (escaped c)"
proof (cases "escape_code c = None \<and> (of_char c :: nat) < 32")
  case True
  have "hex_lower (of_char c div 16) \<in> set ''0123456789abcdef''" 
    using True less_mult_imp_div_less [of "of_char c" 16 16] by (intro hex_lower_set) simp
  moreover have "hex_lower (of_char c mod 16) \<in> set ''0123456789abcdef''" by (rule hex_lower_set) simp
  ultimately show ?thesis using True by (auto simp: escaped_def u_escape_def)
next
  case False
  then show ?thesis using assms by (auto simp: escaped_def escape_code_def split: if_splits)
qed

lemma print_string_ok:
  assumes "pr_ok p" and "\<And>x. s = Some x \<Longrightarrow> NUL \<notin> set x"
  shows "value_ok g p (string_text s) (print_string_ptr s p)"
proof (cases s)
  case None
  then show ?thesis
    using emit_value [OF assms(1), of "[CHR 0x22, CHR 0x22]" 3 0 g] by (simp add: print_string_ptr_def string_text_def)
next
  case (Some x)
  let ?t = "concat (map escaped x)"
  have "NUL \<notin> set (escaped y)" if "y \<in> set x" for y
    using that assms(2) [OF Some] by (intro no_NUL_escaped) auto
  then have n: "NUL \<notin> set (string_text s)" by (simp add: Some string_text_def)
  show ?thesis
  proof (cases "sum_list (map escape_size x) = 0")
    case True
    then show ?thesis
      using emit_value [OF assms(1) n, of "length x + 3" 0 g] Some
      by (simp add: print_string_ptr_def string_text_def escaped_text_plain Let_def del: sum_list_eq_0_iff)
  next
    case False
    have l: "length x + sum_list (map escape_size x) = length ?t" by (simp only: length_escaped_text)
    show ?thesis
      unfolding print_string_ptr_def Some option.case Let_def if_not_P [OF False] l
    proof (rule value_after_ensure [OF assms(1), where n = 0])
      show "length ?t + 3 \<le> length (string_text (Some x)) + 7" by (simp add: string_text_def)
      show "NUL \<notin> set (string_text (Some x))" using n Some by simp
      show "(0::nat) = 0 \<or> 0 = length (string_text (Some x))" by simp
    next
      fix p1 assume p1: "grows p [] p1" "pr_offset p1 + (length ?t + 3) < pr_length p1"
      obtain block where b: "pr_buffer p1 = Some (pr_text p1 @ block)" "length block = pr_length p1 - pr_offset p1"
        "length (pr_text p1) = pr_offset p1" "length ?t + 3 < length block" by (rule room_block [OF p1])
      let ?q = "CHR 0x22"
      have w1: "pr_write 0 [?q] p1 = Some (p1\<lparr>pr_buffer := Some ((pr_text p1 @ [Some ?q]) @ drop 1 block)\<rparr>)"
        using pr_write_at [OF b(1), of 0 "[?q]"] b by simp
      let ?p1 = "p1\<lparr>pr_buffer := Some ((pr_text p1 @ [Some ?q]) @ drop 1 block)\<rparr>"
      have "length ?t < length (drop 1 block)" using b(4) by simp
      then have "\<exists>y. write_escaped 1 x ?p1 = Some (?p1\<lparr>pr_buffer := Some ((pr_text p1 @ [Some ?q]) @ map Some ?t @ y)\<rparr>)
          \<and> length y = length (drop 1 block) - length ?t"
        using b(3) by (intro write_escaped_ok) simp_all
      then obtain y where w2: "write_escaped 1 x ?p1
          = Some (p1\<lparr>pr_buffer := Some ((pr_text p1 @ [Some ?q]) @ map Some ?t @ y)\<rparr>)"
        and y: "length y = length block - 1 - length ?t" by auto
      let ?pre = "pr_text p1 @ Some ?q # map Some ?t"
      have y2: "2 \<le> length y" using y b(4) by simp
      have w3: "pr_write (length ?t + 1) [?q, NUL] (p1\<lparr>pr_buffer := Some (?pre @ y)\<rparr>)
          = Some (p1\<lparr>pr_buffer := Some (?pre @ map Some [?q, NUL] @ drop 2 y)\<rparr>)"
        using pr_write_at [of "p1\<lparr>pr_buffer := Some (?pre @ y)\<rparr>" ?pre y "length ?t + 1" "[?q, NUL]"] b y y2
        by (simp add: numeral_2_eq_2)
      show "\<exists>q. do { p2 \<leftarrow> pr_write 0 [?q] p1; p3 \<leftarrow> write_escaped 1 x p2;
            p4 \<leftarrow> pr_write (length ?t + 1) [?q, NUL] p3; Some (True, p4) } = Some (True, q)
          \<and> holds_text p1 (string_text (Some x)) q \<and> pr_offset q = pr_offset p1 + 0"
        using w1 w2 w3 b y p1 by (simp add: holds_text_def string_text_def same_print_def)
    qed
  qed
qed

lemma dec_int_set: "set (dec_int i) \<subseteq> insert CHR ''-'' {c. is_digit c}"
  using dec_nat_digits by (auto simp: dec_int_def)

lemma NUL_no_digit [simp]: "\<not> is_digit NUL"
  by (simp add: is_digit_def)

lemma no_NUL_dec [simp]: "NUL \<notin> set (dec_int i)"
  using dec_int_set [of i] by auto

lemma strip_zeros_set: "set (strip_zeros s) \<subseteq> set s"
  using set_dropWhileD [of _ "\<lambda>c. c = CHR ''0''" "rev s"] by (auto simp: strip_zeros_def)

lemma no_NUL_with_point: "NUL \<notin> set a \<Longrightarrow> NUL \<notin> set b \<Longrightarrow> NUL \<notin> set (with_point a b)"
  using strip_zeros_set [of b] by (auto simp: with_point_def Let_def)

lemma no_NUL_part: "NUL \<notin> set s \<Longrightarrow> NUL \<notin> set (take n s)" "NUL \<notin> set s \<Longrightarrow> NUL \<notin> set (drop n s)"
  by (auto dest: in_set_takeD in_set_dropD)

lemma no_NUL_format: "NUL \<notin> set (format_g prec q)"
proof -
  have b: "NUL \<notin> set (with_point (take n (dec_int m)) (drop n (dec_int m)))" for n m
    by (intro no_NUL_with_point no_NUL_part no_NUL_dec)
  have z: "NUL \<notin> set (with_point ''0'' (replicate n CHR ''0'' @ dec_int m))" for n m
    by (intro no_NUL_with_point) auto
  show ?thesis unfolding format_g_def Let_def by (simp add: b z z [where n = 0, simplified] split: prod.split)
qed

lemma no_NUL_number: "printed_number item = Some s \<Longrightarrow> NUL \<notin> set s"
  by (auto simp: printed_number_def Let_def no_NUL_format split: double.splits if_splits prod.splits)

lemma print_number_ok:
  assumes "pr_ok p" and "printed_number item \<noteq> None"
  shows "value_ok g p (the (printed_number item)) (print_number item p)"
proof -
  obtain s where s: "printed_number item = Some s" using assms(2) by auto
  show ?thesis
    using emit_value [OF assms(1) no_NUL_number [OF s], of "length s + 1" "length s" g] s
    by (simp add: print_number_def)
qed

section \<open>Trees\<close>

lemma deeper_simps [simp]:
  "pr_ok (deeper p) = pr_ok p" "pr_depth (deeper p) = Suc (pr_depth p)" "pr_format (deeper p) = pr_format p"
  by (simp_all add: deeper_def pr_ok_def)

lemma value_shallower:
  assumes "value_ok g (deeper p) s r"
  shows "value_ok g p s (map_option shallower r)"
proof -
  obtain ok p1 where r: "r = Some (ok, p1)"
      "if ok then \<exists>p2. update_offset p1 = Some p2 \<and> grows (deeper p) s p2 \<and> at_nul p2 else lost (deeper p) p1"
      "g \<and> can_grow (deeper p) s \<longrightarrow> ok"
    using assms by (auto simp: value_ok_def)
  have c: "can_grow (deeper p) s = can_grow p s" by (simp add: can_grow_def deeper_def)
  show ?thesis
  proof (cases ok)
    case False
    then show ?thesis using r c by (auto simp: value_ok_def shallower_def lost_def deeper_def)
  next
    case True
    then obtain p2 where p2: "update_offset p1 = Some p2" "grows (deeper p) s p2" "at_nul p2" using r(2) by auto
    have "update_offset (p1\<lparr>pr_depth := pr_depth p1 - 1\<rparr>) = Some (p2\<lparr>pr_depth := pr_depth p1 - 1\<rparr>)"
      using p2(1) by (auto simp: update_offset_def split: option.splits bind_splits)
    moreover have "pr_depth p2 = pr_depth p1"
      using p2(1) by (auto simp: update_offset_def split: option.splits bind_splits)
    then have "grows p s (p2\<lparr>pr_depth := pr_depth p1 - 1\<rparr>)"
      using p2(2) by (auto simp: grows_def deeper_def pr_ok_def pr_text_def same_print_def)
    moreover have "at_nul (p2\<lparr>pr_depth := pr_depth p1 - 1\<rparr>)" using p2(3) by (simp add: at_nul_def)
    ultimately show ?thesis using True r(1) by (auto simp: value_ok_def shallower_def)
  qed
qed

lemma value_ok_weaker: "value_ok g p s r \<Longrightarrow> (g' \<Longrightarrow> g) \<Longrightarrow> value_ok g' p s r"
  unfolding value_ok_def by blast

lemma step_ok_weaker: "step_ok g p s r \<Longrightarrow> (g' \<Longrightarrow> g) \<Longrightarrow> step_ok g' p s r"
  unfolding step_ok_def by blast

lemma step_nothing: "pr_ok p \<Longrightarrow> step_ok g p [] (Some (True, p))"
  using grows_refl by (auto simp: step_ok_def)

lemma grows_settings:
  "grows p s p1 \<Longrightarrow> pr_ok p1 \<and> pr_depth p1 = pr_depth p \<and> pr_format p1 = pr_format p"
  by (simp add: grows_def same_print_def)

lemma value_fails: "pr_ok p \<Longrightarrow> \<not> g \<Longrightarrow> value_ok g p s (Some (False, p))"
  using lost_refl by (auto simp: value_ok_def)

lemma json_types_differ:
  "cJSON_NULL \<noteq> cJSON_False" "cJSON_NULL \<noteq> cJSON_True" "cJSON_False \<noteq> cJSON_True"
  by (simp_all add: json_types)

lemma value_bracketed:
  assumes "pr_ok p" and o: "length opening \<le> needed + 1" "k \<le> length opening" "k \<le> needed" "needed \<le> k + 7"
    and inner: "\<And>p1. grows p (take k opening) p1 \<Longrightarrow> step_ok g (deeper p1) s (f (deeper p1))"
    and c: "\<And>p1. pr_ok p1 \<Longrightarrow> pr_format p1 = pr_format p \<Longrightarrow> pr_depth p1 = Suc (pr_depth p)
      \<Longrightarrow> value_ok g p1 e (h p1)"
  shows "value_ok g p (take k opening @ s @ e)
    (p_then (emit needed opening k p) (\<lambda>p1. p_then (f (deeper p1)) (\<lambda>p2. map_option shallower (h p2))))"
proof (rule step_then_value [OF emit_ok [OF assms(1) o]])
  fix p1 assume p1: "grows p (take k opening) p1"
  show "value_ok g p1 (s @ e) (p_then (f (deeper p1)) (\<lambda>p2. map_option shallower (h p2)))"
    unfolding p_then_shallower
  proof (rule value_shallower, rule step_then_value [OF inner [OF p1]])
    fix p2 assume "grows (deeper p1) s p2"
    from grows_settings [OF this] grows_settings [OF p1] show "value_ok g p2 e (h p2)" by (intro c) auto
  qed
qed

lemma emit_constant:
  assumes "pr_ok p" and "NUL \<notin> set s" and "length s \<le> needed" "needed \<le> length s + 7" and "s' = s @ [NUL]"
  shows "value_ok g p s (emit needed s' 0 p)"
  unfolding assms(5) by (rule emit_value) (use assms in auto)

lemma emit_step:
  assumes "pr_ok p" and "length s \<le> needed + 1" and "n \<le> length s" "n \<le> needed" "needed \<le> n + 7" "t = take n s"
  shows "step_ok g p t (emit needed s n p)"
  unfolding assms(6) by (rule emit_ok) (use assms in auto)

lemma print_list_ok:
  "\<lbrakk>pr_ok p; readable n; pr_format p = fmt; pr_depth p = d\<rbrakk>
    \<Longrightarrow> value_ok (printable n) p (node_text fmt d n) (print_value n p)"
  "\<lbrakk>pr_ok p; \<forall>x\<in>set xs. readable x; pr_format p = fmt; pr_depth p = d\<rbrakk>
    \<Longrightarrow> step_ok (\<forall>x\<in>set xs. printable x) p (elements_text fmt d xs) (print_elements xs p)"
  "\<lbrakk>pr_ok p; \<forall>x\<in>set xs. readable x; pr_format p = fmt; pr_depth p = d\<rbrakk>
    \<Longrightarrow> step_ok (\<forall>x\<in>set xs. printable x) p (members_text fmt d xs) (print_members xs p)"
proof (induction fmt d n and fmt d xs and fmt d xs arbitrary: p and p and p
    rule: node_text_elements_text_members_text.induct)
  case (1 fmt d c t v i x s p)
  let ?n = "cJSON_node c t v i x s" and ?t = "t mod 256"
  have p: "pr_ok p" "pr_format p = fmt" "pr_depth p = d" and r: "\<forall>y\<in>set c. readable y"
    using "1.prems" by simp_all
  consider (null) "?t = cJSON_NULL" | (false) "?t = cJSON_False" | (true) "?t = cJSON_True"
    | (number) "?t = cJSON_Number" | (raw) "?t = cJSON_Raw" | (string) "?t = cJSON_String"
    | (array) "?t = cJSON_Array" | (object) "?t = cJSON_Object"
    | (other) "?t \<notin> {cJSON_NULL, cJSON_False, cJSON_True, cJSON_Number, cJSON_Raw, cJSON_String, cJSON_Array, cJSON_Object}"
    by blast
  then show ?case
  proof cases
    case null
    then show ?thesis using emit_constant [OF p(1), of "''null''" 5] by (simp add: print_value.simps)
  next
    case false
    then show ?thesis using emit_constant [OF p(1), of "''false''" 6]
      by (simp add: print_value.simps json_types)
  next
    case true
    then show ?thesis using emit_constant [OF p(1), of "''true''" 5]
      by (simp add: print_value.simps json_types)
  next
    case number
    then have "printed_number ?n \<noteq> None" using "1.prems" by simp
    then show ?thesis using number print_number_ok [OF p(1), of ?n] by (simp add: print_value.simps json_types)
  next
    case raw
    then show ?thesis
      using emit_constant [OF p(1), of "the v" "length (the v) + 1" "the v @ [NUL]"] "1.prems"(2) value_fails [OF p(1), of False]
      by (cases v) (simp_all add: print_value.simps json_types cJSON_Raw_def)
  next
    case string
    then show ?thesis
      using print_string_ok [OF p(1), of v] "1.prems"(2)
      by (simp add: print_value.simps json_types cJSON_Raw_def print_string_def)
  next
    case array
    have "value_ok (\<forall>y\<in>set c. printable y) p (take 1 ''['' @ elements_text fmt (Suc d) c @ '']'') (p_then (emit 1 ''['' 1 p) (\<lambda>p1.
        p_then (print_elements c (deeper p1)) (\<lambda>p2. map_option shallower (emit 2 ('']'' @ [NUL]) 0 p2))))"
    proof (rule value_bracketed [OF p(1)])
      fix p1 assume "grows p (take 1 ''['') p1"
      from grows_settings [OF this] show "step_ok (\<forall>y\<in>set c. printable y) (deeper p1)
          (elements_text fmt (Suc d) c) (print_elements c (deeper p1))"
        using array p r by (intro "1.IH"(1)) (auto simp: json_types cJSON_Raw_def)
    next
      fix p1 assume "pr_ok p1" then show "value_ok (\<forall>y\<in>set c. printable y) p1 '']'' (emit 2 ('']'' @ [NUL]) 0 p1)"
        by (rule emit_constant) simp_all
    qed simp_all
    then show ?thesis using array
      by (simp add: print_value.simps json_types cJSON_Raw_def value_ok_weaker)
  next
    case object
    let ?o = "if fmt then [CHR ''{'', NL] else ''{''"
    let ?e = "(if fmt then replicate d TAB else []) @ ''}''"
    have "value_ok (\<forall>y\<in>set c. printable y) p (take (if fmt then 2 else 1) ?o @ members_text fmt (Suc d) c @ ?e)
        (p_then (emit (if fmt then 3 else 2) ?o (if fmt then 2 else 1) p) (\<lambda>p1.
        p_then (print_members c (deeper p1)) (\<lambda>p2.
        map_option shallower
          (emit (if pr_format p2 then pr_depth p2 + 1 else 2)
             ((if pr_format p2 then replicate (pr_depth p2 - 1) TAB else []) @ [CHR ''}'', NUL]) 0 p2))))"
    proof (rule value_bracketed [OF p(1)])
      fix p1 assume "grows p (take (if fmt then 2 else 1) ?o) p1"
      from grows_settings [OF this] show "step_ok (\<forall>y\<in>set c. printable y) (deeper p1)
          (members_text fmt (Suc d) c) (print_members c (deeper p1))"
        using object p r by (intro "1.IH"(2)) (auto simp: json_types cJSON_Raw_def)
    next
      fix p1 assume p1: "pr_ok p1" "pr_format p1 = pr_format p" "pr_depth p1 = Suc (pr_depth p)"
      then show "value_ok (\<forall>y\<in>set c. printable y) p1 ?e (emit (if pr_format p1 then pr_depth p1 + 1 else 2)
             ((if pr_format p1 then replicate (pr_depth p1 - 1) TAB else []) @ [CHR ''}'', NUL]) 0 p1)"
        using p by (intro emit_constant) (auto simp: TAB_def)
    qed auto
    moreover have "take (if fmt then 2 else 1) ?o = CHR ''{'' # (if fmt then [NL] else [])" by simp
    ultimately show ?thesis using object p(2)
      by (simp add: print_value.simps json_types cJSON_Raw_def split del: if_split cong: if_cong)
  next
    case other
    then show ?thesis using value_fails [OF p(1), of "printable ?n"] by (simp add: print_value.simps)
  qed
next
  case (2 fmt d p)
  then show ?case using step_nothing by simp
next
  case (3 fmt d x xs p)
  let ?g = "\<forall>y\<in>set (x # xs). printable y" and ?sep = "if fmt then '', '' else '',''"
  have p: "pr_ok p" "pr_format p = fmt" "pr_depth p = d" using "3.prems" by simp_all
  have v: "value_ok ?g p (node_text fmt d x) (print_value x p)"
    by (rule value_ok_weaker [OF "3.IH"(1)]) (use "3.prems" in auto)
  show ?case
    unfolding elements_text.simps print_elements.simps
  proof (rule value_then [OF v])
    fix p1 assume "grows p (node_text fmt d x) p1"
    then have p1: "pr_ok p1" "pr_format p1 = fmt" "pr_depth p1 = d" using grows_settings p by simp_all
    show "step_ok ?g p1 ((if xs = [] then [] else ?sep) @ elements_text fmt d xs)
        (if xs = [] then Some (True, p1) else p_then (emit (if pr_format p1 then 3 else 2)
          ((if pr_format p1 then '', '' else '','') @ [NUL]) (if pr_format p1 then 2 else 1) p1) (print_elements xs))"
    proof (cases "xs = []")
      case True
      then show ?thesis using step_nothing [OF p1(1)] by simp
    next
      case False
      have "step_ok ?g p1 (?sep @ elements_text fmt d xs) (p_then (emit (if fmt then 3 else 2)
          (?sep @ [NUL]) (if fmt then 2 else 1) p1) (print_elements xs))"
      proof (rule step_then)
        show "step_ok ?g p1 ?sep (emit (if fmt then 3 else 2) (?sep @ [NUL]) (if fmt then 2 else 1) p1)"
          by (rule emit_step [OF p1(1)]) auto
        fix p2 assume "grows p1 ?sep p2"
        from grows_settings [OF this] p1 show "step_ok ?g p2 (elements_text fmt d xs) (print_elements xs p2)"
          by (intro step_ok_weaker [OF "3.IH"(2)]) (use "3.prems" in auto)
      qed
      then show ?thesis using False by (simp only: p1(2) if_False)
    qed
  qed
next
  case (4 fmt d p)
  then show ?case using step_nothing by simp
next
  case (5 fmt d x xs p)
  let ?g = "\<forall>y\<in>set (x # xs). printable y" and ?colon = "if fmt then [CHR '':'', TAB] else '':''"
  let ?stop = "(if xs = [] then [] else '','') @ (if fmt then [NL] else [])"
  have p: "pr_ok p" "pr_format p = fmt" "pr_depth p = d" using "5.prems" by simp_all
  have rx: "readable x" using "5.prems" by simp
  show ?case
    unfolding members_text.simps print_members.simps
  proof (rule step_then)
    show "step_ok ?g p (if fmt then replicate d TAB else [])
        (if pr_format p then emit (pr_depth p) (replicate (pr_depth p) TAB) (pr_depth p) p else Some (True, p))"
      using p emit_step [OF p(1), of "replicate d TAB" d d] step_nothing [OF p(1)] by simp
  next
    fix p1 assume "grows p (if fmt then replicate d TAB else []) p1"
    then have p1: "pr_ok p1" "pr_format p1 = fmt" "pr_depth p1 = d" using grows_settings p by simp_all
    have name: "value_ok ?g p1 (string_text (jstring x)) (print_string_ptr (jstring x) p1)"
      by (rule print_string_ok [OF p1(1)]) (use rx in \<open>cases x; simp\<close>)
    show "step_ok ?g p1 (string_text (jstring x) @ ?colon @ node_text fmt d x @ ?stop @ members_text fmt d xs)
      (p_then (print_string_ptr (jstring x) p1) (\<lambda>p2. p_then (updated p2) (\<lambda>p3.
       p_then (emit (if pr_format p3 then 2 else 1) (if pr_format p3 then [CHR '':'', TAB] else '':'')
               (if pr_format p3 then 2 else 1) p3) (\<lambda>p4.
       p_then (print_value x p4) (\<lambda>p5. p_then (updated p5) (\<lambda>p6.
       let s = (if xs = [] then [] else '','') @ (if pr_format p6 then [NL] else [])
       in p_then (emit (length s + 1) (s @ [NUL]) (length s) p6) (print_members xs)))))))"
    proof (rule value_then [OF name], rule step_then)
      fix p3 assume "grows p1 (string_text (jstring x)) p3"
      then have p3: "pr_ok p3" "pr_format p3 = fmt" "pr_depth p3 = d" using grows_settings p1 by simp_all
      show "step_ok ?g p3 ?colon (emit (if pr_format p3 then 2 else 1)
          (if pr_format p3 then [CHR '':'', TAB] else '':'') (if pr_format p3 then 2 else 1) p3)"
        by (rule emit_step [OF p3(1)]) (auto simp: p3(2))
      fix p4 assume "grows p3 ?colon p4"
      then have p4: "pr_ok p4" "pr_format p4 = fmt" "pr_depth p4 = d" using grows_settings p3 by simp_all
      have v: "value_ok ?g p4 (node_text fmt d x) (print_value x p4)"
        by (rule value_ok_weaker [OF "5.IH"(1)]) (use p4 rx in auto)
      show "step_ok ?g p4 (node_text fmt d x @ ?stop @ members_text fmt d xs)
        (p_then (print_value x p4) (\<lambda>p5. p_then (updated p5) (\<lambda>p6.
         let s = (if xs = [] then [] else '','') @ (if pr_format p6 then [NL] else [])
         in p_then (emit (length s + 1) (s @ [NUL]) (length s) p6) (print_members xs))))"
      proof (rule value_then [OF v], unfold Let_def, rule step_then)
        fix p6 assume "grows p4 (node_text fmt d x) p6"
        then have p6: "pr_ok p6" "pr_format p6 = fmt" "pr_depth p6 = d" using grows_settings p4 by simp_all
        show "step_ok ?g p6 ?stop (emit (length ((if xs = [] then [] else '','') @ (if pr_format p6 then [NL] else [])) + 1)
            (((if xs = [] then [] else '','') @ (if pr_format p6 then [NL] else [])) @ [NUL])
            (length ((if xs = [] then [] else '','') @ (if pr_format p6 then [NL] else []))) p6)"
          by (rule emit_step [OF p6(1)]) (auto simp: p6(2))
        fix p7 assume "grows p6 ?stop p7"
        from grows_settings [OF this] p6 show "step_ok ?g p7 (members_text fmt d xs) (print_members xs p7)"
          by (intro step_ok_weaker [OF "5.IH"(2)]) (use "5.prems" in auto)
      qed
    qed
  qed
qed

section \<open>Entry points\<close>

lemma value_printed:
  assumes "value_ok g p s r" and "pr_offset p = 0"
  obtains (fail) p1 where "r = Some (False, p1)" "lost p p1" "\<not> (g \<and> can_grow p s)"
    | (ok) p1 block where "r = Some (True, p1)" "pr_buffer p1 = Some block" "length block = pr_length p1"
      "length s < length block"
      "take (length s + 1) block = map Some (s @ [NUL])" "pr_live p1 = pr_live p" "pr_realloc p1 = pr_realloc p"
      "pr_allocs p = [] \<Longrightarrow> pr_allocs p1 = []"
      "update_offset p1 = Some (p1\<lparr>pr_offset := length s\<rparr>)"
proof -
  obtain b p1 where r: "r = Some (b, p1)"
      "if b then \<exists>p2. update_offset p1 = Some p2 \<and> grows p s p2 \<and> at_nul p2 else lost p p1" "g \<and> can_grow p s \<longrightarrow> b"
    using assms(1) by (auto simp: value_ok_def)
  show ?thesis
  proof (cases b)
    case False
    then show ?thesis using r fail by simp
  next
    case True
    then obtain p2 where p2: "update_offset p1 = Some p2" "grows p s p2" "at_nul p2" using r(2) by auto
    then obtain block where b: "pr_buffer p2 = Some block" "length block = pr_length p2"
      by (auto simp: grows_def pr_ok_def)
    have u: "p2 = p1\<lparr>pr_offset := pr_offset p2\<rparr>" "pr_buffer p1 = Some block"
      using p2(1) b(1) by (auto simp: update_offset_def split: option.splits bind_splits)
    have o: "pr_offset p2 = length s" using p2(2) assms(2) by (simp add: grows_def)
    have l: "length s < length block" using p2(3) b o by (simp add: at_nul_def)
    have "take (length s) block = map Some s" "block ! length s = Some NUL"
      using p2(2,3) b o assms(2) by (simp_all add: grows_def pr_text_def at_nul_def)
    then have "take (length s + 1) block = map Some (s @ [NUL])" using l by (simp add: take_Suc_conv_app_nth)
    moreover have "pr_length p2 = pr_length p1" "pr_live p2 = pr_live p1" "pr_realloc p2 = pr_realloc p1"
        "pr_allocs p2 = pr_allocs p1" by (subst u(1), simp)+
    ultimately show ?thesis using True r(1) u b(2) l p2 o
      by (intro ok [of p1 block]) (simp_all add: grows_def same_print_def)
  qed
qed

lemma print_item_ok:
  assumes "readable n"
  shows "\<exists>r p. cjson_print (Some n) fmt re al = Some (r, p)
    \<and> (case r of None \<Rightarrow> pr_live p = 0 | Some block \<Rightarrow> block = map Some (node_text fmt 0 n @ [NUL]) \<and> pr_live p = 1)
    \<and> (al = [] \<and> printable n \<and> int (length (node_text fmt 0 n)) + 8 \<le> INT_MAX div 2 \<longrightarrow> r \<noteq> None)"
proof -
  let ?s = "node_text fmt 0 n"
  obtain a al1 where m: "malloc_ok al = (a, al1)" by (cases "malloc_ok al")
  have al: "al = [] \<Longrightarrow> a \<and> al1 = []" using m by (auto simp: malloc_ok_def)
  let ?p = "\<lparr>pr_buffer = Some (replicate 256 None), pr_length = 256, pr_offset = 0, pr_depth = 0, pr_noalloc = False,
                pr_format = fmt, pr_realloc = re, pr_allocs = al1, pr_live = 1\<rparr>"
  show ?thesis
  proof (cases a)
    case False
    then show ?thesis using m al by (auto simp: cjson_print_def)
  next
    case True
    have v: "value_ok (printable n) ?p ?s (print_value n ?p)"
      by (rule print_list_ok(1)) (simp_all add: pr_ok_def assms)
    have o: "pr_offset ?p = 0" by simp
    show ?thesis
    proof (cases rule: value_printed [OF v o])
      case (1 p1)
      then show ?thesis using m True al by (auto simp: cjson_print_def lost_def can_grow_def)
    next
      case (2 p1 block)
      obtain b al2 where m2: "malloc_ok (pr_allocs p1) = (b, al2)" by (cases "malloc_ok (pr_allocs p1)")
      have b: "al = [] \<Longrightarrow> b" using m2 2(8) al by (auto simp: malloc_ok_def)
      let ?p2 = "p1\<lparr>pr_offset := length ?s\<rparr>"
      have "min (pr_length ?p2) (pr_offset ?p2 + 1) = length ?s + 1" using 2(3,4) by simp
      then have r: "cjson_print (Some n) fmt re al = (if b then Some (Some (map Some (?s @ [NUL])),
            ?p2\<lparr>pr_buffer := None, pr_allocs := al2\<rparr>)
          else Some (None, ?p2\<lparr>pr_allocs := al2, pr_buffer := None, pr_live := pr_live p1 - 1\<rparr>))"
        using m True m2 2 by (simp add: cjson_print_def list_update_append)
      show ?thesis using 2(6) b by (cases b) (auto simp: r)
    qed
  qed
qed

lemma print_preallocated_ok:
  assumes "readable n" and "length block = nat len" and "0 \<le> len"
  shows "\<exists>ok b. cJSON_PrintPreallocated (Some n) (Some block) len fmt = Some (ok, b)
    \<and> (ok \<longrightarrow> (\<exists>block'. b = Some block'
         \<and> take (length (node_text fmt 0 n) + 1) block' = map Some (node_text fmt 0 n @ [NUL])))"
proof -
  let ?p = "\<lparr>pr_buffer = Some block, pr_length = nat len, pr_offset = 0, pr_depth = 0, pr_noalloc = True,
                     pr_format = fmt, pr_realloc = True, pr_allocs = [], pr_live = 0\<rparr>"
  have v: "value_ok (printable n) ?p (node_text fmt 0 n) (print_value n ?p)"
    by (rule print_list_ok(1)) (use assms in \<open>auto simp: pr_ok_def\<close>)
  have o: "pr_offset ?p = 0" by simp
  show ?thesis
  proof (cases rule: value_printed [OF v o])
    case (1 p1)
    then show ?thesis using assms(3) by (auto simp: cJSON_PrintPreallocated_def)
  next
    case (2 p1 b)
    then show ?thesis using assms(3) by (auto simp: cJSON_PrintPreallocated_def)
  qed
qed

end
