(* ===== verification/JsonReadBack.thy ===== *)
theory JsonReadBack
  imports JsonPrintFacts JsonUtf8
begin

text \<open>
  The parser of cJSON on the texts that its printer writes: every kind of node is read back from its
  text, whatever follows it.
\<close>

section \<open>What the buffer holds ahead\<close>

fun holds_at :: "bytes \<Rightarrow> nat \<Rightarrow> string \<Rightarrow> bool" where
  "holds_at mem p [] = True"
| "holds_at mem p (c # s) = (mem_at mem p = Some c \<and> holds_at mem (Suc p) s)"

lemma holds_at_append [simp]: "holds_at mem p (s @ t) = (holds_at mem p s \<and> holds_at mem (p + length s) t)"
  by (induction s arbitrary: p) auto

definition ahead :: "parse_buffer \<Rightarrow> string \<Rightarrow> bool" where
  "ahead b s \<longleftrightarrow> holds_at (pb_content b) (pb_offset b) s \<and> pb_offset b + length s \<le> pb_length b \<and> pb_allocs b = []"

text \<open>The buffer moved forward by \<open>k\<close>; the count of blocks may have changed.\<close>

definition moved :: "parse_buffer \<Rightarrow> nat \<Rightarrow> parse_buffer \<Rightarrow> bool" where
  "moved b k b' \<longleftrightarrow> pb_content b' = pb_content b \<and> pb_length b' = pb_length b \<and> pb_offset b' = pb_offset b + k
     \<and> pb_allocs b' = pb_allocs b"

lemma ahead_prefix: "ahead b (s @ t) \<Longrightarrow> ahead b s"
  by (simp add: ahead_def)

lemma ahead_moved: "ahead b (s @ t) \<Longrightarrow> moved b (length s) b' \<Longrightarrow> ahead b' t"
  by (simp add: ahead_def moved_def add.assoc)

lemma moved_trans: "moved b k b1 \<Longrightarrow> moved b1 m b2 \<Longrightarrow> moved b (k + m) b2"
  by (simp add: moved_def)

lemma moved_step: "moved b k (step_forward b k)"
  by (simp add: moved_def)

lemma moved_refl: "moved b 0 b"
  by (simp add: moved_def)

lemma ahead_access: "ahead b (c # s) \<Longrightarrow> can_access_at_index b 0 \<and> buffer_at b 0 = Some c"
  by (simp add: ahead_def can_access_at_index_def buffer_at_def)

lemma ahead_looking: "ahead b (c # s) \<Longrightarrow> looking_at b x = Some (c = x)"
  using ahead_access [of b c s] by (simp add: looking_at_def)

lemma ahead_allocate: "ahead b s \<Longrightarrow> pb_allocate b = (True, b\<lparr>pb_live := pb_live b + 1\<rparr>)"
  by (simp add: ahead_def pb_allocate_def malloc_ok_def)

lemma ahead_live [simp]: "ahead (b\<lparr>pb_live := n\<rparr>) s = ahead b s"
  by (simp add: ahead_def)

lemma moved_live [simp]: "moved (b\<lparr>pb_live := n\<rparr>) k b' = moved b k b'" "moved b k (b'\<lparr>pb_live := n\<rparr>) = moved b k b'"
  by (simp_all add: moved_def)

definition blanks :: "string \<Rightarrow> bool" where
  "blanks ws \<longleftrightarrow> (\<forall>c \<in> set ws. (of_char c :: nat) \<le> 32)"

lemma skip_loop_blanks:
  assumes "blanks ws" and "ahead b (ws @ [c])" and "\<not> (of_char c :: nat) \<le> 32"
  shows "skip_loop b = Some (step_forward b (length ws))"
  using assms
proof (induction ws arbitrary: b)
  case Nil
  then show ?case using ahead_access [of b c "[]"] by (simp add: skip_loop.simps [of b] step_forward_def)
next
  case (Cons w ws)
  have "ahead (step_forward b 1) (ws @ [c])"
    using ahead_moved [of b "[w]" "ws @ [c]"] Cons.prems(2) moved_step [of b 1] by simp
  then have "skip_loop (step_forward b 1) = Some (step_forward (step_forward b 1) (length ws))"
    using Cons by (simp add: blanks_def)
  then show ?case
    using ahead_access [of b w "ws @ [c]"] Cons.prems by (simp add: skip_loop.simps [of b] blanks_def step_forward_def)
qed

lemma skip_blanks:
  assumes "blanks ws" and "ahead b (ws @ [c])" and "\<not> (of_char c :: nat) \<le> 32"
  shows "buffer_skip_whitespace b = Some (step_forward b (length ws))"
proof -
  have a: "can_access_at_index b 0" using assms(2) by (simp add: ahead_def can_access_at_index_def)
  have "pb_offset (step_forward b (length ws)) \<noteq> pb_length b" using assms(2) by (simp add: ahead_def)
  then show ?thesis using skip_loop_blanks [OF assms] a by (simp add: buffer_skip_whitespace_def)
qed

lemma skip_nothing: "ahead b (c # s) \<Longrightarrow> \<not> (of_char c :: nat) \<le> 32 \<Longrightarrow> buffer_skip_whitespace b = Some b"
  using skip_blanks [of "[]" b c] ahead_prefix [of b "[c]" s] by (simp add: blanks_def step_forward_def)

section \<open>Words\<close>

lemma mem_starts_holds: "holds_at mem p s \<Longrightarrow> mem_starts mem p s = Some True"
  by (induction s arbitrary: p) auto

lemma reads_word_there: "ahead b (s @ t) \<Longrightarrow> reads_word b s = Some True"
  by (simp add: reads_word_def ahead_def buffer_can_read_def buffer_starts_def mem_starts_holds)

lemma reads_word_other: "ahead b (x # t) \<Longrightarrow> x \<noteq> c \<Longrightarrow> reads_word b (c # s) = Some False"
  by (simp add: reads_word_def ahead_def buffer_starts_def)

section \<open>Strings\<close>

text \<open>The number of backslashes the first loop of the parser counts.\<close>

definition special :: "char \<Rightarrow> bool" where
  "special c \<longleftrightarrow> escape_size c \<noteq> 0"

lemma hex_lower_plain: "n < 16 \<Longrightarrow> hex_lower n \<noteq> CHR 0x22 \<and> hex_lower n \<noteq> CHR 0x5C"
  using hex_lower_set [of n] by auto

lemma special_cases:
  obtains (plain) "\<not> special c" "escaped c = [c]" "c \<noteq> CHR 0x22" "c \<noteq> CHR 0x5C"
    | (short) d where "special c" "escaped c = [CHR 0x5C, d]" "short_escape d = Some c"
    | (long) h l where "special c" "escaped c = CHR 0x5C # ''u00'' @ [h, l]" "h = hex_lower (of_char c div 16)"
        "l = hex_lower (of_char c mod 16)" "(of_char c :: nat) < 32"
proof (cases "escape_code c")
  case None
  then have c: "c \<noteq> CHR 0x22" "c \<noteq> CHR 0x5C" by (auto simp: escape_code_def split: if_splits)
  show ?thesis
  proof (cases "(of_char c :: nat) < 32")
    case True
    then show ?thesis using None that(3) by (simp add: special_def escape_size_def escaped_def u_escape_def)
  next
    case False
    then show ?thesis using None c that(1) by (simp add: special_def escape_size_def escaped_def)
  qed
next
  case (Some d)
  then have "short_escape d = Some c" by (auto simp: escape_code_def short_escape_def split: if_splits)
  then show ?thesis using that(2) [of d] Some by (simp add: special_def escape_size_def escaped_def)
qed

lemma string_end_escaped:
  assumes "holds_at (pb_content b) k (concat (map escaped s) @ [CHR 0x22])"
    and "k + length (concat (map escaped s)) < pb_length b"
  shows "string_end b k m = Some (Some (k + length (concat (map escaped s)), m + length (filter special s)))"
  using assms
proof (induction s arbitrary: k m)
  case Nil
  then show ?case by (simp add: string_end.simps [of b k m])
next
  case (Cons c s)
  let ?t = "concat (map escaped s)"
  have h: "holds_at (pb_content b) k (escaped c)" "holds_at (pb_content b) (k + length (escaped c)) (?t @ [CHR 0x22])"
    and l: "k + length (escaped c) + length ?t < pb_length b" using Cons.prems by (simp_all add: add.assoc)
  note ih = Cons.IH [OF h(2) l]
  show ?case
  proof (cases c rule: special_cases)
    case plain
    then show ?thesis using h(1) l ih [of m] by (simp add: string_end.simps [of b k m])
  next
    case (short d)
    then show ?thesis using h(1) l ih [of "m + 1"] by (simp add: string_end.simps [of b k m])
  next
    case (long h' l')
    have p: "h' \<noteq> CHR 0x22" "h' \<noteq> CHR 0x5C" "l' \<noteq> CHR 0x22" "l' \<noteq> CHR 0x5C"
      using hex_lower_plain [of "of_char c div 16"] hex_lower_plain [of "of_char c mod 16"] long(3-5) by auto
    show ?thesis using long(1,2) p h(1) l ih [of "m + 1"]
      by (simp add: string_end.simps [of b k m] string_end.simps [of b "Suc (Suc k)"]
          string_end.simps [of b "Suc (Suc (Suc k))"] string_end.simps [of b "Suc (Suc (Suc (Suc k)))"]
          string_end.simps [of b "Suc (Suc (Suc (Suc (Suc k))))"] eval_nat_numeral)
  qed
qed

lemma hex_lower_value: "n < 16 \<Longrightarrow> hex_digit_value (hex_lower n) = Some (of_nat n)"
proof -
  have "\<forall>n \<in> set [0..<16]. hex_digit_value (hex_lower n) = Some (of_nat n)" by code_simp
  moreover assume "n < 16"
  ultimately show ?thesis by simp
qed

lemma u_escape_literal:
  assumes "holds_at mem p (CHR 0x5C # ''u00'' @ [hex_lower (of_char c div 16), hex_lower (of_char c mod 16)])"
    and "(of_char c :: nat) < 32" and "p + 6 \<le> e"
  shows "utf16_literal_to_utf8 mem p e = Some (6, [c])"
proof -
  let ?n = "of_char c :: nat"
  have z: "hex_digit_value CHR ''0'' = Some 0" using hex_lower_value [of 0] by (simp add: hex_lower_def)
  have d: "hex_digit_value (hex_lower (?n div 16)) = Some (of_nat (?n div 16))"
    using assms(2) less_mult_imp_div_less [of ?n 16 16] by (intro hex_lower_value) simp
  have m: "hex_digit_value (hex_lower (?n mod 16)) = Some (of_nat (?n mod 16))"
    by (rule hex_lower_value) simp
  have "parse_hex4 mem (p + 2) = Some (push_bit 4 (of_nat (?n div 16)) + of_nat (?n mod 16))"
  proof -
    have four: "(4 :: nat) = Suc (Suc (Suc (Suc 0)))" by simp
    have two: "p + 2 = Suc (Suc p)" by simp
    show ?thesis unfolding parse_hex4_def four two using assms(1) z d m by (simp add: push_bit_eq_mult)
  qed
  also have "push_bit 4 (of_nat (?n div 16)) + of_nat (?n mod 16) = (of_nat (16 * (?n div 16) + ?n mod 16) :: u32)"
    unfolding push_bit_eq_mult of_nat_add of_nat_mult by (simp add: mult.commute)
  also have "16 * (?n div 16) + ?n mod 16 = ?n" by simp
  finally have h: "parse_hex4 mem (p + 2) = Some (of_nat ?n)" .
  have u: "unat (of_nat ?n :: u32) = ?n" using assms(2) by (simp add: unat_of_nat take_bit_nat_eq_self)
  have "utf16_literal_to_utf8 mem p e = Some (6, map char_of (utf8_of (unat (of_nat ?n :: u32))))"
    by (rule literal_single [OF assms(3) h]) (use assms(2) u in \<open>simp_all add: word_le_nat_alt\<close>)
  then show ?thesis using assms(2) u by (simp add: utf8_of_def)
qed

lemma unescape_escaped:
  assumes "holds_at mem p (concat (map escaped s))" and "e = p + length (concat (map escaped s))"
    and "length out + length s \<le> cap"
  shows "unescape mem e cap p out = Some (e, Some (out @ s))"
  using assms
proof (induction s arbitrary: p out)
  case Nil
  then show ?case by (simp add: unescape.simps [of mem p cap p])
next
  case (Cons c s)
  let ?t = "concat (map escaped s)"
  have h: "holds_at mem p (escaped c)" "holds_at mem (p + length (escaped c)) ?t"
    and e: "e = (p + length (escaped c)) + length ?t" using Cons.prems by (simp_all add: add.assoc)
  have put: "put_bytes cap out [c] = Some (out @ [c])" using Cons.prems(3) by (simp add: put_bytes_def)
  have "unescape mem e cap (p + length (escaped c)) (out @ [c]) = Some (e, Some ((out @ [c]) @ s))"
    by (rule Cons.IH [OF h(2) e]) (use Cons.prems(3) in simp)
  then have ih: "unescape mem e cap (p + length (escaped c)) (out @ [c]) = Some (e, Some (out @ c # s))" by simp
  have lt: "p < e" and six: "length (escaped c) = 6 \<Longrightarrow> p + 6 \<le> e" using e length_escaped [of c] by simp_all
  show ?case
  proof (cases c rule: special_cases)
    case plain
    then show ?thesis using h(1) lt ih put by (simp add: unescape.simps [of mem e cap p])
  next
    case (short d)
    then show ?thesis using h(1) lt ih put by (simp add: unescape.simps [of mem e cap p])
  next
    case (long h' l')
    have "short_escape CHR ''u'' = None" by (simp add: short_escape_def)
    moreover have "utf16_literal_to_utf8 mem p e = Some (6, [c])"
      by (rule u_escape_literal) (use h(1) long six in auto)
    ultimately show ?thesis using h(1) long(2) lt ih put
      by (simp add: unescape.simps [of mem e cap p] eval_nat_numeral)
  qed
qed

definition blank :: "cJSON \<Rightarrow> string option \<Rightarrow> bool" where
  "blank item s \<longleftrightarrow> (\<exists>t. item = cJSON_node [] t None 0 (Fin 0) s)"

lemma length_filter_special: "length s + length (filter special s) \<le> length (concat (map escaped s))"
  by (induction s) (auto simp: length_escaped special_def)

lemma parse_string_text:
  assumes "ahead b (string_text (Some x))" and "NUL \<notin> set x"
  shows "\<exists>b'. parse_string item b = Some (True, with_valuestring (Some x) (with_type cJSON_String item), b')
    \<and> moved b (length (string_text (Some x))) b'"
proof -
  let ?t = "concat (map escaped x)" and ?k = "pb_offset b + 1"
  let ?e = "?k + length ?t" and ?m = "length (filter special x)"
  have a: "buffer_at b 0 = Some (CHR 0x22)" "holds_at (pb_content b) ?k (?t @ [CHR 0x22])" "?k + length ?t < pb_length b"
    using assms(1) by (simp_all add: ahead_def string_text_def buffer_at_def)
  have e: "string_end b ?k 0 = Some (Some (?e, ?m))" using string_end_escaped [OF a(2,3), of 0] by simp
  have cap: "length x + 1 \<le> ?e - pb_offset b - ?m" using length_filter_special [of x] by simp
  have u: "unescape (pb_content b) ?e (?e - pb_offset b - ?m + 1) ?k [] = Some (?e, Some x)"
    using unescape_escaped [of "pb_content b" ?k x ?e "[]" "?e - pb_offset b - ?m + 1"] a(2) cap by simp
  have w: "put_bytes (?e - pb_offset b - ?m + 1) x [NUL] = Some (x @ [NUL])" using cap by (simp add: put_bytes_def)
  have c: "c_str (x @ [NUL]) = Some x" using c_str_append_NUL [OF assms(2), of "[]"] by simp
  have "parse_string item b = Some (True, with_valuestring (Some x) (with_type cJSON_String item),
      b\<lparr>pb_live := pb_live b + 1, pb_offset := ?e + 1\<rparr>)"
    unfolding parse_string_def using a(1) e ahead_allocate [OF assms(1)] u w c by (simp add: Let_def)
  moreover have "moved b (length (string_text (Some x))) (b\<lparr>pb_live := pb_live b + 1, pb_offset := ?e + 1\<rparr>)"
    by (simp add: moved_def string_text_def)
  ultimately show ?thesis by blast
qed

section \<open>Numbers\<close>

lemma round_half_even_int [simp]: "round_half_even (of_int m) = m"
  by (simp add: round_half_even_def Let_def)

lemma log2_floor_int:
  assumes "0 < n" and "n < 2 ^ 53"
  shows "log2_floor (of_int n) \<le> 52"
proof -
  have "bitlen n \<le> 53" using assms bitlen_le_iff_power [of n 53] by simp
  moreover have "bitlen 1 = 1" by (simp add: bitlen_def compute_floorlog)
  moreover have "0 \<le> bitlen n" by (rule bitlen_nonneg)
  ultimately show ?thesis by (simp add: log2_floor_def Let_def)
qed

lemma round_double_int:
  assumes "\<bar>i\<bar> < 2 ^ 53"
  shows "round_double (of_int i) = Fin (of_int i)"
proof (cases "i = 0")
  case False
  define n where "n = \<bar>i\<bar>"
  define u where "u = max (log2_floor (of_int n) - 52) (- 1074)"
  have n: "0 < n" "n < 2 ^ 53" using False assms by (simp_all add: n_def)
  have u: "u \<le> 0" using log2_floor_int [OF n] by (simp add: u_def)
  define k where "k = nat (- u)"
  have p: "(2 :: rat) powi u = 1 / 2 ^ k"
  proof -
    have "u = - int k" using u by (simp add: k_def)
    then show ?thesis by (simp only: power_int_minus power_int_of_nat) (simp add: divide_inverse)
  qed
  have "of_int n / (2 :: rat) powi u = of_int (n * 2 ^ k)" by (simp add: p)
  then have v: "of_int (round_half_even (of_int n / 2 powi u)) * (2 :: rat) powi u = of_int n" by (simp only: round_half_even_int) (simp add: p)
  have "(of_int n :: rat) < 2 ^ 53" 
  proof -
    have "(of_int n :: rat) < of_int (2 ^ 53)" using n(2) by (simp only: of_int_less_iff)
    then show ?thesis by (simp only: of_int_power of_int_numeral)
  qed
  moreover have "(2 :: rat) ^ 53 \<le> 2 ^ 1024" by (rule power_increasing) simp_all
  ultimately have "(of_int n :: rat) < 2 ^ 1024" by (rule less_le_trans)
  then have lim: "\<not> (of_int n :: rat) \<ge> 2 powi 1024" unfolding power_int_numeral by (simp only: not_le)
  have a: "\<bar>of_int i :: rat\<bar> = of_int n" by (simp add: n_def)
  have z: "(of_int i :: rat) \<noteq> 0" using False by simp
  show ?thesis
    unfolding round_double_def Let_def a u_def [symmetric] v if_not_P [OF lim] if_not_P [OF z] by (simp add: n_def)
qed (simp add: round_double_def)

lemma is_digit_char_digit: "is_digit_char c = is_digit c"
  by (simp add: is_digit_char_def is_digit_def)

lemma digits_value_dec: "digits_value (dec_nat n) = int n"
proof -
  have "foldl (\<lambda>v c. 10 * v + (of_char c - 48)) (int a) ds = int (foldl (\<lambda>n c. 10 * n + digit_val c) a ds)"
    if "\<forall>c \<in> set ds. is_digit c" for ds a
    using that
  proof (induction ds arbitrary: a)
    case (Cons c ds)
    have "48 \<le> (of_char c :: nat)" using Cons.prems by (simp add: is_digit_def)
    then have "of_char c - 48 = int (digit_val c)" by (simp add: digit_val_def of_nat_diff of_nat_of_char)
    then show ?case using Cons.IH [of "10 * a + digit_val c"] Cons.prems by simp
  qed simp
  from this [OF dec_nat_digits, of 0 n] show ?thesis
    using nat_of_dec_nat [of n] by (simp add: digits_value_def nat_of_dec_def)
qed

lemma take_sign_digits: "s \<noteq> [] \<Longrightarrow> is_digit (hd s) \<Longrightarrow> take_sign s = (False, s)"
  by (cases s) (auto simp: take_sign_def is_digit_def)

lemma takeWhile_digits: "\<forall>c \<in> set s. is_digit c \<Longrightarrow> takeWhile is_digit_char s = s"
  by (simp add: takeWhile_eq_all_conv is_digit_char_digit)

lemma strtod_dec:
  assumes "\<bar>i\<bar> < 2 ^ 53"
  shows "strtod (dec_int i) = (Fin (of_int i), length (dec_int i))"
proof -
  let ?d = "dec_nat (nat \<bar>i\<bar>)"
  have sign: "take_sign (dec_int i) = (i < 0, ?d)"
  proof (cases "i < 0")
    case True
    then show ?thesis by (simp add: dec_int_def take_sign_def)
  next
    case False
    have "is_digit (hd ?d)" using dec_nat_digits [of "nat \<bar>i\<bar>"] by (metis dec_nat_not_Nil hd_in_set)
    then show ?thesis using False take_sign_digits [OF dec_nat_not_Nil] by (simp add: dec_int_def)
  qed
  have t: "takeWhile is_digit_char ?d = ?d" by (rule takeWhile_digits [OF dec_nat_digits])
  show ?thesis
    using round_double_int [OF assms] by (simp add: strtod_def sign t take_exponent_def Let_def digits_value_dec)
qed

lemma number_text_ahead:
  assumes "holds_at (pb_content b) (pb_offset b + i) (s @ [c])" and "pb_offset b + i + length s < pb_length b"
    and "\<forall>x \<in> set s. number_char x" and "\<not> number_char c" and "length s < k"
  shows "number_text k b i = Some s"
  using assms
proof (induction s arbitrary: i k)
  case Nil
  then show ?case by (cases k) (simp_all add: can_access_at_index_def buffer_at_def)
next
  case (Cons x s)
  then show ?case by (cases k) (simp_all add: can_access_at_index_def buffer_at_def)
qed

lemma number_char_dec: "\<forall>x \<in> set (dec_int i). number_char x"
  using dec_int_set [of i] by (auto simp: number_char_def is_digit_char_digit)

lemma parse_number_text:
  assumes "ahead b (dec_int i @ [c])" and "\<not> number_char c" and "INT_MIN \<le> i" "i \<le> INT_MAX"
  shows "parse_number item b = Some (True, with_type cJSON_Number (with_number i (Fin (of_int i)) item),
    step_forward b (length (dec_int i)))"
proof -
  have i: "\<bar>i\<bar> < 2 ^ 53" using assms(3,4) by (simp add: INT_MIN_def INT_MAX_def)
  have "length (dec_nat n) \<le> Suc 9" if "n < 10 ^ Suc 9" for n by (rule length_dec_nat [OF that]) simp
  then have "length (dec_int i) < 63" using assms(3,4)
    by (auto simp: dec_int_def INT_MIN_def INT_MAX_def le_less_trans [where y = "Suc 9"])
  then have "number_text 63 b 0 = Some (dec_int i)"
    using assms(1,2) number_char_dec by (intro number_text_ahead [of b 0 _ c]) (auto simp: ahead_def)
  moreover have "saturate_int (Fin (of_int i)) = Some i"
    using assms(3,4) by (auto simp: saturate_int_def)
  moreover have "length (dec_int i) \<noteq> 0" by (simp add: dec_int_def)
  ultimately show ?thesis by (simp add: parse_number_def strtod_dec [OF i])
qed

end
