(* ===== verification/JsonRoundtrip.thy ===== *)
theory JsonRoundtrip
  imports JsonReadBack
begin

text \<open>
  What the printer of cJSON writes the parser reads back: for every tree of the form the parser delivers
  whose numbers are integers, plain or formatted.
\<close>

section \<open>Reading one value\<close>

definition reads :: "value_parser \<Rightarrow> cJSON \<Rightarrow> string \<Rightarrow> bool" where
  "reads pv x s \<longleftrightarrow> (\<forall>b item c. ahead b (s @ [c]) \<longrightarrow> \<not> number_char c \<longrightarrow> blank item (jstring x)
     \<longrightarrow> (\<exists>b'. pv item b = Some (True, x, b') \<and> moved b (length s) b'))"

definition visible :: "string \<Rightarrow> bool" where
  "visible s \<longleftrightarrow> (\<exists>c r. s = c # r \<and> \<not> (of_char c :: nat) \<le> 32 \<and> c \<noteq> CHR '']'' \<and> c \<noteq> CHR ''}'' \<and> c \<noteq> CHR 0xEF)"

lemma readsD:
  "\<lbrakk>reads pv x s; ahead b (s @ c # t); \<not> number_char c; blank item (jstring x)\<rbrakk>
    \<Longrightarrow> \<exists>b'. pv item b = Some (True, x, b') \<and> moved b (length s) b'"
  using ahead_prefix [of b "s @ [c]" t] by (simp add: reads_def)

lemma skip_before:
  assumes "blanks ws" and "ahead b (ws @ c # t)" and "\<not> (of_char c :: nat) \<le> 32"
  shows "buffer_skip_whitespace b = Some (step_forward b (length ws))" and "ahead (step_forward b (length ws)) (c # t)"
  using skip_blanks [OF assms(1) _ assms(3)] ahead_prefix [of b "ws @ [c]" t] ahead_moved [OF assms(2) moved_step] assms(2)
  by simp_all

lemma blank_zero: "blank zero_node None"
  by (simp add: blank_def zero_node_def)

lemma new_item_ahead: "pb_allocs b = [] \<Longrightarrow> cJSON_New_Item b = (Some zero_node, b\<lparr>pb_live := pb_live b + 1\<rparr>)"
  by (simp add: cJSON_New_Item_def pb_allocate_def malloc_ok_def)

lemma number_char_marks [simp]:
  "\<not> number_char CHR '',''" "\<not> number_char CHR '']''" "\<not> number_char CHR ''}''" "\<not> number_char NL" "\<not> number_char NUL"
  by (simp_all add: number_char_def is_digit_char_def NL_def)

lemma allocs_forward: "ahead (step_forward b k) s \<Longrightarrow> pb_allocs b = []"
  by (simp add: ahead_def)

lemma live_forward: "step_forward (b\<lparr>pb_live := n\<rparr>) k = (step_forward b k)\<lparr>pb_live := n\<rparr>"
  by (simp add: step_forward_def)

lemma array_elements_text:
  assumes "\<forall>x \<in> set xs. reads pv x (node_text fmt d x) \<and> jstring x = None \<and> visible (node_text fmt d x)"
    and "xs \<noteq> []" and "blanks ws" and "ahead (step_forward b 1) (ws @ elements_text fmt d xs @ [CHR '']''])"
  shows "\<exists>b'. array_elements pv items b = Some (True, items @ xs, b')
    \<and> moved b (1 + length ws + length (elements_text fmt d xs)) b'"
  using assms
proof (induction xs arbitrary: items b ws)
  case (Cons x xs)
  let ?t = "node_text fmt d x" and ?w = "if fmt then '' '' else []"
  let ?rest = "(if xs = [] then [] else CHR '','' # ?w @ elements_text fmt d xs) @ [CHR '']'']"
  have x: "reads pv x ?t" "jstring x = None" "visible ?t" using Cons.prems(1) by simp_all
  obtain c r where t: "?t = c # r" "\<not> (of_char c :: nat) \<le> 32" using x(3) by (auto simp: visible_def)
  have e: "elements_text fmt d (x # xs) @ [CHR '']''] = ?t @ ?rest" by auto
  define b1 where "b1 = b\<lparr>pb_live := pb_live b + 1\<rparr>"
  have new: "cJSON_New_Item b = (Some zero_node, b1)"
    unfolding b1_def by (rule new_item_ahead [OF allocs_forward [OF Cons.prems(4)]])
  have "ahead (step_forward b1 1) (ws @ c # r @ ?rest)"
    using Cons.prems(4) by (simp only: b1_def live_forward ahead_live e) (simp add: t)
  note skip = skip_before [OF Cons.prems(3) this t(2)]
  define b2 where "b2 = step_forward (step_forward b1 1) (length ws)"
  have b2: "ahead b2 (?t @ ?rest)" "moved b (1 + length ws) b2"
    using skip(2) moved_trans [OF moved_step moved_step] by (simp_all add: b2_def t(1) b1_def moved_def)
  obtain m n where rest: "?rest = m # n" "\<not> number_char m" "\<not> (of_char m :: nat) \<le> 32" "m = (if xs = [] then CHR '']'' else CHR '','')"
    by (cases "xs = []") auto
  obtain b3 where b3: "pv zero_node b2 = Some (True, x, b3)" "moved b2 (length ?t) b3"
    using readsD [OF x(1), of b2 m n zero_node] b2(1) rest x(2) blank_zero by auto
  have a3: "ahead b3 (m # n)" using ahead_moved [OF b2(1) b3(2)] rest(1) by simp
  have m3: "moved b (1 + length ws + length ?t) b3" by (rule moved_trans [OF b2(2) b3(2)])
  have s3: "buffer_skip_whitespace b3 = Some b3" by (rule skip_nothing [OF a3 rest(3)])
  have l3: "looking_at b3 (CHR '','') = Some (xs \<noteq> [])" using ahead_looking [OF a3] rest(4) by simp
  have "buffer_skip_whitespace (step_forward b1 1) = Some b2" using skip(1) by (simp add: b2_def)
  then have step: "array_elements pv items b = (if xs \<noteq> [] then array_elements pv (items @ [x]) b3
      else Some (True, items @ [x], b3))"
    using b3(1) s3 l3 by (subst array_elements.simps) (simp add: new)
  show ?case
  proof (cases "xs = []")
    case True
    then show ?thesis using step m3 by auto
  next
    case False
    have w: "blanks ?w" by (simp add: blanks_def)
    have "ahead (step_forward b3 1) (?w @ elements_text fmt d xs @ [CHR '']''])"
      using ahead_moved [OF _ moved_step, of b3 "[CHR '','']"] a3 rest(1) False by auto
    from Cons.IH [OF _ False w this, of "items @ [x]"] Cons.prems(1) obtain b' where
      b': "array_elements pv (items @ [x]) b3 = Some (True, items @ x # xs, b')"
        "moved b3 (1 + length ?w + length (elements_text fmt d xs)) b'" by auto
    from moved_trans [OF m3 b'(2)] b'(1) step False show ?thesis by (auto simp: add.assoc)
  qed
qed simp

section \<open>Members\<close>

text \<open>The text of the members from the name of the first on, without the tabs before it.\<close>

definition from_name :: "bool \<Rightarrow> nat \<Rightarrow> cJSON \<Rightarrow> cJSON list \<Rightarrow> string" where
  "from_name fmt d x xs = string_text (jstring x) @ (if fmt then [CHR '':'', TAB] else '':'') @ node_text fmt d x
     @ ((if xs = [] then [] else '','') @ (if fmt then [NL] else [])) @ members_text fmt d xs"

lemma members_from_name:
  "members_text fmt d (x # xs) = (if fmt then replicate d TAB else []) @ from_name fmt d x xs"
  by (simp add: from_name_def)

lemma blanks_indent [simp]: "blanks (replicate n TAB)" "blanks [NL]" "blanks []" "blanks [TAB]"
  by (auto simp: blanks_def TAB_def NL_def)

lemma blanks_append [simp]: "blanks (s @ t) = (blanks s \<and> blanks t)"
  by (auto simp: blanks_def)

lemma blanks_NL [simp]: "blanks (NL # s) = blanks s"
  by (auto simp: blanks_def NL_def)

lemma number_char_visible: "number_char c \<Longrightarrow> c \<noteq> CHR '','' \<and> c \<noteq> CHR ''}'' \<and> \<not> (of_char c :: nat) \<le> 32"
  by (auto simp: number_char_def is_digit_char_def)

lemma object_members_step:
  assumes x: "reads pv x t" "jstring x = Some s" "NUL \<notin> set s" "visible t"
    and ws: "blanks ws" "blanks w2" and m: "m = CHR '','' \<or> m = CHR ''}''"
    and a: "ahead (step_forward b 1) (ws @ string_text (Some s) @ colon @ t @ w2 @ m # n)"
    and colon: "colon = CHR '':'' # w1" "blanks w1"
  shows "\<exists>b7. object_members pv items b
      = (if m = CHR '','' then object_members pv (items @ [x]) b7 else Some (True, items @ [x], b7))
    \<and> moved b (1 + length ws + length (string_text (Some s)) + length colon + length t + length w2) b7
    \<and> ahead b7 (m # n)"
proof -
  let ?s = "string_text (Some s)" and ?q = "CHR 0x22"
  let ?item = "with_valuestring None (with_string (Some s) (with_valuestring (Some s) (with_type cJSON_String zero_node)))"
  obtain r where s: "?s = ?q # r" by (simp add: string_text_def)
  obtain c u where t: "t = c # u" "\<not> (of_char c :: nat) \<le> 32" using x(4) by (auto simp: visible_def)
  define b1 where "b1 = b\<lparr>pb_live := pb_live b + 1\<rparr>"
  have new: "cJSON_New_Item b = (Some zero_node, b1)"
    unfolding b1_def by (rule new_item_ahead [OF allocs_forward [OF a]])
  have acc: "can_access_at_index b1 1"
    using a by (simp add: b1_def ahead_def can_access_at_index_def s)
  have a1: "ahead (step_forward b1 1) (ws @ ?q # r @ colon @ t @ w2 @ m # n)"
    using a by (simp only: b1_def live_forward ahead_live) (simp add: s)
  have v: "\<not> (of_char ?q :: nat) \<le> 32" "\<not> (of_char CHR '':'' :: nat) \<le> 32" "\<not> (of_char m :: nat) \<le> 32" using m by auto
  define b2 where "b2 = step_forward (step_forward b1 1) (length ws)"
  have k2: "buffer_skip_whitespace (step_forward b1 1) = Some b2"
    and a2: "ahead b2 (?s @ colon @ t @ w2 @ m # n)"
    using skip_before [OF ws(1) a1 v(1)] by (simp_all add: b2_def s)
  have m2: "moved b (1 + length ws) b2"
    using moved_trans [OF moved_step moved_step] by (simp add: b2_def b1_def moved_def)
  obtain b3 where k3: "parse_string zero_node b2 = Some (True, with_valuestring (Some s) (with_type cJSON_String zero_node), b3)"
    and m3: "moved b2 (length ?s) b3"
    using parse_string_text [OF ahead_prefix [OF a2] x(3), of zero_node] by blast
  have a3: "ahead b3 (CHR '':'' # w1 @ t @ w2 @ m # n)" using ahead_moved [OF a2 m3] by (simp add: colon)
  have k4: "buffer_skip_whitespace b3 = Some b3" "looking_at b3 (CHR '':'') = Some True"
    using skip_nothing [OF a3 v(2)] ahead_looking [OF a3] by simp_all
  have a4: "ahead (step_forward b3 1) (w1 @ c # u @ w2 @ m # n)"
    using ahead_moved [OF _ moved_step, of b3 "[CHR '':'']"] a3 by (simp add: t)
  define b5 where "b5 = step_forward (step_forward b3 1) (length w1)"
  have k5: "buffer_skip_whitespace (step_forward b3 1) = Some b5" and a5: "ahead b5 (t @ w2 @ m # n)"
    using skip_before [OF colon(2) a4 t(2)] by (simp_all add: b5_def t)
  have m5: "moved b3 (length colon) b5"
    using moved_trans [OF moved_step moved_step, of b3 1 "length w1"] by (simp add: b5_def colon)
  obtain z zs where z: "w2 @ m # n = z # zs" "\<not> number_char z"
    using ws(2) m by (cases w2) (auto simp: blanks_def dest: number_char_visible)
  have bl: "blank ?item (jstring x)" by (simp add: blank_def zero_node_def node_updates x(2))
  obtain b6 where k6: "pv ?item b5 = Some (True, x, b6)" and m6: "moved b5 (length t) b6"
    using readsD [OF x(1) _ z(2) bl, of b5 zs] a5 z(1) by auto
  have a6: "ahead b6 (w2 @ m # n)" using ahead_moved [OF a5 m6] .
  define b7 where "b7 = step_forward b6 (length w2)"
  have k7: "buffer_skip_whitespace b6 = Some b7" and a7: "ahead b7 (m # n)"
    using skip_before [OF ws(2) a6 v(3)] by (simp_all add: b7_def)
  have m7: "moved b6 (length w2) b7" unfolding b7_def by (rule moved_step)
  have l7: "looking_at b7 (CHR '','') = Some (m = CHR '','')" using ahead_looking [OF a7] by simp
  have "object_members pv items b
      = (if m = CHR '','' then object_members pv (items @ [x]) b7 else Some (True, items @ [x], b7))"
    using k2 k3 k4 k5 k6 k7 l7 acc by (subst object_members.simps) (simp add: new Let_def)
  moreover have "moved b (1 + length ws + length ?s + length colon + length t + length w2) b7"
    using moved_trans [OF moved_trans [OF moved_trans [OF moved_trans [OF m2 m3] m5] m6] m7] .
  ultimately show ?thesis using a7 by blast
qed

lemma object_members_text:
  assumes "\<forall>y \<in> set (x # xs). reads pv y (node_text fmt d y) \<and> (\<exists>s. jstring y = Some s \<and> NUL \<notin> set s)
      \<and> visible (node_text fmt d y)"
    and "blanks ws" and "blanks tl'" and "ahead (step_forward b 1) (ws @ from_name fmt d x xs @ tl' @ [CHR ''}''])"
  shows "\<exists>b'. object_members pv items b = Some (True, items @ x # xs, b')
    \<and> moved b (1 + length ws + length (from_name fmt d x xs) + length tl') b'"
  using assms
proof (induction xs arbitrary: x items b ws)
  case Nil
  let ?t = "node_text fmt d x" and ?colon = "if fmt then [CHR '':'', TAB] else '':''" and ?e = "if fmt then [NL] else []"
  obtain s where x: "reads pv x ?t" "jstring x = Some s" "NUL \<notin> set s" "visible ?t" using Nil.prems(1) by auto
  have "\<exists>b7. object_members pv items b
      = (if CHR ''}'' = CHR '','' then object_members pv (items @ [x]) b7 else Some (True, items @ [x], b7))
    \<and> moved b (1 + length ws + length (string_text (Some s)) + length ?colon + length ?t + length (?e @ tl')) b7
    \<and> ahead b7 (CHR ''}'' # [])"
  proof (rule object_members_step [OF x Nil.prems(2)])
    show "ahead (step_forward b 1) (ws @ string_text (Some s) @ ?colon @ ?t @ (?e @ tl') @ CHR ''}'' # [])"
      using Nil.prems(4) x(2) by (simp add: from_name_def)
    show "blanks (?e @ tl')" using Nil.prems(3) by simp
    show "?colon = CHR '':'' # (if fmt then [TAB] else [])" by simp
  qed simp_all
  then show ?case using x(2) by (auto simp: from_name_def add.assoc)
next
  case (Cons y ys)
  let ?t = "node_text fmt d x" and ?colon = "if fmt then [CHR '':'', TAB] else '':''"
  let ?w = "if fmt then NL # replicate d TAB else []"
  let ?n = "?w @ from_name fmt d y ys @ tl' @ [CHR ''}'']"
  obtain s where x: "reads pv x ?t" "jstring x = Some s" "NUL \<notin> set s" "visible ?t" using Cons.prems(1) by auto
  have eq: "from_name fmt d x (y # ys) = string_text (Some s) @ ?colon @ ?t @ CHR '','' # ?w @ from_name fmt d y ys"
    unfolding from_name_def [of fmt d x] members_from_name x(2) by simp
  have "\<exists>b7. object_members pv items b
      = (if CHR '','' = CHR '','' then object_members pv (items @ [x]) b7 else Some (True, items @ [x], b7))
    \<and> moved b (1 + length ws + length (string_text (Some s)) + length ?colon + length ?t + length ([] :: string)) b7
    \<and> ahead b7 (CHR '','' # ?n)"
  proof (rule object_members_step [OF x Cons.prems(2)])
    show "ahead (step_forward b 1) (ws @ string_text (Some s) @ ?colon @ ?t @ [] @ CHR '','' # ?n)"
      using Cons.prems(4) by (simp add: eq)
    show "?colon = CHR '':'' # (if fmt then [TAB] else [])" by simp
  qed simp_all
  then obtain b7 where b7: "object_members pv items b = object_members pv (items @ [x]) b7"
    and m7: "moved b (1 + length ws + length (string_text (Some s)) + length ?colon + length ?t) b7"
    and a7: "ahead b7 (CHR '','' # ?n)" by auto
  have "ahead (step_forward b7 1) ?n" using ahead_moved [OF _ moved_step, of b7 "[CHR '','']" ?n] a7 by simp
  moreover have "blanks ?w" by simp
  ultimately obtain b' where
    b': "object_members pv (items @ [x]) b7 = Some (True, (items @ [x]) @ y # ys, b')"
      "moved b7 (1 + length ?w + length (from_name fmt d y ys) + length tl') b'"
    using Cons.IH [of y ?w b7 "items @ [x]"] Cons.prems(1,3) by auto
  have len: "1 + length ws + length (string_text (Some s)) + length ?colon + length ?t
      + (1 + length ?w + length (from_name fmt d y ys) + length tl')
    = 1 + length ws + length (from_name fmt d x (y # ys)) + length tl'" unfolding eq by simp
  have "moved b (1 + length ws + length (from_name fmt d x (y # ys)) + length tl') b'"
    using moved_trans [OF m7 b'(2)] unfolding len .
  moreover have "object_members pv items b = Some (True, items @ x # y # ys, b')" using b'(1) b7 by simp
  ultimately show ?case by blast
qed

section \<open>Trees of the parser's form\<close>

definition name_ok :: "nat \<Rightarrow> string option \<Rightarrow> bool" where
  "name_ok t name = (if t = cJSON_Object then (case name of None \<Rightarrow> False | Some s \<Rightarrow> NUL \<notin> set s) else name = None)"

text \<open>The trees the parser delivers for texts whose numbers are integers in the range of \<open>int\<close>, and how
  deep their arrays and objects are nested.\<close>

fun plain :: "cJSON \<Rightarrow> bool" where
  "plain (cJSON_node c t v i x s) =
     (if t = cJSON_NULL \<or> t = cJSON_False then c = [] \<and> v = None \<and> i = 0 \<and> x = Fin 0
      else if t = cJSON_True then c = [] \<and> v = None \<and> i = 1 \<and> x = Fin 0
      else if t = cJSON_Number then c = [] \<and> v = None \<and> x = Fin (of_int i) \<and> INT_MIN \<le> i \<and> i \<le> INT_MAX
      else if t = cJSON_String then c = [] \<and> i = 0 \<and> x = Fin 0 \<and> (case v of None \<Rightarrow> False | Some y \<Rightarrow> NUL \<notin> set y)
      else (t = cJSON_Array \<or> t = cJSON_Object) \<and> v = None \<and> i = 0 \<and> x = Fin 0
        \<and> (\<forall>y \<in> set c. name_ok t (jstring y) \<and> plain y))"

fun nesting :: "cJSON \<Rightarrow> nat" where
  "nesting (cJSON_node c t v i x s) =
     (if t = cJSON_Array \<or> t = cJSON_Object then Suc (fold max (map nesting c) 0) else 0)"

lemma nesting_child: "y \<in> set c \<Longrightarrow> nesting y \<le> fold max (map nesting c) 0"
  using Max.set_eq_fold [of 0 "map nesting c"] Max_ge [of "insert 0 (nesting ` set c)" "nesting y"] by simp

lemma plain_cases:
  assumes "plain x"
  obtains (word) t s where "x = cJSON_node [] t None (if t = cJSON_True then 1 else 0) (Fin 0) s"
      "t = cJSON_NULL \<or> t = cJSON_False \<or> t = cJSON_True"
    | (number) i s where "x = cJSON_node [] cJSON_Number None i (Fin (of_int i)) s" "INT_MIN \<le> i" "i \<le> INT_MAX"
    | (str) y s where "x = cJSON_node [] cJSON_String (Some y) 0 (Fin 0) s" "NUL \<notin> set y"
    | (list) c t s where "x = cJSON_node c t None 0 (Fin 0) s" "t = cJSON_Array \<or> t = cJSON_Object"
        "\<forall>y \<in> set c. name_ok t (jstring y) \<and> plain y"
  using assms by (cases x) (force simp: json_types split: if_splits option.splits)

lemma plain_readable: "plain x \<Longrightarrow> name_ok cJSON_Object (jstring x) \<or> jstring x = None \<Longrightarrow> readable x \<and> printable x"
proof (induction x)
  case (cJSON_node c t v i x s)
  from cJSON_node.prems(1) show ?case
  proof (cases rule: plain_cases)
    case (list c' t' s')
    have "readable y \<and> printable y" if "y \<in> set c" for y
      using cJSON_node.IH [OF that] list that by (auto simp: name_ok_def split: if_splits)
    then show ?thesis using list cJSON_node.prems(2) by (auto simp: json_types name_ok_def cJSON_Raw_def)
  qed (use cJSON_node.prems(2) in \<open>auto simp: json_types name_ok_def printed_number_def cJSON_Raw_def\<close>)
qed

section \<open>Values\<close>

lemma node_text_word:
  "node_text fmt d (cJSON_node [] cJSON_NULL v i x s) = ''null''"
  "node_text fmt d (cJSON_node [] cJSON_False v i x s) = ''false''"
  "node_text fmt d (cJSON_node [] cJSON_True v i x s) = ''true''"
  by (simp_all add: json_types)

lemma node_text_other:
  "node_text fmt d (cJSON_node [] cJSON_Number None i (Fin (of_int i)) s) = dec_int i"
  "node_text fmt d (cJSON_node [] cJSON_String v 0 (Fin 0) s) = string_text v"
  "node_text fmt d (cJSON_node c cJSON_Array None 0 (Fin 0) s) = ''['' @ elements_text fmt (Suc d) c @ '']''"
  "node_text fmt d (cJSON_node c cJSON_Object None 0 (Fin 0) s) =
     ''{'' @ (if fmt then [NL] else []) @ members_text fmt (Suc d) c @ (if fmt then replicate d TAB else []) @ ''}''"
  by (simp_all add: json_types printed_number_def cJSON_Raw_def)

lemma dec_int_start:
  obtains c r where "dec_int i = c # r" "c = CHR ''-'' \<or> is_digit_char c"
proof -
  have "is_digit (hd (dec_nat (nat \<bar>i\<bar>)))" using dec_nat_digits [of "nat \<bar>i\<bar>"] by (metis dec_nat_not_Nil hd_in_set)
  then have "i < 0 \<or> is_digit_char (hd (dec_int i))" by (auto simp: dec_int_def is_digit_char_digit)
  moreover have "i < 0 \<Longrightarrow> dec_int i = CHR ''-'' # dec_nat (nat \<bar>i\<bar>)" by (simp add: dec_int_def)
  moreover have "dec_int i \<noteq> []" by (simp add: dec_int_def)
  ultimately show ?thesis using that by (cases "dec_int i") auto
qed

lemma visible_digit: "c = CHR ''-'' \<or> is_digit_char c \<Longrightarrow> visible (c # r)"
  by (auto simp: visible_def is_digit_char_def)

declare node_text.simps [simp del]

lemma plain_visible:
  assumes "plain x"
  shows "visible (node_text fmt d x)"
  using assms
proof (cases rule: plain_cases)
  case (number i s)
  obtain c r where "dec_int i = c # r" "c = CHR ''-'' \<or> is_digit_char c" by (rule dec_int_start)
  then show ?thesis using number visible_digit by (simp add: node_text_other)
next
  case (word t s)
  then show ?thesis by (auto simp: node_text_word visible_def)
next
  case (str y s)
  then show ?thesis by (auto simp: node_text_other visible_def string_text_def)
next
  case (list c t s)
  then show ?thesis by (auto simp: node_text_other visible_def)
qed

text \<open>What decides between the kinds of values, once the three words are excluded.\<close>

lemma value_by_first:
  assumes "ahead b (c # t)" and "c \<noteq> CHR ''n''" "c \<noteq> CHR ''f''" "c \<noteq> CHR ''t''"
  shows "parse_value_with dp item b =
    (if c = CHR 0x22 then parse_string item b
     else if c = CHR ''-'' \<or> is_digit_char c then parse_number item b
     else if c = CHR ''['' then parse_array dp item b
     else if c = CHR ''{'' then parse_object dp item b
     else Some (False, item, b))"
  using reads_word_other [OF assms(1,2)] reads_word_other [OF assms(1,3)] reads_word_other [OF assms(1,4)]
    ahead_access [OF assms(1)] by (simp add: parse_value_with_def)

lemma reads_words:
  assumes "t = cJSON_NULL \<or> t = cJSON_False \<or> t = cJSON_True"
  shows "reads (parse_value_with dp) (cJSON_node [] t None (if t = cJSON_True then 1 else 0) (Fin 0) s)
    (node_text fmt d (cJSON_node [] t None (if t = cJSON_True then 1 else 0) (Fin 0) s))"
proof -
  have "\<exists>b'. parse_value_with dp item b = Some (True, cJSON_node [] t None (if t = cJSON_True then 1 else 0) (Fin 0) s, b')
      \<and> moved b (length w) b'"
    if a: "ahead b (w @ [c])" and item: "blank item s"
      and w: "w = (if t = cJSON_NULL then ''null'' else if t = cJSON_False then ''false'' else ''true'')" for b item c w
  proof -
    obtain t0 where i: "item = cJSON_node [] t0 None 0 (Fin 0) s" using item by (auto simp: blank_def)
    have o: "reads_word b (x # u) = Some False" if "x \<noteq> hd w" for x u
      using reads_word_other [of b "hd w" "tl w @ [c]" x u] a that w by (auto split: if_splits)
    show ?thesis
      using assms reads_word_there [OF a] o w i
      by (auto simp: parse_value_with_def node_updates json_types moved_def step_forward_def)
  qed
  note read = this
  have text_of: "node_text fmt d (cJSON_node [] t None (if t = cJSON_True then 1 else 0) (Fin 0) s)
    = (if t = cJSON_NULL then ''null'' else if t = cJSON_False then ''false'' else ''true'')"
    using assms node_text_word [of fmt d None _ "Fin 0" s] by (auto simp: json_types)
  show ?thesis unfolding reads_def text_of
  proof (intro allI impI)
    fix b item c
    assume "ahead b ((if t = cJSON_NULL then ''null'' else if t = cJSON_False then ''false'' else ''true'') @ [c])"
      and "blank item (jstring (cJSON_node [] t None (if t = cJSON_True then 1 else 0) (Fin 0) s))"
    then show "\<exists>b'. parse_value_with dp item b = Some (True, cJSON_node [] t None (if t = cJSON_True then 1 else 0) (Fin 0) s, b')
      \<and> moved b (length (if t = cJSON_NULL then ''null'' else if t = cJSON_False then ''false'' else ''true'')) b'"
      by (intro read) simp_all
  qed
qed

lemma reads_number:
  assumes "INT_MIN \<le> i" and "i \<le> INT_MAX"
  shows "reads (parse_value_with dp) (cJSON_node [] cJSON_Number None i (Fin (of_int i)) s)
    (node_text fmt d (cJSON_node [] cJSON_Number None i (Fin (of_int i)) s))"
proof -
  obtain x r where x: "dec_int i = x # r" "x = CHR ''-'' \<or> is_digit_char x" by (rule dec_int_start)
  have n: "x \<noteq> CHR ''n''" "x \<noteq> CHR ''f''" "x \<noteq> CHR ''t''" "x \<noteq> CHR 0x22" using x(2) by (auto simp: is_digit_char_def)
  have "parse_value_with dp item b = Some (True, with_type cJSON_Number (with_number i (Fin (of_int i)) item),
      step_forward b (length (dec_int i)))" if a: "ahead b (dec_int i @ [c])" "\<not> number_char c" for b item c
  proof -
    have "ahead b (x # r @ [c])" using a(1) by (simp add: x(1))
    from value_by_first [OF this n(1-3), of dp item] show ?thesis
      using n(4) x(2) parse_number_text [OF a assms, of item] by auto
  qed
  then show ?thesis using moved_step by (auto simp: reads_def node_text_other blank_def node_updates)
qed

lemma reads_string:
  assumes "NUL \<notin> set y"
  shows "reads (parse_value_with dp) (cJSON_node [] cJSON_String (Some y) 0 (Fin 0) s)
    (node_text fmt d (cJSON_node [] cJSON_String (Some y) 0 (Fin 0) s))"
proof -
  obtain r where r: "string_text (Some y) = CHR 0x22 # r" by (simp add: string_text_def)
  show ?thesis unfolding reads_def node_text_other
  proof (intro allI impI)
    fix b item c
    assume a: "ahead b (string_text (Some y) @ [c])" and "blank item (jstring (cJSON_node [] cJSON_String (Some y) 0 (Fin 0) s))"
    then obtain t where i: "item = cJSON_node [] t None 0 (Fin 0) s" by (auto simp: blank_def)
    have "ahead b (CHR 0x22 # r @ [c])" using a by (simp add: r)
    from value_by_first [OF this, of dp item] have "parse_value_with dp item b = parse_string item b" by simp
    then show "\<exists>b'. parse_value_with dp item b = Some (True, cJSON_node [] cJSON_String (Some y) 0 (Fin 0) s, b')
        \<and> moved b (length (string_text (Some y))) b'"
      using parse_string_text [OF ahead_prefix [OF a] assms, of item] by (simp add: i node_updates)
  qed
qed

lemma elements_start:
  assumes "\<forall>y \<in> set xs. visible (node_text fmt d y)"
  obtains c r where "elements_text fmt d xs @ [CHR '']''] = c # r" "\<not> (of_char c :: nat) \<le> 32" "(c = CHR '']'') = (xs = [])"
  using assms by (cases xs) (auto simp: visible_def)

lemma reads_array:
  assumes c: "\<forall>y \<in> set c. reads pv y (node_text fmt (Suc d) y) \<and> jstring y = None \<and> visible (node_text fmt (Suc d) y)"
  shows "reads (parse_value_with (Some pv)) (cJSON_node c cJSON_Array None 0 (Fin 0) s)
    (node_text fmt d (cJSON_node c cJSON_Array None 0 (Fin 0) s))"
proof -
  let ?e = "elements_text fmt (Suc d) c"
  obtain z r where z: "?e @ [CHR '']''] = z # r" "\<not> (of_char z :: nat) \<le> 32" "(z = CHR '']'') = (c = [])"
    using elements_start [of c fmt "Suc d"] c by metis
  show ?thesis unfolding reads_def node_text_other
  proof (intro allI impI)
    fix b item x
    assume a: "ahead b ((''['' @ ?e @ '']'') @ [x])" and "blank item (jstring (cJSON_node c cJSON_Array None 0 (Fin 0) s))"
    then obtain t where i: "item = cJSON_node [] t None 0 (Fin 0) s" by (auto simp: blank_def)
    have v: "parse_value_with (Some pv) item b = parse_array (Some pv) item b"
      using value_by_first [of b "CHR ''[''"] a by (simp add: is_digit_char_def)
    have a0: "ahead b (CHR ''['' # ?e @ [CHR '']''])" using ahead_prefix [of b _ "[x]"] a by simp
    have a1: "ahead (step_forward b 1) (z # r)"
      using ahead_moved [OF _ moved_step, of b "[CHR ''['']" "?e @ [CHR '']'']"] a0 z(1) by simp
    have k: "buffer_at b 0 = Some (CHR ''['')" "buffer_skip_whitespace (step_forward b 1) = Some (step_forward b 1)"
        "looking_at (step_forward b 1) (CHR '']'') = Some (c = [])" "can_access_at_index (step_forward b 1) 0"
      using ahead_access [OF a0] skip_nothing [OF a1 z(2)] ahead_looking [OF a1] z(3) ahead_access [OF a1] by simp_all
    have sb: "step_back (step_forward b (Suc 0)) = b" by (simp add: step_back_def step_forward_def)
    show "\<exists>b'. parse_value_with (Some pv) item b = Some (True, cJSON_node c cJSON_Array None 0 (Fin 0) s, b')
        \<and> moved b (length (''['' @ ?e @ '']'')) b'"
    proof (cases "c = []")
      case True
      have "moved b (1 + 1) (step_forward (step_forward b 1) 1)" by (rule moved_trans [OF moved_step moved_step])
      moreover have "parse_array (Some pv) item b = Some (True, cJSON_node [] cJSON_Array None 0 (Fin 0) s,
          step_forward (step_forward b 1) 1)"
        using True k by (simp add: parse_array_def i node_updates)
      ultimately show ?thesis unfolding v using True by auto
    next
      case False
      have "ahead (step_forward b 1) ([] @ ?e @ [CHR '']''])" using a1 z(1) by simp
      from array_elements_text [OF c False _ this, of "[]"] obtain b' where
        e: "array_elements pv [] b = Some (True, c, b')" and m: "moved b (1 + length ?e) b'" by auto
      have "ahead b' [CHR '']'']" using ahead_moved [of b "CHR ''['' # ?e" "'']''" b'] a0 m by simp
      from ahead_looking [OF this] have l: "looking_at b' (CHR '']'') = Some True" by simp
      have "moved b (1 + length ?e + 1) (step_forward b' 1)" by (rule moved_trans [OF m moved_step])
      moreover have "parse_array (Some pv) item b = Some (True, cJSON_node c cJSON_Array None 0 (Fin 0) s, step_forward b' 1)"
        using False k e l by (simp add: parse_array_def close_list_def sb i node_updates)
      ultimately show ?thesis unfolding v by auto
    qed
  qed
qed

lemma step_forward_back: "step_forward (step_back (step_forward b (Suc n))) 1 = step_forward b (Suc n)"
  by (simp add: step_forward_def step_back_def)

lemma reads_object:
  assumes c: "\<forall>y \<in> set c. reads pv y (node_text fmt (Suc d) y) \<and> (\<exists>s. jstring y = Some s \<and> NUL \<notin> set s)
      \<and> visible (node_text fmt (Suc d) y)"
  shows "reads (parse_value_with (Some pv)) (cJSON_node c cJSON_Object None 0 (Fin 0) s)
    (node_text fmt d (cJSON_node c cJSON_Object None 0 (Fin 0) s))"
proof -
  let ?nl = "if fmt then [NL] else []" and ?tabs = "if fmt then replicate d TAB else []"
  let ?m = "?nl @ members_text fmt (Suc d) c @ ?tabs"
  obtain ws z r where z: "?m @ ''}'' = ws @ z # r" "blanks ws" "\<not> (of_char z :: nat) \<le> 32" "(z = CHR ''}'') = (c = [])"
    and fr: "c = [] \<and> r = [] \<or> (\<exists>y ys. c = y # ys \<and> z # r = from_name fmt (Suc d) y ys @ ?tabs @ ''}'')"
  proof (cases c)
    case Nil
    then show ?thesis using that [of "?nl @ ?tabs" "CHR ''}''" "[]"] by simp
  next
    case (Cons y ys)
    obtain q where q: "from_name fmt (Suc d) y ys = CHR 0x22 # q" by (simp add: from_name_def string_text_def)
    show ?thesis
      using that [of "?nl @ (if fmt then replicate (Suc d) TAB else [])" "CHR 0x22" "q @ ?tabs @ ''}''"] Cons q
      by (simp add: members_from_name del: members_text.simps replicate.simps)
  qed
  show ?thesis unfolding reads_def node_text_other
  proof (intro allI impI)
    fix b item x
    assume a: "ahead b ((''{'' @ ?nl @ members_text fmt (Suc d) c @ ?tabs @ ''}'') @ [x])"
      and "blank item (jstring (cJSON_node c cJSON_Object None 0 (Fin 0) s))"
    then obtain t where i: "item = cJSON_node [] t None 0 (Fin 0) s" by (auto simp: blank_def)
    have v: "parse_value_with (Some pv) item b = parse_object (Some pv) item b"
      using value_by_first [of b "CHR ''{''"] a by (simp add: is_digit_char_def)
    have a0: "ahead b (CHR ''{'' # ws @ z # r)" using ahead_prefix [of b "''{'' @ ?m @ ''}''" "[x]"] a z(1) by simp
    have a1: "ahead (step_forward b 1) (ws @ z # r)" using ahead_moved [OF _ moved_step, of b "[CHR ''{'']"] a0 by simp
    define b1 where "b1 = step_forward (step_forward b 1) (length ws)"
    have b1: "b1 = step_forward b (Suc (length ws))" by (simp add: b1_def step_forward_def)
    have a2: "ahead b1 (z # r)" and k1: "buffer_skip_whitespace (step_forward b 1) = Some b1"
      using skip_before [OF z(2) a1 z(3)] by (simp_all add: b1_def)
    have k: "looking_at b (CHR ''{'') = Some True" "looking_at b1 (CHR ''}'') = Some (c = [])" "can_access_at_index b1 0"
      using ahead_looking [OF a0] ahead_looking [OF a2] z(4) ahead_access [OF a2] by simp_all
    have m1: "moved b (1 + length ws) b1" unfolding b1_def by (rule moved_trans [OF moved_step moved_step])
    have len: "length (''{'' @ ?nl @ members_text fmt (Suc d) c @ ?tabs @ ''}'') = 1 + length ws + length (z # r)"
      using arg_cong [OF z(1), of length] by simp
    show "\<exists>b'. parse_value_with (Some pv) item b = Some (True, cJSON_node c cJSON_Object None 0 (Fin 0) s, b')
        \<and> moved b (length (''{'' @ ?nl @ members_text fmt (Suc d) c @ ?tabs @ ''}'')) b'"
    proof (cases c)
      case Nil
      have "moved b (1 + length ws + 1) (step_forward b1 1)" by (rule moved_trans [OF m1 moved_step])
      moreover have "parse_object (Some pv) item b = Some (True, cJSON_node [] cJSON_Object None 0 (Fin 0) s, step_forward b1 1)"
        using Nil k k1 by (simp add: parse_object_def i node_updates)
      ultimately show ?thesis using fr Nil unfolding len v by auto
    next
      case (Cons y ys)
      have zr: "z # r = from_name fmt (Suc d) y ys @ ?tabs @ ''}''" using fr Cons by simp
      define b2 where "b2 = step_back b1"
      have f: "step_forward b2 1 = b1" unfolding b2_def b1 by (rule step_forward_back)
      have m2: "moved b (length ws) b2" using m1 by (simp add: b2_def moved_def step_back_def)
      have ah: "ahead (step_forward b2 1) ([] @ from_name fmt (Suc d) y ys @ ?tabs @ [CHR ''}''])"
        using a2 unfolding f zr by simp
      have bl: "blanks ?tabs" by simp
      from object_members_text [OF _ blanks_indent(3) bl ah, of pv "[]"] c Cons obtain b' where
        e: "object_members pv [] b2 = Some (True, c, b')"
        and m: "moved b2 (1 + length (from_name fmt (Suc d) y ys @ ?tabs)) b'" by auto
      have m3: "moved b1 (length (from_name fmt (Suc d) y ys @ ?tabs)) b'"
        using m unfolding f [symmetric] by (simp add: moved_def step_forward_def)
      have "ahead b1 ((from_name fmt (Suc d) y ys @ ?tabs) @ ''}'')" using a2 by (simp add: zr)
      from ahead_moved [OF this m3] have l: "looking_at b' (CHR ''}'') = Some True" using ahead_looking by simp
      have "parse_object (Some pv) item b = Some (True, cJSON_node c cJSON_Object None 0 (Fin 0) s, step_forward b' 1)"
        using Cons k k1 e l by (simp add: parse_object_def close_list_def b2_def i node_updates)
      moreover have "moved b (1 + length ws + length (from_name fmt (Suc d) y ys @ ?tabs) + 1) (step_forward b' 1)"
        by (rule moved_trans [OF moved_trans [OF m1 m3] moved_step])
      moreover have "length (z # r) = length (from_name fmt (Suc d) y ys @ ?tabs) + 1" by (simp add: zr)
      ultimately show ?thesis unfolding len v by (metis add.assoc)
    qed
  qed
qed

text \<open>The printer's text of a tree is read back as the tree.\<close>

lemma reads_text: "plain x \<Longrightarrow> nesting x \<le> n \<Longrightarrow> reads (parse_value n) x (node_text fmt d x)"
proof (induction x arbitrary: n d)
  case (cJSON_node c t v i x s)
  define dp where "dp = (case n of 0 \<Rightarrow> None | Suc m \<Rightarrow> Some (parse_value m))"
  have p: "parse_value n = parse_value_with dp" by (cases n) (simp_all add: dp_def)
  from cJSON_node.prems(1) show ?case
  proof (cases rule: plain_cases)
    case (word t s)
    show ?thesis unfolding p word(1) by (rule reads_words [OF word(2)])
  next
    case (number i s)
    show ?thesis unfolding p number(1) by (rule reads_number [OF number(2,3)])
  next
    case (str y s)
    show ?thesis unfolding p str(1) by (rule reads_string [OF str(2)])
  next
    case (list c' t' s')
    obtain m where m: "n = Suc m" "fold max (map nesting c) 0 \<le> m"
      using cJSON_node.prems(2) list(1,2) by (cases n) auto
    have dp: "dp = Some (parse_value m)" by (simp add: dp_def m(1))
    have y: "reads (parse_value m) y (node_text fmt (Suc d) y) \<and> visible (node_text fmt (Suc d) y)" if "y \<in> set c" for y
      using cJSON_node.IH [OF that] list(1,3) that order_trans [OF nesting_child [OF that] m(2)] plain_visible by auto
    show ?thesis
    proof (cases "t' = cJSON_Array")
      case True
      have "\<forall>y \<in> set c. jstring y = None" using list True by (auto simp: name_ok_def json_types)
      then show ?thesis unfolding p dp list(1) True using list(1) y by (intro reads_array) auto
    next
      case False
      have "\<forall>y \<in> set c. \<exists>s. jstring y = Some s \<and> NUL \<notin> set s"
        using list False by (fastforce simp: name_ok_def split: option.splits)
      moreover have "t' = cJSON_Object" using list(2) False by simp
      ultimately show ?thesis unfolding p dp list(1) using list(1) y by (simp add: reads_object)
    qed
  qed
qed

lemma holds_whole: "holds_at (s @ r) 0 s"
proof -
  have "holds_at (p @ s @ r) (length p) s" for p
    by (induction s arbitrary: p) (use append.assoc in \<open>auto simp: mem_at_def nth_append\<close>, metis append.assoc append_Cons append_Nil length_append_singleton)
  from this [of "[]"] show ?thesis by simp
qed

lemma parse_text:
  assumes "plain t" and "jstring t = None" and "nesting t \<le> CJSON_NESTING_LIMIT" and "NUL \<notin> set (node_text fmt 0 t)"
  shows "\<exists>b. cJSON_Parse (Some (node_text fmt 0 t @ [NUL])) [] = Some (Some t, length (node_text fmt 0 t), b)"
proof -
  let ?s = "node_text fmt 0 t"
  let ?b = "\<lparr>pb_content = ?s @ [NUL], pb_length = length ?s + 1, pb_offset = 0, pb_allocs = [], pb_live = 1\<rparr>"
  obtain c r where c: "?s = c # r" "\<not> (of_char c :: nat) \<le> 32" "c \<noteq> CHR 0xEF"
    using plain_visible [OF assms(1), of fmt 0] unfolding visible_def by blast
  have str: "c_str (?s @ [NUL]) = Some ?s" using c_str_append_NUL [OF assms(4), of "[]"] .
  have a: "ahead ?b (?s @ [NUL])" using holds_whole [of "?s @ [NUL]" "[]"] by (simp add: ahead_def)
  have a0: "ahead ?b (c # r @ [NUL])" using a c(1) by simp
  have new: "cJSON_New_Item (?b\<lparr>pb_live := 0\<rparr>) = (Some zero_node, ?b)" by (simp add: new_item_ahead)
  have bom: "skip_utf8_bom ?b = Some ?b"
    using ahead_access [OF a0] c(3) by (simp add: skip_utf8_bom_def buffer_starts_def buffer_at_def)
  have skip: "buffer_skip_whitespace ?b = Some ?b" by (rule skip_nothing [OF a0 c(2)])
  obtain b where b: "parse_value CJSON_NESTING_LIMIT zero_node ?b = Some (True, t, b)" "moved ?b (length ?s) b"
    using readsD [OF reads_text [OF assms(1,3)] a, of zero_node] assms(2) blank_zero by auto
  have "pb_offset b = length ?s" using b(2) by (simp add: moved_def)
  moreover have "cJSON_Parse (Some (?s @ [NUL])) [] = Some (Some t, pb_offset b, b)"
    using new bom skip b(1) by (simp add: cJSON_Parse_def cJSON_ParseWithOpts_def cJSON_ParseWithLengthOpts_def str Let_def)
  ultimately show ?thesis by auto
qed

section \<open>Printing, then parsing\<close>

lemma no_NUL_string_text: "(\<And>x. s = Some x \<Longrightarrow> NUL \<notin> set x) \<Longrightarrow> NUL \<notin> set (string_text s)"
proof (cases s)
  case (Some x)
  moreover assume "\<And>x. s = Some x \<Longrightarrow> NUL \<notin> set x"
  ultimately have "NUL \<notin> set (escaped c)" if "c \<in> set x" for c using that no_NUL_escaped by metis
  then show ?thesis by (auto simp: Some string_text_def)
qed (simp add: string_text_def)

lemma no_NUL_elements: "\<forall>y \<in> set c. NUL \<notin> set (node_text fmt d y) \<Longrightarrow> NUL \<notin> set (elements_text fmt d c)"
  by (induction c) auto

lemma no_NUL_members:
  "\<forall>y \<in> set c. NUL \<notin> set (node_text fmt d y) \<and> NUL \<notin> set (string_text (jstring y)) \<Longrightarrow> NUL \<notin> set (members_text fmt d c)"
  by (induction c) (auto simp: TAB_def NL_def)

lemma plain_no_NUL: "plain x \<Longrightarrow> NUL \<notin> set (node_text fmt d x)"
proof (induction x arbitrary: d)
  case (cJSON_node c t v i x s)
  from cJSON_node.prems show ?case
  proof (cases rule: plain_cases)
    case (word t s)
    have "NUL \<notin> set (node_text fmt d (cJSON_node [] u None j (Fin 0) s))"
      if "u = cJSON_NULL \<or> u = cJSON_False \<or> u = cJSON_True" for u j
      using that node_text_word [of fmt d None j "Fin 0" s] by (elim disjE) simp_all
    then show ?thesis unfolding word(1) using word(2) by blast
  next
    case (number i s)
    show ?thesis unfolding number(1) node_text_other by simp
  next
    case (str y s)
    show ?thesis unfolding str(1) node_text_other using str(2) no_NUL_string_text [of "Some y"] by simp
  next
    case (list c' t' s')
    have n: "NUL \<notin> set (node_text fmt (Suc d) y)" if "y \<in> set c" for y
      using cJSON_node.IH [OF that] list(1,3) that by auto
    show ?thesis
    proof (cases "t' = cJSON_Array")
      case True
      have "NUL \<notin> set (elements_text fmt (Suc d) c)" using n by (simp add: no_NUL_elements)
      then show ?thesis unfolding list(1) True node_text_other using list(1) by simp
    next
      case False
      have "NUL \<notin> set (string_text (jstring y))" if "y \<in> set c" for y
        using list that False by (intro no_NUL_string_text) (auto simp: name_ok_def)
      then have "NUL \<notin> set (members_text fmt (Suc d) c)" using n by (simp add: no_NUL_members)
      moreover have "t' = cJSON_Object" using list(2) False by simp
      ultimately show ?thesis unfolding list(1) using list(1) by (simp add: node_text_other TAB_def NL_def)
    qed
  qed
qed

lemma print_then_parse:
  assumes "plain t" and "jstring t = None" and "nesting t \<le> CJSON_NESTING_LIMIT"
    and "cjson_print (Some t) fmt re al = Some (Some block, p)"
  obtains mem b where "block = map Some mem" "cJSON_Parse (Some mem) [] = Some (Some t, length mem - 1, b)"
proof -
  have "readable t" using plain_readable [OF assms(1)] assms(2) by simp
  from print_item_ok [OF this, of fmt re al] assms(4)
  have "block = map Some (node_text fmt 0 t @ [NUL])" by auto
  moreover obtain b where "cJSON_Parse (Some (node_text fmt 0 t @ [NUL])) [] = Some (Some t, length (node_text fmt 0 t), b)"
    using parse_text [OF assms(1-3) plain_no_NUL [OF assms(1)]] by blast
  ultimately show ?thesis using that [of "node_text fmt 0 t @ [NUL]"] by simp
qed

end
