(* ===== verification/JsonMinify.thy ===== *)
theory JsonMinify
  imports JsonRoundtrip
begin

text \<open>
  \<open>cJSON_Minify\<close> of \<^verbatim>\<open>libjson/src/cJSON.c\<close>: it takes white space and comments out of a text in place, the
  bytes it has read being overwritten by those it keeps. The model has the memory with the two positions;
  the text it leaves is given by recursion on the text, and the formatted text of a tree becomes the plain
  one.
\<close>

section \<open>In place\<close>

definition mem_put :: "bytes \<Rightarrow> nat \<Rightarrow> char \<Rightarrow> bytes option" where
  "mem_put mem i c = (if i < length mem then Some (mem[i := c]) else None)"

partial_function (option) oneline_loop :: "bytes \<Rightarrow> nat \<Rightarrow> nat option" where
  "oneline_loop mem i = do {
     c \<leftarrow> mem_at mem i;
     (if c = NUL then Some i else if c = NL then Some (i + 1) else oneline_loop mem (i + 1)) }"

definition skip_oneline_comment :: "bytes \<Rightarrow> nat \<Rightarrow> nat option" where
  "skip_oneline_comment mem i = oneline_loop mem (i + 2)"

partial_function (option) multiline_loop :: "bytes \<Rightarrow> nat \<Rightarrow> nat option" where
  "multiline_loop mem i = do {
     c \<leftarrow> mem_at mem i;
     (if c = NUL then Some i
      else if c = CHR ''*'' then do {
        d \<leftarrow> mem_at mem (i + 1);
        (if d = CHR ''/'' then Some (i + 2) else multiline_loop mem (i + 1)) }
      else multiline_loop mem (i + 1)) }"

definition skip_multiline_comment :: "bytes \<Rightarrow> nat \<Rightarrow> nat option" where
  "skip_multiline_comment mem i = multiline_loop mem (i + 2)"

text \<open>The loop of \<open>minify_string\<close>: the memory and the positions of the input and of the output. The byte
  read is read again after the write.\<close>

partial_function (option) string_loop :: "bytes \<Rightarrow> nat \<Rightarrow> nat \<Rightarrow> (bytes \<times> nat \<times> nat) option" where
  "string_loop mem i out = do {
     c \<leftarrow> mem_at mem i;
     (if c = NUL then Some (mem, i, out)
      else do {
        mem1 \<leftarrow> mem_put mem out c;
        d \<leftarrow> mem_at mem1 i;
        (if d = CHR 0x22 then do {
           mem2 \<leftarrow> mem_put mem1 out (CHR 0x22);
           Some (mem2, i + 1, out + 1) }
         else if d = CHR 0x5C then do {
           e \<leftarrow> mem_at mem1 (i + 1);
           (if e = CHR 0x22 then do {
              mem2 \<leftarrow> mem_put mem1 (out + 1) e;
              string_loop mem2 (i + 2) (out + 2) }
            else string_loop mem1 (i + 1) (out + 1)) }
         else string_loop mem1 (i + 1) (out + 1)) }) }"

definition minify_string :: "bytes \<Rightarrow> nat \<Rightarrow> nat \<Rightarrow> (bytes \<times> nat \<times> nat) option" where
  "minify_string mem i out = do {
     c \<leftarrow> mem_at mem i;
     mem1 \<leftarrow> mem_put mem out c;
     string_loop mem1 (i + 1) (out + 1) }"

partial_function (option) minify_loop :: "bytes \<Rightarrow> nat \<Rightarrow> nat \<Rightarrow> bytes option" where
  "minify_loop mem i out = do {
     c \<leftarrow> mem_at mem i;
     (if c = NUL then mem_put mem out NUL
      else if c = CHR '' '' \<or> c = TAB \<or> c = CHR 0x0D \<or> c = NL then minify_loop mem (i + 1) out
      else if c = CHR ''/'' then do {
        d \<leftarrow> mem_at mem (i + 1);
        (if d = CHR ''/'' then do { j \<leftarrow> skip_oneline_comment mem i; minify_loop mem j out }
         else if d = CHR ''*'' then do { j \<leftarrow> skip_multiline_comment mem i; minify_loop mem j out }
         else minify_loop mem (i + 1) out) }
      else if c = CHR 0x22 then do {
        (mem1, j, out1) \<leftarrow> minify_string mem i out;
        minify_loop mem1 j out1 }
      else do {
        mem1 \<leftarrow> mem_put mem out c;
        minify_loop mem1 (i + 1) (out + 1) }) }"

declare oneline_loop.simps [code] multiline_loop.simps [code] string_loop.simps [code] minify_loop.simps [code]

definition cJSON_Minify :: "bytes option \<Rightarrow> bytes option option" where
  "cJSON_Minify json = (case json of None \<Rightarrow> Some None | Some mem \<Rightarrow> map_option Some (minify_loop mem 0 0))"

section \<open>On the text\<close>

fun after_line :: "string \<Rightarrow> string" where
  "after_line [] = []"
| "after_line (c # s) = (if c = NL then s else after_line s)"

fun after_comment :: "string \<Rightarrow> string" where
  "after_comment [] = []"
| "after_comment (c # s) = (if c = CHR ''*'' \<and> take 1 s = ''/'' then drop 1 s else after_comment s)"

text \<open>The part of a string that is left, with its closing quote when there is one, and what follows.\<close>

fun string_part :: "string \<Rightarrow> string \<times> string" where
  "string_part [] = ([], [])"
| "string_part [c] = ([c], [])"
| "string_part (c # d # s) =
     (if c = CHR 0x22 then ([c], d # s)
      else if c = CHR 0x5C \<and> d = CHR 0x22 then map_prod (\<lambda>a. c # d # a) id (string_part s)
      else map_prod (Cons c) id (string_part (d # s)))"

lemma length_after_line: "length (after_line s) \<le> length s"
  by (induction s) auto

lemma length_after_comment: "length (after_comment s) \<le> length s"
  by (induction s) auto

lemma length_string_part: "length (snd (string_part s)) \<le> length s"
  by (induction s rule: string_part.induct) auto

function minified :: "string \<Rightarrow> string" where
  "minified [] = []"
| "minified (c # s) =
     (if c = CHR '' '' \<or> c = TAB \<or> c = CHR 0x0D \<or> c = NL then minified s
      else if c = CHR ''/'' then
        (if take 1 s = ''/'' then minified (after_line (drop 1 s))
         else if take 1 s = ''*'' then minified (after_comment (drop 1 s))
         else minified s)
      else if c = CHR 0x22 then c # fst (string_part s) @ minified (snd (string_part s))
      else c # minified s)"
  by pat_completeness auto
termination
  using length_after_line length_after_comment length_string_part
  by (relation "measure length") (auto simp: less_Suc_eq_le intro: order_trans [OF length_after_line] order_trans [OF length_after_comment])

declare minified.simps [simp del]

section \<open>What is left in the memory\<close>

lemma mem_at_holds: "holds_at mem i (c # s) \<Longrightarrow> mem_at mem i = Some c"
  by simp

lemma mem_put_ok: "mem_at mem i = Some c \<Longrightarrow> out \<le> i \<Longrightarrow> mem_put mem out d = Some (mem[out := d])"
  by (auto simp: mem_at_def mem_put_def split: if_splits)

text \<open>A byte that was read is written to a place before it or to its own place.\<close>

lemma holds_put: "out < i \<Longrightarrow> holds_at (mem[out := c]) i s = holds_at mem i s"
  by (induction s arbitrary: i) (simp_all add: mem_at_def)

lemma holds_put_same: "mem_at mem i = Some c \<Longrightarrow> out \<le> i \<Longrightarrow> holds_at mem i s \<Longrightarrow> holds_at (mem[out := c]) i s"
  by (cases "out = i") (auto simp: holds_put mem_at_def split: if_splits)

lemma take_put: "mem_at mem i = Some d \<Longrightarrow> out \<le> i \<Longrightarrow> take (out + 1) (mem[out := c]) = take out mem @ [c]"
  by (auto simp: mem_at_def take_Suc_conv_app_nth split: if_splits)

lemma oneline_loop_text:
  "holds_at mem i (s @ [NUL]) \<Longrightarrow> NUL \<notin> set s \<Longrightarrow>
     \<exists>j. oneline_loop mem i = Some j \<and> i \<le> j \<and> holds_at mem j (after_line s @ [NUL])"
proof (induction s arbitrary: i)
  case (Cons c s)
  have "holds_at mem (i + 1) (s @ [NUL])" "NUL \<notin> set s" using Cons.prems by simp_all
  from Cons.IH [OF this] obtain j where "oneline_loop mem (i + 1) = Some j" "i + 1 \<le> j"
    "holds_at mem j (after_line s @ [NUL])" by blast
  then show ?case using Cons.prems by (subst oneline_loop.simps) auto
qed (subst oneline_loop.simps, simp)

lemma multiline_loop_text:
  "holds_at mem i (s @ [NUL]) \<Longrightarrow> NUL \<notin> set s \<Longrightarrow>
     \<exists>j. multiline_loop mem i = Some j \<and> i \<le> j \<and> holds_at mem j (after_comment s @ [NUL])"
proof (induction s arbitrary: i)
  case (Cons c s)
  have "holds_at mem (i + 1) (s @ [NUL])" "NUL \<notin> set s" using Cons.prems by simp_all
  from Cons.IH [OF this] obtain j where j: "multiline_loop mem (i + 1) = Some j" "i + 1 \<le> j"
    "holds_at mem j (after_comment s @ [NUL])" by blast
  obtain d r where d: "s @ [NUL] = d # r" "(d = CHR ''/'') = (take 1 s = ''/'')" by (cases s) auto
  have "mem_at mem (i + 1) = Some d" using Cons.prems(1) d(1) by simp
  moreover have "take 1 s = ''/'' \<Longrightarrow> holds_at mem (i + 2) (drop 1 s @ [NUL])" using Cons.prems(1) by (cases s) simp_all
  ultimately show ?case using Cons.prems j d(2) by (subst multiline_loop.simps) auto
qed (subst multiline_loop.simps, simp)

text \<open>The text \<open>a\<close> was written from \<open>out\<close> on, and the text \<open>r\<close> is ahead at \<open>j\<close>.\<close>

definition left :: "bytes \<Rightarrow> nat \<Rightarrow> string \<Rightarrow> bytes \<Rightarrow> nat \<Rightarrow> string \<Rightarrow> bool" where
  "left mem out a mem' j r \<longleftrightarrow> length mem' = length mem \<and> take (out + length a) mem' = take out mem @ a
     \<and> out + length a \<le> j \<and> holds_at mem' j (r @ [NUL])"

lemma left_put:
  assumes "holds_at mem i (c # s @ [NUL])" and "out \<le> i"
  shows "left mem out [c] (mem[out := c]) (i + 1) s" and "mem_put mem out c = Some (mem[out := c])"
    and "holds_at (mem[out := c]) i (c # s @ [NUL])"
  using assms take_put [OF mem_at_holds [OF assms(1)] assms(2), of c] mem_put_ok [OF mem_at_holds [OF assms(1)] assms(2)]
    holds_put_same [OF mem_at_holds [OF assms(1)] assms(2) assms(1)]
    holds_put_same [OF mem_at_holds [OF assms(1)] assms(2), of "c # s @ [NUL]"]
  by (simp_all add: left_def)

lemma left_trans:
  assumes "left mem out a mem1 i s" and "left mem1 (out + length a) b mem2 j r"
  shows "left mem out (a @ b) mem2 j r"
  using assms by (simp add: left_def add.assoc)

lemma string_loop_text:
  assumes "holds_at mem i (s @ [NUL])" and "NUL \<notin> set s" and "out \<le> i"
  shows "\<exists>mem' j. string_loop mem i out = Some (mem', j, out + length (fst (string_part s)))
    \<and> left mem out (fst (string_part s)) mem' j (snd (string_part s))"
  using assms
proof (induction s arbitrary: mem i out rule: string_part.induct)
  case 1
  then show ?case by (subst string_loop.simps) (simp add: left_def)
next
  case (2 c)
  then have h: "holds_at mem i (c # [] @ [NUL])" by simp
  note p = left_put [OF h 2(3)]
  have "string_loop (mem[out := c]) (i + 1) (out + 1) = Some (mem[out := c], i + 1, out + 1)"
    using p(1) by (subst string_loop.simps) (simp add: left_def)
  moreover have "mem_at mem i = Some c" "c \<noteq> NUL" "mem_at (mem[out := c]) i = Some c" "mem_at (mem[out := c]) (i + 1) = Some NUL"
    using h p(3) 2(2) by auto
  moreover from this(3) have "mem_put (mem[out := c]) out c = Some (mem[out := c])"
    using mem_put_ok [OF _ 2(3), of "mem[out := c]" c c] by simp
  ultimately have "string_loop mem i out = Some (mem[out := c], i + 1, out + 1)"
    using p(2) by (cases "c = CHR 0x22"; cases "c = CHR 0x5C") (subst string_loop.simps, simp)+
  then show ?case using p(1) by simp
next
  case (3 c d s)
  then have h: "holds_at mem i (c # (d # s) @ [NUL])" by simp
  note p = left_put [OF h 3(5)]
  let ?m = "mem[out := c]"
  have c: "mem_at mem i = Some c" "c \<noteq> NUL" "mem_at ?m i = Some c" "mem_at ?m (i + 1) = Some d"
    using h p(3) 3(4) by auto
  have h1: "holds_at ?m (i + 1) (d # s @ [NUL])" "out + 1 \<le> i + 1" using p(3) 3(5) by simp_all
  consider (quote) "c = CHR 0x22" | (pair) "c = CHR 0x5C" "d = CHR 0x22"
    | (other) "c \<noteq> CHR 0x22" "\<not> (c = CHR 0x5C \<and> d = CHR 0x22)" by blast
  then show ?case
  proof cases
    case quote
    then have "string_loop mem i out = Some (?m, i + 1, out + 1)"
      using c p(2) mem_put_ok [OF c(3) 3(5), of c] by (subst string_loop.simps) simp
    then show ?thesis using p(1) quote by auto
  next
    case pair
    note q = left_put [OF h1]
    have "holds_at (?m[out + 1 := d]) (i + 2) (s @ [NUL])" "NUL \<notin> set s" "out + 2 \<le> i + 2"
      using q(1) 3(4,5) by (simp_all add: left_def)
    from 3(1) [OF _ _ this] pair obtain mem' j where
      r: "string_loop (?m[out + 1 := d]) (i + 2) (out + 2) = Some (mem', j, out + 2 + length (fst (string_part s)))"
        "left (?m[out + 1 := d]) (out + 2) (fst (string_part s)) mem' j (snd (string_part s))" by auto
    have "left mem out ([c] @ [d]) (?m[out + 1 := d]) (i + 1 + 1) s"
      by (rule left_trans [OF p(1)]) (use q(1) in simp)
    from left_trans [OF this] r(2) have "left mem out (c # d # fst (string_part s)) mem' j (snd (string_part s))" by simp
    moreover have "string_loop mem i out = string_loop (?m[out + 1 := d]) (i + 2) (out + 2)"
      using c p(2) q(2) pair by (subst string_loop.simps) simp
    ultimately show ?thesis using r(1) pair by auto
  next
    case other
    have "holds_at ?m (i + 1) ((d # s) @ [NUL])" "NUL \<notin> set (d # s)" using h1 3(4) by simp_all
    from 3(2) [OF other this h1(2)] obtain mem' j where
      r: "string_loop ?m (i + 1) (out + 1) = Some (mem', j, out + 1 + length (fst (string_part (d # s))))"
        "left ?m (out + 1) (fst (string_part (d # s))) mem' j (snd (string_part (d # s)))" by auto
    from left_trans [OF p(1)] r(2) have "left mem out (c # fst (string_part (d # s))) mem' j (snd (string_part (d # s)))" by simp
    moreover have "string_loop mem i out = string_loop ?m (i + 1) (out + 1)"
      using c p(2) other by (subst string_loop.simps) auto
    ultimately show ?thesis using r(1) other by auto
  qed
qed

lemma minify_string_text:
  assumes "holds_at mem i (CHR 0x22 # s @ [NUL])" and "NUL \<notin> set s" and "out \<le> i"
  shows "\<exists>mem' j. minify_string mem i out = Some (mem', j, out + 1 + length (fst (string_part s)))
    \<and> left mem out (CHR 0x22 # fst (string_part s)) mem' j (snd (string_part s))"
proof -
  note p = left_put [OF assms(1,3)]
  obtain mem' j where
    "string_loop (mem[out := CHR 0x22]) (i + 1) (out + 1) = Some (mem', j, out + 1 + length (fst (string_part s)))"
    "left (mem[out := CHR 0x22]) (out + 1) (fst (string_part s)) mem' j (snd (string_part s))"
    using string_loop_text [of "mem[out := CHR 0x22]" "i + 1" s "out + 1"] p(1) assms by (auto simp: left_def)
  then show ?thesis using left_trans [OF p(1)] p(2) assms(1) by (auto simp: minify_string_def)
qed

definition finished :: "bytes \<Rightarrow> nat \<Rightarrow> string \<Rightarrow> bytes \<Rightarrow> bool" where
  "finished mem out a mem' \<longleftrightarrow> length mem' = length mem \<and> take (out + length a + 1) mem' = take out mem @ a @ [NUL]"

lemma left_finished:
  "left mem out a mem1 j r \<Longrightarrow> finished mem1 (out + length a) b mem2 \<Longrightarrow> finished mem out (a @ b) mem2"
  by (simp add: left_def finished_def add.assoc)

lemma no_NUL_after: "NUL \<notin> set s \<Longrightarrow> NUL \<notin> set (after_line s)" "NUL \<notin> set s \<Longrightarrow> NUL \<notin> set (after_comment s)"
  by (induction s) (auto dest: in_set_dropD)

lemma no_NUL_string_part: "NUL \<notin> set s \<Longrightarrow> NUL \<notin> set (fst (string_part s)) \<and> NUL \<notin> set (snd (string_part s))"
  by (induction s rule: string_part.induct) auto

lemma no_NUL_drop: "NUL \<notin> set s \<Longrightarrow> NUL \<notin> set (drop 1 s)"
  by (auto dest: in_set_dropD)

lemma minify_loop_text:
  assumes "holds_at mem i (s @ [NUL])" and "NUL \<notin> set s" and "out \<le> i"
  shows "\<exists>mem'. minify_loop mem i out = Some mem' \<and> finished mem out (minified s) mem'"
  using assms
proof (induction s arbitrary: mem i out rule: minified.induct)
  case 1
  have "mem_at mem i = Some NUL" using 1(1) by simp
  then show ?case using mem_put_ok [OF _ 1(3)] take_put [OF _ 1(3), of mem NUL NUL]
    by (subst minify_loop.simps) (simp add: finished_def minified.simps)
next
  case (2 c s)
  have h: "holds_at mem i (c # s @ [NUL])" and n: "c \<noteq> NUL" "NUL \<notin> set s" using "2.prems"(1,2) by auto
  have c: "mem_at mem i = Some c" and h1: "holds_at mem (i + 1) (s @ [NUL])" and o1: "out \<le> i + 1"
    using h "2.prems"(3) by simp_all
  let ?blank = "c = CHR '' '' \<or> c = TAB \<or> c = CHR 0x0D \<or> c = NL"
  have slash: "CHR ''/'' \<noteq> TAB" "CHR ''/'' \<noteq> NL" "CHR 0x22 \<noteq> TAB" "CHR 0x22 \<noteq> NL" by (simp_all add: TAB_def NL_def)
  consider (blank) "?blank" | (line) r where "\<not> ?blank" "c = CHR ''/''" "s = CHR ''/'' # r"
    | (comment) r where "\<not> ?blank" "c = CHR ''/''" "s = CHR ''*'' # r"
    | (lone) "\<not> ?blank" "c = CHR ''/''" "take 1 s \<noteq> ''/''" "take 1 s \<noteq> ''*''"
    | (str) "\<not> ?blank" "c = CHR 0x22" | (other) "\<not> ?blank" "c \<noteq> CHR ''/''" "c \<noteq> CHR 0x22"
    by (cases s) force+
  then show ?case
  proof cases
    case blank
    then have "minify_loop mem i out = minify_loop mem (i + 1) out" "minified (c # s) = minified s"
      using c n by (subst minify_loop.simps, simp, simp add: minified.simps)
    then show ?thesis using 2(1) [OF blank h1 n(2) o1] by simp
  next
    case (line r)
    have "holds_at mem (i + 2) (r @ [NUL])" "NUL \<notin> set r" using h1 n(2) line(3) by simp_all
    from oneline_loop_text [OF this] obtain j where j: "skip_oneline_comment mem i = Some j" "i + 2 \<le> j"
      "holds_at mem j (after_line r @ [NUL])" by (auto simp: skip_oneline_comment_def)
    have "minify_loop mem i out = minify_loop mem j out" "minified (c # s) = minified (after_line r)"
      using c n line j(1) h1 slash by (subst minify_loop.simps, simp, simp add: minified.simps)
    moreover have "NUL \<notin> set (after_line r)" "out \<le> j" using no_NUL_after(1) n(2) line(3) "2.prems"(3) j(2) by simp_all
    ultimately show ?thesis using 2(2) [OF line(1,2) _ _ _ \<open>out \<le> j\<close>] j(3) line(3) by simp
  next
    case (comment r)
    have "holds_at mem (i + 2) (r @ [NUL])" "NUL \<notin> set r" using h1 n(2) comment(3) by simp_all
    from multiline_loop_text [OF this] obtain j where j: "skip_multiline_comment mem i = Some j" "i + 2 \<le> j"
      "holds_at mem j (after_comment r @ [NUL])" by (auto simp: skip_multiline_comment_def)
    have "minify_loop mem i out = minify_loop mem j out" "minified (c # s) = minified (after_comment r)"
      using c n comment j(1) h1 slash by (subst minify_loop.simps, simp, simp add: minified.simps)
    moreover have "NUL \<notin> set (after_comment r)" "out \<le> j" using no_NUL_after(2) n(2) comment(3) "2.prems"(3) j(2) by simp_all
    ultimately show ?thesis using 2(3) [OF comment(1,2) _ _ _ _ \<open>out \<le> j\<close>] j(3) comment(3) by simp
  next
    case lone
    obtain d r where d: "s @ [NUL] = d # r" "d \<noteq> CHR ''/''" "d \<noteq> CHR ''*''" using lone(3,4) by (cases s) auto
    have "mem_at mem (i + 1) = Some d" using h1 d(1) by simp
    then have "minify_loop mem i out = minify_loop mem (i + 1) out" "minified (c # s) = minified s"
      using c n lone d slash by (subst minify_loop.simps, simp, simp add: minified.simps)
    then show ?thesis using 2(4) [OF lone h1 n(2) o1] by simp
  next
    case str
    from h have "holds_at mem i (CHR 0x22 # s @ [NUL])" using str(2) by simp
    from minify_string_text [OF this n(2) "2.prems"(3)] obtain mem1 j where
      m: "minify_string mem i out = Some (mem1, j, out + 1 + length (fst (string_part s)))"
        "left mem out (CHR 0x22 # fst (string_part s)) mem1 j (snd (string_part s))" by blast
    let ?o = "out + 1 + length (fst (string_part s))"
    have "holds_at mem1 j (snd (string_part s) @ [NUL])" "?o \<le> j" using m(2) by (simp_all add: left_def)
    from 2(5) [OF str(1) _ str(2) this(1) _ this(2)] obtain mem' where
      e: "minify_loop mem1 j ?o = Some mem'" "finished mem1 ?o (minified (snd (string_part s))) mem'"
      using no_NUL_string_part [OF n(2)] str(2) by auto
    have "minify_loop mem i out = minify_loop mem1 j ?o"
      using c n str m(1) slash by (subst minify_loop.simps) simp
    moreover have "minified (c # s) = (CHR 0x22 # fst (string_part s)) @ minified (snd (string_part s))"
      using str slash by (simp add: minified.simps)
    ultimately show ?thesis using left_finished [OF m(2)] e by simp
  next
    case other
    note p = left_put [OF h "2.prems"(3)]
    have "holds_at (mem[out := c]) (i + 1) (s @ [NUL])" "out + 1 \<le> i + 1" using p(1) by (simp_all add: left_def)
    from 2(6) [OF other this(1) n(2) this(2)] obtain mem' where
      e: "minify_loop (mem[out := c]) (i + 1) (out + 1) = Some mem'" "finished (mem[out := c]) (out + 1) (minified s) mem'" by blast
    have "minify_loop mem i out = minify_loop (mem[out := c]) (i + 1) (out + 1)"
      using c n other p(2) by (subst minify_loop.simps) simp
    moreover have "minified (c # s) = [c] @ minified s" using other by (simp add: minified.simps)
    ultimately show ?thesis using left_finished [OF p(1)] e by simp
  qed
qed

lemma no_NUL_minified: "NUL \<notin> set s \<Longrightarrow> NUL \<notin> set (minified s)"
proof (induction s rule: minified.induct)
  case (2 c s)
  then have "NUL \<notin> set s" "c \<noteq> NUL" by auto
  note n = this no_NUL_drop [OF this(1)]
  show ?case
    using 2(1-6) n no_NUL_after [OF n(3)] no_NUL_string_part [OF n(1)] by (auto simp: minified.simps)
qed (simp add: minified.simps)

lemma minify_in_place:
  assumes "c_str mem = Some s"
  shows "\<exists>mem'. cJSON_Minify (Some mem) = Some (Some mem') \<and> length mem' = length mem \<and> c_str mem' = Some (minified s)"
proof -
  have "NUL \<in> set mem" using assms by (simp add: c_str_def split: if_splits)
  then obtain t r where t: "mem = t @ NUL # r" "NUL \<notin> set t" using split_list_first by metis
  then have s: "NUL \<notin> set s" and mem: "mem = (s @ [NUL]) @ r" using assms c_str_append_NUL [OF t(2), of r] by simp_all
  obtain mem' where m: "minify_loop mem 0 0 = Some mem'" "finished mem 0 (minified s) mem'"
    using minify_loop_text [of mem 0 s 0] holds_whole [of "s @ [NUL]" r] s by (auto simp: mem)
  have "mem' = minified s @ NUL # drop (length (minified s) + 1) mem'"
    using m(2) append_take_drop_id [of "length (minified s) + 1" mem'] by (simp add: finished_def)
  then have "c_str mem' = Some (minified s)" using c_str_append_NUL [OF no_NUL_minified [OF s]] by metis
  then show ?thesis using m by (auto simp: cJSON_Minify_def finished_def)
qed

section \<open>The text of a tree\<close>

text \<open>A string that ends with a backslash is written with two of them before the closing quote, and the
  second is taken for the start of an escape; the trees without such strings:\<close>

definition no_final_backslash :: "string option \<Rightarrow> bool" where
  "no_final_backslash s = (case s of None \<Rightarrow> True | Some x \<Rightarrow> x = [] \<or> last x \<noteq> CHR 0x5C)"

fun minifiable :: "cJSON \<Rightarrow> bool" where
  "minifiable (cJSON_node c t v i x s) \<longleftrightarrow> no_final_backslash v \<and> no_final_backslash s \<and> (\<forall>y \<in> set c. minifiable y)"

lemma string_part_step:
  "s \<noteq> [] \<Longrightarrow> c \<noteq> CHR 0x22 \<Longrightarrow> c \<noteq> CHR 0x5C \<or> hd s \<noteq> CHR 0x22 \<Longrightarrow> string_part (c # s) = map_prod (Cons c) id (string_part s)"
  by (cases s) auto

lemma hex_lower_word: "n < 16 \<Longrightarrow> hex_lower n \<noteq> CHR 0x22 \<and> hex_lower n \<noteq> CHR 0x5C"
  by (rule hex_lower_plain)

lemma escaped_first: "escaped c = z # w \<Longrightarrow> z \<noteq> CHR 0x22"
  by (cases c rule: special_cases) auto

lemma string_part_escaped:
  "no_final_backslash (Some x) \<Longrightarrow> string_part (concat (map escaped x) @ CHR 0x22 # r) = (concat (map escaped x) @ [CHR 0x22], r)"
proof (induction x)
  case Nil
  then show ?case by (cases r) simp_all
next
  case (Cons c x)
  let ?e = "concat (map escaped x)" and ?s = "concat (map escaped x) @ CHR 0x22 # r"
  have ih: "string_part ?s = (?e @ [CHR 0x22], r)"
    using Cons by (cases "x = []"; cases r) (simp_all add: no_final_backslash_def)
  have n: "?s \<noteq> []" by simp
  show ?case
  proof (cases c rule: special_cases)
    case plain
    then show ?thesis using string_part_step [OF n, of c] ih by simp
  next
    case (short d)
    consider "d = CHR 0x22" | "d = CHR 0x5C" | "d \<noteq> CHR 0x22" "d \<noteq> CHR 0x5C" by blast
    then show ?thesis
    proof cases
      case 1
      then show ?thesis using short ih by simp
    next
      case 2
      then have "c = CHR 0x5C" using short(3) by (simp add: short_escape_def)
      then obtain y ys where x: "x = y # ys" using Cons.prems by (cases x) (auto simp: no_final_backslash_def)
      obtain z w where "escaped y = z # w" by (cases "escaped y") (use length_escaped [of y] in auto)
      then have "hd ?s \<noteq> CHR 0x22" using escaped_first [of y] x by simp
      then show ?thesis using short 2 ih string_part_step [OF n, of "CHR 0x5C"] by simp
    next
      case 3
      then show ?thesis using short ih string_part_step [OF n, of d] by simp
    qed
  next
    case (long h l)
    have "h \<noteq> CHR 0x22 \<and> h \<noteq> CHR 0x5C" "l \<noteq> CHR 0x22 \<and> l \<noteq> CHR 0x5C"
      unfolding long(3,4) by (rule hex_lower_plain, use long(5) in simp)+
    then show ?thesis using long(2) ih string_part_step [OF n, of l] by simp
  qed
qed

definition ordinary :: "char \<Rightarrow> bool" where
  "ordinary c \<longleftrightarrow> c \<notin> {CHR '' '', TAB, CHR 0x0D, NL, CHR ''/'', CHR 0x22}"

lemma minified_ordinary: "\<forall>c \<in> set w. ordinary c \<Longrightarrow> minified (w @ r) = w @ minified r"
  by (induction w) (simp_all add: minified.simps ordinary_def)

lemma minified_char: "ordinary c \<Longrightarrow> minified (c # r) = c # minified r"
  using minified_ordinary [of "[c]" r] by simp

lemma minified_indent [simp]:
  "minified (replicate n TAB @ r) = minified r" "minified (NL # r) = minified r" "minified (TAB # r) = minified r"
  "minified (CHR '' '' # r) = minified r"
proof -
  show "minified (replicate n TAB @ r) = minified r" by (induction n) (simp_all add: minified.simps)
qed (simp_all add: minified.simps)

lemma minified_string:
  assumes "no_final_backslash s"
  shows "minified (string_text s @ r) = string_text s @ minified r"
proof -
  have "minified (CHR 0x22 # t) = CHR 0x22 # fst (string_part t) @ minified (snd (string_part t))" for t
    by (simp add: minified.simps TAB_def NL_def)
  then show ?thesis using assms string_part_escaped [of _ r] string_part_escaped [of "[]" r]
    by (cases s) (simp_all add: string_text_def no_final_backslash_def)
qed

lemma ordinary_marks [simp]:
  "ordinary CHR ''[''" "ordinary CHR '']''" "ordinary CHR ''{''" "ordinary CHR ''}''" "ordinary CHR '',''" "ordinary CHR '':''"
  by (simp_all add: ordinary_def TAB_def NL_def)

lemma minified_elements:
  "\<forall>y \<in> set c. \<forall>r. minified (node_text True d y @ r) = node_text False e y @ minified r \<Longrightarrow>
    minified (elements_text True d c @ r) = elements_text False e c @ minified r"
  by (induction c) (auto simp: minified_char)

lemma minified_members:
  "\<forall>y \<in> set c. no_final_backslash (jstring y) \<and> (\<forall>r. minified (node_text True d y @ r) = node_text False e y @ minified r) \<Longrightarrow>
    minified (members_text True d c @ r) = members_text False e c @ minified r"
  by (induction c) (auto simp: minified_char minified_string)

text \<open>The text of a number, whole or not.\<close>

lemma ordinary_digits: "is_digit c \<Longrightarrow> ordinary c"
  by (auto simp: ordinary_def is_digit_def TAB_def NL_def)

lemma ordinary_dec: "list_all ordinary (dec_int i)"
  using dec_int_set [of i] ordinary_digits by (auto simp: list_all_iff ordinary_def TAB_def NL_def)

lemma ordinary_part: "list_all ordinary s \<Longrightarrow> list_all ordinary (take n s)" "list_all ordinary s \<Longrightarrow> list_all ordinary (drop n s)"
  by (auto simp: list_all_iff dest: in_set_takeD in_set_dropD)

lemma ordinary_number_marks [simp]:
  "ordinary CHR ''0''" "ordinary CHR ''e''" "ordinary CHR ''-''" "ordinary CHR ''+''" "ordinary CHR ''.''"
  by (simp_all add: ordinary_def TAB_def NL_def)

lemma ordinary_with_point:
  assumes "list_all ordinary a" and "list_all ordinary b"
  shows "list_all ordinary (with_point a b)"
proof -
  have "list_all ordinary (strip_zeros b)"
    using assms(2) strip_zeros_set [of b] by (auto simp only: list_all_iff)
  then show ?thesis using assms(1) by (simp add: with_point_def Let_def)
qed

lemma ordinary_format: "list_all ordinary (format_g prec q)"
proof -
  have b: "list_all ordinary (with_point (take n (dec_int m)) (drop n (dec_int m)))" for n m
    by (intro ordinary_with_point ordinary_part ordinary_dec)
  have r: "list_all ordinary (replicate n CHR ''0'')" for n
    by (simp add: list_all_iff)
  have z: "list_all ordinary (with_point ''0'' (replicate n CHR ''0'' @ dec_int m))" for n m
    by (intro ordinary_with_point) (simp_all add: r ordinary_dec)
  show ?thesis
    unfolding format_g_def Let_def
    by (simp add: b z z [where n = 0, simplified] ordinary_dec split: prod.split)
qed

lemma ordinary_number: "printed_number item = Some s \<Longrightarrow> list_all ordinary s"
proof -
  have "list_all ordinary ''null''" by (simp add: ordinary_def TAB_def NL_def)
  then show "printed_number item = Some s \<Longrightarrow> list_all ordinary s"
    by (auto simp: printed_number_def Let_def ordinary_format ordinary_dec
        split: double.splits if_splits prod.splits)
qed

text \<open>The trees without a raw text, which is printed as it is.\<close>

fun no_raw :: "cJSON \<Rightarrow> bool" where
  "no_raw (cJSON_node c t v i x s) \<longleftrightarrow> t mod 256 \<noteq> cJSON_Raw \<and> (\<forall>y \<in> set c. no_raw y)"

lemma readable_no_NUL: "readable x \<Longrightarrow> NUL \<notin> set (node_text fmt d x)"
proof (induction x arbitrary: d)
  case (cJSON_node c t v i x s)
  have r: "readable y" if "y \<in> set c" for y using cJSON_node.prems that by simp
  have kids: "NUL \<notin> set (node_text fmt e y)" if "y \<in> set c" for y e
    using cJSON_node.IH [OF that r [OF that]] .
  moreover have names: "NUL \<notin> set (string_text (jstring y))" if "y \<in> set c" for y
    by (rule no_NUL_string_text) (use r [OF that] in \<open>cases y; simp\<close>)
  have n: "NUL \<notin> set (the (printed_number (cJSON_node c t v i x s)))" if "t mod 256 = cJSON_Number"
    using cJSON_node.prems that no_NUL_number by auto
  have "NUL \<notin> set (string_text v)" by (rule no_NUL_string_text) (use cJSON_node.prems in simp)
  moreover have "NUL \<notin> set (case v of None \<Rightarrow> [] | Some r \<Rightarrow> r)"
    using cJSON_node.prems by (simp split: option.split)
  moreover have "NUL \<notin> set (elements_text fmt e c)" "NUL \<notin> set (members_text fmt e c)" for e
    using kids names by (simp_all add: no_NUL_elements no_NUL_members)
  ultimately show ?case using n by (simp add: node_text.simps(1) Let_def TAB_def NL_def)
qed

lemma minified_text:
  "readable x \<Longrightarrow> no_raw x \<Longrightarrow> minifiable x \<Longrightarrow>
    minified (node_text True d x @ r) = node_text False e x @ minified r"
proof (induction x arbitrary: d e r)
  case (cJSON_node c t v i x s)
  have y: "minified (node_text True d y @ r) = node_text False e y @ minified r" if "y \<in> set c" for d e y r
    using cJSON_node.IH [OF that] cJSON_node.prems that by simp
  have m: "no_final_backslash (jstring y)" if "y \<in> set c" for y
    using cJSON_node.prems(3) that by (cases y) auto
  have words: "minified (''null'' @ r) = ''null'' @ minified r" "minified (''false'' @ r) = ''false'' @ minified r"
    "minified (''true'' @ r) = ''true'' @ minified r"
    by (rule minified_ordinary, simp add: ordinary_def TAB_def NL_def)+
  have number: "minified (the (printed_number (cJSON_node c t v i x s)) @ r)
      = the (printed_number (cJSON_node c t v i x s)) @ minified r" if "t mod 256 = cJSON_Number"
    using cJSON_node.prems(1) that ordinary_number
    by (intro minified_ordinary) (auto simp: list_all_iff)
  have str: "minified (string_text v @ r) = string_text v @ minified r"
    using cJSON_node.prems(3) by (intro minified_string) simp
  have array: "minified (''['' @ elements_text True (Suc d) c @ '']'' @ r)
      = ''['' @ elements_text False (Suc e) c @ '']'' @ minified r"
    using minified_elements [of c "Suc d" "Suc e"] y by (simp add: minified_char)
  have object: "minified (''{'' @ [NL] @ members_text True (Suc d) c @ replicate d TAB @ ''}'' @ r)
      = ''{'' @ members_text False (Suc e) c @ ''}'' @ minified r"
    using minified_members [of c "Suc d" "Suc e"] y m by (simp add: minified_char)
  show ?case
    using cJSON_node.prems(2) words number str array object by (simp add: node_text.simps(1) Let_def)
qed

lemma print_minify:
  assumes "readable t" and "no_raw t" and "minifiable t"
    and "cjson_print (Some t) True re al = Some (Some block, p)"
  obtains mem mem' where "block = map Some mem" "cJSON_Minify (Some mem) = Some (Some mem')"
    "c_str mem' = Some (node_text False 0 t)"
proof -
  from print_item_ok [OF assms(1), of True re al] assms(4)
  have b: "block = map Some (node_text True 0 t @ [NUL])" by auto
  have "minified (node_text True 0 t) = node_text False 0 t"
    using minified_text [OF assms(1-3), of 0 "[]" 0] by (simp add: minified.simps)
  then show ?thesis
    using minify_in_place [OF c_str_append_NUL [OF readable_no_NUL [OF assms(1)], of True 0 "[]"]] that [OF b] by auto
qed

end
