(* ===== verification/PropJsonPrint.thy ===== *)
theory PropJsonPrint
  imports JsonMinify
begin

text \<open>
  What holds of the printer of \<^verbatim>\<open>libjson/src/cJSON.c\<close>, of printing and parsing together, and of \<open>cJSON_Minify\<close>.
\<close>

section \<open>Every tree\<close>

text \<open>Property C25 [json_print]: printing any tree whose strings can be read and whose numbers fit their array
  of 26 bytes, plain or formatted, with \<open>realloc\<close> or without, returns without a fault, whatever the
  allocations do: it never reads a byte it has not written and never writes outside its growing block. The
  result is one block with exactly the text of the tree and a NUL, and nothing else is left allocated;
  without a result nothing is. With memory, a tree of known types and a text of less than half of
  \<open>INT_MAX\<close>, there is a result.\<close>

theorem printing_writes_the_text:
  assumes "readable t"
  shows "\<exists>r p. cjson_print (Some t) format reallocate al = Some (r, p)
    \<and> (case r of None \<Rightarrow> pr_live p = 0
       | Some block \<Rightarrow> block = map Some (node_text format 0 t @ [NUL]) \<and> pr_live p = 1)
    \<and> (al = [] \<and> printable t \<and> int (length (node_text format 0 t)) + 8 \<le> INT_MAX div 2 \<longrightarrow> r \<noteq> None)"
  using print_item_ok [OF assms] .

text \<open>\<open>{"a\":[1,true],"b":"x"}\<close>, where the name of the first member has a quote.\<close>

definition sample_tree :: cJSON where
  "sample_tree = cJSON_node
     [cJSON_node [cJSON_node [] cJSON_Number None (- 12) (Fin (- 12)) None,
                  cJSON_node [] cJSON_True None 1 (Fin 0) None] cJSON_Array None 0 (Fin 0) (Some [CHR ''a'', CHR 0x22]),
      cJSON_node [] cJSON_String (Some ''x'') 0 (Fin 0) (Some ''b'')] cJSON_Object None 0 (Fin 0) None"

definition sample_text :: string where
  "sample_text = ''{'' @ [CHR 0x22, CHR ''a'', CHR 0x5C, CHR 0x22, CHR 0x22] @ '':[-12,true],'' @ [CHR 0x22, CHR ''b'', CHR 0x22]
     @ '':'' @ [CHR 0x22, CHR ''x'', CHR 0x22] @ ''}''"

theorem printing_writes_the_text_witness:
  "\<exists>p. cjson_print (Some sample_tree) False True [] = Some (Some (map Some (sample_text @ [NUL])), p) \<and> pr_live p = 1"
proof -
  have "readable sample_tree" "printable sample_tree" by code_simp+
  moreover have "node_text False 0 sample_tree = sample_text" by code_simp
  moreover have "int (length sample_text) + 8 \<le> INT_MAX div 2" by code_simp
  ultimately show ?thesis using printing_writes_the_text [of sample_tree False True "[]"] by auto
qed

section \<open>Printing and parsing\<close>

text \<open>Property C26 [json_roundtrip]: what is printed of a tree of the form the parser delivers, with integer
  numbers in the range of \<open>int\<close> and at most 1000 nested arrays and objects, plain or formatted, parses to
  the same tree.\<close>

theorem printed_tree_is_read_back:
  assumes "plain t" and "jstring t = None" and "nesting t \<le> 1000"
    and "cjson_print (Some t) format reallocate al = Some (Some block, p)"
  shows "\<exists>mem b. block = map Some mem \<and> cJSON_Parse (Some mem) [] = Some (Some t, length mem - 1, b)"
  using print_then_parse [OF assms(1,2) _ assms(4)] assms(3) by (fastforce simp: CJSON_NESTING_LIMIT_def)

theorem printed_tree_is_read_back_witness:
  "\<exists>b. cJSON_Parse (Some (sample_text @ [NUL])) [] = Some (Some sample_tree, length sample_text, b)"
proof -
  have "map_option fst (cjson_print (Some sample_tree) False True []) = Some (Some (map Some (sample_text @ [NUL])))"
    by code_simp
  then obtain p where p: "cjson_print (Some sample_tree) False True [] = Some (Some (map Some (sample_text @ [NUL])), p)"
    by auto
  have "plain sample_tree" "jstring sample_tree = None" "nesting sample_tree \<le> 1000" by code_simp+
  from printed_tree_is_read_back [OF this p] show ?thesis
    by (auto dest!: arg_cong [of _ _ "map the"] simp: o_def)
qed

text \<open>A number that need not come back: when the text of 15 digits reads as infinity, as it does for the
  largest double, \<open>compare_double\<close> finds it the same as the number, because the difference and the bound
  are both infinite; the 17 digits are not tried.\<close>

lemma infinity_compares_equal:
  assumes "strtod (format_g 15 q) = (PInf, used)" and "used \<noteq> 0" and "length (format_g 15 q) \<le> 25"
    and "q \<noteq> of_int i"
  shows "printed_number (cJSON_node [] cJSON_Number None i (Fin q) name) = Some (format_g 15 q)"
  using assms by (simp add: printed_number_def compare_double_def)

section \<open>Minifying\<close>

text \<open>Property C27 [minify_returns]: \<open>cJSON_Minify\<close> returns on every C string, without a read or a write outside
  it, and although it overwrites the text it still reads, it leaves the string without white space and
  comments that \<open>minified\<close> gives by recursion on the text.\<close>

theorem minify_works_in_place:
  assumes "c_str mem = Some s"
  shows "\<exists>mem'. cJSON_Minify (Some mem) = Some (Some mem') \<and> length mem' = length mem
    \<and> c_str mem' = Some (minified s)"
  using minify_in_place [OF assms] .

theorem minify_works_in_place_witness:
  "\<exists>mem'. cJSON_Minify (Some (''[1, /* */2] // x'' @ [NUL])) = Some (Some mem') \<and> c_str mem' = Some ''[1,2]''"
proof -
  have "c_str (''[1, /* */2] // x'' @ [NUL]) = Some ''[1, /* */2] // x''" by code_simp
  moreover have "minified ''[1, /* */2] // x'' = ''[1,2]''" by code_simp
  ultimately show ?thesis using minify_works_in_place by metis
qed

text \<open>Property C32 [json_minify]: minifying the formatted text of a tree gives its plain text, when the
  strings of the tree can be read, its numbers, whole or not, fit their array, no string and no name ends
  with a backslash, and no node holds a raw text (which is printed as it is, white space included).\<close>

theorem formatted_text_is_minified_to_plain:
  assumes "readable t" and "no_raw t" and "minifiable t"
    and "cjson_print (Some t) True reallocate al = Some (Some formatted, p)"
    and "cjson_print (Some t) False reallocate' al' = Some (Some unformatted, q)"
  shows "\<exists>mem mem' s. formatted = map Some mem \<and> cJSON_Minify (Some mem) = Some (Some mem')
    \<and> c_str mem' = Some s \<and> unformatted = map Some (s @ [NUL])"
proof -
  obtain mem mem' where m: "formatted = map Some mem" "cJSON_Minify (Some mem) = Some (Some mem')"
    "c_str mem' = Some (node_text False 0 t)" using print_minify [OF assms(1-4)] .
  from print_item_ok [OF assms(1), of False reallocate' al'] assms(5)
  have "unformatted = map Some (node_text False 0 t @ [NUL])" by auto
  then show ?thesis using m by blast
qed

text \<open>\<open>{"a":[2.5,true],"b":"x"}\<close>, with a flag in the type of the array.\<close>

definition sample_tree_2 :: cJSON where
  "sample_tree_2 = cJSON_node
     [cJSON_node [cJSON_node [] cJSON_Number None 2 (Fin (5 / 2)) None,
                  cJSON_node [] cJSON_True None 1 (Fin 0) None] (256 + cJSON_Array) None 0 (Fin 0) (Some ''a''),
      cJSON_node [] cJSON_String (Some ''x'') 0 (Fin 0) (Some ''b'')] cJSON_Object None 0 (Fin 0) None"

definition sample_text_2 :: string where
  "sample_text_2 = ''{'' @ [CHR 0x22, CHR ''a'', CHR 0x22] @ '':[2.5,true],'' @ [CHR 0x22, CHR ''b'', CHR 0x22]
     @ '':'' @ [CHR 0x22, CHR ''x'', CHR 0x22] @ ''}''"

theorem formatted_text_is_minified_to_plain_witness:
  "\<exists>mem mem'. map_option fst (cjson_print (Some sample_tree_2) True True []) = Some (Some (map Some mem))
    \<and> cJSON_Minify (Some mem) = Some (Some mem') \<and> c_str mem' = Some sample_text_2"
proof -
  have "map_option fst (cjson_print (Some sample_tree_2) False True []) = Some (Some (map Some (sample_text_2 @ [NUL])))"
    by code_simp
  then obtain q where q: "cjson_print (Some sample_tree_2) False True [] = Some (Some (map Some (sample_text_2 @ [NUL])), q)" by auto
  have "map_option (\<lambda>r. fst r = None) (cjson_print (Some sample_tree_2) True True []) = Some False" by code_simp
  then obtain block p where p: "cjson_print (Some sample_tree_2) True True [] = Some (Some block, p)" by auto
  have "readable sample_tree_2" "no_raw sample_tree_2" "minifiable sample_tree_2" by code_simp+
  from formatted_text_is_minified_to_plain [OF this p q] show ?thesis
    using p by (auto dest!: arg_cong [of _ _ "map the"] simp: o_def)
qed

text \<open>After a string that ends with a backslash nothing is taken out any more: its closing quote is taken for
  an escaped one, and the blank after the comma stays.\<close>

lemma final_backslash_is_not_minified:
  "minified (''['' @ [CHR 0x22, CHR 0x5C, CHR 0x5C, CHR 0x22] @ '', 1]'')
     = ''['' @ [CHR 0x22, CHR 0x5C, CHR 0x5C, CHR 0x22] @ '', 1]''"
  by code_simp

end
