(* ===== verification/JsonHeap.thy ===== *)
theory JsonHeap
  imports JsonPrint
begin

text \<open>
  The building and editing of trees in \<^verbatim>\<open>libjson/src/cJSON.c\<close>, on an explicit heap of nodes with their
  \<open>next\<close>, \<open>prev\<close> and \<open>child\<close> pointers, so that a node that is in two lists, a link that was not reset and
  a pointer to a freed node are visible. The \<open>prev\<close> of the first child is the last child. Strings are
  values; a copy of a string is a block that is counted with the nodes in \<open>jlive\<close>. Reading or writing
  through a null or freed pointer is a fault.
\<close>

section \<open>The heap\<close>

record jnode =
  jn_next :: "nat option"
  jn_prev :: "nat option"
  jn_child :: "nat option"
  jn_type :: nat
  jn_valuestring :: "string option"
  jn_valueint :: int
  jn_valuedouble :: double
  jn_string :: "string option"

record json_heap =
  jnodes :: "nat \<Rightarrow> jnode option"
  jfresh :: nat
  jallocs :: allocs
  jlive :: int

definition jput :: "nat \<Rightarrow> (jnode \<Rightarrow> jnode) \<Rightarrow> json_heap \<Rightarrow> json_heap option" where
  "jput p f s = (case jnodes s p of None \<Rightarrow> None | Some n \<Rightarrow> Some (s\<lparr>jnodes := (jnodes s)(p \<mapsto> f n)\<rparr>))"

definition has_flag :: "nat \<Rightarrow> nat \<Rightarrow> bool" where
  "has_flag f t = odd (t div f)"

definition set_flag :: "nat \<Rightarrow> nat \<Rightarrow> nat" where
  "set_flag f t = (if has_flag f t then t else t + f)"

definition clear_flag :: "nat \<Rightarrow> nat \<Rightarrow> nat" where
  "clear_flag f t = (if has_flag f t then t - f else t)"

definition zero_jnode :: jnode where
  "zero_jnode = \<lparr>jn_next = None, jn_prev = None, jn_child = None, jn_type = 0, jn_valuestring = None,
     jn_valueint = 0, jn_valuedouble = Fin 0, jn_string = None\<rparr>"

definition New_Item_at :: "json_heap \<Rightarrow> nat option \<times> json_heap" where
  "New_Item_at s = (case malloc_ok (jallocs s) of (ok, al) \<Rightarrow>
     if ok then (Some (jfresh s), s\<lparr>jnodes := (jnodes s)(jfresh s \<mapsto> zero_jnode), jfresh := Suc (jfresh s),
       jallocs := al, jlive := jlive s + 1\<rparr>)
     else (None, s\<lparr>jallocs := al\<rparr>))"

definition strdup_at :: "string option \<Rightarrow> json_heap \<Rightarrow> string option \<times> json_heap" where
  "strdup_at string s =
     (if string = None then (None, s)
      else (case malloc_ok (jallocs s) of (ok, al) \<Rightarrow>
        if ok then (string, s\<lparr>jallocs := al, jlive := jlive s + 1\<rparr>) else (None, s\<lparr>jallocs := al\<rparr>)))"

definition free_string :: "json_heap \<Rightarrow> json_heap" where
  "free_string s = s\<lparr>jlive := jlive s - 1\<rparr>"

text \<open>\<open>cJSON_Delete\<close>: the node, its children and strings as far as they are its own, then the next one.\<close>

partial_function (option) Delete_at :: "nat option \<Rightarrow> json_heap \<Rightarrow> json_heap option" where
  "Delete_at item s = (case item of None \<Rightarrow> Some s | Some p \<Rightarrow> do {
     n \<leftarrow> jnodes s p;
     s1 \<leftarrow> (if has_flag cJSON_IsReference (jn_type n) \<or> jn_child n = None then Some s else Delete_at (jn_child n) s);
     n1 \<leftarrow> jnodes s1 p;
     let s2 = (if has_flag cJSON_IsReference (jn_type n1) \<or> jn_valuestring n1 = None then s1 else free_string s1);
     let s3 = (if has_flag cJSON_StringIsConst (jn_type n1) \<or> jn_string n1 = None then s2 else free_string s2);
     Delete_at (jn_next n) (s3\<lparr>jnodes := (jnodes s3)(p := None), jlive := jlive s3 - 1\<rparr>) })"

section \<open>Reading\<close>

partial_function (option) count_children :: "nat option \<Rightarrow> nat \<Rightarrow> json_heap \<Rightarrow> nat option" where
  "count_children q k s = (case q of None \<Rightarrow> Some k | Some p \<Rightarrow> do {
     n \<leftarrow> jnodes s p;
     count_children (jn_next n) (k + 1) s })"

text \<open>The cast to \<open>int\<close> wraps.\<close>

definition cJSON_GetArraySize :: "nat option \<Rightarrow> json_heap \<Rightarrow> (32 word) option" where
  "cJSON_GetArraySize array s = (case array of None \<Rightarrow> Some 0 | Some a \<Rightarrow> do {
     n \<leftarrow> jnodes s a;
     k \<leftarrow> count_children (jn_child n) 0 s;
     Some (of_nat k) })"

fun nth_child :: "nat option \<Rightarrow> nat \<Rightarrow> json_heap \<Rightarrow> nat option option" where
  "nth_child None i s = Some None"
| "nth_child (Some p) 0 s = Some (Some p)"
| "nth_child (Some p) (Suc i) s = do { n \<leftarrow> jnodes s p; nth_child (jn_next n) i s }"

definition get_array_item :: "nat option \<Rightarrow> nat \<Rightarrow> json_heap \<Rightarrow> nat option option" where
  "get_array_item array index s = (case array of None \<Rightarrow> Some None | Some a \<Rightarrow> do {
     n \<leftarrow> jnodes s a;
     nth_child (jn_child n) index s })"

definition cJSON_GetArrayItem :: "nat option \<Rightarrow> int \<Rightarrow> json_heap \<Rightarrow> nat option option" where
  "cJSON_GetArrayItem array index s = (if index < 0 then Some None else get_array_item array (nat index) s)"

partial_function (option) find_child ::
  "(string option \<Rightarrow> bool) \<Rightarrow> nat option \<Rightarrow> json_heap \<Rightarrow> nat option option" where
  "find_child P q s = (case q of None \<Rightarrow> Some None | Some p \<Rightarrow> do {
     n \<leftarrow> jnodes s p;
     (if P (jn_string n) then Some (Some p) else find_child P (jn_next n) s) })"

definition get_object_item_at :: "nat option \<Rightarrow> string option \<Rightarrow> bool \<Rightarrow> json_heap \<Rightarrow> nat option option" where
  "get_object_item_at object name case_sensitive s =
     (if object = None \<or> name = None then Some None
      else do {
        n \<leftarrow> jnodes s (the object);
        current_element \<leftarrow>
          (if case_sensitive then find_child (\<lambda>t. t = None \<or> t = name) (jn_child n) s
           else find_child (case_insensitive_eq name) (jn_child n) s);
        (case current_element of None \<Rightarrow> Some None | Some p \<Rightarrow> do {
           e \<leftarrow> jnodes s p;
           Some (if jn_string e = None then None else Some p) }) })"

section \<open>Adding\<close>

definition suffix_object :: "nat \<Rightarrow> nat \<Rightarrow> json_heap \<Rightarrow> json_heap option" where
  "suffix_object prev item s = do {
     s1 \<leftarrow> jput prev (jn_next_update (\<lambda>_. Some item)) s;
     jput item (jn_prev_update (\<lambda>_. Some prev)) s1 }"

definition create_reference :: "nat option \<Rightarrow> json_heap \<Rightarrow> (nat option \<times> json_heap) option" where
  "create_reference item s = (case item of None \<Rightarrow> Some (None, s) | Some i \<Rightarrow>
     (case New_Item_at s of
        (None, s1) \<Rightarrow> Some (None, s1)
      | (Some reference, s1) \<Rightarrow> do {
          n \<leftarrow> jnodes s1 i;
          s2 \<leftarrow> jput reference (\<lambda>_. n\<lparr>jn_string := None, jn_type := set_flag cJSON_IsReference (jn_type n),
                                   jn_next := None, jn_prev := None\<rparr>) s1;
          Some (Some reference, s2) }))"

definition add_item_to_array :: "nat option \<Rightarrow> nat option \<Rightarrow> json_heap \<Rightarrow> (bool \<times> json_heap) option" where
  "add_item_to_array array item s =
     (case (array, item) of
        (Some a, Some i) \<Rightarrow>
          if a = i then Some (False, s)
          else do {
            n \<leftarrow> jnodes s a;
            (case jn_child n of
               None \<Rightarrow> do {
                 s1 \<leftarrow> jput a (jn_child_update (\<lambda>_. Some i)) s;
                 s2 \<leftarrow> jput i (\<lambda>m. m\<lparr>jn_prev := Some i, jn_next := None\<rparr>) s1;
                 Some (True, s2) }
             | Some c \<Rightarrow> do {
                 m \<leftarrow> jnodes s c;
                 (case jn_prev m of
                    None \<Rightarrow> Some (True, s)
                  | Some l \<Rightarrow> do {
                      s1 \<leftarrow> suffix_object l i s;
                      n1 \<leftarrow> jnodes s1 a;
                      c1 \<leftarrow> jn_child n1;
                      s2 \<leftarrow> jput c1 (jn_prev_update (\<lambda>_. Some i)) s1;
                      Some (True, s2) }) }) }
      | _ \<Rightarrow> Some (False, s))"

definition cJSON_AddItemToArray :: "nat option \<Rightarrow> nat option \<Rightarrow> json_heap \<Rightarrow> (bool \<times> json_heap) option" where
  "cJSON_AddItemToArray array item s = add_item_to_array array item s"

definition add_item_to_object :: "nat option \<Rightarrow> string option \<Rightarrow> nat option \<Rightarrow> bool \<Rightarrow> json_heap
    \<Rightarrow> (bool \<times> json_heap) option" where
  "add_item_to_object object string item constant_key s =
     (case (object, string, item) of
        (Some ob, Some str, Some i) \<Rightarrow>
          if ob = i then Some (False, s)
          else
            (case (if constant_key then (string, s) else strdup_at string s) of
               (None, s1) \<Rightarrow> Some (False, s1)
             | (new_key, s1) \<Rightarrow> do {
                 n \<leftarrow> jnodes s1 i;
                 let new_type = (if constant_key then set_flag cJSON_StringIsConst (jn_type n)
                                 else clear_flag cJSON_StringIsConst (jn_type n));
                 let s2 = (if \<not> has_flag cJSON_StringIsConst (jn_type n) \<and> jn_string n \<noteq> None then free_string s1 else s1);
                 s3 \<leftarrow> jput i (\<lambda>m. m\<lparr>jn_string := new_key, jn_type := new_type\<rparr>) s2;
                 add_item_to_array object item s3 })
      | _ \<Rightarrow> Some (False, s))"

definition cJSON_AddItemToObject :: "nat option \<Rightarrow> string option \<Rightarrow> nat option \<Rightarrow> json_heap \<Rightarrow> (bool \<times> json_heap) option" where
  "cJSON_AddItemToObject object string item s = add_item_to_object object string item False s"

definition cJSON_AddItemToObjectCS :: "nat option \<Rightarrow> string option \<Rightarrow> nat option \<Rightarrow> json_heap \<Rightarrow> (bool \<times> json_heap) option" where
  "cJSON_AddItemToObjectCS object string item s = add_item_to_object object string item True s"

definition cJSON_AddItemReferenceToArray :: "nat option \<Rightarrow> nat option \<Rightarrow> json_heap \<Rightarrow> (bool \<times> json_heap) option" where
  "cJSON_AddItemReferenceToArray array item s =
     (if array = None then Some (False, s)
      else do { (r, s1) \<leftarrow> create_reference item s; add_item_to_array array r s1 })"

definition cJSON_AddItemReferenceToObject :: "nat option \<Rightarrow> string option \<Rightarrow> nat option \<Rightarrow> json_heap
    \<Rightarrow> (bool \<times> json_heap) option" where
  "cJSON_AddItemReferenceToObject object string item s =
     (if object = None \<or> string = None then Some (False, s)
      else do { (r, s1) \<leftarrow> create_reference item s; add_item_to_object object string r False s1 })"

section \<open>Removing and replacing\<close>

definition cJSON_DetachItemViaPointer :: "nat option \<Rightarrow> nat option \<Rightarrow> json_heap \<Rightarrow> (nat option \<times> json_heap) option" where
  "cJSON_DetachItemViaPointer parent item s =
     (case (parent, item) of
        (Some p, Some i) \<Rightarrow> do {
          n \<leftarrow> jnodes s p;
          m \<leftarrow> (if jn_child n \<noteq> Some i then map_option Some (jnodes s i) else Some None);
          (if jn_child n \<noteq> Some i \<and> jn_prev (the m) = None then Some (None, s)
           else do {
             x \<leftarrow> jnodes s i;
             s1 \<leftarrow> (if jn_child n \<noteq> Some i
                    then do { l \<leftarrow> jn_prev x; jput l (jn_next_update (\<lambda>_. jn_next x)) s } else Some s);
             x1 \<leftarrow> jnodes s1 i;
             s2 \<leftarrow> (case jn_next x1 of None \<Rightarrow> Some s1
                    | Some r \<Rightarrow> jput r (jn_prev_update (\<lambda>_. jn_prev x1)) s1);
             n2 \<leftarrow> jnodes s2 p;
             x2 \<leftarrow> jnodes s2 i;
             s3 \<leftarrow> (if jn_child n2 = Some i then jput p (jn_child_update (\<lambda>_. jn_next x2)) s2
                    else if jn_next x2 = None
                    then do { c \<leftarrow> jn_child n2; jput c (jn_prev_update (\<lambda>_. jn_prev x2)) s2 }
                    else Some s2);
             s4 \<leftarrow> jput i (\<lambda>y. y\<lparr>jn_prev := None, jn_next := None\<rparr>) s3;
             Some (item, s4) }) }
      | _ \<Rightarrow> Some (None, s))"

definition cJSON_DetachItemFromArray :: "nat option \<Rightarrow> int \<Rightarrow> json_heap \<Rightarrow> (nat option \<times> json_heap) option" where
  "cJSON_DetachItemFromArray array which s =
     (if which < 0 then Some (None, s)
      else do { i \<leftarrow> get_array_item array (nat which) s; cJSON_DetachItemViaPointer array i s })"

definition cJSON_DeleteItemFromArray :: "nat option \<Rightarrow> int \<Rightarrow> json_heap \<Rightarrow> json_heap option" where
  "cJSON_DeleteItemFromArray array which s = do {
     (i, s1) \<leftarrow> cJSON_DetachItemFromArray array which s;
     Delete_at i s1 }"

definition cJSON_DetachItemFromObject :: "nat option \<Rightarrow> string option \<Rightarrow> json_heap \<Rightarrow> (nat option \<times> json_heap) option" where
  "cJSON_DetachItemFromObject object string s = do {
     to_detach \<leftarrow> get_object_item_at object string False s;
     cJSON_DetachItemViaPointer object to_detach s }"

definition cJSON_DetachItemFromObjectCaseSensitive :: "nat option \<Rightarrow> string option \<Rightarrow> json_heap
    \<Rightarrow> (nat option \<times> json_heap) option" where
  "cJSON_DetachItemFromObjectCaseSensitive object string s = do {
     to_detach \<leftarrow> get_object_item_at object string True s;
     cJSON_DetachItemViaPointer object to_detach s }"

definition cJSON_DeleteItemFromObject :: "nat option \<Rightarrow> string option \<Rightarrow> json_heap \<Rightarrow> json_heap option" where
  "cJSON_DeleteItemFromObject object string s = do {
     (i, s1) \<leftarrow> cJSON_DetachItemFromObject object string s;
     Delete_at i s1 }"

definition cJSON_DeleteItemFromObjectCaseSensitive :: "nat option \<Rightarrow> string option \<Rightarrow> json_heap \<Rightarrow> json_heap option" where
  "cJSON_DeleteItemFromObjectCaseSensitive object string s = do {
     (i, s1) \<leftarrow> cJSON_DetachItemFromObjectCaseSensitive object string s;
     Delete_at i s1 }"

definition cJSON_InsertItemInArray :: "nat option \<Rightarrow> int \<Rightarrow> nat option \<Rightarrow> json_heap \<Rightarrow> (bool \<times> json_heap) option" where
  "cJSON_InsertItemInArray array which newitem s =
     (if which < 0 then Some (False, s)
      else (case newitem of None \<Rightarrow> Some (False, s) | Some w \<Rightarrow> do {
        after_inserted \<leftarrow> get_array_item array (nat which) s;
        (case after_inserted of
           None \<Rightarrow> add_item_to_array array newitem s
         | Some x \<Rightarrow> do {
             a \<leftarrow> array;
             n \<leftarrow> jnodes s a;
             m \<leftarrow> jnodes s x;
             (if jn_child n \<noteq> Some x \<and> jn_prev m = None then Some (False, s)
              else do {
                s1 \<leftarrow> jput w (\<lambda>y. y\<lparr>jn_next := Some x, jn_prev := jn_prev m\<rparr>) s;
                s2 \<leftarrow> jput x (jn_prev_update (\<lambda>_. Some w)) s1;
                n2 \<leftarrow> jnodes s2 a;
                s3 \<leftarrow> (if jn_child n2 = Some x then jput a (jn_child_update (\<lambda>_. Some w)) s2
                       else do {
                         y \<leftarrow> jnodes s2 w;
                         l \<leftarrow> jn_prev y;
                         jput l (jn_next_update (\<lambda>_. Some w)) s2 });
                Some (True, s3) }) }) }))"

definition cJSON_ReplaceItemViaPointer :: "nat option \<Rightarrow> nat option \<Rightarrow> nat option \<Rightarrow> json_heap
    \<Rightarrow> (bool \<times> json_heap) option" where
  "cJSON_ReplaceItemViaPointer parent item replacement s =
     (case parent of None \<Rightarrow> Some (False, s) | Some p \<Rightarrow> do {
        n \<leftarrow> jnodes s p;
        (case (jn_child n, replacement, item) of
           (Some _, Some w, Some i) \<Rightarrow>
             if w = i then Some (True, s)
             else do {
               x \<leftarrow> jnodes s i;
               s1 \<leftarrow> jput w (\<lambda>y. y\<lparr>jn_next := jn_next x, jn_prev := jn_prev x\<rparr>) s;
               s2 \<leftarrow> (case jn_next x of None \<Rightarrow> Some s1 | Some r \<Rightarrow> jput r (jn_prev_update (\<lambda>_. Some w)) s1);
               n2 \<leftarrow> jnodes s2 p;
               c \<leftarrow> jn_child n2;
               s3 \<leftarrow> (if c = i
                      then do {
                        x2 \<leftarrow> jnodes s2 i;
                        s21 \<leftarrow> (if jn_prev x2 = Some i then jput w (jn_prev_update (\<lambda>_. Some w)) s2 else Some s2);
                        jput p (jn_child_update (\<lambda>_. Some w)) s21 }
                      else do {
                        y \<leftarrow> jnodes s2 w;
                        s21 \<leftarrow> (case jn_prev y of None \<Rightarrow> Some s2
                                | Some l \<Rightarrow> jput l (jn_next_update (\<lambda>_. Some w)) s2);
                        y1 \<leftarrow> jnodes s21 w;
                        (if jn_next y1 = None
                         then do {
                           n3 \<leftarrow> jnodes s21 p;
                           c1 \<leftarrow> jn_child n3;
                           jput c1 (jn_prev_update (\<lambda>_. Some w)) s21 }
                         else Some s21) });
               s4 \<leftarrow> jput i (\<lambda>y. y\<lparr>jn_next := None, jn_prev := None\<rparr>) s3;
               s5 \<leftarrow> Delete_at item s4;
               Some (True, s5) }
         | _ \<Rightarrow> Some (False, s)) })"

definition cJSON_ReplaceItemInArray :: "nat option \<Rightarrow> int \<Rightarrow> nat option \<Rightarrow> json_heap \<Rightarrow> (bool \<times> json_heap) option" where
  "cJSON_ReplaceItemInArray array which newitem s =
     (if which < 0 then Some (False, s)
      else do { i \<leftarrow> get_array_item array (nat which) s; cJSON_ReplaceItemViaPointer array i newitem s })"

definition replace_item_in_object :: "nat option \<Rightarrow> string option \<Rightarrow> nat option \<Rightarrow> bool \<Rightarrow> json_heap
    \<Rightarrow> (bool \<times> json_heap) option" where
  "replace_item_in_object object string replacement case_sensitive s =
     (case replacement of None \<Rightarrow> Some (False, s) | Some w \<Rightarrow>
        if string = None then Some (False, s)
        else do {
          n \<leftarrow> jnodes s w;
          let s1 = (if \<not> has_flag cJSON_StringIsConst (jn_type n) \<and> jn_string n \<noteq> None then free_string s else s);
          (case strdup_at string s1 of (copy, s2) \<Rightarrow> do {
             s3 \<leftarrow> jput w (jn_string_update (\<lambda>_. copy)) s2;
             (if copy = None then Some (False, s3)
              else do {
                s4 \<leftarrow> jput w (jn_type_update (clear_flag cJSON_StringIsConst)) s3;
                i \<leftarrow> get_object_item_at object string case_sensitive s4;
                cJSON_ReplaceItemViaPointer object i replacement s4 }) }) })"

definition cJSON_ReplaceItemInObject :: "nat option \<Rightarrow> string option \<Rightarrow> nat option \<Rightarrow> json_heap \<Rightarrow> (bool \<times> json_heap) option" where
  "cJSON_ReplaceItemInObject object string newitem s = replace_item_in_object object string newitem False s"

definition cJSON_ReplaceItemInObjectCaseSensitive :: "nat option \<Rightarrow> string option \<Rightarrow> nat option \<Rightarrow> json_heap
    \<Rightarrow> (bool \<times> json_heap) option" where
  "cJSON_ReplaceItemInObjectCaseSensitive object string newitem s = replace_item_in_object object string newitem True s"

section \<open>Creating\<close>

text \<open>A new node with some fields set; without memory there is none.\<close>

definition create_with :: "(jnode \<Rightarrow> jnode) \<Rightarrow> json_heap \<Rightarrow> (nat option \<times> json_heap) option" where
  "create_with f s = (case New_Item_at s of
     (None, s1) \<Rightarrow> Some (None, s1)
   | (Some i, s1) \<Rightarrow> do { s2 \<leftarrow> jput i f s1; Some (Some i, s2) })"

definition cJSON_CreateNull :: "json_heap \<Rightarrow> (nat option \<times> json_heap) option" where
  "cJSON_CreateNull s = create_with (jn_type_update (\<lambda>_. cJSON_NULL)) s"

definition cJSON_CreateTrue :: "json_heap \<Rightarrow> (nat option \<times> json_heap) option" where
  "cJSON_CreateTrue s = create_with (jn_type_update (\<lambda>_. cJSON_True)) s"

definition cJSON_CreateFalse :: "json_heap \<Rightarrow> (nat option \<times> json_heap) option" where
  "cJSON_CreateFalse s = create_with (jn_type_update (\<lambda>_. cJSON_False)) s"

definition cJSON_CreateBool :: "bool \<Rightarrow> json_heap \<Rightarrow> (nat option \<times> json_heap) option" where
  "cJSON_CreateBool boolean s = create_with (jn_type_update (\<lambda>_. if boolean then cJSON_True else cJSON_False)) s"

definition cJSON_CreateNumber :: "double \<Rightarrow> json_heap \<Rightarrow> (nat option \<times> json_heap) option" where
  "cJSON_CreateNumber num s = (case New_Item_at s of
     (None, s1) \<Rightarrow> Some (None, s1)
   | (Some i, s1) \<Rightarrow> do {
       v \<leftarrow> saturate_int num;
       s2 \<leftarrow> jput i (\<lambda>n. n\<lparr>jn_type := cJSON_Number, jn_valuedouble := num, jn_valueint := v\<rparr>) s1;
       Some (Some i, s2) })"

text \<open>\<open>cJSON_CreateString\<close> and \<open>cJSON_CreateRaw\<close>, which delete the node when the copy fails.\<close>

definition create_text :: "nat \<Rightarrow> string option \<Rightarrow> json_heap \<Rightarrow> (nat option \<times> json_heap) option" where
  "create_text t string s = (case New_Item_at s of
     (None, s1) \<Rightarrow> Some (None, s1)
   | (Some i, s1) \<Rightarrow> (case strdup_at string s1 of (copy, s2) \<Rightarrow> do {
       s3 \<leftarrow> jput i (\<lambda>n. n\<lparr>jn_type := t, jn_valuestring := copy\<rparr>) s2;
       (if copy = None then do { s4 \<leftarrow> Delete_at (Some i) s3; Some (None, s4) } else Some (Some i, s3)) }))"

definition cJSON_CreateString :: "string option \<Rightarrow> json_heap \<Rightarrow> (nat option \<times> json_heap) option" where
  "cJSON_CreateString string s = create_text cJSON_String string s"

definition cJSON_CreateRaw :: "string option \<Rightarrow> json_heap \<Rightarrow> (nat option \<times> json_heap) option" where
  "cJSON_CreateRaw raw s = create_text cJSON_Raw raw s"

definition cJSON_CreateStringReference :: "string option \<Rightarrow> json_heap \<Rightarrow> (nat option \<times> json_heap) option" where
  "cJSON_CreateStringReference string s =
     create_with (\<lambda>n. n\<lparr>jn_type := cJSON_String + cJSON_IsReference, jn_valuestring := string\<rparr>) s"

definition cJSON_CreateObjectReference :: "nat option \<Rightarrow> json_heap \<Rightarrow> (nat option \<times> json_heap) option" where
  "cJSON_CreateObjectReference c s =
     create_with (\<lambda>n. n\<lparr>jn_type := cJSON_Object + cJSON_IsReference, jn_child := c\<rparr>) s"

definition cJSON_CreateArrayReference :: "nat option \<Rightarrow> json_heap \<Rightarrow> (nat option \<times> json_heap) option" where
  "cJSON_CreateArrayReference c s =
     create_with (\<lambda>n. n\<lparr>jn_type := cJSON_Array + cJSON_IsReference, jn_child := c\<rparr>) s"

definition cJSON_CreateArray :: "json_heap \<Rightarrow> (nat option \<times> json_heap) option" where
  "cJSON_CreateArray s = create_with (jn_type_update (\<lambda>_. cJSON_Array)) s"

definition cJSON_CreateObject :: "json_heap \<Rightarrow> (nat option \<times> json_heap) option" where
  "cJSON_CreateObject s = create_with (jn_type_update (\<lambda>_. cJSON_Object)) s"

text \<open>The loop of the functions that create an array of numbers or strings, with the node created last; a
  count above the length of the argument is a read outside it. A \<open>float\<close> is the same number as a \<open>double\<close>.\<close>

fun create_elements :: "(json_heap \<Rightarrow> (nat option \<times> json_heap) option) list \<Rightarrow> nat \<Rightarrow> nat option \<Rightarrow> json_heap
    \<Rightarrow> (nat option \<times> json_heap) option" where
  "create_elements [] a p s = do {
     n \<leftarrow> jnodes s a;
     s1 \<leftarrow> (case jn_child n of None \<Rightarrow> Some s | Some c \<Rightarrow> jput c (jn_prev_update (\<lambda>_. p)) s);
     Some (Some a, s1) }"
| "create_elements (f # fs) a p s = do {
     (n, s1) \<leftarrow> f s;
     (case n of
        None \<Rightarrow> do { s2 \<leftarrow> Delete_at (Some a) s1; Some (None, s2) }
      | Some i \<Rightarrow> do {
          s2 \<leftarrow> (case p of None \<Rightarrow> jput a (jn_child_update (\<lambda>_. Some i)) s1
                 | Some q \<Rightarrow> suffix_object q i s1);
          create_elements fs a (Some i) s2 }) }"

definition create_array_of :: "('a \<Rightarrow> json_heap \<Rightarrow> (nat option \<times> json_heap) option) \<Rightarrow> 'a list option \<Rightarrow> int \<Rightarrow> json_heap
    \<Rightarrow> (nat option \<times> json_heap) option" where
  "create_array_of f values count s =
     (case values of None \<Rightarrow> Some (None, s) | Some vs \<Rightarrow>
        if count < 0 then Some (None, s)
        else do {
          (a, s1) \<leftarrow> cJSON_CreateArray s;
          (case a of None \<Rightarrow> Some (None, s1)
           | Some i \<Rightarrow> if nat count \<le> length vs then create_elements (map f (take (nat count) vs)) i None s1 else None) })"

definition cJSON_CreateIntArray :: "int list option \<Rightarrow> int \<Rightarrow> json_heap \<Rightarrow> (nat option \<times> json_heap) option" where
  "cJSON_CreateIntArray numbers count s = create_array_of (\<lambda>i. cJSON_CreateNumber (Fin (of_int i))) numbers count s"

definition cJSON_CreateDoubleArray :: "double list option \<Rightarrow> int \<Rightarrow> json_heap \<Rightarrow> (nat option \<times> json_heap) option" where
  "cJSON_CreateDoubleArray numbers count s = create_array_of cJSON_CreateNumber numbers count s"

definition cJSON_CreateFloatArray :: "double list option \<Rightarrow> int \<Rightarrow> json_heap \<Rightarrow> (nat option \<times> json_heap) option" where
  "cJSON_CreateFloatArray numbers count s = create_array_of cJSON_CreateNumber numbers count s"

definition cJSON_CreateStringArray :: "string option list option \<Rightarrow> int \<Rightarrow> json_heap \<Rightarrow> (nat option \<times> json_heap) option" where
  "cJSON_CreateStringArray strings count s = create_array_of cJSON_CreateString strings count s"

section \<open>Creating a member\<close>

definition add_created :: "(json_heap \<Rightarrow> (nat option \<times> json_heap) option) \<Rightarrow> nat option \<Rightarrow> string option \<Rightarrow> json_heap
    \<Rightarrow> (nat option \<times> json_heap) option" where
  "add_created create object name s = do {
     (i, s1) \<leftarrow> create s;
     (ok, s2) \<leftarrow> add_item_to_object object name i False s1;
     (if ok then Some (i, s2)
      else do { s3 \<leftarrow> Delete_at i s2; Some (None, s3) }) }"

definition cJSON_AddNullToObject :: "nat option \<Rightarrow> string option \<Rightarrow> json_heap \<Rightarrow> (nat option \<times> json_heap) option" where
  "cJSON_AddNullToObject object name s = add_created cJSON_CreateNull object name s"

definition cJSON_AddTrueToObject :: "nat option \<Rightarrow> string option \<Rightarrow> json_heap \<Rightarrow> (nat option \<times> json_heap) option" where
  "cJSON_AddTrueToObject object name s = add_created cJSON_CreateTrue object name s"

definition cJSON_AddFalseToObject :: "nat option \<Rightarrow> string option \<Rightarrow> json_heap \<Rightarrow> (nat option \<times> json_heap) option" where
  "cJSON_AddFalseToObject object name s = add_created cJSON_CreateFalse object name s"

definition cJSON_AddBoolToObject :: "nat option \<Rightarrow> string option \<Rightarrow> bool \<Rightarrow> json_heap \<Rightarrow> (nat option \<times> json_heap) option" where
  "cJSON_AddBoolToObject object name boolean s = add_created (cJSON_CreateBool boolean) object name s"

definition cJSON_AddNumberToObject :: "nat option \<Rightarrow> string option \<Rightarrow> double \<Rightarrow> json_heap \<Rightarrow> (nat option \<times> json_heap) option" where
  "cJSON_AddNumberToObject object name number s = add_created (cJSON_CreateNumber number) object name s"

definition cJSON_AddStringToObject :: "nat option \<Rightarrow> string option \<Rightarrow> string option \<Rightarrow> json_heap
    \<Rightarrow> (nat option \<times> json_heap) option" where
  "cJSON_AddStringToObject object name string s = add_created (cJSON_CreateString string) object name s"

definition cJSON_AddRawToObject :: "nat option \<Rightarrow> string option \<Rightarrow> string option \<Rightarrow> json_heap
    \<Rightarrow> (nat option \<times> json_heap) option" where
  "cJSON_AddRawToObject object name raw s = add_created (cJSON_CreateRaw raw) object name s"

definition cJSON_AddObjectToObject :: "nat option \<Rightarrow> string option \<Rightarrow> json_heap \<Rightarrow> (nat option \<times> json_heap) option" where
  "cJSON_AddObjectToObject object name s = add_created cJSON_CreateObject object name s"

definition cJSON_AddArrayToObject :: "nat option \<Rightarrow> string option \<Rightarrow> json_heap \<Rightarrow> (nat option \<times> json_heap) option" where
  "cJSON_AddArrayToObject object name s = add_created cJSON_CreateArray object name s"

section \<open>Setting\<close>

definition cJSON_HasObjectItem :: "nat option \<Rightarrow> string option \<Rightarrow> json_heap \<Rightarrow> bool option" where
  "cJSON_HasObjectItem object string s = map_option (\<lambda>i. i \<noteq> None) (get_object_item_at object string False s)"

definition cJSON_SetNumberHelper :: "nat \<Rightarrow> double \<Rightarrow> json_heap \<Rightarrow> json_heap option" where
  "cJSON_SetNumberHelper object number s = do {
     v \<leftarrow> saturate_int number;
     jput object (\<lambda>n. n\<lparr>jn_valueint := v, jn_valuedouble := number\<rparr>) s }"

text \<open>\<open>cJSON_SetValuestring\<close> with a string that does not overlap the one it replaces.\<close>

definition cJSON_SetValuestring :: "nat option \<Rightarrow> string option \<Rightarrow> json_heap \<Rightarrow> (string option \<times> json_heap) option" where
  "cJSON_SetValuestring object string s =
     (case object of None \<Rightarrow> Some (None, s) | Some p \<Rightarrow> do {
        n \<leftarrow> jnodes s p;
        (if \<not> has_flag cJSON_String (jn_type n) \<or> has_flag cJSON_IsReference (jn_type n) then Some (None, s)
         else (case (jn_valuestring n, string) of
           (Some old, Some v) \<Rightarrow>
             if length v \<le> length old
             then do { s1 \<leftarrow> jput p (jn_valuestring_update (\<lambda>_. string)) s; Some (string, s1) }
             else (case strdup_at string s of
                 (None, s1) \<Rightarrow> Some (None, s1)
               | (copy, s1) \<Rightarrow> do {
                   s2 \<leftarrow> jput p (jn_valuestring_update (\<lambda>_. copy)) (free_string s1);
                   Some (copy, s2) })
         | _ \<Rightarrow> Some (None, s))) })"

section \<open>Hooks\<close>

text \<open>The functions of the standard library, or those a client gives; \<open>reallocate\<close> is either \<open>realloc\<close> or a
  null pointer.\<close>

datatype hook_fn = std_malloc | std_free | client_fn nat

record internal_hooks =
  hook_allocate :: hook_fn
  hook_deallocate :: hook_fn
  hook_reallocate :: bool

definition cJSON_InitHooks :: "(hook_fn option \<times> hook_fn option) option \<Rightarrow> internal_hooks" where
  "cJSON_InitHooks hooks =
     (case hooks of
        None \<Rightarrow> \<lparr>hook_allocate = std_malloc, hook_deallocate = std_free, hook_reallocate = True\<rparr>
      | Some (malloc_fn, free_fn) \<Rightarrow>
          let a = (case malloc_fn of None \<Rightarrow> std_malloc | Some f \<Rightarrow> f);
              d = (case free_fn of None \<Rightarrow> std_free | Some f \<Rightarrow> f)
          in \<lparr>hook_allocate = a, hook_deallocate = d, hook_reallocate = (a = std_malloc \<and> d = std_free)\<rparr>)"

end
