(* ===== verification/JsonHeapFacts.thy ===== *)
theory JsonHeapFacts
  imports JsonHeap
begin

text \<open>
  The lists of children on the heap: what links them, and what the operations that add, take out and
  replace a child leave, against the list of the children.
\<close>

section \<open>Segments\<close>

type_synonym jmap = "nat \<Rightarrow> jnode option"

definition first :: "nat list \<Rightarrow> nat option \<Rightarrow> nat option" where
  "first xs nx = (case xs of [] \<Rightarrow> nx | y # _ \<Rightarrow> Some y)"

definition final :: "nat option \<Rightarrow> nat list \<Rightarrow> nat option" where
  "final pr xs = (if xs = [] then pr else Some (last xs))"

lemma first_simps [simp]: "first [] nx = nx" "first (y # ys) nx = Some y" "first (xs @ ys) nx = first xs (first ys nx)"
  by (cases xs; simp add: first_def)+

lemma final_simps [simp]: "final pr [] = pr" "final pr (x # xs) = final (Some x) xs" "final pr (xs @ ys) = final (final pr xs) ys"
  by (simp_all add: final_def)

text \<open>The nodes \<open>xs\<close> one after the other, with what is before the first and behind the last.\<close>

fun jseg :: "jmap \<Rightarrow> nat option \<Rightarrow> nat list \<Rightarrow> nat option \<Rightarrow> bool" where
  "jseg h pr [] nx = True"
| "jseg h pr (x # xs) nx =
     (\<exists>n. h x = Some n \<and> jn_prev n = pr \<and> jn_next n = first xs nx \<and> jseg h (Some x) xs nx)"

lemma jseg_append [simp]:
  "jseg h pr (xs @ ys) nx = (jseg h pr xs (first ys nx) \<and> jseg h (final pr xs) ys nx)"
  by (induction xs arbitrary: pr) auto

lemma jseg_frame:
  "(\<And>q. q \<in> set xs \<Longrightarrow> h' q = h q) \<Longrightarrow> jseg h' pr xs nx = jseg h pr xs nx"
  by (induction xs arbitrary: pr) simp_all

lemma jseg_update [simp]: "p \<notin> set xs \<Longrightarrow> jseg (h(p := v)) pr xs nx = jseg h pr xs nx"
  by (rule jseg_frame) auto

text \<open>The children of \<open>p\<close>; the first one's \<open>prev\<close> is the last one.\<close>

definition kids :: "jmap \<Rightarrow> nat \<Rightarrow> nat list \<Rightarrow> bool" where
  "kids h p xs \<longleftrightarrow> (\<exists>n. h p = Some n \<and> jn_child n = first xs None) \<and> distinct (p # xs)
     \<and> jseg h (final None xs) xs None"

section \<open>What an operation on links leaves alone\<close>

definition payload :: "jnode \<Rightarrow> nat \<times> string option \<times> int \<times> double \<times> string option" where
  "payload n = (jn_type n, jn_valuestring n, jn_valueint n, jn_valuedouble n, jn_string n)"

definition relinks :: "nat set \<Rightarrow> nat \<Rightarrow> json_heap \<Rightarrow> json_heap \<Rightarrow> bool" where
  "relinks A p s s' \<longleftrightarrow> (\<forall>q. q \<notin> A \<longrightarrow> jnodes s' q = jnodes s q)
     \<and> (\<forall>q. map_option payload (jnodes s' q) = map_option payload (jnodes s q))
     \<and> (\<forall>q. q \<noteq> p \<longrightarrow> map_option jn_child (jnodes s' q) = map_option jn_child (jnodes s q))
     \<and> jfresh s' = jfresh s \<and> jallocs s' = jallocs s \<and> jlive s' = jlive s"

lemma relinks_refl: "relinks A p s s"
  by (simp add: relinks_def)

lemma jput_relinks:
  assumes "jnodes s q = Some n" and "q \<in> A" and "payload (f n) = payload n" and "q \<noteq> p \<Longrightarrow> jn_child (f n) = jn_child n"
  shows "jput q f s = Some (s\<lparr>jnodes := (jnodes s)(q \<mapsto> f n)\<rparr>)" and "relinks A p s (s\<lparr>jnodes := (jnodes s)(q \<mapsto> f n)\<rparr>)"
  using assms by (auto simp: jput_def relinks_def)

lemma relinks_trans: "relinks A p s s1 \<Longrightarrow> relinks A p s1 s2 \<Longrightarrow> relinks A p s s2"
  by (simp add: relinks_def)

lemma payload_links [simp]:
  "payload (n\<lparr>jn_next := a\<rparr>) = payload n" "payload (n\<lparr>jn_prev := a\<rparr>) = payload n" "payload (n\<lparr>jn_child := a\<rparr>) = payload n"
  by (simp_all add: payload_def)

section \<open>Reading\<close>

lemma count_children_seg: "jseg (jnodes s) pr xs None \<Longrightarrow> count_children (first xs None) k s = Some (k + length xs)"
proof (induction xs arbitrary: pr k)
  case (Cons x xs)
  then show ?case by (subst count_children.simps) auto
qed (subst count_children.simps, simp)

lemma array_size: "kids (jnodes s) p xs \<Longrightarrow> cJSON_GetArraySize (Some p) s = Some (of_nat (length xs))"
  by (auto simp: kids_def cJSON_GetArraySize_def count_children_seg)

lemma nth_child_seg: "jseg (jnodes s) pr xs None \<Longrightarrow> nth_child (first xs None) i s = Some (if i < length xs then Some (xs ! i) else None)"
proof (induction xs arbitrary: pr i)
  case (Cons x xs)
  then show ?case by (cases i) auto
qed simp

lemma array_item: "kids (jnodes s) p xs \<Longrightarrow> get_array_item (Some p) i s = Some (if i < length xs then Some (xs ! i) else None)"
  by (auto simp: kids_def get_array_item_def nth_child_seg)

section \<open>Adding at the end\<close>

lemma add_to_array:
  assumes "kids (jnodes s) p xs" and "jnodes s i = Some m" and "jn_next m = None" and "i \<notin> set (p # xs)"
  shows "\<exists>s'. add_item_to_array (Some p) (Some i) s = Some (True, s') \<and> kids (jnodes s') p (xs @ [i])
    \<and> relinks (set (p # xs @ [i])) p s s'"
proof -
  obtain n where n: "jnodes s p = Some n" "jn_child n = first xs None" and d: "distinct (p # xs)"
    and seg: "jseg (jnodes s) (final None xs) xs None" using assms(1) by (auto simp: kids_def)
  consider "xs = []" | c where "xs = [c]" | c us l where "xs = c # us @ [l]"
    by (metis neq_Nil_conv rev_exhaust)
  then show ?thesis
  proof cases
    case 1
    then show ?thesis using n assms(2,4)
      by (auto simp: add_item_to_array_def jput_def kids_def relinks_def payload_def)
  next
    case 2
    then show ?thesis using n d seg assms(2-4)
      by (auto simp: add_item_to_array_def suffix_object_def jput_def kids_def relinks_def payload_def)
  next
    case 3
    then show ?thesis using n d seg assms(2-4)
      by (auto simp: add_item_to_array_def suffix_object_def jput_def kids_def relinks_def payload_def)
  qed
qed

section \<open>Taking out\<close>

lemma kids_nodes: "kids h p xs \<Longrightarrow> x \<in> set xs \<Longrightarrow> \<exists>n. h x = Some n"
proof -
  have "jseg h pr xs nx \<Longrightarrow> x \<in> set xs \<Longrightarrow> \<exists>n. h x = Some n" for pr nx by (induction xs arbitrary: pr) auto
  then show "kids h p xs \<Longrightarrow> x \<in> set xs \<Longrightarrow> \<exists>n. h x = Some n" by (auto simp: kids_def)
qed

text \<open>The places of a child in the list.\<close>

lemma place_cases:
  obtains (only) "us = []" "vs = []" | (front) r rs where "us = []" "vs = r # rs"
    | (latter) c where "us = [c]" "vs = []" | (latter2) c ms l where "us = c # ms @ [l]" "vs = []"
    | (mid) c r rs where "us = [c]" "vs = r # rs" | (mid2) c ms l r rs where "us = c # ms @ [l]" "vs = r # rs"
  by (metis neq_Nil_conv rev_exhaust)

lemma detach:
  assumes "kids (jnodes s) p (us @ x # vs)"
  shows "\<exists>s' m. cJSON_DetachItemViaPointer (Some p) (Some x) s = Some (Some x, s') \<and> kids (jnodes s') p (us @ vs)
    \<and> relinks (set (p # us @ x # vs)) p s s' \<and> jnodes s' x = Some m \<and> jn_next m = None \<and> jn_prev m = None"
proof -
  obtain n where n: "jnodes s p = Some n" "jn_child n = first (us @ x # vs) None" and d: "distinct (p # us @ x # vs)"
    and seg: "jseg (jnodes s) (final None (us @ x # vs)) (us @ x # vs) None" using assms by (auto simp: kids_def)
  show ?thesis
  proof (cases us vs rule: place_cases)
    case only
    then show ?thesis using n d seg
      by (auto simp: cJSON_DetachItemViaPointer_def jput_def kids_def relinks_def payload_def)
  next
    case (front r rs)
    then show ?thesis using n d seg
      by (cases rs rule: rev_cases) (auto simp: cJSON_DetachItemViaPointer_def jput_def kids_def relinks_def payload_def)
  next
    case (latter c)
    then show ?thesis using n d seg
      by (auto simp: cJSON_DetachItemViaPointer_def jput_def kids_def relinks_def payload_def)
  next
    case (latter2 c ms l)
    then show ?thesis using n d seg
      by (auto simp: cJSON_DetachItemViaPointer_def jput_def kids_def relinks_def payload_def)
  next
    case (mid c r rs)
    then show ?thesis using n d seg
      by (cases rs rule: rev_cases) (auto simp: cJSON_DetachItemViaPointer_def jput_def kids_def relinks_def payload_def)
  next
    case (mid2 c ms l r rs)
    then show ?thesis using n d seg
      by (cases rs rule: rev_cases) (auto simp: cJSON_DetachItemViaPointer_def jput_def kids_def relinks_def payload_def)
  qed
qed

section \<open>Inserting and replacing\<close>

lemma insert_at:
  assumes "kids (jnodes s) p (us @ x # vs)" and "jnodes s w = Some m" and "w \<notin> set (p # us @ x # vs)"
    and "get_array_item (Some p) (nat which) s = Some (Some x)" and "\<not> which < 0"
  shows "\<exists>s'. cJSON_InsertItemInArray (Some p) which (Some w) s = Some (True, s')
    \<and> kids (jnodes s') p (us @ w # x # vs) \<and> relinks (set (p # w # us @ x # vs)) p s s'"
proof -
  obtain n where n: "jnodes s p = Some n" "jn_child n = first (us @ x # vs) None" and d: "distinct (p # us @ x # vs)"
    and seg: "jseg (jnodes s) (final None (us @ x # vs)) (us @ x # vs) None" using assms(1) by (auto simp: kids_def)
  show ?thesis
  proof (cases us vs rule: place_cases)
    case only
    then show ?thesis using n d seg assms(2-5)
      by (auto simp: cJSON_InsertItemInArray_def jput_def kids_def relinks_def payload_def)
  next
    case (front r rs)
    then show ?thesis using n d seg assms(2-5)
      by (cases rs rule: rev_cases) (auto simp: cJSON_InsertItemInArray_def jput_def kids_def relinks_def payload_def)
  next
    case (latter c)
    then show ?thesis using n d seg assms(2-5)
      by (auto simp: cJSON_InsertItemInArray_def jput_def kids_def relinks_def payload_def)
  next
    case (latter2 c ms l)
    then show ?thesis using n d seg assms(2-5)
      by (auto simp: cJSON_InsertItemInArray_def jput_def kids_def relinks_def payload_def)
  next
    case (mid c r rs)
    then show ?thesis using n d seg assms(2-5)
      by (cases rs rule: rev_cases) (auto simp: cJSON_InsertItemInArray_def jput_def kids_def relinks_def payload_def)
  next
    case (mid2 c ms l r rs)
    then show ?thesis using n d seg assms(2-5)
      by (cases rs rule: rev_cases) (auto simp: cJSON_InsertItemInArray_def jput_def kids_def relinks_def payload_def)
  qed
qed

lemma insert_before:
  assumes "kids (jnodes s) p (us @ x # vs)" and "jnodes s w = Some m" and "w \<notin> set (p # us @ x # vs)"
  shows "\<exists>s'. cJSON_InsertItemInArray (Some p) (int (length us)) (Some w) s = Some (True, s')
    \<and> kids (jnodes s') p (us @ w # x # vs) \<and> relinks (set (p # w # us @ x # vs)) p s s'"
  by (rule insert_at [OF assms]) (simp_all add: array_item [OF assms(1)])

lemma insert_behind:
  assumes "kids (jnodes s) p xs" and "int (length xs) \<le> which"
  shows "cJSON_InsertItemInArray (Some p) which (Some w) s = add_item_to_array (Some p) (Some w) s"
proof -
  have "\<not> nat which < length xs" "\<not> which < 0" using assms(2) by linarith+
  then show ?thesis using array_item [OF assms(1), of "nat which"] by (simp add: cJSON_InsertItemInArray_def)
qed

text \<open>Up to the deletion of the child that was replaced.\<close>

lemma replace:
  assumes "kids (jnodes s) p (us @ x # vs)" and "jnodes s w = Some m" and "w \<notin> set (p # us @ x # vs)"
  shows "\<exists>s' y. cJSON_ReplaceItemViaPointer (Some p) (Some x) (Some w) s = map_option (Pair True) (Delete_at (Some x) s')
    \<and> kids (jnodes s') p (us @ w # vs) \<and> relinks (set (p # w # us @ x # vs)) p s s' \<and> jnodes s' x = Some y
    \<and> jn_next y = None \<and> jn_prev y = None"
proof -
  obtain n where n: "jnodes s p = Some n" "jn_child n = first (us @ x # vs) None" and d: "distinct (p # us @ x # vs)"
    and seg: "jseg (jnodes s) (final None (us @ x # vs)) (us @ x # vs) None" using assms(1) by (auto simp: kids_def)
  have b: "do { s5 \<leftarrow> r; Some (True, s5) } = map_option (Pair True) r" for r :: "json_heap option" by (cases r) simp_all
  show ?thesis
  proof (cases us vs rule: place_cases)
    case only
    then show ?thesis using n d seg assms(2,3)
      by (auto simp: cJSON_ReplaceItemViaPointer_def b jput_def kids_def relinks_def payload_def)
  next
    case (front r rs)
    then show ?thesis using n d seg assms(2,3)
      by (cases rs rule: rev_cases) (auto simp: cJSON_ReplaceItemViaPointer_def b jput_def kids_def relinks_def payload_def)
  next
    case (latter c)
    then show ?thesis using n d seg assms(2,3)
      by (auto simp: cJSON_ReplaceItemViaPointer_def b jput_def kids_def relinks_def payload_def)
  next
    case (latter2 c ms l)
    then show ?thesis using n d seg assms(2,3)
      by (auto simp: cJSON_ReplaceItemViaPointer_def b jput_def kids_def relinks_def payload_def)
  next
    case (mid c r rs)
    then show ?thesis using n d seg assms(2,3)
      by (cases rs rule: rev_cases) (auto simp: cJSON_ReplaceItemViaPointer_def b jput_def kids_def relinks_def payload_def)
  next
    case (mid2 c ms l r rs)
    then show ?thesis using n d seg assms(2,3)
      by (cases rs rule: rev_cases) (auto simp: cJSON_ReplaceItemViaPointer_def b jput_def kids_def relinks_def payload_def)
  qed
qed

end
