(* ===== verification/JsonTree.thy ===== *)
theory JsonTree
  imports JsonHeapFacts
begin

text \<open>
  Whole trees on the heap: the value a tree stands for, the operations on children as operations on that
  value, and \<open>cJSON_Delete\<close>.
\<close>

section \<open>Trees\<close>

datatype atree = ATree (troot: nat) (tsubs: "atree list")

fun addrs :: "atree \<Rightarrow> nat list" where
  "addrs (ATree p ts) = p # concat (map addrs ts)"

fun built :: "jmap \<Rightarrow> atree \<Rightarrow> bool" where
  "built h (ATree p ts) \<longleftrightarrow> kids h p (map troot ts) \<and> (\<forall>t \<in> set ts. built h t)"

definition tree_at :: "jmap \<Rightarrow> atree \<Rightarrow> bool" where
  "tree_at h t \<longleftrightarrow> built h t \<and> distinct (addrs t)"

definition node_of :: "jnode \<Rightarrow> cJSON list \<Rightarrow> cJSON" where
  "node_of n c = cJSON_node c (jn_type n) (jn_valuestring n) (jn_valueint n) (jn_valuedouble n) (jn_string n)"

fun value_of :: "jmap \<Rightarrow> atree \<Rightarrow> cJSON" where
  "value_of h (ATree p ts) = node_of (the (h p)) (map (value_of h) ts)"

lemma troot_in [simp]: "troot t \<in> set (addrs t)"
  by (cases t) simp

lemma troot_image: "q \<in> set (map troot ts) \<Longrightarrow> \<exists>t \<in> set ts. q \<in> set (addrs t)"
  by (induction ts) auto

lemma built_root: "built h t \<Longrightarrow> \<exists>n. h (troot t) = Some n"
  by (cases t) (auto simp: kids_def)

lemma value_cong:
  "(\<And>q. q \<in> set (addrs t) \<Longrightarrow> map_option payload (h' q) = map_option payload (h q)) \<Longrightarrow> value_of h' t = value_of h t"
proof (induction t)
  case (ATree p ts)
  have "map_option payload (h' p) = map_option payload (h p)" using ATree.prems by simp
  then have "payload (the (h' p)) = payload (the (h p))" by (cases "h p"; cases "h' p") auto
  moreover have "map (value_of h') ts = map (value_of h) ts" using ATree by (intro map_cong) auto
  ultimately show ?case by (simp add: node_of_def payload_def)
qed

lemma kids_cong:
  assumes "map_option jn_child (h' p) = map_option jn_child (h p)" and "\<And>q. q \<in> set xs \<Longrightarrow> h' q = h q"
  shows "kids h' p xs = kids h p xs"
  using assms(1) jseg_frame [of xs h' h, OF assms(2)] by (cases "h p"; cases "h' p") (auto simp: kids_def)

text \<open>A tree does not depend on the links of its root to its siblings.\<close>

lemma built_cong:
  "\<lbrakk>distinct (addrs t); \<And>q. q \<in> set (addrs t) \<Longrightarrow> map_option jn_child (h' q) = map_option jn_child (h q);
    \<And>q. q \<in> set (addrs t) \<Longrightarrow> q \<noteq> troot t \<Longrightarrow> h' q = h q\<rbrakk> \<Longrightarrow> built h' t = built h t"
proof (induction t)
  case (ATree p ts)
  have "h' q = h q" if "q \<in> set (map troot ts)" for q
  proof -
    have "q \<in> set (map troot ts)" by fact
    from troot_image [OF this] obtain t where t: "t \<in> set ts" "q \<in> set (addrs t)" by blast
    then show ?thesis using ATree.prems(1) by (intro ATree.prems(3)) auto
  qed
  then have k: "kids h' p (map troot ts) = kids h p (map troot ts)" using ATree.prems(2) by (intro kids_cong) auto
  have "built h' t = built h t" if "t \<in> set ts" for t
  proof (rule ATree.IH [OF that])
    show "distinct (addrs t)" using ATree.prems(1) that by (auto simp: distinct_concat_iff)
  next
    fix q assume "q \<in> set (addrs t)"
    then show "map_option jn_child (h' q) = map_option jn_child (h q)" using that ATree.prems(2) by auto
  next
    fix q assume "q \<in> set (addrs t)"
    then show "h' q = h q" using that ATree.prems(1) by (intro ATree.prems(3)) auto
  qed
  then show ?case using k by simp
qed

lemma tree_same:
  assumes "tree_at h t" and "\<And>q. q \<in> set (addrs t) \<Longrightarrow> h' q = h q"
  shows "tree_at h' t" and "value_of h' t = value_of h t"
  using assms built_cong [of t h' h] value_cong [of t h' h] by (auto simp: tree_at_def)

section \<open>Operations on links\<close>

lemma other_root:
  assumes "distinct (concat (map addrs ws))" and "u \<in> set ws" and "w \<in> set ws" and "q \<in> set (addrs u)" and "q \<noteq> troot u"
  shows "q \<noteq> troot w"
proof
  assume q: "q = troot w"
  have "addrs u \<noteq> addrs w" using assms(5) q by (cases u; cases w) auto
  moreover have "addrs u \<in> set (map addrs ws)" "addrs w \<in> set (map addrs ws)" using assms(2,3) by auto
  ultimately have "set (addrs u) \<inter> set (addrs w) = {}" using assms(1) by (auto simp: distinct_concat_iff)
  then show False using assms(4) q by auto
qed

text \<open>Relinking the roots of some trees below \<open>p\<close> leaves these trees as they are.\<close>

lemma relinked_tree:
  assumes "relinks A p s s'" and "A \<subseteq> insert p (troot ` set ws)" and "distinct (p # concat (map addrs ws))"
    and "u \<in> set ws" and "built (jnodes s) u"
  shows "tree_at (jnodes s') u \<and> value_of (jnodes s') u = value_of (jnodes s) u"
proof -
  have p: "p \<notin> set (addrs u)" and d: "distinct (addrs u)" using assms(3,4) by (auto simp: distinct_concat_iff)
  have "built (jnodes s') u = built (jnodes s) u"
  proof (rule built_cong [OF d])
    fix q assume "q \<in> set (addrs u)"
    then have "q \<noteq> p" using p by auto
    then show "map_option jn_child (jnodes s' q) = map_option jn_child (jnodes s q)" using assms(1) by (simp add: relinks_def)
  next
    fix q assume q: "q \<in> set (addrs u)" "q \<noteq> troot u"
    have "q \<noteq> troot w" if "w \<in> set ws" for w using other_root [OF _ assms(4) that q] assms(3) by simp
    then have "q \<notin> A" using assms(2) q(1) p by auto
    then show "jnodes s' q = jnodes s q" using assms(1) by (simp add: relinks_def)
  qed
  moreover have "value_of (jnodes s') u = value_of (jnodes s) u"
    using assms(1) by (intro value_cong) (simp add: relinks_def)
  ultimately show ?thesis using assms(5) d by (simp add: tree_at_def)
qed

text \<open>The children \<open>ts\<close> of \<open>p\<close> become \<open>us\<close>, where all are among \<open>ws\<close>.\<close>

lemma relinked_parent:
  assumes "relinks A p s s'" and "A \<subseteq> insert p (troot ` set ws)" and "distinct (p # concat (map addrs ws))"
    and "\<forall>w \<in> set ws. built (jnodes s) w" and "jnodes s p = Some n" and "kids (jnodes s') p (map troot us)"
    and "set us \<subseteq> set ws" and "distinct (concat (map addrs us))"
  shows "tree_at (jnodes s') (ATree p us)"
    and "value_of (jnodes s') (ATree p us) = node_of n (map (value_of (jnodes s)) us)"
proof -
  have t: "tree_at (jnodes s') u \<and> value_of (jnodes s') u = value_of (jnodes s) u" if "u \<in> set us" for u
    using relinked_tree [OF assms(1-3), of u] assms(4,7) that by auto
  have "p \<notin> set (concat (map addrs us))" using assms(3,7) by auto
  then show "tree_at (jnodes s') (ATree p us)" using t assms(6,8) by (simp add: tree_at_def)
  have "map_option payload (jnodes s' p) = Some (payload n)" using assms(1,5) by (simp add: relinks_def)
  then obtain n' where "jnodes s' p = Some n'" "payload n' = payload n" by auto
  moreover have "map (value_of (jnodes s')) us = map (value_of (jnodes s)) us" using t by simp
  ultimately show "value_of (jnodes s') (ATree p us) = node_of n (map (value_of (jnodes s)) us)"
    by (simp add: node_of_def payload_def)
qed

section \<open>Deleting\<close>

definition no_references :: "jmap \<Rightarrow> atree \<Rightarrow> bool" where
  "no_references h t \<longleftrightarrow> (\<forall>q \<in> set (addrs t). \<forall>n. h q = Some n \<longrightarrow> \<not> has_flag cJSON_IsReference (jn_type n))"

lemma relinks_references: "relinks A p s s' \<Longrightarrow> no_references (jnodes s) t \<Longrightarrow> no_references (jnodes s') t"
  unfolding no_references_def
proof (intro ballI allI impI)
  fix q n assume r: "relinks A p s s'" and t: "\<forall>q \<in> set (addrs t). \<forall>n. jnodes s q = Some n \<longrightarrow> \<not> has_flag cJSON_IsReference (jn_type n)"
    and q: "q \<in> set (addrs t)" and n: "jnodes s' q = Some n"
  have "map_option payload (jnodes s' q) = map_option payload (jnodes s q)" using r unfolding relinks_def by blast
  then have "map_option payload (jnodes s q) = Some (payload n)" using n by simp
  then obtain n' where "jnodes s q = Some n'" "jn_type n' = jn_type n" by (auto simp: payload_def)
  then show "\<not> has_flag cJSON_IsReference (jn_type n)" using t q by auto
qed

definition erased :: "nat set \<Rightarrow> nat \<Rightarrow> json_heap \<Rightarrow> json_heap" where
  "erased A k s = s\<lparr>jnodes := (\<lambda>q. if q \<in> A then None else jnodes s q), jlive := jlive s - int k\<rparr>"

lemma erased_simps [simp]:
  "jnodes (erased A k s) q = (if q \<in> A then None else jnodes s q)" "jlive (erased A k s) = jlive s - int k"
  "jfresh (erased A k s) = jfresh s" "jallocs (erased A k s) = jallocs s"
  by (simp_all add: erased_def)

lemma erased_eqI:
  "\<lbrakk>\<And>q. jnodes s' q = (if q \<in> A then None else jnodes s q); jlive s' = jlive s - int k; jfresh s' = jfresh s;
    jallocs s' = jallocs s; json_heap.more s' = json_heap.more s\<rbrakk> \<Longrightarrow> s' = erased A k s"
  by (rule json_heap.equality) (auto simp: erased_def fun_eq_iff)

lemma erased_more [simp]: "json_heap.more (erased A k s) = json_heap.more s"
  by (simp add: erased_def)

lemma erased_twice [simp]: "erased B m (erased A k s) = erased (A \<union> B) (k + m) s" "erased {} 0 s = s"
  by (rule erased_eqI, auto) (rule erased_eqI [symmetric], auto)

lemma erased_tree:
  assumes "tree_at (jnodes s) t" and "set (addrs t) \<inter> A = {}"
  shows "tree_at (jnodes (erased A k s)) t" and "value_of (jnodes (erased A k s)) t = value_of (jnodes s) t"
    and "no_references (jnodes (erased A k s)) t = no_references (jnodes s) t"
proof -
  have e: "jnodes (erased A k s) q = jnodes s q" if "q \<in> set (addrs t)" for q using assms(2) that by auto
  show "tree_at (jnodes (erased A k s)) t" by (rule tree_same(1) [OF assms(1) e])
  show "value_of (jnodes (erased A k s)) t = value_of (jnodes s) t" by (rule tree_same(2) [OF assms(1) e])
  show "no_references (jnodes (erased A k s)) t = no_references (jnodes s) t" using e by (simp add: no_references_def)
qed

definition tree_blocks :: "jmap \<Rightarrow> atree list \<Rightarrow> nat" where
  "tree_blocks h ts = sum_list (map (node_blocks \<circ> value_of h) ts)"

lemma delete_siblings:
  assumes "\<And>t s. t \<in> set us \<Longrightarrow> tree_at (jnodes s) t \<Longrightarrow> no_references (jnodes s) t
      \<Longrightarrow> Delete_at (Some (troot t)) s = Delete_at (jn_next (the (jnodes s (troot t))))
            (erased (set (addrs t)) (node_blocks (value_of (jnodes s) t)) s)"
    and "jseg (jnodes s) pr (map troot us) None" and "\<forall>t \<in> set us. built (jnodes s) t \<and> no_references (jnodes s) t"
    and "distinct (concat (map addrs us))"
  shows "Delete_at (first (map troot us) None) s
    = Some (erased (set (concat (map addrs us))) (tree_blocks (jnodes s) us) s)"
  using assms
proof (induction us arbitrary: s pr)
  case Nil
  then show ?case by (subst Delete_at.simps) (simp add: tree_blocks_def)
next
  case (Cons u us)
  let ?s = "erased (set (addrs u)) (node_blocks (value_of (jnodes s) u)) s"
  have u: "tree_at (jnodes s) u" "no_references (jnodes s) u"
    and nx: "jn_next (the (jnodes s (troot u))) = first (map troot us) None"
    and seg: "jseg (jnodes s) (Some (troot u)) (map troot us) None"
    using Cons.prems(2-4) by (auto simp: tree_at_def)
  have dis: "set (addrs t) \<inter> set (addrs u) = {}" and tr: "tree_at (jnodes s) t" if "t \<in> set us" for t
    using Cons.prems(3,4) that by (auto simp: tree_at_def distinct_concat_iff)
  note e = erased_tree [OF tr dis]
  have "jseg (jnodes ?s) (Some (troot u)) (map troot us) None = jseg (jnodes s) (Some (troot u)) (map troot us) None"
  proof (rule jseg_frame)
    fix q assume "q \<in> set (map troot us)"
    then obtain t where "t \<in> set us" "q \<in> set (addrs t)" using troot_image by blast
    then show "jnodes ?s q = jnodes s q" using dis by auto
  qed
  then have seg': "jseg (jnodes ?s) (Some (troot u)) (map troot us) None" using seg by simp
  have "Delete_at (first (map troot us) None) ?s
      = Some (erased (set (concat (map addrs us))) (tree_blocks (jnodes ?s) us) ?s)"
  proof (rule Cons.IH [OF _ seg'])
    show "\<forall>t \<in> set us. built (jnodes ?s) t \<and> no_references (jnodes ?s) t"
      using e(1,3) Cons.prems(3) by (simp add: tree_at_def)
    show "distinct (concat (map addrs us))" using Cons.prems(4) by simp
  qed (rule Cons.prems(1), simp_all)
  moreover have "tree_blocks (jnodes ?s) us = tree_blocks (jnodes s) us"
    using e(2) by (auto simp: tree_blocks_def intro!: arg_cong [of _ _ sum_list])
  ultimately show ?case using Cons.prems(1) [OF _ u] nx by (simp add: tree_blocks_def)
qed

lemma delete_tree:
  "\<lbrakk>tree_at (jnodes s) t; no_references (jnodes s) t\<rbrakk> \<Longrightarrow>
    Delete_at (Some (troot t)) s = Delete_at (jn_next (the (jnodes s (troot t))))
      (erased (set (addrs t)) (node_blocks (value_of (jnodes s) t)) s)"
proof (induction t arbitrary: s)
  case (ATree p ts)
  obtain n where n: "jnodes s p = Some n" "jn_child n = first (map troot ts) None"
    and seg: "jseg (jnodes s) (final None (map troot ts)) (map troot ts) None"
    using ATree.prems(1) by (auto simp: tree_at_def kids_def)
  have r: "\<not> has_flag cJSON_IsReference (jn_type n)" using ATree.prems(2) n(1) by (simp add: no_references_def)
  have ts: "\<forall>t \<in> set ts. built (jnodes s) t \<and> no_references (jnodes s) t" "distinct (concat (map addrs ts))"
    and p: "p \<notin> set (concat (map addrs ts))"
    using ATree.prems by (auto simp: tree_at_def no_references_def)
  let ?s = "erased (set (concat (map addrs ts))) (tree_blocks (jnodes s) ts) s"
  have d: "Delete_at (first (map troot ts) None) s = Some ?s"
    by (rule delete_siblings [OF ATree.IH seg ts])
  have "(if has_flag cJSON_IsReference (jn_type n) \<or> jn_child n = None then Some s else Delete_at (jn_child n) s) = Some ?s"
    using d n(2) r by (cases ts) (simp_all add: tree_blocks_def)
  moreover have "jnodes ?s p = Some n" using n(1) p by simp
  moreover have "jn_next (the (jnodes s (troot (ATree p ts)))) = jn_next n" using n(1) by simp
  moreover have "(s3\<lparr>jnodes := (jnodes s3)(p := None), jlive := jlive s3 - 1\<rparr>)
      = erased (set (addrs (ATree p ts))) (node_blocks (value_of (jnodes s) (ATree p ts))) s"
    if "s3 = (if has_flag cJSON_StringIsConst (jn_type n) \<or> jn_string n = None then s2 else free_string s2)"
      "s2 = (if has_flag cJSON_IsReference (jn_type n) \<or> jn_valuestring n = None then ?s else free_string ?s)" for s2 s3
    using that r n(1)
    by (intro erased_eqI) (auto simp: free_string_def node_of_def tree_blocks_def has_flag_def o_def)
  ultimately show ?case
    using n(1) by (subst Delete_at.simps) (simp add: Let_def)
qed

section \<open>The operations on the children of a tree\<close>

text \<open>A root that is in no list.\<close>

definition loose :: "jmap \<Rightarrow> atree \<Rightarrow> bool" where
  "loose h t \<longleftrightarrow> jn_next (the (h (troot t))) = None"

lemma delete_loose:
  assumes "tree_at (jnodes s) t" and "no_references (jnodes s) t" and "loose (jnodes s) t"
  shows "Delete_at (Some (troot t)) s = Some (erased (set (addrs t)) (node_blocks (value_of (jnodes s) t)) s)"
  using delete_tree [OF assms(1,2)] assms(3) by (simp add: loose_def Delete_at.simps [of None])

lemma child_roots:
  assumes "tree_at h (ATree p ts)"
  shows "kids h p (map troot ts)" "distinct (p # concat (map addrs ts))" "\<forall>t \<in> set ts. built h t" "\<exists>n. h p = Some n"
  using assms by (auto simp: tree_at_def kids_def)

lemma separate_root: "set (addrs t) \<inter> set (addrs (ATree p ts)) = {} \<Longrightarrow> troot t \<notin> set (p # map troot ts)"
  using troot_image [of "troot t" ts] troot_in [of t] by (auto simp del: troot_in)

lemma split_children:
  assumes "k < length ts"
  shows "ts = take k ts @ ts ! k # drop (Suc k) ts"
    and "concat (map addrs ts) = concat (map addrs (take k ts)) @ addrs (ts ! k) @ concat (map addrs (drop (Suc k) ts))"
    and "map troot ts = map troot (take k ts) @ troot (ts ! k) # map troot (drop (Suc k) ts)"
proof -
  show ts: "ts = take k ts @ ts ! k # drop (Suc k) ts" using id_take_nth_drop [OF assms] .
  show "concat (map addrs ts) = concat (map addrs (take k ts)) @ addrs (ts ! k) @ concat (map addrs (drop (Suc k) ts))"
    using arg_cong [OF ts, of "\<lambda>ts. concat (map addrs ts)"] by simp
  show "map troot ts = map troot (take k ts) @ troot (ts ! k) # map troot (drop (Suc k) ts)"
    using arg_cong [OF ts, of "map troot"] by simp
qed

lemma insert_tree:
  assumes "tree_at (jnodes s) (ATree p ts)" and "tree_at (jnodes s) t" and "loose (jnodes s) t"
    and "set (addrs t) \<inter> set (addrs (ATree p ts)) = {}" and "0 \<le> which"
  shows "\<exists>s'. cJSON_InsertItemInArray (Some p) which (Some (troot t)) s = Some (True, s')
    \<and> tree_at (jnodes s') (ATree p (take (nat which) ts @ t # drop (nat which) ts))
    \<and> value_of (jnodes s') (ATree p (take (nat which) ts @ t # drop (nat which) ts))
      = (let c = child (value_of (jnodes s) (ATree p ts)) in
         with_child (take (nat which) c @ value_of (jnodes s) t # drop (nat which) c) (value_of (jnodes s) (ATree p ts)))
    \<and> relinks (set (p # troot t # map troot ts)) p s s'"
proof -
  let ?us = "take (nat which) ts @ t # drop (nat which) ts"
  note c = child_roots [OF assms(1)]
  obtain n where n: "jnodes s p = Some n" using c(4) by blast
  obtain m where m: "jnodes s (troot t) = Some m" using built_root assms(2) by (auto simp: tree_at_def)
  have i: "troot t \<notin> set (p # map troot ts)" by (rule separate_root [OF assms(4)])
  have "\<exists>s'. cJSON_InsertItemInArray (Some p) which (Some (troot t)) s = Some (True, s')
    \<and> kids (jnodes s') p (map troot ?us) \<and> relinks (set (p # troot t # map troot ts)) p s s'"
  proof (cases "nat which < length ts")
    case True
    note ts = split_children(3) [OF True]
    have us: "map troot ?us = map troot (take (nat which) ts) @ troot t # troot (ts ! nat which) # map troot (drop (Suc (nat which)) ts)"
      by (simp add: Cons_nth_drop_Suc [OF True, symmetric])
    have w: "int (length (map troot (take (nat which) ts))) = which" using True assms(5) by simp
    show ?thesis
      using insert_before [OF c(1) [unfolded ts] m] i unfolding us w ts [symmetric] by blast
  next
    case False
    then have "int (length (map troot ts)) \<le> which" using assms(5) by simp
    from insert_behind [OF c(1) this] add_to_array [OF c(1) m _ i] show ?thesis
      using False assms(3) m by (auto simp: loose_def insert_commute)
  qed
  then obtain s' where s': "cJSON_InsertItemInArray (Some p) which (Some (troot t)) s = Some (True, s')"
    "kids (jnodes s') p (map troot ?us)" "relinks (set (p # troot t # map troot ts)) p s s'" by blast
  have ws: "distinct (p # concat (map addrs (t # ts)))" "\<forall>w \<in> set (t # ts). built (jnodes s) w"
    using c(2,3) assms(2,4) by (auto simp: tree_at_def)
  have "concat (map addrs ts) = concat (map addrs (take (nat which) ts)) @ concat (map addrs (drop (nat which) ts))"
    by (metis append_take_drop_id concat_append map_append)
  then have d: "distinct (concat (map addrs ?us))" using ws(1) by auto
  have sub: "set ?us \<subseteq> set (t # ts)" by (auto dest: in_set_takeD in_set_dropD)
  note r = relinked_parent [OF s'(3) _ ws n s'(2) sub d]
  show ?thesis using r s'(1,3) n by (auto simp: node_of_def with_child_def take_map drop_map Let_def)
qed

lemma detach_tree:
  assumes "tree_at (jnodes s) (ATree p ts)" and "k < length ts"
  shows "\<exists>s'. cJSON_DetachItemFromArray (Some p) (int k) s = Some (Some (troot (ts ! k)), s')
    \<and> tree_at (jnodes s') (ATree p (take k ts @ drop (Suc k) ts))
    \<and> value_of (jnodes s') (ATree p (take k ts @ drop (Suc k) ts))
      = (let c = child (value_of (jnodes s) (ATree p ts)) in
         with_child (take k c @ drop (Suc k) c) (value_of (jnodes s) (ATree p ts)))
    \<and> tree_at (jnodes s') (ts ! k) \<and> loose (jnodes s') (ts ! k)
    \<and> value_of (jnodes s') (ts ! k) = value_of (jnodes s) (ts ! k)
    \<and> relinks (set (p # map troot ts)) p s s'"
proof -
  let ?us = "take k ts @ drop (Suc k) ts"
  note c = child_roots [OF assms(1)] and sp = split_children [OF assms(2)]
  obtain n where n: "jnodes s p = Some n" using c(4) by blast
  have g: "get_array_item (Some p) k s = Some (Some (troot (ts ! k)))" using array_item [OF c(1)] assms(2) by simp
  obtain s' m where s': "cJSON_DetachItemViaPointer (Some p) (Some (troot (ts ! k))) s = Some (Some (troot (ts ! k)), s')"
    "kids (jnodes s') p (map troot ?us)" "relinks (set (p # map troot ts)) p s s'"
    "jnodes s' (troot (ts ! k)) = Some m" "jn_next m = None"
    using detach [OF c(1) [unfolded sp(3)]] unfolding sp(3) [symmetric] by auto
  have sub: "set ?us \<subseteq> set ts" by (auto dest: in_set_takeD in_set_dropD)
  have d: "distinct (concat (map addrs ?us))" using c(2) sp(2) by auto
  have A: "set (p # map troot ts) \<subseteq> insert p (troot ` set ts)" by auto
  note r = relinked_parent [OF s'(3) A c(2,3) n s'(2) sub d]
  have x: "ts ! k \<in> set ts" using assms(2) by simp
  note u = relinked_tree [OF s'(3) A c(2) x]
  show ?thesis using r u s' n g c(3) x
    by (auto simp: cJSON_DetachItemFromArray_def node_of_def with_child_def take_map drop_map Let_def loose_def)
qed

lemma replace_tree:
  assumes "tree_at (jnodes s) (ATree p ts)" and "tree_at (jnodes s) t" and "k < length ts"
    and "set (addrs t) \<inter> set (addrs (ATree p ts)) = {}" and "no_references (jnodes s) (ts ! k)"
  shows "\<exists>s'. cJSON_ReplaceItemInArray (Some p) (int k) (Some (troot t)) s = Some (True, s')
    \<and> tree_at (jnodes s') (ATree p (ts[k := t]))
    \<and> value_of (jnodes s') (ATree p (ts[k := t]))
      = with_child ((child (value_of (jnodes s) (ATree p ts)))[k := value_of (jnodes s) t]) (value_of (jnodes s) (ATree p ts))
    \<and> (\<forall>q \<in> set (addrs (ts ! k)). jnodes s' q = None)
    \<and> jlive s' = jlive s - int (node_blocks (value_of (jnodes s) (ts ! k)))
    \<and> (\<forall>q. q \<notin> set (p # troot t # map troot ts @ addrs (ts ! k)) \<longrightarrow> jnodes s' q = jnodes s q)"
proof -
  let ?us = "take k ts @ t # drop (Suc k) ts" and ?x = "ts ! k"
  note c = child_roots [OF assms(1)] and sp = split_children [OF assms(3)]
  obtain n where n: "jnodes s p = Some n" using c(4) by blast
  obtain m where m: "jnodes s (troot t) = Some m" using built_root assms(2) by (auto simp: tree_at_def)
  have i: "troot t \<notin> set (p # map troot ts)" by (rule separate_root [OF assms(4)])
  have g: "get_array_item (Some p) k s = Some (Some (troot ?x))" using array_item [OF c(1)] assms(3) by simp
  obtain s1 y where s1: "cJSON_ReplaceItemViaPointer (Some p) (Some (troot ?x)) (Some (troot t)) s
      = map_option (Pair True) (Delete_at (Some (troot ?x)) s1)"
    "kids (jnodes s1) p (map troot ?us)" "relinks (set (p # troot t # map troot ts)) p s s1"
    "jnodes s1 (troot ?x) = Some y" "jn_next y = None"
    using replace [OF c(1) [unfolded sp(3)] m] i unfolding sp(3) [symmetric] by auto
  have ws: "distinct (p # concat (map addrs (t # ts)))" "\<forall>w \<in> set (t # ts). built (jnodes s) w"
    using c(2,3) assms(2,4) by (auto simp: tree_at_def)
  have A: "set (p # troot t # map troot ts) \<subseteq> insert p (troot ` set (t # ts))" by auto
  have sub: "set ?us \<subseteq> set (t # ts)" by (auto dest: in_set_takeD in_set_dropD)
  have d: "distinct (concat (map addrs ?us))" using ws(1) sp(2) by auto
  note r = relinked_parent [OF s1(3) A ws n s1(2) sub d]
  have x: "?x \<in> set (t # ts)" using assms(3) by simp
  have u: "tree_at (jnodes s1) ?x" "value_of (jnodes s1) ?x = value_of (jnodes s) ?x"
    using relinked_tree [OF s1(3) A ws(1) x] ws(2) x by auto
  have nr: "no_references (jnodes s1) ?x" by (rule relinks_references [OF s1(3) assms(5)])
  let ?s' = "erased (set (addrs ?x)) (node_blocks (value_of (jnodes s) ?x)) s1"
  have del: "Delete_at (Some (troot ?x)) s1 = Some ?s'"
    using delete_loose [OF u(1) nr] s1(4,5) u(2) by (simp add: loose_def)
  have us: "?us = ts[k := t]" using upd_conv_take_nth_drop [OF assms(3)] by simp
  have "set (addrs (ATree p ?us)) \<inter> set (addrs ?x) = {}" using ws(1) sp(2) by auto
  note e = erased_tree [OF r(1) this]
  show ?thesis
    using e r(2) del s1(1,3) g n unfolding us
    by (auto simp: cJSON_ReplaceItemInArray_def node_of_def with_child_def map_update relinks_def)
qed

end
