(* ===== verification/JsonMembers.thy ===== *)
theory JsonMembers
  imports JsonTree
begin

text \<open>
  Creating nodes, and the functions that create a node and add it to an object under a name: with the
  memory they ask for they add one member, and otherwise they leave the tree and nothing else.
\<close>

section \<open>Created nodes\<close>

definition heap_ok :: "json_heap \<Rightarrow> bool" where
  "heap_ok s \<longleftrightarrow> (\<forall>q \<ge> jfresh s. jnodes s q = None)"

text \<open>A call that was to create the node \<open>n\<close> of \<open>k\<close> blocks.\<close>

definition created :: "nat \<Rightarrow> jnode \<Rightarrow> json_heap \<Rightarrow> (nat option \<times> json_heap) option \<Rightarrow> bool" where
  "created k n s res \<longleftrightarrow> (\<exists>r s1. res = Some (r, s1) \<and> heap_ok s1 \<and> (case r of
       None \<Rightarrow> jnodes s1 = jnodes s \<and> jlive s1 = jlive s \<and> jallocs s \<noteq> []
     | Some i \<Rightarrow> jnodes s i = None \<and> jnodes s1 = (jnodes s)(i \<mapsto> n) \<and> jlive s1 = jlive s + int k
         \<and> (jallocs s = [] \<longrightarrow> jallocs s1 = [])))"

text \<open>A node without links, children, a name and flags, and its blocks.\<close>

definition leaf :: "jnode \<Rightarrow> bool" where
  "leaf n \<longleftrightarrow> jn_next n = None \<and> jn_child n = None \<and> jn_string n = None
     \<and> \<not> has_flag cJSON_IsReference (jn_type n) \<and> \<not> has_flag cJSON_StringIsConst (jn_type n)"

definition leaf_blocks :: "jnode \<Rightarrow> nat" where
  "leaf_blocks n = (if jn_valuestring n = None then 1 else 2)"

lemma malloc_cases:
  obtains (ok) al where "malloc_ok (jallocs s) = (True, al)" "jallocs s = [] \<Longrightarrow> al = []"
    | (no) al where "malloc_ok (jallocs s) = (False, al)" "jallocs s \<noteq> []"
  by (cases "jallocs s"; cases "fst (malloc_ok (jallocs s))") (auto simp: malloc_ok_def)

lemma create_with_created:
  assumes "heap_ok s"
  shows "created 1 (f zero_jnode) s (create_with f s)"
  using assms by (cases rule: malloc_cases [of s]) (auto simp: create_with_def New_Item_at_def created_def jput_def heap_ok_def)

lemma create_number_created:
  assumes "heap_ok s" and "saturate_int num = Some v"
  shows "created 1 (zero_jnode\<lparr>jn_type := cJSON_Number, jn_valuedouble := num, jn_valueint := v\<rparr>) s (cJSON_CreateNumber num s)"
  using assms by (cases rule: malloc_cases [of s])
    (auto simp: cJSON_CreateNumber_def New_Item_at_def created_def jput_def heap_ok_def)

lemma delete_leaf:
  assumes "jnodes s i = Some n" and "leaf n"
  shows "Delete_at (Some i) s = Some (erased {i} (leaf_blocks n) s)"
proof -
  have "tree_at (jnodes s) (ATree i [])" "no_references (jnodes s) (ATree i [])" "loose (jnodes s) (ATree i [])"
    using assms by (auto simp: tree_at_def kids_def leaf_def no_references_def loose_def)
  moreover have "node_blocks (value_of (jnodes s) (ATree i [])) = leaf_blocks n"
    using assms by (auto simp: leaf_def leaf_blocks_def node_of_def has_flag_def)
  ultimately show ?thesis using delete_loose [of s "ATree i []"] by simp
qed

lemma create_text_created:
  assumes "heap_ok s" and "t = cJSON_String \<or> t = cJSON_Raw"
  shows "created 2 (zero_jnode\<lparr>jn_type := t, jn_valuestring := Some str\<rparr>) s (create_text t (Some str) s)"
proof (cases rule: malloc_cases [of s])
  case (no al)
  then show ?thesis using assms(1) by (auto simp: create_text_def New_Item_at_def created_def heap_ok_def)
next
  case (ok al)
  let ?i = "jfresh s"
  let ?s1 = "s\<lparr>jnodes := (jnodes s)(?i \<mapsto> zero_jnode), jfresh := Suc ?i, jallocs := al, jlive := jlive s + 1\<rparr>"
  have i: "jnodes s ?i = None" using assms(1) by (simp add: heap_ok_def)
  have new: "New_Item_at s = (Some ?i, ?s1)" using ok(1) by (simp add: New_Item_at_def)
  show ?thesis
  proof (cases rule: malloc_cases [of ?s1])
    case (ok al')
    then show ?thesis using new assms(1) i \<open>jallocs s = [] \<Longrightarrow> al = []\<close>
      by (auto simp: create_text_def strdup_at_def created_def jput_def heap_ok_def)
  next
    case (no al')
    let ?n = "zero_jnode\<lparr>jn_type := t, jn_valuestring := None\<rparr>"
    let ?s2 = "?s1\<lparr>jallocs := al', jnodes := (jnodes s)(?i \<mapsto> ?n)\<rparr>"
    have "leaf ?n" using assms(2) by (auto simp: leaf_def zero_jnode_def has_flag_def json_types cJSON_Raw_def
        cJSON_IsReference_def cJSON_StringIsConst_def)
    then have "Delete_at (Some ?i) ?s2 = Some (erased {?i} 1 ?s2)"
      using delete_leaf [of ?s2 ?i ?n] by (simp add: leaf_blocks_def zero_jnode_def)
    moreover have "(\<lambda>q. if q = ?i then None else ((jnodes s)(?i \<mapsto> ?n)) q) = jnodes s" using i by auto
    moreover have "jallocs s \<noteq> []" using no(2) ok(2) by auto
    ultimately show ?thesis using new no assms(1)
      by (auto simp: create_text_def strdup_at_def created_def jput_def heap_ok_def erased_def)
  qed
qed

section \<open>Adding a member\<close>

lemma built_nodes: "built h t \<Longrightarrow> q \<in> set (addrs t) \<Longrightarrow> h q \<noteq> None"
  by (induction t) (auto simp: kids_def)

lemma add_tree:
  assumes "tree_at (jnodes s) (ATree p ts)" and "tree_at (jnodes s) t" and "loose (jnodes s) t"
    and "set (addrs t) \<inter> set (addrs (ATree p ts)) = {}"
  shows "\<exists>s'. add_item_to_array (Some p) (Some (troot t)) s = Some (True, s')
    \<and> tree_at (jnodes s') (ATree p (ts @ [t]))
    \<and> value_of (jnodes s') (ATree p (ts @ [t]))
      = with_child (child (value_of (jnodes s) (ATree p ts)) @ [value_of (jnodes s) t]) (value_of (jnodes s) (ATree p ts))
    \<and> relinks (set (p # troot t # map troot ts)) p s s'"
proof -
  have "int (length (map troot ts)) \<le> int (length ts)" by simp
  from insert_behind [OF child_roots(1) [OF assms(1)] this] insert_tree [OF assms, of "int (length ts)"]
  show ?thesis by (simp add: node_of_def Let_def)
qed

text \<open>What is left of the tree \<open>p\<close> after a member \<open>n\<close> of \<open>k\<close> blocks was to be added under a name.\<close>

definition member_added :: "jnode \<Rightarrow> nat \<Rightarrow> string \<Rightarrow> nat \<Rightarrow> atree list \<Rightarrow> json_heap
    \<Rightarrow> (nat option \<times> json_heap) option \<Rightarrow> bool" where
  "member_added n k name p ts s res \<longleftrightarrow> (\<exists>r s'. res = Some (r, s') \<and> heap_ok s' \<and> (case r of
       None \<Rightarrow> jnodes s' = jnodes s \<and> jlive s' = jlive s \<and> jallocs s \<noteq> []
     | Some i \<Rightarrow> tree_at (jnodes s') (ATree p (ts @ [ATree i []]))
         \<and> value_of (jnodes s') (ATree p (ts @ [ATree i []]))
           = with_child (child (value_of (jnodes s) (ATree p ts)) @ [with_string (Some name) (node_of n [])])
               (value_of (jnodes s) (ATree p ts))
         \<and> jlive s' = jlive s + int k + 1
         \<and> (\<forall>q. q \<notin> set (p # i # map troot ts) \<longrightarrow> jnodes s' q = jnodes s q)))"

lemma add_created_member:
  assumes "created k n s (create s)" and "leaf n" and "k = leaf_blocks n" and "tree_at (jnodes s) (ATree p ts)"
  shows "member_added n k name p ts s (add_created create (Some p) (Some name) s)"
proof -
  obtain r s1 where c: "create s = Some (r, s1)" "heap_ok s1" and r: "case r of
       None \<Rightarrow> jnodes s1 = jnodes s \<and> jlive s1 = jlive s \<and> jallocs s \<noteq> []
     | Some i \<Rightarrow> jnodes s i = None \<and> jnodes s1 = (jnodes s)(i \<mapsto> n) \<and> jlive s1 = jlive s + int k
         \<and> (jallocs s = [] \<longrightarrow> jallocs s1 = [])" using assms(1) by (auto simp: created_def)
  show ?thesis
  proof (cases r)
    case None
    then show ?thesis using c r
      by (auto simp: member_added_def add_created_def add_item_to_object_def Delete_at.simps [of None])
  next
    case (Some i)
    then have i: "jnodes s i = None" "jnodes s1 = (jnodes s)(i \<mapsto> n)" "jlive s1 = jlive s + int k"
      and al: "jallocs s = [] \<Longrightarrow> jallocs s1 = []" using r by simp_all
    have out: "i \<notin> set (addrs (ATree p ts))" using built_nodes [of "jnodes s" "ATree p ts" i] assms(4) i(1)
      by (auto simp: tree_at_def)
    then have pi: "p \<noteq> i" by auto
    show ?thesis
    proof (cases rule: malloc_cases [of s1])
      case (no al')
      let ?s2 = "s1\<lparr>jallocs := al'\<rparr>"
      have "Delete_at (Some i) ?s2 = Some (erased {i} k ?s2)"
        using delete_leaf [of ?s2 i n] assms(2,3) i(2) by simp
      moreover have "(\<lambda>q. if q = i then None else ((jnodes s)(i \<mapsto> n)) q) = jnodes s" using i(1) by auto
      moreover have "jallocs s \<noteq> []" using no(2) al by auto
      ultimately show ?thesis using c Some no(1) i pi
        by (auto simp: member_added_def add_created_def add_item_to_object_def strdup_at_def erased_def heap_ok_def)
    next
      case (ok al')
      let ?n = "n\<lparr>jn_string := Some name, jn_type := clear_flag cJSON_StringIsConst (jn_type n)\<rparr>"
      have t: "clear_flag cJSON_StringIsConst (jn_type n) = jn_type n" using assms(2) by (simp add: leaf_def clear_flag_def)
      let ?s3 = "s1\<lparr>jallocs := al', jlive := jlive s1 + 1, jnodes := (jnodes s1)(i \<mapsto> ?n)\<rparr>"
      have h3: "jnodes ?s3 q = jnodes s q" if "q \<in> set (addrs (ATree p ts))" for q using that out i(2) by auto
      have t3: "tree_at (jnodes ?s3) (ATree p ts)" by (rule tree_same(1) [OF assms(4)]) (rule h3)
      have i3: "tree_at (jnodes ?s3) (ATree i [])" "loose (jnodes ?s3) (ATree i [])"
        using assms(2) by (auto simp: tree_at_def kids_def leaf_def loose_def)
      have v3: "value_of (jnodes ?s3) (ATree p ts) = value_of (jnodes s) (ATree p ts)"
        by (rule tree_same(2) [OF assms(4)]) (rule h3)
      have "value_of (jnodes ?s3) (ATree i []) = with_string (Some name) (node_of n [])"
        using t by (simp add: node_of_def with_string_def)
      note v = v3 this
      have "set (addrs (ATree i [])) \<inter> set (addrs (ATree p ts)) = {}" using out by auto
      from add_tree [OF t3 i3 this] obtain s' where s': "add_item_to_array (Some p) (Some i) ?s3 = Some (True, s')"
        "tree_at (jnodes s') (ATree p (ts @ [ATree i []]))"
        "value_of (jnodes s') (ATree p (ts @ [ATree i []]))
          = with_child (child (value_of (jnodes s) (ATree p ts)) @ [with_string (Some name) (node_of n [])])
              (value_of (jnodes s) (ATree p ts))"
        "relinks (set (p # i # map troot ts)) p ?s3 s'" unfolding v by auto
      have "add_created create (Some p) (Some name) s = Some (Some i, s')"
        using c(1) Some ok(1) i pi assms(2) s'(1)
        by (simp add: add_created_def add_item_to_object_def strdup_at_def jput_def leaf_def)
      moreover have "jlive s' = jlive s + int k + 1" using s'(4) i(3) by (simp add: relinks_def)
      moreover have "heap_ok s'"
      proof -
        have f: "jfresh s' = jfresh s1" "i < jfresh s1"
          using s'(4) c(2) i(2) by (auto simp: relinks_def heap_ok_def not_le)
        have "jnodes s' q = None" if "jfresh s' \<le> q" for q
        proof -
          have "jnodes ?s3 q = None" using that f c(2) by (auto simp: heap_ok_def)
          moreover have "map_option payload (jnodes s' q) = map_option payload (jnodes ?s3 q)"
            using s'(4) unfolding relinks_def by blast
          ultimately show ?thesis by simp
        qed
        then show ?thesis by (simp add: heap_ok_def)
      qed
      moreover have "jnodes s' q = jnodes s q" if "q \<notin> set (p # i # map troot ts)" for q
      proof -
        have "jnodes s' q = jnodes ?s3 q" using s'(4) that unfolding relinks_def by blast
        then show ?thesis using that i(2) by simp
      qed
      ultimately show ?thesis using s'(2,3) by (simp add: member_added_def)
    qed
  qed
qed

end
