(* ===== verification/JsonCompare.thy ===== *)
theory JsonCompare
  imports JsonHeap
begin

text \<open>
  \<open>cJSON_Compare\<close> and \<open>cJSON_Duplicate\<close> of \<^verbatim>\<open>libjson/src/cJSON.c\<close> on the values of trees, and the questions for
  the type of an item.
\<close>

section \<open>Types\<close>

definition cJSON_Invalid :: nat where "cJSON_Invalid = 0"

text \<open>\<open>(item->type & 0xFF) == t\<close>, false for a null pointer.\<close>

definition is_type :: "nat \<Rightarrow> cJSON option \<Rightarrow> bool" where
  "is_type t item = (case item of None \<Rightarrow> False | Some x \<Rightarrow> jtype x mod 256 = t)"

definition cJSON_IsInvalid :: "cJSON option \<Rightarrow> bool" where "cJSON_IsInvalid item = is_type cJSON_Invalid item"
definition cJSON_IsFalse :: "cJSON option \<Rightarrow> bool" where "cJSON_IsFalse item = is_type cJSON_False item"
definition cJSON_IsTrue :: "cJSON option \<Rightarrow> bool" where "cJSON_IsTrue item = is_type cJSON_True item"
definition cJSON_IsNull :: "cJSON option \<Rightarrow> bool" where "cJSON_IsNull item = is_type cJSON_NULL item"
definition cJSON_IsNumber :: "cJSON option \<Rightarrow> bool" where "cJSON_IsNumber item = is_type cJSON_Number item"
definition cJSON_IsString :: "cJSON option \<Rightarrow> bool" where "cJSON_IsString item = is_type cJSON_String item"
definition cJSON_IsArray :: "cJSON option \<Rightarrow> bool" where "cJSON_IsArray item = is_type cJSON_Array item"
definition cJSON_IsObject :: "cJSON option \<Rightarrow> bool" where "cJSON_IsObject item = is_type cJSON_Object item"
definition cJSON_IsRaw :: "cJSON option \<Rightarrow> bool" where "cJSON_IsRaw item = is_type cJSON_Raw item"

definition cJSON_IsBool :: "cJSON option \<Rightarrow> bool" where
  "cJSON_IsBool item = (case item of None \<Rightarrow> False
     | Some x \<Rightarrow> has_flag cJSON_True (jtype x) \<or> has_flag cJSON_False (jtype x))"

definition cJSON_GetStringValue :: "cJSON option \<Rightarrow> string option" where
  "cJSON_GetStringValue item = (if cJSON_IsString item then valuestring (the item) else None)"

definition cJSON_GetNumberValue :: "cJSON option \<Rightarrow> double" where
  "cJSON_GetNumberValue item = (if cJSON_IsNumber item then valuedouble (the item) else NaN)"

section \<open>Comparing\<close>

definition known_types :: "nat list" where
  "known_types = [cJSON_False, cJSON_True, cJSON_NULL, cJSON_Number, cJSON_String, cJSON_Raw, cJSON_Array, cJSON_Object]"

text \<open>The member of \<open>ob\<close> with the name of \<open>x\<close>.\<close>

definition same_name :: "cJSON \<Rightarrow> cJSON \<Rightarrow> bool \<Rightarrow> cJSON option" where
  "same_name ob x case_sensitive = (case jstring x of None \<Rightarrow> None | Some s \<Rightarrow> get_object_item (Some ob) s case_sensitive)"

lemma same_name_in: "same_name ob x cs = Some y \<Longrightarrow> y \<in> set (child ob)"
  by (auto simp: same_name_def get_object_item_def split: option.splits if_splits dest!: find_member_Some)

lemma size_child: "y \<in> set (child x) \<Longrightarrow> size y < size x"
  by (cases x) (auto dest: size_list_estimation' [where f = size, OF _ order_refl])

lemma size_zip: "(x, y) \<in> set (zip (child a) (child b)) \<Longrightarrow> size x + size y < size a + size b"
  by (meson add_strict_mono set_zip_leftD set_zip_rightD size_child)

lemma size_named: "x \<in> set (child a) \<Longrightarrow> same_name b z cs = Some y \<Longrightarrow> size x + size y < size a + size b"
  by (meson add_strict_mono same_name_in size_child)

text \<open>Items of different trees.\<close>

function compare_items :: "bool \<Rightarrow> cJSON \<Rightarrow> cJSON \<Rightarrow> bool" where
  "compare_items case_sensitive a b =
     (let t = jtype a mod 256 in
      if t \<noteq> jtype b mod 256 \<or> t \<notin> set known_types then False
      else if t = cJSON_False \<or> t = cJSON_True \<or> t = cJSON_NULL then True
      else if t = cJSON_Number then compare_double (valuedouble a) (valuedouble b)
      else if t = cJSON_String \<or> t = cJSON_Raw then
        (case (valuestring a, valuestring b) of (Some x, Some y) \<Rightarrow> x = y | _ \<Rightarrow> False)
      else if t = cJSON_Array then
        length (child a) = length (child b) \<and> (\<forall>(x, y) \<in> set (zip (child a) (child b)). compare_items case_sensitive x y)
      else (\<forall>x \<in> set (child a). case same_name b x case_sensitive of None \<Rightarrow> False
                | Some y \<Rightarrow> compare_items case_sensitive x y)
         \<and> (\<forall>y \<in> set (child b). case same_name a y case_sensitive of None \<Rightarrow> False
                | Some x \<Rightarrow> compare_items case_sensitive y x))"
  by pat_completeness auto
termination
  by (relation "measure (\<lambda>(cs, a, b). size a + size b)")
    (auto simp: add.commute dest: size_zip size_named)

declare compare_items.simps [simp del]

text \<open>\<open>same\<close> says whether the pointers are equal.\<close>

definition cJSON_Compare :: "bool \<Rightarrow> cJSON option \<Rightarrow> cJSON option \<Rightarrow> bool \<Rightarrow> bool" where
  "cJSON_Compare same a b case_sensitive =
     (case (a, b) of
        (Some x, Some y) \<Rightarrow>
          if jtype x mod 256 \<noteq> jtype y mod 256 \<or> jtype x mod 256 \<notin> set known_types then False
          else same \<or> compare_items case_sensitive x y
      | _ \<Rightarrow> False)"

section \<open>Duplicating\<close>

definition CJSON_CIRCULAR_LIMIT :: nat where "CJSON_CIRCULAR_LIMIT = 10000"

text \<open>The memory: the answers of the allocator, and the number of live blocks.\<close>

type_synonym blocks = "allocs \<times> int"

definition get_block :: "blocks \<Rightarrow> bool \<times> blocks" where
  "get_block m = (case malloc_ok (fst m) of (ok, al) \<Rightarrow> (ok, al, if ok then snd m + 1 else snd m))"

definition free_item :: "cJSON \<Rightarrow> blocks \<Rightarrow> blocks" where
  "free_item x m = (fst m, snd m - int (node_blocks x))"

text \<open>A copy of a string that may be null, or the string itself; false when it is null and should not be.\<close>

definition copy_string :: "bool \<Rightarrow> string option \<Rightarrow> blocks \<Rightarrow> bool \<times> blocks" where
  "copy_string shared s m = (if s = None \<or> shared then (True, m) else get_block m)"

fun cJSON_Duplicate_rec :: "cJSON \<Rightarrow> nat \<Rightarrow> bool \<Rightarrow> blocks \<Rightarrow> cJSON option \<times> blocks"
  and duplicate_children :: "cJSON list \<Rightarrow> nat \<Rightarrow> cJSON \<Rightarrow> blocks \<Rightarrow> cJSON option \<times> blocks" where
  "cJSON_Duplicate_rec (cJSON_node c t v i d s) depth recurse m =
     (case get_block m of
        (False, m1) \<Rightarrow> (None, m1)
      | (True, m1) \<Rightarrow>
          let newitem = cJSON_node [] (clear_flag cJSON_IsReference t) None i d None
          in (case copy_string False v m1 of
                (False, m2) \<Rightarrow> (None, free_item newitem m2)
              | (True, m2) \<Rightarrow>
                  (case copy_string (has_flag cJSON_StringIsConst t) s m2 of
                     (False, m3) \<Rightarrow> (None, free_item (with_valuestring v newitem) m3)
                   | (True, m3) \<Rightarrow>
                       let newitem = with_string s (with_valuestring v newitem)
                       in if \<not> recurse then (Some newitem, m3)
                          else duplicate_children c depth newitem m3)))"
| "duplicate_children [] depth newitem m = (Some newitem, m)"
| "duplicate_children (x # xs) depth newitem m =
     (if depth \<ge> CJSON_CIRCULAR_LIMIT then (None, free_item newitem m)
      else (case cJSON_Duplicate_rec x (depth + 1) True m of
        (None, m1) \<Rightarrow> (None, free_item newitem m1)
      | (Some newchild, m1) \<Rightarrow> duplicate_children xs depth (with_child (child newitem @ [newchild]) newitem) m1))"

definition cJSON_Duplicate :: "cJSON option \<Rightarrow> bool \<Rightarrow> blocks \<Rightarrow> cJSON option \<times> blocks" where
  "cJSON_Duplicate item recurse m = (case item of None \<Rightarrow> (None, m) | Some x \<Rightarrow> cJSON_Duplicate_rec x 0 recurse m)"

end
