(* ===== verification/JsonCopies.thy ===== *)
theory JsonCopies
  imports JsonCompare
begin

text \<open>
  \<open>cJSON_Compare\<close> does not depend on the order of its arguments, \<open>cJSON_Duplicate\<close> makes the copy or frees all
  it has made, and a tree compares equal to its copy.
\<close>

section \<open>Symmetry\<close>

lemma compare_double_sym: "compare_double a b = compare_double b a"
  by (cases a; cases b) (simp_all add: compare_double_def abs_minus_commute max.commute)

lemma zip_swap: "(\<forall>(x, y) \<in> set (zip xs ys). P x y) = (\<forall>(y, x) \<in> set (zip ys xs). P x y)"
  by (subst zip_commute) auto

lemma compare_items_sym: "compare_items cs a b = compare_items cs b a"
proof (induction "size a + size b" arbitrary: a b rule: less_induct)
  case less
  let ?t = "jtype a mod 256"
  have "compare_items cs x y = compare_items cs y x" if "(x, y) \<in> set (zip (child a) (child b))" for x y
    using less size_zip [OF that] by simp
  note swap = this
  have "(\<forall>(x, y) \<in> set (zip (child a) (child b)). compare_items cs x y)
      = (\<forall>(x, y) \<in> set (zip (child a) (child b)). compare_items cs y x)"
  proof (rule ball_cong [OF refl])
    fix z assume z: "z \<in> set (zip (child a) (child b))"
    obtain x y where "z = (x, y)" by (cases z)
    then show "(case z of (x, y) \<Rightarrow> compare_items cs x y) = (case z of (x, y) \<Rightarrow> compare_items cs y x)"
      using z swap [of x y] by simp
  qed
  also have "\<dots> = (\<forall>(y, x) \<in> set (zip (child b) (child a)). compare_items cs y x)" by (rule zip_swap)
  finally have zipped: "(\<forall>(x, y) \<in> set (zip (child a) (child b)). compare_items cs x y)
      = (\<forall>(y, x) \<in> set (zip (child b) (child a)). compare_items cs y x)" .
  show ?case
    unfolding compare_items.simps [of cs a b] compare_items.simps [of cs b a] Let_def zipped
    by (auto simp: compare_double_sym split: option.splits)
qed

lemma compare_sym: "cJSON_Compare same a b cs = cJSON_Compare same b a cs"
  by (auto simp: cJSON_Compare_def compare_items_sym split: option.splits)

section \<open>Copies\<close>

lemma clear_reference_facts:
  shows cleared_reference [simp]: "\<not> has_flag cJSON_IsReference (clear_flag cJSON_IsReference t)"
    and const_kept [simp]: "has_flag cJSON_StringIsConst (clear_flag cJSON_IsReference t) = has_flag cJSON_StringIsConst t"
    and type_kept [simp]: "clear_flag cJSON_IsReference t mod 256 = t mod 256"
proof -
  have twice: "u div 512 = u div 256 div 2" for u :: nat using div_mult2_eq [of u 256 2] by simp
  have "even ((t - 256) div 256)" "(t - 256) div 256 div 2 = t div 256 div 2" "(t - 256) mod 256 = t mod 256" if "odd (t div 256)"
  proof -
    have "256 \<le> t" using that by (cases "256 \<le> t") simp_all
    then have d: "t div 256 = Suc ((t - 256) div 256)" "(t - 256) mod 256 = t mod 256"
      using le_div_geq [of 256 t] le_mod_geq [of 256 t] by simp_all
    show "even ((t - 256) div 256)" using that unfolding d(1) by simp
    then show "(t - 256) div 256 div 2 = t div 256 div 2" unfolding d(1) by simp
    show "(t - 256) mod 256 = t mod 256" by (rule d(2))
  qed
  then show "\<not> has_flag cJSON_IsReference (clear_flag cJSON_IsReference t)"
    "has_flag cJSON_StringIsConst (clear_flag cJSON_IsReference t) = has_flag cJSON_StringIsConst t"
    "clear_flag cJSON_IsReference t mod 256 = t mod 256"
    by (auto simp: has_flag_def clear_flag_def cJSON_IsReference_def cJSON_StringIsConst_def twice)
qed

fun copied :: "cJSON \<Rightarrow> cJSON" where
  "copied (cJSON_node c t v i d s) = cJSON_node (map copied c) (clear_flag cJSON_IsReference t) v i d s"

fun height :: "cJSON \<Rightarrow> nat" where
  "height (cJSON_node c t v i d s) = fold max (map (Suc \<circ> height) c) 0"

lemma height_child: "y \<in> set c \<Longrightarrow> Suc (height y) \<le> fold max (map (Suc \<circ> height) c) 0"
  using Max.set_eq_fold [of 0 "map (Suc \<circ> height) c"] Max_ge [of "insert 0 ((Suc \<circ> height) ` set c)" "Suc (height y)"] by simp

definition copy_result :: "bool \<Rightarrow> cJSON \<Rightarrow> int \<Rightarrow> cJSON option \<times> blocks \<Rightarrow> bool" where
  "copy_result enough y live r \<longleftrightarrow> (case r of
       (None, m) \<Rightarrow> snd m = live \<and> \<not> enough
     | (Some z, m) \<Rightarrow> z = y \<and> snd m = live + int (node_blocks y) \<and> (enough \<longrightarrow> fst m = []))"

lemma get_block_cases:
  obtains (ok) al where "get_block m = (True, al, snd m + 1)" "fst m = [] \<Longrightarrow> al = []"
    | (no) al where "get_block m = (False, al, snd m)" "fst m \<noteq> []"
  by (cases "fst m"; cases "fst (malloc_ok (fst m))") (auto simp: get_block_def malloc_ok_def)

lemma copy_string_cases:
  obtains (ok) al where "copy_string shared s m = (True, al, snd m + (if s = None \<or> shared then 0 else 1))" "fst m = [] \<Longrightarrow> al = []"
    | (no) al where "copy_string shared s m = (False, al, snd m)" "fst m \<noteq> []"
  by (cases rule: get_block_cases [of m]; cases "s = None \<or> shared"; cases m) (auto simp: copy_string_def)

lemma copy_result_weaken: "copy_result e y live r \<Longrightarrow> (e' \<Longrightarrow> e) \<Longrightarrow> copy_result e' y live r"
  by (auto simp: copy_result_def split: option.splits)

lemma free_item_live: "\<not> has_flag cJSON_IsReference (jtype x) \<Longrightarrow> snd (free_item x m) = snd m - int (node_blocks x)"
  by (simp add: free_item_def)

lemma node_blocks_owned:
  "\<not> has_flag cJSON_IsReference t \<Longrightarrow> node_blocks (cJSON_node c t v i d s)
    = 1 + sum_list (map node_blocks c) + (if v = None then 0 else 1)
      + (if s = None \<or> has_flag cJSON_StringIsConst t then 0 else 1)"
  by (auto simp: has_flag_def)

lemma duplicate_children_ok:
  assumes "\<And>x m. x \<in> set xs \<Longrightarrow> copy_result (fst m = [] \<and> depth + 1 + height x \<le> CJSON_CIRCULAR_LIMIT) (copied x) (snd m)
      (cJSON_Duplicate_rec x (depth + 1) True m)"
    and "\<not> has_flag cJSON_IsReference (jtype newitem)" and "snd m = live + int (node_blocks newitem)"
  shows "copy_result (fst m = [] \<and> (\<forall>y \<in> set xs. depth + Suc (height y) \<le> CJSON_CIRCULAR_LIMIT))
      (with_child (child newitem @ map copied xs) newitem) live (duplicate_children xs depth newitem m)"
  using assms
proof (induction xs arbitrary: newitem m)
  case Nil
  then show ?case by (simp add: copy_result_def with_child_def)
next
  case (Cons x xs)
  show ?case
  proof (cases "depth \<ge> CJSON_CIRCULAR_LIMIT")
    case True
    then show ?thesis using Cons.prems(3) by (auto simp: copy_result_def free_item_def)
  next
    case False
    obtain r m1 where d: "cJSON_Duplicate_rec x (depth + 1) True m = (r, m1)" by (cases "cJSON_Duplicate_rec x (depth + 1) True m")
    have c: "copy_result (fst m = [] \<and> depth + 1 + height x \<le> CJSON_CIRCULAR_LIMIT) (copied x) (snd m) (r, m1)"
      using Cons.prems(1) [of x m] d by simp
    show ?thesis
    proof (cases r)
      case None
      then show ?thesis using c d False Cons.prems(3) by (auto simp: copy_result_def free_item_def)
    next
      case (Some y)
      let ?new = "with_child (child newitem @ [y]) newitem"
      have y: "y = copied x" "snd m1 = snd m + int (node_blocks (copied x))"
        and e: "fst m = [] \<and> depth + 1 + height x \<le> CJSON_CIRCULAR_LIMIT \<longrightarrow> fst m1 = []"
        using c Some by (auto simp: copy_result_def)
      have t: "\<not> has_flag cJSON_IsReference (jtype ?new)" using Cons.prems(2) by (simp add: with_child_def)
      have "node_blocks ?new = node_blocks newitem + node_blocks y"
        using Cons.prems(2) by (cases newitem) (simp add: with_child_def node_blocks_owned del: node_blocks.simps)
      then have "snd m1 = live + int (node_blocks ?new)" using y Cons.prems(3) by simp
      from Cons.IH [OF Cons.prems(1) t this]
      have "copy_result (fst m1 = [] \<and> (\<forall>y \<in> set xs. depth + Suc (height y) \<le> CJSON_CIRCULAR_LIMIT))
          (with_child (child newitem @ map copied (x # xs)) newitem) live (duplicate_children xs depth ?new m1)"
        using y(1) by (simp add: with_child_def)
      moreover have "duplicate_children (x # xs) depth newitem m = duplicate_children xs depth ?new m1"
        using d Some False by simp
      ultimately show ?thesis using e by (auto elim!: copy_result_weaken)
    qed
  qed
qed

lemma duplicate_ok:
  "copy_result (fst m = [] \<and> depth + height x \<le> CJSON_CIRCULAR_LIMIT) (copied x) (snd m)
      (cJSON_Duplicate_rec x depth True m)"
proof (induction x arbitrary: depth m)
  case (cJSON_node c t v i d s)
  let ?t = "clear_flag cJSON_IsReference t"
  let ?new = "cJSON_node [] ?t v i d s"
  have h: "depth + Suc (height y) \<le> CJSON_CIRCULAR_LIMIT"
    if "depth + height (cJSON_node c t v i d s) \<le> CJSON_CIRCULAR_LIMIT" "y \<in> set c" for y
    using height_child [OF that(2)] that(1) by simp
  show ?case
  proof (cases rule: get_block_cases [of m])
    case (no al)
    then show ?thesis by (simp add: copy_result_def)
  next
    case (ok al)
    note b1 = this
    show ?thesis
    proof (cases rule: copy_string_cases [of False v "(al, snd m + 1)"])
      case (no al2)
      then show ?thesis using b1 by (auto simp: copy_result_def free_item_def node_blocks_owned simp del: node_blocks.simps)
    next
      case (ok al2)
      note b2 = this
      show ?thesis
      proof (cases rule: copy_string_cases [of "has_flag cJSON_StringIsConst t" s "(al2, snd m + 1 + (if v = None then 0 else 1))"])
        case (no al3)
        then show ?thesis using b1 b2
          by (auto simp: copy_result_def free_item_def node_blocks_owned with_valuestring_def simp del: node_blocks.simps)
      next
        case (ok al3)
        let ?m = "(al3, snd m + 1 + (if v = None then 0 else 1) + (if s = None \<or> has_flag cJSON_StringIsConst t then 0 else 1))"
        have "with_string s (with_valuestring v (cJSON_node [] ?t None i d None)) = ?new"
          by (simp add: with_string_def with_valuestring_def)
        then have step: "cJSON_Duplicate_rec (cJSON_node c t v i d s) depth True m = duplicate_children c depth ?new ?m"
          using b1(1) b2(1) ok(1) by simp
        have "copy_result (fst ?m = [] \<and> (\<forall>y \<in> set c. depth + Suc (height y) \<le> CJSON_CIRCULAR_LIMIT))
            (with_child (child ?new @ map copied c) ?new) (snd m) (duplicate_children c depth ?new ?m)"
          by (rule duplicate_children_ok [OF cJSON_node.IH])
            (auto simp: node_blocks_owned simp del: node_blocks.simps)
        moreover have "with_child (child ?new @ map copied c) ?new = copied (cJSON_node c t v i d s)"
          by (simp add: with_child_def)
        ultimately have "copy_result (fst ?m = [] \<and> (\<forall>y \<in> set c. depth + Suc (height y) \<le> CJSON_CIRCULAR_LIMIT))
            (copied (cJSON_node c t v i d s)) (snd m) (duplicate_children c depth ?new ?m)" by simp
        then show ?thesis unfolding step by (rule copy_result_weaken) (use b1 b2 ok h in auto)
      qed
    qed
  qed
qed

section \<open>A copy compares equal\<close>

definition name_key :: "bool \<Rightarrow> cJSON \<Rightarrow> string option" where
  "name_key cs x = (if cs then jstring x else map_option (map tolower) (jstring x))"

text \<open>The trees that can be compared: known types, numbers that equal themselves, strings, and members with
  names of their own.\<close>

fun comparable :: "bool \<Rightarrow> cJSON \<Rightarrow> bool" where
  "comparable cs (cJSON_node c t v i d s) \<longleftrightarrow>
     t mod 256 \<in> set known_types \<and> (t mod 256 = cJSON_Number \<longrightarrow> compare_double d d)
     \<and> (t mod 256 = cJSON_String \<or> t mod 256 = cJSON_Raw \<longrightarrow> v \<noteq> None)
     \<and> (t mod 256 = cJSON_Object \<longrightarrow> distinct (map (name_key cs) c) \<and> (\<forall>y \<in> set c. jstring y \<noteq> None))
     \<and> (\<forall>y \<in> set c. comparable cs y)"

lemma copied_sel [simp]: "child (copied x) = map copied (child x)" "jstring (copied x) = jstring x"
  "jtype (copied x) mod 256 = jtype x mod 256" "valuestring (copied x) = valuestring x" "valuedouble (copied x) = valuedouble x"
  by (cases x; simp)+

lemma name_key_copied [simp]: "name_key cs (copied x) = name_key cs x"
  by (simp add: name_key_def)

lemma find_unique:
  "\<lbrakk>distinct (map k c); x \<in> set c; \<And>y. y \<in> set c \<Longrightarrow> P (jstring y) = (k y = k x)\<rbrakk> \<Longrightarrow> find_member P c = Some x"
  by (induction c) (auto simp: image_iff)

lemma same_name_unique:
  assumes "distinct (map (name_key cs) (child ob))" and "\<forall>y \<in> set (child ob). jstring y \<noteq> None"
    and "x \<in> set (child ob)" and "jstring z = jstring x"
  shows "same_name ob z cs = Some x"
proof -
  obtain nm where nm: "jstring x = Some nm" using assms(2,3) by auto
  have "find_member (\<lambda>s. case s of None \<Rightarrow> True | Some t \<Rightarrow> nm = t) (child ob) = Some x" if cs
    using assms(2) nm that by (intro find_unique [OF assms(1,3)]) (auto simp: name_key_def split: option.splits)
  moreover have "find_member (case_insensitive_eq (Some nm)) (child ob) = Some x" if "\<not> cs"
    using assms(2) nm that
    by (intro find_unique [OF assms(1,3)]) (auto simp: name_key_def case_insensitive_eq_def split: option.splits)
  ultimately show ?thesis using nm assms(4) by (auto simp: same_name_def get_object_item_def)
qed

lemma copy_compares: "comparable cs x \<Longrightarrow> compare_items cs x (copied x)"
proof (induction x)
  case (cJSON_node c t v i d s)
  let ?x = "cJSON_node c t v i d s"
  have y: "compare_items cs y (copied y)" "compare_items cs (copied y) y" if "y \<in> set c" for y
    using cJSON_node that compare_items_sym [of cs y "copied y"] by auto
  have a: "\<forall>(y, z) \<in> set (zip c (map copied c)). compare_items cs y z"
    using y by (auto simp: zip_map2 zip_same_conv_map)
  have o: "same_name (copied ?x) y cs = Some (copied y)" "same_name ?x (copied y) cs = Some y"
    if "t mod 256 = cJSON_Object" "y \<in> set c" for y
  proof -
    have d: "distinct (map (name_key cs) c)" "\<forall>y \<in> set c. jstring y \<noteq> None" using cJSON_node.prems that(1) by auto
    have "name_key cs \<circ> copied = name_key cs" by (simp add: fun_eq_iff)
    then show "same_name (copied ?x) y cs = Some (copied y)" using d that(2) by (intro same_name_unique) auto
    show "same_name ?x (copied y) cs = Some y" using d that(2) by (intro same_name_unique) auto
  qed
  have t: "t mod 256 \<in> set known_types" using cJSON_node.prems by simp
  then consider "t mod 256 \<in> {cJSON_False, cJSON_True, cJSON_NULL}" | "t mod 256 = cJSON_Number"
    | "t mod 256 \<in> {cJSON_String, cJSON_Raw}" | "t mod 256 = cJSON_Array" | "t mod 256 = cJSON_Object"
    by (auto simp: known_types_def)
  then show ?case
  proof cases
    case 4
    then show ?thesis using a t by (subst compare_items.simps) (simp add: known_types_def json_types cJSON_Raw_def)
  next
    case 5
    then show ?thesis using y o [OF 5] t by (subst compare_items.simps) (simp add: json_types cJSON_Raw_def)
  qed (use cJSON_node.prems t in \<open>subst compare_items.simps; auto simp: Let_def split: option.splits\<close>)+
qed

end
