(* ===== verification/PropJsonTree.thy ===== *)
theory PropJsonTree
  imports JsonMembers JsonCopies PropJsonPrint
begin

text \<open>
  What holds of the editing of trees in \<^verbatim>\<open>libjson/src/cJSON.c\<close>: the pointer operations are the operations on
  the list of children, and nothing is freed too much or too little.
\<close>

section \<open>A sample\<close>

text \<open>The array \<open>[1,2]\<close> at the nodes 0, 2 and 3, and the number 3 at the node 4.\<close>

definition sample_number :: "int \<Rightarrow> nat option \<Rightarrow> nat option \<Rightarrow> jnode" where
  "sample_number i next prev = zero_jnode\<lparr>jn_type := cJSON_Number, jn_valueint := i, jn_valuedouble := Fin (of_int i),
     jn_next := next, jn_prev := prev\<rparr>"

definition sample_json_heap :: json_heap where
  "sample_json_heap = \<lparr>jnodes = (\<lambda>_. None)(0 \<mapsto> zero_jnode\<lparr>jn_type := cJSON_Array, jn_child := Some 2\<rparr>,
     2 \<mapsto> sample_number 1 (Some 3) (Some 3), 3 \<mapsto> sample_number 2 None (Some 2), 4 \<mapsto> sample_number 3 None None),
     jfresh = 5, jallocs = [], jlive = 4\<rparr>"

definition number_value :: "int \<Rightarrow> cJSON" where
  "number_value i = cJSON_node [] cJSON_Number None i (Fin (of_int i)) None"

lemma sample_trees:
  "tree_at (jnodes sample_json_heap) (ATree 0 [ATree 2 [], ATree 3 []])" "tree_at (jnodes sample_json_heap) (ATree 4 [])"
  "loose (jnodes sample_json_heap) (ATree 4 [])" "heap_ok sample_json_heap"
  "value_of (jnodes sample_json_heap) (ATree 0 [ATree 2 [], ATree 3 []])
    = cJSON_node [number_value 1, number_value 2] cJSON_Array None 0 (Fin 0) None"
  "value_of (jnodes sample_json_heap) (ATree 4 []) = number_value 3"
  by (auto simp: tree_at_def kids_def sample_json_heap_def sample_number_def zero_jnode_def loose_def heap_ok_def
      node_of_def number_value_def)

lemma sample_no_references: "no_references (jnodes sample_json_heap) (ATree 2 [])"
  by (auto simp: no_references_def sample_json_heap_def sample_number_def zero_jnode_def has_flag_def json_types
      cJSON_IsReference_def)

section \<open>Inserting\<close>

text \<open>Property C28 [json_insert]: inserting a node that is in no list into an array or object whose children are
  properly linked is the insertion into the list of its children, at the end when there is no child at
  the index: the pointers are properly linked afterwards, the value of the tree has the new value at that
  place, and no node other than the parent, its children and the new one was touched.\<close>

theorem insert_is_list_insertion:
  assumes "tree_at (jnodes s) (ATree p ts)" and "tree_at (jnodes s) t" and "loose (jnodes s) t"
    and "set (addrs t) \<inter> set (addrs (ATree p ts)) = {}" and "0 \<le> which"
  shows "\<exists>s'. cJSON_InsertItemInArray (Some p) which (Some (troot t)) s = Some (True, s')
    \<and> tree_at (jnodes s') (ATree p (take (nat which) ts @ t # drop (nat which) ts))
    \<and> value_of (jnodes s') (ATree p (take (nat which) ts @ t # drop (nat which) ts))
      = (let c = child (value_of (jnodes s) (ATree p ts)) in
         with_child (take (nat which) c @ value_of (jnodes s) t # drop (nat which) c) (value_of (jnodes s) (ATree p ts)))
    \<and> (\<forall>q. q \<notin> set (p # troot t # map troot ts) \<longrightarrow> jnodes s' q = jnodes s q)"
  using insert_tree [OF assms] unfolding relinks_def by blast

theorem insert_is_list_insertion_witness:
  "\<exists>s'. cJSON_InsertItemInArray (Some 0) 1 (Some 4) sample_json_heap = Some (True, s')
     \<and> value_of (jnodes s') (ATree 0 [ATree 2 [], ATree 4 [], ATree 3 []])
       = cJSON_node [number_value 1, number_value 3, number_value 2] cJSON_Array None 0 (Fin 0) None"
  using insert_is_list_insertion [OF sample_trees(1-3), of 1] unfolding sample_trees(5,6)
  by (auto simp: with_child_def simp del: value_of.simps)

section \<open>Replacing and deleting\<close>

text \<open>Property C29 [json_replace]: replacing a child by another tree is the update of the list of children; the
  tree that was replaced is freed, every node of it and as many blocks as it has nodes and strings of its
  own, and no node outside the two trees and their siblings is touched. The tree that is replaced holds no
  references, whose children belong to another tree.\<close>

theorem replace_is_list_update:
  assumes "tree_at (jnodes s) (ATree p ts)" and "tree_at (jnodes s) t" and "k < length ts"
    and "set (addrs t) \<inter> set (addrs (ATree p ts)) = {}" and "no_references (jnodes s) (ts ! k)"
  shows "\<exists>s'. cJSON_ReplaceItemInArray (Some p) (int k) (Some (troot t)) s = Some (True, s')
    \<and> tree_at (jnodes s') (ATree p (ts[k := t]))
    \<and> value_of (jnodes s') (ATree p (ts[k := t]))
      = with_child ((child (value_of (jnodes s) (ATree p ts)))[k := value_of (jnodes s) t]) (value_of (jnodes s) (ATree p ts))
    \<and> (\<forall>q \<in> set (addrs (ts ! k)). jnodes s' q = None)
    \<and> jlive s' = jlive s - int (node_blocks (value_of (jnodes s) (ts ! k)))
    \<and> (\<forall>q. q \<notin> set (p # troot t # map troot ts @ addrs (ts ! k)) \<longrightarrow> jnodes s' q = jnodes s q)"
  by (rule replace_tree [OF assms])

theorem replace_is_list_update_witness:
  "\<exists>s'. cJSON_ReplaceItemInArray (Some 0) 0 (Some 4) sample_json_heap = Some (True, s')
     \<and> value_of (jnodes s') (ATree 0 [ATree 4 [], ATree 3 []])
       = cJSON_node [number_value 3, number_value 2] cJSON_Array None 0 (Fin 0) None
     \<and> jnodes s' 2 = None \<and> jlive s' = 3"
proof -
  have "node_blocks (value_of (jnodes sample_json_heap) (ATree 2 [])) = 1"
    by (simp add: sample_json_heap_def sample_number_def zero_jnode_def node_of_def)
  moreover have "jlive sample_json_heap = 4" by (simp add: sample_json_heap_def)
  ultimately show ?thesis
    using replace_is_list_update [OF sample_trees(1,2), of 0] sample_no_references unfolding sample_trees(5,6)
    by (auto simp: with_child_def simp del: value_of.simps)
qed

section \<open>Adding a member\<close>

text \<open>Property C30 [json_member]: \<open>cJSON_AddNumberToObject\<close> and \<open>cJSON_AddStringToObject\<close> add one member with the
  name and the value when there is memory for its node and strings; when any of the allocations fails they
  return null, the nodes are what they were, and no block is lost.\<close>

theorem adding_a_member:
  assumes "heap_ok s" and "tree_at (jnodes s) (ATree p ts)" and "saturate_int num = Some i"
  shows "member_added (zero_jnode\<lparr>jn_type := cJSON_Number, jn_valuedouble := num, jn_valueint := i\<rparr>) 1 name p ts s
      (cJSON_AddNumberToObject (Some p) (Some name) num s)
    \<and> member_added (zero_jnode\<lparr>jn_type := cJSON_String, jn_valuestring := Some str\<rparr>) 2 name p ts s
      (cJSON_AddStringToObject (Some p) (Some name) (Some str) s)"
proof
  show "member_added (zero_jnode\<lparr>jn_type := cJSON_Number, jn_valuedouble := num, jn_valueint := i\<rparr>) 1 name p ts s
      (cJSON_AddNumberToObject (Some p) (Some name) num s)"
    unfolding cJSON_AddNumberToObject_def
    by (rule add_created_member [where create = "cJSON_CreateNumber num", OF create_number_created [OF assms(1,3)] _ _ assms(2)])
      (simp_all add: leaf_def leaf_blocks_def zero_jnode_def has_flag_def json_types cJSON_IsReference_def cJSON_StringIsConst_def)
  have "created 2 (zero_jnode\<lparr>jn_type := cJSON_String, jn_valuestring := Some str\<rparr>) s (cJSON_CreateString (Some str) s)"
    unfolding cJSON_CreateString_def by (rule create_text_created [OF assms(1)]) simp
  then show "member_added (zero_jnode\<lparr>jn_type := cJSON_String, jn_valuestring := Some str\<rparr>) 2 name p ts s
      (cJSON_AddStringToObject (Some p) (Some name) (Some str) s)"
    unfolding cJSON_AddStringToObject_def
    by (rule add_created_member [where create = "cJSON_CreateString (Some str)", OF _ _ _ assms(2)])
      (simp_all add: leaf_def leaf_blocks_def zero_jnode_def has_flag_def json_types cJSON_IsReference_def cJSON_StringIsConst_def)
qed

theorem adding_a_member_witness:
  "\<exists>i s'. cJSON_AddNumberToObject (Some 0) (Some ''n'') (Fin 5) sample_json_heap = Some (Some i, s') \<and> jlive s' = 6
     \<and> child (value_of (jnodes s') (ATree 0 [ATree 2 [], ATree 3 [], ATree i []]))
       = [number_value 1, number_value 2, with_string (Some ''n'') (number_value 5)]"
proof -
  have "saturate_int (Fin 5) = Some 5" by (simp add: saturate_int_def INT_MAX_def INT_MIN_def)
  from conjunct1 [OF adding_a_member [OF sample_trees(4,1) this, of "''n''" "[]"]] obtain r s' where
    r: "cJSON_AddNumberToObject (Some 0) (Some ''n'') (Fin 5) sample_json_heap = Some (r, s')"
    and c: "case r of None \<Rightarrow> jnodes s' = jnodes sample_json_heap \<and> jlive s' = jlive sample_json_heap \<and> jallocs sample_json_heap \<noteq> []
      | Some i \<Rightarrow> value_of (jnodes s') (ATree 0 ([ATree 2 [], ATree 3 []] @ [ATree i []]))
           = with_child (child (value_of (jnodes sample_json_heap) (ATree 0 [ATree 2 [], ATree 3 []]))
               @ [with_string (Some ''n'') (node_of (zero_jnode\<lparr>jn_type := cJSON_Number, jn_valuedouble := Fin 5, jn_valueint := 5\<rparr>) [])])
               (value_of (jnodes sample_json_heap) (ATree 0 [ATree 2 [], ATree 3 []]))
         \<and> jlive s' = jlive sample_json_heap + 2"
    unfolding member_added_def by (auto split: option.splits)
  have "jlive sample_json_heap = 4" "jallocs sample_json_heap = []" by (simp_all add: sample_json_heap_def)
  then obtain i where "r = Some i" using c by (cases r) auto
  moreover have "node_of (zero_jnode\<lparr>jn_type := cJSON_Number, jn_valuedouble := Fin 5, jn_valueint := 5\<rparr>) [] = number_value 5"
    by (simp add: node_of_def zero_jnode_def number_value_def)
  ultimately show ?thesis using r c \<open>jlive sample_json_heap = 4\<close> unfolding sample_trees(5)
    by (auto simp: with_child_def simp del: value_of.simps)
qed

section \<open>Copies\<close>

text \<open>Property C31 [json_copy]: \<open>cJSON_Duplicate\<close> of a whole tree delivers a tree of its own, with exactly its
  nodes and strings allocated, or nothing, and then nothing is left allocated and there was too little
  memory or more than 10000 levels; the copy compares equal to the tree when that has known types, numbers that
  equal themselves, strings, and members with names of their own.\<close>

theorem duplicate_compares_equal:
  "case cJSON_Duplicate (Some x) True m of
     (None, m') \<Rightarrow> snd m' = snd m \<and> \<not> (fst m = [] \<and> height x \<le> 10000)
   | (Some y, m') \<Rightarrow> snd m' = snd m + int (node_blocks y)
       \<and> (comparable cs x \<longrightarrow> cJSON_Compare False (Some x) (Some y) cs \<and> cJSON_Compare False (Some y) (Some x) cs)"
proof -
  obtain r m' where d: "cJSON_Duplicate_rec x 0 True m = (r, m')" by (cases "cJSON_Duplicate_rec x 0 True m")
  have c: "copy_result (fst m = [] \<and> height x \<le> 10000) (copied x) (snd m) (r, m')"
    using duplicate_ok [of m 0 x] d by (simp add: CJSON_CIRCULAR_LIMIT_def)
  have "cJSON_Compare False (Some x) (Some (copied x)) cs" if "comparable cs x"
    using copy_compares [OF that] that by (cases x) (simp add: cJSON_Compare_def)
  then show ?thesis using c d compare_sym [of False "Some x"]
    by (auto simp: cJSON_Duplicate_def copy_result_def split: option.splits)
qed

theorem duplicate_compares_equal_witness:
  "\<exists>y. cJSON_Duplicate (Some sample_tree) True ([], 0) = (Some y, [], 8) \<and> cJSON_Compare False (Some sample_tree) (Some y) True"
proof -
  have "cJSON_Duplicate (Some sample_tree) True ([], 0) = (Some sample_tree, [], 8)" by code_simp
  moreover have "comparable True sample_tree" by code_simp
  ultimately show ?thesis using duplicate_compares_equal [where x = sample_tree and m = "([], 0)" and cs = True] by simp
qed

section \<open>Two faults\<close>

text \<open>A reference whose name cannot be copied is left behind.\<close>

lemma lost_reference:
  "map_option (\<lambda>(ok, s'). (ok, jlive s', jnodes s' 5 = None))
     (cJSON_AddItemReferenceToObject (Some 0) (Some ''n'') (Some 4) (sample_json_heap\<lparr>jallocs := [True, False]\<rparr>))
   = Some (False, 5, False)"
  by (simp add: cJSON_AddItemReferenceToObject_def create_reference_def New_Item_at_def malloc_ok_def sample_json_heap_def
      jput_def add_item_to_object_def strdup_at_def)

text \<open>Adding to an array that refers to a node without a \<open>prev\<close> reports success and adds nothing.\<close>

lemma not_added:
  "do { (a, s) \<leftarrow> cJSON_CreateArrayReference (Some 4) (sample_json_heap\<lparr>jallocs := []\<rparr>);
        (ok, s') \<leftarrow> cJSON_AddItemToArray a (Some 0) s;
        k \<leftarrow> cJSON_GetArraySize a s';
        Some (ok, k) } = Some (True, 1)"
  by (simp add: cJSON_CreateArrayReference_def create_with_def New_Item_at_def malloc_ok_def sample_json_heap_def
      jput_def cJSON_AddItemToArray_def add_item_to_array_def sample_number_def zero_jnode_def cJSON_GetArraySize_def
      count_children.simps)

end
