(* ===== verification/Md5Test.thy ===== *)
theory Md5Test
  imports Md5Facts
begin

unbundle bit_operations_syntax

text \<open>
  The digest over \<open>int\<close>, where numerals stay below \<open>2 ^ 32\<close> during an evaluation by the simplifier, its
  equality with \<open>md5_of\<close>, and the evaluation of the test vectors of RFC 1321 with it.
\<close>

section \<open>The digest over int\<close>

type_synonym ints = "int \<times> int \<times> int \<times> int"

definition words_of :: "ints \<Rightarrow> u32 \<times> u32 \<times> u32 \<times> u32" where
  "words_of st = (case st of (a, b, c, d) \<Rightarrow> (word_of_int a, word_of_int b, word_of_int c, word_of_int d))"

definition int_step :: "(int \<Rightarrow> int \<Rightarrow> int \<Rightarrow> int) \<Rightarrow> int list \<Rightarrow> nat \<times> nat \<times> u32 \<Rightarrow> ints \<Rightarrow> ints" where
  "int_step F X step st = (case step of (k, s, t) \<Rightarrow> (case st of (a, b, c, d) \<Rightarrow>
     (let x = (a + F b c d + X ! k + uint t) mod 2 ^ 32
      in (d, ((push_bit s x OR drop_bit (32 - s) x) + b) mod 2 ^ 32, b, c))))"

definition int_words :: "bytes \<Rightarrow> int list" where
  "int_words data = map (\<lambda>k. foldr (\<lambda>c acc. of_char c + 256 * acc) (take 4 (drop (4 * k) data)) 0) [0..<16]"

definition int_compress :: "ints \<Rightarrow> bytes \<Rightarrow> ints" where
  "int_compress st data = (let X = int_words data in
     (case fold (int_step (\<lambda>x y z. y XOR (x OR NOT z)) X) md5_round4
            (fold (int_step (\<lambda>x y z. x XOR y XOR z) X) md5_round3
            (fold (int_step (\<lambda>x y z. y XOR (z AND (x XOR y))) X) md5_round2
            (fold (int_step (\<lambda>x y z. z XOR (x AND (y XOR z))) X) md5_round1 st))) of
        (A, B, C, D) \<Rightarrow> (case st of (s0, s1, s2, s3) \<Rightarrow>
          ((s0 + A) mod 2 ^ 32, (s1 + B) mod 2 ^ 32, (s2 + C) mod 2 ^ 32, (s3 + D) mod 2 ^ 32))))"

function int_blocks :: "ints \<Rightarrow> bytes \<Rightarrow> ints" where
  "int_blocks st m = (if length m < 64 then st else int_blocks (int_compress st (take 64 m)) (drop 64 m))"
  by pat_completeness auto
termination by (relation "measure (\<lambda>(s, m). length m)") auto

lemma mod_32: "x mod 4294967296 = take_bit 32 (x :: int)"
  by (simp add: take_bit_eq_mod)

lemma word_of_int_mod: "(word_of_int (x mod 4294967296) :: u32) = word_of_int x"
  unfolding mod_32 by (rule bit_eqI) (simp add: bit_simps)

lemma word_of_int_rotate:
  "(word_of_int (push_bit s (x mod 4294967296) OR drop_bit (32 - s) (x mod 4294967296)) :: u32)
    = md5_rotate s (word_of_int x)"
proof -
  have m: "y AND 0xFFFFFFFF = y" for y :: u32
  proof -
    have e: "(0xFFFFFFFF :: u32) = - 1" by simp
    show ?thesis unfolding e by (rule and.right_neutral)
  qed
  show ?thesis unfolding md5_rotate_def mod_32 m
    by (rule bit_eqI) (auto simp: bit_simps)
qed

lemma word_bitops_of_int:
  "(word_of_int x :: u32) AND word_of_int y = word_of_int (x AND y)"
  "(word_of_int x :: u32) OR word_of_int y = word_of_int (x OR y)"
  "(word_of_int x :: u32) XOR word_of_int y = word_of_int (x XOR y)"
  "NOT (word_of_int x :: u32) = word_of_int (NOT x)"
  by (rule bit_eqI, auto simp: bit_simps)+

lemma md5_step_int:
  assumes "\<And>x y z. F (word_of_int x) (word_of_int y) (word_of_int z) = word_of_int (G x y z)" "fst step < length X"
  shows "md5_step F (map word_of_int X) step (words_of st) = words_of (int_step G X step st)"
proof -
  obtain k s t a b c d where [simp]: "step = (k, s, t)" "st = (a, b, c, d)" by (metis prod_cases4 prod_cases3)
  have "F (word_of_int b) (word_of_int c) (word_of_int d) = word_of_int (G b c d)" by (rule assms(1))
  moreover have "k < length X" using assms(2) by simp
  ultimately show ?thesis
    by (simp add: md5_step_def int_step_def words_of_def Let_def word_of_int_mod word_of_int_rotate)
qed

lemma md5_fold_int:
  assumes "\<And>x y z. F (word_of_int x) (word_of_int y) (word_of_int z) = word_of_int (G x y z)"
    and "\<forall>s\<in>set steps. fst s < length X"
  shows "fold (md5_step F (map word_of_int X)) steps (words_of st) = words_of (fold (int_step G X) steps st)"
  using assms(2) by (induction steps arbitrary: st) (simp_all add: md5_step_int [of F G] assms(1))

lemma md5_words_int: "md5_words data = map word_of_int (int_words data)"
  by (simp add: md5_words_def int_words_def un32_code)

lemma md5_compress_int: "md5_compress (words_of st) data = words_of (int_compress st data)"
proof -
  let ?X = "int_words data"
  have X: "length ?X = 16" by (simp add: int_words_def)
  note fold = md5_fold_int [of _ _ _ ?X, unfolded X]
  have r: "fold (md5_step md5_F1 (map word_of_int ?X)) md5_round1 (words_of st)
      = words_of (fold (int_step (\<lambda>x y z. z XOR (x AND (y XOR z))) ?X) md5_round1 st)"
    "fold (md5_step md5_F2 (map word_of_int ?X)) md5_round2 (words_of st)
      = words_of (fold (int_step (\<lambda>x y z. y XOR (z AND (x XOR y))) ?X) md5_round2 st)"
    "fold (md5_step md5_F3 (map word_of_int ?X)) md5_round3 (words_of st)
      = words_of (fold (int_step (\<lambda>x y z. x XOR y XOR z) ?X) md5_round3 st)"
    "fold (md5_step md5_F4 (map word_of_int ?X)) md5_round4 (words_of st)
      = words_of (fold (int_step (\<lambda>x y z. y XOR (x OR NOT z)) ?X) md5_round4 st)" for st
    by (rule fold; simp add: md5_F1_def md5_F2_def md5_F3_def md5_F4_def md5_round1_def md5_round2_def
        md5_round3_def md5_round4_def word_bitops_of_int)+
  show ?thesis
    unfolding md5_compress_def int_compress_def Let_def md5_words_int r
    by (simp add: words_of_def word_of_int_mod split: prod.splits)
qed

lemma md5_blocks_int: "md5_blocks (words_of st) m = words_of (int_blocks st m)"
proof (induction st m rule: int_blocks.induct)
  case (1 st m)
  then show ?case
    by (simp only: md5_blocks.simps [of "words_of st" m] int_blocks.simps [of st m] md5_compress_int) simp
qed

declare int_blocks.simps [simp del]

definition int_md5 :: "bytes \<Rightarrow> bytes" where
  "int_md5 m = digest_bytes (words_of (int_blocks (0x67452301, 0xEFCDAB89, 0x98BADCFE, 0x10325476) (md5_padded m)))"

lemma md5_of_int: "md5_of m = int_md5 m"
proof -
  have "md5_start_state = words_of (0x67452301, 0xEFCDAB89, 0x98BADCFE, 0x10325476)"
    by (simp add: md5_start_state_def words_of_def)
  then show ?thesis by (simp add: md5_of_def int_md5_def flip: md5_blocks_int)
qed

section \<open>The vectors\<close>

lemma md5_vectors:
  "int_md5 (md5_test_buf ! 0) = md5_test_sum ! 0"
  "int_md5 (md5_test_buf ! 1) = md5_test_sum ! 1"
  "int_md5 (md5_test_buf ! 2) = md5_test_sum ! 2"
  "int_md5 (md5_test_buf ! 3) = md5_test_sum ! 3"
  "int_md5 (md5_test_buf ! 4) = md5_test_sum ! 4"
  by code_simp+

lemma md5_vectors_long:
  "int_md5 (md5_test_buf ! 5) = md5_test_sum ! 5"
  "int_md5 (md5_test_buf ! 6) = md5_test_sum ! 6"
  by code_simp+

section \<open>The self test\<close>

lemma md5_self_test_passes:
  assumes "\<forall>v\<in>set vs. case v of (buf, len, want) \<Rightarrow> length (take len buf) < 2 ^ 32 \<and> md5_of (take len buf) = want"
    and "length md5sum = 16"
  shows "md5_self_test_loop vs md5sum = Some 0"
  using assms
proof (induction vs md5sum rule: md5_self_test_loop.induct)
  case (2 buf len want rest md5sum)
  then have "mbedtls_md5 (take len buf) md5sum = Some (0, md5_of (take len buf))"
    using md5_whole_digest [of "take len buf" md5sum] by auto
  then show ?case using 2 by auto
qed simp

lemma md5_vector:
  assumes "i < 7"
  shows "take (md5_test_buflen ! i) (md5_test_buf ! i) = md5_test_buf ! i"
    and "length (md5_test_buf ! i) < 2 ^ 32" and "md5_of (md5_test_buf ! i) = md5_test_sum ! i"
proof -
  have "i = 0 \<or> i = 1 \<or> i = 2 \<or> i = 3 \<or> i = 4 \<or> i = 5 \<or> i = 6" using assms by linarith
  then show "md5_of (md5_test_buf ! i) = md5_test_sum ! i"
    unfolding md5_of_int by (elim disjE) (simp_all only: md5_vectors md5_vectors_long)
  have "i = 0 \<or> i = 1 \<or> i = 2 \<or> i = 3 \<or> i = 4 \<or> i = 5 \<or> i = 6" using assms by linarith
  then show "take (md5_test_buflen ! i) (md5_test_buf ! i) = md5_test_buf ! i"
    and "length (md5_test_buf ! i) < 2 ^ 32"
    by (auto simp: md5_test_buflen_def md5_test_buf_def)
qed

lemma md5_self_test_all:
  assumes "length md5sum = 16"
  shows "mbedtls_md5_self_test md5sum = Some 0"
  unfolding mbedtls_md5_self_test_def
proof (rule md5_self_test_passes [OF _ assms], rule ballI)
  fix v assume "v \<in> set (zip md5_test_buf (zip md5_test_buflen md5_test_sum))"
  moreover have "length md5_test_buf = 7" "length md5_test_buflen = 7" "length md5_test_sum = 7"
    by (simp_all add: md5_test_buf_def md5_test_buflen_def md5_test_sum_def)
  ultimately obtain i where "i < 7" "v = (md5_test_buf ! i, md5_test_buflen ! i, md5_test_sum ! i)"
    by (auto simp: set_zip)
  then show "case v of (buf, len, want) \<Rightarrow> length (take len buf) < 2 ^ 32 \<and> md5_of (take len buf) = want"
    using md5_vector [of i] by simp
qed

end
