(* ===== verification/PropMd5.thy ===== *)
theory PropMd5
  imports Md5Test LbsFormat
begin

text \<open>
  What holds of the MD5 of \<^verbatim>\<open>mbedtls-3.6.2/library/md5.c\<close>, and of the functions of the program that
  call it.
\<close>

section \<open>The digest\<close>

text \<open>Property C23 [md5_digest]: the context computes the digest of the whole text however it is cut into
  pieces. After \<open>starts\<close>, an \<open>update\<close> with each of the pieces, none of 4 GB or more, and \<open>finish\<close>, the
  first 16 bytes of the output are the MD5 that RFC 1321 defines on the padded text, the other bytes are
  as before, every call returned 0, nothing was written outside the buffer, and the context is wiped.\<close>

theorem any_updates_give_digest:
  assumes "\<forall>c\<in>set cs. length c < 2 ^ 32" and "16 \<le> length output"
  shows "(do { (ret, ctx) \<leftarrow> md5_updates (snd (mbedtls_md5_starts mbedtls_md5_init)) cs;
               mbedtls_md5_finish ctx output })
    = Some (0, md5_of (concat cs) @ drop 16 output, mbedtls_md5_init)"
  by (rule md5_chunks_digest [OF assms])

theorem any_updates_give_digest_witness:
  "(do { (ret, ctx) \<leftarrow> md5_updates (snd (mbedtls_md5_starts mbedtls_md5_init)) [''message '', [], ''digest''];
         mbedtls_md5_finish ctx (replicate 16 NUL) })
    = Some (0, md5_test_sum ! 3, mbedtls_md5_init)"
proof -
  have "md5_of (concat [''message '', [], ''digest'']) = md5_of (md5_test_buf ! 3)"
    by (simp add: md5_test_buf_def)
  also have "\<dots> = md5_test_sum ! 3" by (simp only: md5_of_int md5_vectors)
  finally show ?thesis
    using any_updates_give_digest [of "[''message '', [], ''digest'']" "replicate 16 NUL"] by simp
qed

text \<open>The self test passes: each of the seven texts has the digest that its table gives.\<close>

theorem md5_self_test_returns_0:
  assumes "length md5sum = 16"
  shows "mbedtls_md5_self_test md5sum = Some 0"
  by (rule md5_self_test_all [OF assms])

theorem md5_self_test_returns_0_witness:
  "mbedtls_md5_self_test (replicate 16 NUL) = Some 0"
  by (rule md5_self_test_returns_0) simp

section \<open>Its callers\<close>

text \<open>\<open>cm_lbs_md5\<close> with the calls of mbedtls it makes, whose results it does not look at.\<close>

definition cm_lbs_md5_calls :: "bytes \<Rightarrow> bytes \<Rightarrow> (bytes \<times> bytes) option" where
  "cm_lbs_md5_calls input output = do {
     s \<leftarrow> c_str input;
     let (ret, ctx) = mbedtls_md5_starts mbedtls_md5_init;
     (ret, ctx1) \<leftarrow> mbedtls_md5_update ctx s;
     (ret, input', ctx2) \<leftarrow> mbedtls_md5_finish ctx1 input;
     output' \<leftarrow> cm_lbs_data_to_hex output input' 16;
     Some (input', output') }"

lemma md5_calls:
  assumes "length v < 2 ^ 32" and "16 \<le> length input"
  obtains ctx where "mbedtls_md5_update (snd (mbedtls_md5_starts mbedtls_md5_init)) v = Some (0, ctx)"
    and "mbedtls_md5_finish ctx input = Some (0, md5_of v @ drop 16 input, mbedtls_md5_init)"
proof -
  have "md5_represents (snd (mbedtls_md5_starts mbedtls_md5_init)) []"
    by (rule md5_starts_represents) (simp add: mbedtls_md5_init_def)
  then obtain ctx where "mbedtls_md5_update (snd (mbedtls_md5_starts mbedtls_md5_init)) v = Some (0, ctx)"
    and "md5_represents ctx v"
    using md5_update_represents [OF _ assms(1), of _ "[]"] by auto
  then show ?thesis using that md5_finish_digest [OF _ assms(2)] by blast
qed

text \<open>The digest the service prints and signs with: the calls amount to the model of \<open>cm_lbs_md5\<close> with
  \<open>md5_of\<close> for its digest.\<close>

theorem lbs_md5_is_md5_of:
  assumes "c_str input = Some v" and "length v < 2 ^ 32" and "16 \<le> length input"
  shows "cm_lbs_md5_calls input output = cm_lbs_md5 md5_of input output"
proof -
  obtain ctx where "mbedtls_md5_update (snd (mbedtls_md5_starts mbedtls_md5_init)) v = Some (0, ctx)"
    and "mbedtls_md5_finish ctx input = Some (0, md5_of v @ drop 16 input, mbedtls_md5_init)"
    by (rule md5_calls [OF assms(2,3)])
  then show ?thesis
    using assms by (cases "mbedtls_md5_starts mbedtls_md5_init")
      (simp add: cm_lbs_md5_calls_def cm_lbs_md5_def arr_copy_def)
qed

text \<open>Property C40 [md5]: the digest of a file is not the digest of its contents but of every eighth
  byte. With the functions of mbedtls, \<open>fs_md5\<close> returns 0 and the MD5 of the first byte of every full
  block of eight that the stream has left; the other bytes and a last block that is not full do not
  count.\<close>

theorem file_digest_is_of_every_eighth_byte:
  assumes "16 \<le> length output"
  shows "fs_md5 (mbedtls_md5_starts mbedtls_md5_init) md5_update_step md5_finish_step True fp output s
      = Some (0, md5_of (hashed_part (drop (f_pos fp) (file_bytes fp s))) @ drop 16 output)
    \<and> length (hashed_part (drop (f_pos fp) (file_bytes fp s))) = (length (file_bytes fp s) - f_pos fp) div 8"
  by (simp add: md5_of_file [OF assms] length_hashed_part)

theorem file_digest_is_of_every_eighth_byte_witness:
  "fs_md5 (mbedtls_md5_starts mbedtls_md5_init) md5_update_step md5_finish_step True
      \<lparr>f_path = ''f'', f_pos = 0\<rparr> (replicate 16 NUL)
      \<lparr>fs_files = [''f'' \<mapsto> ''a1234567rest''], fs_dirs = {}, fs_deny = {}, fs_room = 0, fs_open = 0\<rparr>
    = Some (0, md5_test_sum ! 1)"
proof -
  have "hashed_part ''a1234567rest'' = md5_test_buf ! 1"
    by (simp add: hashed_part.simps md5_test_buf_def)
  moreover have "md5_of (md5_test_buf ! 1) = md5_test_sum ! 1" by (simp only: md5_of_int md5_vectors)
  ultimately show ?thesis
    using file_digest_is_of_every_eighth_byte [of "replicate 16 NUL" "\<lparr>f_path = ''f'', f_pos = 0\<rparr>"
      "\<lparr>fs_files = [''f'' \<mapsto> ''a1234567rest''], fs_dirs = {}, fs_deny = {}, fs_room = 0, fs_open = 0\<rparr>"]
    by (simp add: file_bytes_def)
qed

end
