(* ===== verification/Coordinate.thy ===== *)
theory Coordinate
  imports Complex_Main Prelude
begin

text \<open>
  \<^verbatim>\<open>cm_lbs/cm_lbs/src/coordinate.c\<close>: the conversion of a position between WGS84, GCJ-02 and BD-09. The
  functions compute with doubles; here they compute with real numbers, so that what is proved is
  about the formulas and not about their rounding. \<open>None\<close> is a result that is not a number: the
  square root of a negative number, or a division by a cosine that is zero. A position is a pair of
  the latitude and the longitude, as the functions take them, or the record \<open>LOCDATA\<close>.
\<close>

section \<open>The constants\<close>

text \<open>\<open>M_PI\<close> is the double next to \<open>pi\<close>, whether the library's header or the file defines it.
  \<open>M_E\<close> is what the library's header defines, and the file's constant when it defines none.\<close>

definition M_PI :: real where "M_PI = pi"

definition M_E :: "real option \<Rightarrow> real" where
  "M_E header = (case header of None \<Rightarrow> 0.00669342162296594323 | Some v \<Rightarrow> v)"

definition M_A :: real where "M_A = 6378245.0"

definition x_M_PI :: real where "x_M_PI = M_PI * 3000.0 / 180.0"

text \<open>What \<^verbatim>\<open><math.h>\<close> of the C library of the platform defines: the base of the natural logarithm.\<close>

definition math_h_M_E :: real where "math_h_M_E = 2.7182818284590452354"

record LOCDATA =
  loc_lat :: real
  loc_lon :: real
  loc_alt :: real
  loc_sta :: u32
  loc_radius :: real
  loc_type :: u32
  loc_addr :: string
  loc_src :: string
  loc_timestamp :: u32
  loc_timestamp_all :: u32

text \<open>The functions of \<^verbatim>\<open><math.h>\<close> that the library here has under another name, on their real values.\<close>

definition fabs :: "real \<Rightarrow> real" where "fabs x = \<bar>x\<bar>"

definition pow_half :: "real \<Rightarrow> real" where "pow_half x = sqrt x"

definition atan2 :: "real \<Rightarrow> real \<Rightarrow> real" where
  "atan2 y x = (if x > 0 then arctan (y / x)
     else if x < 0 then (if y \<ge> 0 then arctan (y / x) + pi else arctan (y / x) - pi)
     else if y > 0 then pi / 2 else if y < 0 then - (pi / 2) else 0)"

section \<open>WGS84 and GCJ-02\<close>

definition transformLat :: "real \<Rightarrow> real \<Rightarrow> real" where
  "transformLat lat lon = (let
     tlat = -100.0 + 2.0 * lon + 3.0 * lat + 0.2 * lat * lat + 0.1 * lon * lat
       + 0.2 * pow_half (fabs lon);
     tlat = tlat + ((20.0 * sin (6.0 * lon * M_PI) + 20.0 * sin (2.0 * lon * M_PI)) * 2.0 / 3.0);
     tlat = tlat + ((20.0 * sin (lat * M_PI) + 40.0 * sin (lat / 3.0 * M_PI)) * 2.0 / 3.0);
     tlat = tlat + ((160.0 * sin (lat / 12.0 * M_PI) + 320 * sin (lat * M_PI / 30.0)) * 2.0 / 3.0)
   in tlat)"

definition transformLon :: "real \<Rightarrow> real \<Rightarrow> real" where
  "transformLon lat lon = (let
     tlon = 300.0 + lon + 2.0 * lat + 0.1 * lon * lon + 0.1 * lon * lat
       + 0.1 * pow_half (fabs lon);
     tlon = tlon + ((20.0 * sin (6.0 * lon * M_PI) + 20.0 * sin (2.0 * lon * M_PI)) * 2.0 / 3.0);
     tlon = tlon + ((20.0 * sin (lon * M_PI) + 40.0 * sin (lon / 3.0 * M_PI)) * 2.0 / 3.0);
     tlon = tlon + ((150.0 * sin (lon / 12.0 * M_PI) + 300.0 * sin (lon / 30.0 * M_PI)) * 2.0 / 3.0)
   in tlon)"

text \<open>With \<open>magic\<close> zero both quotients have an infinite divisor and are zero.\<close>

definition transformLoc :: "real option \<Rightarrow> real \<times> real \<Rightarrow> (real \<times> real) option" where
  "transformLoc header p = (case p of (lat, lon) \<Rightarrow> (let
     tlat = transformLat (lat - 35.0) (lon - 105.0);
     tlon = transformLon (lat - 35.0) (lon - 105.0);
     ratlat = lat / 180.0 * M_PI;
     magic = sin ratlat;
     magic = 1 - M_E header * magic * magic
   in if magic < 0 \<or> cos ratlat = 0 then None
      else if magic = 0 then Some (lat, lon)
      else let
        sqrtmagic = pow_half magic;
        tlat = (tlat * 180.0) / ((M_A * (1 - M_E header)) / (magic * sqrtmagic) * M_PI);
        tlon = (tlon * 180.0) / (M_A / sqrtmagic * cos ratlat * M_PI)
      in Some (lat + tlat, lon + tlon)))"

definition Wgs84ToGcj02 :: "real option \<Rightarrow> real \<times> real \<Rightarrow> (real \<times> real) option" where
  "Wgs84ToGcj02 header p = transformLoc header p"

definition Gcj02ToWgs84 :: "real option \<Rightarrow> real \<times> real \<Rightarrow> (real \<times> real) option" where
  "Gcj02ToWgs84 header p = (case p of (lat, lon) \<Rightarrow> (case transformLoc header (lat, lon) of
     None \<Rightarrow> None
   | Some (templat, templon) \<Rightarrow> Some (lat * 2 - templat, lon * 2 - templon)))"

section \<open>GCJ-02 and BD-09\<close>

definition Gcj02ToBd09 :: "real \<times> real \<Rightarrow> real \<times> real" where
  "Gcj02ToBd09 p = (case p of (lat, lon) \<Rightarrow> (let
     x = lon;
     y = lat;
     z = sqrt (x * x + y * y) + 0.00002 * sin (y * x_M_PI);
     theta = atan2 y x + 0.000003 * cos (x * x_M_PI)
   in (z * sin theta + 0.006, z * cos theta + 0.0065)))"

definition Bd09ToGcj02 :: "real \<times> real \<Rightarrow> real \<times> real" where
  "Bd09ToGcj02 p = (case p of (lat, lon) \<Rightarrow> (let
     x = lon - 0.0065;
     y = lat - 0.006;
     z = sqrt (x * x + y * y) - 0.00002 * sin (y * x_M_PI);
     theta = atan2 y x - 0.000003 * cos (x * x_M_PI)
   in (z * sin theta, z * cos theta)))"

definition Wgs84ToBd09 :: "real option \<Rightarrow> real \<times> real \<Rightarrow> (real \<times> real) option" where
  "Wgs84ToBd09 header p = map_option Gcj02ToBd09 (Wgs84ToGcj02 header p)"

definition Bd09ToWgs84 :: "real option \<Rightarrow> real \<times> real \<Rightarrow> (real \<times> real) option" where
  "Bd09ToWgs84 header p = Gcj02ToWgs84 header (Bd09ToGcj02 p)"

section \<open>The functions on the record\<close>

definition s_Gcj02ToWgs84 :: "real option \<Rightarrow> LOCDATA \<Rightarrow> LOCDATA option" where
  "s_Gcj02ToWgs84 header loc = (case transformLoc header (loc_lat loc, loc_lon loc) of
     None \<Rightarrow> None
   | Some (lat, lon) \<Rightarrow>
       Some (loc\<lparr>loc_lat := loc_lat loc * 2 - lat, loc_lon := loc_lon loc * 2 - lon\<rparr>))"

definition s_Wgs84ToGcj02 :: "real option \<Rightarrow> LOCDATA \<Rightarrow> LOCDATA option" where
  "s_Wgs84ToGcj02 header loc = (case transformLoc header (loc_lat loc, loc_lon loc) of
     None \<Rightarrow> None
   | Some (lat, lon) \<Rightarrow> Some (loc\<lparr>loc_lat := lat, loc_lon := lon\<rparr>))"

definition s_Gcj02ToBd09 :: "LOCDATA \<Rightarrow> LOCDATA" where
  "s_Gcj02ToBd09 loc = (let
     lat = loc_lat loc;
     lon = loc_lon loc;
     x = lon;
     y = lat;
     z = sqrt (x * x + y * y) + 0.00002 * sin (y * x_M_PI);
     theta = atan2 y x + 0.000003 * cos (x * x_M_PI)
   in loc\<lparr>loc_lon := z * cos theta + 0.0065, loc_lat := z * sin theta + 0.006\<rparr>)"

definition s_Wgs84ToBd09 :: "real option \<Rightarrow> LOCDATA \<Rightarrow> LOCDATA option" where
  "s_Wgs84ToBd09 header loc = map_option s_Gcj02ToBd09 (s_Wgs84ToGcj02 header loc)"

section \<open>Polar coordinates\<close>

lemma M_PI_pos [simp]: "0 < M_PI"
  by (simp add: M_PI_def)

lemma arctan_polar:
  fixes x y :: real
  assumes "x \<noteq> 0"
  shows "sqrt (x * x + y * y) * cos (arctan (y / x)) = \<bar>x\<bar>"
    and "sqrt (x * x + y * y) * sin (arctan (y / x)) = \<bar>x\<bar> * (y / x)"
proof -
  have "x * x + y * y = (x * x) * (1 + (y / x)\<^sup>2)"
    using assms by (simp add: field_simps power2_eq_square)
  then have e: "sqrt (x * x + y * y) = \<bar>x\<bar> * sqrt (1 + (y / x)\<^sup>2)"
    by (simp add: real_sqrt_mult)
  have "1 + (y / x)\<^sup>2 > 0"
    by (simp add: add_pos_nonneg)
  then have n: "sqrt (1 + (y / x)\<^sup>2) \<noteq> 0"
    by simp
  show "sqrt (x * x + y * y) * cos (arctan (y / x)) = \<bar>x\<bar>"
    using n unfolding e cos_arctan by simp
  show "sqrt (x * x + y * y) * sin (arctan (y / x)) = \<bar>x\<bar> * (y / x)"
    using n unfolding e sin_arctan by simp
qed

lemma atan2_polar:
  shows "sqrt (x * x + y * y) * cos (atan2 y x) = x"
    and "sqrt (x * x + y * y) * sin (atan2 y x) = y"
  using arctan_polar [of x y]
  by (auto simp: atan2_def cos_add cos_diff sin_add sin_diff not_less)

text \<open>The angle that \<open>atan2\<close> finds for a point at angle \<open>t\<close> has the cosine and the sine of \<open>t\<close>.\<close>

lemma atan2_of_polar:
  assumes "0 < z"
  shows "cos (atan2 (z * sin t) (z * cos t)) = cos t"
    and "sin (atan2 (z * sin t) (z * cos t)) = sin t"
    and "sqrt (z * cos t * (z * cos t) + z * sin t * (z * sin t)) = z"
proof -
  have "z * cos t * (z * cos t) + z * sin t * (z * sin t) = z * z * ((cos t)\<^sup>2 + (sin t)\<^sup>2)"
    by (simp only: power2_eq_square distrib_left mult_ac)
  then have "z * cos t * (z * cos t) + z * sin t * (z * sin t) = z * z"
    by (simp only: sin_cos_squared_add2 mult_1_right)
  then show s: "sqrt (z * cos t * (z * cos t) + z * sin t * (z * sin t)) = z"
    using assms by simp
  show "cos (atan2 (z * sin t) (z * cos t)) = cos t"
    using atan2_polar(1) [of "z * cos t" "z * sin t"] assms unfolding s by simp
  show "sin (atan2 (z * sin t) (z * cos t)) = sin t"
    using atan2_polar(2) [of "z * cos t" "z * sin t"] assms unfolding s by simp
qed

lemma cos_lipschitz: "\<bar>cos a - cos b\<bar> \<le> \<bar>a - b\<bar>" for a b :: real
proof -
  have "\<bar>cos a - cos b\<bar> = 2 * (\<bar>sin ((a + b) / 2)\<bar> * \<bar>sin ((b - a) / 2)\<bar>)"
    by (simp add: cos_diff_cos abs_mult)
  also have "\<dots> \<le> 2 * (1 * \<bar>(b - a) / 2\<bar>)"
    by (intro mult_left_mono mult_mono abs_sin_x_le_abs_x) auto
  finally show ?thesis by simp
qed

lemma sin_lipschitz: "\<bar>sin a - sin b\<bar> \<le> \<bar>a - b\<bar>" for a b :: real
  using cos_lipschitz [of "pi / 2 - a" "pi / 2 - b"] by (simp add: cos_diff)


text \<open>Two points given by a radius and an angle are not farther apart, in each coordinate, than their
  radii and the arc between their angles.\<close>

lemma polar_distance:
  fixes z r :: real
  assumes "0 \<le> r"
  shows "\<bar>z * cos a - r * cos b\<bar> \<le> \<bar>z - r\<bar> + r * \<bar>a - b\<bar>"
    and "\<bar>z * sin a - r * sin b\<bar> \<le> \<bar>z - r\<bar> + r * \<bar>a - b\<bar>"
proof -
  have bound: "\<bar>z * c - r * d\<bar> \<le> \<bar>z - r\<bar> + r * \<bar>a - b\<bar>"
    if "\<bar>c\<bar> \<le> 1" "\<bar>c - d\<bar> \<le> \<bar>a - b\<bar>" for c d
  proof -
    have "z * c - r * d = (z - r) * c + r * (c - d)"
      by (simp add: algebra_simps)
    then have "\<bar>z * c - r * d\<bar> \<le> \<bar>z - r\<bar> * \<bar>c\<bar> + r * \<bar>c - d\<bar>"
      using abs_triangle_ineq [of "(z - r) * c" "r * (c - d)"] assms by (simp add: abs_mult)
    also have "\<dots> \<le> \<bar>z - r\<bar> * 1 + r * \<bar>a - b\<bar>"
      using that assms by (intro add_mono mult_left_mono) auto
    finally show ?thesis by simp
  qed
  show "\<bar>z * cos a - r * cos b\<bar> \<le> \<bar>z - r\<bar> + r * \<bar>a - b\<bar>"
    by (rule bound) (auto simp: cos_lipschitz)
  show "\<bar>z * sin a - r * sin b\<bar> \<le> \<bar>z - r\<bar> + r * \<bar>a - b\<bar>"
    by (rule bound) (auto simp: sin_lipschitz)
qed

section \<open>From GCJ-02 to BD-09 and back\<close>

text \<open>The way to BD-09 turns the point by at most 0.000003 and moves it outwards by at most 0.00002;
  the way back takes the angle and the radius that it finds, and undoes a turn and a move that it
  computes at the moved point.\<close>

lemma Bd09ToGcj02_polar:
  assumes "0 < z"
  shows "\<exists>u v. \<bar>u\<bar> \<le> 1 \<and> \<bar>v\<bar> \<le> 1 \<and> Bd09ToGcj02 (z * sin t + 0.006, z * cos t + 0.0065)
    = ((z - 0.00002 * u) * sin (t - 0.000003 * v), (z - 0.00002 * u) * cos (t - 0.000003 * v))"
proof -
  let ?u = "sin (z * sin t * x_M_PI)" and ?v = "cos (z * cos t * x_M_PI)"
  have "Bd09ToGcj02 (z * sin t + 0.006, z * cos t + 0.0065)
    = ((z - 0.00002 * ?u) * sin (t - 0.000003 * ?v), (z - 0.00002 * ?u) * cos (t - 0.000003 * ?v))"
    using atan2_of_polar [OF assms, of t]
    by (simp only: Bd09ToGcj02_def prod.case Let_def add_diff_cancel_right' sin_diff cos_diff)
  then show ?thesis
    by (intro exI [of _ ?u] exI [of _ ?v]) simp
qed

lemma there_and_back:
  assumes "0.00002 < sqrt (lon * lon + lat * lat)"
    and b: "Bd09ToGcj02 (Gcj02ToBd09 (lat, lon)) = (lat', lon')"
  shows "\<bar>lat' - lat\<bar> \<le> 0.00004 + 0.000006 * sqrt (lon * lon + lat * lat)"
    and "\<bar>lon' - lon\<bar> \<le> 0.00004 + 0.000006 * sqrt (lon * lon + lat * lat)"
proof -
  let ?r = "sqrt (lon * lon + lat * lat)" and ?t = "atan2 lat lon"
  define u where "u = sin (lat * x_M_PI)"
  define v where "v = cos (lon * x_M_PI)"
  have uv: "\<bar>u\<bar> \<le> 1" "\<bar>v\<bar> \<le> 1"
    by (auto simp: u_def v_def)
  have g: "Gcj02ToBd09 (lat, lon) = ((?r + 0.00002 * u) * sin (?t + 0.000003 * v) + 0.006,
      (?r + 0.00002 * u) * cos (?t + 0.000003 * v) + 0.0065)"
    by (simp add: Gcj02ToBd09_def Let_def u_def v_def)
  have "0 < ?r + 0.00002 * u"
    using uv(1) assms(1) by (simp add: abs_le_iff)
  from Bd09ToGcj02_polar [OF this, of "?t + 0.000003 * v"] obtain u' v'
    where uv': "\<bar>u'\<bar> \<le> 1" "\<bar>v'\<bar> \<le> 1"
      and e: "lat' = (?r + 0.00002 * u - 0.00002 * u') * sin (?t + 0.000003 * v - 0.000003 * v')"
        "lon' = (?r + 0.00002 * u - 0.00002 * u') * cos (?t + 0.000003 * v - 0.000003 * v')"
    using b unfolding g by auto
  have arc: "(c + e * x - e * y) - c = e * (x - y)" for c e x y :: real
    by (simp add: algebra_simps)
  have "\<bar>u - u'\<bar> \<le> 2" "\<bar>v - v'\<bar> \<le> 2"
    using uv uv' by linarith+
  then have "\<bar>(?r + 0.00002 * u - 0.00002 * u') - ?r\<bar> \<le> 0.00004"
    "\<bar>(?t + 0.000003 * v - 0.000003 * v') - ?t\<bar> \<le> 0.000006"
    using uv uv' unfolding arc by (simp_all add: abs_mult)
  moreover have r: "0 \<le> ?r"
    by simp
  ultimately have le: "\<bar>(?r + 0.00002 * u - 0.00002 * u') - ?r\<bar>
      + ?r * \<bar>(?t + 0.000003 * v - 0.000003 * v') - ?t\<bar> \<le> 0.00004 + 0.000006 * ?r"
    unfolding mult.commute [of "0.000006" ?r] by (intro add_mono mult_left_mono)
  show "\<bar>lat' - lat\<bar> \<le> 0.00004 + 0.000006 * ?r"
    using order_trans [OF polar_distance(2) [OF r, of "?r + 0.00002 * u - 0.00002 * u'"
        "?t + 0.000003 * v - 0.000003 * v'" ?t] le]
    unfolding e atan2_polar(2) .
  show "\<bar>lon' - lon\<bar> \<le> 0.00004 + 0.000006 * ?r"
    using order_trans [OF polar_distance(1) [OF r, of "?r + 0.00002 * u - 0.00002 * u'"
        "?t + 0.000003 * v - 0.000003 * v'" ?t] le]
    unfolding e atan2_polar(1) .
qed


section \<open>The constant of the ellipsoid\<close>

text \<open>The latitude moves by a multiple of \<open>transformLat\<close> whose sign is that of \<open>1 - M_E\<close>.\<close>

lemma transformLoc_Some:
  assumes m: "0 \<le> 1 - M_E header * sin (lat / 180.0 * M_PI) * sin (lat / 180.0 * M_PI)"
    and c: "cos (lat / 180.0 * M_PI) \<noteq> 0"
  shows "\<exists>k lon'. transformLoc header (lat, lon)
      = Some (lat + transformLat (lat - 35.0) (lon - 105.0) * k, lon') \<and> 0 \<le> k * (1 - M_E header)"
proof -
  define q where "q = 1 - M_E header * sin (lat / 180.0 * M_PI) * sin (lat / 180.0 * M_PI)"
  define T where "T = transformLat (lat - 35.0) (lon - 105.0)"
  define k where "k = 180.0 / ((M_A * (1 - M_E header)) / (q * pow_half q) * M_PI)"
  have q0: "0 \<le> q"
    using m by (simp add: q_def)
  show ?thesis
  proof (cases "q = 0")
    case True
    then show ?thesis
      using c by (simp add: transformLoc_def Let_def q_def) (rule exI [of _ 0], simp)
  next
    case False
    have "transformLoc header (lat, lon) = Some (lat + T * k, lon
        + transformLon (lat - 35.0) (lon - 105.0) * 180.0
          / (M_A / pow_half q * cos (lat / 180.0 * M_PI) * M_PI))"
      using q0 False c unfolding transformLoc_def Let_def prod.case q_def [symmetric]
        T_def [symmetric] k_def by simp
    moreover have "k * (1 - M_E header)
        = 180.0 * (q * pow_half q) / (M_A * M_PI) * ((1 - M_E header) / (1 - M_E header))"
      by (simp add: k_def)
    moreover have "0 \<le> 180.0 * (q * pow_half q) / (M_A * M_PI) * ((1 - M_E header) / (1 - M_E header))"
      using q0 by (simp add: pow_half_def M_A_def M_PI_def)
    ultimately show ?thesis
      unfolding T_def by auto
  qed
qed

lemma transformLoc_None:
  assumes "1 < M_E header * sin (lat / 180.0 * M_PI) * sin (lat / 180.0 * M_PI)"
  shows "transformLoc header (lat, lon) = None"
  using assms by (simp add: transformLoc_def Let_def)

lemma cos_latitude: "0 < cos (lat / 180.0 * M_PI)" if "\<bar>lat\<bar> < 90"
proof -
  have "\<bar>lat\<bar> / 180.0 * pi < 90 / 180 * pi"
    using that by (intro mult_strict_right_mono divide_strict_right_mono) simp_all
  then have "\<bar>lat / 180.0 * M_PI\<bar> < pi / 2"
    by (simp add: M_PI_def abs_mult)
  then show ?thesis
    by (intro cos_gt_zero_pi) linarith+
qed

text \<open>Five twelfths of \<open>pi\<close> is an angle of 75 degrees.\<close>

lemma cos_75: "cos (5 * pi / 12) < 0.26"
proof -
  have "cos (5 * pi / 6) = - (sqrt 3 / 2)"
    using cos_30 cos_minus_pi [of "pi / 6"] by (simp add: field_simps)
  then have "2 * (cos (5 * pi / 12))\<^sup>2 = 1 - sqrt 3 / 2"
    using cos_double_cos [of "5 * pi / 12"] by simp
  moreover have "1.73 < sqrt (3::real)"
    by (rule real_less_rsqrt) (simp add: power2_eq_square)
  ultimately have "(cos (5 * pi / 12))\<^sup>2 < (0.26)\<^sup>2"
    by (simp add: power2_eq_square)
  then show ?thesis
    by (rule power2_less_imp_less) simp
qed

lemma sin_from_37_5:
  assumes "37.5 \<le> \<bar>lat\<bar>" "\<bar>lat\<bar> \<le> 90"
  shows "0.37 < sin (lat / 180.0 * M_PI) * sin (lat / 180.0 * M_PI)"
proof -
  define a where "a = lat / 180.0 * M_PI"
  have abs: "\<bar>a\<bar> = \<bar>lat\<bar> / 180.0 * pi"
    by (simp add: a_def M_PI_def abs_mult)
  have "cos (2 * \<bar>a\<bar>) \<le> cos (5 * pi / 12)"
    using assms unfolding abs by (intro cos_monotone_0_pi_le) (auto simp: field_simps)
  moreover have "cos (2 * \<bar>a\<bar>) = 1 - 2 * (sin \<bar>a\<bar>)\<^sup>2"
    by (rule cos_double_sin)
  moreover have "(sin \<bar>a\<bar>)\<^sup>2 = sin a * sin a"
    by (simp add: abs_if power2_eq_square)
  moreover note cos_75
  ultimately have "1 - 2 * (sin a * sin a) < 0.26"
    by simp
  then show ?thesis
    unfolding a_def [symmetric] by simp
qed

text \<open>With the number of the header no latitude is converted as it should be: where the formula has
  a value at all, the latitude moves the other way.\<close>

lemma converted_wrongly:
  assumes "\<bar>lat\<bar> < 90"
  shows "\<exists>lat' lon'. Wgs84ToGcj02 None (lat, lon) = Some (lat', lon')
    \<and> (case Wgs84ToGcj02 (Some math_h_M_E) (lat, lon) of
        None \<Rightarrow> True | Some (lat'', lon'') \<Rightarrow> (lat'' - lat) * (lat' - lat) \<le> 0)"
proof -
  define s where "s = sin (lat / 180.0 * M_PI)"
  define T where "T = transformLat (lat - 35.0) (lon - 105.0)"
  have c: "cos (lat / 180.0 * M_PI) \<noteq> 0"
    using cos_latitude [OF assms] by simp
  have s: "0 \<le> s * s" "s * s \<le> 1"
    using abs_sin_le_one [of "lat / 180.0 * M_PI"] by (auto simp: s_def abs_le_iff abs_square_le_1 power2_eq_square [symmetric])
  have "0 \<le> 1 - M_E None * s * s"
    using s by (simp add: M_E_def)
  from transformLoc_Some [OF this [unfolded s_def] c, of lon, folded T_def] obtain k lon'
    where a: "transformLoc None (lat, lon) = Some (lat + T * k, lon')" "0 \<le> k * (1 - M_E None)"
    by blast
  then have k: "0 \<le> k"
    by (simp add: M_E_def zero_le_mult_iff)
  show ?thesis
  proof (cases "1 < M_E (Some math_h_M_E) * s * s")
    case True
    then show ?thesis
      using a(1) transformLoc_None [of "Some math_h_M_E" lat lon, folded s_def]
      by (simp add: Wgs84ToGcj02_def)
  next
    case False
    then have "0 \<le> 1 - M_E (Some math_h_M_E) * s * s"
      by simp
    from transformLoc_Some [OF this [unfolded s_def] c, of lon, folded T_def] obtain j lon''
      where b: "transformLoc (Some math_h_M_E) (lat, lon) = Some (lat + T * j, lon'')"
        "0 \<le> j * (1 - M_E (Some math_h_M_E))"
      by blast
    then have j: "j \<le> 0"
      by (simp add: M_E_def math_h_M_E_def zero_le_mult_iff)
    have "T * j * (T * k) = (T * T) * (j * k)"
      by (simp add: mult_ac)
    also have "\<dots> \<le> 0"
      using j k by (simp add: mult_le_0_iff)
    finally show ?thesis
      using a(1) b(1) by (simp add: Wgs84ToGcj02_def)
  qed
qed

lemma not_a_number:
  assumes "37.5 \<le> \<bar>lat\<bar>" "\<bar>lat\<bar> \<le> 90"
  shows "Wgs84ToGcj02 (Some math_h_M_E) (lat, lon) = None"
  using sin_from_37_5 [OF assms] unfolding Wgs84ToGcj02_def
  by (intro transformLoc_None) (simp add: M_E_def math_h_M_E_def mult.assoc)


section \<open>The two kinds of functions\<close>

text \<open>A function on the record computes what the function on the two numbers computes, and touches no
  other field.\<close>

abbreviation located :: "LOCDATA \<Rightarrow> real \<times> real \<Rightarrow> LOCDATA" where
  "located loc p \<equiv> loc\<lparr>loc_lat := fst p, loc_lon := snd p\<rparr>"

lemma s_Gcj02ToBd09_agrees:
  "s_Gcj02ToBd09 loc = located loc (Gcj02ToBd09 (loc_lat loc, loc_lon loc))"
  by (simp add: s_Gcj02ToBd09_def Gcj02ToBd09_def Let_def)

lemma s_Wgs84ToGcj02_agrees:
  "s_Wgs84ToGcj02 header loc = map_option (located loc) (Wgs84ToGcj02 header (loc_lat loc, loc_lon loc))"
  by (auto simp: s_Wgs84ToGcj02_def Wgs84ToGcj02_def split: option.splits)

lemma s_Gcj02ToWgs84_agrees:
  "s_Gcj02ToWgs84 header loc = map_option (located loc) (Gcj02ToWgs84 header (loc_lat loc, loc_lon loc))"
  by (auto simp: s_Gcj02ToWgs84_def Gcj02ToWgs84_def split: option.splits)

lemma s_Wgs84ToBd09_agrees:
  "s_Wgs84ToBd09 header loc = map_option (located loc) (Wgs84ToBd09 header (loc_lat loc, loc_lon loc))"
  by (cases "Wgs84ToGcj02 header (loc_lat loc, loc_lon loc)")
    (simp_all add: s_Wgs84ToBd09_def Wgs84ToBd09_def s_Wgs84ToGcj02_agrees s_Gcj02ToBd09_agrees)

text \<open>The way back from GCJ-02 takes the offset at the converted point for the offset at the point
  itself: what remains is the difference of the two.\<close>

lemma Gcj02ToWgs84_of_converted:
  assumes "Wgs84ToGcj02 header (lat, lon) = Some (lat', lon')"
    and "Wgs84ToGcj02 header (lat', lon') = Some (lat'', lon'')"
  shows "Gcj02ToWgs84 header (lat', lon')
    = Some (lat + ((lat' - lat) - (lat'' - lat')), lon + ((lon' - lon) - (lon'' - lon')))"
  using assms by (simp add: Wgs84ToGcj02_def Gcj02ToWgs84_def)

end
