(* ===== verification/PropCoordinate.thy ===== *)
theory PropCoordinate
  imports Coordinate
begin

text \<open>
  What holds of the conversion of positions in \<^verbatim>\<open>cm_lbs/cm_lbs/src/coordinate.c\<close>.
\<close>

text \<open>Property C19 [gcj_constant]: no latitude is converted from WGS84 to GCJ-02 as the file means it. The
  file defines its constant of the ellipsoid under the name \<open>M_E\<close>, and only when the header of the C
  library defines no \<open>M_E\<close>; but the header does, as the base of the natural logarithm. With the
  constant of the file every position off the poles has a converted position. With the number of
  the header the formula has no value at all from 37.5 degrees on, to the north and to the south (the
  square root of a negative number), and where it has one the latitude does not move in the direction of
  the offset that is meant (it moves the other way, or stays where the offset is zero).\<close>

theorem gcj02_is_computed_with_the_wrong_constant:
  assumes "\<bar>lat\<bar> < 90"
  shows "\<exists>lat' lon'. Wgs84ToGcj02 None (lat, lon) = Some (lat', lon')
    \<and> (case Wgs84ToGcj02 (Some math_h_M_E) (lat, lon) of
        None \<Rightarrow> True
      | Some (lat'', lon'') \<Rightarrow> \<bar>lat\<bar> < 37.5 \<and> (lat'' - lat) * (lat' - lat) \<le> 0)"
proof (cases "\<bar>lat\<bar> < 37.5")
  case True
  then show ?thesis
    using converted_wrongly [OF assms, of lon] by (simp only: True simp_thms)
next
  case False
  then show ?thesis
    using converted_wrongly [OF assms, of lon] not_a_number [of lat lon] assms by auto
qed

theorem gcj02_is_computed_with_the_wrong_constant_witness:
  "(\<exists>lat' lon'. Wgs84ToGcj02 None (39.9, 116.4) = Some (lat', lon'))
    \<and> Wgs84ToGcj02 (Some math_h_M_E) (39.9, 116.4) = None"
  using gcj02_is_computed_with_the_wrong_constant [of "39.9" "116.4"]
  by (cases "Wgs84ToGcj02 (Some math_h_M_E) (39.9, 116.4)") auto

text \<open>Property C38 [bd09_roundtrip]: the conversion from BD-09 undoes the one to BD-09 up to a small
  error: a position whose distance from the origin, in degrees, is \<open>r\<close> comes back with each
  coordinate within \<open>0.00004 + 0.000006 * r\<close> degrees of what it was.\<close>

theorem bd09_there_and_back:
  assumes "0.00002 < sqrt (lon * lon + lat * lat)"
    and "Bd09ToGcj02 (Gcj02ToBd09 (lat, lon)) = (lat', lon')"
  shows "\<bar>lat' - lat\<bar> \<le> 0.00004 + 0.000006 * sqrt (lon * lon + lat * lat)
    \<and> \<bar>lon' - lon\<bar> \<le> 0.00004 + 0.000006 * sqrt (lon * lon + lat * lat)"
  using there_and_back [OF assms] by simp

theorem bd09_there_and_back_witness:
  "\<exists>lat' lon'. Bd09ToGcj02 (Gcj02ToBd09 (30, 40)) = (lat', lon')
    \<and> \<bar>lat' - 30\<bar> \<le> 0.00034 \<and> \<bar>lon' - 40\<bar> \<le> 0.00034"
proof -
  have "sqrt (40 * 40 + 30 * 30) = (50 :: real)"
    by (rule real_sqrt_unique) simp_all
  then show ?thesis
    using bd09_there_and_back [of 40 30]
    by (cases "Bd09ToGcj02 (Gcj02ToBd09 (30, 40))") simp
qed

end
