(* ===== verification/Spec2Isabelle.thy ===== *)
theory Spec2Isabelle
  imports PropConfig PropSession PropFiles PropFormat PropPlatforms PropJson PropJsonPrint PropJsonTree PropMd5 PropCoordinate
begin

text \<open>
  A model of the location service and of the file library of this repository, with the theorems that
  say what the two do.

  \<^bold>\<open>The program.\<close> The repository builds a location service (\<^verbatim>\<open>src/cm_lbs\<close>) and a file library
  (\<^verbatim>\<open>src/libfs\<close>) with a test program (\<^verbatim>\<open>src/src/main.c\<close>) on top of vendored libraries (libcurl,
  mbedtls, lwip, libuv, cJSON). The service has three layers. The AT layer
  (\<^verbatim>\<open>cm_lbs/cm_lbs/src/cm_lbs_api.c\<close>) handles the commands \<open>AT+MLBSCFG\<close>, \<open>AT+MLBSLOC\<close> and the factory
  settings, keeps its configuration in files, and writes the reports. The core (\<^verbatim>\<open>cm_lbs.c\<close>) owns a
  task, a message queue and one session for each platform; \<open>cm_lbs_init\<close> opens a session,
  \<open>cm_lbs_location\<close> sends a message, the task's turn sends the request and calls the caller back, and
  \<open>cm_lbs_deinit\<close> closes the sessions. The two platforms (\<^verbatim>\<open>cm_lbs_amap.c\<close>, \<^verbatim>\<open>cm_lbs_oneospos.c\<close>) build a
  request, send it with libcurl, take the answer apart with cJSON and remember the result. All memory
  and the system calls come from \<^verbatim>\<open>cm_lbs_platform.c\<close>.

  \<^bold>\<open>The model.\<close> A function that may use memory it must not (a write or a read past an array, a null or
  freed pointer, a missing NUL) is a function into an option, where \<open>None\<close> is that fault; every other
  outcome is a value. State is passed explicitly. 32-bit numbers are words; arrays are lists of
  characters with their NUL, strings are lists without it. Executable definitions are used throughout.

  \<^item> \<open>Prelude\<close>: arrays, C strings, numbers in decimal, little-endian bytes.
  \<^item> \<open>FileSys\<close>: files and directories as the programs use them, with a stream that stays open when it
    is not closed, room on the disk and denied paths. \<open>FileUtil\<close>: NV files, MD5 of a file and the check
    for a seek (\<^verbatim>\<open>cm_file_util.c\<close>). \<open>OpenFiles\<close>, \<open>OpenFilesClose\<close>: the list of open files in an
    explicit heap of nodes, so that freed and dangling nodes are visible, with the abstraction to the
    list of handles; \<open>HandleTable\<close>: the table of handles as an interface, with its interpretation on
    the list. \<open>MainProg\<close>: the test program.
  \<^item> \<open>LbsStore\<close>, \<open>LbsFiles\<close>: the environment of the AT layer (a disk and a supply of memory) and its
    configuration files, down to the bytes of the structures. \<open>LbsFormat\<close>: hexadecimal digits, digests,
    decimals. \<open>LbsConfig\<close>, \<open>LbsConfigGet\<close>: the set, read and test forms of \<open>AT+MLBSCFG\<close>;
    \<open>LbsConfigSpec\<close>: what they promise over an abstract store, and the refinement. \<open>LbsFact\<close>: the
    factory settings. \<open>LbsLoc\<close>: \<open>AT+MLBSLOC\<close> and the reports.
  \<^item> \<open>LbsData\<close>: the types and the state of the service, \<open>lbs_world\<close>, an extension of the environment:
    queue, sessions, live blocks of device information, static variables of the platforms, curl
    handles, and what was sent and reported. \<open>LbsCore\<close>, \<open>LbsSession\<close>: the functions of \<^verbatim>\<open>cm_lbs.c\<close>.
    \<open>LbsSteps\<close>: the invariant \<open>lbs_inv\<close>; \<open>LbsReach\<close>: the life of a session as an interface, interpreted
    for both platforms, and sessions through any calls of the application (\<open>run_calls\<close>); \<open>LbsTask\<close>: the turns of the task, the step relation \<open>lbs_step\<close> and the
    reachable states.
  \<^item> \<open>Json\<close>: trees of cJSON and the look-up of members. \<open>JsonString\<close>, \<open>JsonParse\<close>: the parser of
    \<^verbatim>\<open>libjson/src/cJSON.c\<close>, from the buffer and its bounds over strings with their escapes, numbers, arrays
    and objects to \<open>cJSON_Parse\<close>, with an allocator that may refuse and a count of the live blocks.
    \<open>JsonStringFacts\<close>, \<open>JsonFacts\<close>: every part returns, stays inside its arrays and leaves a well-formed
    tree or nothing. \<open>JsonUtf8\<close>: UTF-8 of a code point, and the literals that give it.
  \<^item> \<open>JsonPrint\<close>: the printer of \<^verbatim>\<open>cJSON.c\<close>, with its growing buffer whose bytes may not have been written.
    \<open>JsonPrintBuffer\<close>: the text a tree stands for (\<open>node_text\<close>), and the steps of the buffer;
    \<open>JsonPrintFacts\<close>: every part writes its piece of that text. \<open>JsonReadBack\<close>: the parser on the texts of
    strings and integers; \<open>JsonRoundtrip\<close>: on the text of a whole tree. \<open>JsonMinify\<close>: \<open>cJSON_Minify\<close> on the memory it rewrites, and
    what it leaves of a text.
  \<^item> \<open>JsonHeap\<close>: creating, adding, taking out, replacing and deleting nodes of \<^verbatim>\<open>cJSON.c\<close> on an explicit heap
    of nodes. \<open>JsonHeapFacts\<close>: the linked lists of children, and what each operation makes of the list;
    \<open>JsonTree\<close>: whole trees, the value they stand for, and \<open>cJSON_Delete\<close>; \<open>JsonMembers\<close>: creating a member
    when memory may run out. \<open>JsonCompare\<close>, \<open>JsonCopies\<close>: comparing and duplicating.
  \<^item> \<open>Md5\<close>: the MD5 of \<^verbatim>\<open>mbedtls-3.6.2/library/md5.c\<close> and the digest that RFC 1321 defines by padding;
    \<open>Md5Facts\<close>: what a context stands for, and that the two agree; \<open>Md5Test\<close>: the digest over \<open>int\<close>, in
    which the test vectors are evaluated.
  \<^item> \<open>Coordinate\<close>: the conversions of positions in \<^verbatim>\<open>coordinate.c\<close>, over real numbers, with the number that
    the header of the C library defines as \<open>M_E\<close> as an argument.
  \<^item> \<open>Curl\<close>: what is used of libcurl, and the values
    of variables that are never set (\<open>indet\<close>).
  \<^item> \<open>AmapParse\<close>, \<open>AmapRequest\<close>, \<open>AmapLocation\<close>: the AMAP platform; \<open>AmapFacts\<close>: it keeps the core's
    contract; \<open>AmapSpec\<close>: the results and the requests it should produce; \<open>AmapLife\<close>: its client and a
    request from start to end. \<open>OneosLocation\<close>, \<open>OneosFacts\<close>, \<open>OneosLife\<close>: the same for OneOS.
  \<^item> \<open>LbsPlatforms\<close>: turns of the task from the session to the report, for both platforms. \<open>LbsOnce\<close>: the
    static variables of the platforms through every history.
  \<^item> \<open>Samples\<close>: concrete states. The theories \<open>Prop...\<close> state the properties.

  \<^bold>\<open>What is shown.\<close> \<open>PropConfig\<close>: the set command refines an update of an abstract store and keeps it
  valid in every history; what was set is read back; bad values are refused. \<open>PropSession\<close>: a session excludes
  another one through all calls until it is released, refused requests release it with its block, failures are reported once with the right code,
  and the histories in which the service goes wrong. \<open>PropPlatforms\<close>: no history of calls and turns
  frees device information twice without being a fault already and every reachable state can be closed;
  a whole turn reports the position of the answer; a turn whose request fails is a double free; a platform
  serves only one request; what the parsers
  and the request builders do, with their bounds. \<open>PropFiles\<close>: round trips of the NV files, the table of
  handles, and its faults. \<open>PropFormat\<close>: decimals, hexadecimal digits and factory settings. \<open>PropJson\<close>:
  the parser returns on every input without a fault or a leak, its trees are well formed, and its
  \<open>\u\<close> literals become the UTF-8 of their code points. \<open>PropJsonPrint\<close>: the printer writes the text of
  every tree without a fault or a leak, what it writes parses to the same tree, and \<open>cJSON_Minify\<close> works in
  place and makes plain text of formatted text. \<open>PropJsonTree\<close>: editing a tree is editing the list of children of
  its value, what is taken out is freed exactly once, a member that cannot be created leaves nothing
  behind, and a copy compares equal. \<open>PropMd5\<close>: updates in any pieces give the digest
  of the whole, the self test passes, and what \<open>fs_md5\<close> and \<open>cm_lbs_md5\<close> compute with it.
  \<open>PropCoordinate\<close>: the conversion to GCJ-02 computes with a constant that is not the one of the file, and
  the conversion from BD-09 undoes the one to it up to a small error.

  \<^bold>\<open>Bounds.\<close> No definition needs fuel: loops over strings, lists and files are recursive on their data;
  the parser is recursive on the levels of nesting that are left, as the code counts them to its limit
  of 1000, and its loops over elements and members are partial functions that are proved to return; the
  walks over the list of open files are partial functions into an option, in which a walk that does
  not end is \<open>None\<close> as a fault is, and the invariant of the list excludes both. Memory requests are
  answered from a list, calls of libcurl from another; beyond their end they succeed.

  \<^bold>\<open>Not modelled.\<close> The rounding of floating-point numbers in \<^verbatim>\<open>coordinate.c\<close>, and the conversion between
  its numbers and their texts (\<open>atof\<close>, \<open>gcvt\<close>): the reports take the whole conversion of two texts as a
  parameter. \<^verbatim>\<open>cJSON_Utils.c\<close> (JSON pointers and patches) is not called by the program. In the heap of \<open>JsonHeap\<close> strings are values, so
  that two pointers to the same string are not told apart; the two trees of \<open>cJSON_Compare\<close> share no nodes
  below their roots. The service's functions take the parser as an argument, so that what is shown of them
  holds for every answer; the witnesses give them \<open>cJSON_tree\<close>, the parser of \<open>JsonParse\<close>. \<^verbatim>\<open>cm_file_at_cmd.c\<close> is
  compiled out. \<open>curl_test\<close> of the test program and the modem queries of the platform layer only call
  libraries. The mutexes of the core only wrap calls of the system. libcurl, lwip, libuv and what else
  mbedtls holds are third-party code.
\<close>

end
